(* ===== verification/Prelude.thy ===== *)
theory Prelude
  imports Complex_Main "HOL-Library.AList" "HOL-Library.Sublist"
begin

text \<open>
  Shared vocabulary of the development: results with errors as values (a Python
  exception is \<open>Inl\<close>, a return is \<open>Inr\<close>), the loops that stop at the first
  exception, Python dictionaries in insertion order, and the contract of a component whose operations either succeed
  with a new state or raise and leave the state alone.
\<close>

section \<open>Results\<close>

named_theorems result_simps \<open>unfolding of the result combinators\<close>

definition rbind :: "'e + 'a \<Rightarrow> ('a \<Rightarrow> 'e + 'b) \<Rightarrow> 'e + 'b" where
  "rbind m f = (case m of Inl e \<Rightarrow> Inl e | Inr x \<Rightarrow> f x)"

definition ensure :: "bool \<Rightarrow> 'e \<Rightarrow> 'e + unit" where
  "ensure b e = (if b then Inr () else Inl e)"

lemma rbind_Inl [simp]: "rbind (Inl e) f = Inl e"
  by (simp add: rbind_def)

lemma rbind_Inr [simp]: "rbind (Inr x) f = f x"
  by (simp add: rbind_def)

lemma rbind_eq_Inr [result_simps]:
  "rbind m f = Inr y \<longleftrightarrow> (\<exists>x. m = Inr x \<and> f x = Inr y)"
  by (cases m) auto

lemma rbind_eq_Inl [result_simps]:
  "rbind m f = Inl e \<longleftrightarrow> m = Inl e \<or> (\<exists>x. m = Inr x \<and> f x = Inl e)"
  by (cases m) auto

lemma ensure_True [simp]: "ensure True e = Inr ()"
  by (simp add: ensure_def)

lemma ensure_False [simp]: "ensure False e = Inl e"
  by (simp add: ensure_def)

lemma ensure_eq_Inr [simp]: "ensure b e = Inr u \<longleftrightarrow> b"
  by (simp add: ensure_def)

lemma ensure_eq_Inl [simp]: "ensure b e = Inl e' \<longleftrightarrow> \<not> b \<and> e' = e"
  by (auto simp: ensure_def)

lemma rbind_ensure_eq_Inr [simp]: "rbind (ensure b e) f = Inr y \<longleftrightarrow> b \<and> f () = Inr y"
  by (cases b) auto

text \<open>A loop over a list whose body returns the next loop state or raises.\<close>

fun rfold :: "('s \<Rightarrow> 'a \<Rightarrow> 'e + 's) \<Rightarrow> 's \<Rightarrow> 'a list \<Rightarrow> 'e + 's" where
  "rfold f s [] = Inr s"
| "rfold f s (x # xs) = rbind (f s x) (\<lambda>s'. rfold f s' xs)"

text \<open>A comprehension whose element expression may raise.\<close>

fun rmap :: "('a \<Rightarrow> 'e + 'b) \<Rightarrow> 'a list \<Rightarrow> 'e + 'b list" where
  "rmap f [] = Inr []"
| "rmap f (x # xs) = rbind (f x) (\<lambda>y. rbind (rmap f xs) (\<lambda>ys. Inr (y # ys)))"

text \<open>A loop whose body only checks.\<close>

fun rcheck :: "('a \<Rightarrow> 'e + unit) \<Rightarrow> 'a list \<Rightarrow> 'e + unit" where
  "rcheck f [] = Inr ()"
| "rcheck f (x # xs) = rbind (f x) (\<lambda>_. rcheck f xs)"

lemma rfold_append: "rfold f s (xs @ ys) = rbind (rfold f s xs) (\<lambda>s'. rfold f s' ys)"
  by (induction xs arbitrary: s) (auto simp: rbind_def split: sum.splits)

lemma rcheck_eq_Inr [simp]: "rcheck f xs = Inr u \<longleftrightarrow> (\<forall>x \<in> set xs. f x = Inr ())"
  by (induction xs) (auto simp: rbind_eq_Inr)

lemma rmap_eq_Inr: "rmap f xs = Inr ys \<longleftrightarrow> list_all2 (\<lambda>x y. f x = Inr y) xs ys"
proof (induction xs arbitrary: ys)
  case Nil
  then show ?case by auto
next
  case (Cons x xs)
  then show ?case by (cases ys) (auto simp: rbind_eq_Inr)
qed

lemma rmap_each: "rmap f xs = Inr ys \<Longrightarrow> x \<in> set xs \<Longrightarrow> \<exists>y. f x = Inr y"
  by (induction xs arbitrary: ys) (auto simp: rbind_eq_Inr)

lemma length_remdups_distinct [simp]: "length (remdups xs) = length xs \<longleftrightarrow> distinct xs"
  by (metis distinct_remdups_id length_remdups_eq distinct_remdups)

lemma rmap_length: "rmap f xs = Inr ys \<Longrightarrow> length ys = length xs"
  by (auto simp: rmap_eq_Inr dest: list_all2_lengthD)

lemma rmap_total: "(\<And>x. x \<in> set xs \<Longrightarrow> f x = Inr (g x)) \<Longrightarrow> rmap f xs = Inr (map g xs)"
  by (induction xs) auto

section \<open>Dictionaries in insertion order\<close>

text \<open>
  A Python dictionary is an association list with distinct keys:
  \<open>AList.update\<close> overwrites in place or appends, as \<open>d[k] = v\<close> does, and
  \<open>map_of\<close> is \<open>d.get\<close>.
\<close>

abbreviation dict_get :: "('k \<times> 'v) list \<Rightarrow> 'k \<Rightarrow> 'v option" where
  "dict_get d k \<equiv> map_of d k"

abbreviation dict_set :: "'k \<Rightarrow> 'v \<Rightarrow> ('k \<times> 'v) list \<Rightarrow> ('k \<times> 'v) list" where
  "dict_set \<equiv> AList.update"

abbreviation dict_keys :: "('k \<times> 'v) list \<Rightarrow> 'k list" where
  "dict_keys d \<equiv> map fst d"

abbreviation dict_ok :: "('k \<times> 'v) list \<Rightarrow> bool" where
  "dict_ok d \<equiv> distinct (map fst d)"

lemma dict_get_set [simp]: "dict_get (dict_set k v d) = (dict_get d)(k \<mapsto> v)"
  by (simp add: update_conv' fun_eq_iff)

lemma dict_ok_set [intro]: "dict_ok d \<Longrightarrow> dict_ok (dict_set k v d)"
  by (rule distinct_update)

lemma dict_set_fresh: "k \<notin> fst ` set d \<Longrightarrow> dict_set k v d = d @ [(k, v)]"
  by (induction d) auto

lemma dict_set_present_keys: "k \<in> fst ` set d \<Longrightarrow> dict_keys (dict_set k v d) = dict_keys d"
  by (induction d) auto

lemma dict_get_mem: "dict_ok d \<Longrightarrow> dict_get d k = Some v \<longleftrightarrow> (k, v) \<in> set d"
  by (simp add: map_of_eq_Some_iff)

lemma dict_get_None: "dict_get d k = None \<longleftrightarrow> k \<notin> fst ` set d"
  by (simp add: map_of_eq_None_iff)

lemma length_dict_set:
  "length (dict_set k v d) = (if k \<in> fst ` set d then length d else Suc (length d))"
  by (induction d) auto

section \<open>Stateful components\<close>

text \<open>
  An operation of a component takes the state and returns the state it leaves
  behind together with the exception it raised or the value it returned.  The
  state after an exception is part of the model: some operations record a
  refusal before they raise, some check the state only after they changed it.
\<close>

definition raising :: "'s \<Rightarrow> 'e + 'a \<Rightarrow> ('a \<Rightarrow> 's \<times> ('e + 'r)) \<Rightarrow> 's \<times> ('e + 'r)" where
  "raising s m k = (case m of Inl e \<Rightarrow> (s, Inl e) | Inr v \<Rightarrow> k v)"

lemma raising_Inl [simp]: "raising s (Inl e) k = (s, Inl e)"
  by (simp add: raising_def)

lemma raising_Inr [simp]: "raising s (Inr v) k = k v"
  by (simp add: raising_def)

definition run :: "('s \<Rightarrow> 'o \<Rightarrow> 's \<times> ('e + 'r)) \<Rightarrow> 's \<Rightarrow> 'o list \<Rightarrow> 's" where
  "run step = foldl (\<lambda>s x. fst (step s x))"

fun returned :: "'e + 'r \<Rightarrow> bool" where
  "returned (Inl e) = False"
| "returned (Inr r) = True"

fun count_returned :: "('s \<Rightarrow> 'o \<Rightarrow> 's \<times> ('e + 'r)) \<Rightarrow> 's \<Rightarrow> 'o list \<Rightarrow> nat" where
  "count_returned step s [] = 0"
| "count_returned step s (x # xs) =
     (if returned (snd (step s x)) then 1 else 0) + count_returned step (fst (step s x)) xs"

lemma run_Nil [simp]: "run step s [] = s"
  by (simp add: run_def)

lemma run_Cons [simp]: "run step s (x # xs) = run step (fst (step s x)) xs"
  by (simp add: run_def)

lemma run_append: "run step s (xs @ ys) = run step (run step s xs) ys"
  by (simp add: run_def)

lemma returned_iff: "returned r \<longleftrightarrow> (\<exists>v. r = Inr v)"
  by (cases r) auto

text \<open>A component with an invariant that every operation keeps, raising or not.\<close>

locale machine =
  fixes step :: "'s \<Rightarrow> 'o \<Rightarrow> 's \<times> ('e + 'r)"
    and inv :: "'s \<Rightarrow> bool"
  assumes step_inv: "inv s \<Longrightarrow> inv (fst (step s x))"
begin

lemma run_inv: "inv s \<Longrightarrow> inv (run step s xs)"
  by (induction xs arbitrary: s) (auto intro: step_inv)

lemma run_prefix_inv: "inv s \<Longrightarrow> prefix ys xs \<Longrightarrow> inv (run step s ys)"
  by (rule run_inv)

end

text \<open>
  A transactional component: an operation that raises changes nothing, and one
  that returns counts one revision.
\<close>

locale transactional = machine step inv
  for step :: "'s \<Rightarrow> 'o \<Rightarrow> 's \<times> ('e + 'r)" and inv :: "'s \<Rightarrow> bool" +
  fixes revision :: "'s \<Rightarrow> nat"
  assumes step_raise: "inv s \<Longrightarrow> snd (step s x) = Inl e \<Longrightarrow> fst (step s x) = s"
    and step_revision: "inv s \<Longrightarrow> snd (step s x) = Inr r \<Longrightarrow>
      revision (fst (step s x)) = Suc (revision s)"
begin

lemma run_revision: "inv s \<Longrightarrow> revision (run step s xs) = revision s + count_returned step s xs"
proof (induction xs arbitrary: s)
  case Nil
  then show ?case by simp
next
  case (Cons x xs)
  have "revision (run step (fst (step s x)) xs) =
      revision (fst (step s x)) + count_returned step (fst (step s x)) xs"
    using Cons.IH [OF step_inv] Cons.prems by blast
  moreover have "revision (fst (step s x)) =
      revision s + (if returned (snd (step s x)) then 1 else 0)"
    using step_raise [OF Cons.prems, of x] step_revision [OF Cons.prems, of x]
    by (cases "snd (step s x)") auto
  ultimately show ?case by simp
qed

lemma run_unchanged: "inv s \<Longrightarrow> revision (run step s xs) = revision s \<Longrightarrow> run step s xs = s"
proof (induction xs arbitrary: s)
  case Nil
  then show ?case by simp
next
  case (Cons x xs)
  have "count_returned step s (x # xs) = 0"
    using run_revision [OF Cons.prems(1), of "x # xs"] Cons.prems(2) by simp
  then have "\<not> returned (snd (step s x))"
    by (simp split: if_splits)
  then have same: "fst (step s x) = s"
    using step_raise [OF Cons.prems(1), of x] by (cases "snd (step s x)") auto
  with Cons show ?case by simp
qed

end

text \<open>
  A component with a quantity that only ever grows at its end, for example an
  append-only journal or an authoritative history.
\<close>

locale growing = machine step inv
  for step :: "'s \<Rightarrow> 'o \<Rightarrow> 's \<times> ('e + 'r)" and inv :: "'s \<Rightarrow> bool" +
  fixes log :: "'s \<Rightarrow> 'l list"
  assumes step_log: "inv s \<Longrightarrow> prefix (log s) (log (fst (step s x)))"
begin

lemma run_log: "inv s \<Longrightarrow> prefix (log s) (log (run step s xs))"
proof (induction xs arbitrary: s)
  case Nil
  then show ?case by simp
next
  case (Cons x xs)
  have "prefix (log (fst (step s x))) (log (run step (fst (step s x)) xs))"
    using Cons.IH [OF step_inv] Cons.prems by blast
  with step_log [OF Cons.prems, of x] show ?case
    by (auto intro: prefix_order.trans)
qed

end

text \<open>
  A component whose invariant holds as long as its callers respect a contract:
  \<open>along\<close> says that each operation of a run meets it in the state it finds.
\<close>

fun along :: "('s \<Rightarrow> 'o \<Rightarrow> 's \<times> ('e + 'r)) \<Rightarrow> ('s \<Rightarrow> 'o \<Rightarrow> bool) \<Rightarrow> 's \<Rightarrow> 'o list \<Rightarrow> bool" where
  "along step ok s [] = True"
| "along step ok s (x # xs) = (ok s x \<and> along step ok (fst (step s x)) xs)"

locale contract =
  fixes step :: "'s \<Rightarrow> 'o \<Rightarrow> 's \<times> ('e + 'r)"
    and ok :: "'s \<Rightarrow> 'o \<Rightarrow> bool"
    and inv :: "'s \<Rightarrow> bool"
  assumes step_contract: "inv s \<Longrightarrow> ok s x \<Longrightarrow> inv (fst (step s x))"
begin

lemma run_contract: "inv s \<Longrightarrow> along step ok s xs \<Longrightarrow> inv (run step s xs)"
  by (induction xs arbitrary: s) (auto intro: step_contract)

end

section \<open>Totals over dictionaries\<close>

lemma sum_dict_set:
  fixes f :: "'k \<times> 'v \<Rightarrow> 'a :: ab_group_add"
  assumes "dict_ok d"
  shows "sum_list (map f (dict_set k v d)) =
    sum_list (map f d) - (case dict_get d k of None \<Rightarrow> 0 | Some w \<Rightarrow> f (k, w)) + f (k, v)"
  using assms
proof (induction d)
  case (Cons x d)
  then show ?case by (cases x) (simp add: algebra_simps split: option.splits)
qed simp

lemma sum_dict_delete:
  fixes f :: "'k \<times> 'v \<Rightarrow> 'a :: ab_group_add"
  assumes "dict_ok d"
  shows "sum_list (map f (AList.delete k d)) =
    sum_list (map f d) - (case dict_get d k of None \<Rightarrow> 0 | Some w \<Rightarrow> f (k, w))"
  using assms
proof (induction d)
  case (Cons x d)
  then show ?case
    by (cases x) (simp add: algebra_simps split: option.splits)
qed simp

lemma dict_set_mem:
  assumes "dict_ok d"
  shows "x \<in> set (dict_set k v d) \<longleftrightarrow> x = (k, v) \<or> x \<in> set d \<and> fst x \<noteq> k"
proof -
  obtain k' v' where x: "x = (k', v')" by (cases x)
  have "x \<in> set (dict_set k v d) \<longleftrightarrow> dict_get (dict_set k v d) k' = Some v'"
    unfolding x by (rule dict_get_mem [OF dict_ok_set [OF assms], symmetric])
  also have "\<dots> \<longleftrightarrow> x = (k, v) \<or> dict_get d k' = Some v' \<and> k' \<noteq> k"
    by (auto simp: x)
  finally show ?thesis
    by (simp add: x dict_get_mem [OF assms])
qed

lemma dict_delete_mem: "x \<in> set (AList.delete k d) \<longleftrightarrow> x \<in> set d \<and> fst x \<noteq> k"
  by (auto simp: AList.delete_eq)

lemma dict_ok_delete [intro]: "dict_ok d \<Longrightarrow> dict_ok (AList.delete k d)"
  by (rule distinct_delete)

end
