(* ===== verification/PyString.thy ===== *)
theory PyString
  imports Prelude "HOL-Library.Char_ord" "HOL-Library.List_Lexorder"
begin

text \<open>
  The string operations of Python that the components use, on strings of code
  points below 256 (a \<open>char\<close> of HOL is one code point): \<open>split\<close>, \<open>strip\<close>,
  \<open>partition\<close>, \<open>join\<close>, \<open>lower\<close>, \<open>str\<close> and \<open>int\<close> of an integer, and the
  zero-padded fields of f-strings.
\<close>

section \<open>Whitespace, split, strip, join\<close>

text \<open>\<open>str.isspace\<close> for code points below 256.\<close>

definition py_space :: "char \<Rightarrow> bool" where
  "py_space c = (let n = (of_char c :: nat) in
     (9 \<le> n \<and> n \<le> 13) \<or> (28 \<le> n \<and> n \<le> 32) \<or> n = 133 \<or> n = 160)"

lemma split_rest_shorter:
  assumes "dropWhile p s = c # cs"
  shows "length (dropWhile q cs) < length s"
  using length_dropWhile_le [of q cs] length_dropWhile_le [of p s] assms by simp

function py_split :: "string \<Rightarrow> string list" where
  "py_split s = (case dropWhile py_space s of
     [] \<Rightarrow> []
   | c # cs \<Rightarrow> (c # takeWhile (\<lambda>d. \<not> py_space d) cs) # py_split (dropWhile (\<lambda>d. \<not> py_space d) cs))"
  by pat_completeness auto
termination
  by (relation "measure length") (auto intro: split_rest_shorter)

declare py_split.simps [simp del]

definition py_strip :: "string \<Rightarrow> string" where
  "py_strip s = rev (dropWhile py_space (rev (dropWhile py_space s)))"

fun py_join :: "string \<Rightarrow> string list \<Rightarrow> string" where
  "py_join sep [] = []"
| "py_join sep [x] = x"
| "py_join sep (x # y # zs) = x @ sep @ py_join sep (y # zs)"

text \<open>\<open>s.partition(sep)\<close>: the text before the first occurrence and the text after it.\<close>

fun py_partition :: "string \<Rightarrow> string \<Rightarrow> (string \<times> string) option" where
  "py_partition sep [] = (if sep = [] then Some ([], []) else None)"
| "py_partition sep (c # cs) =
     (if prefix sep (c # cs) then Some ([], drop (length sep) (c # cs))
      else map_option (\<lambda>(h, t). (c # h, t)) (py_partition sep cs))"

text \<open>A token is what \<open>split\<close> can return: non-empty and free of whitespace.\<close>

definition token :: "string \<Rightarrow> bool" where
  "token t \<longleftrightarrow> t \<noteq> [] \<and> (\<forall>c \<in> set t. \<not> py_space c)"

lemma py_space_blank [simp]: "py_space CHR '' ''"
  by (simp add: py_space_def)

lemma py_split_Nil [simp]: "py_split [] = []"
  by (simp add: py_split.simps)

lemma py_split_space: "py_space c \<Longrightarrow> py_split (c # cs) = py_split cs"
  by (subst (1 2) py_split.simps) simp

lemma py_split_token_Nil:
  assumes "token t"
  shows "py_split t = [t]"
proof -
  obtain c cs where t: "t = c # cs" "\<not> py_space c" "\<forall>d \<in> set cs. \<not> py_space d"
    using assms by (cases t) (auto simp: token_def)
  have "takeWhile (\<lambda>d. \<not> py_space d) cs = cs" "dropWhile (\<lambda>d. \<not> py_space d) cs = []"
    using t(3) by (simp_all add: takeWhile_eq_all_conv dropWhile_eq_Nil_conv)
  with t(1,2) show ?thesis
    by (subst py_split.simps) (simp del: dropWhile_eq_Nil_conv takeWhile_eq_all_conv)
qed

lemma py_split_token_append:
  assumes "token t" "py_space d"
  shows "py_split (t @ d # rest) = t # py_split rest"
proof -
  obtain c cs where t: "t = c # cs" "\<not> py_space c" "\<forall>e \<in> set cs. \<not> py_space e"
    using assms(1) by (cases t) (auto simp: token_def)
  have "takeWhile (\<lambda>e. \<not> py_space e) (cs @ d # rest) = cs"
    "dropWhile (\<lambda>e. \<not> py_space e) (cs @ d # rest) = d # rest"
    using t(3) assms(2) by (simp_all add: takeWhile_append2 dropWhile_append2)
  with t(1,2) have "py_split (t @ d # rest) = t # py_split (d # rest)"
    by (subst py_split.simps) simp
  with assms(2) show ?thesis by (simp add: py_split_space)
qed

lemma py_split_join:
  assumes "\<forall>t \<in> set ts. token t"
  shows "py_split (py_join '' '' ts) = ts"
  using assms
proof (induction "'' ''" ts rule: py_join.induct)
  case (3 x y zs)
  then show ?case by (simp add: py_split_token_append)
qed (simp_all add: py_split_token_Nil)

lemma py_split_tokens: "t \<in> set (py_split s) \<Longrightarrow> token t"
proof (induction s rule: py_split.induct)
  case (1 s)
  show ?case
  proof (cases "dropWhile py_space s")
    case Nil
    with "1.prems" show ?thesis by (subst (asm) py_split.simps) simp
  next
    case (Cons c cs)
    then have c: "\<not> py_space c"
      using hd_dropWhile [of py_space s] by simp
    have "token (c # takeWhile (\<lambda>d. \<not> py_space d) cs)"
      using c by (auto simp: token_def dest: set_takeWhileD)
    with "1.prems" Cons "1.IH" [OF Cons] show ?thesis
      by (subst (asm) py_split.simps) auto
  qed
qed

lemma dropWhile_id: "s = [] \<or> \<not> p (hd s) \<Longrightarrow> dropWhile p s = s"
  by (cases s) auto

lemma py_strip_id:
  assumes "s = [] \<or> \<not> py_space (hd s) \<and> \<not> py_space (last s)"
  shows "py_strip s = s"
proof -
  have "dropWhile py_space s = s" "dropWhile py_space (rev s) = rev s"
    using assms by (auto intro!: dropWhile_id simp: hd_rev)
  then show ?thesis by (simp add: py_strip_def)
qed

lemma py_strip_token: "token t \<Longrightarrow> py_strip t = t"
  by (rule py_strip_id) (auto simp: token_def)

section \<open>Case, decimal numerals\<close>

text \<open>\<open>str.lower\<close> for code points below 256.\<close>

definition lower_char :: "char \<Rightarrow> char" where
  "lower_char c = (let n = (of_char c :: nat) in
     if (65 \<le> n \<and> n \<le> 90) \<or> (192 \<le> n \<and> n \<le> 222 \<and> n \<noteq> 215) then char_of (n + 32) else c)"

definition py_lower :: "string \<Rightarrow> string" where
  "py_lower s = map lower_char s"

definition is_digit :: "char \<Rightarrow> bool" where
  "is_digit c = (let n = (of_char c :: nat) in 48 \<le> n \<and> n \<le> 57)"

definition digit_val :: "char \<Rightarrow> nat" where
  "digit_val c = of_char c - 48"

definition digit_char :: "nat \<Rightarrow> char" where
  "digit_char d = ''0123456789'' ! d"

fun show_nat :: "nat \<Rightarrow> string" where
  "show_nat n = (if n < 10 then [digit_char n] else show_nat (n div 10) @ [digit_char (n mod 10)])"

declare show_nat.simps [simp del]

definition show_int :: "int \<Rightarrow> string" where
  "show_int i = (if i < 0 then CHR ''-'' # show_nat (nat (- i)) else show_nat (nat i))"

text \<open>The interpreter's limit on the digits of an integer converted from or to text.\<close>

definition int_max_str_digits :: nat where
  "int_max_str_digits = 4300"

definition py_str_int :: "int \<Rightarrow> string option" where
  "py_str_int i = (if length (show_nat (nat \<bar>i\<bar>)) > int_max_str_digits then None else Some (show_int i))"

text \<open>The digits of a literal: single underscores may stand between digits.\<close>

fun int_digits :: "bool \<Rightarrow> nat \<Rightarrow> string \<Rightarrow> nat option" where
  "int_digits d acc [] = (if d then Some acc else None)"
| "int_digits d acc (c # cs) =
     (if is_digit c then int_digits True (10 * acc + digit_val c) cs
      else if c = CHR ''_'' \<and> d then int_digits False acc cs
      else None)"

definition int_sign :: "string \<Rightarrow> bool \<times> string" where
  "int_sign s = (case s of
     [] \<Rightarrow> (False, [])
   | c # cs \<Rightarrow> if c = CHR ''-'' then (True, cs) else if c = CHR ''+'' then (False, cs) else (False, s))"

text \<open>\<open>int(s)\<close>; \<open>None\<close> is \<open>ValueError\<close>.\<close>

definition py_int :: "string \<Rightarrow> int option" where
  "py_int s = (let (neg, ds) = int_sign (py_strip s) in
     if length (filter is_digit ds) > int_max_str_digits then None
     else map_option (\<lambda>n. if neg then - int n else int n) (int_digits False 0 ds))"

lemma of_digit_char: "d < 10 \<Longrightarrow> (of_char (digit_char d) :: nat) = 48 + d"
  by (auto simp: digit_char_def numeral_eq_Suc less_Suc_eq)

lemma is_digit_digit_char [simp]: "d < 10 \<Longrightarrow> is_digit (digit_char d)"
  by (simp add: is_digit_def of_digit_char)

lemma digit_val_digit_char [simp]: "d < 10 \<Longrightarrow> digit_val (digit_char d) = d"
  by (simp add: digit_val_def of_digit_char)

lemma digit_not_space: "is_digit c \<Longrightarrow> \<not> py_space c"
  by (auto simp: is_digit_def py_space_def Let_def)

lemma show_nat_digits: "c \<in> set (show_nat n) \<Longrightarrow> is_digit c"
proof (induction n rule: show_nat.induct)
  case (1 n)
  then show ?case by (subst (asm) (2) show_nat.simps) (auto split: if_splits)
qed

lemma show_nat_nonempty [simp]: "show_nat n \<noteq> []"
  by (subst show_nat.simps) simp

lemma token_show_nat [simp]: "token (show_nat n)"
  by (auto simp: token_def dest: show_nat_digits digit_not_space)

lemma int_digits_append:
  "(\<forall>c \<in> set xs. is_digit c) \<Longrightarrow> d \<or> xs \<noteq> [] \<Longrightarrow> is_digit c \<Longrightarrow>
   int_digits d acc (xs @ [c]) = map_option (\<lambda>n. 10 * n + digit_val c) (int_digits d acc xs)"
proof (induction xs arbitrary: d acc)
  case (Cons x xs)
  then show ?case by simp
qed simp

lemma int_digits_show_nat: "int_digits d 0 (show_nat n) = Some n"
proof (induction n rule: show_nat.induct)
  case (1 n)
  show ?case
  proof (cases "n < 10")
    case True
    then show ?thesis by (subst show_nat.simps) simp
  next
    case False
    with 1 have "int_digits d 0 (show_nat (n div 10)) = Some (n div 10)" by simp
    with False show ?thesis
      by (subst show_nat.simps) (simp add: int_digits_append show_nat_digits)
  qed
qed

lemma digit_not_sign: "is_digit c \<Longrightarrow> c \<noteq> CHR ''-'' \<and> c \<noteq> CHR ''+'' \<and> c \<noteq> CHR ''_''"
  by (auto simp: is_digit_def)

lemma int_sign_show_nat: "int_sign (show_nat n) = (False, show_nat n)"
proof (cases "show_nat n")
  case (Cons c cs)
  then have "is_digit c" using show_nat_digits [of c n] by simp
  with Cons show ?thesis by (simp add: int_sign_def digit_not_sign)
qed simp

lemma filter_digit_show_nat: "filter is_digit (show_nat n) = show_nat n"
  by (simp add: filter_id_conv show_nat_digits)

lemma py_int_py_str_int:
  assumes "0 \<le> i" "py_str_int i = Some s"
  shows "py_int s = Some i"
proof -
  have len: "\<not> length (show_nat (nat i)) > int_max_str_digits" and s: "s = show_nat (nat i)"
    using assms by (auto simp: py_str_int_def show_int_def split: if_splits)
  then show ?thesis
    using assms(1)
    by (simp add: py_int_def py_strip_token int_sign_show_nat filter_digit_show_nat int_digits_show_nat)
qed

lemma py_str_int_token: "0 \<le> i \<Longrightarrow> py_str_int i = Some s \<Longrightarrow> token s"
  by (auto simp: py_str_int_def show_int_def split: if_splits)

text \<open>\<open>f"{n:0wd}"\<close> for a non-negative number.\<close>

definition pad0 :: "nat \<Rightarrow> nat \<Rightarrow> string" where
  "pad0 w n = replicate (w - length (show_nat n)) CHR ''0'' @ show_nat n"

lemma show_nat_inj: "show_nat m = show_nat n \<Longrightarrow> m = n"
  by (metis int_digits_show_nat option.inject)

lemma int_digits_zeros: "int_digits True 0 (replicate k CHR ''0'' @ xs) = int_digits True 0 xs"
  by (induction k) (simp_all add: is_digit_def digit_val_def)

lemma pad0_inj: "pad0 w m = pad0 w n \<Longrightarrow> m = n"
proof -
  assume "pad0 w m = pad0 w n"
  then have "int_digits True 0 (pad0 w m) = int_digits True 0 (pad0 w n)" by simp
  then show "m = n" by (simp add: pad0_def int_digits_zeros int_digits_show_nat)
qed

lemma pad0_digits: "c \<in> set (pad0 w n) \<Longrightarrow> is_digit c"
proof -
  assume "c \<in> set (pad0 w n)"
  then have "c = CHR ''0'' \<or> c \<in> set (show_nat n)"
    by (auto simp: pad0_def)
  moreover have "is_digit CHR ''0''"
    by (simp add: is_digit_def)
  ultimately show ?thesis
    using show_nat_digits by blast
qed

section \<open>Hexadecimal digests\<close>

text \<open>\<open>any(ch not in "0123456789abcdef" for ch in s)\<close> and the length test of a SHA-256 text.\<close>

definition hex_char :: "char \<Rightarrow> bool" where
  "hex_char c \<longleftrightarrow> c \<in> set ''0123456789abcdef''"

definition sha256_text :: "string \<Rightarrow> bool" where
  "sha256_text s \<longleftrightarrow> length s = 64 \<and> (\<forall>c \<in> set s. hex_char c)"

end
