(* ===== verification/PyFloat.thy ===== *)
theory PyFloat
  imports Complex_Main
begin

text \<open>
  Python floats are IEEE 754 binary64 numbers.  A finite one is the rational it
  denotes; every arithmetic operation rounds the exact result to the nearest
  representable number, ties to the even significand, with gradual underflow and
  overflow to infinity.  The sign of zero is not represented: no operation of
  the modelled code distinguishes the two zeros.
\<close>

datatype pyfloat = Fin rat | PosInf | NegInf | NaN

section \<open>Rounding\<close>

function bit_length :: "int \<Rightarrow> nat" where
  "bit_length n = (if n \<le> 0 then 0 else Suc (bit_length (n div 2)))"
  by pat_completeness auto
termination
  by (relation "measure nat") auto

declare bit_length.simps [simp del]

text \<open>The exponent of the leading bit of a positive rational.\<close>

definition log2_floor :: "rat \<Rightarrow> int" where
  "log2_floor x = (let (p, q) = quotient_of x;
      k = int (bit_length p) - int (bit_length q)
    in if 2 powi k \<le> x then k else k - 1)"

definition rnd_even :: "rat \<Rightarrow> int" where
  "rnd_even y = (let f = \<lfloor>y\<rfloor>; d = y - of_int f in
     if d < 1 / 2 then f else if d > 1 / 2 then f + 1 else if even f then f else f + 1)"

definition quantum_exp :: "rat \<Rightarrow> int" where
  "quantum_exp x = max (log2_floor \<bar>x\<bar> - 52) (- 1074)"

definition round64 :: "rat \<Rightarrow> rat" where
  "round64 x = (if x = 0 then 0
     else of_int (rnd_even (x / 2 powi quantum_exp x)) * 2 powi quantum_exp x)"

definition max_double :: rat where
  "max_double = (2 ^ 53 - 1) * 2 ^ 971"

definition of_rat64 :: "rat \<Rightarrow> pyfloat" where
  "of_rat64 x = (let r = round64 x in
     if r > max_double then PosInf else if r < - max_double then NegInf else Fin r)"

text \<open>For evaluation: amounts of ordinary size need no comparison with the largest double.\<close>

lemma of_rat64_code [code]:
  "of_rat64 x = (let r = round64 x in
     if \<bar>r\<bar> \<le> 2 ^ 63 then Fin r
     else if r > max_double then PosInf else if r < - max_double then NegInf else Fin r)"
proof -
  have "(2 :: rat) ^ 63 \<le> max_double"
    by (simp add: max_double_def)
  then show ?thesis
    by (auto simp: of_rat64_def Let_def abs_le_iff)
qed

lemma bit_length_bounds: "0 < n \<Longrightarrow> 2 ^ bit_length n \<le> 2 * n \<and> n < 2 ^ bit_length n"
proof (induction n rule: bit_length.induct)
  case (1 n)
  define b where "b = (2::int) ^ bit_length (n div 2)"
  have n: "2 ^ bit_length n = 2 * b"
    using 1 by (simp add: bit_length.simps [of n] b_def)
  show ?case
  proof (cases "n div 2 = 0")
    case True
    with 1 have "n = 1" by presburger
    then show ?thesis using n by (simp add: b_def bit_length.simps [of 0])
  next
    case False
    with 1 have "b \<le> 2 * (n div 2)" "n div 2 < b" by (simp_all add: b_def)
    then show ?thesis unfolding n by presburger
  qed
qed

lemma log2_floor_bounds:
  assumes "0 < x"
  shows "2 powi log2_floor x \<le> x \<and> x < 2 powi (log2_floor x + 1)"
proof -
  obtain p q where pq: "quotient_of x = (p, q)" by (cases "quotient_of x")
  have q: "0 < q" using pq by (rule quotient_of_denom_pos)
  have x: "x = of_int p / of_int q" using pq by (rule quotient_of_div)
  have p: "0 < p" using assms x q by (simp add: zero_less_divide_iff)
  define a b where "a = bit_length p" and "b = bit_length q"
  have A': "(2::rat) ^ a \<le> 2 * of_int p" "of_int p < (2::rat) ^ a"
    using bit_length_bounds [OF p, folded a_def]
    by (metis of_int_less_iff of_int_le_iff of_int_mult of_int_numeral of_int_power)+
  have B': "(2::rat) ^ b \<le> 2 * of_int q" "of_int q < (2::rat) ^ b"
    using bit_length_bounds [OF q, folded b_def]
    by (metis of_int_less_iff of_int_le_iff of_int_mult of_int_numeral of_int_power)+
  have split: "(2::rat) powi (int a - int b) = 2 ^ a / 2 ^ b"
    by (simp add: power_int_diff)
  have lo: "(2::rat) powi (int a - int b - 1) \<le> x"
  proof -
    have "2 ^ a * of_int q \<le> 2 * of_int p * (2::rat) ^ b"
      using A' B' p q by (intro mult_mono) auto
    moreover have e: "(2::rat) powi (int a - int b - 1) = 2 ^ a / 2 ^ b / 2"
      using power_int_diff [of "2::rat" "int a - int b" 1] split by simp
    ultimately show ?thesis using q unfolding x e by (simp add: field_simps)
  qed
  have hi: "x < (2::rat) powi (int a - int b + 1)"
  proof -
    have "of_int p * (2::rat) ^ b < 2 ^ a * (2 * of_int q)"
      using A' B' p q by (intro mult_less_le_imp_less) auto
    moreover have e: "(2::rat) powi (int a - int b + 1) = 2 ^ a / 2 ^ b * 2"
      using power_int_add [of "2::rat" "int a - int b" 1] split by simp
    ultimately show ?thesis using q unfolding x e by (simp add: field_simps)
  qed
  have "log2_floor x = (if 2 powi (int a - int b) \<le> x then int a - int b else int a - int b - 1)"
    unfolding log2_floor_def pq a_def b_def Let_def by simp
  then show ?thesis using lo hi by auto
qed

lemma powi_less_iff [simp]: "(2::rat) powi m < 2 powi n \<longleftrightarrow> m < n"
  by (metis linorder_not_less order_less_imp_not_less power_int_strict_increasing one_less_numeral_iff
      semiring_norm(76) order_le_less)

lemma powi_le_iff [simp]: "(2::rat) powi m \<le> 2 powi n \<longleftrightarrow> m \<le> n"
  using powi_less_iff [of n m] by (simp only: not_less [symmetric])

lemma powi_shift: "(2::rat) powi k / 2 powi e = 2 powi (k - e)"
  by (simp add: power_int_diff)

lemma log2_floor_unique:
  assumes "0 < x" "2 powi k \<le> x" "x < 2 powi (k + 1)"
  shows "log2_floor x = k"
proof -
  have "2 powi k < (2::rat) powi (log2_floor x + 1)" "2 powi log2_floor x < (2::rat) powi (k + 1)"
    using log2_floor_bounds [OF assms(1)] assms(2,3) by linarith+
  then have "k < log2_floor x + 1" "log2_floor x < k + 1"
    by simp_all
  then show ?thesis by simp
qed

lemma log2_floor_mono:
  assumes "0 < x" "x \<le> y"
  shows "log2_floor x \<le> log2_floor y"
proof -
  have "2 powi log2_floor x < (2::rat) powi (log2_floor y + 1)"
    using log2_floor_bounds [of x] log2_floor_bounds [of y] assms by linarith
  then show ?thesis by simp
qed

lemma rnd_even_of_int [simp]: "rnd_even (of_int i) = i"
  by (simp add: rnd_even_def)

lemma rnd_even_near: "\<bar>of_int (rnd_even y) - y\<bar> \<le> 1 / 2"
  using floor_correct [of y] by (simp add: rnd_even_def Let_def abs_if field_simps; linarith)

lemma rnd_even_mono: "x \<le> y \<Longrightarrow> rnd_even x \<le> rnd_even y"
proof -
  assume xy: "x \<le> y"
  then have f: "\<lfloor>x\<rfloor> \<le> \<lfloor>y\<rfloor>" by (rule floor_mono)
  show ?thesis
  proof (cases "\<lfloor>x\<rfloor> = \<lfloor>y\<rfloor>")
    case True
    with xy show ?thesis by (auto simp: rnd_even_def Let_def)
  next
    case False
    with f show ?thesis by (auto simp: rnd_even_def Let_def)
  qed
qed

lemma rnd_even_le_int: "y \<le> of_int i \<Longrightarrow> rnd_even y \<le> i"
  using rnd_even_mono [of y "of_int i"] by simp

lemma rnd_even_ge_int: "of_int i \<le> y \<Longrightarrow> i \<le> rnd_even y"
  using rnd_even_mono [of "of_int i" y] by simp

section \<open>Exact values and monotonicity\<close>

text \<open>A number with at most 53 significant bits above the smallest quantum is not changed.\<close>

lemma powi_is_int: "0 \<le> k \<Longrightarrow> (2::rat) powi k = of_int (2 ^ nat k)"
  by (simp add: power_int_def)

lemma round64_exact:
  assumes "x = of_int m * 2 powi k" "- 1074 \<le> k" "\<bar>m\<bar> \<le> 2 ^ 53"
  shows "round64 x = x"
proof (cases "x = 0")
  case False
  define e where "e = quantum_exp x"
  have "\<exists>i. x / 2 powi e = of_int i"
  proof (cases "e \<le> k")
    case True
    then have "2 powi k / (2::rat) powi e = of_int (2 ^ nat (k - e))"
      using powi_is_int [of "k - e"] powi_shift [of k e] by simp
    then have "x / 2 powi e = of_int (m * 2 ^ nat (k - e))"
      unfolding assms(1) times_divide_eq_right [symmetric] of_int_mult by (rule arg_cong)
    then show ?thesis ..
  next
    case False
    have pos: "0 < \<bar>x\<bar>" using \<open>x \<noteq> 0\<close> by simp
    from False assms(2) have e: "e = log2_floor \<bar>x\<bar> - 52" "k < e"
      by (auto simp: e_def quantum_exp_def split: if_splits)
    have "2 powi (e + 52) \<le> \<bar>x\<bar>"
      using log2_floor_bounds [OF pos] e(1) by simp
    also have "\<bar>x\<bar> = of_int \<bar>m\<bar> * 2 powi k"
      by (simp add: assms(1) abs_mult)
    finally have "2 powi (e + 52 - k) \<le> (of_int \<bar>m\<bar> :: rat)"
      by (simp add: power_int_diff field_simps)
    also have "\<dots> \<le> 2 powi 53"
      using assms(3) by (simp add: power_int_def)
    finally have "e + 52 - k \<le> 53" by (simp only: powi_le_iff)
    with e(2) have k: "e = k + 1" by simp
    have "(of_int (2 ^ 53) :: rat) \<le> of_int \<bar>m\<bar>"
      using \<open>2 powi (e + 52 - k) \<le> (of_int \<bar>m\<bar> :: rat)\<close> k by (simp add: power_int_def)
    then have "2 ^ 53 \<le> \<bar>m\<bar>" by (simp only: of_int_le_iff)
    with assms(3) have "\<bar>m\<bar> = 2 ^ 53" by simp
    then have "m = 2 * 2 ^ 52 \<or> m = 2 * - (2 ^ 52)" by auto
    then obtain j where "m = 2 * j" by blast
    then have "x / 2 powi e = of_int j"
      by (simp add: assms(1) k power_int_add)
    then show ?thesis ..
  qed
  then obtain i where i: "x / 2 powi e = of_int i" ..
  then have "round64 x = of_int i * 2 powi e"
    using False by (simp add: round64_def e_def)
  also have "\<dots> = x" using i by (simp add: field_simps)
  finally show ?thesis .
qed (simp add: round64_def)

lemma round64_of_int: "\<bar>m\<bar> \<le> 2 ^ 53 \<Longrightarrow> round64 (of_int m) = of_int m"
  by (rule round64_exact [of _ m 0]) simp_all

lemma round64_0 [simp]: "round64 0 = 0"
  by (simp add: round64_def)

lemma round64_nonneg: "0 \<le> x \<Longrightarrow> 0 \<le> round64 x"
  using rnd_even_ge_int [of 0] by (simp add: round64_def)

lemma round64_upper:
  assumes "0 < x" "- 1074 \<le> log2_floor x + 1"
  shows "round64 x \<le> 2 powi (log2_floor x + 1)"
proof -
  define e where "e = quantum_exp x"
  have le: "e \<le> log2_floor x + 1"
    using assms by (simp add: e_def quantum_exp_def)
  have "x / 2 powi e \<le> 2 powi (log2_floor x + 1) / 2 powi e"
    using log2_floor_bounds [OF assms(1)] by (intro divide_right_mono) auto
  then have "x / 2 powi e \<le> of_int (2 ^ nat (log2_floor x + 1 - e))"
    using le powi_is_int [of "log2_floor x + 1 - e"] powi_shift [of "log2_floor x + 1" e] by simp
  then have "rnd_even (x / 2 powi e) \<le> 2 ^ nat (log2_floor x + 1 - e)"
    by (rule rnd_even_le_int)
  then have "(of_int (rnd_even (x / 2 powi e)) :: rat) \<le> 2 powi (log2_floor x + 1 - e)"
    using le powi_is_int [of "log2_floor x + 1 - e"] by (simp add: of_int_le_iff del: of_int_power)
  then show ?thesis
    using assms(1) by (simp add: round64_def e_def [symmetric] power_int_diff field_simps)
qed

lemma round64_lower:
  assumes "0 < x" "- 1074 \<le> log2_floor x - 52"
  shows "2 powi log2_floor x \<le> round64 x"
proof -
  have e: "quantum_exp x = log2_floor x - 52"
    using assms by (simp add: quantum_exp_def)
  have "of_int (2 ^ 52) \<le> x / 2 powi quantum_exp x"
    using log2_floor_bounds [OF assms(1)] by (simp add: e power_int_diff field_simps)
  then have "2 ^ 52 \<le> rnd_even (x / 2 powi quantum_exp x)"
    by (rule rnd_even_ge_int)
  then have "(2 ^ 52 :: rat) \<le> of_int (rnd_even (x / 2 powi quantum_exp x))"
    by (metis of_int_le_iff of_int_numeral of_int_power)
  then have "2 ^ 52 * 2 powi quantum_exp x \<le> round64 x"
    using assms(1) by (simp add: round64_def)
  then show ?thesis by (simp add: e power_int_diff)
qed

lemma round64_mono_pos:
  assumes "0 < x" "x \<le> y"
  shows "round64 x \<le> round64 y"
proof (cases "quantum_exp x = quantum_exp y")
  case True
  with assms show ?thesis
    by (auto simp: round64_def intro!: mult_right_mono rnd_even_mono divide_right_mono)
next
  case False
  have L: "log2_floor x \<le> log2_floor y" using assms by (rule log2_floor_mono)
  with False assms have lt: "- 1074 < log2_floor y - 52" "log2_floor x < log2_floor y"
    by (auto simp: quantum_exp_def max_def split: if_splits)
  show ?thesis
  proof (cases "- 1074 \<le> log2_floor x + 1")
    case True
    then have "round64 x \<le> 2 powi (log2_floor x + 1)" using assms by (intro round64_upper) auto
    also have "\<dots> \<le> (2::rat) powi log2_floor y" using lt by (intro power_int_increasing) auto
    also have "\<dots> \<le> round64 y" using lt assms by (intro round64_lower) auto
    finally show ?thesis .
  next
    case False
    then have e: "quantum_exp x = - 1074" using assms by (simp add: quantum_exp_def)
    have "x < 2 powi (log2_floor x + 1)" using log2_floor_bounds [OF assms(1)] by simp
    also have "\<dots> \<le> (2::rat) powi (- 1074)" using False by (intro power_int_increasing) auto
    finally have "x / 2 powi quantum_exp x \<le> of_int 1" by (simp add: e)
    then have "rnd_even (x / 2 powi quantum_exp x) \<le> 1" by (rule rnd_even_le_int)
    then have "round64 x \<le> 2 powi (- 1074)"
      using assms(1) by (simp add: round64_def e)
    also have "\<dots> \<le> (2::rat) powi log2_floor y" using lt by (intro power_int_increasing) auto
    also have "\<dots> \<le> round64 y" using lt assms by (intro round64_lower) auto
    finally show ?thesis .
  qed
qed

lemma floor_minus_frac:
  "(of_int \<lfloor>y\<rfloor> = (y :: rat)) \<or> \<lfloor>- y\<rfloor> = - \<lfloor>y\<rfloor> - 1"
proof (cases "of_int \<lfloor>y\<rfloor> = y")
  case False
  then have "of_int \<lfloor>y\<rfloor> < y" "y < of_int \<lfloor>y\<rfloor> + 1"
    using floor_correct [of y] by linarith+
  then have "of_int (- \<lfloor>y\<rfloor> - 1) \<le> - y" "- y < of_int (- \<lfloor>y\<rfloor> - 1) + 1"
    by simp_all
  then have "\<lfloor>- y\<rfloor> = - \<lfloor>y\<rfloor> - 1" by (rule floor_unique)
  then show ?thesis ..
qed simp

lemma rnd_even_minus: "rnd_even (- y) = - rnd_even y"
proof (cases "of_int \<lfloor>y\<rfloor> = y")
  case True
  then obtain i where i: "y = of_int i" by metis
  have "rnd_even (of_int (- i)) = - rnd_even (of_int i)"
    by (simp only: rnd_even_of_int)
  then show ?thesis unfolding i by simp
next
  case False
  then have f: "\<lfloor>- y\<rfloor> = - \<lfloor>y\<rfloor> - 1" using floor_minus_frac [of y] by blast
  show ?thesis unfolding rnd_even_def Let_def f by (auto simp: field_simps)
qed

lemma round64_minus: "round64 (- x) = - round64 x"
  by (simp add: round64_def quantum_exp_def rnd_even_minus)

lemma round64_mono: "x \<le> y \<Longrightarrow> round64 x \<le> round64 y"
proof -
  assume xy: "x \<le> y"
  consider "0 < x" | "x \<le> 0" "0 \<le> y" | "y < 0" by linarith
  then show ?thesis
  proof cases
    case 1
    then show ?thesis using xy by (rule round64_mono_pos)
  next
    case 2
    then have "0 \<le> round64 (- x)" "0 \<le> round64 y" by (auto intro: round64_nonneg)
    then show ?thesis by (simp add: round64_minus)
  next
    case 3
    then have "round64 (- y) \<le> round64 (- x)" using xy by (intro round64_mono_pos) auto
    then show ?thesis by (simp add: round64_minus)
  qed
qed

text \<open>The result of rounding is representable: rounding again changes nothing.\<close>

definition is_double :: "rat \<Rightarrow> bool" where
  "is_double x \<longleftrightarrow> round64 x = x \<and> \<bar>x\<bar> \<le> max_double"

lemma is_double_0 [simp]: "is_double 0"
  by (simp add: is_double_def max_double_def)

lemma of_rat64_double: "is_double x \<Longrightarrow> of_rat64 x = Fin x"
  by (auto simp: is_double_def of_rat64_def Let_def abs_le_iff)

lemma is_double_int: "\<bar>m\<bar> \<le> 2 ^ 53 \<Longrightarrow> is_double (of_int m)"
proof -
  assume m: "\<bar>m\<bar> \<le> 2 ^ 53"
  then have "\<bar>of_int m :: rat\<bar> \<le> 2 ^ 53"
    by (metis of_int_abs of_int_le_iff of_int_numeral of_int_power)
  also have "\<dots> \<le> max_double" by (simp add: max_double_def)
  finally show ?thesis using m by (simp add: is_double_def round64_of_int)
qed

section \<open>Operations\<close>

fun f_neg :: "pyfloat \<Rightarrow> pyfloat" where
  "f_neg (Fin a) = Fin (- a)"
| "f_neg PosInf = NegInf"
| "f_neg NegInf = PosInf"
| "f_neg NaN = NaN"

fun f_add :: "pyfloat \<Rightarrow> pyfloat \<Rightarrow> pyfloat" where
  "f_add (Fin a) (Fin b) = of_rat64 (a + b)"
| "f_add NaN y = NaN"
| "f_add x NaN = NaN"
| "f_add PosInf NegInf = NaN"
| "f_add NegInf PosInf = NaN"
| "f_add PosInf y = PosInf"
| "f_add NegInf y = NegInf"
| "f_add x PosInf = PosInf"
| "f_add x NegInf = NegInf"

definition f_sub :: "pyfloat \<Rightarrow> pyfloat \<Rightarrow> pyfloat" where
  "f_sub x y = f_add x (f_neg y)"

fun f_mul :: "pyfloat \<Rightarrow> pyfloat \<Rightarrow> pyfloat" where
  "f_mul (Fin a) (Fin b) = of_rat64 (a * b)"
| "f_mul NaN y = NaN"
| "f_mul x NaN = NaN"
| "f_mul (Fin a) PosInf = (if a = 0 then NaN else if a > 0 then PosInf else NegInf)"
| "f_mul (Fin a) NegInf = (if a = 0 then NaN else if a > 0 then NegInf else PosInf)"
| "f_mul PosInf (Fin b) = (if b = 0 then NaN else if b > 0 then PosInf else NegInf)"
| "f_mul NegInf (Fin b) = (if b = 0 then NaN else if b > 0 then NegInf else PosInf)"
| "f_mul PosInf PosInf = PosInf"
| "f_mul PosInf NegInf = NegInf"
| "f_mul NegInf PosInf = NegInf"
| "f_mul NegInf NegInf = PosInf"

fun f_less :: "pyfloat \<Rightarrow> pyfloat \<Rightarrow> bool" where
  "f_less (Fin a) (Fin b) = (a < b)"
| "f_less NaN y = False"
| "f_less x NaN = False"
| "f_less PosInf y = False"
| "f_less x NegInf = False"
| "f_less x PosInf = True"
| "f_less NegInf y = True"

fun f_le :: "pyfloat \<Rightarrow> pyfloat \<Rightarrow> bool" where
  "f_le (Fin a) (Fin b) = (a \<le> b)"
| "f_le NaN y = False"
| "f_le x NaN = False"
| "f_le NegInf y = True"
| "f_le x PosInf = True"
| "f_le PosInf y = False"
| "f_le x NegInf = False"

fun f_finite :: "pyfloat \<Rightarrow> bool" where
  "f_finite (Fin a) = True"
| "f_finite x = False"

text \<open>Python's \<open>max(a, b)\<close> and \<open>min(a, b)\<close> keep the first argument unless the second wins.\<close>

definition f_max :: "pyfloat \<Rightarrow> pyfloat \<Rightarrow> pyfloat" where
  "f_max a b = (if f_less a b then b else a)"

definition f_min :: "pyfloat \<Rightarrow> pyfloat \<Rightarrow> pyfloat" where
  "f_min a b = (if f_less b a then b else a)"

text \<open>\<open>float(i)\<close> of an integer: correctly rounded, \<open>OverflowError\<close> beyond the range.\<close>

definition float_of_int :: "int \<Rightarrow> pyfloat option" where
  "float_of_int i = (let x = of_rat64 (of_int i) in if f_finite x then Some x else None)"

definition pyfloat_ok :: "pyfloat \<Rightarrow> bool" where
  "pyfloat_ok x = (case x of Fin a \<Rightarrow> is_double a | _ \<Rightarrow> True)"

lemma f_add_exact [simp]: "is_double (a + b) \<Longrightarrow> f_add (Fin a) (Fin b) = Fin (a + b)"
  by (simp add: of_rat64_double)

lemma f_sub_exact [simp]: "is_double (a - b) \<Longrightarrow> f_sub (Fin a) (Fin b) = Fin (a - b)"
  by (simp add: f_sub_def of_rat64_double)

lemma f_max_Fin [simp]: "f_max (Fin a) (Fin b) = Fin (max a b)"
  by (simp add: f_max_def)

lemma f_min_Fin [simp]: "f_min (Fin a) (Fin b) = Fin (min a b)"
  by (simp add: f_min_def min_def)

lemma of_rat64_Fin: "of_rat64 x = Fin r \<Longrightarrow> r = round64 x \<and> \<bar>r\<bar> \<le> max_double"
  by (auto simp: of_rat64_def Let_def abs_le_iff split: if_splits)

text \<open>A double is an integer multiple of its quantum, and rounding yields a double.\<close>

lemma round64_round64: "round64 (round64 x) = round64 x"
proof (cases "x = 0")
  case False
  define e where "e = quantum_exp x"
  define m where "m = rnd_even (x / 2 powi e)"
  have r: "round64 x = of_int m * 2 powi e"
    using False by (simp add: round64_def e_def m_def)
  have e: "- 1074 \<le> e" by (simp add: e_def quantum_exp_def)
  have pos: "0 < \<bar>x\<bar>" using False by simp
  have "\<bar>x\<bar> < 2 powi (log2_floor \<bar>x\<bar> + 1)"
    using log2_floor_bounds [OF pos] by simp
  also have "\<dots> \<le> (2::rat) powi (e + 53)"
    by (subst powi_le_iff) (simp add: e_def quantum_exp_def)
  finally have "\<bar>x\<bar> / 2 powi e \<le> 2 powi (e + 53) / 2 powi e"
    by (intro divide_right_mono) auto
  also have "2 powi (e + 53) / (2::rat) powi e = of_int (2 ^ 53)"
    using powi_shift [of "e + 53" e] powi_is_int [of 53] by simp
  finally have "\<bar>x / 2 powi e\<bar> \<le> of_int (2 ^ 53)"
    by (simp add: abs_divide)
  then have "x / 2 powi e \<le> of_int (2 ^ 53)" "of_int (- (2 ^ 53)) \<le> x / 2 powi e"
    unfolding of_int_minus by linarith+
  then have "m \<le> 2 ^ 53" "- (2 ^ 53) \<le> m"
    unfolding m_def using rnd_even_le_int rnd_even_ge_int by blast+
  then have "\<bar>m\<bar> \<le> 2 ^ 53" by (simp add: abs_le_iff)
  with r e show ?thesis by (metis round64_exact)
qed simp

lemma of_rat64_is_double: "of_rat64 x = Fin r \<Longrightarrow> is_double r"
  by (auto dest!: of_rat64_Fin simp: is_double_def round64_round64)

end
