(* ===== verification/PyVal.thy ===== *)
theory PyVal
  imports PyString PyFloat
begin

text \<open>
  Dynamically typed arguments.  Where the code tests the type of an argument
  (\<open>isinstance\<close>, \<open>type(x) is int\<close>) or receives decoded JSON, the argument is one
  of these values.  \<open>PObj\<close> stands for an object of any other type.  A list and a
  tuple are both \<open>PList\<close>; a JSON object is \<open>PDict\<close>, its keys in insertion order.
\<close>

datatype pyval =
    PNone
  | PBool bool
  | PInt int
  | PFloat pyfloat
  | PStr string
  | PList "pyval list"
  | PDict "(string \<times> pyval) list"
  | PObj

text \<open>\<open>isinstance(x, (str, bytes)) or not isinstance(x, Sequence)\<close> is \<open>NonSeq\<close>.\<close>

datatype 'a pyseq = NonSeq | Seq "'a list"

fun truthy :: "pyval \<Rightarrow> bool" where
  "truthy PNone = False"
| "truthy (PBool b) = b"
| "truthy (PInt i) = (i \<noteq> 0)"
| "truthy (PFloat x) = (x \<noteq> Fin 0)"
| "truthy (PStr s) = (s \<noteq> [])"
| "truthy (PList xs) = (xs \<noteq> [])"
| "truthy (PDict d) = (d \<noteq> [])"
| "truthy PObj = True"

text \<open>\<open>isinstance(v, int) and not isinstance(v, bool)\<close>.\<close>

fun as_int :: "pyval \<Rightarrow> int option" where
  "as_int (PInt i) = Some i"
| "as_int v = None"

fun as_str :: "pyval \<Rightarrow> string option" where
  "as_str (PStr s) = Some s"
| "as_str v = None"

text \<open>
  \<open>isinstance(v, (int, float)) and not isinstance(v, bool)\<close>, then \<open>float(v)\<close>:
  a value of another type is \<open>None\<close>; an integer beyond the float range makes
  \<open>float\<close> raise \<open>OverflowError\<close>, the inner \<open>None\<close>.
\<close>

fun as_float :: "pyval \<Rightarrow> pyfloat option option" where
  "as_float (PInt i) = Some (float_of_int i)"
| "as_float (PFloat x) = Some (Some x)"
| "as_float v = None"

end
