(* ===== verification/SearchRequest.thy ===== *)
theory SearchRequest
  imports PyVal Sha256
begin

text \<open>
  \<^verbatim>\<open>common/search_request.py\<close>: the reconstruction of UCI \<open>position\<close> and
  \<open>go\<close> commands into requests, and the construction of the restricted \<open>go\<close>
  commands that the controller dispatches.  The lemmas show that parsing inverts
  printing for both kinds of command.
\<close>

section \<open>Moves\<close>

definition file_char :: "char \<Rightarrow> bool" where
  "file_char c \<longleftrightarrow> c \<in> set ''abcdefgh''"

definition rank_char :: "char \<Rightarrow> bool" where
  "rank_char c \<longleftrightarrow> c \<in> set ''12345678''"

definition promo_char :: "char \<Rightarrow> bool" where
  "promo_char c \<longleftrightarrow> c \<in> set ''qrbn''"

text \<open>\<open>_MOVE_RE.fullmatch(s)\<close>.\<close>

fun uci_move :: "string \<Rightarrow> bool" where
  "uci_move [a, b, c, d] = (file_char a \<and> rank_char b \<and> file_char c \<and> rank_char d)"
| "uci_move [a, b, c, d, e] = (file_char a \<and> rank_char b \<and> file_char c \<and> rank_char d \<and> promo_char e)"
| "uci_move _ = False"

definition numeric_limits :: "string list" where
  "numeric_limits = [''wtime'', ''btime'', ''winc'', ''binc'', ''movestogo'', ''depth'', ''nodes'',
     ''mate'', ''movetime'']"

definition flag_limits :: "string list" where
  "flag_limits = [''infinite'', ''ponder'']"

definition startpos_fen :: string where
  "startpos_fen = ''rnbqkbnr/pppppppp/8/8/8/8/PPPPPPPP/RNBQKBNR w KQkq - 0 1''"

datatype request_error =
    ClockFenShape
  | NotPositionCommand
  | UnsupportedVariant string
  | MissingFen
  | UnsupportedPosition string
  | TrailingMaterial string
  | InvalidMoveToken string
  | NotGoCommand
  | UnsupportedLimit string
  | LimitNotPositive string
  | IntegerTextTooLong
  | EmptySearchmoves
  | InvalidSearchmove string
  | DuplicateSearchmove string
  | UnlimitedDispatch
  | PrefixNotSequence
  | PrefixEmpty
  | PrefixMove nat
  | ChildNotSequence
  | ChildEmpty
  | ChildMove nat
  | DuplicateChild string

section \<open>Position requests\<close>

record position_request =
  pr_base_fen :: string
  pr_moves :: "string list"
  pr_variant :: string

definition position_id :: "position_request \<Rightarrow> string" where
  "position_id p = ''pos-'' @ take 24
     (sha256_hex (pr_variant p @ ''|'' @ pr_base_fen p @ ''|'' @ py_join '' '' (pr_moves p)))"

definition side_to_move :: "position_request \<Rightarrow> request_error + string" where
  "side_to_move p = (let fields = py_split (pr_base_fen p) in
     if length fields \<noteq> 6 \<or> fields ! 1 \<notin> {''w'', ''b''} then Inl ClockFenShape
     else (let side = fields ! 1 in
       Inr (if length (pr_moves p) mod 2 = 0 then side
            else if side = ''w'' then ''b'' else ''w'')))"

definition position_command :: "position_request \<Rightarrow> string" where
  "position_command p =
     (if pr_base_fen p = startpos_fen then ''position startpos''
      else ''position fen '' @ pr_base_fen p) @
     (if pr_moves p \<noteq> [] then '' moves '' @ py_join '' '' (pr_moves p) else [])"

definition telemetry_position :: "position_request \<Rightarrow> (string \<times> pyval) list" where
  "telemetry_position p =
     [(''base_fen'', PStr (pr_base_fen p)), (''moves'', PList (map PStr (pr_moves p)))]"

text \<open>The move tokens of a \<open>position\<close> command, lower-cased and checked one by one.\<close>

definition parse_move_token :: "string \<Rightarrow> request_error + string" where
  "parse_move_token t = (let lowered = py_lower t in
     if uci_move lowered then Inr lowered else Inl (InvalidMoveToken t))"

definition parse_move_section :: "string \<Rightarrow> request_error + string list" where
  "parse_move_section rest =
     (if rest = [] then Inr []
      else if rest \<noteq> ''moves'' \<and> \<not> prefix ''moves '' rest then Inl (TrailingMaterial rest)
      else rmap parse_move_token (tl (py_split rest)))"

text \<open>The base FEN and the text that follows it.\<close>

definition parse_base :: "string \<Rightarrow> string \<Rightarrow> request_error + (string \<times> string)" where
  "parse_base command rest =
     (if rest = ''startpos'' \<or> prefix ''startpos '' rest
      then Inr (startpos_fen, py_strip (drop 8 rest))
      else if prefix ''fen '' rest
      then (let rest' = py_strip (drop 4 rest);
                (base, follow) = (case py_partition '' moves'' rest' of
                    Some (h, t) \<Rightarrow> (py_strip h, py_strip (''moves'' @ t))
                  | None \<Rightarrow> (py_strip rest', []))
            in if base = [] then Inl MissingFen else Inr (base, follow))
      else Inl (UnsupportedPosition command))"

definition parse_position_command :: "string \<Rightarrow> string \<Rightarrow> request_error + position_request" where
  "parse_position_command command variant =
     (if \<not> prefix ''position '' command then Inl NotPositionCommand
      else if variant \<notin> {''standard'', ''chess960''} then Inl (UnsupportedVariant variant)
      else rbind (parse_base command (py_strip (drop 9 command))) (\<lambda>(base, rest).
           rbind (parse_move_section rest) (\<lambda>ms.
             Inr \<lparr>pr_base_fen = base, pr_moves = ms, pr_variant = variant\<rparr>)))"

section \<open>Go requests\<close>

datatype limit_value = LimitInt int | LimitFlag

text \<open>The telemetry \<open>semantics\<close> of a limit is \<open>uci.go.\<close> followed by its name.\<close>

definition limit_semantics :: "string \<Rightarrow> string" where
  "limit_semantics name = ''uci.go.'' @ name"

record go_request =
  gr_limits :: "(string \<times> limit_value) list"
  gr_root_moves :: "string list"
  gr_unknown :: "string list"
  gr_raw :: string

definition add_limit :: "string \<Rightarrow> limit_value \<Rightarrow> go_request \<Rightarrow> go_request" where
  "add_limit name v r = r\<lparr>gr_limits := gr_limits r @ [(name, v)]\<rparr>"

definition add_unknown :: "string list \<Rightarrow> go_request \<Rightarrow> go_request" where
  "add_unknown ts r = r\<lparr>gr_unknown := gr_unknown r @ ts\<rparr>"

definition add_roots :: "string list \<Rightarrow> go_request \<Rightarrow> go_request" where
  "add_roots ms r = r\<lparr>gr_root_moves := gr_root_moves r @ ms\<rparr>"

abbreviation move_text :: "string \<Rightarrow> bool" where
  "move_text t \<equiv> uci_move (py_lower t)"

text \<open>The token loop; the list is what is left from \<open>index\<close> on.\<close>

function go_tokens :: "string list \<Rightarrow> go_request \<Rightarrow> go_request" where
  "go_tokens [] r = r"
| "go_tokens (t # ts) r =
     (if t \<in> set numeric_limits then
        (case ts of
           [] \<Rightarrow> go_tokens [] (add_unknown [t] r)
         | v # rest \<Rightarrow>
             (case py_int v of
                None \<Rightarrow> go_tokens rest (add_unknown [t, v] r)
              | Some n \<Rightarrow> if n < 0 then go_tokens rest (add_unknown [t, v] r)
                          else go_tokens rest (add_limit t (LimitInt n) r)))
      else if t \<in> set flag_limits then go_tokens ts (add_limit t LimitFlag r)
      else if t = ''searchmoves'' then
        go_tokens (dropWhile move_text ts) (add_roots (map py_lower (takeWhile move_text ts)) r)
      else go_tokens ts (add_unknown [t] r))"
  by pat_completeness auto
termination
  by (relation "measure (\<lambda>(ts, r). length ts)") (auto simp: less_Suc_eq_le length_dropWhile_le)

declare go_tokens.simps(2) [simp del]

definition empty_go :: "string \<Rightarrow> go_request" where
  "empty_go command = \<lparr>gr_limits = [], gr_root_moves = [], gr_unknown = [], gr_raw = command\<rparr>"

definition parse_go_request :: "string \<Rightarrow> request_error + go_request" where
  "parse_go_request command =
     (if command \<noteq> ''go'' \<and> \<not> prefix ''go '' command then Inl NotGoCommand
      else Inr (go_tokens (tl (py_split command)) (empty_go command)))"

section \<open>Building a go command\<close>

text \<open>One entry of the limit dictionary: the words it adds to the command.\<close>

definition limit_words :: "string \<Rightarrow> pyval \<Rightarrow> request_error + string list" where
  "limit_words name v =
     (if name \<in> set flag_limits then Inr (if truthy v then [name] else [])
      else if name \<notin> set numeric_limits then Inl (UnsupportedLimit name)
      else case as_int v of
          None \<Rightarrow> Inl (LimitNotPositive name)
        | Some n \<Rightarrow> if n < 1 then Inl (LimitNotPositive name)
            else (case py_str_int n of None \<Rightarrow> Inl IntegerTextTooLong | Some s \<Rightarrow> Inr [name, s]))"

fun check_searchmoves :: "string list \<Rightarrow> string list \<Rightarrow> request_error + unit" where
  "check_searchmoves seen [] = Inr ()"
| "check_searchmoves seen (m # ms) = (let lowered = py_lower m in
     if \<not> uci_move lowered then Inl (InvalidSearchmove m)
     else if lowered \<in> set seen then Inl (DuplicateSearchmove m)
     else check_searchmoves (lowered # seen) ms)"

definition searchmoves_words :: "string list option \<Rightarrow> request_error + string list" where
  "searchmoves_words sm = (case sm of
       None \<Rightarrow> Inr []
     | Some ms \<Rightarrow> if ms = [] then Inl EmptySearchmoves
         else rbind (check_searchmoves [] ms) (\<lambda>_. Inr (''searchmoves'' # map py_lower ms)))"

definition build_go_command ::
    "(string \<times> pyval) list \<Rightarrow> string list option \<Rightarrow> request_error + string" where
  "build_go_command limit sm =
     rbind (rmap (\<lambda>name. limit_words name (the (dict_get limit name))) (sort (dict_keys limit))) (\<lambda>ws.
     rbind (searchmoves_words sm) (\<lambda>ss.
       let parts = ''go'' # concat ws @ ss in
       if length parts = 1 then Inl UnlimitedDispatch else Inr (py_join '' '' parts)))"

section \<open>Canonical moves are lower-case tokens\<close>

lemma move_chars:
  "file_char c \<or> rank_char c \<or> promo_char c \<Longrightarrow> \<not> py_space c \<and> lower_char c = c"
  by (auto simp: file_char_def rank_char_def promo_char_def py_space_def lower_char_def)

lemma uci_move_chars: "uci_move m \<Longrightarrow> \<forall>c \<in> set m. file_char c \<or> rank_char c \<or> promo_char c"
  by (cases m rule: uci_move.cases) auto

lemma uci_move_nonempty: "uci_move m \<Longrightarrow> m \<noteq> []"
  by (cases m rule: uci_move.cases) auto

lemma uci_move_token: "uci_move m \<Longrightarrow> token m"
  using uci_move_chars [of m] uci_move_nonempty [of m] move_chars by (auto simp: token_def)

lemma uci_move_lower [simp]: "uci_move m \<Longrightarrow> py_lower m = m"
  using uci_move_chars [of m] move_chars by (simp add: py_lower_def map_idI)

lemma parse_move_token_canonical [simp]: "uci_move m \<Longrightarrow> parse_move_token m = Inr m"
  by (simp add: parse_move_token_def)

lemma parse_move_token_result: "parse_move_token t = Inr m \<Longrightarrow> uci_move m"
  by (auto simp: parse_move_token_def Let_def split: if_splits)

lemma parse_move_section_result: "parse_move_section s = Inr ms \<Longrightarrow> m \<in> set ms \<Longrightarrow> uci_move m"
  by (auto simp: parse_move_section_def rmap_eq_Inr in_set_conv_nth list_all2_conv_all_nth
      split: if_splits intro: parse_move_token_result)

lemma token_limits: "t \<in> set numeric_limits \<or> t \<in> set flag_limits \<or> t = ''searchmoves'' \<Longrightarrow> token t"
  by (auto simp: numeric_limits_def flag_limits_def token_def py_space_def)

lemma py_join_cons: "py_join '' '' (t # ts) = t @ (if ts = [] then [] else CHR '' '' # py_join '' '' ts)"
  by (cases ts) simp_all

section \<open>Position commands: parsing inverts printing\<close>

text \<open>
  A request that \<open>parse_position_command\<close> can produce: a known variant,
  canonical moves, and a base FEN without surrounding blanks that does not
  contain the text \<^verbatim>\<open> moves\<close>.
\<close>

definition position_ok :: "position_request \<Rightarrow> bool" where
  "position_ok p \<longleftrightarrow> pr_variant p \<in> {''standard'', ''chess960''} \<and>
     (\<forall>m \<in> set (pr_moves p). uci_move m) \<and>
     pr_base_fen p \<noteq> [] \<and> py_strip (pr_base_fen p) = pr_base_fen p \<and>
     \<not> sublist '' moves'' (pr_base_fen p)"

lemma partition_moves_None: "\<not> sublist '' moves'' s \<Longrightarrow> py_partition '' moves'' s = None"
proof (induction s)
  case (Cons c s)
  then have "\<not> prefix '' moves'' (c # s)" "\<not> sublist '' moves'' s"
    by (auto simp: sublist_Cons_right)
  with Cons.IH show ?case by simp
qed simp

lemma moves_prefix_append:
  assumes "prefix '' moves'' (h @ '' moves'' @ t)" "h \<noteq> []"
  shows "prefix '' moves'' h"
proof (cases "6 \<le> length h")
  case True
  have h: "prefix h (h @ '' moves'' @ t)" by (rule prefixI) (rule refl)
  have "length '' moves'' \<le> length h" using True by simp
  with assms(1) h show ?thesis by (rule prefix_length_prefix)
next
  case False
  define k where "k = length h"
  have "0 < k" "k < 6" using False assms(2) by (simp_all add: k_def)
  then have k: "k \<in> {1, 2, 3, 4, 5}" by simp presburger
  obtain zs where zs: "h @ '' moves'' @ t = '' moves'' @ zs"
    using assms(1) by (auto simp: prefix_def)
  have "(h @ '' moves'' @ t) ! k = CHR '' ''"
    unfolding k_def nth_append_length by simp
  moreover have "('' moves'' @ zs) ! k \<noteq> CHR '' ''"
    using k by auto
  ultimately show ?thesis using zs by simp
qed

lemma partition_moves_Some:
  "\<not> sublist '' moves'' h \<Longrightarrow> py_partition '' moves'' (h @ '' moves'' @ t) = Some (h, t)"
proof (induction h)
  case (Cons c h)
  then have "\<not> prefix '' moves'' (c # h)" "\<not> sublist '' moves'' h"
    by (auto simp: sublist_Cons_right)
  then have "\<not> prefix '' moves'' ((c # h) @ '' moves'' @ t)"
    using moves_prefix_append [of "c # h" t] by auto
  with Cons.IH \<open>\<not> sublist '' moves'' h\<close> show ?case by simp
qed simp

text \<open>What follows the keyword \<open>fen\<close>, and the moves that may follow it.\<close>

lemma join_moves_ends:
  assumes "ms \<noteq> []" "\<forall>m \<in> set ms. uci_move m"
  shows "py_join '' '' ms \<noteq> []" "\<not> py_space (last (py_join '' '' ms))"
  using assms
proof (induction "'' ''" ms rule: py_join.induct)
  case (2 x)
  case 1 with 2 show ?case by (simp add: uci_move_nonempty)
  case 2 then show ?case using uci_move_token [of x] by (auto simp: token_def)
next
  case (3 x y zs)
  case 1 then show ?case by simp
  case 2 then show ?case using "3.hyps" by (simp add: last_append)
qed simp_all

lemma parse_move_section_join:
  assumes "ms \<noteq> []" "\<forall>m \<in> set ms. uci_move m"
  shows "parse_move_section (''moves '' @ py_join '' '' ms) = Inr ms"
proof -
  have "''moves '' @ py_join '' '' ms = py_join '' '' (''moves'' # ms)"
    using assms(1) by (simp add: py_join_cons)
  moreover have "token ''moves''"
    by (auto simp: token_def py_space_def)
  ultimately have "py_split (''moves '' @ py_join '' '' ms) = ''moves'' # ms"
    using assms(2) uci_move_token by (metis py_split_join set_ConsD)
  then show ?thesis
    using assms(2) by (simp add: parse_move_section_def rmap_total [where g = "\<lambda>x. x"])
qed

lemma strip_moves:
  assumes "ms \<noteq> []" "\<forall>m \<in> set ms. uci_move m"
  shows "py_strip (''moves '' @ py_join '' '' ms) = ''moves '' @ py_join '' '' ms"
  using join_moves_ends [OF assms] by (intro py_strip_id) (simp add: py_space_def)

lemma parse_base_startpos:
  "parse_base c ''startpos'' = Inr (startpos_fen, [])"
  "ms \<noteq> [] \<Longrightarrow> \<forall>m \<in> set ms. uci_move m \<Longrightarrow>
    parse_base c (''startpos moves '' @ py_join '' '' ms) =
      Inr (startpos_fen, ''moves '' @ py_join '' '' ms)"
proof -
  show "parse_base c ''startpos'' = Inr (startpos_fen, [])"
    by (simp add: parse_base_def py_strip_def)
  assume ms: "ms \<noteq> []" "\<forall>m \<in> set ms. uci_move m"
  have "py_strip ('' moves '' @ py_join '' '' ms) = py_strip (''moves '' @ py_join '' '' ms)"
    by (simp add: py_strip_def)
  then show "parse_base c (''startpos moves '' @ py_join '' '' ms) =
      Inr (startpos_fen, ''moves '' @ py_join '' '' ms)"
    using strip_moves [OF ms] by (simp add: parse_base_def)
qed

lemma strip_ends: "py_strip s = s \<Longrightarrow> s \<noteq> [] \<Longrightarrow> \<not> py_space (hd s) \<and> \<not> py_space (last s)"
proof -
  assume s: "py_strip s = s" "s \<noteq> []"
  define d where "d = dropWhile py_space s"
  have "length (dropWhile py_space (rev d)) = length s"
    using s(1) by (metis d_def length_rev py_strip_def)
  moreover have "length (dropWhile py_space (rev d)) \<le> length d" "length d \<le> length s"
    using length_dropWhile_le [of py_space "rev d"] length_dropWhile_le [of py_space s]
    by (simp_all add: d_def)
  moreover have drop_full: "length (dropWhile py_space xs) = length xs \<Longrightarrow> xs \<noteq> [] \<Longrightarrow> \<not> py_space (hd xs)"
    for xs
    using length_dropWhile_le [of py_space "tl xs"] by (cases xs) auto
  ultimately have "length (dropWhile py_space s) = length s" "length (dropWhile py_space (rev d)) = length (rev d)"
    by (simp_all add: d_def)
  then have hd: "\<not> py_space (hd s)" "\<not> py_space (hd (rev d)) \<or> d = []"
    using drop_full [of s] drop_full [of "rev d"] s(2) by auto
  have "d = s"
    using hd(1) s(2) by (simp add: d_def dropWhile_id)
  with hd s(2) show ?thesis by (simp add: hd_rev)
qed

lemma parse_base_fen:
  assumes "f \<noteq> []" "py_strip f = f" "\<not> sublist '' moves'' f"
  shows "parse_base c (''fen '' @ f) = Inr (f, [])"
    and "ms \<noteq> [] \<Longrightarrow> \<forall>m \<in> set ms. uci_move m \<Longrightarrow>
      parse_base c (''fen '' @ f @ '' moves '' @ py_join '' '' ms) =
        Inr (f, ''moves '' @ py_join '' '' ms)"
proof -
  show "parse_base c (''fen '' @ f) = Inr (f, [])"
    using assms by (simp add: parse_base_def partition_moves_None Let_def)
  assume ms: "ms \<noteq> []" "\<forall>m \<in> set ms. uci_move m"
  have "py_strip (f @ '' moves '' @ py_join '' '' ms) = f @ '' moves '' @ py_join '' '' ms"
    using strip_ends [OF assms(2,1)] join_moves_ends [OF ms] assms(1)
    by (intro py_strip_id) (simp add: hd_append)
  moreover have "py_partition '' moves'' (f @ '' moves '' @ py_join '' '' ms) =
      Some (f, CHR '' '' # py_join '' '' ms)"
    using partition_moves_Some [OF assms(3), of "CHR '' '' # py_join '' '' ms"] by simp
  ultimately show "parse_base c (''fen '' @ f @ '' moves '' @ py_join '' '' ms) =
        Inr (f, ''moves '' @ py_join '' '' ms)"
    using assms(1,2) strip_moves [OF ms] by (simp add: parse_base_def Let_def)
qed

definition position_rest :: "position_request \<Rightarrow> string" where
  "position_rest p =
     (if pr_base_fen p = startpos_fen then ''startpos'' else ''fen '' @ pr_base_fen p) @
     (if pr_moves p \<noteq> [] then '' moves '' @ py_join '' '' (pr_moves p) else [])"

lemma position_command_rest: "position_command p = ''position '' @ position_rest p"
  by (simp add: position_command_def position_rest_def)

lemma position_rest_strip:
  assumes "position_ok p"
  shows "py_strip (position_rest p) = position_rest p"
proof (rule py_strip_id, rule disjI2, rule conjI)
  show "\<not> py_space (hd (position_rest p))"
    by (simp add: position_rest_def py_space_def)
  have f: "pr_base_fen p \<noteq> []" "\<not> py_space (last (pr_base_fen p))"
    using assms strip_ends [of "pr_base_fen p"] by (auto simp: position_ok_def)
  show "\<not> py_space (last (position_rest p))"
  proof (cases "pr_moves p = []")
    case True
    with f show ?thesis by (simp add: position_rest_def py_space_def)
  next
    case False
    then have "py_join '' '' (pr_moves p) \<noteq> []" "\<not> py_space (last (py_join '' '' (pr_moves p)))"
      using join_moves_ends [of "pr_moves p"] assms by (auto simp: position_ok_def)
    with False show ?thesis by (simp add: position_rest_def)
  qed
qed

lemma parse_base_rest:
  assumes "position_ok p"
  shows "parse_base c (position_rest p) =
    Inr (pr_base_fen p, if pr_moves p = [] then [] else ''moves '' @ py_join '' '' (pr_moves p))"
proof -
  have p: "\<forall>m \<in> set (pr_moves p). uci_move m" "pr_base_fen p \<noteq> []"
    "py_strip (pr_base_fen p) = pr_base_fen p" "\<not> sublist '' moves'' (pr_base_fen p)"
    using assms by (simp_all add: position_ok_def)
  show ?thesis
  proof (cases "pr_base_fen p = startpos_fen")
    case True
    then show ?thesis
      using parse_base_startpos(1) [of c] parse_base_startpos(2) [of "pr_moves p" c] p(1)
      by (simp add: position_rest_def)
  next
    case False
    then show ?thesis
      using parse_base_fen(1) [OF p(2-4), of c] parse_base_fen(2) [OF p(2-4), of "pr_moves p" c] p(1)
      by (simp add: position_rest_def)
  qed
qed

text \<open>C4. Round trip of position commands: parsing the command that
  \<open>PositionRequest.command\<close> prints for a well-formed request gives the request
  back, whatever its base position and game history.\<close>

theorem position_command_roundtrip:
  assumes "position_ok p"
  shows "parse_position_command (position_command p) (pr_variant p) = Inr p"
proof -
  have v: "pr_variant p \<in> {''standard'', ''chess960''}" and ms: "\<forall>m \<in> set (pr_moves p). uci_move m"
    using assms by (simp_all add: position_ok_def)
  have tail: "parse_move_section
      (if pr_moves p = [] then [] else ''moves '' @ py_join '' '' (pr_moves p)) = Inr (pr_moves p)"
    using parse_move_section_join [OF _ ms] by (simp add: parse_move_section_def [of "[]"])
  show ?thesis
    unfolding parse_position_command_def position_command_rest
    using v tail by (simp add: position_rest_strip [OF assms] parse_base_rest [OF assms])
qed

theorem position_command_roundtrip_witness:
  "let p = \<lparr>pr_base_fen = ''8/8/8/8/8/8/8/K1k5 w - - 0 1'', pr_moves = [''a1a2'', ''c1c2''],
        pr_variant = ''standard''\<rparr> in
   position_ok p \<and> parse_position_command (position_command p) ''standard'' = Inr p"
proof -
  let ?p = "\<lparr>pr_base_fen = ''8/8/8/8/8/8/8/K1k5 w - - 0 1'', pr_moves = [''a1a2'', ''c1c2''],
        pr_variant = ''standard''\<rparr>"
  have ok: "position_ok ?p"
    by (simp add: position_ok_def py_strip_def py_space_def sublist_Cons_right file_char_def rank_char_def)
  show ?thesis using ok position_command_roundtrip [OF ok] by simp
qed

lemma py_strip_empty: "py_strip s = [] \<longleftrightarrow> (\<forall>c \<in> set s. py_space c)"
proof
  assume "py_strip s = []"
  then have "\<forall>c \<in> set (dropWhile py_space s). py_space c"
    by (simp add: py_strip_def)
  moreover have "\<forall>c \<in> set (takeWhile py_space s). py_space c"
    by (auto dest: set_takeWhileD)
  ultimately show "\<forall>c \<in> set s. py_space c"
    by (metis Un_iff set_append takeWhile_dropWhile_id)
next
  assume "\<forall>c \<in> set s. py_space c"
  then have "dropWhile py_space s = []" by (simp add: dropWhile_eq_Nil_conv)
  then show "py_strip s = []" unfolding py_strip_def by (simp only: rev.simps dropWhile.simps)
qed

lemma py_strip_hd: "py_strip s \<noteq> [] \<Longrightarrow> \<not> py_space (hd (py_strip s))"
proof -
  define d where "d = dropWhile py_space s"
  assume ne: "py_strip s \<noteq> []"
  obtain us where us: "rev d = us @ dropWhile py_space (rev d)"
    by (metis takeWhile_dropWhile_id)
  then have "d = py_strip s @ rev us"
    by (metis d_def py_strip_def rev_append rev_rev_ident)
  with ne have "d \<noteq> []" "hd (py_strip s) = hd d" by auto
  then show ?thesis using hd_dropWhile [of py_space s] by (simp add: d_def)
qed

lemma py_strip_last: "py_strip s \<noteq> [] \<Longrightarrow> \<not> py_space (last (py_strip s))"
  using hd_dropWhile [of py_space "rev (dropWhile py_space s)"] by (auto simp: py_strip_def last_rev)

lemma py_partition_head:
  "py_partition sep s = Some (h, t) \<Longrightarrow> h = [] \<and> prefix sep s \<or> h \<noteq> [] \<and> s \<noteq> [] \<and> hd h = hd s"
  by (cases s) (auto split: if_splits)

lemma parse_base_not_missing: "parse_base c (py_strip r) \<noteq> Inl MissingFen"
proof (cases "prefix ''fen '' (py_strip r)")
  case True
  then obtain u where u: "py_strip r = ''fen '' @ u" by (auto simp: prefix_def)
  then have "\<not> py_space (last (''fen '' @ u))" using py_strip_last [of r] by simp
  then have "u \<noteq> []" "\<not> py_space (last u)" by (auto split: if_splits)
  then have u': "py_strip u \<noteq> []" using last_in_set [of u] by (auto simp: py_strip_empty)
  have "py_strip h \<noteq> []" if "py_partition '' moves'' (py_strip u) = Some (h, t)" for h t
  proof -
    have hd: "\<not> py_space (hd (py_strip u))" using u' by (rule py_strip_hd)
    then have "\<not> prefix '' moves'' (py_strip u)" by (auto simp: prefix_def)
    with py_partition_head [OF that] hd have "h \<noteq> []" "\<not> py_space (hd h)" by auto
    then show ?thesis using hd_in_set [of h] by (auto simp: py_strip_empty)
  qed
  moreover have "py_strip (py_strip u) \<noteq> []"
    using py_strip_hd [OF u'] hd_in_set [OF u'] unfolding py_strip_empty [of "py_strip u"] by blast
  ultimately show ?thesis
    by (auto simp: parse_base_def u Let_def split: option.splits)
next
  case False
  then show ?thesis by (simp add: parse_base_def)
qed

lemma parse_move_section_not_missing: "parse_move_section s \<noteq> Inl MissingFen"
proof -
  have "rmap parse_move_token ts \<noteq> Inl MissingFen" for ts
    by (induction ts) (auto simp: rbind_eq_Inl parse_move_token_def Let_def)
  then show ?thesis by (simp add: parse_move_section_def)
qed

text \<open>The guard against a \<open>position fen\<close> command without a FEN never fires: the
  text after the keyword is stripped before it is split at \<^verbatim>\<open> moves\<close>, so its
  head is never empty.\<close>

theorem missing_fen_unreachable: "parse_position_command c v \<noteq> Inl MissingFen"
  by (auto simp: parse_position_command_def rbind_eq_Inl parse_base_not_missing
      parse_move_section_not_missing split: prod.splits)

section \<open>Go commands: parsing inverts building\<close>

text \<open>The limits that an entry of the dictionary stands for in the parsed request.\<close>

definition limit_entry :: "string \<Rightarrow> pyval \<Rightarrow> (string \<times> limit_value) list" where
  "limit_entry name v =
     (if name \<in> set flag_limits then (if truthy v then [(name, LimitFlag)] else [])
      else case as_int v of Some n \<Rightarrow> [(name, LimitInt n)] | None \<Rightarrow> [])"

definition expected_limits :: "(string \<times> pyval) list \<Rightarrow> (string \<times> limit_value) list" where
  "expected_limits limit =
     concat (map (\<lambda>name. limit_entry name (the (dict_get limit name))) (sort (dict_keys limit)))"

lemma flag_not_numeric: "t \<in> set flag_limits \<Longrightarrow> t \<notin> set numeric_limits"
  by (auto simp: flag_limits_def numeric_limits_def)

lemma searchmoves_not_limit: "''searchmoves'' \<notin> set numeric_limits" "''searchmoves'' \<notin> set flag_limits"
  by (simp_all add: flag_limits_def numeric_limits_def)

lemma limit_words_cases:
  assumes "limit_words name v = Inr ws"
  obtains (flag) "name \<in> set flag_limits" "ws = (if truthy v then [name] else [])"
  | (number) n s where "name \<in> set numeric_limits" "name \<notin> set flag_limits" "as_int v = Some n"
      "1 \<le> n" "py_str_int n = Some s" "ws = [name, s]"
  using assms by (auto simp: limit_words_def split: if_splits option.splits)

lemma limit_words_tokens: "limit_words name v = Inr ws \<Longrightarrow> t \<in> set ws \<Longrightarrow> token t"
  by (erule limit_words_cases)
    (auto split: if_splits intro: token_limits py_str_int_token [of "_ :: int", rotated])

lemma go_tokens_words:
  assumes "limit_words name v = Inr ws"
  shows "go_tokens (ws @ rest) r = go_tokens rest (r\<lparr>gr_limits := gr_limits r @ limit_entry name v\<rparr>)"
  using assms
proof (cases rule: limit_words_cases)
  case flag
  then show ?thesis
    by (simp add: go_tokens.simps(2) limit_entry_def flag_not_numeric add_limit_def)
next
  case (number n s)
  then have "py_int s = Some n" by (intro py_int_py_str_int) auto
  with number show ?thesis
    by (simp add: go_tokens.simps(2) limit_entry_def add_limit_def)
qed

lemma go_tokens_concat:
  assumes "list_all2 (\<lambda>name ws. limit_words name (g name) = Inr ws) names wss"
  shows "go_tokens (concat wss @ rest) r =
    go_tokens rest (r\<lparr>gr_limits := gr_limits r @ concat (map (\<lambda>name. limit_entry name (g name)) names)\<rparr>)"
  using assms
proof (induction names wss arbitrary: r rule: list_all2_induct)
  case (Cons name names ws wss)
  then show ?case by (simp add: go_tokens_words)
qed simp

lemma check_searchmoves_ok:
  "check_searchmoves seen ms = Inr () \<longleftrightarrow>
     (\<forall>m \<in> set ms. uci_move (py_lower m)) \<and> distinct (map py_lower ms) \<and>
     set (map py_lower ms) \<inter> set seen = {}"
  by (induction seen ms rule: check_searchmoves.induct) (auto simp: Let_def)

lemma go_tokens_searchmoves:
  assumes "\<forall>m \<in> set ms. uci_move (py_lower m)"
  shows "go_tokens (''searchmoves'' # map py_lower ms) r = add_roots (map py_lower ms) r"
proof -
  have "takeWhile move_text (map py_lower ms) = map py_lower ms"
    "dropWhile move_text (map py_lower ms) = []"
    using assms by (simp_all add: takeWhile_eq_all_conv dropWhile_eq_Nil_conv)
  moreover have "map py_lower (map py_lower ms) = map py_lower ms"
    using assms by simp
  ultimately show ?thesis
    by (simp only: go_tokens.simps(2) searchmoves_not_limit if_False if_True refl go_tokens.simps(1))
qed

lemma searchmoves_words_cases:
  assumes "searchmoves_words sm = Inr ss"
  obtains (none) "sm = None" "ss = []"
  | (some) ms where "sm = Some ms" "ms \<noteq> []" "\<forall>m \<in> set ms. uci_move (py_lower m)"
      "distinct (map py_lower ms)" "ss = ''searchmoves'' # map py_lower ms"
  using assms by (auto simp: searchmoves_words_def rbind_eq_Inr check_searchmoves_ok
      split: option.splits if_splits)

lemma go_tokens_ss:
  assumes "searchmoves_words sm = Inr ss"
  shows "go_tokens ss r = add_roots (case sm of None \<Rightarrow> [] | Some ms \<Rightarrow> map py_lower ms) r"
  using assms
  by (cases rule: searchmoves_words_cases) (simp_all add: add_roots_def go_tokens_searchmoves)

lemma searchmoves_words_tokens: "searchmoves_words sm = Inr ss \<Longrightarrow> t \<in> set ss \<Longrightarrow> token t"
  by (erule searchmoves_words_cases) (auto intro: token_limits uci_move_token)

text \<open>C5. Round trip of go commands: whatever limits and root moves
  \<open>build_go_command\<close> accepts, \<open>parse_go_request\<close> reads exactly these limits back
  from the command it builds, in the sorted order of the names, with the root
  moves in lower case and nothing unknown.\<close>

theorem go_command_roundtrip:
  assumes "build_go_command limit sm = Inr command"
  shows "parse_go_request command = Inr
    \<lparr>gr_limits = expected_limits limit,
     gr_root_moves = (case sm of None \<Rightarrow> [] | Some ms \<Rightarrow> map py_lower ms),
     gr_unknown = [], gr_raw = command\<rparr>"
proof -
  obtain wss ss where
    wss: "list_all2 (\<lambda>name ws. limit_words name (the (dict_get limit name)) = Inr ws)
      (sort (dict_keys limit)) wss" and
    ss: "searchmoves_words sm = Inr ss" and
    parts: "concat wss @ ss \<noteq> []" "command = py_join '' '' (''go'' # concat wss @ ss)"
    using assms by (auto simp: build_go_command_def rbind_eq_Inr rmap_eq_Inr Let_def split: if_splits)
  have "\<forall>t \<in> set (concat wss @ ss). token t"
    using wss searchmoves_words_tokens [OF ss]
    by (auto simp: list_all2_conv_all_nth in_set_conv_nth intro: limit_words_tokens) (metis limit_words_tokens nth_mem)
  moreover have "token ''go''" by (auto simp: token_def py_space_def)
  ultimately have "py_split command = ''go'' # concat wss @ ss"
    unfolding parts(2) by (intro py_split_join) simp
  moreover have "prefix ''go '' command"
    using parts(1) by (simp add: parts(2) py_join_cons)
  ultimately have "parse_go_request command = Inr (go_tokens (concat wss @ ss) (empty_go command))"
    by (simp add: parse_go_request_def)
  then show ?thesis
    by (simp add: go_tokens_concat [OF wss] go_tokens_ss [OF ss] empty_go_def add_roots_def expected_limits_def)
qed

theorem go_command_roundtrip_witness:
  "build_go_command [(''nodes'', PInt 800), (''movetime'', PInt 50)] (Some [''E2E4'']) =
     Inr ''go movetime 50 nodes 800 searchmoves e2e4'' \<and>
   parse_go_request ''go movetime 50 nodes 800 searchmoves e2e4'' = Inr
     \<lparr>gr_limits = expected_limits [(''nodes'', PInt 800), (''movetime'', PInt 50)],
      gr_root_moves = [''e2e4''], gr_unknown = [],
      gr_raw = ''go movetime 50 nodes 800 searchmoves e2e4''\<rparr>"
proof -
  have b: "build_go_command [(''nodes'', PInt 800), (''movetime'', PInt 50)] (Some [''E2E4'']) =
     Inr ''go movetime 50 nodes 800 searchmoves e2e4''"
    by code_simp
  have low: "py_lower ''E2E4'' = ''e2e4''" by code_simp
  show ?thesis
    using b go_command_roundtrip [OF b] low by simp
qed

end
