(* ===== verification/PrefixDispatch.thy ===== *)
theory PrefixDispatch
  imports SearchRequest
begin

text \<open>
  \<^verbatim>\<open>common/prefix_dispatch.py\<close>: a recursive move-prefix shard, or a set of
  sibling shards, is compiled into an ordinary UCI position and a restricted
  \<open>go\<close> command.
\<close>

record prefix_dispatch =
  pd_prefix :: "string list"
  pd_position :: position_request
  pd_searchmoves :: "string list"
  pd_go_command :: string

definition pd_position_command :: "prefix_dispatch \<Rightarrow> string" where
  "pd_position_command d = position_command (pd_position d)"

text \<open>The validation loop over a sequence of raw moves; the index is that of the first bad one.\<close>

fun canonical_moves :: "(nat \<Rightarrow> request_error) \<Rightarrow> nat \<Rightarrow> pyval list \<Rightarrow> request_error + string list" where
  "canonical_moves err i [] = Inr []"
| "canonical_moves err i (v # vs) =
     (case as_str v of
        None \<Rightarrow> Inl (err i)
      | Some s \<Rightarrow> if uci_move s
          then rbind (canonical_moves err (Suc i) vs) (\<lambda>ms. Inr (s # ms)) else Inl (err i))"

definition descendant_position ::
    "position_request \<Rightarrow> pyval pyseq \<Rightarrow> request_error + position_request" where
  "descendant_position base pfx = (case pfx of
       NonSeq \<Rightarrow> Inl PrefixNotSequence
     | Seq vs \<Rightarrow> rbind (canonical_moves PrefixMove 0 vs) (\<lambda>ms.
         Inr \<lparr>pr_base_fen = pr_base_fen base, pr_moves = pr_moves base @ ms,
              pr_variant = pr_variant base\<rparr>))"

definition compile_prefix_dispatch ::
    "position_request \<Rightarrow> pyval pyseq \<Rightarrow> (string \<times> pyval) list \<Rightarrow> request_error + prefix_dispatch" where
  "compile_prefix_dispatch base pfx limit = (case pfx of
       NonSeq \<Rightarrow> Inl PrefixNotSequence
     | Seq vs \<Rightarrow>
         if vs = [] then Inl PrefixEmpty
         else rbind (canonical_moves PrefixMove 0 vs) (\<lambda>ms.
           let position = \<lparr>pr_base_fen = pr_base_fen base, pr_moves = pr_moves base @ butlast ms,
                           pr_variant = pr_variant base\<rparr>;
               searchmoves = [last ms]
           in rbind (build_go_command limit (Some searchmoves)) (\<lambda>go.
             Inr \<lparr>pd_prefix = ms, pd_position = position, pd_searchmoves = searchmoves,
                  pd_go_command = go\<rparr>)))"

text \<open>The validation loop over the sibling moves, which also refuses duplicates.\<close>

fun canonical_children :: "string list \<Rightarrow> nat \<Rightarrow> pyval list \<Rightarrow> request_error + string list" where
  "canonical_children seen i [] = Inr []"
| "canonical_children seen i (v # vs) =
     (case as_str v of
        None \<Rightarrow> Inl (ChildMove i)
      | Some s \<Rightarrow>
          if \<not> uci_move s then Inl (ChildMove i)
          else if s \<in> set seen then Inl (DuplicateChild s)
          else rbind (canonical_children (s # seen) (Suc i) vs) (\<lambda>ms. Inr (s # ms)))"

definition compile_descendant_region ::
    "position_request \<Rightarrow> pyval pyseq \<Rightarrow> pyval pyseq \<Rightarrow> (string \<times> pyval) list \<Rightarrow>
     request_error + prefix_dispatch" where
  "compile_descendant_region base parent child_moves limit = (case parent of
       NonSeq \<Rightarrow> Inl PrefixNotSequence
     | Seq pv \<Rightarrow> (case child_moves of
         NonSeq \<Rightarrow> Inl ChildNotSequence
       | Seq cv \<Rightarrow>
           if cv = [] then Inl ChildEmpty
           else rbind (canonical_moves PrefixMove 0 pv) (\<lambda>ps.
                rbind (canonical_children [] 0 cv) (\<lambda>cs.
                rbind (descendant_position base (Seq (map PStr ps))) (\<lambda>position.
                rbind (build_go_command limit (Some cs)) (\<lambda>go.
                  Inr \<lparr>pd_prefix = ps, pd_position = position, pd_searchmoves = cs,
                       pd_go_command = go\<rparr>))))))"

section \<open>Validated sequences\<close>

lemma as_str_Some [simp]: "as_str v = Some s \<longleftrightarrow> v = PStr s"
  by (cases v) auto

lemma canonical_moves_Inr:
  "canonical_moves err i vs = Inr ms \<longleftrightarrow> vs = map PStr ms \<and> (\<forall>m \<in> set ms. uci_move m)"
proof (induction vs arbitrary: i ms)
  case Nil
  then show ?case by auto
next
  case (Cons v vs)
  then show ?case by (cases ms) (auto simp: rbind_eq_Inr split: option.splits)
qed

lemma canonical_children_Inr:
  "canonical_children seen i vs = Inr ms \<longleftrightarrow>
     vs = map PStr ms \<and> (\<forall>m \<in> set ms. uci_move m) \<and> distinct ms \<and> set ms \<inter> set seen = {}"
proof (induction vs arbitrary: seen i ms)
  case Nil
  then show ?case by auto
next
  case (Cons v vs)
  then show ?case by (cases ms) (auto simp: rbind_eq_Inr split: option.splits)
qed

lemma position_with_moves:
  "\<lparr>pr_base_fen = pr_base_fen b, pr_moves = ms, pr_variant = pr_variant b\<rparr> = b\<lparr>pr_moves := ms\<rparr>"
  by (cases b) simp

lemma map_PStr_eq [simp]: "map PStr xs = map PStr ys \<longleftrightarrow> xs = ys"
  by (rule inj_map_eq_map) (simp add: inj_def)

lemma descendant_position_Inr:
  "descendant_position base (Seq vs) = Inr p \<longleftrightarrow> (\<exists>ms. vs = map PStr ms \<and> (\<forall>m \<in> set ms. uci_move m) \<and>
     p = base\<lparr>pr_moves := pr_moves base @ ms\<rparr>)"
  by (auto simp: descendant_position_def rbind_eq_Inr canonical_moves_Inr position_with_moves)

lemma compile_prefix_Inr:
  assumes "compile_prefix_dispatch base pfx limit = Inr d"
  obtains ms go where "pfx = Seq (map PStr ms)" "ms \<noteq> []" "\<forall>m \<in> set ms. uci_move m"
    "build_go_command limit (Some [last ms]) = Inr go"
    "d = \<lparr>pd_prefix = ms, pd_position = base\<lparr>pr_moves := pr_moves base @ butlast ms\<rparr>,
          pd_searchmoves = [last ms], pd_go_command = go\<rparr>"
  using assms
  by (auto simp: compile_prefix_dispatch_def rbind_eq_Inr canonical_moves_Inr Let_def
      position_with_moves split: pyseq.splits if_splits)

lemma compile_region_Inr:
  assumes "compile_descendant_region base parent child_moves limit = Inr d"
  obtains ps cs go where "parent = Seq (map PStr ps)" "\<forall>m \<in> set ps. uci_move m"
    "child_moves = Seq (map PStr cs)" "cs \<noteq> []" "\<forall>m \<in> set cs. uci_move m" "distinct cs"
    "build_go_command limit (Some cs) = Inr go"
    "d = \<lparr>pd_prefix = ps, pd_position = base\<lparr>pr_moves := pr_moves base @ ps\<rparr>,
          pd_searchmoves = cs, pd_go_command = go\<rparr>"
  using assms
  by (auto simp: compile_descendant_region_def rbind_eq_Inr canonical_moves_Inr
      canonical_children_Inr descendant_position_Inr split: pyseq.splits if_splits)

section \<open>What a dispatch asks the engine to search\<close>

text \<open>C6. Compiling a prefix loses and invents no move: reading the dispatched
  position command and go command back as UCI, the game history is the external
  history extended by the prefix without its last move, the only root move is
  that last move, and nothing in the command is unknown to the parser.\<close>

theorem prefix_dispatch_sound:
  assumes ok: "position_ok base"
    and d: "compile_prefix_dispatch base pfx limit = Inr d"
  shows "\<exists>q g. parse_position_command (pd_position_command d) (pr_variant base) = Inr q \<and>
     parse_go_request (pd_go_command d) = Inr g \<and>
     pr_base_fen q = pr_base_fen base \<and>
     pr_moves q @ gr_root_moves g = pr_moves base @ pd_prefix d \<and>
     length (gr_root_moves g) = 1 \<and> gr_unknown g = [] \<and> gr_limits g = expected_limits limit"
  using d
proof (cases rule: compile_prefix_Inr)
  case (1 ms go)
  let ?q = "base\<lparr>pr_moves := pr_moves base @ butlast ms\<rparr>"
  have "position_ok ?q"
    using ok 1(3) by (auto simp: position_ok_def dest: in_set_butlastD)
  then have pos: "parse_position_command (pd_position_command d) (pr_variant base) = Inr ?q"
    using position_command_roundtrip [of ?q] by (simp add: 1(5) pd_position_command_def)
  have "uci_move (last ms)" using 1(2,3) by simp
  then have go: "parse_go_request (pd_go_command d) = Inr
      \<lparr>gr_limits = expected_limits limit, gr_root_moves = [last ms], gr_unknown = [], gr_raw = go\<rparr>"
    using go_command_roundtrip [OF 1(4)] 1(5) by simp
  show ?thesis
    by (intro exI conjI, rule pos, rule go) (use 1(2,5) in simp_all)
qed

theorem prefix_dispatch_sound_witness:
  "let base = \<lparr>pr_base_fen = startpos_fen, pr_moves = [''e2e4'', ''e7e5''], pr_variant = ''standard''\<rparr> in
   \<exists>d q g. position_ok base \<and>
     compile_prefix_dispatch base (Seq [PStr ''g1f3'', PStr ''b8c6'']) [(''nodes'', PInt 400)] = Inr d \<and>
     parse_position_command (pd_position_command d) ''standard'' = Inr q \<and>
     parse_go_request (pd_go_command d) = Inr g \<and>
     pr_moves q @ gr_root_moves g = [''e2e4'', ''e7e5'', ''g1f3'', ''b8c6'']"
proof -
  let ?base = "\<lparr>pr_base_fen = startpos_fen, pr_moves = [''e2e4'', ''e7e5''], pr_variant = ''standard''\<rparr>"
  have ok: "position_ok ?base"
    by (simp add: position_ok_def startpos_fen_def py_strip_def py_space_def sublist_Cons_right
        file_char_def rank_char_def)
  have c: "compile_prefix_dispatch ?base (Seq [PStr ''g1f3'', PStr ''b8c6'']) [(''nodes'', PInt 400)] =
      Inr \<lparr>pd_prefix = [''g1f3'', ''b8c6''],
           pd_position = ?base\<lparr>pr_moves := [''e2e4'', ''e7e5'', ''g1f3'']\<rparr>,
           pd_searchmoves = [''b8c6''], pd_go_command = ''go nodes 400 searchmoves b8c6''\<rparr>"
    by code_simp
  show ?thesis
    using ok c prefix_dispatch_sound [OF ok c] by fastforce
qed

text \<open>A region of sibling leaves asks for exactly these children below the
  position after the parent prefix, and the region of a single child is the
  dispatch of the child's own prefix.\<close>

theorem descendant_region_singleton:
  assumes "compile_prefix_dispatch base (Seq (map PStr (ps @ [m]))) limit = Inr d"
  shows "compile_descendant_region base (Seq (map PStr ps)) (Seq [PStr m]) limit =
     Inr (d\<lparr>pd_prefix := ps\<rparr>)"
  using assms
proof (cases rule: compile_prefix_Inr)
  case (1 ms go)
  have ms: "ms = ps @ [m]"
    using 1(1) by (simp del: map_append)
  have "canonical_moves PrefixMove 0 (map PStr ps) = Inr ps" "canonical_children [] 0 [PStr m] = Inr [m]"
    "descendant_position base (Seq (map PStr ps)) = Inr (base\<lparr>pr_moves := pr_moves base @ ps\<rparr>)"
    using 1(3) ms by (auto simp: canonical_moves_Inr canonical_children_Inr descendant_position_Inr)
  with 1(4,5) ms show ?thesis
    by (simp add: compile_descendant_region_def)
qed

theorem descendant_region_singleton_witness:
  "let base = \<lparr>pr_base_fen = startpos_fen, pr_moves = [], pr_variant = ''standard''\<rparr> in
   \<exists>d. compile_prefix_dispatch base (Seq (map PStr ([''e2e4''] @ [''e7e5'']))) [(''nodes'', PInt 1)] = Inr d \<and>
     compile_descendant_region base (Seq (map PStr [''e2e4''])) (Seq [PStr ''e7e5'']) [(''nodes'', PInt 1)] =
       Inr (d\<lparr>pd_prefix := [''e2e4'']\<rparr>)"
proof -
  let ?base = "\<lparr>pr_base_fen = startpos_fen, pr_moves = [], pr_variant = ''standard''\<rparr>"
  have c: "compile_prefix_dispatch ?base (Seq (map PStr ([''e2e4''] @ [''e7e5'']))) [(''nodes'', PInt 1)] =
      Inr \<lparr>pd_prefix = [''e2e4'', ''e7e5''], pd_position = ?base\<lparr>pr_moves := [''e2e4'']\<rparr>,
           pd_searchmoves = [''e7e5''], pd_go_command = ''go nodes 1 searchmoves e7e5''\<rparr>"
    by code_simp
  show ?thesis
    unfolding Let_def using c descendant_region_singleton [OF c] by blast
qed

end
