(* ===== verification/RootShards.thy ===== *)
theory RootShards
  imports SearchRequest
begin

text \<open>
  \<^verbatim>\<open>controller/shards.py\<close>: the root ownership ledger.  Every legal root move is a
  shard; the candidate universe is partitioned once among the engine owners,
  and an owner's shards are leased, activated and sealed together.
\<close>

section \<open>Validation shared by the ledgers\<close>

datatype ledger_error =
    GenerationInvalid
  | OwnersEmpty
  | OwnerNotText
  | OwnersNotUnique
  | MoveNotCanonical
  | DuplicateRoot string
  | AlreadyAssigned
  | PartitionKeys
  | PartitionNotSequence string
  | DuplicateWithinOwner string string
  | UnknownRoot string string
  | MultipleOwners string string string
  | NotCovering "string list"
  | CoverageMismatch
  | UnknownOwner string
  | NothingOwned string
  | WrongState "string list"
  | UnknownShard string
  | NotFrontier string
  | ForeignShard string
  | SplitTwice
  | ChildrenNotSequence
  | ChildrenEmpty
  | SplitDuplicate string
  | SplitRecreates "string list"
  | SplitOverlap "string list"
  | TransferSameOwner
  | TransferNotSequence
  | TransferEmpty
  | TransferDuplicate
  | PrefixShape
  | PrefixUnknown
  | InvariantBroken string
  | KeyMissing string
  | RecursionLimit

definition validate_move :: "pyval \<Rightarrow> ledger_error + string" where
  "validate_move v = (case as_str v of
      None \<Rightarrow> Inl MoveNotCanonical
    | Some m \<Rightarrow> if uci_move m then Inr m else Inl MoveNotCanonical)"

definition validate_generation :: "pyval \<Rightarrow> ledger_error + nat" where
  "validate_generation v = (case as_int v of
      None \<Rightarrow> Inl GenerationInvalid
    | Some g \<Rightarrow> if g < 1 then Inl GenerationInvalid else Inr (nat g))"

fun is_name :: "pyval \<Rightarrow> bool" where
  "is_name (PStr s) = (s \<noteq> [])"
| "is_name v = False"

fun name_of :: "pyval \<Rightarrow> string" where
  "name_of (PStr s) = s"
| "name_of v = []"

definition validate_owners :: "pyval list \<Rightarrow> ledger_error + string list" where
  "validate_owners vs =
     (if vs = [] then Inl OwnersEmpty
      else if \<exists>v \<in> set vs. \<not> is_name v then Inl OwnerNotText
      else if length (remdups (map name_of vs)) \<noteq> length vs then Inl OwnersNotUnique
      else Inr (map name_of vs))"

text \<open>The loop over the candidate roots; \<open>roots\<close> are the moves accepted so far.\<close>

fun validate_roots :: "string list \<Rightarrow> pyval list \<Rightarrow> ledger_error + string list" where
  "validate_roots roots [] = Inr roots"
| "validate_roots roots (v # vs) =
     rbind (validate_move v) (\<lambda>m.
       if m \<in> set roots then Inl (DuplicateRoot m) else validate_roots (roots @ [m]) vs)"

type_synonym partition = "(string \<times> pyval pyseq) list"

text \<open>
  The validation of a partition.  \<open>known\<close> is the membership test in the ledger's
  index, \<open>seen\<close> the dictionary \<open>seen_global\<close> from a move to its owner.
\<close>

fun partition_moves ::
    "(string \<Rightarrow> bool) \<Rightarrow> string \<Rightarrow> string list \<Rightarrow> (string \<times> string) list \<Rightarrow> pyval list \<Rightarrow>
     ledger_error + (string list \<times> (string \<times> string) list)" where
  "partition_moves known owner local seen [] = Inr (local, seen)"
| "partition_moves known owner local seen (v # vs) =
     rbind (validate_move v) (\<lambda>m.
       if m \<in> set local then Inl (DuplicateWithinOwner owner m)
       else if \<not> known m then Inl (UnknownRoot owner m)
       else (case dict_get seen m of
           Some previous \<Rightarrow> Inl (MultipleOwners m previous owner)
         | None \<Rightarrow> partition_moves known owner (local @ [m]) (dict_set m owner seen) vs))"

fun partition_owners ::
    "(string \<Rightarrow> bool) \<Rightarrow> partition \<Rightarrow> (string \<times> string) list \<Rightarrow> string list \<Rightarrow>
     ledger_error + ((string \<times> string list) list \<times> (string \<times> string) list)" where
  "partition_owners known part seen [] = Inr ([], seen)"
| "partition_owners known part seen (owner # owners) =
     (case dict_get part owner of
        Some (Seq vs) \<Rightarrow>
          rbind (partition_moves known owner [] seen vs) (\<lambda>(local, seen').
          rbind (partition_owners known part seen' owners) (\<lambda>(validated, seen'').
            Inr ((owner, local) # validated, seen'')))
      | _ \<Rightarrow> Inl (PartitionNotSequence owner))"

definition validate_partition ::
    "(string \<Rightarrow> bool) \<Rightarrow> string list \<Rightarrow> string list \<Rightarrow> partition \<Rightarrow>
     ledger_error + (string \<times> string list) list" where
  "validate_partition known owners roots part =
     (if set (dict_keys part) \<noteq> set owners then Inl PartitionKeys
      else rbind (partition_owners known part [] owners) (\<lambda>(validated, seen).
        let missing = filter (\<lambda>m. dict_get seen m = None) roots in
        if missing \<noteq> [] then Inl (NotCovering missing)
        else if length seen \<noteq> length roots then Inl CoverageMismatch
        else Inr validated))"

text \<open>The owner and move pairs in the order of the commit loops.\<close>

definition assignments :: "(string \<times> string list) list \<Rightarrow> (string \<times> string) list" where
  "assignments validated = concat (map (\<lambda>(owner, ms). map (\<lambda>m. (m, owner)) ms) validated)"

section \<open>The ledger\<close>

datatype shard_state = Unassigned | Leased | Active | Sealed

fun shard_state_value :: "shard_state \<Rightarrow> string" where
  "shard_state_value Unassigned = ''unassigned''"
| "shard_state_value Leased = ''leased''"
| "shard_state_value Active = ''active''"
| "shard_state_value Sealed = ''sealed''"

record root_shard =
  rs_id :: string
  rs_generation :: nat
  rs_ordinal :: nat
  rs_prefix :: "string list"
  rs_owner :: "string option"
  rs_state :: shard_state

text \<open>The index \<open>_by_move\<close> holds the position of the shard object in \<open>_shards\<close>.\<close>

record root_ledger =
  rl_owners :: "string list"
  rl_generation :: nat
  rl_candidate_roots :: "string list"
  rl_revision :: nat
  rl_partition_assigned :: bool
  rl_shards :: "root_shard list"
  rl_by_move :: "(string \<times> nat) list"

definition root_shard_id :: "nat \<Rightarrow> nat \<Rightarrow> string \<Rightarrow> string" where
  "root_shard_id gen ordinal m = ''g'' @ pad0 6 gen @ '':r'' @ pad0 3 ordinal @ '':'' @ m"

definition new_root_shard :: "nat \<Rightarrow> nat \<Rightarrow> string \<Rightarrow> root_shard" where
  "new_root_shard gen ordinal m = \<lparr>rs_id = root_shard_id gen ordinal m, rs_generation = gen,
     rs_ordinal = ordinal, rs_prefix = [m], rs_owner = None, rs_state = Unassigned\<rparr>"

definition new_root_ledger ::
    "pyval list \<Rightarrow> pyval list \<Rightarrow> pyval \<Rightarrow> ledger_error + root_ledger" where
  "new_root_ledger candidate_roots owners generation =
     rbind (validate_generation generation) (\<lambda>gen.
     rbind (validate_owners owners) (\<lambda>os.
     rbind (validate_roots [] candidate_roots) (\<lambda>roots.
       Inr \<lparr>rl_owners = os, rl_generation = gen, rl_candidate_roots = roots, rl_revision = 0,
            rl_partition_assigned = False,
            rl_shards = map (\<lambda>(i, m). new_root_shard gen i m) (List.enumerate 0 roots),
            rl_by_move = map (\<lambda>(i, m). (m, i)) (List.enumerate 0 roots)\<rparr>)))"

definition lease :: "string \<Rightarrow> root_shard \<Rightarrow> root_shard" where
  "lease owner s = s\<lparr>rs_owner := Some owner, rs_state := Leased\<rparr>"

definition commit_root :: "(string \<times> nat) list \<Rightarrow> root_shard list \<Rightarrow> string \<times> string \<Rightarrow> root_shard list" where
  "commit_root by_move shards mo =
     (case dict_get by_move (fst mo) of
        Some i \<Rightarrow> shards[i := lease (snd mo) (shards ! i)]
      | None \<Rightarrow> shards)"

definition assign_partition ::
    "root_ledger \<Rightarrow> partition \<Rightarrow> root_ledger \<times> (ledger_error + unit)" where
  "assign_partition L part =
     (if rl_partition_assigned L then (L, Inl AlreadyAssigned)
      else raising L (validate_partition (\<lambda>m. dict_get (rl_by_move L) m \<noteq> None)
                        (rl_owners L) (rl_candidate_roots L) part) (\<lambda>validated.
        (L\<lparr>rl_shards := foldl (commit_root (rl_by_move L)) (rl_shards L) (assignments validated),
           rl_partition_assigned := True, rl_revision := Suc (rl_revision L)\<rparr>, Inr ())))"

definition owned_by :: "string \<Rightarrow> root_ledger \<Rightarrow> root_shard list" where
  "owned_by owner L = filter (\<lambda>s. rs_owner s = Some owner) (rl_shards L)"

text \<open>The guards shared by activation, dispatch and sealing.\<close>

definition require_owned :: "root_ledger \<Rightarrow> string \<Rightarrow> shard_state \<Rightarrow> ledger_error + root_shard list" where
  "require_owned L owner st =
     (if owner \<notin> set (rl_owners L) then Inl (UnknownOwner owner)
      else if owned_by owner L = [] then Inl (NothingOwned owner)
      else (let invalid = map rs_id (filter (\<lambda>s. rs_state s \<noteq> st) (owned_by owner L)) in
        if invalid \<noteq> [] then Inl (WrongState invalid) else Inr (owned_by owner L)))"

definition set_owned_state :: "string \<Rightarrow> shard_state \<Rightarrow> root_shard list \<Rightarrow> root_shard list" where
  "set_owned_state owner st =
     map (\<lambda>s. if rs_owner s = Some owner then s\<lparr>rs_state := st\<rparr> else s)"

definition activate_owner :: "root_ledger \<Rightarrow> string \<Rightarrow> root_ledger \<times> (ledger_error + unit)" where
  "activate_owner L owner =
     raising L (require_owned L owner Leased) (\<lambda>owned.
       (L\<lparr>rl_shards := set_owned_state owner Active (rl_shards L),
          rl_revision := Suc (rl_revision L)\<rparr>, Inr ()))"

definition active_roots :: "root_ledger \<Rightarrow> string \<Rightarrow> ledger_error + string list" where
  "active_roots L owner =
     rbind (require_owned L owner Active) (\<lambda>owned. Inr (map (\<lambda>s. hd (rs_prefix s)) owned))"

definition seal_owner :: "root_ledger \<Rightarrow> string \<Rightarrow> root_ledger \<times> (ledger_error + unit)" where
  "seal_owner L owner =
     raising L (require_owned L owner Active) (\<lambda>owned.
       (L\<lparr>rl_shards := set_owned_state owner Sealed (rl_shards L),
          rl_revision := Suc (rl_revision L)\<rparr>, Inr ()))"

fun opt_str :: "string option \<Rightarrow> pyval" where
  "opt_str None = PNone"
| "opt_str (Some s) = PStr s"

definition root_snapshot :: "root_ledger \<Rightarrow> pyval" where
  "root_snapshot L = PDict
     [(''schema_version'', PInt 1),
      (''generation'', PInt (int (rl_generation L))),
      (''revision'', PInt (int (rl_revision L))),
      (''partition_assigned'', PBool (rl_partition_assigned L)),
      (''owners'', PList (map PStr (rl_owners L))),
      (''candidate_roots'', PList (map PStr (rl_candidate_roots L))),
      (''shards'', PList (map (\<lambda>s. PDict
         [(''id'', PStr (rs_id s)),
          (''ordinal'', PInt (int (rs_ordinal s))),
          (''prefix'', PList (map PStr (rs_prefix s))),
          (''owner'', opt_str (rs_owner s)),
          (''state'', PStr (shard_state_value (rs_state s)))]) (rl_shards L)))]"

datatype root_op = AssignPartition partition | ActivateOwner string | SealOwner string

fun root_step :: "root_ledger \<Rightarrow> root_op \<Rightarrow> root_ledger \<times> (ledger_error + unit)" where
  "root_step L (AssignPartition part) = assign_partition L part"
| "root_step L (ActivateOwner owner) = activate_owner L owner"
| "root_step L (SealOwner owner) = seal_owner L owner"

section \<open>What the validations accept\<close>

lemma validate_move_Inr [simp]: "validate_move v = Inr m \<longleftrightarrow> v = PStr m \<and> uci_move m"
  by (cases v) (auto simp: validate_move_def)

lemma validate_roots_Inr:
  "validate_roots acc vs = Inr roots \<Longrightarrow> distinct acc \<Longrightarrow> \<forall>m \<in> set acc. uci_move m \<Longrightarrow>
   distinct roots \<and> (\<forall>m \<in> set roots. uci_move m)"
proof (induction vs arbitrary: acc)
  case (Cons v vs)
  from Cons.prems(1) obtain m where "uci_move m" "m \<notin> set acc" "validate_roots (acc @ [m]) vs = Inr roots"
    by (auto simp: rbind_eq_Inr split: if_splits)
  with Cons.IH [of "acc @ [m]"] Cons.prems(2,3) show ?case by simp
qed simp

lemma name_of_nonempty: "is_name v \<Longrightarrow> name_of v \<noteq> []"
  by (cases v) auto

lemma validate_owners_Inr:
  assumes "validate_owners vs = Inr os"
  shows "os \<noteq> [] \<and> distinct os \<and> [] \<notin> set os"
proof -
  have os: "os = map name_of vs" "vs \<noteq> []" "\<forall>v \<in> set vs. is_name v"
    "length (remdups os) = length vs"
    using assms by (simp_all add: validate_owners_def split: if_splits)
  then have "card (set os) = length os" by (simp add: length_remdups_card_conv)
  then have "distinct os" by (rule card_distinct)
  moreover have "[] \<notin> set os" using os(1,3) name_of_nonempty by force
  ultimately show ?thesis using os(1,2) by simp
qed

lemma partition_moves_Inr:
  assumes "partition_moves known owner loc seen vs = Inr (loc', seen')"
    and "dict_ok seen" "distinct loc" "set loc \<subseteq> set (dict_keys seen)"
  shows "\<exists>ms. loc' = loc @ ms \<and> seen' = seen @ map (\<lambda>m. (m, owner)) ms \<and> distinct loc' \<and>
     dict_ok seen' \<and> (\<forall>m \<in> set ms. known m \<and> uci_move m)"
  using assms
proof (induction vs arbitrary: loc seen)
  case Nil
  then show ?case by auto
next
  case (Cons v vs)
  from Cons.prems(1) obtain m where
    m: "v = PStr m" "uci_move m" "m \<notin> set loc" "known m" "dict_get seen m = None" and
    rest: "partition_moves known owner (loc @ [m]) (dict_set m owner seen) vs = Inr (loc', seen')"
    by (auto simp: rbind_eq_Inr split: if_splits option.splits)
  have fresh: "dict_set m owner seen = seen @ [(m, owner)]"
    using m(5) by (simp add: dict_set_fresh dict_get_None)
  have "\<exists>ms. loc' = (loc @ [m]) @ ms \<and> seen' = dict_set m owner seen @ map (\<lambda>m. (m, owner)) ms \<and>
     distinct loc' \<and> dict_ok seen' \<and> (\<forall>m \<in> set ms. known m \<and> uci_move m)"
    using rest Cons.prems(2-4) m(3,5)
    by (intro Cons.IH) (auto simp: fresh dict_get_None)
  then obtain ms where "loc' = loc @ m # ms" "seen' = seen @ map (\<lambda>m. (m, owner)) (m # ms)"
     "distinct loc'" "dict_ok seen'" "\<forall>m \<in> set ms. known m \<and> uci_move m"
    by (auto simp: fresh)
  with m(2,4) show ?case by (intro exI [of _ "m # ms"]) auto
qed

lemma partition_owners_Inr:
  assumes "partition_owners known part seen os = Inr (validated, seen')" "dict_ok seen"
  shows "seen' = seen @ assignments validated \<and> map fst validated = os \<and> dict_ok seen' \<and>
     (\<forall>mo \<in> set (assignments validated). known (fst mo) \<and> snd mo \<in> set os)"
  using assms
proof (induction os arbitrary: seen validated seen')
  case Nil
  then show ?case by (auto simp: assignments_def)
next
  case (Cons owner os)
  from Cons.prems(1) obtain vs loc seen1 validated' where
    part: "dict_get part owner = Some (Seq vs)" and
    ms: "partition_moves known owner [] seen vs = Inr (loc, seen1)" and
    rest: "partition_owners known part seen1 os = Inr (validated', seen')" and
    validated: "validated = (owner, loc) # validated'"
    by (auto simp: rbind_eq_Inr split: option.splits pyseq.splits)
  have seen1: "seen1 = seen @ map (\<lambda>m. (m, owner)) loc" "dict_ok seen1" "\<forall>m \<in> set loc. known m"
    using partition_moves_Inr [OF ms Cons.prems(2)] by fastforce+
  have assign: "assignments ((owner, loc) # validated') = map (\<lambda>m. (m, owner)) loc @ assignments validated'"
    by (simp add: assignments_def)
  have IH: "seen' = seen1 @ assignments validated'" "map fst validated' = os" "dict_ok seen'"
    "\<forall>mo \<in> set (assignments validated'). known (fst mo) \<and> snd mo \<in> set os"
    using Cons.IH [OF rest seen1(2)] by blast+
  show ?case
  proof (intro conjI)
    show "dict_ok seen'" by (rule IH(3))
  qed (use IH(1,2,4) seen1(1,3) in \<open>auto simp: assign validated\<close>)
qed

text \<open>An accepted partition assigns every root of the universe to exactly one owner.\<close>

lemma validate_partition_Inr:
  assumes "validate_partition known owners roots part = Inr validated"
    and "distinct roots" "\<And>m. known m \<longleftrightarrow> m \<in> set roots"
  shows "map fst validated = owners \<and> dict_ok (assignments validated) \<and>
     set (map fst (assignments validated)) = set roots \<and>
     (\<forall>mo \<in> set (assignments validated). snd mo \<in> set owners)"
proof -
  obtain seen where po: "partition_owners known part [] owners = Inr (validated, seen)"
    and missing: "\<forall>m \<in> set roots. dict_get seen m \<noteq> None"
    using assms(1) by (auto simp: validate_partition_def rbind_eq_Inr Let_def filter_empty_conv
        split: if_splits)
  have seen: "seen = assignments validated" "map fst validated = owners" "dict_ok seen"
    "\<forall>mo \<in> set (assignments validated). known (fst mo) \<and> snd mo \<in> set owners"
    using partition_owners_Inr [OF po] by auto
  moreover have "set roots \<subseteq> set (map fst seen)"
    using missing by (auto simp: dict_get_None)
  ultimately show ?thesis using assms(3) by auto
qed

section \<open>The invariant of the ledger\<close>

text \<open>
  The shards are the candidate roots, in order and under deterministic
  identities; before the partition is assigned nothing is owned, afterwards
  every shard has an authorised owner; shards of one owner are in one state.
\<close>

definition root_skeleton :: "root_ledger \<Rightarrow> bool" where
  "root_skeleton L \<longleftrightarrow> distinct (rl_candidate_roots L) \<and> distinct (rl_owners L) \<and>
     length (rl_shards L) = length (rl_candidate_roots L) \<and>
     (\<forall>i < length (rl_shards L). rs_prefix (rl_shards L ! i) = [rl_candidate_roots L ! i] \<and>
        rs_ordinal (rl_shards L ! i) = i \<and> rs_generation (rl_shards L ! i) = rl_generation L \<and>
        rs_id (rl_shards L ! i) = root_shard_id (rl_generation L) i (rl_candidate_roots L ! i)) \<and>
     rl_by_move L = map (\<lambda>(i, m). (m, i)) (List.enumerate 0 (rl_candidate_roots L))"

definition root_ownership :: "root_ledger \<Rightarrow> bool" where
  "root_ownership L \<longleftrightarrow>
     (if rl_partition_assigned L
      then \<forall>s \<in> set (rl_shards L). (\<exists>w \<in> set (rl_owners L). rs_owner s = Some w) \<and> rs_state s \<noteq> Unassigned
      else \<forall>s \<in> set (rl_shards L). rs_owner s = None \<and> rs_state s = Unassigned)"

definition root_uniform :: "root_ledger \<Rightarrow> bool" where
  "root_uniform L \<longleftrightarrow> (\<forall>s \<in> set (rl_shards L). \<forall>t \<in> set (rl_shards L).
     rs_owner s = rs_owner t \<longrightarrow> rs_state s = rs_state t)"

definition root_inv :: "root_ledger \<Rightarrow> bool" where
  "root_inv L \<longleftrightarrow> root_skeleton L \<and> root_ownership L \<and> root_uniform L"

lemma enumerate_nth: "i < length xs \<Longrightarrow> List.enumerate n xs ! i = (n + i, xs ! i)"
  by (simp add: nth_enumerate_eq)

lemma by_move_get:
  assumes "distinct roots"
  shows "dict_get (map (\<lambda>(i, m). (m, i)) (List.enumerate 0 roots)) m = Some i \<longleftrightarrow>
     i < length roots \<and> roots ! i = m"
proof -
  have "map fst (map (\<lambda>(i, m). (m, i)) (List.enumerate 0 roots)) = roots"
    by (rule nth_equalityI) (auto simp: enumerate_nth)
  then have ok: "dict_ok (map (\<lambda>(i, m). (m, i)) (List.enumerate 0 roots))"
    using assms by simp
  have "(m, i) \<in> set (map (\<lambda>(i, m). (m, i)) (List.enumerate 0 roots)) \<longleftrightarrow>
      i < length roots \<and> roots ! i = m"
    by (auto simp: in_set_enumerate_eq)
  with dict_get_mem [OF ok] show ?thesis by simp
qed

lemma new_root_ledger_inv:
  assumes "new_root_ledger roots owners gen = Inr L"
  shows "root_inv L \<and> rl_revision L = 0"
proof -
  obtain os rs g where L: "distinct os" "distinct rs"
    "L = \<lparr>rl_owners = os, rl_generation = g, rl_candidate_roots = rs, rl_revision = 0,
            rl_partition_assigned = False,
            rl_shards = map (\<lambda>(i, m). new_root_shard g i m) (List.enumerate 0 rs),
            rl_by_move = map (\<lambda>(i, m). (m, i)) (List.enumerate 0 rs)\<rparr>"
    using assms validate_owners_Inr [of owners] validate_roots_Inr [of "[]" roots]
    by (fastforce simp: new_root_ledger_def rbind_eq_Inr)
  have "root_skeleton L"
    unfolding root_skeleton_def L(3) using L(1,2)
    by (simp add: enumerate_nth new_root_shard_def)
  moreover have "root_ownership L" "root_uniform L"
    unfolding root_ownership_def root_uniform_def L(3)
    by (auto simp: new_root_shard_def in_set_enumerate_eq)
  ultimately show ?thesis by (simp add: root_inv_def L(3))
qed

section \<open>Every operation keeps the invariant\<close>

lemma known_root:
  assumes "root_skeleton L"
  shows "dict_get (rl_by_move L) m \<noteq> None \<longleftrightarrow> m \<in> set (rl_candidate_roots L)"
  using by_move_get [of "rl_candidate_roots L" m] assms
  by (auto simp: root_skeleton_def in_set_conv_nth)

text \<open>
  The commit loop as one simultaneous update: the pairs name distinct roots, so
  the shard of each root receives the owner that the pairs give it.
\<close>

lemma commit_roots_nth:
  assumes "distinct roots" "dict_ok pairs" "length shards = length roots"
    and "by_move = map (\<lambda>(i, m). (m, i)) (List.enumerate 0 roots)"
  shows "length (foldl (commit_root by_move) shards pairs) = length roots \<and>
    (\<forall>i < length roots. foldl (commit_root by_move) shards pairs ! i =
       (case dict_get pairs (roots ! i) of Some w \<Rightarrow> lease w (shards ! i) | None \<Rightarrow> shards ! i))"
  using assms(2,3)
proof (induction pairs arbitrary: shards)
  case Nil
  then show ?case by simp
next
  case (Cons mo pairs)
  obtain m w where mo: "mo = (m, w)" by (cases mo)
  let ?next = "commit_root by_move shards mo"
  have len: "length ?next = length roots"
    using Cons.prems by (simp add: commit_root_def split: option.splits)
  have at: "?next ! i = (if roots ! i = m then lease w (shards ! i) else shards ! i)"
    if "i < length roots" for i
  proof (cases "dict_get by_move m")
    case None
    then have "roots ! i \<noteq> m"
      using by_move_get [OF assms(1), of m i] assms(4) that by auto
    with None show ?thesis by (simp add: commit_root_def mo)
  next
    case (Some j)
    then have j: "j < length roots" "roots ! j = m"
      using by_move_get [OF assms(1), of m j] assms(4) by auto
    then have "roots ! i = m \<longleftrightarrow> i = j"
      using assms(1) that by (auto simp: nth_eq_iff_index_eq)
    with Some j that Cons.prems show ?thesis by (auto simp: commit_root_def mo)
  qed
  have "m \<notin> set (map fst pairs)" "dict_ok pairs"
    using Cons.prems(1) by (auto simp: mo)
  then have fresh: "dict_get pairs m = None" by (simp add: dict_get_None)
  show ?case
    using Cons.IH [OF \<open>dict_ok pairs\<close> len] at fresh
    by (auto simp: mo split: option.splits)
qed

lemma assign_partition_inv:
  assumes "root_inv L" "assign_partition L part = (L', Inr ())"
  shows "root_inv L' \<and> rl_revision L' = Suc (rl_revision L) \<and> rl_partition_assigned L'"
proof -
  let ?roots = "rl_candidate_roots L" and ?by = "rl_by_move L"
  have sk: "root_skeleton L" "distinct ?roots"
    "?by = map (\<lambda>(i, m). (m, i)) (List.enumerate 0 ?roots)"
    "length (rl_shards L) = length ?roots"
    using assms(1) by (auto simp: root_inv_def root_skeleton_def)
  obtain validated where
    valid: "validate_partition (\<lambda>m. dict_get ?by m \<noteq> None) (rl_owners L) ?roots part = Inr validated"
    and L': "L' = L\<lparr>rl_shards := foldl (commit_root ?by) (rl_shards L) (assignments validated),
           rl_partition_assigned := True, rl_revision := Suc (rl_revision L)\<rparr>"
    using assms(2) by (auto simp: assign_partition_def raising_def split: if_splits sum.splits)
  have pairs: "dict_ok (assignments validated)"
    "set (map fst (assignments validated)) = set ?roots"
    "\<forall>mo \<in> set (assignments validated). snd mo \<in> set (rl_owners L)"
    using validate_partition_Inr [OF valid sk(2) known_root [OF sk(1)]] by auto
  have nth: "length (rl_shards L') = length ?roots"
    "\<And>i. i < length ?roots \<Longrightarrow> \<exists>w \<in> set (rl_owners L). rl_shards L' ! i = lease w (rl_shards L ! i)"
  proof -
    note commit = commit_roots_nth [OF sk(2) pairs(1) sk(4) sk(3)]
    show "length (rl_shards L') = length ?roots" using commit by (simp add: L')
    fix i assume i: "i < length ?roots"
    then have "?roots ! i \<in> set (map fst (assignments validated))" using pairs(2) nth_mem by metis
    then obtain w where w: "dict_get (assignments validated) (?roots ! i) = Some w"
      by (metis dict_get_None not_None_eq set_map)
    then have "w \<in> set (rl_owners L)" using pairs(1,3) dict_get_mem by fastforce
    with w commit i show "\<exists>w \<in> set (rl_owners L). rl_shards L' ! i = lease w (rl_shards L ! i)"
      by (auto simp: L')
  qed
  have frame: "rl_candidate_roots L' = ?roots" "rl_owners L' = rl_owners L"
    "rl_generation L' = rl_generation L" "rl_by_move L' = ?by"
    by (simp_all add: L')
  have same: "rs_prefix (rl_shards L' ! i) = rs_prefix (rl_shards L ! i) \<and>
      rs_ordinal (rl_shards L' ! i) = rs_ordinal (rl_shards L ! i) \<and>
      rs_generation (rl_shards L' ! i) = rs_generation (rl_shards L ! i) \<and>
      rs_id (rl_shards L' ! i) = rs_id (rl_shards L ! i)" if "i < length ?roots" for i
    using nth(2) [OF that] by (auto simp: lease_def)
  have skel: "root_skeleton L'"
    using sk(1) nth(1) by (simp add: root_skeleton_def frame same)
  have all: "\<exists>w \<in> set (rl_owners L'). rs_owner s = Some w \<and> rs_state s = Leased"
    if "s \<in> set (rl_shards L')" for s
  proof -
    obtain i where "i < length ?roots" "s = rl_shards L' ! i"
      using \<open>s \<in> set (rl_shards L')\<close> nth(1) by (auto simp: in_set_conv_nth)
    with nth(2) [of i] show ?thesis by (auto simp: lease_def frame)
  qed
  moreover have "rl_partition_assigned L'" by (simp add: L')
  ultimately have "root_ownership L'" "root_uniform L'"
    unfolding root_ownership_def root_uniform_def by fastforce+
  with skel show ?thesis by (simp add: root_inv_def L')
qed

lemma require_owned_Inr:
  "require_owned L owner st = Inr owned \<longleftrightarrow> owner \<in> set (rl_owners L) \<and> owned = owned_by owner L \<and>
     owned \<noteq> [] \<and> (\<forall>s \<in> set owned. rs_state s = st)"
  by (auto simp: require_owned_def Let_def filter_empty_conv)

lemma set_owned_inv:
  assumes inv: "root_inv L" and owned: "require_owned L owner st0 = Inr owned" and st: "st \<noteq> Unassigned"
    and L': "L' = L\<lparr>rl_shards := set_owned_state owner st (rl_shards L), rl_revision := r\<rparr>"
  shows "root_inv L'"
proof -
  obtain s where s: "s \<in> set (rl_shards L)" "rs_owner s = Some owner"
    using owned by (fastforce simp: require_owned_Inr owned_by_def filter_empty_conv)
  with inv have assigned: "rl_partition_assigned L"
    by (force simp: root_inv_def root_ownership_def split: if_splits)
  have "root_skeleton L'"
    using inv by (auto simp: root_inv_def root_skeleton_def L' set_owned_state_def)
  moreover have "root_ownership L'"
    using inv assigned st by (auto simp: root_inv_def root_ownership_def L' set_owned_state_def)
  moreover have uniform: "root_uniform L" using inv by (simp only: root_inv_def)
  have "root_uniform L'"
    unfolding root_uniform_def
  proof (intro ballI impI)
    let ?set = "\<lambda>s. if rs_owner s = Some owner then s\<lparr>rs_state := st\<rparr> else s"
    fix s t assume "s \<in> set (rl_shards L')" "t \<in> set (rl_shards L')" and same: "rs_owner s = rs_owner t"
    then obtain s0 t0 where st0: "s0 \<in> set (rl_shards L)" "t0 \<in> set (rl_shards L)" "s = ?set s0" "t = ?set t0"
      by (auto simp: L' set_owned_state_def)
    have keep: "rs_owner (?set x) = rs_owner x" for x :: root_shard by simp
    have ow: "rs_owner s = rs_owner s0" "rs_owner t = rs_owner t0"
      unfolding st0(3,4) by (rule keep)+
    have own0: "rs_owner s0 = rs_owner t0" by (rule trans [OF sym [OF ow(1)] trans [OF same ow(2)]])
    then have "rs_state s0 = rs_state t0"
      using uniform st0(1,2) unfolding root_uniform_def by blast
    moreover have "rs_state (?set x) = (if rs_owner x = Some owner then st else rs_state x)"
      for x :: root_shard by simp
    ultimately show "rs_state s = rs_state t" unfolding st0(3,4) using own0 by presburger
  qed
  ultimately show ?thesis by (simp add: root_inv_def)
qed

lemma activate_owner_cases:
  "activate_owner L owner = (L', r) \<Longrightarrow>
     (\<exists>e. r = Inl e \<and> L' = L) \<or>
     (\<exists>owned. r = Inr () \<and> require_owned L owner Leased = Inr owned \<and>
        L' = L\<lparr>rl_shards := set_owned_state owner Active (rl_shards L),
               rl_revision := Suc (rl_revision L)\<rparr>)"
  by (auto simp: activate_owner_def raising_def split: sum.splits)

lemma seal_owner_cases:
  "seal_owner L owner = (L', r) \<Longrightarrow>
     (\<exists>e. r = Inl e \<and> L' = L) \<or>
     (\<exists>owned. r = Inr () \<and> require_owned L owner Active = Inr owned \<and>
        L' = L\<lparr>rl_shards := set_owned_state owner Sealed (rl_shards L),
               rl_revision := Suc (rl_revision L)\<rparr>)"
  by (auto simp: seal_owner_def raising_def split: sum.splits)

lemma assign_partition_raise: "assign_partition L part = (L', Inl e) \<Longrightarrow> L' = L"
  by (auto simp: assign_partition_def raising_def split: if_splits sum.splits)

lemma root_step_cases:
  assumes "root_inv L"
  shows "case root_step L x of
      (L', Inl e) \<Rightarrow> L' = L
    | (L', Inr u) \<Rightarrow> root_inv L' \<and> rl_revision L' = Suc (rl_revision L)"
proof (cases x)
  case (AssignPartition part)
  with assign_partition_raise assign_partition_inv [OF assms] show ?thesis
    by (auto split: prod.splits sum.splits)
next
  case (ActivateOwner owner)
  then show ?thesis
    using activate_owner_cases [of L owner] set_owned_inv [OF assms, of owner Leased _ Active]
    by (fastforce split: prod.splits sum.splits)
next
  case (SealOwner owner)
  then show ?thesis
    using seal_owner_cases [of L owner] set_owned_inv [OF assms, of owner Active _ Sealed]
    by (fastforce split: prod.splits sum.splits)
qed

interpretation root: transactional root_step root_inv rl_revision
proof unfold_locales
  fix L x e and r :: unit
  assume inv: "root_inv L"
  note cases = root_step_cases [OF inv, of x]
  show "root_inv (fst (root_step L x))"
    using cases inv by (auto split: prod.splits sum.splits)
  show "fst (root_step L x) = L" if "snd (root_step L x) = Inl e"
    using cases that by (auto split: prod.splits sum.splits)
  show "rl_revision (fst (root_step L x)) = Suc (rl_revision L)" if "snd (root_step L x) = Inr r"
    using cases that by (auto split: prod.splits sum.splits)
qed

lemma root_reachable_inv:
  "new_root_ledger roots owners gen = Inr L0 \<Longrightarrow> root_inv (run root_step L0 xs)"
  using new_root_ledger_inv root.run_inv by blast

section \<open>The dispatch regions\<close>

lemma region_subseq:
  assumes "root_skeleton L"
  shows "subseq (map (\<lambda>s. hd (rs_prefix s)) (owned_by owner L)) (rl_candidate_roots L)"
proof -
  have "map (\<lambda>s. hd (rs_prefix s)) (rl_shards L) = rl_candidate_roots L"
    using assms by (auto simp: root_skeleton_def intro: nth_equalityI)
  moreover have "subseq (map (\<lambda>s. hd (rs_prefix s)) (owned_by owner L))
      (map (\<lambda>s. hd (rs_prefix s)) (rl_shards L))"
    unfolding owned_by_def by (intro subseq_map subseq_filter_left)
  ultimately show ?thesis by simp
qed

lemma region_mem:
  assumes "root_skeleton L" "i < length (rl_candidate_roots L)"
  shows "rl_candidate_roots L ! i \<in> (\<lambda>s. hd (rs_prefix s)) ` set (owned_by owner L) \<longleftrightarrow>
     rs_owner (rl_shards L ! i) = Some owner"
proof
  assume "rl_candidate_roots L ! i \<in> (\<lambda>s. hd (rs_prefix s)) ` set (owned_by owner L)"
  then obtain j where j: "j < length (rl_candidate_roots L)" "rs_owner (rl_shards L ! j) = Some owner"
    "rl_candidate_roots L ! i = rl_candidate_roots L ! j"
    using assms(1) by (auto simp: owned_by_def root_skeleton_def in_set_conv_nth)
  then have "i = j" using assms by (auto simp: root_skeleton_def nth_eq_iff_index_eq)
  with j(2) show "rs_owner (rl_shards L ! i) = Some owner" by simp
next
  assume "rs_owner (rl_shards L ! i) = Some owner"
  with assms have "rl_shards L ! i \<in> set (owned_by owner L)"
    "hd (rs_prefix (rl_shards L ! i)) = rl_candidate_roots L ! i"
    by (auto simp: owned_by_def root_skeleton_def)
  then show "rl_candidate_roots L ! i \<in> (\<lambda>s. hd (rs_prefix s)) ` set (owned_by owner L)"
    by (metis imageI)
qed

lemma active_roots_Inr:
  "active_roots L owner = Inr ms \<longleftrightarrow> owner \<in> set (rl_owners L) \<and> owned_by owner L \<noteq> [] \<and>
     (\<forall>s \<in> set (owned_by owner L). rs_state s = Active) \<and>
     ms = map (\<lambda>s. hd (rs_prefix s)) (owned_by owner L)"
  by (auto simp: active_roots_def rbind_eq_Inr require_owned_Inr)

text \<open>
  The life of a shard: its state only advances, an owner once given is never
  changed, and its identity is fixed.
\<close>

instantiation shard_state :: linorder
begin

fun shard_rank :: "shard_state \<Rightarrow> nat" where
  "shard_rank Unassigned = 0"
| "shard_rank Leased = 1"
| "shard_rank Active = 2"
| "shard_rank Sealed = 3"

definition less_eq_shard_state :: "shard_state \<Rightarrow> shard_state \<Rightarrow> bool" where
  "less_eq_shard_state a b \<longleftrightarrow> shard_rank a \<le> shard_rank b"

definition less_shard_state :: "shard_state \<Rightarrow> shard_state \<Rightarrow> bool" where
  "less_shard_state a b \<longleftrightarrow> shard_rank a < shard_rank b"

instance
proof
  fix a b c :: shard_state
  show "a < b \<longleftrightarrow> a \<le> b \<and> \<not> b \<le> a" by (auto simp: less_eq_shard_state_def less_shard_state_def)
  show "a \<le> a" by (simp add: less_eq_shard_state_def)
  show "a \<le> c" if "a \<le> b" "b \<le> c" using that by (simp add: less_eq_shard_state_def)
  show "a = b" if "a \<le> b" "b \<le> a"
    using that by (cases a; cases b) (simp_all add: less_eq_shard_state_def)
  show "a \<le> b \<or> b \<le> a" by (auto simp: less_eq_shard_state_def)
qed

end

definition shard_advances :: "root_shard \<Rightarrow> root_shard \<Rightarrow> bool" where
  "shard_advances s t \<longleftrightarrow> rs_state s \<le> rs_state t \<and> rs_id s = rs_id t \<and> rs_prefix s = rs_prefix t \<and>
     (rs_owner s \<noteq> None \<longrightarrow> rs_owner t = rs_owner s)"

lemma shard_advances_refl: "shard_advances s s"
  by (simp add: shard_advances_def)

lemma shard_advances_trans: "shard_advances s t \<Longrightarrow> shard_advances t u \<Longrightarrow> shard_advances s u"
  by (auto simp: shard_advances_def)

lemma set_owned_advances:
  assumes "require_owned L owner st0 = Inr owned" "st0 \<le> st"
  shows "list_all2 shard_advances (rl_shards L) (set_owned_state owner st (rl_shards L))"
proof -
  have "rs_state s = st0" if "s \<in> set (rl_shards L)" "rs_owner s = Some owner" for s
    using assms(1) that by (auto simp: require_owned_Inr owned_by_def)
  then show ?thesis
    using assms(2)
    by (auto simp: set_owned_state_def list_all2_conv_all_nth shard_advances_def)
qed

lemma assign_partition_advances:
  assumes "root_inv L" "assign_partition L part = (L', Inr ())"
  shows "list_all2 shard_advances (rl_shards L) (rl_shards L')"
proof -
  have inv': "root_inv L'" using assign_partition_inv [OF assms] by blast
  have unassigned: "\<not> rl_partition_assigned L" and frame: "rl_candidate_roots L' = rl_candidate_roots L"
    "rl_generation L' = rl_generation L"
    using assms(2) by (auto simp: assign_partition_def raising_def split: if_splits sum.splits)
  have fresh: "\<forall>s \<in> set (rl_shards L). rs_owner s = None \<and> rs_state s = Unassigned"
    using assms(1) unassigned by (simp add: root_inv_def root_ownership_def)
  have bottom: "Unassigned \<le> st" for st by (simp add: less_eq_shard_state_def)
  show ?thesis
    using assms(1) inv' fresh bottom frame
    by (auto simp: list_all2_conv_all_nth root_inv_def root_skeleton_def shard_advances_def)
qed

lemma root_step_advances:
  assumes "root_inv L"
  shows "list_all2 shard_advances (rl_shards L) (rl_shards (fst (root_step L x)))"
proof (cases "snd (root_step L x)")
  case (Inl e)
  with root.step_raise [OF assms Inl] show ?thesis
    by (simp add: list_all2_refl shard_advances_refl)
next
  case (Inr u)
  obtain L' where L': "root_step L x = (L', Inr ())" using Inr by (cases "root_step L x") auto
  have le: "Leased \<le> Active" "Active \<le> Sealed" by (simp_all add: less_eq_shard_state_def)
  show ?thesis
  proof (cases x)
    case (AssignPartition part)
    with L' assign_partition_advances [OF assms] show ?thesis by simp
  next
    case (ActivateOwner owner)
    with L' activate_owner_cases [of L owner] set_owned_advances [of L owner] le(1) show ?thesis
      by fastforce
  next
    case (SealOwner owner)
    with L' seal_owner_cases [of L owner] set_owned_advances [of L owner] le(2) show ?thesis
      by fastforce
  qed
qed

lemma root_run_advances:
  "root_inv L \<Longrightarrow> list_all2 shard_advances (rl_shards L) (rl_shards (run root_step L xs))"
proof (induction xs arbitrary: L)
  case Nil
  show ?case by (simp add: list_all2_refl shard_advances_refl)
next
  case (Cons x xs)
  have "list_all2 shard_advances (rl_shards L) (rl_shards (fst (root_step L x)))"
    by (rule root_step_advances [OF Cons.prems])
  moreover have "list_all2 shard_advances (rl_shards (fst (root_step L x)))
      (rl_shards (run root_step (fst (root_step L x)) xs))"
    by (rule Cons.IH [OF root.step_inv [OF Cons.prems]])
  ultimately show ?case
    using list_all2_trans [of shard_advances shard_advances shard_advances]
      shard_advances_trans by (metis run_Cons)
qed

section \<open>Properties\<close>

definition demo_roots :: "pyval list" where
  "demo_roots = map PStr [''e2e4'', ''d2d4'', ''g1f3'']"

definition demo_owners :: "pyval list" where
  "demo_owners = map PStr [''a'', ''b'']"

definition demo_partition :: partition where
  "demo_partition = [(''a'', Seq [PStr ''e2e4'', PStr ''g1f3'']), (''b'', Seq [PStr ''d2d4''])]"

definition demo_ledger :: root_ledger where
  "demo_ledger = (case new_root_ledger demo_roots demo_owners (PInt 1) of Inr L \<Rightarrow> L
     | Inl e \<Rightarrow> \<lparr>rl_owners = [], rl_generation = 0, rl_candidate_roots = [], rl_revision = 0,
         rl_partition_assigned = False, rl_shards = [], rl_by_move = []\<rparr>)"

text \<open>
  C7. Search work is never dispatched twice: in every ledger that operations reach from a new
  one, in any order and refused or not, the active roots of two different
  owners are disjoint, and each dispatch set is a subsequence of the candidate universe.
\<close>

theorem root_dispatch_disjoint:
  assumes "new_root_ledger roots owners gen = Inr L0" "L = run root_step L0 xs"
    and "active_roots L v = Inr vs" "active_roots L w = Inr ws" "v \<noteq> w"
  shows "set vs \<inter> set ws = {} \<and> subseq vs (rl_candidate_roots L) \<and> subseq ws (rl_candidate_roots L)"
proof -
  have skel: "root_skeleton L"
    using root_reachable_inv [OF assms(1)] by (simp add: assms(2) root_inv_def)
  have vs: "vs = map (\<lambda>s. hd (rs_prefix s)) (owned_by v L)"
    and ws: "ws = map (\<lambda>s. hd (rs_prefix s)) (owned_by w L)"
    using assms(3,4) by (auto simp: active_roots_Inr)
  have sub: "subseq vs (rl_candidate_roots L)" "subseq ws (rl_candidate_roots L)"
    using region_subseq [OF skel] by (auto simp: vs ws)
  have "m \<notin> set ws" if m: "m \<in> set vs" for m
  proof
    assume "m \<in> set ws"
    obtain i where i: "i < length (rl_candidate_roots L)" "rl_candidate_roots L ! i = m"
      using m list_emb_set [OF sub(1)] by (auto simp: in_set_conv_nth)
    with m \<open>m \<in> set ws\<close> region_mem [OF skel i(1)] have
      "rs_owner (rl_shards L ! i) = Some v" "rs_owner (rl_shards L ! i) = Some w"
      by (auto simp: vs ws)
    with assms(5) show False by simp
  qed
  with sub show ?thesis by auto
qed

theorem root_dispatch_disjoint_witness:
  "let L = run root_step demo_ledger [AssignPartition demo_partition, ActivateOwner ''a'',
       ActivateOwner ''b''] in
   active_roots L ''a'' = Inr [''e2e4'', ''g1f3''] \<and> active_roots L ''b'' = Inr [''d2d4''] \<and>
   subseq [''e2e4'', ''g1f3''] (rl_candidate_roots L)"
proof -
  define L where "L = run root_step demo_ledger [AssignPartition demo_partition, ActivateOwner ''a'',
       ActivateOwner ''b'']"
  have new: "new_root_ledger demo_roots demo_owners (PInt 1) = Inr demo_ledger" by code_simp
  have a: "active_roots L ''a'' = Inr [''e2e4'', ''g1f3'']"
    and b: "active_roots L ''b'' = Inr [''d2d4'']"
    unfolding L_def by code_simp+
  from root_dispatch_disjoint [OF new L_def a b] a b show ?thesis
    unfolding L_def [symmetric] Let_def by simp
qed

text \<open>
  C8. No root is left out: once the partition is assigned in a reachable ledger,
  every candidate root lies in the region of exactly one authorised owner, and the dispatch
  set of an active owner is that region.
\<close>

theorem root_dispatch_covers:
  assumes "new_root_ledger roots owners gen = Inr L0" "L = run root_step L0 xs"
    and "rl_partition_assigned L" "m \<in> set (rl_candidate_roots L)"
  shows "\<exists>!w. w \<in> set (rl_owners L) \<and> m \<in> (\<lambda>s. hd (rs_prefix s)) ` set (owned_by w L) \<and>
     (\<forall>ms. active_roots L w = Inr ms \<longrightarrow> m \<in> set ms)"
proof -
  have inv: "root_skeleton L" "root_ownership L"
    using root_reachable_inv [OF assms(1)] by (auto simp: assms(2) root_inv_def)
  obtain i where i: "i < length (rl_candidate_roots L)" "rl_candidate_roots L ! i = m"
    using assms(4) by (auto simp: in_set_conv_nth)
  then have "rl_shards L ! i \<in> set (rl_shards L)" using inv(1) by (simp add: root_skeleton_def)
  then obtain w where w: "w \<in> set (rl_owners L)" "rs_owner (rl_shards L ! i) = Some w"
    using inv(2) assms(3) by (auto simp: root_ownership_def)
  show ?thesis
  proof (rule ex1I [of _ w])
    show "w \<in> set (rl_owners L) \<and> m \<in> (\<lambda>s. hd (rs_prefix s)) ` set (owned_by w L) \<and>
       (\<forall>ms. active_roots L w = Inr ms \<longrightarrow> m \<in> set ms)"
      using w region_mem [OF inv(1) i(1), of w] i(2) by (auto simp: active_roots_Inr)
    show "v = w" if "v \<in> set (rl_owners L) \<and> m \<in> (\<lambda>s. hd (rs_prefix s)) ` set (owned_by v L) \<and>
       (\<forall>ms. active_roots L v = Inr ms \<longrightarrow> m \<in> set ms)" for v
      using that w(2) region_mem [OF inv(1) i(1), of v] i(2) by simp
  qed
qed

theorem root_dispatch_covers_witness:
  "let L = run root_step demo_ledger [AssignPartition demo_partition, ActivateOwner ''b''] in
   \<exists>!w. w \<in> set (rl_owners L) \<and> ''d2d4'' \<in> (\<lambda>s. hd (rs_prefix s)) ` set (owned_by w L) \<and>
     (\<forall>ms. active_roots L w = Inr ms \<longrightarrow> ''d2d4'' \<in> set ms)"
proof -
  define L where "L = run root_step demo_ledger [AssignPartition demo_partition, ActivateOwner ''b'']"
  have new: "new_root_ledger demo_roots demo_owners (PInt 1) = Inr demo_ledger" by code_simp
  have "rl_partition_assigned L" "''d2d4'' \<in> set (rl_candidate_roots L)"
    unfolding L_def by code_simp+
  then show ?thesis
    using root_dispatch_covers [OF new L_def, of "''d2d4''"]
    unfolding L_def [symmetric] Let_def by simp
qed

text \<open>
  The life of a root shard: however the operations are called, a shard of a
  new ledger keeps its identity and its prefix, advances only along unassigned, leased,
  active, sealed, never changes an owner once it has one, and the revision counts
  exactly the operations that returned; the calls that raise leave no trace.
\<close>

theorem root_lifecycle:
  assumes "new_root_ledger roots owners gen = Inr L0"
  shows "list_all2 shard_advances (rl_shards (run root_step L0 xs)) (rl_shards (run root_step L0 (xs @ ys))) \<and>
     rl_revision (run root_step L0 xs) = count_returned root_step L0 xs \<and>
     (snd (root_step (run root_step L0 xs) x) = Inl e \<longrightarrow>
        run root_step L0 (xs @ [x]) = run root_step L0 xs)"
proof (intro conjI impI)
  have inv: "root_inv L0" "rl_revision L0 = 0" using new_root_ledger_inv [OF assms] by auto
  have inv': "root_inv (run root_step L0 xs)" by (rule root.run_inv [OF inv(1)])
  show "list_all2 shard_advances (rl_shards (run root_step L0 xs)) (rl_shards (run root_step L0 (xs @ ys)))"
    unfolding run_append by (rule root_run_advances [OF inv'])
  show "rl_revision (run root_step L0 xs) = count_returned root_step L0 xs"
    using root.run_revision [OF inv(1), of xs] inv(2) by simp
  show "run root_step L0 (xs @ [x]) = run root_step L0 xs"
    if "snd (root_step (run root_step L0 xs) x) = Inl e"
    using root.step_raise [OF inv' that] by (simp add: run_append)
qed

theorem root_lifecycle_witness:
  "rl_revision (run root_step demo_ledger [AssignPartition demo_partition, SealOwner ''a'',
     ActivateOwner ''a'', SealOwner ''a'']) = 3"
proof -
  have new: "new_root_ledger demo_roots demo_owners (PInt 1) = Inr demo_ledger" by code_simp
  have "count_returned root_step demo_ledger [AssignPartition demo_partition, SealOwner ''a'',
     ActivateOwner ''a'', SealOwner ''a''] = 3" by code_simp
  with root_lifecycle [OF new, of "[AssignPartition demo_partition, SealOwner ''a'',
     ActivateOwner ''a'', SealOwner ''a'']"] show ?thesis by simp
qed

end
