(* ===== verification/PrefixShards.thy ===== *)
theory PrefixShards
  imports RootShards
begin

text \<open>
  \<^verbatim>\<open>controller/prefix_shards.py\<close>: the recursive ownership ledger.  A shard is a
  move prefix; a sealed leaf may be split into leased children, leased leaves
  may be transferred.  Every mutation is followed by the ledger's own check of
  its invariants, which may raise after the state has changed.

  Shard objects live in \<open>_by_id\<close>; a reference to one is its key there, so
  \<open>_by_prefix\<close> maps a prefix to a key and \<open>is\<close> compares keys.
\<close>

section \<open>State\<close>

datatype prefix_state = PUnassigned | PLeased | PActive | PSealed | PRetired

fun prefix_state_value :: "prefix_state \<Rightarrow> string" where
  "prefix_state_value PUnassigned = ''unassigned''"
| "prefix_state_value PLeased = ''leased''"
| "prefix_state_value PActive = ''active''"
| "prefix_state_value PSealed = ''sealed''"
| "prefix_state_value PRetired = ''retired''"

record prefix_shard =
  ps_id :: string
  ps_generation :: nat
  ps_prefix :: "string list"
  ps_depth :: nat
  ps_root_ordinal :: nat
  ps_sibling_ordinal :: "nat option"
  ps_parent_id :: "string option"
  ps_child_ids :: "string list"
  ps_owner :: "string option"
  ps_state :: prefix_state

type_synonym shard_heap = "(string \<times> prefix_shard) list"

record prefix_ledger =
  pl_generation :: nat
  pl_owners :: "string list"
  pl_candidate_roots :: "string list"
  pl_partition_assigned :: bool
  pl_revision :: nat
  pl_by_id :: shard_heap
  pl_by_prefix :: "(string list \<times> string) list"
  pl_root_ids :: "string list"

definition is_strict_prefix :: "string list \<Rightarrow> string list \<Rightarrow> bool" where
  "is_strict_prefix left right \<longleftrightarrow> length left < length right \<and> take (length left) right = left"

definition shard_id_for :: "nat \<Rightarrow> string list \<Rightarrow> string" where
  "shard_id_for gen p = ''g'' @ pad0 6 gen @ '':d'' @ pad0 3 (length p) @ '':'' @ py_join ''.'' p"

definition require_owner :: "prefix_ledger \<Rightarrow> string \<Rightarrow> ledger_error + unit" where
  "require_owner L owner = ensure (owner \<in> set (pl_owners L)) (UnknownOwner owner)"

definition require_shard :: "prefix_ledger \<Rightarrow> string \<Rightarrow> ledger_error + prefix_shard" where
  "require_shard L k = (case dict_get (pl_by_id L) k of None \<Rightarrow> Inl (UnknownShard k) | Some s \<Rightarrow> Inr s)"

fun opt_nat :: "nat option \<Rightarrow> pyval" where
  "opt_nat None = PNone"
| "opt_nat (Some n) = PInt (int n)"

definition snapshot_shard :: "prefix_shard \<Rightarrow> pyval" where
  "snapshot_shard s = PDict
     [(''id'', PStr (ps_id s)),
      (''generation'', PInt (int (ps_generation s))),
      (''prefix'', PList (map PStr (ps_prefix s))),
      (''depth'', PInt (int (ps_depth s))),
      (''root_ordinal'', PInt (int (ps_root_ordinal s))),
      (''sibling_ordinal'', opt_nat (ps_sibling_ordinal s)),
      (''parent_id'', opt_str (ps_parent_id s)),
      (''child_ids'', PList (map PStr (ps_child_ids s))),
      (''owner'', opt_str (ps_owner s)),
      (''state'', PStr (prefix_state_value (ps_state s)))]"

text \<open>
  The recursive traversal.  Its fuel is one more than the number of shards; the
  invariant below makes it enough, so that the error \<open>RecursionLimit\<close> is never met.
\<close>

primrec visit :: "nat \<Rightarrow> shard_heap \<Rightarrow> string \<Rightarrow> ledger_error + string list" where
  "visit 0 d k = Inl RecursionLimit"
| "visit (Suc n) d k = (case dict_get d k of
      None \<Rightarrow> Inl (KeyMissing k)
    | Some s \<Rightarrow> rbind (rmap (visit n d) (ps_child_ids s)) (\<lambda>xs. Inr (k # concat xs)))"

definition ordered_ids :: "prefix_ledger \<Rightarrow> ledger_error + string list" where
  "ordered_ids L =
     rbind (rmap (visit (Suc (length (pl_by_id L))) (pl_by_id L)) (pl_root_ids L)) (\<lambda>xs. Inr (concat xs))"

definition lookup_shard :: "shard_heap \<Rightarrow> string \<Rightarrow> ledger_error + prefix_shard" where
  "lookup_shard d k = (case dict_get d k of None \<Rightarrow> Inl (KeyMissing k) | Some s \<Rightarrow> Inr s)"

definition frontier_shards :: "prefix_ledger \<Rightarrow> ledger_error + prefix_shard list" where
  "frontier_shards L = rbind (ordered_ids L) (\<lambda>ids. rbind (rmap (lookup_shard (pl_by_id L)) ids) (\<lambda>ss.
     Inr (filter (\<lambda>s. ps_child_ids s = [] \<and> ps_state s \<noteq> PRetired) ss)))"

section \<open>The ledger's own check\<close>

definition broken :: "bool \<Rightarrow> string \<Rightarrow> ledger_error + unit" where
  "broken b what = (if b then Inl (InvariantBroken what) else Inr ())"

definition check_root :: "prefix_ledger \<Rightarrow> nat \<times> string \<Rightarrow> ledger_error + unit" where
  "check_root L = (\<lambda>(ordinal, k). case dict_get (pl_by_id L) k of
      None \<Rightarrow> Inl (InvariantBroken ''missing root shard'')
    | Some s \<Rightarrow> broken (ps_prefix s \<noteq> [pl_candidate_roots L ! ordinal] \<or> ps_parent_id s \<noteq> None)
        ''root shard does not match immutable universe'')"

definition check_parent :: "prefix_ledger \<Rightarrow> prefix_shard \<Rightarrow> ledger_error + unit" where
  "check_parent L s = (case ps_parent_id s of
      None \<Rightarrow> broken (ps_depth s \<noteq> 1) ''non-root shard lacks parent''
    | Some p \<Rightarrow> (case dict_get (pl_by_id L) p of
        None \<Rightarrow> Inl (InvariantBroken ''missing parent'')
      | Some parent \<Rightarrow>
          rbind (broken (butlast (ps_prefix s) \<noteq> ps_prefix parent) ''child does not extend parent by one move'')
            (\<lambda>_. broken (ps_id s \<notin> set (ps_child_ids parent)) ''parent does not reference child'')))"

fun check_child_ids :: "shard_heap \<Rightarrow> string \<Rightarrow> string list \<Rightarrow> string list \<Rightarrow> ledger_error + unit" where
  "check_child_ids d k seen [] = Inr ()"
| "check_child_ids d k seen (c # cs) =
     (if c \<in> set seen then Inl (InvariantBroken ''duplicate child id'')
      else case dict_get d c of
        None \<Rightarrow> Inl (InvariantBroken ''child relationship does not round-trip'')
      | Some child \<Rightarrow>
          if ps_parent_id child \<noteq> Some k then Inl (InvariantBroken ''child relationship does not round-trip'')
          else check_child_ids d k (c # seen) cs)"

definition check_children :: "prefix_ledger \<Rightarrow> prefix_shard \<Rightarrow> ledger_error + unit" where
  "check_children L s =
     (if ps_child_ids s \<noteq> []
      then rbind (broken (ps_state s \<noteq> PRetired) ''shard with children must be RETIRED'')
        (\<lambda>_. check_child_ids (pl_by_id L) (ps_id s) [] (ps_child_ids s))
      else broken (ps_state s = PRetired) ''RETIRED shard must retain its children'')"

definition check_shard :: "prefix_ledger \<Rightarrow> string \<times> prefix_shard \<Rightarrow> ledger_error + unit" where
  "check_shard L = (\<lambda>(k, s). rcheck (\<lambda>c. c)
     [broken (ps_id s \<noteq> k) ''shard id index mismatch'',
      broken (ps_generation s \<noteq> pl_generation L) ''mixed generation'',
      broken (ps_depth s \<noteq> length (ps_prefix s) \<or> ps_depth s < 1) ''invalid depth'',
      rcheck (\<lambda>m. ensure (uci_move m) MoveNotCanonical) (ps_prefix s),
      broken (shard_id_for (pl_generation L) (ps_prefix s) \<noteq> ps_id s) ''non-deterministic shard id'',
      broken (dict_get (pl_by_prefix L) (ps_prefix s) \<noteq> Some k) ''prefix index does not round-trip'',
      broken (ps_owner s \<noteq> None \<and> the (ps_owner s) \<notin> set (pl_owners L)) ''unauthorized owner'',
      check_parent L s,
      check_children L s])"

text \<open>The walk along the parent pointers; one unit of fuel per step.\<close>

primrec walk_parents :: "nat \<Rightarrow> shard_heap \<Rightarrow> string list \<Rightarrow> prefix_shard \<Rightarrow> ledger_error + unit" where
  "walk_parents 0 d seen s = Inl RecursionLimit"
| "walk_parents (Suc n) d seen s = (case ps_parent_id s of
      None \<Rightarrow> Inr ()
    | Some p \<Rightarrow> if ps_id s \<in> set seen then Inl (InvariantBroken ''cycle detected'')
        else rbind (lookup_shard d p) (walk_parents n d (ps_id s # seen)))"

fun check_prefix_free :: "prefix_shard list \<Rightarrow> ledger_error + unit" where
  "check_prefix_free [] = Inr ()"
| "check_prefix_free (l # rs) =
     rbind (rcheck (\<lambda>r. broken (is_strict_prefix (ps_prefix l) (ps_prefix r) \<or>
         is_strict_prefix (ps_prefix r) (ps_prefix l)) ''frontier is not prefix-free'') rs)
       (\<lambda>_. check_prefix_free rs)"

definition check_assignment :: "prefix_ledger \<Rightarrow> ledger_error + unit" where
  "check_assignment L = rbind (rmap (lookup_shard (pl_by_id L)) (pl_root_ids L)) (\<lambda>roots.
     if pl_partition_assigned L
     then broken (\<exists>s \<in> set roots. ps_owner s = None) ''assigned root partition contains unowned root''
     else broken (\<exists>s \<in> set roots. ps_owner s \<noteq> None) ''unassigned root partition contains owned root'')"

definition validate_invariants :: "prefix_ledger \<Rightarrow> ledger_error + unit" where
  "validate_invariants L = rcheck (\<lambda>c. c)
     [broken (length (pl_root_ids L) \<noteq> length (pl_candidate_roots L)) ''root id cardinality mismatch'',
      broken (length (pl_by_id L) \<noteq> length (pl_by_prefix L)) ''id/prefix index cardinality mismatch'',
      rcheck (check_root L) (List.enumerate 0 (pl_root_ids L)),
      rcheck (check_shard L) (pl_by_id L),
      rcheck (\<lambda>(k, s). walk_parents (Suc (length (pl_by_id L))) (pl_by_id L) [] s) (pl_by_id L),
      rbind (frontier_shards L) check_prefix_free,
      check_assignment L]"

section \<open>Operations\<close>

definition new_prefix_shard :: "nat \<Rightarrow> nat \<times> string \<Rightarrow> prefix_shard" where
  "new_prefix_shard gen = (\<lambda>(ordinal, m). \<lparr>ps_id = shard_id_for gen [m], ps_generation = gen, ps_prefix = [m],
     ps_depth = 1, ps_root_ordinal = ordinal, ps_sibling_ordinal = None, ps_parent_id = None,
     ps_child_ids = [], ps_owner = None, ps_state = PUnassigned\<rparr>)"

definition store_shard :: "prefix_shard \<Rightarrow> prefix_ledger \<Rightarrow> prefix_ledger" where
  "store_shard s L = L\<lparr>pl_by_id := dict_set (ps_id s) s (pl_by_id L),
     pl_by_prefix := dict_set (ps_prefix s) (ps_id s) (pl_by_prefix L)\<rparr>"

definition add_root :: "nat \<Rightarrow> prefix_ledger \<Rightarrow> nat \<times> string \<Rightarrow> prefix_ledger" where
  "add_root gen L om = (let s = new_prefix_shard gen om; L' = store_shard s L in
     L'\<lparr>pl_root_ids := pl_root_ids L' @ [ps_id s]\<rparr>)"

definition new_prefix_ledger ::
    "pyval list \<Rightarrow> pyval list \<Rightarrow> pyval \<Rightarrow> ledger_error + prefix_ledger" where
  "new_prefix_ledger candidate_roots owners generation =
     rbind (validate_generation generation) (\<lambda>gen.
     rbind (validate_owners owners) (\<lambda>os.
     rbind (validate_roots [] candidate_roots) (\<lambda>roots.
       let L = foldl (add_root gen)
         \<lparr>pl_generation = gen, pl_owners = os, pl_candidate_roots = roots,
          pl_partition_assigned = False, pl_revision = 0, pl_by_id = [], pl_by_prefix = [],
          pl_root_ids = []\<rparr> (List.enumerate 0 roots)
       in rbind (validate_invariants L) (\<lambda>_. Inr L))))"

text \<open>Writing the fields of the shard object behind a key.\<close>

definition update_shard :: "string \<Rightarrow> (prefix_shard \<Rightarrow> prefix_shard) \<Rightarrow> shard_heap \<Rightarrow> shard_heap" where
  "update_shard k f d = map (\<lambda>(k', s). (k', if k' = k then f s else s)) d"

definition finish :: "prefix_ledger \<Rightarrow> 'r \<Rightarrow> prefix_ledger \<times> (ledger_error + 'r)" where
  "finish L r = (let L' = L\<lparr>pl_revision := Suc (pl_revision L)\<rparr> in
     raising L' (validate_invariants L') (\<lambda>_. (L', Inr r)))"

definition commit_prefix :: "(string list \<times> string) list \<Rightarrow> shard_heap \<Rightarrow> string \<times> string \<Rightarrow> shard_heap" where
  "commit_prefix by_prefix d mo = (case dict_get by_prefix [fst mo] of
      Some k \<Rightarrow> update_shard k (\<lambda>s. s\<lparr>ps_owner := Some (snd mo), ps_state := PLeased\<rparr>) d
    | None \<Rightarrow> d)"

definition assign_root_partition ::
    "prefix_ledger \<Rightarrow> partition \<Rightarrow> prefix_ledger \<times> (ledger_error + string list)" where
  "assign_root_partition L part =
     (if pl_partition_assigned L then (L, Inl AlreadyAssigned)
      else raising L (validate_partition (\<lambda>m. dict_get (pl_by_prefix L) [m] \<noteq> None)
                        (pl_owners L) (pl_candidate_roots L) part) (\<lambda>validated.
        finish (L\<lparr>pl_by_id := foldl (commit_prefix (pl_by_prefix L)) (pl_by_id L) (assignments validated),
                  pl_partition_assigned := True\<rparr>) []))"

text \<open>The guards shared by activation and sealing.\<close>

definition require_leaf ::
    "prefix_ledger \<Rightarrow> string \<Rightarrow> string \<Rightarrow> prefix_state \<Rightarrow> ledger_error + prefix_shard" where
  "require_leaf L k owner st =
     rbind (require_owner L owner) (\<lambda>_. rbind (require_shard L k) (\<lambda>s.
       if ps_child_ids s \<noteq> [] then Inl (NotFrontier k)
       else if ps_owner s \<noteq> Some owner then Inl (ForeignShard k)
       else if ps_state s \<noteq> st then Inl (WrongState [k])
       else Inr s))"

definition activate_shard ::
    "prefix_ledger \<Rightarrow> string \<Rightarrow> string \<Rightarrow> prefix_ledger \<times> (ledger_error + string list)" where
  "activate_shard L k owner = raising L (require_leaf L k owner PLeased) (\<lambda>s.
     finish (L\<lparr>pl_by_id := update_shard k (\<lambda>s. s\<lparr>ps_state := PActive\<rparr>) (pl_by_id L)\<rparr>) [])"

definition seal_shard ::
    "prefix_ledger \<Rightarrow> string \<Rightarrow> string \<Rightarrow> prefix_ledger \<times> (ledger_error + string list)" where
  "seal_shard L k owner = raising L (require_leaf L k owner PActive) (\<lambda>s.
     finish (L\<lparr>pl_by_id := update_shard k (\<lambda>s. s\<lparr>ps_state := PSealed\<rparr>) (pl_by_id L)\<rparr>) [])"

fun split_moves ::
    "(string list \<Rightarrow> bool) \<Rightarrow> string list \<Rightarrow> string list \<Rightarrow> pyval list \<Rightarrow> ledger_error + string list" where
  "split_moves known pp validated [] = Inr validated"
| "split_moves known pp validated (v # vs) =
     rbind (validate_move v) (\<lambda>m.
       if m \<in> set validated then Inl (SplitDuplicate m)
       else if known (pp @ [m]) then Inl (SplitRecreates (pp @ [m]))
       else split_moves known pp (validated @ [m]) vs)"

definition check_split_frontier :: "prefix_shard list \<Rightarrow> string list \<Rightarrow> ledger_error + unit" where
  "check_split_frontier others p = rcheck (\<lambda>other.
     if is_strict_prefix p (ps_prefix other) \<or> is_strict_prefix (ps_prefix other) p
     then Inl (SplitOverlap p) else Inr ()) others"

definition child_shard :: "nat \<Rightarrow> prefix_shard \<Rightarrow> string \<Rightarrow> nat \<times> string \<Rightarrow> prefix_shard" where
  "child_shard gen parent owner = (\<lambda>(i, m). let p = ps_prefix parent @ [m] in
     \<lparr>ps_id = shard_id_for gen p, ps_generation = gen, ps_prefix = p, ps_depth = length p,
      ps_root_ordinal = ps_root_ordinal parent, ps_sibling_ordinal = Some i,
      ps_parent_id = Some (ps_id parent), ps_child_ids = [], ps_owner = Some owner, ps_state = PLeased\<rparr>)"

definition require_split :: "prefix_ledger \<Rightarrow> string \<Rightarrow> pyval pyseq \<Rightarrow> string \<Rightarrow>
    ledger_error + (prefix_shard \<times> string list)" where
  "require_split L k child_moves owner =
     rbind (require_owner L owner) (\<lambda>_. rbind (require_shard L k) (\<lambda>parent.
       if ps_owner parent \<noteq> Some owner then Inl (ForeignShard k)
       else if ps_state parent \<noteq> PSealed then Inl (WrongState [k])
       else if ps_child_ids parent \<noteq> [] then Inl SplitTwice
       else (case child_moves of
           NonSeq \<Rightarrow> Inl ChildrenNotSequence
         | Seq vs \<Rightarrow>
             if vs = [] then Inl ChildrenEmpty
             else rbind (split_moves (\<lambda>p. dict_get (pl_by_prefix L) p \<noteq> None) (ps_prefix parent) [] vs) (\<lambda>moves.
             rbind (frontier_shards L) (\<lambda>fs.
             rbind (rcheck (check_split_frontier (filter (\<lambda>s. ps_id s \<noteq> ps_id parent) fs))
                 (map (\<lambda>m. ps_prefix parent @ [m]) moves))
               (\<lambda>_. Inr (parent, moves)))))))"

definition commit_split :: "prefix_ledger \<Rightarrow> string \<Rightarrow> prefix_shard list \<Rightarrow> prefix_ledger" where
  "commit_split L k children =
     foldl (\<lambda>L c. store_shard c L)
       (L\<lparr>pl_by_id := update_shard k (\<lambda>s. s\<lparr>ps_state := PRetired, ps_child_ids := map ps_id children\<rparr>)
            (pl_by_id L)\<rparr>) children"

definition split_shard :: "prefix_ledger \<Rightarrow> string \<Rightarrow> pyval pyseq \<Rightarrow> string \<Rightarrow>
    prefix_ledger \<times> (ledger_error + string list)" where
  "split_shard L k child_moves owner = raising L (require_split L k child_moves owner) (\<lambda>(parent, moves).
     let children = map (child_shard (pl_generation L) parent owner) (List.enumerate 0 moves) in
     finish (commit_split L k children) (map ps_id children))"

definition require_transferable ::
    "prefix_ledger \<Rightarrow> string \<Rightarrow> string \<Rightarrow> ledger_error + prefix_shard" where
  "require_transferable L from_owner k = rbind (require_shard L k) (\<lambda>s.
     if ps_child_ids s \<noteq> [] then Inl (NotFrontier k)
     else if ps_state s \<noteq> PLeased then Inl (WrongState [k])
     else if ps_owner s \<noteq> Some from_owner then Inl (ForeignShard k)
     else Inr s)"

definition require_transfer :: "prefix_ledger \<Rightarrow> string pyseq \<Rightarrow> string \<Rightarrow> string \<Rightarrow>
    ledger_error + string list" where
  "require_transfer L shard_ids from_owner to_owner =
     rbind (require_owner L from_owner) (\<lambda>_. rbind (require_owner L to_owner) (\<lambda>_.
       if from_owner = to_owner then Inl TransferSameOwner
       else (case shard_ids of
           NonSeq \<Rightarrow> Inl TransferNotSequence
         | Seq ks \<Rightarrow>
             if ks = [] then Inl TransferEmpty
             else if length (remdups ks) \<noteq> length ks then Inl TransferDuplicate
             else rbind (rmap (require_transferable L from_owner) ks) (\<lambda>_. Inr ks))))"

definition transfer_shards :: "prefix_ledger \<Rightarrow> string pyseq \<Rightarrow> string \<Rightarrow> string \<Rightarrow>
    prefix_ledger \<times> (ledger_error + string list)" where
  "transfer_shards L shard_ids from_owner to_owner =
     raising L (require_transfer L shard_ids from_owner to_owner) (\<lambda>ks.
       finish (L\<lparr>pl_by_id := foldl (\<lambda>d k. update_shard k (\<lambda>s. s\<lparr>ps_owner := Some to_owner\<rparr>) d)
                   (pl_by_id L) ks\<rparr>) [])"

section \<open>Queries\<close>

definition get_shard :: "prefix_ledger \<Rightarrow> string \<Rightarrow> ledger_error + pyval" where
  "get_shard L k = rbind (require_shard L k) (\<lambda>s. Inr (snapshot_shard s))"

definition shard_by_prefix :: "prefix_ledger \<Rightarrow> pyval pyseq \<Rightarrow> ledger_error + prefix_shard" where
  "shard_by_prefix L p = (case p of
      NonSeq \<Rightarrow> Inl PrefixShape
    | Seq vs \<Rightarrow> rbind (rmap validate_move vs) (\<lambda>ms.
        if ms = [] then Inl PrefixShape
        else (case dict_get (pl_by_prefix L) ms of
            None \<Rightarrow> Inl PrefixUnknown
          | Some k \<Rightarrow> lookup_shard (pl_by_id L) k)))"

definition get_by_prefix :: "prefix_ledger \<Rightarrow> pyval pyseq \<Rightarrow> ledger_error + pyval" where
  "get_by_prefix L p = rbind (shard_by_prefix L p) (\<lambda>s. Inr (snapshot_shard s))"

definition sealed_frontier_leaf :: "prefix_ledger \<Rightarrow> pyval pyseq \<Rightarrow> ledger_error + pyval option" where
  "sealed_frontier_leaf L p = (case shard_by_prefix L p of
      Inl e \<Rightarrow> Inr None
    | Inr s \<Rightarrow>
        if ps_state s \<noteq> PSealed then Inr None
        else if ps_child_ids s \<noteq> [] then Inr None
        else rbind (frontier_shards L) (\<lambda>fs.
          if ps_id s \<notin> set (map ps_id fs) then Inr None else Inr (Some (snapshot_shard s))))"

definition shard_parent :: "prefix_ledger \<Rightarrow> string \<Rightarrow> ledger_error + pyval option" where
  "shard_parent L k = rbind (require_shard L k) (\<lambda>s. case ps_parent_id s of
      None \<Rightarrow> Inr None
    | Some p \<Rightarrow> rbind (lookup_shard (pl_by_id L) p) (\<lambda>t. Inr (Some (snapshot_shard t))))"

definition shard_children :: "prefix_ledger \<Rightarrow> string \<Rightarrow> ledger_error + pyval list" where
  "shard_children L k = rbind (require_shard L k) (\<lambda>s.
     rbind (rmap (lookup_shard (pl_by_id L)) (ps_child_ids s)) (\<lambda>ss. Inr (map snapshot_shard ss)))"

definition frontier :: "prefix_ledger \<Rightarrow> ledger_error + pyval list" where
  "frontier L = rbind (frontier_shards L) (\<lambda>ss. Inr (map snapshot_shard ss))"

definition frontier_for_owner :: "prefix_ledger \<Rightarrow> string \<Rightarrow> ledger_error + prefix_shard list" where
  "frontier_for_owner L owner = rbind (require_owner L owner) (\<lambda>_.
     rbind (frontier_shards L) (\<lambda>ss. Inr (filter (\<lambda>s. ps_owner s = Some owner) ss)))"

definition prefix_snapshot :: "prefix_ledger \<Rightarrow> ledger_error + pyval" where
  "prefix_snapshot L =
     rbind (validate_invariants L) (\<lambda>_. rbind (frontier_shards L) (\<lambda>fs. rbind (ordered_ids L) (\<lambda>ids.
     rbind (rmap (lookup_shard (pl_by_id L)) ids) (\<lambda>ss. Inr (PDict
       [(''schema_version'', PInt 2),
        (''generation'', PInt (int (pl_generation L))),
        (''revision'', PInt (int (pl_revision L))),
        (''partition_assigned'', PBool (pl_partition_assigned L)),
        (''owners'', PList (map PStr (pl_owners L))),
        (''candidate_roots'', PList (map PStr (pl_candidate_roots L))),
        (''frontier_ids'', PList (map (\<lambda>s. PStr (ps_id s)) fs)),
        (''shards'', PList (map snapshot_shard ss))])))))"

datatype prefix_op =
    PAssign partition
  | PActivate string string
  | PSeal string string
  | PSplit string "pyval pyseq" string
  | PTransfer "string pyseq" string string

fun prefix_step :: "prefix_ledger \<Rightarrow> prefix_op \<Rightarrow> prefix_ledger \<times> (ledger_error + string list)" where
  "prefix_step L (PAssign part) = assign_root_partition L part"
| "prefix_step L (PActivate k owner) = activate_shard L k owner"
| "prefix_step L (PSeal k owner) = seal_shard L k owner"
| "prefix_step L (PSplit k moves owner) = split_shard L k moves owner"
| "prefix_step L (PTransfer ks v w) = transfer_shards L ks v w"

section \<open>Shard identities are injective\<close>

lemma not_move_char_dot:
  "file_char c \<or> rank_char c \<or> promo_char c \<Longrightarrow> c \<noteq> CHR ''.''"
  by (rule notI) (simp add: file_char_def rank_char_def promo_char_def)

lemma uci_move_no_dot: "uci_move m \<Longrightarrow> c \<in> set m \<Longrightarrow> c \<noteq> CHR ''.''"
  using uci_move_chars [of m] not_move_char_dot by blast

lemma join_dot_split:
  assumes "CHR ''.'' \<notin> set a"
  shows "takeWhile (\<lambda>c. c \<noteq> CHR ''.'') (py_join ''.'' (a # as)) = a"
proof (cases as)
  case (Cons b bs)
  show ?thesis
    using assms by (subst py_join.simps(3) [of _ a b bs, folded Cons]) (auto simp: takeWhile_append)
qed (use assms in \<open>auto simp: takeWhile_eq_all_conv\<close>)

lemma join_dot_inj:
  "\<forall>m \<in> set ps \<union> set qs. m \<noteq> [] \<and> CHR ''.'' \<notin> set m \<Longrightarrow> py_join ''.'' ps = py_join ''.'' qs \<Longrightarrow> ps = qs"
proof (induction ps arbitrary: qs)
  case Nil
  then show ?case by (cases qs; cases "tl qs") auto
next
  case (Cons p ps)
  then obtain q qs' where qs: "qs = q # qs'"
    by (cases qs; cases ps) auto
  have "CHR ''.'' \<notin> set p" "CHR ''.'' \<notin> set q" using Cons.prems(1) by (auto simp: qs)
  then have pq: "p = q"
    using arg_cong [OF Cons.prems(2), of "takeWhile (\<lambda>c. c \<noteq> CHR ''.'')"] by (simp add: join_dot_split qs)
  have "py_join ''.'' ps = py_join ''.'' qs' \<and> (ps = [] \<longleftrightarrow> qs' = [])"
    using Cons.prems(2) pq by (cases ps; cases qs') (auto simp: qs)
  with Cons.IH [of qs'] Cons.prems(1) pq show ?case by (simp add: qs)
qed

lemma dropWhile_digits: "dropWhile is_digit (pad0 w n @ CHR '':'' # xs) = CHR '':'' # xs"
proof -
  have "dropWhile is_digit (pad0 w n) = []" by (auto dest: pad0_digits)
  moreover have "\<not> is_digit CHR '':''" by (simp add: is_digit_def)
  ultimately show ?thesis by (simp add: dropWhile_append)
qed

lemma shard_id_for_inj:
  assumes "\<forall>m \<in> set p. uci_move m" "\<forall>m \<in> set q. uci_move m"
  shows "shard_id_for gen p = shard_id_for gen q \<longleftrightarrow> p = q"
proof
  assume "shard_id_for gen p = shard_id_for gen q"
  then have "pad0 3 (length p) @ CHR '':'' # py_join ''.'' p = pad0 3 (length q) @ CHR '':'' # py_join ''.'' q"
    by (simp add: shard_id_for_def)
  from arg_cong [OF this, of "dropWhile is_digit"] have "py_join ''.'' p = py_join ''.'' q"
    by (simp add: dropWhile_digits)
  moreover have "\<forall>m \<in> set p \<union> set q. m \<noteq> [] \<and> CHR ''.'' \<notin> set m"
    using assms uci_move_nonempty uci_move_no_dot by blast
  ultimately show "p = q" by (intro join_dot_inj)
qed simp

section \<open>The invariant\<close>

text \<open>
  The tree of prefixes without owners and states.  It is stated on the skeleton
  of the heap, so that operations that only write owners and states keep it.
\<close>

definition skel :: "prefix_shard \<Rightarrow> prefix_shard" where
  "skel s = s\<lparr>ps_owner := None, ps_state := PUnassigned\<rparr>"

definition skeleton :: "shard_heap \<Rightarrow> shard_heap" where
  "skeleton = map (\<lambda>(k, s). (k, skel s))"

definition node_ok :: "nat \<Rightarrow> string list \<Rightarrow> shard_heap \<Rightarrow> string \<times> prefix_shard \<Rightarrow> bool" where
  "node_ok gen roots d = (\<lambda>(k, s).
     k = shard_id_for gen (ps_prefix s) \<and> ps_id s = k \<and> ps_generation s = gen \<and>
     ps_depth s = length (ps_prefix s) \<and> ps_prefix s \<noteq> [] \<and> (\<forall>m \<in> set (ps_prefix s). uci_move m) \<and>
     (if length (ps_prefix s) = 1 then ps_parent_id s = None \<and> hd (ps_prefix s) \<in> set roots
      else ps_parent_id s = Some (shard_id_for gen (butlast (ps_prefix s))) \<and>
        (\<exists>t. (shard_id_for gen (butlast (ps_prefix s)), t) \<in> set d \<and>
           ps_prefix t = butlast (ps_prefix s) \<and> k \<in> set (ps_child_ids t))) \<and>
     (\<exists>ms. ps_child_ids s = map (\<lambda>m. shard_id_for gen (ps_prefix s @ [m])) ms \<and> distinct ms \<and>
        (\<forall>m \<in> set ms. uci_move m \<and>
           (\<exists>t. (shard_id_for gen (ps_prefix s @ [m]), t) \<in> set d \<and> ps_prefix t = ps_prefix s @ [m]))))"

definition tree_ok :: "nat \<Rightarrow> string list \<Rightarrow> string list \<Rightarrow> (string list \<times> string) list \<Rightarrow> shard_heap \<Rightarrow> bool" where
  "tree_ok gen roots root_ids by_prefix d \<longleftrightarrow>
     dict_ok d \<and> distinct roots \<and> (\<forall>m \<in> set roots. uci_move m) \<and>
     root_ids = map (\<lambda>m. shard_id_for gen [m]) roots \<and>
     by_prefix = map (\<lambda>(k, s). (ps_prefix s, k)) d \<and>
     (\<forall>m \<in> set roots. \<exists>s. (shard_id_for gen [m], s) \<in> set d \<and> ps_prefix s = [m]) \<and>
     (\<forall>ks \<in> set d. node_ok gen roots d ks)"

definition colour_ok :: "prefix_ledger \<Rightarrow> prefix_shard \<Rightarrow> bool" where
  "colour_ok L s \<longleftrightarrow>
     (if pl_partition_assigned L then \<exists>w \<in> set (pl_owners L). ps_owner s = Some w
      else ps_owner s = None \<and> ps_state s = PUnassigned) \<and>
     (ps_state s = PRetired \<longleftrightarrow> ps_child_ids s \<noteq> [])"

definition prefix_inv :: "prefix_ledger \<Rightarrow> bool" where
  "prefix_inv L \<longleftrightarrow>
     tree_ok (pl_generation L) (pl_candidate_roots L) (pl_root_ids L) (pl_by_prefix L) (skeleton (pl_by_id L)) \<and>
     distinct (pl_owners L) \<and> (\<forall>(k, s) \<in> set (pl_by_id L). colour_ok L s)"

lemma skel_simps [simp]:
  "ps_id (skel s) = ps_id s" "ps_generation (skel s) = ps_generation s"
  "ps_prefix (skel s) = ps_prefix s" "ps_depth (skel s) = ps_depth s"
  "ps_parent_id (skel s) = ps_parent_id s" "ps_child_ids (skel s) = ps_child_ids s"
  "ps_root_ordinal (skel s) = ps_root_ordinal s" "ps_sibling_ordinal (skel s) = ps_sibling_ordinal s"
  by (simp_all add: skel_def)

lemma skeleton_keys [simp]: "map fst (skeleton d) = map fst d"
  by (simp add: skeleton_def case_prod_unfold comp_def)

lemma length_skeleton [simp]: "length (skeleton d) = length d"
  by (simp add: skeleton_def)

lemma skeleton_ex [simp]:
  "(\<exists>t. (k, t) \<in> set (skeleton d) \<and> P t) \<longleftrightarrow> (\<exists>t. (k, t) \<in> set d \<and> P (skel t))"
  by (force simp: skeleton_def)

lemma by_prefix_skeleton [simp]:
  "map (\<lambda>(k, s). (ps_prefix s, k)) (skeleton d) = map (\<lambda>(k, s). (ps_prefix s, k)) d"
  by (simp add: skeleton_def case_prod_unfold comp_def)

lemma node_ok_skeleton [simp]: "node_ok gen roots (skeleton d) (k, skel s) = node_ok gen roots d (k, s)"
  by (simp add: node_ok_def)

lemma tree_ok_skeleton [simp]:
  "tree_ok gen roots root_ids by_prefix (skeleton d) = tree_ok gen roots root_ids by_prefix d"
proof -
  have "(\<forall>ks \<in> set (skeleton d). node_ok gen roots (skeleton d) ks) \<longleftrightarrow> (\<forall>ks \<in> set d. node_ok gen roots d ks)"
  proof -
    have "set (skeleton d) = (\<lambda>ks. (fst ks, skel (snd ks))) ` set d"
      by (simp add: skeleton_def case_prod_unfold)
    then show ?thesis by simp
  qed
  then show ?thesis by (simp add: tree_ok_def)
qed

section \<open>Consequences of the tree shape\<close>

lemma tree_node: "tree_ok g roots rids bp d \<Longrightarrow> (k, s) \<in> set d \<Longrightarrow> node_ok g roots d (k, s)"
  by (auto simp: tree_ok_def)

lemma tree_get: "tree_ok g roots rids bp d \<Longrightarrow> dict_get d k = Some s \<longleftrightarrow> (k, s) \<in> set d"
  by (simp add: tree_ok_def dict_get_mem)

lemma tree_key:
  assumes "tree_ok g roots rids bp d" "(k, s) \<in> set d"
  shows "k = shard_id_for g (ps_prefix s)" "ps_id s = k" "ps_prefix s \<noteq> []"
    "\<forall>m \<in> set (ps_prefix s). uci_move m"
  using tree_node [OF assms] by (auto simp: node_ok_def)

lemma tree_key_unique:
  assumes T: "tree_ok g roots rids bp d" and "(k, s) \<in> set d" "(k, t) \<in> set d"
  shows "s = t"
  using assms tree_get [OF T] by (metis option.inject)

lemma tree_prefix_unique:
  assumes T: "tree_ok g roots rids bp d" and "(k, s) \<in> set d" "(k', t) \<in> set d" "ps_prefix s = ps_prefix t"
  shows "k = k' \<and> s = t"
  using assms(2-4) tree_key(1) [OF T] tree_key_unique [OF T] by metis

lemma tree_by_prefix:
  assumes T: "tree_ok g roots rids bp d"
  shows "dict_get bp p = Some k \<longleftrightarrow> (\<exists>s. (k, s) \<in> set d \<and> ps_prefix s = p)"
proof -
  have bp: "bp = map (\<lambda>(k, s). (ps_prefix s, k)) d" and ok: "dict_ok d"
    using T by (auto simp: tree_ok_def)
  have "distinct d" using ok by (simp add: distinct_map)
  moreover have "inj_on (\<lambda>ks. ps_prefix (snd ks)) (set d)"
    using tree_prefix_unique [OF T] by (fastforce simp: inj_on_def)
  ultimately have "dict_ok bp" by (simp add: bp distinct_map comp_def case_prod_unfold)
  then show ?thesis by (force simp: dict_get_mem bp)
qed

lemma tree_parent:
  assumes T: "tree_ok g roots rids bp d" and "(k, s) \<in> set d" "length (ps_prefix s) \<noteq> 1"
  shows "ps_parent_id s = Some (shard_id_for g (butlast (ps_prefix s)))"
    "\<exists>t. (shard_id_for g (butlast (ps_prefix s)), t) \<in> set d \<and>
       ps_prefix t = butlast (ps_prefix s) \<and> k \<in> set (ps_child_ids t)"
  using tree_node [OF T assms(2)] assms(3) by (auto simp: node_ok_def)

text \<open>Every non-empty prefix of a shard's prefix is a shard; the proper ones have children.\<close>

lemma tree_ancestors:
  assumes T: "tree_ok g roots rids bp d"
  shows "(k, s) \<in> set d \<Longrightarrow> prefix q (ps_prefix s) \<Longrightarrow> q \<noteq> [] \<Longrightarrow>
    \<exists>t. (shard_id_for g q, t) \<in> set d \<and> ps_prefix t = q \<and> (q \<noteq> ps_prefix s \<longrightarrow> ps_child_ids t \<noteq> [])"
proof (induction "length (ps_prefix s)" arbitrary: k s)
  case 0
  then show ?case by simp
next
  case (Suc n)
  show ?case
  proof (cases "q = ps_prefix s")
    case True
    with Suc.prems tree_key(1) [OF T Suc.prems(1)] show ?thesis by blast
  next
    case False
    then have q: "prefix q (butlast (ps_prefix s))"
      using Suc.prems(2) by (metis append_butlast_last_id prefix_bot.extremum_unique prefix_snoc)
    have long: "length (ps_prefix s) \<noteq> 1"
    proof
      assume "length (ps_prefix s) = 1"
      then have "butlast (ps_prefix s) = []" by (simp add: butlast_conv_take)
      with q Suc.prems(3) show False by simp
    qed
    obtain t where t: "(shard_id_for g (butlast (ps_prefix s)), t) \<in> set d"
       "ps_prefix t = butlast (ps_prefix s)" "k \<in> set (ps_child_ids t)"
      using tree_parent(2) [OF T Suc.prems(1) long] by blast
    then have "n = length (ps_prefix t)" "prefix q (ps_prefix t)" using Suc.hyps(2) q by auto
    from Suc.hyps(1) [OF this(1) t(1) this(2) Suc.prems(3)] obtain u where
      u: "(shard_id_for g q, u) \<in> set d" "ps_prefix u = q" "q \<noteq> ps_prefix t \<longrightarrow> ps_child_ids u \<noteq> []"
      by blast
    have "ps_child_ids u \<noteq> []"
    proof (cases "q = ps_prefix t")
      case True
      then have "u = t" using tree_prefix_unique [OF T u(1) t(1)] u(2) by simp
      with t(3) show ?thesis by auto
    qed (use u(3) in blast)
    with u show ?thesis by blast
  qed
qed

lemma tree_leaves_prefix_free:
  assumes T: "tree_ok g roots rids bp d" and "(k, s) \<in> set d" "(k', t) \<in> set d" "ps_child_ids s = []"
  shows "\<not> strict_prefix (ps_prefix s) (ps_prefix t)"
proof
  assume "strict_prefix (ps_prefix s) (ps_prefix t)"
  then obtain u where "(shard_id_for g (ps_prefix s), u) \<in> set d" "ps_prefix u = ps_prefix s" "ps_child_ids u \<noteq> []"
    using tree_ancestors [OF T assms(3), of "ps_prefix s"] tree_key(3) [OF T assms(2)]
    by (auto simp: strict_prefix_def)
  then have "u = s" using tree_prefix_unique [OF T _ assms(2)] by blast
  with \<open>ps_child_ids u \<noteq> []\<close> assms(4) show False by simp
qed

lemma is_strict_prefix_eq [simp]: "is_strict_prefix p q \<longleftrightarrow> strict_prefix p q"
proof
  assume "is_strict_prefix p q"
  then have "q = p @ drop (length p) q" "p \<noteq> q"
    by (auto simp: is_strict_prefix_def) (metis append_take_drop_id)
  then show "strict_prefix p q" by (metis prefixI strict_prefix_def)
next
  assume pq: "strict_prefix p q"
  then obtain r where "q = p @ r" by (auto simp: strict_prefix_def prefix_def)
  with prefix_length_less [OF pq] show "is_strict_prefix p q" by (simp add: is_strict_prefix_def)
qed

lemma tree_depth:
  assumes T: "tree_ok g roots rids bp d" and s: "(k, s) \<in> set d"
  shows "length (ps_prefix s) \<le> length d"
proof -
  let ?p = "ps_prefix s"
  let ?f = "\<lambda>i. shard_id_for g (take (Suc i) ?p)"
  have "inj_on ?f {..<length ?p}"
  proof (rule inj_onI)
    fix i j assume ij: "i \<in> {..<length ?p}" "j \<in> {..<length ?p}" "?f i = ?f j"
    have "\<forall>m \<in> set (take n ?p). uci_move m" for n
      using tree_key(4) [OF T s] by (meson in_set_takeD)
    then have "take (Suc i) ?p = take (Suc j) ?p" using ij(3) by (simp add: shard_id_for_inj)
    then have "length (take (Suc i) ?p) = length (take (Suc j) ?p)" by simp
    with ij(1,2) show "i = j" by simp
  qed
  moreover have "?f ` {..<length ?p} \<subseteq> set (dict_keys d)"
  proof
    fix x assume "x \<in> ?f ` {..<length ?p}"
    then obtain i where i: "i < length ?p" "x = ?f i" by auto
    then have "prefix (take (Suc i) ?p) ?p" "take (Suc i) ?p \<noteq> []" by (auto simp: take_is_prefix)
    from tree_ancestors [OF T s this] i(2) show "x \<in> set (dict_keys d)" by force
  qed
  ultimately have "card {..<length ?p} \<le> card (set (dict_keys d))"
    by (metis List.finite_set card_image card_mono)
  also have "\<dots> \<le> length d" by (metis card_length length_map)
  finally show ?thesis by simp
qed

section \<open>The traversal enumerates the shards\<close>

definition below :: "shard_heap \<Rightarrow> string list \<Rightarrow> string set" where
  "below d p = {k. \<exists>s. (k, s) \<in> set d \<and> prefix p (ps_prefix s)}"

lemma rmap_disjoint:
  assumes "\<forall>x \<in> set xs. \<exists>ys. f x = Inr ys \<and> distinct ys \<and> set ys = D x"
    and "distinct xs" "\<forall>x \<in> set xs. \<forall>y \<in> set xs. x \<noteq> y \<longrightarrow> D x \<inter> D y = {}"
  shows "\<exists>yss. rmap f xs = Inr yss \<and> distinct (concat yss) \<and> set (concat yss) = (\<Union>x \<in> set xs. D x)"
  using assms
proof (induction xs)
  case Nil
  then show ?case by simp
next
  case (Cons x xs)
  then obtain yss where yss: "rmap f xs = Inr yss" "distinct (concat yss)"
      "set (concat yss) = (\<Union>x \<in> set xs. D x)" by auto
  moreover obtain ys where "f x = Inr ys" "distinct ys" "set ys = D x" using Cons.prems(1) by auto
  moreover have "D x \<inter> (\<Union>x \<in> set xs. D x) = {}" using Cons.prems(2,3) by auto
  ultimately show ?case by auto
qed

lemma below_disjoint:
  assumes T: "tree_ok g roots rids bp d" and "length p = length q" "p \<noteq> q"
  shows "below d p \<inter> below d q = {}"
proof -
  have False if k: "(k, s) \<in> set d" "(k, t) \<in> set d" "prefix p (ps_prefix s)" "prefix q (ps_prefix t)" for k s t
  proof -
    have "s = t" by (rule tree_key_unique [OF T k(1,2)])
    with k(3,4) assms(2) have "p = q" by (auto simp: prefix_def)
    with assms(3) show False ..
  qed
  then show ?thesis by (fastforce simp: below_def)
qed

lemma tree_children:
  assumes T: "tree_ok g roots rids bp d" and s: "(k, s) \<in> set d"
  obtains ms where "ps_child_ids s = map (\<lambda>m. shard_id_for g (ps_prefix s @ [m])) ms" "distinct ms"
    "\<forall>m \<in> set ms. uci_move m \<and>
       (\<exists>t. (shard_id_for g (ps_prefix s @ [m]), t) \<in> set d \<and> ps_prefix t = ps_prefix s @ [m])"
    "distinct (ps_child_ids s)"
proof -
  obtain ms where ms: "ps_child_ids s = map (\<lambda>m. shard_id_for g (ps_prefix s @ [m])) ms" "distinct ms"
    "\<forall>m \<in> set ms. uci_move m \<and>
       (\<exists>t. (shard_id_for g (ps_prefix s @ [m]), t) \<in> set d \<and> ps_prefix t = ps_prefix s @ [m])"
    using tree_node [OF T s] unfolding node_ok_def by blast
  have "inj_on (\<lambda>m. shard_id_for g (ps_prefix s @ [m])) (set ms)"
    using ms(3) tree_key(4) [OF T s] by (intro inj_onI) (simp add: shard_id_for_inj)
  with ms(1,2) have "distinct (ps_child_ids s)" by (simp add: distinct_map)
  with ms that show thesis by blast
qed

lemma below_children:
  assumes T: "tree_ok g roots rids bp d" and s: "(k, s) \<in> set d"
    and ms: "ps_child_ids s = map (\<lambda>m. shard_id_for g (ps_prefix s @ [m])) ms"
      "\<forall>m \<in> set ms. uci_move m \<and>
         (\<exists>t. (shard_id_for g (ps_prefix s @ [m]), t) \<in> set d \<and> ps_prefix t = ps_prefix s @ [m])"
  shows "below d (ps_prefix s) = insert k (\<Union>m \<in> set ms. below d (ps_prefix s @ [m]))"
proof -
  have "x = k \<or> (\<exists>m \<in> set ms. prefix (ps_prefix s @ [m]) (ps_prefix t))"
    if t: "(x, t) \<in> set d" "prefix (ps_prefix s) (ps_prefix t)" for x t
  proof -
    obtain r where r: "ps_prefix t = ps_prefix s @ r" using t(2) by (auto simp: prefix_def)
    show ?thesis
    proof (cases r)
      case Nil
      with r tree_prefix_unique [OF T t(1) s] show ?thesis by simp
    next
      case (Cons m r')
      let ?q = "ps_prefix s @ [m]"
      have "prefix ?q (ps_prefix t)" "?q \<noteq> []" by (auto simp: r Cons)
      then obtain u where u: "(shard_id_for g ?q, u) \<in> set d" "ps_prefix u = ?q"
        using tree_ancestors [OF T t(1)] by blast
      have "length (ps_prefix u) \<noteq> 1" using u(2) tree_key(3) [OF T s] by simp
      from tree_parent(2) [OF T u(1) this] obtain v where
        v: "(shard_id_for g (ps_prefix s), v) \<in> set d" "ps_prefix v = ps_prefix s"
           "shard_id_for g ?q \<in> set (ps_child_ids v)" by (auto simp: u(2))
      have "v = s" using tree_prefix_unique [OF T v(1) s] v(2) by simp
      then obtain m' where m': "m' \<in> set ms" "shard_id_for g ?q = shard_id_for g (ps_prefix s @ [m'])"
        using v(3) ms(1) by auto
      obtain t' where t': "(shard_id_for g (ps_prefix s @ [m']), t') \<in> set d" "ps_prefix t' = ps_prefix s @ [m']"
        using ms(2) m'(1) by blast
      then have "u = t'" using tree_key_unique [OF T u(1)] m'(2) by simp
      then have "m = m'" using u(2) t'(2) by simp
      with m'(1) \<open>prefix ?q (ps_prefix t)\<close> show ?thesis by blast
    qed
  qed
  moreover have "prefix (ps_prefix s) q" if "prefix (ps_prefix s @ [m]) q" for m q
    using that append_prefixD by blast
  ultimately show ?thesis using s by (force simp: below_def)
qed

lemma visit_below:
  assumes T: "tree_ok g roots rids bp d"
  shows "(k, s) \<in> set d \<Longrightarrow> length d < n + length (ps_prefix s) \<Longrightarrow>
    \<exists>ks. visit n d k = Inr ks \<and> distinct ks \<and> set ks = below d (ps_prefix s)"
proof (induction n arbitrary: k s)
  case 0
  with tree_depth [OF T, of k s] show ?case by simp
next
  case (Suc n)
  let ?p = "ps_prefix s" and ?id = "\<lambda>m. shard_id_for g (ps_prefix s @ [m])"
  obtain ms where ms: "ps_child_ids s = map ?id ms" "distinct ms"
      "\<forall>m \<in> set ms. uci_move m \<and> (\<exists>t. (?id m, t) \<in> set d \<and> ps_prefix t = ?p @ [m])"
    using tree_children [OF T Suc.prems(1)] by metis
  have "\<exists>ks. (\<lambda>m. visit n d (?id m)) m = Inr ks \<and> distinct ks \<and> set ks = below d (?p @ [m])"
    if "m \<in> set ms" for m
  proof -
    obtain t where t: "(?id m, t) \<in> set d" "ps_prefix t = ?p @ [m]" using ms(3) \<open>m \<in> set ms\<close> by blast
    with Suc.IH [OF t(1)] Suc.prems(2) show ?thesis by simp
  qed
  moreover have "\<forall>m \<in> set ms. \<forall>m' \<in> set ms. m \<noteq> m' \<longrightarrow> below d (?p @ [m]) \<inter> below d (?p @ [m']) = {}"
    using below_disjoint [OF T] by simp
  ultimately obtain yss where yss: "rmap (\<lambda>m. visit n d (?id m)) ms = Inr yss" "distinct (concat yss)"
     "set (concat yss) = (\<Union>m \<in> set ms. below d (?p @ [m]))"
    using rmap_disjoint [of ms "\<lambda>m. visit n d (?id m)" "\<lambda>m. below d (?p @ [m])"] ms(2) by blast
  have "rmap (visit n d) (map ?id ms) = Inr yss" using yss(1) by (simp add: rmap_eq_Inr list.rel_map)
  then have "visit (Suc n) d k = Inr (k # concat yss)"
    using Suc.prems(1) by (simp add: tree_get [OF T, symmetric] ms(1))
  moreover have "k \<notin> set (concat yss)"
  proof
    assume "k \<in> set (concat yss)"
    then obtain m t where "(k, t) \<in> set d" "prefix (?p @ [m]) (ps_prefix t)"
      unfolding yss(3) by (auto simp: below_def)
    with tree_key_unique [OF T Suc.prems(1)] show False by (auto simp: prefix_def)
  qed
  moreover have "set (k # concat yss) = below d ?p"
    using below_children [OF T Suc.prems(1) ms(1,3)] yss(3) by simp
  moreover have "distinct (k # concat yss)" using yss(2) \<open>k \<notin> set (concat yss)\<close> by simp
  ultimately show ?case by blast
qed

lemma ordered_ids_total:
  assumes T: "tree_ok (pl_generation L) (pl_candidate_roots L) (pl_root_ids L) (pl_by_prefix L) (pl_by_id L)"
  shows "\<exists>ks. ordered_ids L = Inr ks \<and> distinct ks \<and> set ks = set (dict_keys (pl_by_id L))"
proof -
  let ?d = "pl_by_id L" and ?roots = "pl_candidate_roots L" and ?g = "pl_generation L"
  let ?v = "\<lambda>m. visit (Suc (length ?d)) ?d (shard_id_for ?g [m])"
  have rids: "pl_root_ids L = map (\<lambda>m. shard_id_for ?g [m]) ?roots" "distinct ?roots"
    and root: "\<forall>m \<in> set ?roots. \<exists>s. (shard_id_for ?g [m], s) \<in> set ?d \<and> ps_prefix s = [m]"
    using T by (auto simp: tree_ok_def)
  have "\<forall>m \<in> set ?roots. \<exists>ks. ?v m = Inr ks \<and> distinct ks \<and> set ks = below ?d [m]"
  proof
    fix m assume "m \<in> set ?roots"
    with root obtain s where "(shard_id_for ?g [m], s) \<in> set ?d" "ps_prefix s = [m]" by blast
    then show "\<exists>ks. ?v m = Inr ks \<and> distinct ks \<and> set ks = below ?d [m]"
      using visit_below [OF T, of _ s "Suc (length ?d)"] by (simp del: visit.simps)
  qed
  moreover have "\<forall>m \<in> set ?roots. \<forall>m' \<in> set ?roots. m \<noteq> m' \<longrightarrow> below ?d [m] \<inter> below ?d [m'] = {}"
    using below_disjoint [OF T] by simp
  ultimately obtain yss where yss: "rmap ?v ?roots = Inr yss" "distinct (concat yss)"
     "set (concat yss) = (\<Union>m \<in> set ?roots. below ?d [m])"
    using rmap_disjoint [of ?roots ?v "\<lambda>m. below ?d [m]"] rids(2) by blast
  have "rmap (visit (Suc (length ?d)) ?d) (pl_root_ids L) = Inr yss"
    using yss(1) by (simp add: rids(1) rmap_eq_Inr list.rel_map del: visit.simps)
  then have "ordered_ids L = Inr (concat yss)" by (simp add: ordered_ids_def del: visit.simps)
  moreover have "(\<Union>m \<in> set ?roots. below ?d [m]) = set (dict_keys ?d)"
  proof -
    have "set (dict_keys ?d) \<subseteq> (\<Union>m \<in> set ?roots. below ?d [m])"
    proof
      fix k assume "k \<in> set (dict_keys ?d)"
      then obtain s where s: "(k, s) \<in> set ?d" by auto
      obtain m r where p: "ps_prefix s = m # r" using tree_key(3) [OF T s] by (cases "ps_prefix s") auto
      then have "prefix [m] (ps_prefix s)" by simp
      with tree_ancestors [OF T s] obtain t where "(shard_id_for ?g [m], t) \<in> set ?d" "ps_prefix t = [m]"
        by blast
      then have "m \<in> set ?roots" using tree_node [OF T, of _ t] by (simp add: node_ok_def)
      moreover have "k \<in> below ?d [m]" using s p by (auto simp: below_def)
      ultimately show "k \<in> (\<Union>m \<in> set ?roots. below ?d [m])" by blast
    qed
    moreover have "below ?d p \<subseteq> set (dict_keys ?d)" for p
      unfolding below_def by (auto intro: rev_image_eqI)
    ultimately show ?thesis by blast
  qed
  ultimately show ?thesis using yss(2,3) by metis
qed

lemma rmap_lookup:
  "(\<And>k. k \<in> set ks \<Longrightarrow> dict_get d k \<noteq> None) \<Longrightarrow>
   rmap (lookup_shard d) ks = Inr (map (\<lambda>k. the (dict_get d k)) ks)"
  by (rule rmap_total) (fastforce simp: lookup_shard_def)

text \<open>The frontier is the set of the leaves, each once.\<close>

lemma frontier_leaves:
  assumes "prefix_inv L"
  shows "\<exists>fs. frontier_shards L = Inr fs \<and> distinct (map ps_id fs) \<and>
     (\<forall>s. s \<in> set fs \<longleftrightarrow> (ps_id s, s) \<in> set (pl_by_id L) \<and> ps_child_ids s = [])"
proof -
  let ?d = "pl_by_id L" and ?get = "\<lambda>k. the (dict_get (pl_by_id L) k)"
  have T: "tree_ok (pl_generation L) (pl_candidate_roots L) (pl_root_ids L) (pl_by_prefix L) ?d"
    using assms by (simp add: prefix_inv_def)
  obtain ks where ks: "ordered_ids L = Inr ks" "distinct ks" "set ks = set (dict_keys ?d)"
    using ordered_ids_total [OF T] by blast
  define fs where "fs = filter (\<lambda>s. ps_child_ids s = [] \<and> ps_state s \<noteq> PRetired) (map ?get ks)"
  have get: "(k, ?get k) \<in> set ?d" if "k \<in> set ks" for k
  proof -
    obtain s where "(k, s) \<in> set ?d" using \<open>k \<in> set ks\<close> ks(3) by auto
    then show ?thesis using tree_get [OF T, of k s] by simp
  qed
  have id: "ps_id (?get k) = k" if "k \<in> set ks" for k
    using tree_key(2) [OF T get [OF that]] .
  have "dict_get ?d k \<noteq> None" if "k \<in> set ks" for k
    using that ks(3) by (simp add: dict_get_None)
  then have front: "frontier_shards L = Inr fs"
    by (simp add: frontier_shards_def ks(1) rmap_lookup fs_def)
  have "map ps_id (map ?get ks) = ks" using id by (simp add: map_idI)
  then have "distinct (map ps_id (map ?get ks))" using ks(2) by (simp only:)
  then have dist: "distinct (map ps_id fs)" unfolding fs_def by (rule distinct_map_filter)
  have "s \<in> set fs \<longleftrightarrow> (ps_id s, s) \<in> set ?d \<and> ps_child_ids s = []" for s
  proof
    assume "s \<in> set fs"
    then obtain k where k: "k \<in> set ks" "s = ?get k" "ps_child_ids s = []" by (auto simp: fs_def)
    with get [OF k(1)] id [OF k(1)] show "(ps_id s, s) \<in> set ?d \<and> ps_child_ids s = []" by simp
  next
    assume s: "(ps_id s, s) \<in> set ?d \<and> ps_child_ids s = []"
    then have "ps_id s \<in> fst ` set ?d" using imageI [of "(ps_id s, s)" "set ?d" fst] by simp
    then have "ps_id s \<in> set ks" by (simp add: ks(3))
    then have "?get (ps_id s) \<in> set (map ?get ks)" by simp
    moreover have "?get (ps_id s) = s" using s tree_get [OF T, of "ps_id s" s] by simp
    ultimately have "s \<in> set (map ?get ks)" by (simp only:)
    moreover have "colour_ok L s" using assms s by (auto simp: prefix_inv_def)
    ultimately show "s \<in> set fs" using s by (simp add: fs_def colour_ok_def)
  qed
  with front dist show ?thesis by blast
qed

lemma walk_parents_total:
  assumes T: "tree_ok g roots rids bp d"
  shows "(k, s) \<in> set d \<Longrightarrow> length (ps_prefix s) < Suc n \<Longrightarrow>
    \<forall>x \<in> set seen. \<exists>q. x = shard_id_for g q \<and> (\<forall>m \<in> set q. uci_move m) \<and> length (ps_prefix s) < length q \<Longrightarrow>
    walk_parents n d seen s = Inr ()"
proof (induction n arbitrary: k s seen)
  case 0
  then show ?case using tree_key(3) [OF T 0(1)] by simp
next
  case (Suc n)
  show ?case
  proof (cases "length (ps_prefix s) = 1")
    case True
    then show ?thesis using tree_node [OF T Suc.prems(1)] by (simp add: node_ok_def)
  next
    case False
    let ?q = "butlast (ps_prefix s)"
    obtain t where t: "(shard_id_for g ?q, t) \<in> set d" "ps_prefix t = ?q"
      using tree_parent(2) [OF T Suc.prems(1) False] by blast
    have id: "ps_id s = shard_id_for g (ps_prefix s)" and uci: "\<forall>m \<in> set (ps_prefix s). uci_move m"
      and nonempty: "ps_prefix s \<noteq> []"
      using tree_key [OF T Suc.prems(1)] by auto
    have "ps_id s \<notin> set seen"
      using Suc.prems(3) uci by (auto simp: id shard_id_for_inj)
    moreover have "walk_parents n d (ps_id s # seen) t = Inr ()"
    proof (rule Suc.IH [OF t(1)])
      show "length (ps_prefix t) < Suc n" using Suc.prems(2) nonempty by (simp add: t(2))
      have "length ?q < length (ps_prefix s)" using nonempty by simp
      then show "\<forall>x \<in> set (ps_id s # seen). \<exists>q. x = shard_id_for g q \<and> (\<forall>m \<in> set q. uci_move m) \<and>
          length (ps_prefix t) < length q"
        using Suc.prems(3) id uci t(2) by (metis dual_order.strict_trans set_ConsD)
    qed
    ultimately show ?thesis
      using tree_parent(1) [OF T Suc.prems(1) False] t(1)
      by (simp add: lookup_shard_def tree_get [OF T, symmetric])
  qed
qed

lemma check_prefix_free_Inr:
  "check_prefix_free fs = Inr () \<longleftrightarrow>
     sorted_wrt (\<lambda>l r. \<not> strict_prefix (ps_prefix l) (ps_prefix r) \<and> \<not> strict_prefix (ps_prefix r) (ps_prefix l)) fs"
  by (induction fs) (auto simp: rbind_eq_Inr broken_def)

lemma check_child_ids_Inr:
  "distinct cs \<Longrightarrow> set seen \<inter> set cs = {} \<Longrightarrow>
   \<forall>c \<in> set cs. \<exists>t. dict_get d c = Some t \<and> ps_parent_id t = Some k \<Longrightarrow>
   check_child_ids d k seen cs = Inr ()"
  by (induction cs arbitrary: seen) auto

lemma broken_Inr [simp]: "broken b what = Inr () \<longleftrightarrow> \<not> b"
  by (simp add: broken_def)

section \<open>The check never fails on a ledger with the invariant\<close>

lemma prefix_inv_tree:
  "prefix_inv L \<Longrightarrow> tree_ok (pl_generation L) (pl_candidate_roots L) (pl_root_ids L) (pl_by_prefix L) (pl_by_id L)"
  by (simp add: prefix_inv_def)

lemma prefix_inv_colour: "prefix_inv L \<Longrightarrow> (k, s) \<in> set (pl_by_id L) \<Longrightarrow> colour_ok L s"
  by (auto simp: prefix_inv_def)

lemma check_root_total:
  assumes "prefix_inv L" "om \<in> set (List.enumerate 0 (pl_root_ids L))"
  shows "check_root L om = Inr ()"
proof -
  note T = prefix_inv_tree [OF assms(1)]
  let ?g = "pl_generation L" and ?roots = "pl_candidate_roots L"
  obtain i where i: "i < length ?roots" "om = (i, shard_id_for ?g [?roots ! i])"
    using assms(2) T by (auto simp: tree_ok_def in_set_enumerate_eq)
  have "?roots ! i \<in> set ?roots" using i(1) by simp
  then obtain s where s: "(shard_id_for ?g [?roots ! i], s) \<in> set (pl_by_id L)" "ps_prefix s = [?roots ! i]"
    using T unfolding tree_ok_def by blast
  then have "ps_parent_id s = None" using tree_node [OF T s(1)] by (simp add: node_ok_def)
  with s show ?thesis by (simp add: check_root_def i(2) tree_get [OF T, symmetric])
qed

lemma tree_child:
  assumes T: "tree_ok g roots rids bp d" and s: "(k, s) \<in> set d" and c: "c \<in> set (ps_child_ids s)"
  shows "\<exists>m t. c = shard_id_for g (ps_prefix s @ [m]) \<and> uci_move m \<and> (c, t) \<in> set d \<and>
     ps_prefix t = ps_prefix s @ [m] \<and> ps_parent_id t = Some k"
proof -
  obtain ms where "ps_child_ids s = map (\<lambda>m. shard_id_for g (ps_prefix s @ [m])) ms"
    "\<forall>m \<in> set ms. uci_move m \<and>
       (\<exists>t. (shard_id_for g (ps_prefix s @ [m]), t) \<in> set d \<and> ps_prefix t = ps_prefix s @ [m])"
    using tree_children [OF T s] by metis
  with c obtain m t where t: "c = shard_id_for g (ps_prefix s @ [m])" "uci_move m" "(c, t) \<in> set d"
    "ps_prefix t = ps_prefix s @ [m]" by auto
  have "length (ps_prefix t) \<noteq> 1" using t(4) tree_key(3) [OF T s] by simp
  from tree_parent(1) [OF T t(3) this] have "ps_parent_id t = Some k"
    using tree_key(1) [OF T s] by (simp add: t(4))
  with t show ?thesis by blast
qed

lemma check_parent_total:
  assumes "prefix_inv L" "(k, s) \<in> set (pl_by_id L)"
  shows "check_parent L s = Inr ()"
proof -
  note T = prefix_inv_tree [OF assms(1)]
  note node = tree_node [OF T assms(2)]
  show ?thesis
  proof (cases "length (ps_prefix s) = 1")
    case True
    with node show ?thesis by (simp add: check_parent_def node_ok_def)
  next
    case False
    obtain t where t: "(shard_id_for (pl_generation L) (butlast (ps_prefix s)), t) \<in> set (pl_by_id L)"
      "ps_prefix t = butlast (ps_prefix s)" "k \<in> set (ps_child_ids t)"
      using tree_parent(2) [OF T assms(2) False] by blast
    then show ?thesis
      using tree_parent(1) [OF T assms(2) False] tree_key(2) [OF T assms(2)]
      by (simp add: check_parent_def tree_get [OF T, symmetric] rbind_eq_Inr)
  qed
qed

lemma check_children_total:
  assumes "prefix_inv L" "(k, s) \<in> set (pl_by_id L)"
  shows "check_children L s = Inr ()"
proof -
  note T = prefix_inv_tree [OF assms(1)]
  have "check_child_ids (pl_by_id L) k [] (ps_child_ids s) = Inr ()"
  proof (rule check_child_ids_Inr)
    show "distinct (ps_child_ids s)" using tree_children [OF T assms(2)] by metis
    show "\<forall>c \<in> set (ps_child_ids s). \<exists>t. dict_get (pl_by_id L) c = Some t \<and> ps_parent_id t = Some k"
      using tree_child [OF T assms(2)] tree_get [OF T] by meson
  qed simp
  moreover have "ps_state s = PRetired \<longleftrightarrow> ps_child_ids s \<noteq> []"
    using prefix_inv_colour [OF assms] by (simp add: colour_ok_def)
  ultimately show ?thesis
    by (simp add: check_children_def tree_key(2) [OF T assms(2)] rbind_eq_Inr)
qed

lemma check_shard_total:
  assumes "prefix_inv L" "(k, s) \<in> set (pl_by_id L)"
  shows "check_shard L (k, s) = Inr ()"
proof -
  note T = prefix_inv_tree [OF assms(1)]
  have "dict_get (pl_by_prefix L) (ps_prefix s) = Some k"
    using tree_by_prefix [OF T] assms(2) by blast
  moreover have "ps_owner s = None \<or> the (ps_owner s) \<in> set (pl_owners L)"
    using prefix_inv_colour [OF assms] by (auto simp: colour_ok_def split: if_splits)
  ultimately show ?thesis
    using tree_node [OF T assms(2)] check_parent_total [OF assms] check_children_total [OF assms]
    by (auto simp: check_shard_def node_ok_def rbind_eq_Inr Suc_le_eq)
qed

lemma check_assignment_total:
  assumes "prefix_inv L"
  shows "check_assignment L = Inr ()"
proof -
  note T = prefix_inv_tree [OF assms]
  have root: "\<exists>s. dict_get (pl_by_id L) k = Some s \<and> colour_ok L s" if "k \<in> set (pl_root_ids L)" for k
  proof -
    obtain s where "(k, s) \<in> set (pl_by_id L)" using T \<open>k \<in> set (pl_root_ids L)\<close> by (auto simp: tree_ok_def)
    then show ?thesis using tree_get [OF T] prefix_inv_colour [OF assms] by blast
  qed
  then have "rmap (lookup_shard (pl_by_id L)) (pl_root_ids L) =
      Inr (map (\<lambda>k. the (dict_get (pl_by_id L) k)) (pl_root_ids L))"
    by (intro rmap_lookup) fastforce
  with root show ?thesis
    by (fastforce simp: check_assignment_def colour_ok_def split: if_splits)
qed

lemma sorted_wrt_all: "\<forall>x \<in> set xs. \<forall>y \<in> set xs. P x y \<Longrightarrow> sorted_wrt P xs"
  by (induction xs) auto

lemma validate_invariants_total:
  assumes "prefix_inv L"
  shows "validate_invariants L = Inr ()"
proof -
  note T = prefix_inv_tree [OF assms]
  have "length (pl_root_ids L) = length (pl_candidate_roots L)" "length (pl_by_id L) = length (pl_by_prefix L)"
    using T by (simp_all add: tree_ok_def)
  moreover have "\<forall>(k, s) \<in> set (pl_by_id L).
      walk_parents (Suc (length (pl_by_id L))) (pl_by_id L) [] s = Inr ()"
  proof (clarify)
    fix k s assume s: "(k, s) \<in> set (pl_by_id L)"
    show "walk_parents (Suc (length (pl_by_id L))) (pl_by_id L) [] s = Inr ()"
      using tree_depth [OF T s] by (intro walk_parents_total [OF T s]) auto
  qed
  moreover have "rbind (frontier_shards L) check_prefix_free = Inr ()"
  proof -
    obtain fs where fs: "frontier_shards L = Inr fs"
      "\<forall>s. s \<in> set fs \<longleftrightarrow> (ps_id s, s) \<in> set (pl_by_id L) \<and> ps_child_ids s = []"
      using frontier_leaves [OF assms] by blast
    have "sorted_wrt (\<lambda>l r. \<not> strict_prefix (ps_prefix l) (ps_prefix r) \<and>
        \<not> strict_prefix (ps_prefix r) (ps_prefix l)) fs"
      using fs(2) tree_leaves_prefix_free [OF T] by (intro sorted_wrt_all) blast
    then have "check_prefix_free fs = Inr ()" by (simp only: check_prefix_free_Inr)
    with fs(1) show ?thesis by simp
  qed
  ultimately show ?thesis
    unfolding validate_invariants_def rcheck_eq_Inr
    using check_root_total [OF assms] check_shard_total [OF assms] check_assignment_total [OF assms]
    by (auto simp del: walk_parents.simps)
qed

section \<open>Every operation keeps the invariant\<close>

lemma prefix_inv_revision [simp]: "prefix_inv (L\<lparr>pl_revision := r\<rparr>) = prefix_inv L"
  by (simp add: prefix_inv_def colour_ok_def)

lemma finish_inv: "prefix_inv L \<Longrightarrow> finish L r = (L\<lparr>pl_revision := Suc (pl_revision L)\<rparr>, Inr r)"
  by (simp add: finish_def Let_def validate_invariants_total)

lemma skeleton_update_shard: "(\<And>s. skel (f s) = skel s) \<Longrightarrow> skeleton (update_shard k f d) = skeleton d"
  by (simp add: skeleton_def update_shard_def case_prod_unfold comp_def)

lemma recolour_inv:
  assumes "prefix_inv L" "skeleton d = skeleton (pl_by_id L)"
    and "\<And>k s. (k, s) \<in> set d \<Longrightarrow> colour_ok (L\<lparr>pl_partition_assigned := b\<rparr>) s"
  shows "prefix_inv (L\<lparr>pl_by_id := d, pl_partition_assigned := b\<rparr>)"
  using assms by (auto simp: prefix_inv_def colour_ok_def)

lemma recolour_same:
  assumes "prefix_inv L" "skeleton d = skeleton (pl_by_id L)" "\<And>k s. (k, s) \<in> set d \<Longrightarrow> colour_ok L s"
  shows "prefix_inv (L\<lparr>pl_by_id := d\<rparr>)"
  using recolour_inv [of L d "pl_partition_assigned L"] assms by simp

text \<open>Recolouring one leaf of an assigned ledger.\<close>

lemma update_leaf_inv:
  assumes inv: "prefix_inv L" and s: "(k, s) \<in> set (pl_by_id L)" "ps_child_ids s = []"
    and f: "\<And>s. skel (f s) = skel s" "ps_state (f s) \<noteq> PRetired"
      "\<exists>w \<in> set (pl_owners L). ps_owner (f s) = Some w" "pl_partition_assigned L"
  shows "prefix_inv (L\<lparr>pl_by_id := update_shard k f (pl_by_id L)\<rparr>)"
proof (rule recolour_same [OF inv])
  show "skeleton (update_shard k f (pl_by_id L)) = skeleton (pl_by_id L)"
    by (rule skeleton_update_shard [OF f(1)])
  fix k' s' assume "(k', s') \<in> set (update_shard k f (pl_by_id L))"
  then obtain t where t: "(k', t) \<in> set (pl_by_id L)" "s' = (if k' = k then f t else t)"
    by (auto simp: update_shard_def)
  show "colour_ok L s'"
  proof (cases "k' = k")
    case True
    with t(1) s(1) have "t = s" using tree_key_unique [OF prefix_inv_tree [OF inv]] by blast
    moreover have "ps_child_ids (f s) = []" using f(1) [of s] s(2) by (metis skel_simps(6))
    ultimately show ?thesis using f(2-4) True t(2) by (simp add: colour_ok_def)
  next
    case False
    with t prefix_inv_colour [OF inv t(1)] show ?thesis by simp
  qed
qed

lemma require_shard_Inr [simp]:
  "require_shard L k = Inr s \<longleftrightarrow> dict_get (pl_by_id L) k = Some s"
  by (simp add: require_shard_def split: option.splits)

lemma require_owner_Inr [simp]: "require_owner L w = Inr u \<longleftrightarrow> w \<in> set (pl_owners L)"
  by (simp add: require_owner_def)

lemma require_leaf_Inr:
  "require_leaf L k owner st = Inr s \<longleftrightarrow> owner \<in> set (pl_owners L) \<and> dict_get (pl_by_id L) k = Some s \<and>
     ps_child_ids s = [] \<and> ps_owner s = Some owner \<and> ps_state s = st"
  by (auto simp: require_leaf_def rbind_eq_Inr)

lemma owned_assigned:
  "prefix_inv L \<Longrightarrow> (k, s) \<in> set (pl_by_id L) \<Longrightarrow> ps_owner s = Some w \<Longrightarrow> pl_partition_assigned L"
  using prefix_inv_colour by (fastforce simp: colour_ok_def split: if_splits)

lemma set_leaf_state_inv:
  assumes "prefix_inv L" "require_leaf L k owner st0 = Inr s" "st \<noteq> PRetired"
  shows "prefix_inv (L\<lparr>pl_by_id := update_shard k (\<lambda>s. s\<lparr>ps_state := st\<rparr>) (pl_by_id L)\<rparr>)"
proof -
  have s: "(k, s) \<in> set (pl_by_id L)" "ps_child_ids s = []" "ps_owner s = Some owner"
    "owner \<in> set (pl_owners L)"
    using assms(2) tree_get [OF prefix_inv_tree [OF assms(1)]] by (auto simp: require_leaf_Inr)
  show ?thesis
    using s assms(3) owned_assigned [OF assms(1) s(1,3)]
    by (intro update_leaf_inv [OF assms(1) s(1,2)]) (auto simp: skel_def)
qed

lemma require_transferable_Inr:
  "require_transferable L v k = Inr s \<longleftrightarrow> dict_get (pl_by_id L) k = Some s \<and> ps_child_ids s = [] \<and>
     ps_state s = PLeased \<and> ps_owner s = Some v"
  by (auto simp: require_transferable_def rbind_eq_Inr)

lemma require_transfer_Inr:
  assumes "require_transfer L sks v w = Inr ks"
  shows "v \<in> set (pl_owners L) \<and> w \<in> set (pl_owners L) \<and> v \<noteq> w \<and> sks = Seq ks \<and> ks \<noteq> [] \<and> distinct ks \<and>
     (\<forall>k \<in> set ks. \<exists>s. dict_get (pl_by_id L) k = Some s \<and> ps_child_ids s = [] \<and>
        ps_state s = PLeased \<and> ps_owner s = Some v)"
proof -
  have owners: "v \<in> set (pl_owners L)" "w \<in> set (pl_owners L)" "v \<noteq> w"
    using assms by (auto simp: require_transfer_def rbind_eq_Inr split: if_splits)
  obtain ss where "sks = Seq ks" "ks \<noteq> []" "distinct ks" and ss: "rmap (require_transferable L v) ks = Inr ss"
    using assms owners
    by (auto simp: require_transfer_def rbind_eq_Inr
        split: pyseq.splits if_splits)
  moreover have "\<exists>s. dict_get (pl_by_id L) k = Some s \<and> ps_child_ids s = [] \<and>
      ps_state s = PLeased \<and> ps_owner s = Some v" if "k \<in> set ks" for k
    using rmap_each [OF ss that] by (auto simp: require_transferable_Inr)
  ultimately show ?thesis using owners by blast
qed

definition transferred :: "string \<Rightarrow> string list \<Rightarrow> shard_heap \<Rightarrow> shard_heap" where
  "transferred w ks d = foldl (\<lambda>d k. update_shard k (\<lambda>s. s\<lparr>ps_owner := Some w\<rparr>) d) d ks"

lemma transferred_eq:
  "transferred w ks d = map (\<lambda>(k, s). (k, if k \<in> set ks then s\<lparr>ps_owner := Some w\<rparr> else s)) d"
proof (induction ks arbitrary: d)
  case Nil
  then show ?case by (simp add: transferred_def case_prod_unfold)
next
  case (Cons k ks)
  have "transferred w (k # ks) d = transferred w ks (update_shard k (\<lambda>s. s\<lparr>ps_owner := Some w\<rparr>) d)"
    by (simp add: transferred_def)
  also have "\<dots> = map (\<lambda>(k', s). (k', if k' \<in> set (k # ks) then s\<lparr>ps_owner := Some w\<rparr> else s)) d"
    by (simp only: Cons.IH) (auto simp: update_shard_def)
  finally show ?case .
qed

lemma transferred_inv:
  assumes inv: "prefix_inv L" and req: "require_transfer L sks v w = Inr ks"
  shows "prefix_inv (L\<lparr>pl_by_id := transferred w ks (pl_by_id L)\<rparr>)"
proof (rule recolour_same [OF inv])
  show "skeleton (transferred w ks (pl_by_id L)) = skeleton (pl_by_id L)"
    by (simp add: transferred_eq skeleton_def case_prod_unfold comp_def skel_def)
  note T = prefix_inv_tree [OF inv]
  note ks = require_transfer_Inr [OF req]
  have assigned: "pl_partition_assigned L"
  proof -
    obtain k where "k \<in> set ks" using ks by (cases ks) auto
    then obtain s where "(k, s) \<in> set (pl_by_id L)" "ps_owner s = Some v" using ks tree_get [OF T] by blast
    then show ?thesis by (rule owned_assigned [OF inv])
  qed
  fix k s assume "(k, s) \<in> set (transferred w ks (pl_by_id L))"
  then obtain t where t: "(k, t) \<in> set (pl_by_id L)"
    "s = (if k \<in> set ks then t\<lparr>ps_owner := Some w\<rparr> else t)"
    by (auto simp: transferred_eq)
  with prefix_inv_colour [OF inv t(1)] assigned ks show "colour_ok L s"
    by (simp add: colour_ok_def)
qed

text \<open>The commit loop of the root partition, as one recolouring of the heap.\<close>

definition root_owner :: "(string \<times> string) list \<Rightarrow> prefix_shard \<Rightarrow> string option" where
  "root_owner pairs s = (if length (ps_prefix s) = 1 then dict_get pairs (hd (ps_prefix s)) else None)"

definition lease_root :: "(string \<times> string) list \<Rightarrow> prefix_shard \<Rightarrow> prefix_shard" where
  "lease_root pairs s = (case root_owner pairs s of
      Some w \<Rightarrow> s\<lparr>ps_owner := Some w, ps_state := PLeased\<rparr> | None \<Rightarrow> s)"

lemma skel_lease_root [simp]: "skel (lease_root pairs s) = skel s"
  by (simp add: lease_root_def skel_def split: option.splits)

lemma commit_prefix_eq:
  assumes T: "tree_ok g roots rids bp d"
  shows "commit_prefix bp d (m, w) = map (\<lambda>(k, s). (k, lease_root [(m, w)] s)) d"
proof -
  have single: "root_owner [(m, w)] s = (if ps_prefix s = [m] then Some w else None)" for s
    by (cases "ps_prefix s" rule: list.exhaust; cases "tl (ps_prefix s)") (auto simp: root_owner_def)
  show ?thesis
  proof (cases "dict_get bp [m]")
    case None
    then have "ps_prefix s \<noteq> [m]" if "(k, s) \<in> set d" for k s
      using tree_by_prefix [OF T, of "[m]"] that by (metis option.distinct(1))
    then have "map (\<lambda>(k, s). (k, lease_root [(m, w)] s)) d = map (\<lambda>ks. ks) d"
      by (intro map_cong refl) (auto simp: lease_root_def single)
    with None show ?thesis by (simp add: commit_prefix_def)
  next
    case (Some k)
    then obtain s where s: "(k, s) \<in> set d" "ps_prefix s = [m]" using tree_by_prefix [OF T] by blast
    have "k' = k \<longleftrightarrow> ps_prefix t = [m]" if "(k', t) \<in> set d" for k' t
      using tree_prefix_unique [OF T that s(1)] tree_key_unique [OF T s(1)] s(2) that by metis
    then have "update_shard k (\<lambda>s. s\<lparr>ps_owner := Some w, ps_state := PLeased\<rparr>) d =
        map (\<lambda>(k, s). (k, lease_root [(m, w)] s)) d"
      unfolding update_shard_def by (intro map_cong refl) (auto simp: lease_root_def single)
    with Some show ?thesis by (simp add: commit_prefix_def)
  qed
qed

lemma lease_root_Cons:
  assumes "m \<notin> set (map fst pairs)"
  shows "lease_root pairs (lease_root [(m, w)] s) = lease_root ((m, w) # pairs) s"
proof -
  have "dict_get pairs m = None" using assms by (simp add: dict_get_None)
  then show ?thesis by (auto simp: lease_root_def root_owner_def split: option.splits)
qed

lemma commit_prefixes_eq:
  "tree_ok g roots rids bp d \<Longrightarrow> dict_ok pairs \<Longrightarrow>
   foldl (commit_prefix bp) d pairs = map (\<lambda>(k, s). (k, lease_root pairs s)) d"
proof (induction pairs arbitrary: d)
  case Nil
  have "lease_root [] s = s" for s by (simp add: lease_root_def root_owner_def)
  then show ?case by (simp add: case_prod_unfold)
next
  case (Cons mw pairs)
  obtain m w where mw: "mw = (m, w)" by (cases mw)
  let ?d = "map (\<lambda>(k, s). (k, lease_root [(m, w)] s)) d"
  have "skeleton ?d = skeleton d" by (simp add: skeleton_def case_prod_unfold comp_def)
  then have "tree_ok g roots rids bp ?d"
    using Cons.prems(1) tree_ok_skeleton by metis
  then have "foldl (commit_prefix bp) ?d pairs = map (\<lambda>(k, s). (k, lease_root pairs s)) ?d"
    using Cons.prems(2) by (intro Cons.IH) simp_all
  also have "\<dots> = map (\<lambda>(k, s). (k, lease_root (mw # pairs) s)) d"
    using Cons.prems(2) by (auto simp: mw lease_root_Cons)
  finally show ?case
    using commit_prefix_eq [OF Cons.prems(1), of m w] by (simp add: mw)
qed

text \<open>Before the partition is assigned every shard is a root.\<close>

lemma unassigned_roots:
  assumes inv: "prefix_inv L" and "\<not> pl_partition_assigned L" and s: "(k, s) \<in> set (pl_by_id L)"
  shows "\<exists>m \<in> set (pl_candidate_roots L). ps_prefix s = [m]"
proof -
  note T = prefix_inv_tree [OF inv]
  have leaf: "ps_child_ids t = []" if "(k', t) \<in> set (pl_by_id L)" for k' t
    using prefix_inv_colour [OF inv that] assms(2) by (auto simp: colour_ok_def)
  have one: "length (ps_prefix s) = 1"
  proof (rule ccontr)
    assume "length (ps_prefix s) \<noteq> 1"
    from tree_parent(2) [OF T s this] obtain k' t where "(k', t) \<in> set (pl_by_id L)" "k \<in> set (ps_child_ids t)"
      by blast
    with leaf show False by fastforce
  qed
  then have "hd (ps_prefix s) \<in> set (pl_candidate_roots L)"
    using tree_node [OF T s] by (simp add: node_ok_def)
  moreover have "ps_prefix s = [hd (ps_prefix s)]" using one by (cases "ps_prefix s") auto
  ultimately show ?thesis by blast
qed

lemma known_prefix_root:
  assumes inv: "prefix_inv L" and "\<not> pl_partition_assigned L"
  shows "dict_get (pl_by_prefix L) [m] \<noteq> None \<longleftrightarrow> m \<in> set (pl_candidate_roots L)"
proof
  note T = prefix_inv_tree [OF inv]
  assume "dict_get (pl_by_prefix L) [m] \<noteq> None"
  then obtain k s where "(k, s) \<in> set (pl_by_id L)" "ps_prefix s = [m]" using tree_by_prefix [OF T] by blast
  then show "m \<in> set (pl_candidate_roots L)" using tree_node [OF T] by (fastforce simp: node_ok_def)
next
  note T = prefix_inv_tree [OF inv]
  assume "m \<in> set (pl_candidate_roots L)"
  then obtain s where "(shard_id_for (pl_generation L) [m], s) \<in> set (pl_by_id L)" "ps_prefix s = [m]"
    using T unfolding tree_ok_def by blast
  then show "dict_get (pl_by_prefix L) [m] \<noteq> None" using tree_by_prefix [OF T] by blast
qed

lemma assigned_inv:
  assumes inv: "prefix_inv L" and un: "\<not> pl_partition_assigned L"
    and valid: "validate_partition (\<lambda>m. dict_get (pl_by_prefix L) [m] \<noteq> None)
       (pl_owners L) (pl_candidate_roots L) part = Inr validated"
  shows "prefix_inv (L\<lparr>pl_by_id := foldl (commit_prefix (pl_by_prefix L)) (pl_by_id L) (assignments validated),
     pl_partition_assigned := True\<rparr>)"
proof (rule recolour_inv [OF inv])
  note T = prefix_inv_tree [OF inv]
  have "distinct (pl_candidate_roots L)" using T by (simp add: tree_ok_def)
  note pairs = validate_partition_Inr [OF valid this known_prefix_root [OF inv un]]
  then have heap: "foldl (commit_prefix (pl_by_prefix L)) (pl_by_id L) (assignments validated) =
      map (\<lambda>(k, s). (k, lease_root (assignments validated) s)) (pl_by_id L)"
    by (intro commit_prefixes_eq [OF T]) simp
  show "skeleton (foldl (commit_prefix (pl_by_prefix L)) (pl_by_id L) (assignments validated)) =
      skeleton (pl_by_id L)"
    by (simp add: heap skeleton_def case_prod_unfold comp_def)
  fix k s assume "(k, s) \<in> set (foldl (commit_prefix (pl_by_prefix L)) (pl_by_id L) (assignments validated))"
  then obtain t where t: "(k, t) \<in> set (pl_by_id L)" "s = lease_root (assignments validated) t"
    by (auto simp: heap)
  obtain m where m: "m \<in> set (pl_candidate_roots L)" "ps_prefix t = [m]"
    using unassigned_roots [OF inv un t(1)] by blast
  then have "m \<in> fst ` set (assignments validated)" using pairs by simp
  then obtain w where w: "dict_get (assignments validated) m = Some w"
    by (metis dict_get_None not_None_eq)
  then have "(m, w) \<in> set (assignments validated)" by (rule map_of_SomeD)
  then have "w \<in> set (pl_owners L)" using pairs by fastforce
  moreover have "ps_child_ids t = []"
    using prefix_inv_colour [OF inv t(1)] un by (auto simp: colour_ok_def)
  ultimately show "colour_ok (L\<lparr>pl_partition_assigned := True\<rparr>) s"
    by (simp add: t(2) lease_root_def root_owner_def m(2) w colour_ok_def)
qed

text \<open>Storing new shards under new keys appends them to both indexes.\<close>

lemma store_shards:
  assumes "distinct (dict_keys (pl_by_id L) @ map ps_id cs)" "distinct (dict_keys (pl_by_prefix L) @ map ps_prefix cs)"
  shows "foldl (\<lambda>L c. store_shard c L) L cs =
     L\<lparr>pl_by_id := pl_by_id L @ map (\<lambda>c. (ps_id c, c)) cs,
       pl_by_prefix := pl_by_prefix L @ map (\<lambda>c. (ps_prefix c, ps_id c)) cs\<rparr>"
  using assms
proof (induction cs arbitrary: L)
  case Nil
  then show ?case by simp
next
  case (Cons c cs)
  have "store_shard c L = L\<lparr>pl_by_id := pl_by_id L @ [(ps_id c, c)],
      pl_by_prefix := pl_by_prefix L @ [(ps_prefix c, ps_id c)]\<rparr>"
    using Cons.prems by (simp add: store_shard_def dict_set_fresh)
  moreover from this have "foldl (\<lambda>L c. store_shard c L) (store_shard c L) cs = (store_shard c L)
     \<lparr>pl_by_id := pl_by_id (store_shard c L) @ map (\<lambda>c. (ps_id c, c)) cs,
      pl_by_prefix := pl_by_prefix (store_shard c L) @ map (\<lambda>c. (ps_prefix c, ps_id c)) cs\<rparr>"
    using Cons.prems by (intro Cons.IH) auto
  ultimately show ?case by simp
qed

lemma add_roots:
  "foldl (add_root g) L oms =
     (foldl (\<lambda>L c. store_shard c L) L (map (new_prefix_shard g) oms))
       \<lparr>pl_root_ids := pl_root_ids L @ map (\<lambda>om. ps_id (new_prefix_shard g om)) oms\<rparr>"
proof (induction oms rule: rev_induct)
  case Nil
  then show ?case by simp
next
  case (snoc om oms)
  then show ?case by (simp add: add_root_def Let_def store_shard_def)
qed

lemma enumerate_map: "map (\<lambda>(i, x). f x) (List.enumerate n xs) = map f xs"
  by (rule nth_equalityI) (auto simp: nth_enumerate_eq)

lemma new_root_tree:
  assumes "distinct roots" "\<forall>m \<in> set roots. uci_move m"
    and d: "d = map (\<lambda>om. (ps_id (new_prefix_shard g om), new_prefix_shard g om)) (List.enumerate 0 roots)"
  shows "tree_ok g roots (map (\<lambda>m. shard_id_for g [m]) roots) (map (\<lambda>(k, s). (ps_prefix s, k)) d) d \<and>
    map fst d = map (\<lambda>m. shard_id_for g [m]) roots"
proof -
  have keys: "map fst d = map (\<lambda>m. shard_id_for g [m]) roots"
    by (simp add: d comp_def new_prefix_shard_def case_prod_unfold)
      (simp add: enumerate_map [of "\<lambda>m. shard_id_for g [m]", unfolded case_prod_unfold])
  have mem: "\<exists>i < length roots. k = shard_id_for g [roots ! i] \<and> s = new_prefix_shard g (i, roots ! i)"
    if "(k, s) \<in> set d" for k s
    using that by (auto simp: d in_set_enumerate_eq new_prefix_shard_def)
  have node: "node_ok g roots d ks" if "ks \<in> set d" for ks
  proof -
    obtain k s where ks: "ks = (k, s)" by (cases ks)
    with mem [of k s] that obtain i where "i < length roots" "k = shard_id_for g [roots ! i]"
       "s = new_prefix_shard g (i, roots ! i)" by blast
    with assms(2) show ?thesis by (simp add: ks node_ok_def new_prefix_shard_def)
  qed
  have "inj_on (\<lambda>m. shard_id_for g [m]) (set roots)"
    using assms(2) by (intro inj_onI) (simp add: shard_id_for_inj)
  with assms(1) have "dict_ok d" by (simp add: keys distinct_map)
  moreover have "\<exists>s. (shard_id_for g [m], s) \<in> set d \<and> ps_prefix s = [m]" if "m \<in> set roots" for m
  proof -
    obtain i where i: "i < length roots" "roots ! i = m" using \<open>m \<in> set roots\<close> by (auto simp: in_set_conv_nth)
    then have "(i, m) \<in> set (List.enumerate 0 roots)" by (simp add: in_set_enumerate_eq)
    then have "(ps_id (new_prefix_shard g (i, m)), new_prefix_shard g (i, m)) \<in> set d"
      unfolding d set_map by (rule imageI)
    then have "(shard_id_for g [m], new_prefix_shard g (i, m)) \<in> set d" by (simp add: new_prefix_shard_def)
    then show ?thesis by (force simp: new_prefix_shard_def)
  qed
  ultimately show ?thesis using assms(1,2) node keys by (simp add: tree_ok_def)
qed

lemma new_prefix_ledger_inv:
  assumes "new_prefix_ledger roots owners gen = Inr L"
  shows "prefix_inv L \<and> pl_revision L = 0"
proof -
  obtain os rs g where os: "distinct os" and rs: "distinct rs" "\<forall>m \<in> set rs. uci_move m" and
    L: "L = foldl (add_root g)
         \<lparr>pl_generation = g, pl_owners = os, pl_candidate_roots = rs,
          pl_partition_assigned = False, pl_revision = 0, pl_by_id = [], pl_by_prefix = [],
          pl_root_ids = []\<rparr> (List.enumerate 0 rs)"
    using assms validate_owners_Inr [of owners] validate_roots_Inr [of "[]" roots]
    by (auto simp: new_prefix_ledger_def rbind_eq_Inr Let_def)
  let ?cs = "map (new_prefix_shard g) (List.enumerate 0 rs)"
  define d where "d = map (\<lambda>om. (ps_id (new_prefix_shard g om), new_prefix_shard g om)) (List.enumerate 0 rs)"
  note tree = new_root_tree [OF rs d_def]
  have d_cs: "d = map (\<lambda>c. (ps_id c, c)) ?cs" by (simp add: d_def comp_def)
  have ids: "map ps_id ?cs = map (\<lambda>m. shard_id_for g [m]) rs" using tree by (simp add: d_cs comp_def)
  have dist: "distinct (map ps_id ?cs)" using tree unfolding ids tree_ok_def by metis
  have "map ps_prefix ?cs = map (\<lambda>m. [m]) rs"
    by (simp add: comp_def new_prefix_shard_def case_prod_unfold)
      (simp add: enumerate_map [of "\<lambda>m. [m]", unfolded case_prod_unfold])
  then have "distinct (map ps_prefix ?cs)" using rs(1) by (simp add: distinct_map inj_on_def)
  with dist have L': "L = \<lparr>pl_generation = g, pl_owners = os, pl_candidate_roots = rs,
          pl_partition_assigned = False, pl_revision = 0, pl_by_id = d,
          pl_by_prefix = map (\<lambda>c. (ps_prefix c, ps_id c)) ?cs, pl_root_ids = map ps_id ?cs\<rparr>"
    unfolding L add_roots by (subst store_shards) (simp_all add: d_cs comp_def)
  have "tree_ok g rs (map ps_id ?cs) (map (\<lambda>c. (ps_prefix c, ps_id c)) ?cs) d"
    using tree unfolding ids by (simp add: d_cs comp_def)
  moreover have "colour_ok L s" if "(k, s) \<in> set d" for k s
    using that by (auto simp: d_def new_prefix_shard_def colour_ok_def L')
  ultimately show ?thesis using os by (auto simp: prefix_inv_def L')
qed

lemma split_moves_Inr:
  "split_moves known pp acc vs = Inr ms \<Longrightarrow> distinct acc \<Longrightarrow>
   \<forall>m \<in> set acc. uci_move m \<and> \<not> known (pp @ [m]) \<Longrightarrow>
   distinct ms \<and> (\<forall>m \<in> set ms. uci_move m \<and> \<not> known (pp @ [m])) \<and> length ms = length acc + length vs"
proof (induction vs arbitrary: acc)
  case (Cons v vs)
  from Cons.prems(1) obtain m where m: "uci_move m" "m \<notin> set acc" "\<not> known (pp @ [m])"
    "split_moves known pp (acc @ [m]) vs = Inr ms"
    by (auto simp: rbind_eq_Inr split: if_splits)
  have "distinct (acc @ [m])" "\<forall>m \<in> set (acc @ [m]). uci_move m \<and> \<not> known (pp @ [m])"
    using Cons.prems(2,3) m(1-3) by auto
  from Cons.IH [OF m(4) this] show ?case by simp
qed simp

lemma validate_move_PStr: "validate_move v = Inr m \<Longrightarrow> v = PStr m"
  by (cases v) (auto simp: validate_move_def split: if_splits)

text \<open>No declared move is skipped, and none is added.\<close>

lemma split_moves_all: "split_moves known pp acc vs = Inr ms \<Longrightarrow> map PStr ms = map PStr acc @ vs"
proof (induction vs arbitrary: acc)
  case (Cons v vs)
  then obtain m where "validate_move v = Inr m" "split_moves known pp (acc @ [m]) vs = Inr ms"
    by (auto simp: rbind_eq_Inr split: if_splits)
  with Cons.IH [of "acc @ [m]"] validate_move_PStr [of v m] show ?case by simp
qed simp

lemma require_split_Inr:
  assumes "require_split L k cm owner = Inr (parent, ms)"
  shows "owner \<in> set (pl_owners L) \<and> dict_get (pl_by_id L) k = Some parent \<and> ps_owner parent = Some owner \<and>
     ps_state parent = PSealed \<and> ps_child_ids parent = [] \<and> ms \<noteq> [] \<and> distinct ms \<and>
     cm = Seq (map PStr ms) \<and>
     (\<forall>m \<in> set ms. uci_move m \<and> dict_get (pl_by_prefix L) (ps_prefix parent @ [m]) = None)"
proof -
  let ?known = "\<lambda>p. dict_get (pl_by_prefix L) p \<noteq> None"
  have base: "owner \<in> set (pl_owners L)" "dict_get (pl_by_id L) k = Some parent" "ps_owner parent = Some owner"
    "ps_state parent = PSealed" "ps_child_ids parent = []"
    using assms by (auto simp: require_split_def rbind_eq_Inr split: if_splits pyseq.splits)
  have "require_owner L owner = Inr ()" "require_shard L k = Inr parent" using base by simp_all
  note start = assms [unfolded require_split_def this rbind_Inr]
  obtain vs where "cm = Seq vs" using start base by (cases cm) auto
  with start base have "vs \<noteq> []" by auto
  with start base \<open>cm = Seq vs\<close> have vs: "split_moves ?known (ps_prefix parent) [] vs = Inr ms"
    by (cases "split_moves ?known (ps_prefix parent) [] vs") (auto simp: rbind_eq_Inr)
  have "distinct ms" "\<forall>m \<in> set ms. uci_move m \<and> \<not> ?known (ps_prefix parent @ [m])" "length ms = length vs"
    using split_moves_Inr [OF vs] by auto
  moreover have "vs = map PStr ms" using split_moves_all [OF vs] by simp
  ultimately show ?thesis using base \<open>vs \<noteq> []\<close> \<open>cm = Seq vs\<close> by auto
qed

lemma node_ok_mono:
  assumes "node_ok g roots d (k, s)"
    and mono: "\<And>k t. (k, t) \<in> set d \<Longrightarrow>
      \<exists>t'. (k, t') \<in> set d' \<and> ps_prefix t' = ps_prefix t \<and> set (ps_child_ids t) \<subseteq> set (ps_child_ids t')"
  shows "node_ok g roots d' (k, s)"
proof -
  have up: "\<exists>t'. (k, t') \<in> set d' \<and> ps_prefix t' = q" if "\<exists>t. (k, t) \<in> set d \<and> ps_prefix t = q" for k q
    using that mono by metis
  have "\<exists>t'. (k', t') \<in> set d' \<and> ps_prefix t' = q \<and> c \<in> set (ps_child_ids t')"
    if "\<exists>t. (k', t) \<in> set d \<and> ps_prefix t = q \<and> c \<in> set (ps_child_ids t)" for k' q c
    using that mono by (metis subsetD)
  with assms(1) up show ?thesis unfolding node_ok_def prod.case by (auto; metis)
qed

text \<open>The two indexes after a split.\<close>

lemma commit_split_tree:
  assumes T: "tree_ok g roots rids bp d" and s: "(k, s) \<in> set d" and leaf: "ps_child_ids s = []"
    and ms: "ms \<noteq> []" "distinct ms" "\<And>m. m \<in> set ms \<Longrightarrow> uci_move m"
      "\<And>m. m \<in> set ms \<Longrightarrow> dict_get bp (ps_prefix s @ [m]) = None"
    and cs: "cs = map (child_shard g s w) (List.enumerate 0 ms)"
    and d': "d' = update_shard k (\<lambda>s. s\<lparr>ps_state := PRetired, ps_child_ids := map ps_id cs\<rparr>) d @
       map (\<lambda>c. (ps_id c, c)) cs"
  shows "tree_ok g roots rids (bp @ map (\<lambda>c. (ps_prefix c, ps_id c)) cs) d'"
    and "distinct (dict_keys d @ map ps_id cs)" "distinct (dict_keys bp @ map ps_prefix cs)"
proof -
  let ?p = "ps_prefix s" and ?id = "\<lambda>m. shard_id_for g (ps_prefix s @ [m])"
  note key = tree_key [OF T s]
  have bp: "bp = map (\<lambda>(k, s). (ps_prefix s, k)) d" using T by (simp add: tree_ok_def)
  have cs_id: "map ps_id cs = map ?id ms" and cs_prefix: "map ps_prefix cs = map (\<lambda>m. ?p @ [m]) ms"
    by (rule nth_equalityI; auto simp: cs child_shard_def Let_def nth_enumerate_eq)+
  have c: "\<exists>m i. m \<in> set ms \<and> c = child_shard g s w (i, m)" if "c \<in> set cs" for c
  proof -
    obtain i where "i < length ms" "c = child_shard g s w (i, ms ! i)"
      using \<open>c \<in> set cs\<close> by (auto simp: cs in_set_enumerate_eq)
    then show ?thesis using nth_mem by blast
  qed
  have fresh: "?id m \<notin> set (dict_keys d)" if "m \<in> set ms" for m
  proof
    assume "?id m \<in> set (dict_keys d)"
    then obtain t where t: "(?id m, t) \<in> set d" by auto
    have "?id m = shard_id_for g (ps_prefix t)" using tree_key(1) [OF T t] .
    then have "ps_prefix t = ?p @ [m]"
      using ms(3) [OF that] key(4) tree_key(4) [OF T t] by (simp add: shard_id_for_inj)
    with t have "dict_get bp (?p @ [m]) \<noteq> None" using tree_by_prefix [OF T] by (metis option.distinct(1))
    with ms(4) [OF that] show False by simp
  qed
  have "inj_on ?id (set ms)" using ms(3) key(4) by (intro inj_onI) (simp add: shard_id_for_inj)
  then have "distinct (map ps_id cs)" using ms(2) by (simp add: cs_id distinct_map)
  moreover have "x \<notin> set (dict_keys d)" if "x \<in> set (map ps_id cs)" for x
  proof -
    obtain m where "m \<in> set ms" "x = ?id m" using \<open>x \<in> set (map ps_id cs)\<close> unfolding cs_id by auto
    with fresh [of m] show ?thesis by simp
  qed
  then have "set (dict_keys d) \<inter> set (map ps_id cs) = {}" by blast
  moreover have "dict_ok d" using T by (simp add: tree_ok_def)
  ultimately show keys: "distinct (dict_keys d @ map ps_id cs)" by (simp only: distinct_append)
  have "dict_ok bp"
    using T tree_prefix_unique [OF T]
    by (fastforce simp: bp tree_ok_def distinct_map comp_def case_prod_unfold inj_on_def)
  moreover have "(?p @ [m], x) \<notin> set bp" if "m \<in> set ms" for m x
    using ms(4) [OF that] by (metis weak_map_of_SomeI option.distinct(1))
  ultimately show "distinct (dict_keys bp @ map ps_prefix cs)"
    using ms(2) by (auto simp: cs_prefix distinct_map inj_on_def)
  have mono: "\<exists>t'. (k', t') \<in> set d' \<and> ps_prefix t' = ps_prefix t \<and> set (ps_child_ids t) \<subseteq> set (ps_child_ids t')"
    if t: "(k', t) \<in> set d" for k' t
  proof (cases "k' = k")
    case True
    then have "t = s" using tree_key_unique [OF T s] t by blast
    have "(k, s\<lparr>ps_state := PRetired, ps_child_ids := map ps_id cs\<rparr>) \<in> set d'"
      using s by (force simp: d' update_shard_def)
    with True \<open>t = s\<close> leaf show ?thesis by force
  next
    case False
    then have "(k', t) \<in> set d'" using t by (force simp: d' update_shard_def)
    then show ?thesis by blast
  qed
  have child_in: "\<exists>t. (?id m, t) \<in> set d' \<and> ps_prefix t = ?p @ [m]" if "m \<in> set ms" for m
  proof -
    obtain i where "i < length ms" "ms ! i = m" using \<open>m \<in> set ms\<close> by (auto simp: in_set_conv_nth)
    then have "child_shard g s w (i, m) \<in> set cs" by (force simp: cs in_set_enumerate_eq)
    moreover have "ps_id (child_shard g s w (i, m)) = ?id m" "ps_prefix (child_shard g s w (i, m)) = ?p @ [m]"
      by (simp_all add: child_shard_def Let_def)
    ultimately show ?thesis by (force simp: d')
  qed
  have parent_node: "node_ok g roots d' (k, s\<lparr>ps_state := PRetired, ps_child_ids := map ps_id cs\<rparr>)"
  proof -
    have "node_ok g roots d' (k, s)" by (rule node_ok_mono [OF tree_node [OF T s] mono])
    moreover have "\<exists>ms'. map ps_id cs = map ?id ms' \<and> distinct ms' \<and>
        (\<forall>m \<in> set ms'. uci_move m \<and> (\<exists>t. (?id m, t) \<in> set d' \<and> ps_prefix t = ?p @ [m]))"
      using cs_id ms(2,3) child_in by blast
    ultimately show ?thesis unfolding node_ok_def prod.case by (simp split: if_splits) blast
  qed
  have "node_ok g roots d' (k', t)" if "(k', t) \<in> set d'" for k' t
  proof -
    consider (old) t0 where "(k', t0) \<in> set d" "t = (if k' = k then
        t0\<lparr>ps_state := PRetired, ps_child_ids := map ps_id cs\<rparr> else t0)" | (new) "t \<in> set cs" "k' = ps_id t"
      using \<open>(k', t) \<in> set d'\<close> by (auto simp: d' update_shard_def)
    then show ?thesis
    proof cases
      case old
      show ?thesis
      proof (cases "k' = k")
        case True
        then have "t0 = s" using tree_key_unique [OF T s] old(1) by blast
        with True old(2) parent_node show ?thesis by simp
      next
        case False
        with old(2) have "t = t0" by simp
        with node_ok_mono [OF tree_node [OF T old(1)] mono] show ?thesis by simp
      qed
    next
      case new
      then obtain m i where m: "m \<in> set ms" "t = child_shard g s w (i, m)" using c by blast
      have "(k, s\<lparr>ps_state := PRetired, ps_child_ids := map ps_id cs\<rparr>) \<in> set d'"
        using s by (force simp: d' update_shard_def)
      moreover have "?id m \<in> set (map ps_id cs)" using m(1) by (simp add: cs_id)
      ultimately have "\<exists>u. (k, u) \<in> set d' \<and> ps_prefix u = ?p \<and> ?id m \<in> set (ps_child_ids u)" by force
      then show ?thesis
        using key ms(3) [OF m(1)] by (auto simp: new(2) m(2) node_ok_def child_shard_def Let_def)
    qed
  qed
  moreover have "dict_ok d'" using keys by (simp add: d' update_shard_def comp_def case_prod_unfold)
  moreover have "bp @ map (\<lambda>c. (ps_prefix c, ps_id c)) cs = map (\<lambda>(k, s). (ps_prefix s, k)) d'"
    by (auto simp: d' bp update_shard_def)
  moreover have "\<exists>t. (shard_id_for g [m], t) \<in> set d' \<and> ps_prefix t = [m]" if "m \<in> set roots" for m
  proof -
    obtain t where "(shard_id_for g [m], t) \<in> set d" "ps_prefix t = [m]"
      using T \<open>m \<in> set roots\<close> unfolding tree_ok_def by blast
    with mono [of "shard_id_for g [m]" t] show ?thesis by auto
  qed
  ultimately show "tree_ok g roots rids (bp @ map (\<lambda>c. (ps_prefix c, ps_id c)) cs) d'"
    using T by (auto simp: tree_ok_def)
qed

definition split_children :: "prefix_ledger \<Rightarrow> prefix_shard \<Rightarrow> string \<Rightarrow> string list \<Rightarrow> prefix_shard list" where
  "split_children L parent w ms = map (child_shard (pl_generation L) parent w) (List.enumerate 0 ms)"

definition split_heap :: "prefix_ledger \<Rightarrow> string \<Rightarrow> prefix_shard list \<Rightarrow> shard_heap" where
  "split_heap L k cs = update_shard k (\<lambda>s. s\<lparr>ps_state := PRetired, ps_child_ids := map ps_id cs\<rparr>) (pl_by_id L) @
     map (\<lambda>c. (ps_id c, c)) cs"

lemma split_inv:
  assumes inv: "prefix_inv L" and req: "require_split L k cm w = Inr (parent, ms)"
    and cs: "cs = split_children L parent w ms"
  shows "commit_split L k cs = L\<lparr>pl_by_id := split_heap L k cs,
      pl_by_prefix := pl_by_prefix L @ map (\<lambda>c. (ps_prefix c, ps_id c)) cs\<rparr>"
    and "prefix_inv (commit_split L k cs)"
proof -
  note T = prefix_inv_tree [OF inv]
  note r = require_split_Inr [OF req]
  have s: "(k, parent) \<in> set (pl_by_id L)" using r tree_get [OF T] by blast
  note tree = commit_split_tree [OF T s _ _ _ _ _ cs [unfolded split_children_def] split_heap_def]
  have keys: "distinct (dict_keys (pl_by_id L) @ map ps_id cs)"
    "distinct (dict_keys (pl_by_prefix L) @ map ps_prefix cs)"
    and T': "tree_ok (pl_generation L) (pl_candidate_roots L) (pl_root_ids L)
      (pl_by_prefix L @ map (\<lambda>c. (ps_prefix c, ps_id c)) cs) (split_heap L k cs)"
    using tree r by blast+
  show L': "commit_split L k cs = L\<lparr>pl_by_id := split_heap L k cs,
      pl_by_prefix := pl_by_prefix L @ map (\<lambda>c. (ps_prefix c, ps_id c)) cs\<rparr>"
    unfolding commit_split_def
    by (subst store_shards) (use keys in \<open>simp_all add: split_heap_def update_shard_def comp_def case_prod_unfold\<close>)
  have assigned: "pl_partition_assigned L" using owned_assigned [OF inv s] r by blast
  have "length cs = length ms" by (simp add: cs split_children_def)
  then have "cs \<noteq> []" using r by auto
  have "colour_ok L s'" if "(k', s') \<in> set (split_heap L k cs)" for k' s'
  proof (cases "s' \<in> set cs")
    case True
    then show ?thesis using assigned r
      by (auto simp: cs split_children_def child_shard_def Let_def colour_ok_def)
  next
    case False
    then obtain t where t: "(k', t) \<in> set (pl_by_id L)" "s' = (if k' = k then
        t\<lparr>ps_state := PRetired, ps_child_ids := map ps_id cs\<rparr> else t)"
      using \<open>(k', s') \<in> set (split_heap L k cs)\<close> by (auto simp: split_heap_def update_shard_def)
    with prefix_inv_colour [OF inv t(1)] assigned \<open>cs \<noteq> []\<close> show ?thesis by (simp add: colour_ok_def)
  qed
  with T' inv show "prefix_inv (commit_split L k cs)"
    unfolding L' by (auto simp: prefix_inv_def colour_ok_def)
qed

section \<open>The ledger is transactional\<close>

text \<open>
  What an operation does to a ledger with the invariant: it raises and leaves
  the ledger alone, or it returns, and then the self-check has passed.
\<close>

definition step_ok :: "prefix_ledger \<Rightarrow> prefix_ledger \<times> (ledger_error + string list) \<Rightarrow> bool" where
  "step_ok L r = (case snd r of Inl e \<Rightarrow> fst r = L
     | Inr ks \<Rightarrow> prefix_inv (fst r) \<and> pl_revision (fst r) = Suc (pl_revision L))"

lemma step_ok_finish:
  "prefix_inv L' \<Longrightarrow> pl_revision L' = pl_revision L \<Longrightarrow> step_ok L (finish L' ks)"
  by (simp add: step_ok_def finish_inv)

lemma step_ok_raising:
  "(\<And>v. m = Inr v \<Longrightarrow> step_ok L (f v)) \<Longrightarrow> step_ok L (raising L m f)"
  by (cases m) (auto simp: step_ok_def)

lemma prefix_step_ok:
  assumes inv: "prefix_inv L"
  shows "step_ok L (prefix_step L x)"
proof (cases x)
  case (PAssign part)
  show ?thesis
  proof (cases "pl_partition_assigned L")
    case True
    then show ?thesis by (simp add: PAssign assign_root_partition_def step_ok_def)
  next
    case False
    then show ?thesis unfolding PAssign prefix_step.simps assign_root_partition_def
      by (simp, intro step_ok_raising step_ok_finish) (auto intro: assigned_inv [OF inv])
  qed
next
  case (PActivate k w)
  show ?thesis unfolding PActivate prefix_step.simps activate_shard_def
    by (intro step_ok_raising step_ok_finish set_leaf_state_inv [OF inv]) simp_all
next
  case (PSeal k w)
  show ?thesis unfolding PSeal prefix_step.simps seal_shard_def
    by (intro step_ok_raising step_ok_finish set_leaf_state_inv [OF inv]) simp_all
next
  case (PSplit k cm w)
  show ?thesis unfolding PSplit prefix_step.simps split_shard_def
    using split_inv [OF inv]
    by (intro step_ok_raising) (auto simp: split_children_def Let_def intro!: step_ok_finish)
next
  case (PTransfer sks v w)
  show ?thesis unfolding PTransfer prefix_step.simps transfer_shards_def transferred_def [symmetric]
    using transferred_inv [OF inv] by (intro step_ok_raising step_ok_finish) auto
qed

interpretation prefix_ledger: transactional prefix_step prefix_inv pl_revision
proof unfold_locales
  fix L x e and r :: "string list"
  assume inv: "prefix_inv L"
  note ok = prefix_step_ok [OF inv, of x, unfolded step_ok_def]
  show "prefix_inv (fst (prefix_step L x))" using ok inv by (auto split: sum.splits)
  show "fst (prefix_step L x) = L" if "snd (prefix_step L x) = Inl e" using ok that by simp
  show "pl_revision (fst (prefix_step L x)) = Suc (pl_revision L)" if "snd (prefix_step L x) = Inr r"
    using ok that by simp
qed

lemma prefix_reachable_inv:
  "new_prefix_ledger roots owners gen = Inr L0 \<Longrightarrow> prefix_inv (run prefix_step L0 xs)"
  using new_prefix_ledger_inv prefix_ledger.run_inv by blast

section \<open>The abstract frontier\<close>

text \<open>
  What the ledger promises to its callers: a finite map from the prefixes of the
  dispatchable regions to their owners and states.
\<close>

definition frontier_map :: "prefix_ledger \<Rightarrow> string list \<Rightarrow> (string option \<times> prefix_state) option" where
  "frontier_map L p = (case dict_get (pl_by_prefix L) p of
      None \<Rightarrow> None
    | Some k \<Rightarrow> (case dict_get (pl_by_id L) k of
        None \<Rightarrow> None
      | Some s \<Rightarrow> if ps_child_ids s = [] then Some (ps_owner s, ps_state s) else None))"

lemma frontier_map_tree:
  assumes T: "tree_ok g roots rids (pl_by_prefix L) (pl_by_id L)" and s: "(k, s) \<in> set (pl_by_id L)"
  shows "frontier_map L (ps_prefix s) = (if ps_child_ids s = [] then Some (ps_owner s, ps_state s) else None)"
proof -
  have "dict_get (pl_by_prefix L) (ps_prefix s) = Some k" using tree_by_prefix [OF T] s by blast
  moreover have "dict_get (pl_by_id L) k = Some s" using tree_get [OF T] s by blast
  ultimately show ?thesis by (simp add: frontier_map_def)
qed

lemma frontier_map_absent:
  assumes T: "tree_ok g roots rids (pl_by_prefix L) (pl_by_id L)" and "\<And>k s. (k, s) \<in> set (pl_by_id L) \<Longrightarrow> ps_prefix s \<noteq> p"
  shows "frontier_map L p = None"
proof -
  have "dict_get (pl_by_prefix L) p = None" using tree_by_prefix [OF T, of p] assms(2) by (cases "dict_get (pl_by_prefix L) p") auto
  then show ?thesis by (simp add: frontier_map_def)
qed

lemma split_frontier_map:
  assumes inv: "prefix_inv L" and req: "require_split L k cm w = Inr (parent, ms)"
    and cs: "cs = split_children L parent w ms"
  shows "frontier_map (commit_split L k cs) =
    (\<lambda>q. if q = ps_prefix parent then None
         else if \<exists>m \<in> set ms. q = ps_prefix parent @ [m] then Some (Some w, PLeased)
         else frontier_map L q)"
proof
  fix q
  let ?L = "commit_split L k cs" and ?p = "ps_prefix parent"
  note T = prefix_inv_tree [OF inv]
  note T' = prefix_inv_tree [OF split_inv(2) [OF assms]]
  note r = require_split_Inr [OF req]
  have parent: "(k, parent) \<in> set (pl_by_id L)" using r tree_get [OF T] by blast
  have heap: "pl_by_id ?L = split_heap L k cs" by (simp add: split_inv(1) [OF assms])
  have len: "length cs = length ms" by (simp add: cs split_children_def)
  have kept: "(k', if k' = k then s\<lparr>ps_state := PRetired, ps_child_ids := map ps_id cs\<rparr> else s) \<in> set (pl_by_id ?L)"
    if "(k', s) \<in> set (pl_by_id L)" for k' s
    using that by (force simp: heap split_heap_def update_shard_def)
  consider (parent) "q = ?p" | (child) m where "m \<in> set ms" "q = ?p @ [m]"
    | (other) k' s where "(k', s) \<in> set (pl_by_id L)" "ps_prefix s = q" "q \<noteq> ?p" "\<forall>m \<in> set ms. q \<noteq> ?p @ [m]"
    | (absent) "\<forall>(k', s) \<in> set (pl_by_id L). ps_prefix s \<noteq> q" "q \<noteq> ?p" "\<forall>m \<in> set ms. q \<noteq> ?p @ [m]"
    by blast
  then show "frontier_map ?L q = (if q = ps_prefix parent then None
         else if \<exists>m \<in> set ms. q = ps_prefix parent @ [m] then Some (Some w, PLeased)
         else frontier_map L q)"
  proof cases
    case parent
    have "(k, parent\<lparr>ps_state := PRetired, ps_child_ids := map ps_id cs\<rparr>) \<in> set (pl_by_id ?L)"
      using kept [OF \<open>(k, parent) \<in> set (pl_by_id L)\<close>] by simp
    from frontier_map_tree [OF T' this] r len show ?thesis by (auto simp: parent)
  next
    case child
    then obtain i where "i < length ms" "ms ! i = m" by (auto simp: in_set_conv_nth)
    then have "(i, m) \<in> set (List.enumerate 0 ms)" by (auto simp: in_set_enumerate_eq)
    then have "child_shard (pl_generation L) parent w (i, m) \<in> set cs" by (auto simp: cs split_children_def)
    then have "(ps_id (child_shard (pl_generation L) parent w (i, m)),
        child_shard (pl_generation L) parent w (i, m)) \<in> set (pl_by_id ?L)"
      by (simp add: heap split_heap_def)
    from frontier_map_tree [OF T' this] child show ?thesis by (auto simp: child_shard_def Let_def)
  next
    case other
    have "k' \<noteq> k" using other(1-3) parent tree_key_unique [OF T] by blast
    with kept [OF other(1)] have "(k', s) \<in> set (pl_by_id ?L)" by simp
    from frontier_map_tree [OF T' this] frontier_map_tree [OF T other(1)] other(2-4)
    show ?thesis by auto
  next
    case absent
    have "frontier_map L q = None" using absent(1) by (intro frontier_map_absent [OF T]) auto
    moreover have "ps_prefix s \<noteq> q" if "(k', s) \<in> set (pl_by_id ?L)" for k' s
    proof -
      from that consider t where "(k', t) \<in> set (pl_by_id L)" "ps_prefix s = ps_prefix t"
        | "s \<in> set cs" by (fastforce simp: heap split_heap_def update_shard_def)
      then show ?thesis
      proof cases
        case 1
        with absent(1) show ?thesis by auto
      next
        case 2
        then obtain i m where "(i, m) \<in> set (List.enumerate 0 ms)"
           "s = child_shard (pl_generation L) parent w (i, m)"
          by (auto simp: cs split_children_def)
        then have "m \<in> set ms" "ps_prefix s = ?p @ [m]"
          by (auto simp: in_set_enumerate_eq child_shard_def Let_def)
        with absent(3) show ?thesis by auto
      qed
    qed
    then have "frontier_map ?L q = None" by (intro frontier_map_absent [OF T']) auto
    ultimately show ?thesis using absent by auto
  qed
qed

lemma transfer_frontier_map:
  assumes inv: "prefix_inv L" and req: "require_transfer L sks v w = Inr ks"
  shows "frontier_map (L\<lparr>pl_by_id := transferred w ks (pl_by_id L)\<rparr>) =
    (\<lambda>q. if \<exists>k \<in> set ks. dict_get (pl_by_prefix L) q = Some k then Some (Some w, PLeased)
         else frontier_map L q)"
proof
  fix q
  note T = prefix_inv_tree [OF inv]
  note r = require_transfer_Inr [OF req]
  have get: "dict_get (transferred w ks (pl_by_id L)) k =
      map_option (\<lambda>s. if k \<in> set ks then s\<lparr>ps_owner := Some w\<rparr> else s) (dict_get (pl_by_id L) k)" for k
  proof -
    have "dict_get (map (\<lambda>(k, s). (k, if k \<in> set ks then s\<lparr>ps_owner := Some w\<rparr> else s)) d) k =
        map_option (\<lambda>s. if k \<in> set ks then s\<lparr>ps_owner := Some w\<rparr> else s) (dict_get d k)" for d
      by (induction d) auto
    then show ?thesis unfolding transferred_eq .
  qed
  show "frontier_map (L\<lparr>pl_by_id := transferred w ks (pl_by_id L)\<rparr>) q =
      (if \<exists>k \<in> set ks. dict_get (pl_by_prefix L) q = Some k then Some (Some w, PLeased) else frontier_map L q)"
  proof (cases "\<exists>k \<in> set ks. dict_get (pl_by_prefix L) q = Some k")
    case True
    then obtain k s where k: "k \<in> set ks" "dict_get (pl_by_prefix L) q = Some k"
      "dict_get (pl_by_id L) k = Some s" "ps_child_ids s = []" "ps_state s = PLeased"
      using r by metis
    then show ?thesis by (auto simp: frontier_map_def get)
  next
    case False
    then show ?thesis by (auto simp: frontier_map_def get split: option.splits)
  qed
qed

lemma frontier_map_revision [simp]: "frontier_map (L\<lparr>pl_revision := r\<rparr>) = frontier_map L"
  by (rule ext) (simp add: frontier_map_def cong: option.case_cong)

lemma frontier_for_owner_leaf:
  assumes "prefix_inv L" "frontier_for_owner L v = Inr fs" "s \<in> set fs"
  shows "(ps_id s, s) \<in> set (pl_by_id L) \<and> ps_child_ids s = [] \<and> ps_owner s = Some v"
proof -
  obtain all where all: "frontier_shards L = Inr all"
    and leaf: "\<forall>s. s \<in> set all \<longleftrightarrow> (ps_id s, s) \<in> set (pl_by_id L) \<and> ps_child_ids s = []"
    using frontier_leaves [OF assms(1)] by blast
  have "fs = filter (\<lambda>s. ps_owner s = Some v) all"
    using assms(2) by (auto simp: frontier_for_owner_def rbind_eq_Inr all)
  with assms(3) leaf show ?thesis by simp
qed

lemma frontier_of_reachable:
  assumes "new_prefix_ledger roots owners gen = Inr L0" "L = run prefix_step L0 xs"
  shows "prefix_inv L"
  using prefix_reachable_inv [OF assms(1)] assms(2) by simp

section \<open>Properties\<close>

definition demo_prefix_roots :: "pyval list" where
  "demo_prefix_roots = map PStr [''e2e4'', ''d2d4'']"

definition demo_prefix_partition :: partition where
  "demo_prefix_partition = [(''a'', Seq [PStr ''e2e4'']), (''b'', Seq [PStr ''d2d4''])]"

definition demo_prefix_ledger :: prefix_ledger where
  "demo_prefix_ledger = (case new_prefix_ledger demo_prefix_roots demo_owners (PInt 1) of Inr L \<Rightarrow> L
     | Inl e \<Rightarrow> \<lparr>pl_generation = 0, pl_owners = [], pl_candidate_roots = [], pl_partition_assigned = False,
         pl_revision = 0, pl_by_id = [], pl_by_prefix = [], pl_root_ids = []\<rparr>)"

definition demo_root_id :: string where
  "demo_root_id = ''g000001:d001:e2e4''"

definition demo_split_ops :: "prefix_op list" where
  "demo_split_ops = [PAssign demo_prefix_partition, PActivate demo_root_id ''a'', PSeal demo_root_id ''a'']"

definition demo_children :: "pyval pyseq" where
  "demo_children = Seq ([PStr ''e7e5''])"

lemma demo_prefix_new: "new_prefix_ledger demo_prefix_roots demo_owners (PInt 1) = Inr demo_prefix_ledger"
  by code_simp

text \<open>
  C9. The ledger's own check is redundant and the ledger is transactional: on
  every reachable ledger the check passes, an operation that raises leaves the ledger
  exactly as it was (in particular the check never raises after a mutation), and the
  revision counts the operations that returned.
\<close>

theorem prefix_ledger_transactional:
  assumes "new_prefix_ledger roots owners gen = Inr L0" "L = run prefix_step L0 xs"
  shows "validate_invariants L = Inr () \<and>
     (\<forall>x e. snd (prefix_step L x) = Inl e \<longrightarrow> fst (prefix_step L x) = L) \<and>
     pl_revision L = count_returned prefix_step L0 xs"
proof (intro conjI allI impI)
  have inv: "prefix_inv L" by (rule frontier_of_reachable [OF assms])
  show "validate_invariants L = Inr ()" by (rule validate_invariants_total [OF inv])
  show "fst (prefix_step L x) = L" if "snd (prefix_step L x) = Inl e" for x e
    by (rule prefix_ledger.step_raise [OF inv that])
  have "prefix_inv L0" "pl_revision L0 = 0" using new_prefix_ledger_inv [OF assms(1)] by auto
  then show "pl_revision L = count_returned prefix_step L0 xs"
    using prefix_ledger.run_revision [of L0 xs] by (simp add: assms(2))
qed

theorem prefix_ledger_transactional_witness:
  "pl_revision (run prefix_step demo_prefix_ledger (demo_split_ops @ [PSplit demo_root_id demo_children ''b'',
     PSplit demo_root_id demo_children ''a''])) = 4"
proof -
  have "count_returned prefix_step demo_prefix_ledger (demo_split_ops @
     [PSplit demo_root_id demo_children ''b'', PSplit demo_root_id demo_children ''a'']) = 4" by code_simp
  with prefix_ledger_transactional [OF demo_prefix_new refl] show ?thesis by metis
qed

text \<open>
  C10. No line is searched twice: in every reachable ledger the regions of two
  different frontier shards, in particular of shards of two owners, have no continuation in common.
\<close>

theorem prefix_frontier_disjoint:
  assumes "new_prefix_ledger roots owners gen = Inr L0" "L = run prefix_step L0 xs"
    and "frontier_for_owner L v = Inr fs" "frontier_for_owner L w = Inr gs"
    and "s \<in> set fs" "t \<in> set gs" "v \<noteq> w \<or> s \<noteq> t"
  shows "\<not> (prefix (ps_prefix s) line \<and> prefix (ps_prefix t) line)"
proof
  have inv: "prefix_inv L" by (rule frontier_of_reachable [OF assms(1,2)])
  note T = prefix_inv_tree [OF inv]
  note s = frontier_for_owner_leaf [OF inv assms(3,5)]
  note t = frontier_for_owner_leaf [OF inv assms(4,6)]
  assume "prefix (ps_prefix s) line \<and> prefix (ps_prefix t) line"
  then consider "strict_prefix (ps_prefix s) (ps_prefix t)" | "strict_prefix (ps_prefix t) (ps_prefix s)"
    | "ps_prefix s = ps_prefix t"
    using prefix_same_cases by (metis strict_prefix_def)
  then show False
  proof cases
    case 3
    then have "s = t" using tree_prefix_unique [OF T] s t by blast
    with assms(7) s t show False by simp
  qed (use tree_leaves_prefix_free [OF T] s t in blast)+
qed

theorem prefix_frontier_disjoint_witness:
  "let L = run prefix_step demo_prefix_ledger (demo_split_ops @ [PSplit demo_root_id demo_children ''a'']) in
   \<exists>fs gs s t. frontier_for_owner L ''a'' = Inr fs \<and> frontier_for_owner L ''b'' = Inr gs \<and>
     s \<in> set fs \<and> t \<in> set gs \<and> \<not> (prefix (ps_prefix s) [''d2d4''] \<and> prefix (ps_prefix t) [''d2d4''])"
proof -
  define L where "L = run prefix_step demo_prefix_ledger (demo_split_ops @ [PSplit demo_root_id demo_children ''a''])"
  define fs where "fs = (case frontier_for_owner L ''a'' of Inr fs \<Rightarrow> fs | Inl e \<Rightarrow> [])"
  define gs where "gs = (case frontier_for_owner L ''b'' of Inr fs \<Rightarrow> fs | Inl e \<Rightarrow> [])"
  have fs: "frontier_for_owner L ''a'' = Inr fs" "fs \<noteq> []" unfolding fs_def L_def by code_simp+
  have gs: "frontier_for_owner L ''b'' = Inr gs" "gs \<noteq> []" unfolding gs_def L_def by code_simp+
  have mem: "hd fs \<in> set fs" "hd gs \<in> set gs" using fs(2) gs(2) by simp_all
  have "\<not> (prefix (ps_prefix (hd fs)) [''d2d4''] \<and> prefix (ps_prefix (hd gs)) [''d2d4''])"
    by (rule prefix_frontier_disjoint [OF demo_prefix_new L_def fs(1) gs(1) mem]) simp
  with fs(1) gs(1) mem show ?thesis unfolding L_def [symmetric] Let_def by blast
qed

text \<open>
  C11. A split refines the abstract frontier: when it returns, the declared children are a
  non-empty sequence of distinct moves, the parent's region has been replaced by one leased region of
  the same owner for each of exactly these moves, in their order, and every other region is as it was.
\<close>

theorem split_refines_frontier:
  assumes "new_prefix_ledger roots owners gen = Inr L0" "L = run prefix_step L0 xs"
    and "split_shard L k child_moves w = (L', Inr ids)" "dict_get (pl_by_id L) k = Some parent"
  shows "\<exists>ms. child_moves = Seq (map PStr ms) \<and> ms \<noteq> [] \<and> distinct ms \<and> frontier_map L (ps_prefix parent) = Some (Some w, PSealed) \<and>
     frontier_map L' = (\<lambda>q. if q = ps_prefix parent then None
         else if \<exists>m \<in> set ms. q = ps_prefix parent @ [m] then Some (Some w, PLeased)
         else frontier_map L q) \<and>
     ids = map (\<lambda>m. shard_id_for (pl_generation L) (ps_prefix parent @ [m])) ms"
proof -
  have inv: "prefix_inv L" by (rule frontier_of_reachable [OF assms(1,2)])
  obtain p ms where req: "require_split L k child_moves w = Inr (p, ms)"
    and fin: "finish (commit_split L k (split_children L p w ms)) (map ps_id (split_children L p w ms)) = (L', Inr ids)"
    using assms(3) by (auto simp: split_shard_def raising_def split_children_def Let_def split: sum.splits)
  note r = require_split_Inr [OF req]
  have p: "p = parent" using r assms(4) by simp
  have finished: "finish (commit_split L k (split_children L p w ms)) (map ps_id (split_children L p w ms)) =
      ((commit_split L k (split_children L p w ms))\<lparr>pl_revision :=
        Suc (pl_revision (commit_split L k (split_children L p w ms)))\<rparr>, Inr (map ps_id (split_children L p w ms)))"
    by (rule finish_inv [OF split_inv(2) [OF inv req refl]])
  have L': "L' = (commit_split L k (split_children L p w ms))\<lparr>pl_revision :=
      Suc (pl_revision (commit_split L k (split_children L p w ms)))\<rparr>"
    "ids = map ps_id (split_children L p w ms)"
    using fin [unfolded finished] by simp_all
  have "frontier_map L' = frontier_map (commit_split L k (split_children L p w ms))"
    by (simp add: L'(1))
  moreover have "(k, parent) \<in> set (pl_by_id L)" using assms(4) tree_get [OF prefix_inv_tree [OF inv]] by blast
  from frontier_map_tree [OF prefix_inv_tree [OF inv] this] r p
  have "frontier_map L (ps_prefix parent) = Some (Some w, PSealed)" by simp
  moreover have "map ps_id (split_children L p w ms) =
      map (\<lambda>m. shard_id_for (pl_generation L) (ps_prefix parent @ [m])) ms"
    by (rule nth_equalityI) (simp_all add: split_children_def child_shard_def Let_def nth_enumerate_eq p)
  ultimately show ?thesis
    using split_frontier_map [OF inv req refl] r L'(2) p by auto
qed

theorem split_refines_frontier_witness:
  "let L = run prefix_step demo_prefix_ledger demo_split_ops in
   \<exists>L' ids. split_shard L demo_root_id demo_children ''a'' = (L', Inr ids) \<and>
     frontier_map L' [''e2e4''] = None"
proof -
  define L where "L = run prefix_step demo_prefix_ledger demo_split_ops"
  define L' where "L' = fst (split_shard L demo_root_id demo_children ''a'')"
  define ids where "ids = (case snd (split_shard L demo_root_id demo_children ''a'') of Inr ks \<Rightarrow> ks | Inl e \<Rightarrow> [])"
  define parent where "parent = the (dict_get (pl_by_id L) demo_root_id)"
  have "snd (split_shard L demo_root_id demo_children ''a'') = Inr ids" unfolding ids_def L_def by code_simp
  then have split: "split_shard L demo_root_id demo_children ''a'' = (L', Inr ids)"
    unfolding L'_def by (metis prod.collapse)
  have parent: "dict_get (pl_by_id L) demo_root_id = Some parent" "ps_prefix parent = [''e2e4'']"
    unfolding parent_def L_def by code_simp+
  from split_refines_frontier [OF demo_prefix_new L_def split parent(1)] parent(2) split
  show ?thesis unfolding L_def [symmetric] Let_def by auto
qed

text \<open>
  A transfer refines the abstract frontier: when it returns, exactly the named
  regions have changed, from leased of the first owner to leased of the second.
\<close>

theorem transfer_refines_frontier:
  assumes "new_prefix_ledger roots owners gen = Inr L0" "L = run prefix_step L0 xs"
    and "transfer_shards L (Seq ks) v w = (L', Inr r)"
  shows "(\<forall>k \<in> set ks. \<exists>s. dict_get (pl_by_id L) k = Some s \<and>
            frontier_map L (ps_prefix s) = Some (Some v, PLeased)) \<and>
     frontier_map L' = (\<lambda>q. if \<exists>k \<in> set ks. dict_get (pl_by_prefix L) q = Some k
         then Some (Some w, PLeased) else frontier_map L q)"
proof -
  have inv: "prefix_inv L" by (rule frontier_of_reachable [OF assms(1,2)])
  note T = prefix_inv_tree [OF inv]
  obtain ks' where req: "require_transfer L (Seq ks) v w = Inr ks'"
    and fin: "finish (L\<lparr>pl_by_id := transferred w ks' (pl_by_id L)\<rparr>) [] = (L', Inr r)"
    using assms(3) unfolding transfer_shards_def transferred_def [symmetric]
    by (cases "require_transfer L (Seq ks) v w") auto
  note rr = require_transfer_Inr [OF req]
  have "finish (L\<lparr>pl_by_id := transferred w ks' (pl_by_id L)\<rparr>) ([] :: string list) =
      ((L\<lparr>pl_by_id := transferred w ks' (pl_by_id L)\<rparr>)\<lparr>pl_revision := Suc (pl_revision L)\<rparr>, Inr [])"
    using finish_inv [OF transferred_inv [OF inv req], of "[] :: string list"] by simp
  with fin have "L' = (L\<lparr>pl_by_id := transferred w ks' (pl_by_id L)\<rparr>)\<lparr>pl_revision := Suc (pl_revision L)\<rparr>"
    by (simp only: prod.inject)
  then have "frontier_map L' = frontier_map (L\<lparr>pl_by_id := transferred w ks' (pl_by_id L)\<rparr>)"
    by (simp only: frontier_map_revision)
  moreover have "\<exists>s. dict_get (pl_by_id L) k = Some s \<and> frontier_map L (ps_prefix s) = Some (Some v, PLeased)"
    if k: "k \<in> set ks" for k
  proof -
    obtain s where s: "dict_get (pl_by_id L) k = Some s" "ps_child_ids s = []" "ps_state s = PLeased"
      "ps_owner s = Some v" using rr k by auto
    then have "(k, s) \<in> set (pl_by_id L)" using tree_get [OF T] by blast
    with frontier_map_tree [OF T this] s show ?thesis by auto
  qed
  ultimately show ?thesis using transfer_frontier_map [OF inv req] rr by simp
qed

theorem transfer_refines_frontier_witness:
  "let L = run prefix_step demo_prefix_ledger [PAssign demo_prefix_partition] in
   \<exists>L' r. transfer_shards L (Seq [demo_root_id]) ''a'' ''b'' = (L', Inr r) \<and>
     frontier_map L' [''e2e4''] = Some (Some ''b'', PLeased)"
proof -
  define L where "L = run prefix_step demo_prefix_ledger [PAssign demo_prefix_partition]"
  define L' where "L' = fst (transfer_shards L (Seq [demo_root_id]) ''a'' ''b'')"
  have "snd (transfer_shards L (Seq [demo_root_id]) ''a'' ''b'') = Inr []" unfolding L_def by code_simp
  then have transfer: "transfer_shards L (Seq [demo_root_id]) ''a'' ''b'' = (L', Inr [])"
    unfolding L'_def by (metis prod.collapse)
  have "dict_get (pl_by_prefix L) [''e2e4''] = Some demo_root_id" unfolding L_def by code_simp
  with transfer_refines_frontier [OF demo_prefix_new L_def transfer] transfer
  show ?thesis unfolding L_def [symmetric] Let_def by simp
qed

text \<open>
  C12. The recursive traversal ends and is exact: in a reachable ledger it lists every
  shard exactly once, the frontier is the set of shards without children, and the fuel is never exhausted.
\<close>

theorem prefix_traversal_exact:
  assumes "new_prefix_ledger roots owners gen = Inr L0" "L = run prefix_step L0 xs"
  shows "\<exists>ks fs. ordered_ids L = Inr ks \<and> distinct ks \<and> set ks = set (dict_keys (pl_by_id L)) \<and>
     frontier_shards L = Inr fs \<and> distinct (map ps_id fs) \<and>
     set fs = {s. (ps_id s, s) \<in> set (pl_by_id L) \<and> ps_child_ids s = []}"
proof -
  have inv: "prefix_inv L" by (rule frontier_of_reachable [OF assms])
  from ordered_ids_total [OF prefix_inv_tree [OF inv]] frontier_leaves [OF inv]
  show ?thesis by blast
qed

theorem prefix_traversal_exact_witness:
  "\<exists>ks. ordered_ids (run prefix_step demo_prefix_ledger
     (demo_split_ops @ [PSplit demo_root_id demo_children ''a''])) = Inr ks \<and> distinct ks"
  using prefix_traversal_exact [OF demo_prefix_new refl] by blast

text \<open>
  Looking a shard up inverts its identity: in a reachable ledger every shard is
  found under its identifier and under its prefix, both lookups return the same snapshot, its
  children are returned without error, and each child's parent is the shard.
\<close>

theorem prefix_lookup_roundtrip:
  assumes "new_prefix_ledger roots owners gen = Inr L0" "L = run prefix_step L0 xs"
    and "(k, s) \<in> set (pl_by_id L)"
  shows "get_shard L k = Inr (snapshot_shard s) \<and>
     get_by_prefix L (Seq (map PStr (ps_prefix s))) = Inr (snapshot_shard s) \<and>
     (\<exists>cs. shard_children L k = Inr cs \<and> length cs = length (ps_child_ids s)) \<and>
     (\<forall>c \<in> set (ps_child_ids s). shard_parent L c = Inr (Some (snapshot_shard s)))"
proof -
  have inv: "prefix_inv L" by (rule frontier_of_reachable [OF assms(1,2)])
  note T = prefix_inv_tree [OF inv]
  have k: "dict_get (pl_by_id L) k = Some s" using assms(3) tree_get [OF T] by blast
  have bp: "dict_get (pl_by_prefix L) (ps_prefix s) = Some k" using tree_by_prefix [OF T] assms(3) by blast
  have "rmap validate_move (map PStr (ps_prefix s)) = Inr (ps_prefix s)"
    using tree_key(4) [OF T assms(3)] by (simp add: rmap_eq_Inr list_all2_conv_all_nth)
  then have "get_by_prefix L (Seq (map PStr (ps_prefix s))) = Inr (snapshot_shard s)"
    using tree_key(3) [OF T assms(3)] bp k
    by (simp add: get_by_prefix_def shard_by_prefix_def lookup_shard_def)
  moreover have req: "require_shard L k = Inr s" using k by simp
  then have "get_shard L k = Inr (snapshot_shard s)" by (simp add: get_shard_def del: require_shard_Inr)
  moreover have child: "\<exists>t. dict_get (pl_by_id L) c = Some t \<and> ps_parent_id t = Some k"
    if "c \<in> set (ps_child_ids s)" for c
    using tree_child [OF T assms(3) that] tree_get [OF T] by blast
  then have "rmap (lookup_shard (pl_by_id L)) (ps_child_ids s) =
      Inr (map (\<lambda>k. the (dict_get (pl_by_id L) k)) (ps_child_ids s))"
    by (intro rmap_lookup) fastforce
  then have "\<exists>cs. shard_children L k = Inr cs \<and> length cs = length (ps_child_ids s)"
    using req by (simp add: shard_children_def del: require_shard_Inr)
  moreover have "shard_parent L c = Inr (Some (snapshot_shard s))" if c: "c \<in> set (ps_child_ids s)" for c
  proof -
    obtain t where "require_shard L c = Inr t" "ps_parent_id t = Some k" using child [OF c] by auto
    then show ?thesis using k by (simp add: shard_parent_def lookup_shard_def del: require_shard_Inr)
  qed
  ultimately show ?thesis by blast
qed

theorem prefix_lookup_roundtrip_witness:
  "get_by_prefix demo_prefix_ledger (Seq [PStr ''e2e4'']) = get_shard demo_prefix_ledger demo_root_id"
proof -
  define s where "s = the (dict_get (pl_by_id demo_prefix_ledger) demo_root_id)"
  have "dict_get (pl_by_id demo_prefix_ledger) demo_root_id = Some s" "ps_prefix s = [''e2e4'']"
    unfolding s_def by code_simp+
  then have "(demo_root_id, s) \<in> set (pl_by_id (run prefix_step demo_prefix_ledger []))"
    by (auto dest: map_of_SomeD)
  from prefix_lookup_roundtrip [OF demo_prefix_new refl this] \<open>ps_prefix s = [''e2e4'']\<close>
  show ?thesis by simp
qed

end
