(* ===== verification/Journal.thy ===== *)
theory Journal
  imports PyVal Sha256
begin

text \<open>
  \<^verbatim>\<open>deploy/lichess/reconcile.py\<close> and \<^verbatim>\<open>deploy/lichess/move_journal.py\<close>: the
  reconciliation of the server's move history with the pending submission, and
  the durable journal of move intents.  Every method is one SQLite transaction,
  so it is one atomic step that commits or rolls back.

  The chess library is a parameter: \<open>ch_parse\<close> is \<open>Move.from_uci(s).uci()\<close>
  (\<open>None\<close> for \<open>ValueError\<close>), \<open>ch_legal ms m\<close> says that \<open>m\<close> is not the null
  move and is legal on the standard board after the moves \<open>ms\<close>, and
  \<open>ch_start\<close> is \<open>chess.STARTING_FEN\<close>.  JSON text of a list of strings is
  represented by the list; the time stamps of the event log are left out.
\<close>

section \<open>Reconciliation\<close>

record chess_lib =
  ch_parse :: "string \<Rightarrow> string option"
  ch_legal :: "string list \<Rightarrow> string \<Rightarrow> bool"
  ch_start :: string

datatype journal_error =
    HistoryShape
  | HistoryEntry
  | HistoryMalformed
  | HistoryIllegal
  | HistoryConflict
  | PendingElsewhere
  | PendingWithoutMove
  | ConflictingMove
  | SnapshotInvalid journal_error
  | SnapshotMissingMoves
  | GameIdMissing
  | TerminalReopened
  | NeverSubmitted
  | SessionFenced
  | EpochInvalid
  | CooldownInvalid
  | NoAuthority
  | GameTerminal
  | Unresolved
  | AlreadyRecorded
  | NoIntent
  | UnsafeTransition string string

text \<open>The loop over the entries; \<open>done\<close> are the moves already pushed on the board.\<close>

fun push_history :: "chess_lib \<Rightarrow> string list \<Rightarrow> pyval list \<Rightarrow> journal_error + string list" where
  "push_history C pushed [] = Inr pushed"
| "push_history C pushed (v # vs) = (case as_str v of
      None \<Rightarrow> Inl HistoryEntry
    | Some item \<Rightarrow> (case ch_parse C item of
        None \<Rightarrow> Inl HistoryMalformed
      | Some m \<Rightarrow> if \<not> ch_legal C pushed m then Inl HistoryIllegal
          else push_history C (pushed @ [m]) vs))"

definition canonical_history :: "chess_lib \<Rightarrow> pyval \<Rightarrow> journal_error + string list" where
  "canonical_history C v = (case v of
      PStr s \<Rightarrow> push_history C [] (map PStr (py_split s))
    | PList vs \<Rightarrow> push_history C [] vs
    | _ \<Rightarrow> Inl HistoryShape)"

definition history_position_id :: "chess_lib \<Rightarrow> pyval \<Rightarrow> journal_error + string" where
  "history_position_id C v = rbind (canonical_history C v) (\<lambda>history.
     Inr (''pos-'' @ take 24 (sha256_hex (''standard|'' @ ch_start C @ ''|'' @ py_join '' '' history))))"

definition is_prefix :: "string list \<Rightarrow> string list \<Rightarrow> bool" where
  "is_prefix prior newer \<longleftrightarrow> take (length prior) newer = prior"

datatype reconciliation = NO_PENDING_INTENT | UNKNOWN_ACK_OUTCOME | SERVER_CONFIRMED

definition classify_snapshot ::
    "string list \<Rightarrow> string list \<Rightarrow> string list option \<Rightarrow> string option \<Rightarrow> journal_error + reconciliation" where
  "classify_snapshot previous incoming intent_history intent_move =
     (if \<not> is_prefix previous incoming then Inl HistoryConflict
      else case intent_history of
        None \<Rightarrow> Inr NO_PENDING_INTENT
      | Some ih \<Rightarrow>
          if \<not> is_prefix ih incoming then Inl PendingElsewhere
          else (case intent_move of
              None \<Rightarrow> Inl PendingWithoutMove
            | Some m \<Rightarrow>
                if length incoming \<le> length ih then Inr UNKNOWN_ACK_OUTCOME
                else if incoming ! length ih \<noteq> m then Inl ConflictingMove
                else Inr SERVER_CONFIRMED))"

section \<open>The journal\<close>

datatype intent_status = PREPARED | SUBMITTING | ACK_OBSERVED | UNKNOWN_ACK | CONFIRMED

record game_row =
  gm_history :: "string list"
  gm_terminal :: bool

record intent =
  in_history :: "string list"
  in_position_id :: string
  in_move :: string
  in_status :: intent_status
  in_epoch :: string

datatype journal_event =
    OwnerActivated
  | CooldownSet pyfloat string
  | ServerConfirmed nat string
  | ServerSnapshot "string list" reconciliation bool
  | MovePrepared nat string string
  | IntentStatus intent_status nat string

record event_row =
  ev_epoch :: string
  ev_game :: "string option"
  ev_event :: journal_event

text \<open>The five tables; the primary key of an intent is the game and the ply before the move.\<close>

record journal =
  j_owner :: "string option"
  j_games :: "(string \<times> game_row) list"
  j_intents :: "((string \<times> nat) \<times> intent) list"
  j_cooldown :: "(pyfloat \<times> string) option"
  j_events :: "event_row list"

definition empty_journal :: journal where
  "empty_journal = \<lparr>j_owner = None, j_games = [], j_intents = [], j_cooldown = None, j_events = []\<rparr>"

definition check_epoch :: "journal \<Rightarrow> string \<Rightarrow> journal_error + unit" where
  "check_epoch J epoch = ensure (j_owner J = Some epoch) SessionFenced"

definition log_event :: "string \<Rightarrow> string option \<Rightarrow> journal_event \<Rightarrow> journal \<Rightarrow> journal" where
  "log_event epoch g e J = J\<lparr>j_events := j_events J @ [\<lparr>ev_epoch = epoch, ev_game = g, ev_event = e\<rparr>]\<rparr>"

definition activate_session :: "journal \<Rightarrow> pyval \<Rightarrow> journal \<times> (journal_error + unit)" where
  "activate_session J v = (case as_str v of
      None \<Rightarrow> (J, Inl EpochInvalid)
    | Some epoch \<Rightarrow>
        if length epoch < 16 then (J, Inl EpochInvalid)
        else (log_event epoch None OwnerActivated (J\<lparr>j_owner := Some epoch\<rparr>), Inr ()))"

definition cooldown_left :: "journal \<Rightarrow> string \<Rightarrow> pyfloat \<Rightarrow> journal_error + pyfloat" where
  "cooldown_left J epoch now = rbind (check_epoch J epoch) (\<lambda>_.
     Inr (case j_cooldown J of None \<Rightarrow> Fin 0 | Some (until, cause) \<Rightarrow> f_max (Fin 0) (f_sub until now)))"

definition establish_cooldown ::
    "journal \<Rightarrow> string \<Rightarrow> pyfloat \<Rightarrow> string \<Rightarrow> pyfloat \<Rightarrow> journal \<times> (journal_error + unit)" where
  "establish_cooldown J epoch seconds cause now =
     (if \<not> (f_le (Fin 60) seconds \<and> f_le seconds (Fin 86400)) then (J, Inl CooldownInvalid)
      else raising J (check_epoch J epoch) (\<lambda>_.
        let previous = (case j_cooldown J of None \<Rightarrow> Fin 0 | Some (until, c) \<Rightarrow> until);
            until = f_max (f_add now seconds) previous in
        (log_event epoch None (CooldownSet until cause) (J\<lparr>j_cooldown := Some (until, cause)\<rparr>), Inr ())))"

text \<open>The unconfirmed intents of a game; the query takes the one with the least ply.\<close>

definition unconfirmed :: "journal \<Rightarrow> string \<Rightarrow> ((string \<times> nat) \<times> intent) list" where
  "unconfirmed J g = filter (\<lambda>((g', ply), i). g' = g \<and> in_status i \<noteq> CONFIRMED) (j_intents J)"

definition pending_intent :: "journal \<Rightarrow> string \<Rightarrow> (nat \<times> intent) option" where
  "pending_intent J g = (case sort_key (\<lambda>((g', ply), i). ply) (unconfirmed J g) of
      [] \<Rightarrow> None | ((g', ply), i) # rest \<Rightarrow> Some (ply, i))"

definition set_status :: "string \<times> nat \<Rightarrow> intent_status \<Rightarrow> journal \<Rightarrow> journal" where
  "set_status k st J = J\<lparr>j_intents := map (\<lambda>(k', i). (k', if k' = k then i\<lparr>in_status := st\<rparr> else i)) (j_intents J)\<rparr>"

definition snapshot_terminal :: "(string \<times> pyval) list \<Rightarrow> bool" where
  "snapshot_terminal d = (case dict_get d ''status'' of
      None \<Rightarrow> False | Some v \<Rightarrow> v \<noteq> PNone \<and> v \<noteq> PStr ''started'')"

definition confirm_intent :: "string \<Rightarrow> string \<Rightarrow> (nat \<times> intent) option \<Rightarrow> reconciliation \<Rightarrow> journal \<Rightarrow> journal_error + journal" where
  "confirm_intent epoch g pending outcome J = (case pending of
      Some (ply, i) \<Rightarrow>
        if outcome = SERVER_CONFIRMED
        then if in_status i = PREPARED then Inl NeverSubmitted
             else Inr (log_event epoch (Some g) (ServerConfirmed ply (in_move i)) (set_status (g, ply) CONFIRMED J))
        else Inr J
    | None \<Rightarrow> Inr J)"

definition snapshot_result :: "'e + 'a \<Rightarrow> ('e \<Rightarrow> 'f) \<Rightarrow> 'f + 'a" where
  "snapshot_result m f = (case m of Inl e \<Rightarrow> Inl (f e) | Inr x \<Rightarrow> Inr x)"

definition observe :: "chess_lib \<Rightarrow> journal \<Rightarrow> string \<Rightarrow> pyval \<Rightarrow> pyval \<Rightarrow>
    journal \<times> (journal_error + reconciliation)" where
  "observe C J epoch game_id state = (case state of
      PDict d \<Rightarrow> (case dict_get d ''moves'' of
        None \<Rightarrow> (J, Inl SnapshotMissingMoves)
      | Some moves \<Rightarrow>
          raising J (snapshot_result (canonical_history C moves) SnapshotInvalid) (\<lambda>latest.
            case as_str game_id of
              None \<Rightarrow> (J, Inl GameIdMissing)
            | Some g \<Rightarrow>
                if g = [] then (J, Inl GameIdMissing)
                else raising J (check_epoch J epoch) (\<lambda>_.
                  let previous = dict_get (j_games J) g;
                      prior = (case previous of None \<Rightarrow> [] | Some row \<Rightarrow> gm_history row);
                      terminal = snapshot_terminal d in
                  if (case previous of None \<Rightarrow> False | Some row \<Rightarrow> gm_terminal row) \<and> \<not> terminal
                  then (J, Inl TerminalReopened)
                  else let pending = pending_intent J g in
                    raising J (snapshot_result (classify_snapshot prior latest
                        (map_option (\<lambda>(ply, i). in_history i) pending)
                        (map_option (\<lambda>(ply, i). in_move i) pending)) SnapshotInvalid) (\<lambda>outcome.
                    raising J (confirm_intent epoch g pending outcome
                        (J\<lparr>j_games := dict_set g \<lparr>gm_history = latest, gm_terminal = terminal\<rparr> (j_games J)\<rparr>))
                      (\<lambda>J'. (log_event epoch (Some g) (ServerSnapshot latest outcome terminal) J', Inr outcome))))))
    | _ \<Rightarrow> (J, Inl SnapshotMissingMoves))"

definition assert_ready :: "chess_lib \<Rightarrow> journal \<Rightarrow> string \<Rightarrow> string \<Rightarrow> string list \<Rightarrow> journal_error + unit" where
  "assert_ready C J epoch g history =
     rbind (canonical_history C (PList (map PStr history))) (\<lambda>normalized.
     rbind (check_epoch J epoch) (\<lambda>_.
       case dict_get (j_games J) g of
         None \<Rightarrow> Inl NoAuthority
       | Some row \<Rightarrow>
           if gm_history row \<noteq> normalized then Inl NoAuthority
           else if gm_terminal row then Inl GameTerminal
           else if unconfirmed J g \<noteq> [] then Inl Unresolved
           else Inr ()))"

definition prepare :: "chess_lib \<Rightarrow> journal \<Rightarrow> string \<Rightarrow> string \<Rightarrow> pyval \<Rightarrow> string \<Rightarrow>
    journal \<times> (journal_error + string)" where
  "prepare C J epoch g history move =
     raising J (canonical_history C history) (\<lambda>before.
     raising J (history_position_id C (PList (map PStr before))) (\<lambda>pos.
     raising J (check_epoch J epoch) (\<lambda>_.
       case dict_get (j_games J) g of
         None \<Rightarrow> (J, Inl NoAuthority)
       | Some row \<Rightarrow>
           if gm_history row \<noteq> before \<or> gm_terminal row then (J, Inl NoAuthority)
           else if unconfirmed J g \<noteq> [] then (J, Inl Unresolved)
           else if dict_get (j_intents J) (g, length before) \<noteq> None then (J, Inl AlreadyRecorded)
           else (log_event epoch (Some g) (MovePrepared (length before) pos move)
                  (J\<lparr>j_intents := j_intents J @ [((g, length before),
                      \<lparr>in_history = before, in_position_id = pos, in_move = move, in_status = PREPARED,
                       in_epoch = epoch\<rparr>)]\<rparr>), Inr pos))))"

fun status_name :: "intent_status \<Rightarrow> string" where
  "status_name PREPARED = ''PREPARED''"
| "status_name SUBMITTING = ''SUBMITTING''"
| "status_name ACK_OBSERVED = ''ACK_OBSERVED''"
| "status_name UNKNOWN_ACK = ''UNKNOWN_ACK''"
| "status_name CONFIRMED = ''CONFIRMED''"

definition change_status :: "journal \<Rightarrow> string \<Rightarrow> string \<Rightarrow> string \<Rightarrow> string list \<Rightarrow> intent_status \<Rightarrow>
    intent_status list \<Rightarrow> journal \<times> (journal_error + unit)" where
  "change_status J epoch g uci before after allowed =
     raising J (check_epoch J epoch) (\<lambda>_.
       case dict_get (j_intents J) (g, length before) of
         None \<Rightarrow> (J, Inl NoIntent)
       | Some i \<Rightarrow>
           if in_move i \<noteq> uci \<or> in_history i \<noteq> before then (J, Inl NoIntent)
           else if in_status i = CONFIRMED \<and> (after = ACK_OBSERVED \<or> after = UNKNOWN_ACK) then (J, Inr ())
           else if in_status i \<notin> set allowed
             then (J, Inl (UnsafeTransition (status_name (in_status i)) (status_name after)))
           else (log_event epoch (Some g) (IntentStatus after (length before) uci)
                  (set_status (g, length before) after J), Inr ()))"

definition latest_intent :: "journal \<Rightarrow> string \<Rightarrow> (nat \<times> intent) option" where
  "latest_intent J g = (case rev (sort_key (\<lambda>((g', ply), i). ply) (filter (\<lambda>((g', ply), i). g' = g) (j_intents J))) of
      [] \<Rightarrow> None | ((g', ply), i) # rest \<Rightarrow> Some (ply, i))"

definition journal_intent :: "journal \<Rightarrow> string \<Rightarrow> string \<Rightarrow> string list option \<Rightarrow>
    journal_error + (nat \<times> intent) option" where
  "journal_intent J epoch g before = rbind (check_epoch J epoch) (\<lambda>_. Inr (case before of
      None \<Rightarrow> latest_intent J g
    | Some h \<Rightarrow> map_option (\<lambda>i. (length h, i)) (dict_get (j_intents J) (g, length h))))"

text \<open>
  The operations that the bridge performs.  The status changes are the ones of
  \<^verbatim>\<open>guarded_transport.guarded_post\<close>: a prepared intent is submitted, a submitted
  one gets an acknowledgement or an unknown outcome.
\<close>

datatype post_outcome = Acknowledged | Uncertain

fun outcome_status :: "post_outcome \<Rightarrow> intent_status" where
  "outcome_status Acknowledged = ACK_OBSERVED"
| "outcome_status Uncertain = UNKNOWN_ACK"

datatype journal_op =
    JActivate pyval
  | JObserve string pyval pyval
  | JPrepare string string pyval string
  | JSubmit string string string "string list"
  | JOutcome string string string "string list" post_outcome
  | JCooldown string pyfloat string pyfloat

definition submit_intent :: "journal \<Rightarrow> string \<Rightarrow> string \<Rightarrow> string \<Rightarrow> string list \<Rightarrow> journal \<times> (journal_error + unit)" where
  "submit_intent J epoch g uci before = change_status J epoch g uci before SUBMITTING [PREPARED]"

definition record_outcome :: "journal \<Rightarrow> string \<Rightarrow> string \<Rightarrow> string \<Rightarrow> string list \<Rightarrow> post_outcome \<Rightarrow>
    journal \<times> (journal_error + unit)" where
  "record_outcome J epoch g uci before out = change_status J epoch g uci before (outcome_status out) [SUBMITTING]"

definition forget :: "'s \<times> ('e + 'a) \<Rightarrow> 's \<times> ('e + unit)" where
  "forget r = (fst r, case snd r of Inl e \<Rightarrow> Inl e | Inr x \<Rightarrow> Inr ())"

fun journal_step :: "chess_lib \<Rightarrow> journal \<Rightarrow> journal_op \<Rightarrow> journal \<times> (journal_error + unit)" where
  "journal_step C J (JActivate v) = activate_session J v"
| "journal_step C J (JObserve epoch g state) = forget (observe C J epoch g state)"
| "journal_step C J (JPrepare epoch g history move) = forget (prepare C J epoch g history move)"
| "journal_step C J (JSubmit epoch g uci before) = submit_intent J epoch g uci before"
| "journal_step C J (JOutcome epoch g uci before out) = record_outcome J epoch g uci before out"
| "journal_step C J (JCooldown epoch seconds cause now) = establish_cooldown J epoch seconds cause now"

section \<open>Reconciliation is sound\<close>

lemma is_prefix_eq [simp]: "is_prefix p q \<longleftrightarrow> prefix p q"
  unfolding is_prefix_def by (metis append_eq_conv_conj prefix_def take_is_prefix)

lemma classify_snapshot_Inr:
  "classify_snapshot prior latest ih im = Inr r \<longleftrightarrow> prefix prior latest \<and>
     (case ih of None \<Rightarrow> r = NO_PENDING_INTENT
      | Some h \<Rightarrow> prefix h latest \<and> (\<exists>m. im = Some m \<and>
          (if length latest \<le> length h then r = UNKNOWN_ACK_OUTCOME
           else latest ! length h = m \<and> r = SERVER_CONFIRMED)))"
  by (auto simp: classify_snapshot_def split: option.splits)

section \<open>The invariant of the journal\<close>

definition history_of :: "journal \<Rightarrow> string \<Rightarrow> string list" where
  "history_of J g = (case dict_get (j_games J) g of None \<Rightarrow> [] | Some row \<Rightarrow> gm_history row)"

definition submitted_moves :: "journal \<Rightarrow> string \<Rightarrow> nat \<Rightarrow> string list" where
  "submitted_moves J g ply = List.map_filter (\<lambda>e. case ev_event e of
      IntentStatus st p m \<Rightarrow> if st = SUBMITTING \<and> p = ply \<and> ev_game e = Some g then Some m else None
    | _ \<Rightarrow> None) (j_events J)"

definition intent_ok :: "journal \<Rightarrow> (string \<times> nat) \<times> intent \<Rightarrow> bool" where
  "intent_ok J = (\<lambda>((g, ply), i). length (in_history i) = ply \<and> prefix (in_history i) (history_of J g) \<and>
     dict_get (j_games J) g \<noteq> None \<and>
     (in_status i = CONFIRMED \<longrightarrow> ply < length (history_of J g) \<and> history_of J g ! ply = in_move i))"

definition journal_inv :: "journal \<Rightarrow> bool" where
  "journal_inv J \<longleftrightarrow> dict_ok (j_games J) \<and> dict_ok (j_intents J) \<and>
     (\<forall>ki \<in> set (j_intents J). intent_ok J ki) \<and>
     (\<forall>g. length (unconfirmed J g) \<le> 1) \<and>
     (\<forall>g ply. submitted_moves J g ply = (case dict_get (j_intents J) (g, ply) of
        None \<Rightarrow> [] | Some i \<Rightarrow> if in_status i = PREPARED then [] else [in_move i]))"

lemma log_event_simps [simp]:
  "j_owner (log_event ep g e J) = j_owner J" "j_games (log_event ep g e J) = j_games J"
  "j_intents (log_event ep g e J) = j_intents J" "j_cooldown (log_event ep g e J) = j_cooldown J"
  "j_events (log_event ep g e J) = j_events J @ [\<lparr>ev_epoch = ep, ev_game = g, ev_event = e\<rparr>]"
  by (simp_all add: log_event_def)

lemma set_status_simps [simp]:
  "j_owner (set_status k st J) = j_owner J" "j_games (set_status k st J) = j_games J"
  "j_cooldown (set_status k st J) = j_cooldown J" "j_events (set_status k st J) = j_events J"
  "j_intents (set_status k st J) = map (\<lambda>(k', i). (k', if k' = k then i\<lparr>in_status := st\<rparr> else i)) (j_intents J)"
  by (simp_all add: set_status_def)

lemma set_status_get:
  "dict_get (j_intents (set_status k st J)) k' =
     map_option (\<lambda>i. if k' = k then i\<lparr>in_status := st\<rparr> else i) (dict_get (j_intents J) k')"
proof -
  have "dict_get (map (\<lambda>(k', i). (k', if k' = k then i\<lparr>in_status := st\<rparr> else i)) d) k' =
      map_option (\<lambda>i. if k' = k then i\<lparr>in_status := st\<rparr> else i) (dict_get d k')" for d
    by (induction d) auto
  then show ?thesis by simp
qed

lemma submitted_log [simp]:
  "submitted_moves (log_event ep g' e J) g ply = submitted_moves J g ply @
     (case e of IntentStatus st p m \<Rightarrow> if st = SUBMITTING \<and> p = ply \<and> g' = Some g then [m] else [] | _ \<Rightarrow> [])"
  by (simp add: submitted_moves_def map_filter_def split: journal_event.splits)

lemma submitted_cong: "j_events J = j_events J' \<Longrightarrow> submitted_moves J g ply = submitted_moves J' g ply"
  by (simp add: submitted_moves_def)

text \<open>The events and the intents of a journal that differs only elsewhere.\<close>

lemma journal_inv_cong:
  assumes "journal_inv J" "j_games J' = j_games J" "j_intents J' = j_intents J"
    and "\<And>g ply. submitted_moves J' g ply = submitted_moves J g ply"
  shows "journal_inv J'"
proof -
  have "history_of J' = history_of J" by (simp add: history_of_def fun_eq_iff assms(2))
  moreover have "unconfirmed J' = unconfirmed J" by (simp add: unconfirmed_def fun_eq_iff assms(3))
  ultimately show ?thesis using assms by (auto simp: journal_inv_def intent_ok_def)
qed

lemma journal_inv_intent:
  assumes "journal_inv J" "dict_get (j_intents J) (g, ply) = Some i"
  shows "((g, ply), i) \<in> set (j_intents J)" "intent_ok J ((g, ply), i)"
  using assms by (auto simp: journal_inv_def dest: map_of_SomeD)

text \<open>A change of status that neither prepares nor unconfirms.\<close>

lemma unconfirmed_set_status:
  assumes "dict_get (j_intents J) (g, ply) = Some i" "dict_ok (j_intents J)"
    and "in_status i \<noteq> CONFIRMED \<or> st = CONFIRMED"
  shows "length (unconfirmed (set_status (g, ply) st J) g') \<le> length (unconfirmed J g')"
proof -
  have only: "i' = i" if "((g, ply), i') \<in> set (j_intents J)" for i'
    using assms(1,2) that dict_get_mem by fastforce
  let ?f = "\<lambda>(k', i). (k', if k' = (g, ply) then i\<lparr>in_status := st\<rparr> else i)"
  let ?P = "\<lambda>((g'', ply), i). g'' = g' \<and> in_status i \<noteq> CONFIRMED"
  have "length (filter ?P (map ?f d)) \<le> length (filter ?P d)"
    if "\<forall>i'. ((g, ply), i') \<in> set d \<longrightarrow> i' = i" for d
    using that assms(3) by (induction d) (auto split: if_splits)
  with only show ?thesis by (simp add: unconfirmed_def)
qed

lemma set_status_inv:
  assumes inv: "journal_inv J" and i: "dict_get (j_intents J) (g, ply) = Some i"
    and st: "in_status i \<noteq> CONFIRMED" "st \<noteq> PREPARED"
    and confirmed: "st = CONFIRMED \<Longrightarrow> ply < length (history_of J g) \<and> history_of J g ! ply = in_move i"
    and ev: "submitted_moves (log_event ep gg e J) g ply = [in_move i]"
      "\<And>g' ply'. (g', ply') \<noteq> (g, ply) \<Longrightarrow>
         submitted_moves (log_event ep gg e J) g' ply' = submitted_moves J g' ply'"
  shows "journal_inv (log_event ep gg e (set_status (g, ply) st J))"
proof -
  let ?J = "log_event ep gg e (set_status (g, ply) st J)"
  have ok: "dict_ok (j_intents J)" "dict_ok (j_games J)" using inv by (simp_all add: journal_inv_def)
  have hist: "history_of ?J = history_of J" by (simp add: history_of_def fun_eq_iff)
  have intents: "intent_ok ?J ki" if "ki \<in> set (j_intents ?J)" for ki
  proof -
    obtain k i' where ki: "(k, i') \<in> set (j_intents J)" "ki = (k, if k = (g, ply) then i'\<lparr>in_status := st\<rparr> else i')"
      using \<open>ki \<in> set (j_intents ?J)\<close> by auto
    then have ok': "intent_ok J (k, i')" using inv by (auto simp: journal_inv_def)
    show ?thesis
    proof (cases "k = (g, ply)")
      case True
      with ki(1) i ok(1) have "i' = i" using dict_get_mem by fastforce
      with ok' confirmed show ?thesis by (auto simp: ki(2) True intent_ok_def hist)
    next
      case False
      with ok' show ?thesis by (auto simp: ki(2) intent_ok_def hist)
    qed
  qed
  have "length (unconfirmed ?J g') \<le> 1" for g'
  proof -
    have "unconfirmed ?J g' = unconfirmed (set_status (g, ply) st J) g'" by (simp add: unconfirmed_def)
    with unconfirmed_set_status [OF i ok(1), of st g'] st(1) inv show ?thesis
      by (metis journal_inv_def le_trans)
  qed
  moreover have "submitted_moves ?J g' ply' = (case dict_get (j_intents ?J) (g', ply') of
      None \<Rightarrow> [] | Some i \<Rightarrow> if in_status i = PREPARED then [] else [in_move i])" for g' ply'
  proof -
    have sub: "submitted_moves ?J g' ply' = submitted_moves (log_event ep gg e J) g' ply'"
      by (rule submitted_cong) simp
    have get: "dict_get (j_intents ?J) (g', ply') =
        map_option (\<lambda>i. if (g', ply') = (g, ply) then i\<lparr>in_status := st\<rparr> else i) (dict_get (j_intents J) (g', ply'))"
      using set_status_get [of "(g, ply)" st J "(g', ply')"] by simp
    show ?thesis
    proof (cases "(g', ply') = (g, ply)")
      case True
      with i ev(1) st(2) show ?thesis unfolding sub get by simp
    next
      case False
      then have same: "submitted_moves (log_event ep gg e J) g' ply' = submitted_moves J g' ply'" by (rule ev(2))
      have "submitted_moves J g' ply' = (case dict_get (j_intents J) (g', ply') of
          None \<Rightarrow> [] | Some i \<Rightarrow> if in_status i = PREPARED then [] else [in_move i])"
        using inv unfolding journal_inv_def by blast
      with False show ?thesis unfolding sub get same by (cases "dict_get (j_intents J) (g', ply')") auto
    qed
  qed
  moreover have "dict_ok (j_intents ?J)" using ok(1) by (simp add: comp_def case_prod_unfold)
  ultimately show ?thesis using intents ok(2) unfolding journal_inv_def by simp
qed

section \<open>Every operation keeps the invariant\<close>

lemma pending_intent_Some:
  assumes "journal_inv J" "pending_intent J g = Some (ply, i)"
  shows "dict_get (j_intents J) (g, ply) = Some i \<and> in_status i \<noteq> CONFIRMED"
proof -
  have "((g', ply'), i') \<in> set (unconfirmed J g) \<Longrightarrow> g' = g" for g' ply' i' by (simp add: unconfirmed_def)
  moreover have "((g', ply), i) \<in> set (unconfirmed J g)"
    if "sort_key (\<lambda>((g', ply), i). ply) (unconfirmed J g) = ((g', ply), i) # rest" for g' rest
    by (metis that list.set_intros(1) set_sort)
  ultimately have "((g, ply), i) \<in> set (unconfirmed J g)"
    using assms(2) by (auto simp: pending_intent_def split: list.splits prod.splits)
  then have "((g, ply), i) \<in> set (j_intents J)" "in_status i \<noteq> CONFIRMED" by (auto simp: unconfirmed_def)
  with assms(1) show ?thesis by (simp add: journal_inv_def dict_get_mem)
qed

lemma history_of_set [simp]:
  "history_of (J\<lparr>j_games := dict_set g row (j_games J)\<rparr>) g' = (if g' = g then gm_history row else history_of J g')"
  by (simp add: history_of_def)

lemma prefix_nth: "prefix xs ys \<Longrightarrow> n < length xs \<Longrightarrow> ys ! n = xs ! n"
  by (auto simp: prefix_def nth_append)

lemma games_update_inv:
  assumes inv: "journal_inv J" and pre: "prefix (history_of J g) latest"
  shows "journal_inv (J\<lparr>j_games := dict_set g \<lparr>gm_history = latest, gm_terminal = t\<rparr> (j_games J)\<rparr>)" (is "journal_inv ?J")
proof -
  have hist: "prefix (history_of J g') (history_of ?J g')" for g' using pre by simp
  have "intent_ok ?J ki" if ki: "ki \<in> set (j_intents J)" for ki
  proof -
    have "intent_ok J ki" using inv ki by (auto simp: journal_inv_def)
    then show ?thesis
      using hist prefix_nth [OF hist] prefix_length_le [OF hist]
      by (auto simp: intent_ok_def simp del: history_of_set intro: prefix_order.trans less_le_trans)
  qed
  moreover have "unconfirmed ?J = unconfirmed J" by (simp add: unconfirmed_def fun_eq_iff)
  moreover have "submitted_moves ?J g' ply = submitted_moves J g' ply" for g' ply by (rule submitted_cong) simp
  moreover have "dict_ok (dict_set g \<lparr>gm_history = latest, gm_terminal = t\<rparr> (j_games J))"
    using inv by (auto simp: journal_inv_def)
  ultimately show ?thesis using inv by (simp add: journal_inv_def)
qed

lemma snapshot_result_Inr [simp]: "snapshot_result m f = Inr x \<longleftrightarrow> m = Inr x"
  by (cases m) (auto simp: snapshot_result_def)

lemma snapshot_result_Inl [simp]: "snapshot_result m f = Inl e \<longleftrightarrow> (\<exists>e'. m = Inl e' \<and> e = f e')"
  by (cases m) (auto simp: snapshot_result_def)

lemma raising_Inr_iff: "raising s m k = (s', Inr r) \<longleftrightarrow> (\<exists>v. m = Inr v \<and> k v = (s', Inr r))"
  by (cases m) auto

lemma observe_Inr:
  assumes "observe C J epoch gid state = (J', Inr outcome)"
  shows "\<exists>g latest t J1. j_owner J = Some epoch \<and> gid = PStr g \<and>
     (case dict_get (j_games J) g of None \<Rightarrow> True | Some row \<Rightarrow> gm_terminal row \<longrightarrow> t) \<and>
     classify_snapshot (history_of J g) latest (map_option (\<lambda>(ply, i). in_history i) (pending_intent J g))
       (map_option (\<lambda>(ply, i). in_move i) (pending_intent J g)) = Inr outcome \<and>
     confirm_intent epoch g (pending_intent J g) outcome
       (J\<lparr>j_games := dict_set g \<lparr>gm_history = latest, gm_terminal = t\<rparr> (j_games J)\<rparr>) = Inr J1 \<and>
     J' = log_event epoch (Some g) (ServerSnapshot latest outcome t) J1"
proof -
  obtain d moves latest g where d: "state = PDict d" "dict_get d ''moves'' = Some moves"
    "canonical_history C moves = Inr latest" "as_str gid = Some g"
    using assms by (auto simp: observe_def raising_Inr_iff split: pyval.splits option.splits if_splits)
  have gid: "gid = PStr g" using d(4) by (cases gid) auto
  show ?thesis
    using assms unfolding observe_def d(1) pyval.case d(2) option.case d(3)
    by (simp add: snapshot_result_def d(4) Let_def check_epoch_def raising_Inr_iff history_of_def gid
        split: if_splits option.splits sum.splits cong: option.case_cong) blast+
qed

lemma submitted_pending:
  assumes "journal_inv J" "dict_get (j_intents J) (g, ply) = Some i" "in_status i \<noteq> PREPARED"
  shows "submitted_moves J g ply = [in_move i]"
proof -
  have "submitted_moves J g ply = (case dict_get (j_intents J) (g, ply) of
      None \<Rightarrow> [] | Some i \<Rightarrow> if in_status i = PREPARED then [] else [in_move i])"
    using assms(1) unfolding journal_inv_def by blast
  with assms(2,3) show ?thesis by simp
qed

lemma observe_inv:
  assumes inv: "journal_inv J" and obs: "observe C J epoch gid state = (J', Inr outcome)"
  shows "journal_inv J'"
proof -
  obtain g latest t J1 where
    cl: "classify_snapshot (history_of J g) latest (map_option (\<lambda>(ply, i). in_history i) (pending_intent J g))
       (map_option (\<lambda>(ply, i). in_move i) (pending_intent J g)) = Inr outcome" and
    confirm: "confirm_intent epoch g (pending_intent J g) outcome
       (J\<lparr>j_games := dict_set g \<lparr>gm_history = latest, gm_terminal = t\<rparr> (j_games J)\<rparr>) = Inr J1" and
    J': "J' = log_event epoch (Some g) (ServerSnapshot latest outcome t) J1"
    using observe_Inr [OF obs] by blast
  let ?J = "J\<lparr>j_games := dict_set g \<lparr>gm_history = latest, gm_terminal = t\<rparr> (j_games J)\<rparr>"
  have inv': "journal_inv ?J"
    using cl by (intro games_update_inv [OF inv]) (simp add: classify_snapshot_Inr)
  have "journal_inv J1"
  proof (cases "pending_intent J g")
    case None
    with confirm inv' show ?thesis by (simp add: confirm_intent_def)
  next
    case (Some pi)
    obtain ply i where pi: "pi = (ply, i)" by (cases pi)
    show ?thesis
    proof (cases "outcome = SERVER_CONFIRMED")
      case False
      with confirm inv' show ?thesis by (simp add: confirm_intent_def Some pi)
    next
      case True
      then have J1: "J1 = log_event epoch (Some g) (ServerConfirmed ply (in_move i)) (set_status (g, ply) CONFIRMED ?J)"
        and "in_status i \<noteq> PREPARED"
        using confirm by (simp_all add: confirm_intent_def Some pi split: if_splits)
      have i: "dict_get (j_intents J) (g, ply) = Some i" "in_status i \<noteq> CONFIRMED"
        using pending_intent_Some [OF inv] Some pi by blast+
      have len: "length (in_history i) = ply"
        using journal_inv_intent(2) [OF inv i(1)] by (simp add: intent_ok_def)
      have conf: "ply < length latest" "latest ! ply = in_move i"
        using cl len by (auto simp: classify_snapshot_Inr Some pi True split: if_splits)
      have i': "dict_get (j_intents ?J) (g, ply) = Some i" using i(1) by simp
      have sub: "submitted_moves ?J g ply = [in_move i]"
        by (rule submitted_pending [OF inv' i' \<open>in_status i \<noteq> PREPARED\<close>])
      show ?thesis unfolding J1
        using conf sub by (intro set_status_inv [OF inv' i' i(2)]) simp_all
    qed
  qed
  then show ?thesis unfolding J' by (rule journal_inv_cong) simp_all
qed

lemma change_status_inv:
  assumes inv: "journal_inv J" and ch: "change_status J epoch g uci before after allowed = (J', Inr ())"
    and st: "after \<noteq> PREPARED" "after \<noteq> CONFIRMED" "CONFIRMED \<notin> set allowed"
      "after = SUBMITTING \<Longrightarrow> allowed = [PREPARED]" "after \<noteq> SUBMITTING \<Longrightarrow> PREPARED \<notin> set allowed"
  shows "journal_inv J'"
proof -
  let ?ply = "length before"
  obtain i where i: "dict_get (j_intents J) (g, ?ply) = Some i" "in_move i = uci"
    and res: "J' = J \<or> (in_status i \<in> set allowed \<and>
      J' = log_event epoch (Some g) (IntentStatus after ?ply uci) (set_status (g, ?ply) after J))"
    using ch by (auto simp: change_status_def raising_Inr_iff split: option.splits if_splits)
  have inv_sub: "submitted_moves J g ?ply = (if in_status i = PREPARED then [] else [in_move i])"
  proof -
    have "submitted_moves J g ?ply = (case dict_get (j_intents J) (g, ?ply) of
        None \<Rightarrow> [] | Some i \<Rightarrow> if in_status i = PREPARED then [] else [in_move i])"
      using inv unfolding journal_inv_def by blast
    with i(1) show ?thesis by simp
  qed
  from res show ?thesis
  proof (elim disjE conjE)
    assume "in_status i \<in> set allowed" and
      J': "J' = log_event epoch (Some g) (IntentStatus after ?ply uci) (set_status (g, ?ply) after J)"
    then have "in_status i \<noteq> CONFIRMED" "after = SUBMITTING \<longleftrightarrow> in_status i = PREPARED"
      using st(3-5) by (cases "after = SUBMITTING"; force)+
    then show ?thesis unfolding J'
      using st(1,2) inv_sub i(2) by (intro set_status_inv [OF inv i(1)]) auto
  qed (use inv in simp)
qed

lemma prepare_Inr:
  assumes "prepare C J epoch g history move = (J', Inr pos)"
  shows "\<exists>row. j_owner J = Some epoch \<and> dict_get (j_games J) g = Some row \<and> \<not> gm_terminal row \<and>
     canonical_history C history = Inr (gm_history row) \<and> unconfirmed J g = [] \<and>
     dict_get (j_intents J) (g, length (gm_history row)) = None \<and>
     J' = log_event epoch (Some g) (MovePrepared (length (gm_history row)) pos move)
       (J\<lparr>j_intents := j_intents J @ [((g, length (gm_history row)),
          \<lparr>in_history = gm_history row, in_position_id = pos, in_move = move, in_status = PREPARED,
           in_epoch = epoch\<rparr>)]\<rparr>)"
  using assms
  by (auto simp: prepare_def raising_Inr_iff check_epoch_def split: option.splits if_splits)

lemma prepare_inv:
  assumes inv: "journal_inv J" and pr: "prepare C J epoch g history move = (J', Inr pos)"
  shows "journal_inv J'"
proof -
  obtain row where row: "dict_get (j_games J) g = Some row" "unconfirmed J g = []"
    "dict_get (j_intents J) (g, length (gm_history row)) = None" and
    J': "J' = log_event epoch (Some g) (MovePrepared (length (gm_history row)) pos move)
       (J\<lparr>j_intents := j_intents J @ [((g, length (gm_history row)),
          \<lparr>in_history = gm_history row, in_position_id = pos, in_move = move, in_status = PREPARED,
           in_epoch = epoch\<rparr>)]\<rparr>)"
    using prepare_Inr [OF pr] by blast
  let ?k = "(g, length (gm_history row))"
  have hist: "history_of J' = history_of J" by (simp add: history_of_def fun_eq_iff J')
  have fresh: "?k \<notin> fst ` set (j_intents J)" using row(3) by (simp add: dict_get_None)
  have "dict_ok (j_intents J')" using inv fresh by (simp add: J' journal_inv_def)
  moreover have "intent_ok J' ki" if "ki \<in> set (j_intents J')" for ki
  proof (cases "ki \<in> set (j_intents J)")
    case True
    then have "intent_ok J ki" using inv by (auto simp: journal_inv_def)
    then show ?thesis by (simp add: intent_ok_def hist case_prod_unfold) (simp add: J')
  next
    case False
    with that row(1) show ?thesis by (auto simp: J' intent_ok_def history_of_def)
  qed
  moreover have "length (unconfirmed J' g') \<le> 1" for g'
    using inv row(2) by (cases "g' = g") (auto simp: J' unconfirmed_def journal_inv_def)
  moreover have "submitted_moves J' g' ply = (case dict_get (j_intents J') (g', ply) of
      None \<Rightarrow> [] | Some i \<Rightarrow> if in_status i = PREPARED then [] else [in_move i])" for g' ply
  proof -
    have "submitted_moves J' g' ply = submitted_moves J g' ply" by (simp add: J' submitted_moves_def)
        (simp add: map_filter_def)
    also have "\<dots> = (case dict_get (j_intents J) (g', ply) of
        None \<Rightarrow> [] | Some i \<Rightarrow> if in_status i = PREPARED then [] else [in_move i])"
      using inv unfolding journal_inv_def by blast
    finally show ?thesis
      using row(3) by (auto simp: J' map_add_def split: option.splits)
  qed
  ultimately show ?thesis using inv by (simp add: journal_inv_def J')
qed

lemma empty_journal_inv: "journal_inv empty_journal"
  by (simp add: journal_inv_def empty_journal_def unconfirmed_def submitted_moves_def)

text \<open>Each method is a transaction: an exception rolls it back.\<close>

lemma raising_rollback:
  "(\<And>v e. m = Inr v \<Longrightarrow> snd (k v) = Inl e \<Longrightarrow> fst (k v) = s) \<Longrightarrow> snd (raising s m k) = Inl e \<Longrightarrow>
   fst (raising s m k) = s"
  by (cases m) auto

lemma change_status_raise: "snd (change_status J epoch g uci before after allowed) = Inl e \<Longrightarrow>
   fst (change_status J epoch g uci before after allowed) = J"
  by (auto simp: change_status_def raising_def split: sum.splits option.splits if_splits)

lemma observe_raise: "snd (observe C J epoch gid state) = Inl e \<Longrightarrow> fst (observe C J epoch gid state) = J"
  by (auto simp: observe_def raising_def Let_def split: pyval.splits sum.splits option.splits if_splits)

lemma prepare_raise: "snd (prepare C J epoch g history move) = Inl e \<Longrightarrow>
   fst (prepare C J epoch g history move) = J"
  by (auto simp: prepare_def raising_def split: sum.splits option.splits if_splits)

lemma activate_raise: "snd (activate_session J v) = Inl e \<Longrightarrow> fst (activate_session J v) = J"
  by (auto simp: activate_session_def split: option.splits if_splits)

lemma cooldown_raise: "snd (establish_cooldown J epoch seconds cause now) = Inl e \<Longrightarrow>
   fst (establish_cooldown J epoch seconds cause now) = J"
  by (auto simp: establish_cooldown_def raising_def Let_def split: sum.splits if_splits)

lemma forget_Inl: "snd (forget r) = Inl e \<longleftrightarrow> snd r = Inl e"
  by (auto simp: forget_def split: sum.splits)

lemma fst_forget [simp]: "fst (forget r) = fst r"
  by (simp add: forget_def)

lemmas rollback = change_status_raise observe_raise prepare_raise activate_raise cooldown_raise

lemma journal_step_raise: "snd (journal_step C J x) = Inl e \<Longrightarrow> fst (journal_step C J x) = J"
  by (cases x) (auto simp: forget_Inl submit_intent_def record_outcome_def dest: rollback)

lemma journal_step_inv:
  assumes inv: "journal_inv J"
  shows "journal_inv (fst (journal_step C J x))"
proof (cases "snd (journal_step C J x)")
  case (Inl e)
  with journal_step_raise inv show ?thesis by metis
next
  case (Inr u)
  show ?thesis
  proof (cases x)
    case (JActivate v)
    show ?thesis unfolding JActivate journal_step.simps
      by (rule journal_inv_cong [OF inv])
        (auto simp: activate_session_def log_event_def submitted_moves_def map_filter_def split: option.splits)
  next
    case (JObserve epoch g state)
    with Inr observe_inv [OF inv, of C epoch g state] show ?thesis
      by (cases "observe C J epoch g state") (auto simp: forget_def split: sum.splits)
  next
    case (JPrepare epoch g history move)
    with Inr prepare_inv [OF inv, of C epoch g history move] show ?thesis
      by (cases "prepare C J epoch g history move") (auto simp: forget_def split: sum.splits)
  next
    case (JSubmit epoch g uci before)
    with Inr change_status_inv [OF inv, of epoch g uci before SUBMITTING "[PREPARED]"] show ?thesis
      by (cases "submit_intent J epoch g uci before") (auto simp: submit_intent_def)
  next
    case (JOutcome epoch g uci before out)
    with Inr change_status_inv [OF inv, of epoch g uci before "outcome_status out" "[SUBMITTING]"] show ?thesis
      by (cases "record_outcome J epoch g uci before out"; cases out) (auto simp: record_outcome_def)
  next
    case (JCooldown epoch seconds cause now)
    show ?thesis unfolding JCooldown journal_step.simps
      by (rule journal_inv_cong [OF inv])
        (auto simp: establish_cooldown_def raising_def Let_def log_event_def submitted_moves_def map_filter_def
          split: sum.splits)
  qed
qed

text \<open>Both the event log and each game's history only grow.\<close>

lemma change_status_games [simp]:
  "j_games (fst (change_status J epoch g uci before after allowed)) = j_games J"
  by (auto simp: change_status_def raising_def split: sum.splits option.splits)

lemma prepare_games [simp]: "j_games (fst (prepare C J epoch g history move)) = j_games J"
  by (auto simp: prepare_def raising_def split: sum.splits option.splits)

lemma activate_games [simp]: "j_games (fst (activate_session J v)) = j_games J"
  by (auto simp: activate_session_def split: option.splits)

lemma cooldown_games [simp]: "j_games (fst (establish_cooldown J epoch seconds cause now)) = j_games J"
  by (auto simp: establish_cooldown_def raising_def Let_def split: sum.splits)

lemma confirm_games: "confirm_intent epoch g pending outcome J = Inr J1 \<Longrightarrow> j_games J1 = j_games J"
  by (auto simp: confirm_intent_def split: option.splits if_splits)

lemma history_of_cong: "j_games J = j_games J' \<Longrightarrow> history_of J = history_of J'"
  by (simp add: history_of_def fun_eq_iff)

lemma observe_history:
  assumes "observe C J epoch gid state = (J', Inr outcome)"
  shows "prefix (history_of J g) (history_of J' g) \<and>
     (\<forall>row. dict_get (j_games J) g = Some row \<and> gm_terminal row \<longrightarrow>
        (\<exists>row'. dict_get (j_games J') g = Some row' \<and> gm_terminal row'))"
proof -
  obtain g' latest t J1 where
    t: "case dict_get (j_games J) g' of None \<Rightarrow> True | Some row \<Rightarrow> gm_terminal row \<longrightarrow> t" and
    cl: "classify_snapshot (history_of J g') latest (map_option (\<lambda>(ply, i). in_history i) (pending_intent J g'))
       (map_option (\<lambda>(ply, i). in_move i) (pending_intent J g')) = Inr outcome" and
    confirm: "confirm_intent epoch g' (pending_intent J g') outcome
       (J\<lparr>j_games := dict_set g' \<lparr>gm_history = latest, gm_terminal = t\<rparr> (j_games J)\<rparr>) = Inr J1" and
    J': "J' = log_event epoch (Some g') (ServerSnapshot latest outcome t) J1"
    using observe_Inr [OF assms] by blast
  have games: "j_games J' = dict_set g' \<lparr>gm_history = latest, gm_terminal = t\<rparr> (j_games J)"
    using confirm_games [OF confirm] by (simp add: J')
  then have "history_of J' = history_of (J\<lparr>j_games := dict_set g' \<lparr>gm_history = latest, gm_terminal = t\<rparr> (j_games J)\<rparr>)"
    by (intro history_of_cong) simp
  moreover have "prefix (history_of J g') latest" using cl by (simp add: classify_snapshot_Inr)
  ultimately show ?thesis using t by (auto simp: games)
qed

lemma journal_step_history: "prefix (history_of J g) (history_of (fst (journal_step C J x)) g)"
proof (cases x)
  case (JObserve epoch gid state)
  show ?thesis
  proof (cases "snd (observe C J epoch gid state)")
    case (Inl e)
    with JObserve observe_raise show ?thesis by fastforce
  next
    case (Inr r)
    then obtain J' where "observe C J epoch gid state = (J', Inr r)" by (cases "observe C J epoch gid state") auto
    with observe_history [OF this] JObserve show ?thesis by simp
  qed
qed (simp_all add: submit_intent_def record_outcome_def history_of_cong [of "fst _" J])

interpretation journal: growing "journal_step C" journal_inv "\<lambda>J. history_of J g" for C g
proof unfold_locales
  fix J x
  assume "journal_inv J"
  then show "journal_inv (fst (journal_step C J x))" by (rule journal_step_inv)
next
  fix J x
  show "prefix (history_of J g) (history_of (fst (journal_step C J x)) g)" by (rule journal_step_history)
qed

lemma journal_reachable: "journal_inv (run (journal_step C) empty_journal xs)"
  by (rule journal.run_inv [OF empty_journal_inv])

end
