(* ===== verification/Transport.thy ===== *)
theory Transport
  imports Journal "HOL-Library.Multiset"
begin

text \<open>
  \<^verbatim>\<open>deploy/lichess/guarded_transport.py\<close>: the gate through which the bridge
  sends every request.  A call of \<open>guarded_post\<close> or \<open>stage_move\<close> makes several
  transactions on the journal, and other calls and other processes may act between
  any two of them.  A call is therefore a thread whose program counter is a
  \<open>call\<close>, and each of its steps holds at most one transaction.

  The process environment is a function \<open>getenv\<close>; \<open>admitted\<close> is the verdict of
  the lease check on the files it names, \<open>audit_ok\<close> says whether the audit file
  accepts the records of a call, and the parts of a URL are those of \<open>urlparse\<close>.
\<close>

datatype suspension =
    NotIsolated
  | LiveImpersonation
  | LiveOriginMismatch
  | LeaseUnverified
  | ProfileUnknown
  | JournalMissing
  | AuditFailed
  | JournalRefused journal_error
  | JournalRaised journal_error
  | CooldownActive
  | EndpointDenied string
  | EndpointInvalid
  | EndpointUnauthorized
  | LoopbackOnly
  | GatewayOnly
  | MoveArguments
  | NoPreparedIntent
  | IntentHeaders
  | NoLegalMove
  | UncertainOutcome
  | RateLimited
  | Unsuccessful nat

type_synonym env = "string \<Rightarrow> string option"

definition env_set :: "string option \<Rightarrow> bool" where
  "env_set v = (case v of None \<Rightarrow> False | Some s \<Rightarrow> s \<noteq> [])"

text \<open>\<open>_context\<close>: the profile and the epoch of the session.\<close>

definition transport_context :: "env \<Rightarrow> bool \<Rightarrow> suspension + (string \<times> string)" where
  "transport_context getenv admitted =
     (let profile = (case getenv ''ALLFATHER_TRANSPORT_PROFILE'' of None \<Rightarrow> ''offline'' | Some p \<Rightarrow> p) in
      rbind (if profile = ''offline''
             then ensure (getenv ''ONLINE4B_ISOLATED_CONTAINER'' = Some ''1'') NotIsolated
             else if profile = ''live-canary''
             then if getenv ''ONLINE4B_ISOLATED_CONTAINER'' = Some ''1'' then Inl LiveImpersonation
                  else if env_set (getenv ''LICHESS_BOT_TOKEN'') \<or>
                      getenv ''ALLFATHER_LIVE_GATEWAY_URL'' \<noteq> Some ''http://live-gateway:8765/''
                    then Inl LiveOriginMismatch
                  else ensure admitted LeaseUnverified
             else Inl ProfileUnknown) (\<lambda>_.
        if \<not> env_set (getenv ''ALLFATHER_RECOVERY_DB'') \<or> \<not> env_set (getenv ''ALLFATHER_RECOVERY_EPOCH'')
        then Inl JournalMissing
        else Inr (profile, the (getenv ''ALLFATHER_RECOVERY_EPOCH''))))"

definition denied_endpoints :: "string list" where
  "denied_endpoints = [''abort'', ''resign'', ''chat'', ''takeback'', ''upgrade'', ''challenge'', ''cancel'']"

definition allowed_posts :: "string list" where
  "allowed_posts = [''token_test'', ''accept'', ''decline'', ''move'']"

definition audited :: "bool \<Rightarrow> suspension \<Rightarrow> suspension" where
  "audited audit_ok e = (if audit_ok then e else AuditFailed)"

definition require_unfenced :: "journal \<Rightarrow> string \<Rightarrow> pyfloat \<Rightarrow> suspension + unit" where
  "require_unfenced J epoch now = (case cooldown_left J epoch now of
      Inl e \<Rightarrow> Inl (JournalRefused e)
    | Inr remaining \<Rightarrow> if f_less (Fin 0) remaining then Inl CooldownActive else Inr ())"

definition before_request ::
    "env \<Rightarrow> bool \<Rightarrow> bool \<Rightarrow> journal \<Rightarrow> pyfloat \<Rightarrow> string \<Rightarrow> suspension + (string \<times> string)" where
  "before_request getenv admitted audit_ok J now endpoint =
     rbind (transport_context getenv admitted) (\<lambda>(profile, epoch).
     rbind (require_unfenced J epoch now) (\<lambda>_.
       if endpoint \<in> set denied_endpoints then Inl (audited audit_ok (EndpointDenied endpoint))
       else if endpoint = [] then Inl EndpointInvalid
       else Inr (profile, epoch)))"

definition observe_state :: "chess_lib \<Rightarrow> env \<Rightarrow> bool \<Rightarrow> bool \<Rightarrow> journal \<Rightarrow> pyval \<Rightarrow> pyval \<Rightarrow>
    journal \<times> (suspension + reconciliation)" where
  "observe_state C getenv admitted audit_ok J game_id state =
     raising J (transport_context getenv admitted) (\<lambda>(profile, epoch).
       case observe C J epoch game_id state of
         (J', Inr r) \<Rightarrow> (J', if audit_ok then Inr r else Inl AuditFailed)
       | (J', Inl e) \<Rightarrow> (J', Inl (audited audit_ok (JournalRefused e))))"

definition require_ready :: "chess_lib \<Rightarrow> env \<Rightarrow> bool \<Rightarrow> bool \<Rightarrow> journal \<Rightarrow> string \<Rightarrow> string list \<Rightarrow> suspension + unit" where
  "require_ready C getenv admitted audit_ok J g stack =
     rbind (transport_context getenv admitted) (\<lambda>(profile, epoch).
       case assert_ready C J epoch g stack of
         Inl e \<Rightarrow> Inl (audited audit_ok (JournalRefused e)) | Inr u \<Rightarrow> Inr ())"

text \<open>The header is absent, is no number, or is a number.\<close>

definition cooldown_duration :: "pyfloat option option \<Rightarrow> pyfloat" where
  "cooldown_duration retry_after = (case retry_after of
      None \<Rightarrow> Fin 60
    | Some None \<Rightarrow> Fin 60
    | Some (Some seconds) \<Rightarrow>
        if \<not> f_finite seconds \<or> f_less seconds (Fin 0) then Fin 60
        else f_max (Fin 60) (f_min seconds (Fin 86400)))"

record url_parts =
  url_scheme :: string
  url_netloc :: string
  url_hostname :: "string option"
  url_userinfo :: bool
  url_path :: string
  url_query :: string
  url_fragment :: string

definition url_permitted :: "string \<Rightarrow> url_parts \<Rightarrow> suspension + unit" where
  "url_permitted profile u =
     (if profile = ''offline''
      then ensure (url_hostname u = Some ''127.0.0.1'' \<and> url_scheme u = ''http'') LoopbackOnly
      else ensure (url_scheme u = ''http'' \<and> url_netloc u = ''live-gateway:8765'' \<and> \<not> url_userinfo u \<and>
        url_query u = [] \<and> url_fragment u = [] \<and> prefix ''/api/'' (url_path u)) GatewayOnly)"

text \<open>
  A request, with the game, the history before the move and the move for a move POST.
\<close>

record sent_request =
  sr_endpoint :: string
  sr_epoch :: string
  sr_move :: "(string \<times> string list \<times> string) option"

text \<open>
  Where a call stands: \<open>Staging\<close> is \<open>stage_move\<close> after \<open>assert_ready\<close>; the others are
  \<open>guarded_post\<close> after the checks of a move POST, after the intent was read, before
  \<open>session.post\<close>, waiting for its response, after the cooldown of a limited
  response was recorded, and at its end.
\<close>

datatype call =
    Staging string string "string list" string
  | Checked string string "string list" "string list"
  | Found string string string string "string list" "string list"
  | Cleared sent_request
  | Waiting sent_request
  | Limited sent_request
  | Over "suspension + unit"

datatype http_result = NetworkError | Response nat "pyfloat option option"

text \<open>
  \<open>stage_move\<close>: \<open>engine_move\<close> is the text of the engine's move, \<open>None\<close> when it
  is missing, null, not legal on the board or when the engine resigned.
\<close>

definition begin_stage :: "chess_lib \<Rightarrow> env \<Rightarrow> bool \<Rightarrow> bool \<Rightarrow> journal \<Rightarrow> string list \<Rightarrow> string option \<Rightarrow> string \<Rightarrow>
    suspension + call" where
  "begin_stage C getenv admitted audit_ok J stack engine_move g =
     rbind (transport_context getenv admitted) (\<lambda>(profile, epoch).
       case engine_move of
         None \<Rightarrow> Inl (audited audit_ok NoLegalMove)
       | Some m \<Rightarrow> (case assert_ready C J epoch g stack of
           Inl e \<Rightarrow> Inl (audited audit_ok (JournalRefused e))
         | Inr u \<Rightarrow> Inr (Staging epoch g stack m)))"

definition end_stage :: "chess_lib \<Rightarrow> bool \<Rightarrow> journal \<Rightarrow> string \<Rightarrow> string \<Rightarrow> string list \<Rightarrow> string \<Rightarrow>
    journal \<times> call" where
  "end_stage C audit_ok J epoch g stack m = (case prepare C J epoch g (PList (map PStr stack)) m of
      (J', Inl e) \<Rightarrow> (J', Over (Inl (audited audit_ok (JournalRefused e))))
    | (J', Inr pos) \<Rightarrow> (J', Over (if audit_ok then Inr () else Inl AuditFailed)))"

text \<open>
  \<open>guarded_post\<close> up to the intent: the cooldown check is the only transaction.
  \<open>headers\<close> are the names of the headers of the caller.
\<close>

definition begin_post :: "env \<Rightarrow> bool \<Rightarrow> bool \<Rightarrow> journal \<Rightarrow> pyfloat \<Rightarrow> string \<Rightarrow> string list \<Rightarrow> url_parts \<Rightarrow> string list \<Rightarrow>
    suspension + call" where
  "begin_post getenv admitted audit_ok J now endpoint args url headers =
     rbind (before_request getenv admitted audit_ok J now endpoint) (\<lambda>(profile, epoch).
       if endpoint \<notin> set allowed_posts then Inl EndpointUnauthorized
       else rbind (url_permitted profile url) (\<lambda>_.
         Inr (if endpoint = ''move'' then Checked profile epoch args headers
              else Cleared \<lparr>sr_endpoint = endpoint, sr_epoch = epoch, sr_move = None\<rparr>)))"

text \<open>The read of the intent, and the transaction that submits it.\<close>

definition find_intent :: "journal \<Rightarrow> string \<Rightarrow> string \<Rightarrow> string list \<Rightarrow> string list \<Rightarrow> call" where
  "find_intent J profile epoch args headers = (case args of
      [g, uci] \<Rightarrow> (case journal_intent J epoch g None of
           Inl e \<Rightarrow> Over (Inl (JournalRaised e))
         | Inr None \<Rightarrow> Over (Inl NoPreparedIntent)
         | Inr (Some (ply, i)) \<Rightarrow>
             if in_move i \<noteq> uci then Over (Inl NoPreparedIntent)
             else Found profile epoch g uci (in_history i) headers)
    | _ \<Rightarrow> Over (Inl MoveArguments))"

definition submit_found :: "bool \<Rightarrow> journal \<Rightarrow> string \<Rightarrow> string \<Rightarrow> string \<Rightarrow> string \<Rightarrow> string list \<Rightarrow> string list \<Rightarrow>
    journal \<times> call" where
  "submit_found audit_ok J profile epoch g uci before headers = (case submit_intent J epoch g uci before of
      (J', Inl e) \<Rightarrow> (J', Over (Inl (audited audit_ok (JournalRefused e))))
    | (J', Inr u) \<Rightarrow> (J',
        if profile = ''live-canary'' \<and> (\<exists>h \<in> set headers. prefix ''x-allfather-'' (py_lower h))
        then Over (Inl IntentHeaders)
        else if \<not> audit_ok then Over (Inl AuditFailed)
        else Cleared \<lparr>sr_endpoint = ''move'', sr_epoch = epoch, sr_move = Some (g, before, uci)\<rparr>))"

text \<open>The outcome of a move POST is recorded; a refusal of the journal propagates.\<close>

definition settle_move :: "journal \<Rightarrow> sent_request \<Rightarrow> post_outcome \<Rightarrow> suspension + unit \<Rightarrow> journal \<times> call" where
  "settle_move J r out res = (case sr_move r of
      None \<Rightarrow> (J, Over res)
    | Some (g, before, uci) \<Rightarrow> (case record_outcome J (sr_epoch r) g uci before out of
        (J', Inl e) \<Rightarrow> (J', Over (Inl (JournalRaised e))) | (J', Inr u) \<Rightarrow> (J', Over res)))"

text \<open>
  The response: a limited one first records the cooldown, in a transaction of its
  own, and only then the outcome of the move.
\<close>

definition receive_response :: "bool \<Rightarrow> journal \<Rightarrow> pyfloat \<Rightarrow> sent_request \<Rightarrow> http_result \<Rightarrow> journal \<times> call" where
  "receive_response audit_ok J now r res = (case res of
      NetworkError \<Rightarrow> settle_move J r Uncertain (Inl (audited audit_ok UncertainOutcome))
    | Response status retry_after \<Rightarrow>
        if status = 429
        then (case establish_cooldown J (sr_epoch r) (cooldown_duration retry_after) (''http429:'' @ sr_endpoint r) now of
            (J', Inl e) \<Rightarrow> (J', Over (Inl (JournalRaised e)))
          | (J', Inr u) \<Rightarrow> (J', Limited r))
        else if sr_move r = None then (J, Over (Inr ()))
        else if status = 200
        then settle_move J r Acknowledged (if audit_ok then Inr () else Inl AuditFailed)
        else settle_move J r Uncertain (Inl (audited audit_ok (Unsuccessful status))))"

text \<open>The next step of a call; \<open>now\<close> and \<open>res\<close> are the clock and the response it meets.\<close>

fun advance :: "chess_lib \<Rightarrow> bool \<Rightarrow> pyfloat \<Rightarrow> http_result \<Rightarrow> journal \<Rightarrow> call \<Rightarrow> journal \<times> call" where
  "advance C audit_ok now res J (Staging epoch g stack m) = end_stage C audit_ok J epoch g stack m"
| "advance C audit_ok now res J (Checked profile epoch args headers) = (J, find_intent J profile epoch args headers)"
| "advance C audit_ok now res J (Found profile epoch g uci before headers) =
     submit_found audit_ok J profile epoch g uci before headers"
| "advance C audit_ok now res J (Cleared r) = (J, Waiting r)"
| "advance C audit_ok now res J (Waiting r) = receive_response audit_ok J now r res"
| "advance C audit_ok now res J (Limited r) = settle_move J r Uncertain (Inl (audited audit_ok RateLimited))"
| "advance C audit_ok now res J (Over v) = (J, Over v)"

section \<open>The bridge with its requests\<close>

record bridge =
  br_journal :: journal
  br_calls :: "call list"
  br_sent :: "sent_request list"

text \<open>
  Other processes and the operator call the journal directly; a call of the bridge
  begins and then advances step by step, in any order with all others.  A call
  that raises before its first transaction ends leaves no thread behind.
\<close>

datatype bridge_op =
    BJournal journal_op
  | BObserve env bool bool pyval pyval
  | BStage env bool bool "string list" "string option" string
  | BPost env bool bool pyfloat string "string list" url_parts "string list"
  | BAdvance nat bool pyfloat http_result

definition start_bridge :: bridge where
  "start_bridge = \<lparr>br_journal = empty_journal, br_calls = [], br_sent = []\<rparr>"

definition with_journal :: "bridge \<Rightarrow> journal \<times> ('e + 'a) \<Rightarrow> bridge \<times> ('e + unit)" where
  "with_journal B r = (B\<lparr>br_journal := fst r\<rparr>, snd (forget r))"

definition begin_call :: "bridge \<Rightarrow> suspension + call \<Rightarrow> bridge \<times> (suspension + unit)" where
  "begin_call B m = raising B m (\<lambda>c. (B\<lparr>br_calls := br_calls B @ [c]\<rparr>, Inr ()))"

definition departing :: "call \<Rightarrow> sent_request list" where
  "departing c = (case c of Cleared r \<Rightarrow> [r] | _ \<Rightarrow> [])"

definition advance_call :: "chess_lib \<Rightarrow> bridge \<Rightarrow> nat \<Rightarrow> bool \<Rightarrow> pyfloat \<Rightarrow> http_result \<Rightarrow> bridge" where
  "advance_call C B k audit_ok now res =
     (if k < length (br_calls B)
      then case advance C audit_ok now res (br_journal B) (br_calls B ! k) of (J', c') \<Rightarrow>
        \<lparr>br_journal = J', br_calls = (br_calls B)[k := c'], br_sent = br_sent B @ departing (br_calls B ! k)\<rparr>
      else B)"

fun bridge_step :: "chess_lib \<Rightarrow> bridge \<Rightarrow> bridge_op \<Rightarrow> bridge \<times> (suspension + unit)" where
  "bridge_step C B (BJournal x) = (case journal_step C (br_journal B) x of
      (J', Inl e) \<Rightarrow> (B\<lparr>br_journal := J'\<rparr>, Inl (JournalRaised e)) | (J', Inr u) \<Rightarrow> (B\<lparr>br_journal := J'\<rparr>, Inr ()))"
| "bridge_step C B (BObserve getenv admitted audit_ok g state) =
     with_journal B (observe_state C getenv admitted audit_ok (br_journal B) g state)"
| "bridge_step C B (BStage getenv admitted audit_ok stack m g) =
     begin_call B (begin_stage C getenv admitted audit_ok (br_journal B) stack m g)"
| "bridge_step C B (BPost getenv admitted audit_ok now endpoint args url headers) =
     begin_call B (begin_post getenv admitted audit_ok (br_journal B) now endpoint args url headers)"
| "bridge_step C B (BAdvance k audit_ok now res) = (advance_call C B k audit_ok now res, Inr ())"

definition move_at :: "string \<Rightarrow> nat \<Rightarrow> sent_request \<Rightarrow> string list" where
  "move_at g ply r = (case sr_move r of
      Some (g', before, uci) \<Rightarrow> if g' = g \<and> length before = ply then [uci] else []
    | None \<Rightarrow> [])"

text \<open>The moves that left, and the ones of the requests about to leave.\<close>

definition sent_moves :: "bridge \<Rightarrow> string \<Rightarrow> nat \<Rightarrow> string list" where
  "sent_moves B g ply = concat (map (move_at g ply) (br_sent B))"

definition leaving_moves :: "bridge \<Rightarrow> string \<Rightarrow> nat \<Rightarrow> string list" where
  "leaving_moves B g ply = concat (map (move_at g ply) (concat (map departing (br_calls B))))"

section \<open>What went out was recorded first\<close>

text \<open>
  Each request for a move, gone or about to go, is covered by its own submission
  in the journal.
\<close>

definition bridge_inv :: "bridge \<Rightarrow> bool" where
  "bridge_inv B \<longleftrightarrow> journal_inv (br_journal B) \<and>
     (\<forall>g ply. mset (sent_moves B g ply) + mset (leaving_moves B g ply) \<subseteq># mset (submitted_moves (br_journal B) g ply))"

lemma submitted_grow:
  assumes "prefix (j_events J) (j_events J')"
  shows "prefix (submitted_moves J g ply) (submitted_moves J' g ply)"
  using assms by (auto simp: prefix_def submitted_moves_def map_filter_def)

lemma change_status_events:
  "prefix (j_events J) (j_events (fst (change_status J epoch g uci before after allowed)))"
  by (auto simp: change_status_def raising_def split: sum.splits option.splits)

lemma observe_events: "prefix (j_events J) (j_events (fst (observe C J epoch gid state)))"
  by (auto simp: observe_def raising_def Let_def confirm_intent_def snapshot_result_def
      split: pyval.splits sum.splits option.splits if_splits prod.splits)

lemma prepare_events: "prefix (j_events J) (j_events (fst (prepare C J epoch g history move)))"
  by (auto simp: prepare_def raising_def split: sum.splits option.splits)

lemma activate_events: "prefix (j_events J) (j_events (fst (activate_session J v)))"
  by (auto simp: activate_session_def split: option.splits)

lemma cooldown_events: "prefix (j_events J) (j_events (fst (establish_cooldown J epoch seconds cause now)))"
  by (auto simp: establish_cooldown_def raising_def Let_def split: sum.splits)

lemmas events_grow = change_status_events observe_events prepare_events activate_events cooldown_events

lemma journal_step_events: "prefix (j_events J) (j_events (fst (journal_step C J x)))"
  by (cases x) (simp_all add: events_grow submit_intent_def record_outcome_def)

text \<open>A journal that results from the bridge's own calls is one that journal operations reach.\<close>

definition journal_moves :: "chess_lib \<Rightarrow> journal \<Rightarrow> journal \<Rightarrow> bool" where
  "journal_moves C J J' \<longleftrightarrow> (\<exists>xs. J' = run (journal_step C) J xs)"

lemma journal_moves_refl [simp]: "journal_moves C J J"
  unfolding journal_moves_def by (rule exI [of _ "[]"]) simp

lemma journal_moves_step: "journal_moves C J (fst (journal_step C J x))"
  unfolding journal_moves_def by (rule exI [of _ "[x]"]) simp

lemma journal_moves_trans: "journal_moves C J J' \<Longrightarrow> journal_moves C J' J'' \<Longrightarrow> journal_moves C J J''"
  unfolding journal_moves_def by (metis run_append)

lemma journal_moves_facts:
  assumes "journal_moves C J J'"
  shows "journal_inv J \<Longrightarrow> journal_inv J'" "prefix (j_events J) (j_events J')"
    "prefix (history_of J g) (history_of J' g)"
proof -
  obtain xs where J': "J' = run (journal_step C) J xs" using assms by (auto simp: journal_moves_def)
  show "journal_inv J \<Longrightarrow> journal_inv J'" unfolding J' by (rule journal.run_inv)
  show "prefix (j_events J) (j_events J')" unfolding J'
    by (induction xs arbitrary: J) (auto intro: prefix_order.trans journal_step_events)
  show "prefix (history_of J g) (history_of J' g)" unfolding J'
    by (induction xs arbitrary: J) (auto intro: prefix_order.trans journal_step_history)
qed

lemma moves_observe: "journal_moves C J (fst (observe C J epoch g state))"
  using journal_moves_step [of C J "JObserve epoch g state"] by simp

lemma moves_prepare: "journal_moves C J (fst (prepare C J epoch g history m))"
  using journal_moves_step [of C J "JPrepare epoch g history m"] by simp

lemma moves_submit: "journal_moves C J (fst (submit_intent J epoch g uci before))"
  using journal_moves_step [of C J "JSubmit epoch g uci before"] by simp

lemma moves_outcome: "journal_moves C J (fst (record_outcome J epoch g uci before out))"
  using journal_moves_step [of C J "JOutcome epoch g uci before out"] by simp

lemma moves_cooldown: "journal_moves C J (fst (establish_cooldown J epoch seconds cause now))"
  using journal_moves_step [of C J "JCooldown epoch seconds cause now"] by simp

lemma moves_raising: "(\<And>v. journal_moves C J (fst (k v))) \<Longrightarrow> journal_moves C J (fst (raising J m k))"
  by (cases m) auto

lemma moves_observe_state: "journal_moves C J (fst (observe_state C getenv admitted audit_ok J g state))"
  unfolding observe_state_def using moves_observe
  by (intro moves_raising) (auto split: prod.splits sum.splits, (metis fst_conv)+)

lemma moves_settle: "journal_moves C J (fst (settle_move J r out res))"
  unfolding settle_move_def using moves_outcome
  by (auto split: prod.splits sum.splits option.splits, (metis fst_conv)+)

lemma moves_response: "journal_moves C J (fst (receive_response audit_ok J now r res))"
  unfolding receive_response_def using moves_cooldown moves_settle
  by (auto split: http_result.splits prod.splits sum.splits, (metis fst_conv)+)

lemma moves_end_stage: "journal_moves C J (fst (end_stage C audit_ok J epoch g stack m))"
  unfolding end_stage_def using moves_prepare
  by (auto split: prod.splits sum.splits, (metis fst_conv)+)

lemma moves_submit_found: "journal_moves C J (fst (submit_found audit_ok J profile epoch g uci before headers))"
  unfolding submit_found_def using moves_submit
  by (auto split: prod.splits sum.splits, (metis fst_conv)+)

lemma moves_advance: "journal_moves C J (fst (advance C audit_ok now res J c))"
  by (cases c) (simp_all add: moves_end_stage moves_submit_found moves_response moves_settle)

text \<open>Only the transaction that submits an intent clears a move request.\<close>

lemma submit_intent_Inr:
  assumes "journal_inv J" "submit_intent J epoch g uci before = (J', Inr u)"
  shows "submitted_moves J g (length before) = [] \<and> submitted_moves J' g (length before) = [uci]"
proof -
  obtain i where i: "dict_get (j_intents J) (g, length before) = Some i" "in_status i = PREPARED"
    and J': "J' = log_event epoch (Some g) (IntentStatus SUBMITTING (length before) uci)
        (set_status (g, length before) SUBMITTING J)"
    using assms(2)
    by (auto simp: submit_intent_def change_status_def raising_Inr_iff split: option.splits if_splits)
  have "submitted_moves J g (length before) = (case dict_get (j_intents J) (g, length before) of
      None \<Rightarrow> [] | Some i \<Rightarrow> if in_status i = PREPARED then [] else [in_move i])"
    using assms(1) unfolding journal_inv_def by blast
  then have none: "submitted_moves J g (length before) = []" using i by simp
  moreover have "submitted_moves (set_status (g, length before) SUBMITTING J) g (length before) =
      submitted_moves J g (length before)" by (rule submitted_cong) simp
  ultimately show ?thesis by (simp add: J')
qed

lemma departing_simps [simp]:
  "departing (Staging epoch g stack m) = []" "departing (Checked profile epoch args headers) = []"
  "departing (Found profile epoch g uci before headers) = []" "departing (Cleared r) = [r]"
  "departing (Waiting r) = []" "departing (Limited r) = []" "departing (Over v) = []"
  by (simp_all add: departing_def)

lemma departing_settle [simp]: "departing (snd (settle_move J r out res)) = []"
  by (auto simp: settle_move_def split: option.splits prod.splits sum.splits)

lemma departing_advance:
  assumes "advance C audit_ok now res J c = (J', c')"
  shows "departing c' = [] \<or> (\<exists>profile epoch g uci before headers.
     c = Found profile epoch g uci before headers \<and> submit_intent J epoch g uci before = (J', Inr ()) \<and>
     departing c' = [\<lparr>sr_endpoint = ''move'', sr_epoch = epoch, sr_move = Some (g, before, uci)\<rparr>])"
proof (cases c)
  case (Checked profile epoch args headers)
  with assms show ?thesis
    by (auto simp: find_intent_def split: list.splits sum.splits option.splits)
next
  case (Found profile epoch g uci before headers)
  with assms show ?thesis
    by (auto simp: submit_found_def split: prod.splits sum.splits if_splits)
next
  case (Waiting r)
  with assms departing_settle show ?thesis
    by (auto simp: receive_response_def split: http_result.splits if_splits prod.splits sum.splits)
      (metis departing_settle snd_conv)+
next
  case (Limited r)
  with assms departing_settle show ?thesis by (metis advance.simps(6) snd_conv)
qed (use assms in \<open>auto simp: end_stage_def split: prod.splits sum.splits\<close>)

lemma begin_post_departing:
  "begin_post getenv admitted audit_ok J now endpoint args url headers = Inr c \<Longrightarrow>
     concat (map (move_at g ply) (departing c)) = []"
  by (auto simp: begin_post_def rbind_eq_Inr move_at_def split: prod.splits if_splits)

lemma begin_stage_Inr:
  assumes "begin_stage C getenv admitted audit_ok J stack m g = Inr c"
  shows "\<exists>epoch uci. c = Staging epoch g stack uci"
proof -
  obtain profile epoch uci where "transport_context getenv admitted = Inr (profile, epoch)" "m = Some uci"
    using assms by (auto simp: begin_stage_def rbind_eq_Inr split: option.splits)
  with assms show ?thesis
    by (cases "assert_ready C J epoch g stack") (auto simp: begin_stage_def)
qed

lemma begin_call_simps [simp]:
  "br_journal (fst (begin_call B m)) = br_journal B" "br_sent (fst (begin_call B m)) = br_sent B"
  "br_calls (fst (begin_call B m)) = br_calls B @ (case m of Inl e \<Rightarrow> [] | Inr c \<Rightarrow> [c])"
  by (simp_all add: begin_call_def raising_def split: sum.splits)

lemma bridge_step_moves: "journal_moves C (br_journal B) (br_journal (fst (bridge_step C B x)))"
proof (cases x)
  case (BJournal y)
  then show ?thesis
    using journal_moves_step [of C "br_journal B" y] by (auto split: prod.splits sum.splits)
next
  case (BAdvance k audit_ok now res)
  then show ?thesis
    using moves_advance [of C "br_journal B" audit_ok now res "br_calls B ! k"]
    by (auto simp: advance_call_def split: prod.splits)
qed (simp_all add: with_journal_def moves_observe_state)

text \<open>Moves about to leave, when one thread takes a step.\<close>

lemma mset_update_concat:
  assumes "k < length cs"
  shows "mset (concat (map f (cs[k := c]))) + mset (f (cs ! k)) = mset (concat (map f cs)) + mset (f c)"
  using assms
proof (induction cs arbitrary: k)
  case (Cons x cs)
  show ?case
  proof (cases k)
    case (Suc i)
    with Cons.prems Cons.IH [of i] show ?thesis by (simp add: ac_simps)
  qed (simp add: ac_simps)
qed simp

abbreviation moves_of :: "string \<Rightarrow> nat \<Rightarrow> call \<Rightarrow> string list" where
  "moves_of g ply c \<equiv> concat (map (move_at g ply) (departing c))"

lemma leaving_moves_eq: "leaving_moves B g ply = concat (map (moves_of g ply) (br_calls B))"
proof -
  have "concat (map (move_at g ply) (concat (map departing cs))) = concat (map (moves_of g ply) cs)" for cs
    by (induction cs) simp_all
  then show ?thesis by (simp add: leaving_moves_def)
qed

lemma submitted_mset:
  assumes "prefix (j_events J) (j_events J')"
  shows "mset (submitted_moves J g ply) \<subseteq># mset (submitted_moves J' g ply)"
proof -
  obtain zs where "submitted_moves J' g ply = submitted_moves J g ply @ zs"
    using submitted_grow [OF assms] by (auto simp: prefix_def)
  then show ?thesis by simp
qed

lemma advance_balance:
  assumes J: "journal_inv J" and step: "advance C audit_ok now res J c = (J', c')"
  shows "mset (moves_of g ply c') + mset (submitted_moves J g ply) \<subseteq># mset (submitted_moves J' g ply)"
proof -
  have "prefix (j_events J) (j_events J')"
    using journal_moves_facts(2) [OF moves_advance [of C J audit_ok now res c]] step by simp
  then have sub: "mset (submitted_moves J g ply) \<subseteq># mset (submitted_moves J' g ply)"
    by (rule submitted_mset)
  show ?thesis
  proof (cases "moves_of g ply c' = []")
    case True
    show ?thesis unfolding True using sub by simp
  next
    case False
    then obtain profile epoch g' uci before headers where
      "submit_intent J epoch g' uci before = (J', Inr ())"
      and "departing c' = [\<lparr>sr_endpoint = ''move'', sr_epoch = epoch, sr_move = Some (g', before, uci)\<rparr>]"
      using departing_advance [OF step] by auto
    with False submit_intent_Inr [OF J this(1)] show ?thesis
      by (auto simp: move_at_def split: if_splits)
  qed
qed

lemma bridge_step_quiet:
  assumes "\<nexists>k audit_ok now res. x = BAdvance k audit_ok now res \<and> k < length (br_calls B)"
  shows "sent_moves (fst (bridge_step C B x)) g ply = sent_moves B g ply"
    and "leaving_moves (fst (bridge_step C B x)) g ply = leaving_moves B g ply"
proof -
  have "br_sent (fst (bridge_step C B x)) = br_sent B"
    using assms by (cases x) (auto simp: with_journal_def advance_call_def split: prod.splits sum.splits)
  then show "sent_moves (fst (bridge_step C B x)) g ply = sent_moves B g ply" by (simp add: sent_moves_def)
  show "leaving_moves (fst (bridge_step C B x)) g ply = leaving_moves B g ply"
  proof (cases x)
    case (BStage getenv admitted audit_ok stack m g')
    have "moves_of g ply c = []" if "begin_stage C getenv admitted audit_ok (br_journal B) stack m g' = Inr c" for c
      using begin_stage_Inr [OF that] by auto
    then show ?thesis by (simp add: BStage leaving_moves_eq split: sum.splits del: concat_eq_Nil_conv)
  next
    case (BPost getenv admitted audit_ok now endpoint args url headers)
    have "moves_of g ply c = []"
      if "begin_post getenv admitted audit_ok (br_journal B) now endpoint args url headers = Inr c" for c
      by (rule begin_post_departing [OF that])
    then show ?thesis by (simp add: BPost leaving_moves_eq split: sum.splits del: concat_eq_Nil_conv)
  qed (use assms in \<open>auto simp: leaving_moves_eq with_journal_def advance_call_def split: prod.splits sum.splits\<close>)
qed

lemma bridge_step_inv:
  assumes inv: "bridge_inv B"
  shows "bridge_inv (fst (bridge_step C B x))"
proof -
  let ?B = "fst (bridge_step C B x)"
  have J: "journal_inv (br_journal B)" using inv by (simp add: bridge_inv_def)
  note facts = journal_moves_facts [OF bridge_step_moves [of C B x]]
  have "mset (sent_moves ?B g ply) + mset (leaving_moves ?B g ply) \<subseteq># mset (submitted_moves (br_journal ?B) g ply)"
    for g ply
  proof -
    have old: "mset (sent_moves B g ply) + mset (leaving_moves B g ply)
        \<subseteq># mset (submitted_moves (br_journal B) g ply)" using inv by (simp add: bridge_inv_def)
    have grow: "mset (submitted_moves (br_journal B) g ply) \<subseteq># mset (submitted_moves (br_journal ?B) g ply)"
      by (rule submitted_mset [OF facts(2)])
    show ?thesis
    proof (cases "\<exists>k audit_ok now res. x = BAdvance k audit_ok now res \<and> k < length (br_calls B)")
      case False
      show ?thesis unfolding bridge_step_quiet [OF False]
        using old grow by (rule subset_mset.order_trans)
    next
      case True
      then obtain k audit_ok now res where x: "x = BAdvance k audit_ok now res" and k: "k < length (br_calls B)"
        by blast
      let ?c = "br_calls B ! k"
      obtain J' c' where step: "advance C audit_ok now res (br_journal B) ?c = (J', c')" by (meson surj_pair)
      then have B': "?B = \<lparr>br_journal = J', br_calls = (br_calls B)[k := c'],
          br_sent = br_sent B @ departing ?c\<rparr>" by (simp add: x advance_call_def k)
      have "mset (sent_moves ?B g ply) = mset (sent_moves B g ply) + mset (moves_of g ply ?c)"
        by (simp add: B' sent_moves_def)
      moreover have "mset (leaving_moves ?B g ply) + mset (moves_of g ply ?c) =
          mset (leaving_moves B g ply) + mset (moves_of g ply c')"
        unfolding leaving_moves_eq B' bridge.simps by (rule mset_update_concat [OF k])
      ultimately have "mset (sent_moves ?B g ply) + mset (leaving_moves ?B g ply) =
          mset (moves_of g ply c') + (mset (sent_moves B g ply) + mset (leaving_moves B g ply))"
        by (simp add: ac_simps)
      also have "\<dots> \<subseteq># mset (moves_of g ply c') + mset (submitted_moves (br_journal B) g ply)"
        using old by simp
      also have "\<dots> \<subseteq># mset (submitted_moves J' g ply)" by (rule advance_balance [OF J step])
      finally show ?thesis by (simp add: B')
    qed
  qed
  with facts(1) [OF J] show ?thesis by (simp add: bridge_inv_def)
qed

interpretation bridge: growing "bridge_step C" bridge_inv "\<lambda>B. history_of (br_journal B) g" for C g
proof unfold_locales
  fix B x
  show "bridge_inv B \<Longrightarrow> bridge_inv (fst (bridge_step C B x))" by (rule bridge_step_inv)
  show "prefix (history_of (br_journal B) g) (history_of (br_journal (fst (bridge_step C B x))) g)"
    by (rule journal_moves_facts(3) [OF bridge_step_moves])
qed

lemma start_bridge_inv: "bridge_inv start_bridge"
  by (simp add: bridge_inv_def start_bridge_def empty_journal_inv sent_moves_def leaving_moves_def)

lemma bridge_reachable: "bridge_inv (run (bridge_step C) start_bridge xs)"
  by (rule bridge.run_inv [OF start_bridge_inv])

section \<open>What was checked before a request left\<close>

text \<open>
  The operations \<open>ys\<close> end with the call of \<open>guarded_post\<close> for an endpoint that passes
  the checks in the state it finds.
\<close>

definition journal_after :: "chess_lib \<Rightarrow> bridge_op list \<Rightarrow> journal" where
  "journal_after C ys = br_journal (run (bridge_step C) start_bridge ys)"

definition unfenced :: "journal \<Rightarrow> string \<Rightarrow> pyfloat \<Rightarrow> bool" where
  "unfenced J epoch now \<longleftrightarrow> j_owner J = Some epoch \<and>
     (case j_cooldown J of None \<Rightarrow> True | Some (until, cause) \<Rightarrow> \<not> f_less (Fin 0) (f_max (Fin 0) (f_sub until now)))"

definition posted :: "chess_lib \<Rightarrow> bridge_op list \<Rightarrow> string \<Rightarrow> string \<Rightarrow> string list \<Rightarrow> bool" where
  "posted C ys endpoint epoch args \<longleftrightarrow> (\<exists>ws getenv admitted audit_ok now url headers profile.
     ys = ws @ [BPost getenv admitted audit_ok now endpoint args url headers] \<and>
     transport_context getenv admitted = Inr (profile, epoch) \<and> url_permitted profile url = Inr () \<and>
     unfenced (journal_after C ws) epoch now \<and>
     endpoint \<in> set allowed_posts \<and> endpoint \<notin> set denied_endpoints)"

definition spends_intent :: "chess_lib \<Rightarrow> bridge_op list \<Rightarrow> bridge_op \<Rightarrow> string \<Rightarrow> string \<Rightarrow> string list \<Rightarrow> string \<Rightarrow> bool" where
  "spends_intent C zs z epoch g before uci \<longleftrightarrow> j_owner (journal_after C zs) = Some epoch \<and>
     (\<exists>i. dict_get (j_intents (journal_after C zs)) (g, length before) = Some i \<and> in_status i = PREPARED \<and>
        in_move i = uci \<and> in_history i = before \<and>
        dict_get (j_intents (journal_after C (zs @ [z]))) (g, length before) = Some (i\<lparr>in_status := SUBMITTING\<rparr>))"

definition authorised :: "chess_lib \<Rightarrow> bridge_op list \<Rightarrow> sent_request \<Rightarrow> bool" where
  "authorised C xs r \<longleftrightarrow> (\<exists>ys args. prefix ys xs \<and> posted C ys (sr_endpoint r) (sr_epoch r) args \<and>
     (case sr_move r of None \<Rightarrow> sr_endpoint r \<noteq> ''move''
      | Some (g, before, uci) \<Rightarrow> sr_endpoint r = ''move'' \<and> args = [g, uci] \<and>
          (\<exists>zs z. prefix ys zs \<and> prefix (zs @ [z]) xs \<and> spends_intent C zs z (sr_epoch r) g before uci)))"

definition justified :: "chess_lib \<Rightarrow> bridge_op list \<Rightarrow> call \<Rightarrow> bool" where
  "justified C xs c = (case c of
      Checked profile epoch args headers \<Rightarrow> \<exists>ys. prefix ys xs \<and> posted C ys ''move'' epoch args
    | Found profile epoch g uci before headers \<Rightarrow> \<exists>ys. prefix ys xs \<and> posted C ys ''move'' epoch [g, uci]
    | Cleared r \<Rightarrow> authorised C xs r
    | Waiting r \<Rightarrow> authorised C xs r
    | Limited r \<Rightarrow> authorised C xs r
    | _ \<Rightarrow> True)"

lemma authorised_later: "authorised C xs r \<Longrightarrow> prefix xs xs' \<Longrightarrow> authorised C xs' r"
  unfolding authorised_def by (auto split: option.splits) (meson prefix_order.trans)+

lemma justified_simps [simp]:
  "justified C xs (Checked profile epoch args headers) \<longleftrightarrow> (\<exists>ys. prefix ys xs \<and> posted C ys ''move'' epoch args)"
  "justified C xs (Found profile epoch g uci before headers) \<longleftrightarrow>
     (\<exists>ys. prefix ys xs \<and> posted C ys ''move'' epoch [g, uci])"
  "justified C xs (Cleared r) \<longleftrightarrow> authorised C xs r" "justified C xs (Waiting r) \<longleftrightarrow> authorised C xs r"
  "justified C xs (Limited r) \<longleftrightarrow> authorised C xs r" "justified C xs (Staging epoch g stack m)"
  "justified C xs (Over v)"
  by (simp_all add: justified_def)

lemma justified_later: "justified C xs c \<Longrightarrow> prefix xs xs' \<Longrightarrow> justified C xs' c"
  by (cases c) (auto intro: authorised_later prefix_order.trans)

lemma begin_post_Inr:
  assumes "begin_post getenv admitted audit_ok (journal_after C ws) now endpoint args url headers = Inr c"
  shows "justified C (ws @ [BPost getenv admitted audit_ok now endpoint args url headers]) c"
proof -
  let ?ys = "ws @ [BPost getenv admitted audit_ok now endpoint args url headers]"
  obtain profile epoch where pe:
    "before_request getenv admitted audit_ok (journal_after C ws) now endpoint = Inr (profile, epoch)"
    and rest: "endpoint \<in> set allowed_posts" "url_permitted profile url = Inr ()" "c = (if endpoint = ''move'' then Checked profile epoch args headers
              else Cleared \<lparr>sr_endpoint = endpoint, sr_epoch = epoch, sr_move = None\<rparr>)"
    using assms by (auto simp: begin_post_def rbind_eq_Inr split: if_splits)
  have "transport_context getenv admitted = Inr (profile, epoch)" "unfenced (journal_after C ws) epoch now"
      "endpoint \<notin> set denied_endpoints"
    using pe
    by (auto simp: before_request_def rbind_eq_Inr require_unfenced_def
        cooldown_left_def check_epoch_def unfenced_def split: option.splits if_splits sum.splits)
  with rest(1,2) have "posted C ?ys endpoint epoch args" unfolding posted_def by blast
  then show ?thesis
    unfolding rest(3) by (auto simp: authorised_def)
qed

lemma submit_found_Inr:
  assumes step: "submit_found audit_ok (journal_after C xs) profile epoch g uci before headers = (journal_after C (xs @ [x]), c)"
    and ys: "prefix ys xs" "posted C ys ''move'' epoch [g, uci]"
  shows "justified C (xs @ [x]) c"
proof (cases "departing c")
  case Nil
  with step show ?thesis
    by (auto simp: submit_found_def split: prod.splits sum.splits if_splits)
next
  case (Cons a list)
  then have sub: "submit_intent (journal_after C xs) epoch g uci before = (journal_after C (xs @ [x]), Inr ())"
    and c: "c = Cleared \<lparr>sr_endpoint = ''move'', sr_epoch = epoch, sr_move = Some (g, before, uci)\<rparr>"
    using step by (auto simp: submit_found_def split: prod.splits sum.splits if_splits)
  obtain i where i: "dict_get (j_intents (journal_after C xs)) (g, length before) = Some i" "in_status i = PREPARED"
    "in_move i = uci" "in_history i = before" "j_owner (journal_after C xs) = Some epoch"
    and J': "journal_after C (xs @ [x]) = log_event epoch (Some g) (IntentStatus SUBMITTING (length before) uci)
        (set_status (g, length before) SUBMITTING (journal_after C xs))"
    using sub
    by (auto simp: submit_intent_def change_status_def raising_Inr_iff check_epoch_def split: option.splits if_splits)
  then have "spends_intent C xs x epoch g before uci"
    unfolding spends_intent_def J' by (auto simp: set_status_get simp del: set_status_simps(5))
  with ys show ?thesis unfolding c by (auto simp: authorised_def)
qed

lemma settle_over: "\<exists>v. snd (settle_move J r out res) = Over v"
  by (auto simp: settle_move_def split: option.splits prod.splits sum.splits)

lemma justified_settle [simp]: "justified C xs (snd (settle_move J r out res))"
  using settle_over [of J r out res] by auto

lemma advance_justified:
  assumes "advance C audit_ok now res (journal_after C xs) c = (journal_after C (xs @ [x]), c')" "justified C xs c"
  shows "justified C (xs @ [x]) c'"
proof (cases c)
  case (Staging epoch g stack m)
  with assms show ?thesis by (auto simp: end_stage_def split: prod.splits sum.splits)
next
  case (Checked profile epoch args headers)
  with assms obtain ys where "prefix ys (xs @ [x])" "posted C ys ''move'' epoch args"
    by auto
  with assms Checked show ?thesis
    by (fastforce simp: find_intent_def split: list.splits sum.splits option.splits if_splits)
next
  case (Found profile epoch g uci before headers)
  with assms obtain ys where "prefix ys xs" "posted C ys ''move'' epoch [g, uci]" by auto
  with assms Found show ?thesis using submit_found_Inr by simp
next
  case (Waiting r)
  then have "c' = snd (receive_response audit_ok (journal_after C xs) now r res)" using assms(1) by simp
  moreover have "authorised C (xs @ [x]) r"
    using assms(2) authorised_later [of C xs r "xs @ [x]"] by (simp add: Waiting)
  ultimately show ?thesis
    by (auto simp: receive_response_def split: http_result.splits prod.splits sum.splits)
next
  case (Limited r)
  then have "c' = snd (settle_move (journal_after C xs) r Uncertain (Inl (audited audit_ok RateLimited)))"
    using assms(1) by simp
  then show ?thesis by simp
qed (use assms authorised_later [of C xs _ "xs @ [x]"] in auto)

lemma requests_justified:
  "(\<forall>c \<in> set (br_calls (run (bridge_step C) start_bridge xs)). justified C xs c) \<and>
   (\<forall>r \<in> set (br_sent (run (bridge_step C) start_bridge xs)). authorised C xs r)"
proof (induction xs rule: rev_induct)
  case Nil
  show ?case by (simp add: start_bridge_def)
next
  case (snoc x xs)
  let ?B = "run (bridge_step C) start_bridge xs"
  define B' where "B' = fst (bridge_step C ?B x)"
  have run': "run (bridge_step C) start_bridge (xs @ [x]) = B'" by (simp add: run_append B'_def)
  have keep: "justified C (xs @ [x]) c" if "c \<in> set (br_calls ?B)" for c
    using justified_later [of C xs c "xs @ [x]"] snoc that by simp
  have old: "authorised C (xs @ [x]) r" if "r \<in> set (br_sent ?B)" for r
    using authorised_later [of C xs r "xs @ [x]"] snoc that by simp
  have "(\<forall>c \<in> set (br_calls B'). justified C (xs @ [x]) c) \<and> (\<forall>r \<in> set (br_sent B'). authorised C (xs @ [x]) r)"
  proof (cases x)
    case (BAdvance k audit_ok now res)
    show ?thesis
    proof (cases "k < length (br_calls ?B)")
      case True
      obtain J' c' where step: "advance C audit_ok now res (br_journal ?B) (br_calls ?B ! k) = (J', c')"
        by (meson surj_pair)
      then have calls: "br_calls B' = (br_calls ?B)[k := c']" "br_journal B' = J'"
        "br_sent B' = br_sent ?B @ departing (br_calls ?B ! k)"
        unfolding B'_def unfolding BAdvance by (simp_all add: advance_call_def True)
      have now: "justified C xs (br_calls ?B ! k)" using snoc True by simp
      with step have "justified C (xs @ [x]) c'"
        by (intro advance_justified [of C audit_ok now res xs "br_calls ?B ! k" x])
          (simp_all add: journal_after_def run' calls(2))
      moreover have "authorised C (xs @ [x]) r" if "r \<in> set (departing (br_calls ?B ! k))" for r
        using keep [OF nth_mem [OF True]] that
        by (cases "br_calls ?B ! k") auto
      ultimately show ?thesis
        using keep old set_update_subset_insert [of "br_calls ?B" k c'] unfolding calls by auto
    next
      case False
      then have "B' = ?B" unfolding B'_def unfolding BAdvance by (simp add: advance_call_def)
      with keep old show ?thesis by simp
    qed
  next
    case (BPost getenv admitted audit_ok now endpoint args url headers)
    show ?thesis
    proof (cases "begin_post getenv admitted audit_ok (br_journal ?B) now endpoint args url headers")
      case (Inr c)
      then have "justified C (xs @ [x]) c"
        using begin_post_Inr [of getenv admitted audit_ok C xs] by (simp add: BPost journal_after_def)
      with keep old Inr show ?thesis by (auto simp: B'_def BPost)
    qed (use keep old in \<open>simp add: B'_def BPost\<close>)
  next
    case (BStage getenv admitted audit_ok stack m g)
    have "justified C (xs @ [x]) c"
      if "begin_stage C getenv admitted audit_ok (br_journal ?B) stack m g = Inr c" for c
      using begin_stage_Inr [OF that] by auto
    with keep old show ?thesis by (auto simp: B'_def BStage split: sum.splits)
  qed (use keep old in \<open>auto simp: B'_def with_journal_def split: prod.splits sum.splits\<close>)
  then show ?case unfolding run' .
qed

section \<open>Properties\<close>

lemma journal_step_terminal:
  assumes "dict_get (j_games J) g = Some row" "gm_terminal row"
  shows "\<exists>row'. dict_get (j_games (fst (journal_step C J x))) g = Some row' \<and> gm_terminal row'"
proof (cases x)
  case (JObserve epoch gid state)
  show ?thesis
  proof (cases "snd (observe C J epoch gid state)")
    case (Inl e)
    with observe_raise [OF Inl] assms JObserve show ?thesis by simp
  next
    case (Inr r)
    then obtain J' where "observe C J epoch gid state = (J', Inr r)" by (cases "observe C J epoch gid state") auto
    with observe_history [OF this, of g] assms JObserve show ?thesis by auto
  qed
qed (use assms in \<open>simp_all add: submit_intent_def record_outcome_def\<close>)

lemma journal_run_terminal:
  "dict_get (j_games J) g = Some row \<Longrightarrow> gm_terminal row \<Longrightarrow>
   \<exists>row'. dict_get (j_games (run (journal_step C) J xs)) g = Some row' \<and> gm_terminal row'"
proof (induction xs arbitrary: J row)
  case Nil
  then show ?case by simp
next
  case (Cons x xs)
  from journal_step_terminal [OF Cons.prems] Cons.IH show ?case by (metis run_Cons)
qed

definition terminal_games :: "journal \<Rightarrow> string set" where
  "terminal_games J = {g. case dict_get (j_games J) g of None \<Rightarrow> False | Some row \<Rightarrow> gm_terminal row}"

text \<open>
  The authoritative history of a game only grows: whatever operations are
  called, with whatever snapshots, the history known earlier is a prefix of the one known
  later, and a game that was terminal stays terminal.
\<close>

theorem journal_history_grows:
  "prefix (history_of (run (journal_step C) empty_journal xs) g)
     (history_of (run (journal_step C) empty_journal (xs @ ys)) g) \<and>
   terminal_games (run (journal_step C) empty_journal xs)
     \<subseteq> terminal_games (run (journal_step C) empty_journal (xs @ ys))"
proof
  show "prefix (history_of (run (journal_step C) empty_journal xs) g)
     (history_of (run (journal_step C) empty_journal (xs @ ys)) g)"
    unfolding run_append by (rule journal.run_log [OF journal_reachable])
  show "terminal_games (run (journal_step C) empty_journal xs)
     \<subseteq> terminal_games (run (journal_step C) empty_journal (xs @ ys))"
  proof
    fix g' assume "g' \<in> terminal_games (run (journal_step C) empty_journal xs)"
    then obtain row where "dict_get (j_games (run (journal_step C) empty_journal xs)) g' = Some row" "gm_terminal row"
      by (auto simp: terminal_games_def split: option.splits)
    from journal_run_terminal [OF this, of C ys]
    show "g' \<in> terminal_games (run (journal_step C) empty_journal (xs @ ys))"
      by (auto simp: terminal_games_def run_append)
  qed
qed

text \<open>
  C13. At most one submission is open: in every reachable journal each game has at
  most one unconfirmed intent, each ply of a game was submitted at most once, and a confirmed
  intent is the move that the server's history has at that ply.
\<close>

theorem journal_single_intent:
  "length (unconfirmed (run (journal_step C) empty_journal xs) g) \<le> 1 \<and>
   length (submitted_moves (run (journal_step C) empty_journal xs) g ply) \<le> 1 \<and>
   (case dict_get (j_intents (run (journal_step C) empty_journal xs)) (g, ply) of
      None \<Rightarrow> submitted_moves (run (journal_step C) empty_journal xs) g ply = []
    | Some i \<Rightarrow> if in_status i = CONFIRMED
        then ply < length (history_of (run (journal_step C) empty_journal xs) g) \<and>
         history_of (run (journal_step C) empty_journal xs) g ! ply = in_move i
        else True)"
proof -
  let ?J = "run (journal_step C) empty_journal xs"
  have inv: "journal_inv ?J" by (rule journal_reachable)
  have "submitted_moves ?J g ply = (case dict_get (j_intents ?J) (g, ply) of
      None \<Rightarrow> [] | Some i \<Rightarrow> if in_status i = PREPARED then [] else [in_move i])"
    using inv unfolding journal_inv_def by blast
  moreover have "length (unconfirmed ?J g) \<le> 1" using inv by (simp add: journal_inv_def)
  ultimately show ?thesis
    using journal_inv_intent(2) [OF inv] by (auto simp: intent_ok_def split: option.splits)
qed

text \<open>
  C14. No move is ever sent twice: however calls of the bridge, responses, other
  processes and changes of the session owner interleave, at most one move request leaves for
  each ply of each game, and it carries the move that the journal recorded as submitted.
\<close>

theorem move_sent_at_most_once:
  "length (sent_moves (run (bridge_step C) start_bridge xs) g ply) \<le> 1 \<and>
   prefix (sent_moves (run (bridge_step C) start_bridge xs) g ply)
     (submitted_moves (br_journal (run (bridge_step C) start_bridge xs)) g ply)"
proof -
  let ?B = "run (bridge_step C) start_bridge xs"
  have inv: "journal_inv (br_journal ?B)"
    "mset (sent_moves ?B g ply) + mset (leaving_moves ?B g ply) \<subseteq># mset (submitted_moves (br_journal ?B) g ply)"
    using bridge_reachable [of C xs] by (simp_all add: bridge_inv_def)
  have "submitted_moves (br_journal ?B) g ply = (case dict_get (j_intents (br_journal ?B)) (g, ply) of
      None \<Rightarrow> [] | Some i \<Rightarrow> if in_status i = PREPARED then [] else [in_move i])"
    using inv(1) unfolding journal_inv_def by blast
  then have "submitted_moves (br_journal ?B) g ply = [] \<or> (\<exists>m. submitted_moves (br_journal ?B) g ply = [m])"
    by (simp split: option.splits)
  moreover have sub: "mset (sent_moves ?B g ply) \<subseteq># mset (submitted_moves (br_journal ?B) g ply)"
    using inv(2) by (rule subset_mset.order_trans [OF mset_subset_eq_add_left])
  ultimately show ?thesis
    using size_mset_mono [OF sub] by (cases "sent_moves ?B g ply") auto
qed

definition demo_env :: env where
  "demo_env v = (if v = ''ONLINE4B_ISOLATED_CONTAINER'' then Some ''1''
     else if v = ''ALLFATHER_RECOVERY_DB'' then Some ''db''
     else if v = ''ALLFATHER_RECOVERY_EPOCH'' then Some ''0123456789abcdef'' else None)"

definition demo_url :: url_parts where
  "demo_url = \<lparr>url_scheme = ''http'', url_netloc = ''127.0.0.1:8080'', url_hostname = Some ''127.0.0.1'',
     url_userinfo = False, url_path = ''/api/bot'', url_query = [], url_fragment = []\<rparr>"

text \<open>
  C15. Nothing is sent without authority, whatever happens between the steps of a
  call: for every request that left there is an earlier call of \<open>guarded_post\<close> that found the
  process's transport profile valid, the session of the process as the owner of the journal, no
  cooldown running, an authorised endpoint and a permitted URL; and a move request also has, after
  those checks and before it left, the step that turned the prepared intent of the same move on the
  same history into a submitted one while the same session still owned the journal.
\<close>

theorem request_authorised:
  assumes "r \<in> set (br_sent (run (bridge_step C) start_bridge xs))"
  shows "\<exists>ws getenv admitted audit_ok now args url headers profile.
     prefix (ws @ [BPost getenv admitted audit_ok now (sr_endpoint r) args url headers]) xs \<and>
     transport_context getenv admitted = Inr (profile, sr_epoch r) \<and> url_permitted profile url = Inr () \<and>
     unfenced (journal_after C ws) (sr_epoch r) now \<and>
     sr_endpoint r \<in> set allowed_posts \<and> sr_endpoint r \<notin> set denied_endpoints \<and>
     (case sr_move r of
        None \<Rightarrow> sr_endpoint r \<noteq> ''move''
      | Some (g, before, uci) \<Rightarrow> sr_endpoint r = ''move'' \<and> args = [g, uci] \<and>
          (\<exists>zs z. prefix (ws @ [BPost getenv admitted audit_ok now (sr_endpoint r) args url headers]) zs \<and>
             prefix (zs @ [z]) xs \<and> spends_intent C zs z (sr_epoch r) g before uci))"
proof -
  have "authorised C xs r" using requests_justified [of C xs] assms by blast
  then obtain ys args where "prefix ys xs" "posted C ys (sr_endpoint r) (sr_epoch r) args"
    and mv: "case sr_move r of None \<Rightarrow> sr_endpoint r \<noteq> ''move''
      | Some (g, before, uci) \<Rightarrow> sr_endpoint r = ''move'' \<and> args = [g, uci] \<and>
          (\<exists>zs z. prefix ys zs \<and> prefix (zs @ [z]) xs \<and> spends_intent C zs z (sr_epoch r) g before uci)"
    unfolding authorised_def by blast
  then show ?thesis unfolding posted_def by blast
qed

definition demo_chess :: chess_lib where
  "demo_chess = \<lparr>ch_parse = Some, ch_legal = (\<lambda>ms m. m \<noteq> ''0000''), ch_start = ''startpos''\<rparr>"

definition demo_epoch :: string where
  "demo_epoch = ''0123456789abcdef''"

definition demo_observed :: "bridge_op list" where
  "demo_observed = [BJournal (JActivate (PStr demo_epoch)),
     BJournal (JObserve demo_epoch (PStr ''g1'') (PDict [(''moves'', PStr ''e2e4'')]))]"

definition demo_prepared :: "bridge_op list" where
  "demo_prepared = demo_observed @ [BJournal (JPrepare demo_epoch ''g1'' (PList [PStr ''e2e4'']) ''e7e5'')]"

lemma demo_preparation:
  shows "\<exists>P ev. run (bridge_step demo_chess) start_bridge demo_prepared = \<lparr>br_journal = \<lparr>j_owner = Some demo_epoch,
     j_games = [(''g1'', \<lparr>gm_history = [''e2e4''], gm_terminal = False\<rparr>)],
     j_intents = [((''g1'', 1), \<lparr>in_history = [''e2e4''], in_position_id = P, in_move = ''e7e5'',
       in_status = PREPARED, in_epoch = demo_epoch\<rparr>)], j_cooldown = None, j_events = ev\<rparr>, br_calls = [], br_sent = []\<rparr>"
proof -
  define B where "B = run (bridge_step demo_chess) start_bridge demo_observed"
  define J where "J = br_journal B"
  have J: "j_owner J = Some demo_epoch" "j_intents J = []"
    "j_games J = [(''g1'', \<lparr>gm_history = [''e2e4''], gm_terminal = False\<rparr>)]" "j_cooldown J = None"
    and B: "br_calls B = []" "br_sent B = []"
    unfolding J_def B_def by code_simp+
  have can: "canonical_history demo_chess (PList [PStr ''e2e4'']) = Inr [''e2e4'']" by code_simp
  then obtain P where P: "history_position_id demo_chess (PList [PStr ''e2e4'']) = Inr P"
    by (simp add: history_position_id_def)
  have prep: "prepare demo_chess J demo_epoch ''g1'' (PList [PStr ''e2e4'']) ''e7e5'' =
      (log_event demo_epoch (Some ''g1'') (MovePrepared 1 P ''e7e5'') (J\<lparr>j_intents := [((''g1'', 1),
        \<lparr>in_history = [''e2e4''], in_position_id = P, in_move = ''e7e5'', in_status = PREPARED, in_epoch = demo_epoch\<rparr>)]\<rparr>), Inr P)"
    by (simp add: prepare_def can P check_epoch_def J unconfirmed_def)
  have "run (bridge_step demo_chess) start_bridge demo_prepared =
      fst (bridge_step demo_chess B (BJournal (JPrepare demo_epoch ''g1'' (PList [PStr ''e2e4'']) ''e7e5'')))"
    by (simp add: demo_prepared_def B_def run_append)
  with prep show ?thesis
    by (cases B, cases J) (use J B in \<open>auto simp: J_def forget_def log_event_def\<close>)
qed

definition demo_posting :: "bridge_op list" where
  "demo_posting = [BPost demo_env False True (Fin 200) ''move'' [''g1'', ''e7e5''] demo_url [],
     BAdvance 0 True (Fin 200) NetworkError, BAdvance 0 True (Fin 200) NetworkError,
     BAdvance 0 True (Fin 200) NetworkError]"

theorem request_authorised_witness:
  "\<exists>r zs z. br_sent (run (bridge_step demo_chess) start_bridge (demo_prepared @ demo_posting)) = [r] \<and>
     sr_move r = Some (''g1'', [''e2e4''], ''e7e5'') \<and> prefix (zs @ [z]) (demo_prepared @ demo_posting) \<and>
     spends_intent demo_chess zs z demo_epoch ''g1'' [''e2e4''] ''e7e5''"
proof -
  let ?r = "\<lparr>sr_endpoint = ''move'', sr_epoch = demo_epoch, sr_move = Some (''g1'', [''e2e4''], ''e7e5'')\<rparr>"
  obtain P ev where B: "run (bridge_step demo_chess) start_bridge demo_prepared = \<lparr>br_journal = \<lparr>j_owner = Some demo_epoch,
     j_games = [(''g1'', \<lparr>gm_history = [''e2e4''], gm_terminal = False\<rparr>)],
     j_intents = [((''g1'', 1), \<lparr>in_history = [''e2e4''], in_position_id = P, in_move = ''e7e5'',
       in_status = PREPARED, in_epoch = demo_epoch\<rparr>)], j_cooldown = None, j_events = ev\<rparr>, br_calls = [], br_sent = []\<rparr>"
    using demo_preparation by blast
  have "transport_context demo_env False = Inr (''offline'', demo_epoch)" "url_permitted ''offline'' demo_url = Inr ()"
    by code_simp+
  then have sent: "br_sent (run (bridge_step demo_chess) start_bridge (demo_prepared @ demo_posting)) = [?r]"
    by (simp add: run_append B demo_posting_def begin_call_def begin_post_def before_request_def require_unfenced_def
        cooldown_left_def check_epoch_def f_max_def denied_endpoints_def allowed_posts_def advance_call_def find_intent_def
        journal_intent_def latest_intent_def submit_found_def submit_intent_def change_status_def log_event_def
        set_status_def)
  then have "?r \<in> set (br_sent (run (bridge_step demo_chess) start_bridge (demo_prepared @ demo_posting)))" by simp
  from request_authorised [OF this] sent show ?thesis by auto
qed

lemma clamped:
  "f_finite s \<Longrightarrow> f_le (Fin 60) (f_max (Fin 60) (f_min s (Fin 86400))) \<and>
     f_le (f_max (Fin 60) (f_min s (Fin 86400))) (Fin 86400)"
  by (cases s) (auto simp: f_max_def f_min_def)


text \<open>
  A rate limit is recorded before anything else happens to the call: for every
  \<open>Retry-After\<close> header the cooldown lasts between 60 seconds and a day, so the
  journal accepts it, and while the session is still the owner the response to a
  limited request leaves a cooldown behind in one transaction.
\<close>

lemma rate_limit_recorded:
  assumes "j_owner J = Some (sr_epoch r)"
  shows "\<exists>J' until. receive_response audit_ok J now r (Response 429 retry_after) = (J', Limited r) \<and>
     j_cooldown J' = Some (until, ''http429:'' @ sr_endpoint r)"
proof -
  have "f_le (Fin 60) (cooldown_duration retry_after) \<and> f_le (cooldown_duration retry_after) (Fin 86400)"
    using clamped by (simp add: cooldown_duration_def split: option.splits)
  with assms show ?thesis
    by (simp add: receive_response_def establish_cooldown_def check_epoch_def Let_def)
qed

text \<open>
  The cooldown check is a transaction of its own: a cooldown that another call
  records after it does not stop the request that passed it.
\<close>

definition late_ops :: "bridge_op list" where
  "late_ops = [BJournal (JActivate (PStr demo_epoch)),
     BPost demo_env False True (Fin 200) ''accept'' [''g1''] demo_url [],
     BJournal (JCooldown demo_epoch (Fin 60) ''http429:move'' (Fin 200))]"

lemma late_cooldown_still_sends:
  "j_cooldown (journal_after demo_chess late_ops) = Some (Fin 260, ''http429:move'') \<and>
   length (br_sent (run (bridge_step demo_chess) start_bridge late_ops)) = 0 \<and>
   length (br_sent (run (bridge_step demo_chess) start_bridge
     (late_ops @ [BAdvance 0 True (Fin 201) NetworkError]))) = 1"
  by code_simp

end
