(* ===== verification/Gateway.thy ===== *)
theory Gateway
  imports Transport
begin

text \<open>
  \<^verbatim>\<open>deploy/lichess/live_gateway_state.py\<close>: the durable state of the account-wide
  gateway, which spends every irreversible request before it is transmitted and
  checks each move against the bridge's own journal.  Every method is one
  transaction; the stop switch, the clock and the readable bridge journal are
  arguments of the calls.  The chess library is a parameter: \<open>gc_push ms m\<close> is
  \<open>board.push_uci(m)\<close> on the board after \<open>ms\<close> (\<open>None\<close> when it raises),
  \<open>gc_parse\<close> is \<open>Move.from_uci\<close>, \<open>gc_legal ms m\<close> says that \<open>m\<close> is legal there
  and not null, \<open>gc_white ms\<close> that White is to move.
\<close>

section \<open>State and transactions\<close>

record gateway_chess =
  gc_push :: "string list \<Rightarrow> string \<Rightarrow> string option"
  gc_parse :: "string \<Rightarrow> string option"
  gc_legal :: "string list \<Rightarrow> string \<Rightarrow> bool"
  gc_white :: "string list \<Rightarrow> bool"

datatype gateway_error =
    OtherLease
  | StopSwitch
  | SessionConsumed
  | AccountCooldown
  | GatewayFenced
  | OtherChallenge
  | AcceptSpent
  | UnexpectedGameStart
  | ColorAbsent
  | UnexpectedGameFull
  | GameFullConflict
  | UnverifiedGameState
  | MovesConflict
  | GameNotVerified
  | PlyDiffers
  | ColorMissing
  | MalformedGame
  | MoveNotLegal
  | PostSpent
  | BridgeUnavailable
  | NoSubmittingIntent
  | BridgeHistoryMismatch
  | GatewayCooldownInvalid

record gateway =
  gw_nonce :: string
  gw_owner :: string
  gw_opponent :: string
  gw_challenge :: "string option"
  gw_accepted :: bool
  gw_game :: "string option"
  gw_game_full :: bool
  gw_terminal :: bool
  gw_suspended :: bool
  gw_cooldown :: pyfloat
  gw_history :: "string list"
  gw_color :: "string option"
  gw_posts :: "((string \<times> nat) \<times> (string \<times> string)) list"

text \<open>\<open>casefold\<close> on code points below 256; the micro sign is not covered.\<close>

definition casefold :: "string \<Rightarrow> string" where
  "casefold s = concat (map (\<lambda>c. if (of_char c :: nat) = 223 then ''ss'' else [lower_char c]) s)"

definition fresh_gateway :: "string \<Rightarrow> string \<Rightarrow> string \<Rightarrow> gateway" where
  "fresh_gateway nonce owner opponent = \<lparr>gw_nonce = nonce, gw_owner = casefold owner,
     gw_opponent = casefold opponent, gw_challenge = None, gw_accepted = False, gw_game = None,
     gw_game_full = False, gw_terminal = False, gw_suspended = False, gw_cooldown = Fin 0,
     gw_history = [], gw_color = None, gw_posts = []\<rparr>"

text \<open>Opening the database: the first lease binds it, a later one must be the same.\<close>

definition open_gateway :: "gateway option \<Rightarrow> string \<Rightarrow> string \<Rightarrow> string \<Rightarrow> gateway_error + gateway" where
  "open_gateway stored nonce owner opponent =
     (let G = (case stored of None \<Rightarrow> fresh_gateway nonce owner opponent | Some G \<Rightarrow> G) in
      if gw_nonce G \<noteq> nonce \<or> gw_owner G \<noteq> casefold owner \<or> gw_opponent G \<noteq> casefold opponent
      then Inl OtherLease else Inr G)"

definition suspend :: "gateway \<Rightarrow> gateway" where
  "suspend G = G\<lparr>gw_suspended := True\<rparr>"

text \<open>
  \<open>_mutate\<close>: \<open>check\<close> is the checker together with the statements that it and the
  call execute; it raises or returns the new state.
\<close>

definition mutate :: "bool \<Rightarrow> pyfloat \<Rightarrow> gateway \<Rightarrow> (gateway \<Rightarrow> gateway_error + gateway) \<Rightarrow>
    gateway \<times> (gateway_error + unit)" where
  "mutate stop now G check =
     (if stop then (suspend G, Inl StopSwitch)
      else if gw_suspended G \<or> gw_terminal G then (G, Inl SessionConsumed)
      else if f_less now (gw_cooldown G) then (G, Inl AccountCooldown)
      else raising G (check G) (\<lambda>G'. (G', Inr ())))"

definition require_active :: "bool \<Rightarrow> pyfloat \<Rightarrow> gateway \<Rightarrow> gateway \<times> (gateway_error + unit)" where
  "require_active stop now G =
     (if stop then (suspend G, Inl StopSwitch)
      else if gw_suspended G \<or> gw_terminal G then (G, Inl GatewayFenced)
      else if f_less now (gw_cooldown G) then (G, Inl AccountCooldown)
      else (G, Inr ()))"

section \<open>Operations\<close>

definition bind_challenge :: "string \<Rightarrow> gateway \<Rightarrow> gateway_error + gateway" where
  "bind_challenge cid G =
     (if gw_challenge G \<notin> {None, Some cid} \<or> gw_game G \<noteq> None then Inl OtherChallenge
      else Inr (G\<lparr>gw_challenge := Some cid\<rparr>))"

definition accept_once :: "string \<Rightarrow> gateway \<Rightarrow> gateway_error + gateway" where
  "accept_once cid G =
     (if gw_challenge G \<noteq> Some cid \<or> gw_accepted G \<or> gw_game G \<noteq> None then Inl AcceptSpent
      else Inr (G\<lparr>gw_accepted := True\<rparr>))"

definition game_start :: "string \<Rightarrow> gateway \<Rightarrow> gateway_error + gateway" where
  "game_start gid G =
     (if \<not> gw_accepted G \<or> gw_challenge G \<noteq> Some gid \<or> (gw_game G \<noteq> None \<and> gw_game G \<noteq> Some gid)
      then Inl UnexpectedGameStart
      else Inr (G\<lparr>gw_game := Some gid\<rparr>))"

definition history_extends :: "string list \<Rightarrow> string list \<Rightarrow> bool" where
  "history_extends old new \<longleftrightarrow> \<not> (length new < length old \<or> take (length old) new \<noteq> old)"

definition game_full :: "string \<Rightarrow> string list \<Rightarrow> string \<Rightarrow> gateway \<Rightarrow> gateway \<times> (gateway_error + unit)" where
  "game_full gid history color G =
     (if color \<notin> {''white'', ''black''} then (G, Inl ColorAbsent)
      else if gw_game G \<noteq> Some gid \<or> gw_terminal G \<or> gw_suspended G \<or>
          (gw_color G \<noteq> None \<and> gw_color G \<noteq> Some color)
      then (G, Inl UnexpectedGameFull)
      else if \<not> history_extends (gw_history G) history then (suspend G, Inl GameFullConflict)
      else (G\<lparr>gw_game_full := True, gw_history := history, gw_color := Some color\<rparr>, Inr ()))"

definition game_state :: "string \<Rightarrow> string list \<Rightarrow> bool \<Rightarrow> gateway \<Rightarrow> gateway \<times> (gateway_error + unit)" where
  "game_state gid history terminal G =
     (if gw_game G \<noteq> Some gid \<or> \<not> gw_game_full G \<or> gw_terminal G \<or> gw_suspended G
      then (G, Inl UnverifiedGameState)
      else if \<not> history_extends (gw_history G) history then (suspend G, Inl MovesConflict)
      else (G\<lparr>gw_history := history, gw_terminal := terminal\<rparr>, Inr ()))"

text \<open>The read-only check of the bridge's journal; \<open>None\<close> when it cannot be read.\<close>

definition verify_bridge_journal :: "journal option \<Rightarrow> string \<Rightarrow> string \<Rightarrow> nat \<Rightarrow> string \<Rightarrow> string list \<Rightarrow>
    gateway_error + unit" where
  "verify_bridge_journal bridge gid uci ply epoch history = (case bridge of
      None \<Rightarrow> Inl BridgeUnavailable
    | Some J \<Rightarrow> (case (dict_get (j_games J) gid, dict_get (j_intents J) (gid, ply)) of
        (Some row, Some i) \<Rightarrow>
          if j_owner J \<noteq> Some epoch \<or> gm_terminal row \<or> in_move i \<noteq> uci \<or> in_status i \<noteq> SUBMITTING \<or>
              in_epoch i \<noteq> epoch then Inl NoSubmittingIntent
          else if gm_history row \<noteq> history \<or> in_history i \<noteq> history then Inl BridgeHistoryMismatch
          else Inr ()
      | _ \<Rightarrow> Inl NoSubmittingIntent))"

fun replay_moves :: "gateway_chess \<Rightarrow> string list \<Rightarrow> string list \<Rightarrow> string list option" where
  "replay_moves C pushed [] = Some pushed"
| "replay_moves C pushed (m # ms) = (case gc_push C pushed m of
      None \<Rightarrow> None | Some c \<Rightarrow> replay_moves C (pushed @ [c]) ms)"

definition move_once :: "gateway_chess \<Rightarrow> journal option \<Rightarrow> string \<Rightarrow> string \<Rightarrow> nat \<Rightarrow> string \<Rightarrow> gateway \<Rightarrow>
    gateway_error + gateway" where
  "move_once C bridge gid uci ply epoch G =
     (if gw_game G \<noteq> Some gid \<or> \<not> gw_game_full G \<or> gw_terminal G then Inl GameNotVerified
      else if length (gw_history G) \<noteq> ply then Inl PlyDiffers
      else if gw_color G \<notin> {Some ''white'', Some ''black''} then Inl ColorMissing
      else case (replay_moves C [] (gw_history G), gc_parse C uci) of
        (Some board, Some m) \<Rightarrow>
          if \<not> gc_legal C board m \<or> gc_white C board \<noteq> (gw_color G = Some ''white'') then Inl MoveNotLegal
          else if dict_get (gw_posts G) (gid, ply) \<noteq> None then Inl PostSpent
          else rbind (verify_bridge_journal bridge gid uci ply epoch (gw_history G)) (\<lambda>_.
            Inr (G\<lparr>gw_posts := gw_posts G @ [((gid, ply), (epoch, uci))]\<rparr>))
      | _ \<Rightarrow> Inl MalformedGame)"

definition gateway_cooldown :: "pyfloat \<Rightarrow> pyfloat \<Rightarrow> gateway \<Rightarrow> gateway \<times> (gateway_error + unit)" where
  "gateway_cooldown seconds now G =
     (if \<not> (f_le (Fin 60) seconds \<and> f_le seconds (Fin 86400)) then (G, Inl GatewayCooldownInvalid)
      else (G\<lparr>gw_cooldown := f_max (gw_cooldown G) (f_add now seconds)\<rparr>, Inr ()))"

datatype gateway_op =
    GRequire bool pyfloat
  | GChallenge bool pyfloat string
  | GAccept bool pyfloat string
  | GStart bool pyfloat string
  | GFull string "string list" string
  | GState string "string list" bool
  | GMove bool pyfloat "journal option" string string nat string
  | GCooldown pyfloat pyfloat
  | GSuspend

fun gateway_step :: "gateway_chess \<Rightarrow> gateway \<Rightarrow> gateway_op \<Rightarrow> gateway \<times> (gateway_error + unit)" where
  "gateway_step C G (GRequire stop now) = require_active stop now G"
| "gateway_step C G (GChallenge stop now cid) = mutate stop now G (bind_challenge cid)"
| "gateway_step C G (GAccept stop now cid) = mutate stop now G (accept_once cid)"
| "gateway_step C G (GStart stop now gid) = mutate stop now G (game_start gid)"
| "gateway_step C G (GFull gid history color) = game_full gid history color G"
| "gateway_step C G (GState gid history terminal) = game_state gid history terminal G"
| "gateway_step C G (GMove stop now bridge gid uci ply epoch) =
     mutate stop now G (move_once C bridge gid uci ply epoch)"
| "gateway_step C G (GCooldown seconds now) = gateway_cooldown seconds now G"
| "gateway_step C G GSuspend = (suspend G, Inr ())"

section \<open>Invariant and monotonicity\<close>

lemma history_extends_eq [simp]: "history_extends old new \<longleftrightarrow> prefix old new"
  unfolding history_extends_def
  by (metis append_eq_conv_conj leD not_le_imp_less prefix_def prefix_length_le take_is_prefix)

definition posts_ok :: "gateway \<Rightarrow> bool" where
  "posts_ok G \<longleftrightarrow> dict_ok (gw_posts G) \<and>
     (\<forall>kp \<in> set (gw_posts G). gw_game G = Some (fst (fst kp)) \<and> snd (fst kp) \<le> length (gw_history G))"

definition gateway_inv :: "gateway \<Rightarrow> bool" where
  "gateway_inv G \<longleftrightarrow> posts_ok G \<and>
     (gw_game G \<noteq> None \<longrightarrow> gw_accepted G \<and> gw_challenge G = gw_game G)"

text \<open>What no operation takes back.\<close>

definition gateway_le :: "gateway \<Rightarrow> gateway \<Rightarrow> bool" where
  "gateway_le G H \<longleftrightarrow> prefix (gw_posts G) (gw_posts H) \<and> prefix (gw_history G) (gw_history H) \<and>
     (gw_game G \<noteq> None \<longrightarrow> gw_game H = gw_game G \<and> gw_challenge H = gw_challenge G) \<and>
     (gw_color G \<noteq> None \<longrightarrow> gw_color H = gw_color G) \<and>
     (gw_suspended G \<longrightarrow> gw_suspended H) \<and> (gw_terminal G \<longrightarrow> gw_terminal H) \<and>
     (gw_accepted G \<longrightarrow> gw_accepted H) \<and>
     (gw_suspended G \<or> gw_terminal G \<longrightarrow> gw_posts H = gw_posts G)"

lemma gateway_le_refl [simp]: "gateway_le G G"
  by (simp add: gateway_le_def)

lemma gateway_le_trans: "gateway_le F G \<Longrightarrow> gateway_le G H \<Longrightarrow> gateway_le F H"
  unfolding gateway_le_def by (metis prefix_order.trans)

lemma gateway_le_suspend [simp]: "gateway_le G (suspend G)"
  by (simp add: gateway_le_def suspend_def)

lemma mutate_le:
  assumes "\<And>G'. \<not> gw_suspended G \<Longrightarrow> \<not> gw_terminal G \<Longrightarrow> check G = Inr G' \<Longrightarrow> gateway_le G G'"
  shows "gateway_le G (fst (mutate stop now G check))"
  using assms by (auto simp: mutate_def raising_def split: sum.splits)

lemma move_once_Inr:
  assumes "move_once C bridge gid uci ply epoch G = Inr G'"
  shows "gw_game G = Some gid \<and> gw_game_full G \<and> \<not> gw_terminal G \<and> length (gw_history G) = ply \<and>
    gw_color G \<in> {Some ''white'', Some ''black''} \<and>
    dict_get (gw_posts G) (gid, ply) = None \<and>
    verify_bridge_journal bridge gid uci ply epoch (gw_history G) = Inr () \<and>
    (\<exists>board m. replay_moves C [] (gw_history G) = Some board \<and> gc_parse C uci = Some m \<and> gc_legal C board m \<and>
       gc_white C board = (gw_color G = Some ''white'')) \<and>
    G' = G\<lparr>gw_posts := gw_posts G @ [((gid, ply), (epoch, uci))]\<rparr>"
  using assms by (auto simp: move_once_def rbind_eq_Inr split: if_splits option.splits)

lemma verify_bridge_Inr:
  "verify_bridge_journal bridge gid uci ply epoch history = Inr () \<longleftrightarrow>
     (\<exists>J row i. bridge = Some J \<and> dict_get (j_games J) gid = Some row \<and>
        dict_get (j_intents J) (gid, ply) = Some i \<and> j_owner J = Some epoch \<and> \<not> gm_terminal row \<and>
        in_move i = uci \<and> in_status i = SUBMITTING \<and> in_epoch i = epoch \<and>
        gm_history row = history \<and> in_history i = history)"
  by (auto simp: verify_bridge_journal_def split: option.splits if_splits)

lemma gateway_step_le: "gateway_inv G \<Longrightarrow> gateway_le G (fst (gateway_step C G x))"
proof (cases x)
  case (GMove stop now bridge gid uci ply epoch)
  show ?thesis unfolding GMove gateway_step.simps
    by (rule mutate_le) (auto dest!: move_once_Inr simp: gateway_le_def)
qed (auto simp: require_active_def bind_challenge_def accept_once_def game_start_def game_full_def game_state_def
    gateway_cooldown_def gateway_le_def suspend_def gateway_inv_def mutate_def raising_def split: if_splits)

lemma posts_ok_le:
  assumes "posts_ok G" "gateway_le G H" "gw_posts H = gw_posts G"
  shows "posts_ok H"
  using assms by (fastforce simp: posts_ok_def gateway_le_def dest: prefix_length_le)

lemma other_posts:
  "\<nexists>stop now b g uci ply ep. x = GMove stop now b g uci ply ep \<Longrightarrow> gw_posts (fst (gateway_step C G x)) = gw_posts G"
  by (cases x; (blast | simp)) (simp_all add: require_active_def bind_challenge_def accept_once_def game_start_def game_full_def
      game_state_def gateway_cooldown_def suspend_def mutate_def raising_def)

lemma gateway_step_posts: "gateway_inv G \<Longrightarrow> posts_ok (fst (gateway_step C G x))"
proof (cases "\<exists>stop now b g uci ply ep. x = GMove stop now b g uci ply ep")
  case True
  assume inv: "gateway_inv G"
  from True obtain stop now b g uci ply ep where x: "x = GMove stop now b g uci ply ep" by blast
  show ?thesis
  proof (cases "gw_posts (fst (gateway_step C G x)) = gw_posts G")
    case True
    with inv posts_ok_le [OF _ gateway_step_le [OF inv] True] show ?thesis by (simp add: gateway_inv_def)
  next
    case False
    then have "move_once C b g uci ply ep G = Inr (fst (gateway_step C G x))"
      by (auto simp: x mutate_def raising_def suspend_def split: if_splits sum.splits)
    from move_once_Inr [OF this] inv show ?thesis
      by (auto simp: gateway_inv_def posts_ok_def dict_get_None)
  qed
next
  case False
  assume inv: "gateway_inv G"
  from inv posts_ok_le [OF _ gateway_step_le [OF inv] other_posts [OF False]] show ?thesis
    by (simp add: gateway_inv_def)
qed

lemma gateway_step_inv: "gateway_inv G \<Longrightarrow> gateway_inv (fst (gateway_step C G x))"
proof -
  assume inv: "gateway_inv G"
  have "gw_game (fst (gateway_step C G x)) \<noteq> None \<longrightarrow> gw_accepted (fst (gateway_step C G x)) \<and>
      gw_challenge (fst (gateway_step C G x)) = gw_game (fst (gateway_step C G x))"
  proof (cases x)
    case (GMove stop now bridge gid uci ply epoch)
    with inv show ?thesis
      by (auto simp: gateway_inv_def mutate_def raising_def suspend_def dest!: move_once_Inr split: sum.splits)
  qed (use inv in \<open>auto simp: gateway_inv_def require_active_def bind_challenge_def accept_once_def game_start_def
      game_full_def game_state_def gateway_cooldown_def suspend_def mutate_def raising_def\<close>)
  with gateway_step_posts [OF inv] show ?thesis by (simp add: gateway_inv_def)
qed

interpretation gateway: growing "gateway_step C" gateway_inv gw_posts for C
proof unfold_locales
  fix G x
  assume "gateway_inv G"
  then show "gateway_inv (fst (gateway_step C G x))" "prefix (gw_posts G) (gw_posts (fst (gateway_step C G x)))"
    using gateway_step_inv gateway_step_le by (auto simp: gateway_le_def)
qed

lemma gateway_run_le: "gateway_inv G \<Longrightarrow> gateway_le G (run (gateway_step C) G xs)"
proof (induction xs arbitrary: G)
  case (Cons x xs)
  show ?case unfolding run_Cons
    by (rule gateway_le_trans [OF gateway_step_le [OF Cons.prems] Cons.IH [OF gateway_step_inv [OF Cons.prems]]])
qed simp

lemma fresh_gateway_inv: "gateway_inv (fresh_gateway nonce owner opponent)"
  by (simp add: gateway_inv_def posts_ok_def fresh_gateway_def)

lemma admitted_move:
  assumes "gateway_step C G (GMove stop now bridge gid uci ply epoch) = (G', Inr ())"
  shows "\<not> stop \<and> \<not> gw_suspended G \<and> \<not> gw_terminal G \<and> \<not> f_less now (gw_cooldown G)"
    and "move_once C bridge gid uci ply epoch G = Inr G'"
    and "dict_get (gw_posts G) (gid, ply) = None"
    and "dict_get (gw_posts G') (gid, ply) = Some (epoch, uci)"
    and "\<exists>J row i. bridge = Some J \<and> j_owner J = Some epoch \<and> dict_get (j_games J) gid = Some row \<and>
        \<not> gm_terminal row \<and> gm_history row = gw_history G \<and> dict_get (j_intents J) (gid, ply) = Some i \<and>
        in_status i = SUBMITTING \<and> in_move i = uci \<and> in_epoch i = epoch \<and> in_history i = gw_history G"
proof -
  show "\<not> stop \<and> \<not> gw_suspended G \<and> \<not> gw_terminal G \<and> \<not> f_less now (gw_cooldown G)"
    and mv: "move_once C bridge gid uci ply epoch G = Inr G'"
    using assms by (auto simp: mutate_def raising_Inr_iff split: if_splits)
  note facts = move_once_Inr [OF mv]
  show "dict_get (gw_posts G) (gid, ply) = None" using facts by blast
  show "dict_get (gw_posts G') (gid, ply) = Some (epoch, uci)" using facts by (auto simp: map_add_def)
  show "\<exists>J row i. bridge = Some J \<and> j_owner J = Some epoch \<and> dict_get (j_games J) gid = Some row \<and>
        \<not> gm_terminal row \<and> gm_history row = gw_history G \<and> dict_get (j_intents J) (gid, ply) = Some i \<and>
        in_status i = SUBMITTING \<and> in_move i = uci \<and> in_epoch i = epoch \<and> in_history i = gw_history G"
    using facts by (auto simp: verify_bridge_Inr)
qed

section \<open>Properties\<close>

text \<open>
  The gateway spends each ply once and never takes a fact back: along every
  run the posts only grow and name each ply of the one bound game at most once, the history
  only extends, suspension and termination are final and no post follows them.
\<close>

theorem gateway_monotone:
  "distinct (map fst (gw_posts (run (gateway_step C) (fresh_gateway nonce owner opponent) xs))) \<and>
   (fst \<circ> fst) ` set (gw_posts (run (gateway_step C) (fresh_gateway nonce owner opponent) xs))
     \<subseteq> set_option (gw_game (run (gateway_step C) (fresh_gateway nonce owner opponent) xs)) \<and>
   gateway_le (run (gateway_step C) (fresh_gateway nonce owner opponent) xs)
     (run (gateway_step C) (fresh_gateway nonce owner opponent) (xs @ ys))"
proof -
  have inv: "gateway_inv (run (gateway_step C) (fresh_gateway nonce owner opponent) xs)"
    by (rule gateway.run_inv [OF fresh_gateway_inv])
  with gateway_run_le [OF inv, of C ys] show ?thesis
    by (auto simp: run_append gateway_inv_def posts_ok_def)
qed

definition demo_gateway_chess :: gateway_chess where
  "demo_gateway_chess = \<lparr>gc_push = (\<lambda>ms m. Some m), gc_parse = Some, gc_legal = (\<lambda>ms m. m \<noteq> ''0000''),
     gc_white = (\<lambda>ms. even (length ms))\<rparr>"

definition demo_gateway :: gateway where
  "demo_gateway = run (gateway_step demo_gateway_chess) (fresh_gateway ''nonce'' ''Owner'' ''Other'')
     [GChallenge False (Fin 0) ''g1'', GAccept False (Fin 0) ''g1'', GStart False (Fin 0) ''g1'',
      GFull ''g1'' [''e2e4''] ''black'']"

definition demo_journal :: journal where
  "demo_journal = \<lparr>j_owner = Some ''0123456789abcdef'',
     j_games = [(''g1'', \<lparr>gm_history = [''e2e4''], gm_terminal = False\<rparr>)],
     j_intents = [((''g1'', 1), \<lparr>in_history = [''e2e4''], in_position_id = ''pos'', in_move = ''e7e5'',
        in_status = PREPARED, in_epoch = ''0123456789abcdef''\<rparr>)],
     j_cooldown = Some (Fin 100, ''http429:move''), j_events = []\<rparr>"

definition demo_bridge_journal :: journal where
  "demo_bridge_journal = fst (submit_intent demo_journal ''0123456789abcdef'' ''g1'' ''e7e5'' [''e2e4''])"

definition demo_post :: "gateway \<times> (gateway_error + unit)" where
  "demo_post = gateway_step demo_gateway_chess demo_gateway (GMove False (Fin 200) (Some demo_bridge_journal)
     ''g1'' ''e7e5'' 1 ''0123456789abcdef'')"

text \<open>
  C16. The gateway admits a move only in the bound, verified game and against the
  bridge's durable record: when a move is admitted the gateway is neither stopped, suspended nor
  terminal and not in cooldown, the full state of the bound game was verified and our colour is
  bound, the move is legal after the agreed history with that colour to move, its ply was not
  spent and now is, and the bridge's journal has, under the same session, a running game with the
  same history and a submitted intent of that session for the same move on that history.
\<close>

theorem gateway_move_verified:
  assumes "gateway_step C G (GMove stop now bridge gid uci ply epoch) = (G', Inr ())"
  shows "\<not> stop \<and> \<not> gw_suspended G \<and> \<not> gw_terminal G \<and> \<not> f_less now (gw_cooldown G) \<and>
     gw_game G = Some gid \<and> gw_game_full G \<and> gw_color G \<in> {Some ''white'', Some ''black''} \<and>
     ply = length (gw_history G) \<and>
     (\<exists>board m. replay_moves C [] (gw_history G) = Some board \<and> gc_parse C uci = Some m \<and>
        gc_legal C board m \<and> gc_white C board = (gw_color G = Some ''white'')) \<and>
     dict_get (gw_posts G) (gid, ply) = None \<and> dict_get (gw_posts G') (gid, ply) = Some (epoch, uci) \<and>
     (\<exists>J row i. bridge = Some J \<and> j_owner J = Some epoch \<and> dict_get (j_games J) gid = Some row \<and>
        \<not> gm_terminal row \<and> gm_history row = gw_history G \<and> dict_get (j_intents J) (gid, ply) = Some i \<and>
        in_status i = SUBMITTING \<and> in_move i = uci \<and> in_epoch i = epoch \<and> in_history i = gw_history G)"
  using admitted_move [OF assms] move_once_Inr [OF admitted_move(2) [OF assms]] by blast

theorem gateway_move_verified_witness:
  "snd demo_post = Inr () \<and> dict_get (gw_posts (fst demo_post)) (''g1'', 1) = Some (''0123456789abcdef'', ''e7e5'')"
proof -
  have ok: "snd demo_post = Inr ()" by code_simp
  then have "gateway_step demo_gateway_chess demo_gateway (GMove False (Fin 200) (Some demo_bridge_journal)
     ''g1'' ''e7e5'' 1 ''0123456789abcdef'') = (fst demo_post, Inr ())"
    unfolding demo_post_def by (metis prod.collapse)
  from gateway_move_verified [OF this] ok show ?thesis by blast
qed

text \<open>
  C17. Bridge and gateway together agree on game, ply, move, history and session:
  against the journal of any bridge state that the calls of the bridge can reach, an admitted move
  is the one and only move that the journal recorded as submitted for that ply, by the session that
  owns the journal and that the gateway was told, on the gateway's own history; the gateway records
  it under that session and admits no second one for the ply, whatever either side does next.
\<close>

theorem gateway_forwards_submitted:
  assumes "B = run (bridge_step D) start_bridge ys" "G = run (gateway_step C) (fresh_gateway nonce owner opponent) xs"
    and "gateway_step C G (GMove stop now (Some (br_journal B)) gid uci ply epoch) = (G', Inr ())"
  shows "submitted_moves (br_journal B) gid ply = [uci] \<and> j_owner (br_journal B) = Some epoch \<and>
     map_option in_epoch (dict_get (j_intents (br_journal B)) (gid, ply)) = Some epoch \<and>
     map_option in_move (dict_get (j_intents (br_journal B)) (gid, ply)) = Some uci \<and>
     map_option in_history (dict_get (j_intents (br_journal B)) (gid, ply)) = Some (gw_history G) \<and>
     history_of (br_journal B) gid = gw_history G \<and> length (gw_history G) = ply \<and>
     dict_get (gw_posts G') (gid, ply) = Some (epoch, uci) \<and>
     (\<forall>zs m e stop' now' bridge. snd (gateway_step C (run (gateway_step C) G' zs)
        (GMove stop' now' bridge gid m ply e)) \<noteq> Inr ())"
proof (intro conjI allI notI)
  note facts = admitted_move [OF assms(3)] move_once_Inr [OF admitted_move(2) [OF assms(3)]]
  have "journal_inv (br_journal B)" using bridge_reachable [of D ys] by (simp add: assms(1) bridge_inv_def)
  with facts(5) show "submitted_moves (br_journal B) gid ply = [uci]"
    using submitted_pending by fastforce
  show "j_owner (br_journal B) = Some epoch"
    and "map_option in_epoch (dict_get (j_intents (br_journal B)) (gid, ply)) = Some epoch"
    and "map_option in_move (dict_get (j_intents (br_journal B)) (gid, ply)) = Some uci"
    and "map_option in_history (dict_get (j_intents (br_journal B)) (gid, ply)) = Some (gw_history G)"
    and "history_of (br_journal B) gid = gw_history G"
    using facts(5) by (auto simp: history_of_def)
  show "length (gw_history G) = ply" using facts(6) by blast
  show "dict_get (gw_posts G') (gid, ply) = Some (epoch, uci)" by (rule facts(4))
  fix zs m e stop' now' bridge
  let ?H = "run (gateway_step C) G' zs"
  assume "snd (gateway_step C ?H (GMove stop' now' bridge gid m ply e)) = Inr ()"
  then have "gateway_step C ?H (GMove stop' now' bridge gid m ply e) =
      (fst (gateway_step C ?H (GMove stop' now' bridge gid m ply e)), Inr ())" by (metis prod.collapse)
  from admitted_move(3) [OF this] have "dict_get (gw_posts ?H) (gid, ply) = None" .
  moreover have "gateway_inv G" unfolding assms(2) by (rule gateway.run_inv [OF fresh_gateway_inv])
  then have "gateway_inv G'" using gateway_step_inv assms(3) by (metis fst_conv)
  from gateway_run_le [OF this, of C zs] have "prefix (gw_posts G') (gw_posts ?H)" by (simp add: gateway_le_def)
  then have "set (gw_posts G') \<subseteq> set (gw_posts ?H)" by (rule set_mono_prefix)
  ultimately show False using facts(4) by (force simp: dict_get_None dest: map_of_SomeD)
qed

definition demo_submitted :: "bridge_op list" where
  "demo_submitted = [BJournal (JSubmit demo_epoch ''g1'' ''e7e5'' [''e2e4''])]"

lemma demo_submission:
  assumes "J = br_journal (run (bridge_step demo_chess) start_bridge (demo_prepared @ demo_submitted))"
  shows "\<exists>i. j_owner J = Some demo_epoch \<and> j_games J = [(''g1'', \<lparr>gm_history = [''e2e4''], gm_terminal = False\<rparr>)] \<and>
     j_intents J = [((''g1'', 1), i)] \<and> in_history i = [''e2e4''] \<and> in_move i = ''e7e5'' \<and>
     in_status i = SUBMITTING \<and> in_epoch i = demo_epoch"
proof -
  from demo_preparation obtain P ev where B: "run (bridge_step demo_chess) start_bridge demo_prepared =
     \<lparr>br_journal = \<lparr>j_owner = Some demo_epoch, j_games = [(''g1'', \<lparr>gm_history = [''e2e4''], gm_terminal = False\<rparr>)],
     j_intents = [((''g1'', 1), \<lparr>in_history = [''e2e4''], in_position_id = P, in_move = ''e7e5'',
       in_status = PREPARED, in_epoch = demo_epoch\<rparr>)], j_cooldown = None, j_events = ev\<rparr>, br_calls = [], br_sent = []\<rparr>"
    by blast
  show ?thesis
    by (simp add: assms run_append B demo_submitted_def submit_intent_def change_status_def check_epoch_def
        log_event_def set_status_def)
qed

theorem gateway_forwards_submitted_witness:
  "submitted_moves (br_journal (run (bridge_step demo_chess) start_bridge (demo_prepared @ demo_submitted))) ''g1'' 1
     = [''e7e5'']"
proof -
  define B where "B = run (bridge_step demo_chess) start_bridge (demo_prepared @ demo_submitted)"
  define G where "G = run (gateway_step demo_gateway_chess) (fresh_gateway ''nonce'' ''Owner'' ''Other'')
     [GChallenge False (Fin 0) ''g1'', GAccept False (Fin 0) ''g1'', GStart False (Fin 0) ''g1'',
      GFull ''g1'' [''e2e4''] ''black'']"
  obtain i where J: "j_owner (br_journal B) = Some demo_epoch"
    "j_games (br_journal B) = [(''g1'', \<lparr>gm_history = [''e2e4''], gm_terminal = False\<rparr>)]"
    "j_intents (br_journal B) = [((''g1'', 1), i)]"
    "in_history i = [''e2e4'']" "in_move i = ''e7e5''" "in_status i = SUBMITTING" "in_epoch i = demo_epoch"
    using demo_submission [OF arg_cong [OF B_def, of br_journal]] by blast
  then have bridge: "verify_bridge_journal (Some (br_journal B)) ''g1'' ''e7e5'' 1 demo_epoch [''e2e4''] = Inr ()"
    by (simp add: verify_bridge_journal_def)
  have G: "gw_game G = Some ''g1''" "gw_game_full G" "\<not> gw_terminal G" "\<not> gw_suspended G" "gw_cooldown G = Fin 0"
    "gw_history G = [''e2e4'']" "gw_color G = Some ''black''" "gw_posts G = []"
    unfolding G_def by code_simp+
  have "gateway_step demo_gateway_chess G (GMove False (Fin 200) (Some (br_journal B)) ''g1'' ''e7e5'' 1 demo_epoch) =
      (G\<lparr>gw_posts := [((''g1'', 1), (demo_epoch, ''e7e5''))]\<rparr>, Inr ())"
    using bridge by (simp add: mutate_def move_once_def G demo_gateway_chess_def)
  from gateway_forwards_submitted [OF B_def G_def this] show ?thesis unfolding B_def by blast
qed

end
