(* ===== verification/PyAmount.thy ===== *)
theory PyAmount
  imports PyVal
begin

text \<open>
  Sums and decimal rounding of binary64 amounts: the built-in \<open>sum\<close>, which since Python 3.12
  carries a compensation term, \<open>round(x, 3)\<close>, and the range of amounts on which binary64 addition is exact.
\<close>

section \<open>Sums\<close>

fun f_abs :: "pyfloat \<Rightarrow> pyfloat" where
  "f_abs (Fin a) = Fin \<bar>a\<bar>"
| "f_abs NegInf = PosInf"
| "f_abs x = x"

lemma f_le_trans: "f_le x y \<Longrightarrow> f_le y z \<Longrightarrow> f_le x z"
  by (cases x; cases y; cases z) auto

text \<open>The loop of \<open>sum\<close>: running total and the rounding errors collected so far.\<close>

fun sum_loop :: "pyfloat \<Rightarrow> pyfloat \<Rightarrow> pyfloat list \<Rightarrow> pyfloat" where
  "sum_loop tot cor [] = (if cor \<noteq> Fin 0 \<and> f_finite cor then f_add tot cor else tot)"
| "sum_loop tot cor (x # xs) = (let t = f_add tot x in
     sum_loop t (f_add cor (if f_le (f_abs x) (f_abs tot) then f_add (f_sub tot t) x
       else f_add (f_sub x t) tot)) xs)"

fun f_sum :: "pyfloat list \<Rightarrow> pyfloat" where
  "f_sum [] = Fin 0"
| "f_sum (x # xs) = sum_loop x (Fin 0) xs"

text \<open>\<open>round(x, 3)\<close>: the decimal nearest to the exact value, ties to even, as a float.\<close>

fun f_round3 :: "pyfloat \<Rightarrow> pyfloat" where
  "f_round3 (Fin a) = of_rat64 (of_int (rnd_even (a * 1000)) / 1000)"
| "f_round3 x = x"

section \<open>Exact amounts\<close>

text \<open>
  Milliseconds in steps of \<open>2 ^ -20\<close> up to \<open>2 ^ 32\<close> (about fifty days): sums and differences of
  such amounts are representable, so the arithmetic of a ledger that stays in this range is exact.
\<close>

definition on_grid :: "rat \<Rightarrow> bool" where
  "on_grid a \<longleftrightarrow> of_int \<lfloor>a * 2 ^ 20\<rfloor> = a * 2 ^ 20"

definition exact_ms :: "rat \<Rightarrow> bool" where
  "exact_ms a \<longleftrightarrow> on_grid a \<and> 0 \<le> a \<and> a \<le> 2 ^ 32"

definition amount :: "pyfloat \<Rightarrow> rat" where
  "amount x = (case x of Fin a \<Rightarrow> a | _ \<Rightarrow> 0)"

lemma amount_Fin [simp]: "amount (Fin a) = a"
  by (simp add: amount_def)

lemma on_grid_iff: "on_grid a \<longleftrightarrow> (\<exists>m :: int. a = of_int m / 2 ^ 20)"
proof
  assume "on_grid a"
  then obtain m :: int where "of_int m = a * 2 ^ 20"
    unfolding on_grid_def by blast
  then have "a = of_int m / 2 ^ 20" by simp
  then show "\<exists>m :: int. a = of_int m / 2 ^ 20" by blast
next
  assume "\<exists>m :: int. a = of_int m / 2 ^ 20"
  then obtain m :: int where "a * 2 ^ 20 = of_int m" by auto
  then show "on_grid a"
    by (simp only: on_grid_def floor_of_int)
qed

lemma on_grid_0 [simp]: "on_grid 0"
  by (simp add: on_grid_def)

lemma on_grid_int [simp]: "on_grid (of_int i)"
  unfolding on_grid_iff by (rule exI [of _ "i * 2 ^ 20"]) simp

lemma on_grid_numeral [simp]: "on_grid (numeral n)"
  using on_grid_int [of "numeral n"] by simp

lemma on_grid_add [intro]: "on_grid a \<Longrightarrow> on_grid b \<Longrightarrow> on_grid (a + b)"
  unfolding on_grid_iff by (metis add_divide_distrib of_int_add)

lemma on_grid_diff [intro]: "on_grid a \<Longrightarrow> on_grid b \<Longrightarrow> on_grid (a - b)"
  unfolding on_grid_iff by (metis diff_divide_distrib of_int_diff)

lemma on_grid_sum_list [intro]: "(\<forall>a \<in> set as. on_grid a) \<Longrightarrow> on_grid (sum_list as)"
  by (induction as) auto

lemma is_double_grid:
  assumes "on_grid a" "\<bar>a\<bar> \<le> 2 ^ 33"
  shows "is_double a"
proof -
  obtain m :: int where m: "a = of_int m / 2 ^ 20"
    using assms(1) by (auto simp: on_grid_iff)
  have "\<bar>of_int m :: rat\<bar> \<le> 2 ^ 53"
    using assms(2) by (simp add: m abs_le_iff field_simps)
  then have bound: "\<bar>m\<bar> \<le> 2 ^ 53"
    by (metis of_int_abs of_int_le_iff of_int_numeral of_int_power)
  have "a = of_int m * 2 powi - 20"
    by (simp add: m power_int_minus_divide)
  then have "round64 a = a"
    using round64_exact [of a m "- 20"] bound by simp
  moreover have "\<bar>a\<bar> \<le> max_double"
  proof -
    have "(2 :: rat) ^ 33 \<le> max_double"
      by (simp add: max_double_def)
    with assms(2) show ?thesis by linarith
  qed
  ultimately show ?thesis by (simp add: is_double_def)
qed

lemma grid_add: "on_grid a \<Longrightarrow> on_grid b \<Longrightarrow> \<bar>a + b\<bar> \<le> 2 ^ 33 \<Longrightarrow> f_add (Fin a) (Fin b) = Fin (a + b)"
  by (intro f_add_exact is_double_grid on_grid_add)

lemma grid_sub: "on_grid a \<Longrightarrow> on_grid b \<Longrightarrow> \<bar>a - b\<bar> \<le> 2 ^ 33 \<Longrightarrow> f_sub (Fin a) (Fin b) = Fin (a - b)"
  by (intro f_sub_exact is_double_grid on_grid_diff)

lemma sum_loop_exact:
  assumes "on_grid a" "0 \<le> a" "\<forall>x \<in> set xs. on_grid x \<and> 0 \<le> x" "a + sum_list xs \<le> 2 ^ 33"
  shows "sum_loop (Fin a) (Fin 0) (map Fin xs) = Fin (a + sum_list xs)"
  using assms
proof (induction xs arbitrary: a)
  case Nil
  then show ?case by simp
next
  case (Cons x xs)
  have nonneg: "0 \<le> sum_list xs"
    using Cons.prems(3) by (intro sum_list_nonneg) auto
  have x: "on_grid x" "0 \<le> x" "on_grid (a + x)" "0 \<le> a + x" "a + x \<le> 2 ^ 33"
    using Cons.prems nonneg by (auto intro: on_grid_add)
  have t: "f_add (Fin a) (Fin x) = Fin (a + x)"
    using x Cons.prems by (intro grid_add) auto
  have e1: "f_add (f_sub (Fin a) (Fin (a + x))) (Fin x) = Fin 0"
    using grid_sub [of a "a + x"] x Cons.prems(1,2)
    by (simp add: of_rat64_double)
  have e2: "f_add (f_sub (Fin x) (Fin (a + x))) (Fin a) = Fin 0"
    using grid_sub [of x "a + x"] x Cons.prems(1,2)
    by (simp add: of_rat64_double)
  have "sum_loop (Fin a) (Fin 0) (map Fin (x # xs)) = sum_loop (Fin (a + x)) (Fin 0) (map Fin xs)"
    using t e1 e2 by (simp add: Let_def of_rat64_double del: f_add.simps)
  also have "\<dots> = Fin (a + x + sum_list xs)"
    using Cons.prems x by (intro Cons.IH) (auto simp: add.assoc)
  finally show ?case by (simp add: add.assoc)
qed

lemma f_sum_exact:
  assumes "\<forall>x \<in> set xs. on_grid x \<and> 0 \<le> x" "sum_list xs \<le> 2 ^ 33"
  shows "f_sum (map Fin xs) = Fin (sum_list xs)"
  using assms by (cases xs) (simp_all add: sum_loop_exact)

text \<open>Evaluation of operations whose results are integers of ordinary size.\<close>

lemma of_rat64_numeral [simp]: "(numeral n :: int) \<le> 2 ^ 53 \<Longrightarrow> of_rat64 (numeral n) = Fin (numeral n)"
  using is_double_int [of "numeral n"] by (simp add: of_rat64_double)

lemma of_rat64_minus_numeral [simp]: "(numeral n :: int) \<le> 2 ^ 53 \<Longrightarrow> of_rat64 (- numeral n) = Fin (- numeral n)"
  using is_double_int [of "- numeral n"] by (simp add: of_rat64_double)

lemma of_rat64_0 [simp]: "of_rat64 0 = Fin 0"
  by (simp add: of_rat64_double)

lemma of_rat64_1 [simp]: "of_rat64 1 = Fin 1"
  using is_double_int [of 1] by (simp add: of_rat64_double)

lemma float_of_int_numeral [simp]: "(numeral n :: int) \<le> 2 ^ 53 \<Longrightarrow> float_of_int (numeral n) = Some (Fin (numeral n))"
  by (simp add: float_of_int_def)

lemma float_of_int_0 [simp]: "float_of_int 0 = Some (Fin 0)" "float_of_int 1 = Some (Fin 1)"
  by (simp_all add: float_of_int_def)

lemmas float_eval = f_sub_def f_max_def f_min_def

end
