(* ===== verification/Budget.thy ===== *)
theory Budget
  imports PyAmount "HOL-Library.Product_Lexorder"
begin

text \<open>
  \<^verbatim>\<open>controller/budget.py\<close>: the declared resource envelope of one search and the ledger of
  reservations, settlements and charges against it.  Amounts are binary64 milliseconds; an argument whose type the
  code tests is a \<open>pyval\<close>, and an integer is represented by its \<open>float\<close>.  Every method
  holds the ledger's lock, so it is one step.  A state is returned beside every
  exception, because a refusal is recorded before it is raised.
\<close>

section \<open>The envelope\<close>

datatype budget_error =
    NotNumber
  | NotFinite
  | FloatOverflow
  | NegativeBudget
  | VerifyFraction
  | RefineFraction
  | FractionSum
  | NegativeController
  | ControllerTooLarge
  | ReservesTooLarge
  | NoBudget
  | TextBudget
  | NotConvertible
  | ClampNumber
  | ClampRange
  | ClampEnvelope
  | MoveWall
  | MoveParallelism
  | NotAmount
  | AmountRange
  | GrantDigest
  | ProfileEmpty
  | DecisionDigest
  | PartialProvenance
  | PurposeUnknown
  | CpuExceeded
  | GpuExceeded
  | LaneEmpty
  | CpuSource
  | GpuSource
  | NotOpen
  | ChargeRange
  | NoSemantics

record envelope =
  env_wall :: pyfloat
  env_cpu :: pyfloat
  env_gpu :: pyfloat
  env_verify_fraction :: pyfloat
  env_refine_fraction :: pyfloat
  env_controller :: pyfloat

definition verification_reserve :: "envelope \<Rightarrow> pyfloat" where
  "verification_reserve E = f_mul (env_cpu E) (env_verify_fraction E)"

definition refinement_reserve :: "envelope \<Rightarrow> pyfloat" where
  "refinement_reserve E = f_mul (env_cpu E) (env_refine_fraction E)"

definition verification_gpu_reserve :: "envelope \<Rightarrow> pyfloat" where
  "verification_gpu_reserve E = f_mul (env_gpu E) (env_verify_fraction E)"

definition refinement_gpu_reserve :: "envelope \<Rightarrow> pyfloat" where
  "refinement_gpu_reserve E = f_mul (env_gpu E) (env_refine_fraction E)"

definition solver_cpu_ceiling :: "envelope \<Rightarrow> pyfloat" where
  "solver_cpu_ceiling E = f_max (Fin 0)
     (f_sub (f_sub (f_sub (env_cpu E) (verification_reserve E)) (refinement_reserve E)) (env_controller E))"

definition solver_gpu_ceiling :: "envelope \<Rightarrow> pyfloat" where
  "solver_gpu_ceiling E = f_max (Fin 0)
     (f_sub (f_sub (env_gpu E) (verification_gpu_reserve E)) (refinement_gpu_reserve E))"

definition envelope_number :: "pyval \<Rightarrow> budget_error + pyfloat" where
  "envelope_number v = (case as_float v of
      None \<Rightarrow> Inl NotNumber
    | Some None \<Rightarrow> Inl FloatOverflow
    | Some (Some x) \<Rightarrow> if f_finite x then Inr x else Inl NotFinite)"

definition check_envelope :: "envelope \<Rightarrow> budget_error + envelope" where
  "check_envelope E =
     rbind (ensure (\<not> (f_less (env_wall E) (Fin 0) \<or> f_less (env_cpu E) (Fin 0) \<or> f_less (env_gpu E) (Fin 0)))
       NegativeBudget) (\<lambda>_.
     rbind (ensure (f_le (Fin 0) (env_verify_fraction E) \<and> f_less (env_verify_fraction E) (Fin 1)) VerifyFraction) (\<lambda>_.
     rbind (ensure (f_le (Fin 0) (env_refine_fraction E) \<and> f_less (env_refine_fraction E) (Fin 1)) RefineFraction) (\<lambda>_.
     rbind (ensure (\<not> f_le (Fin 1) (f_add (env_verify_fraction E) (env_refine_fraction E))) FractionSum) (\<lambda>_.
     rbind (ensure (\<not> f_less (env_controller E) (Fin 0)) NegativeController) (\<lambda>_.
     rbind (ensure (\<not> f_less (env_cpu E) (env_controller E)) ControllerTooLarge) (\<lambda>_.
     rbind (ensure (\<not> f_less (env_cpu E) (f_add (f_add (verification_reserve E) (refinement_reserve E)) (env_controller E)))
       ReservesTooLarge) (\<lambda>_.
     Inr E)))))))"

text \<open>The constructor: every field is a finite number, then the relations between them.\<close>

definition resource_envelope :: "pyval \<Rightarrow> pyval \<Rightarrow> pyval \<Rightarrow> pyval \<Rightarrow> pyval \<Rightarrow> pyval \<Rightarrow> budget_error + envelope" where
  "resource_envelope wall cpu gpu vf rf ctl =
     rbind (envelope_number wall) (\<lambda>w. rbind (envelope_number cpu) (\<lambda>c. rbind (envelope_number gpu) (\<lambda>g.
     rbind (envelope_number vf) (\<lambda>v. rbind (envelope_number rf) (\<lambda>r. rbind (envelope_number ctl) (\<lambda>o'.
       check_envelope \<lparr>env_wall = w, env_cpu = c, env_gpu = g, env_verify_fraction = v,
         env_refine_fraction = r, env_controller = o'\<rparr>))))))"

definition clamp_number :: "pyval \<Rightarrow> budget_error + pyfloat" where
  "clamp_number v = (case as_float v of
      None \<Rightarrow> Inl ClampNumber
    | Some None \<Rightarrow> Inl FloatOverflow
    | Some (Some x) \<Rightarrow> if f_finite x \<and> \<not> f_le x (Fin 0) then Inr x else Inl ClampRange)"

definition clamped_cpu_envelope :: "envelope \<Rightarrow> pyval \<Rightarrow> pyval \<Rightarrow> budget_error + envelope" where
  "clamped_cpu_envelope E wall_ms cpu_ms =
     rbind (clamp_number wall_ms) (\<lambda>w. rbind (clamp_number cpu_ms) (\<lambda>c.
     if f_le (env_wall E) (Fin 0) \<or> f_le (env_cpu E) (Fin 0) \<or> env_gpu E \<noteq> Fin 0 then Inl ClampEnvelope
     else let
       wall = f_min w (env_wall E);
       cpu = f_min c (env_cpu E);
       fractional = f_mul cpu (f_add (env_verify_fraction E) (env_refine_fraction E));
       capacity = f_max (Fin 0) (f_sub cpu fractional);
       reserve = f_min (env_controller E) capacity
     in resource_envelope (PFloat wall) (PFloat cpu) (PFloat (Fin 0)) (PFloat (env_verify_fraction E))
       (PFloat (env_refine_fraction E)) (PFloat reserve)))"

definition bounded_for_move :: "envelope \<Rightarrow> pyval \<Rightarrow> pyval \<Rightarrow> budget_error + envelope" where
  "bounded_for_move E wall_ms parallelism = (case (as_int wall_ms, as_int parallelism) of
      (None, _) \<Rightarrow> Inl MoveWall
    | (Some w, p) \<Rightarrow> if w \<le> 0 then Inl MoveWall
        else (case p of
            None \<Rightarrow> Inl MoveParallelism
          | Some n \<Rightarrow> if n \<le> 0 then Inl MoveParallelism
              else (case (float_of_int w, float_of_int n) of
                  (Some fw, Some fn) \<Rightarrow>
                    let wall = f_min fw (env_wall E); cpu = f_min (env_cpu E) (f_mul wall fn)
                    in clamped_cpu_envelope E (PFloat wall) (PFloat cpu)
                | _ \<Rightarrow> Inl FloatOverflow)))"

text \<open>\<open>float\<close> of a configuration value; \<open>parse\<close> reads the text of a number.\<close>

definition config_float :: "(string \<Rightarrow> pyfloat option) \<Rightarrow> pyval \<Rightarrow> budget_error + pyfloat" where
  "config_float parse v = (case v of
      PBool b \<Rightarrow> Inr (if b then Fin 1 else Fin 0)
    | PStr s \<Rightarrow> (case parse s of None \<Rightarrow> Inl NotConvertible | Some x \<Rightarrow> Inr x)
    | _ \<Rightarrow> (case as_float v of None \<Rightarrow> Inl NotConvertible | Some None \<Rightarrow> Inl FloatOverflow | Some (Some x) \<Rightarrow> Inr x))"

definition config_get :: "(string \<Rightarrow> pyfloat option) \<Rightarrow> (string \<times> pyval) list \<Rightarrow> string \<Rightarrow> budget_error + pyfloat" where
  "config_get parse config key = (case dict_get config key of None \<Rightarrow> Inr (Fin 0) | Some v \<Rightarrow> config_float parse v)"

definition from_config :: "(string \<Rightarrow> pyfloat option) \<Rightarrow> (string \<times> pyval) list \<Rightarrow> budget_error + envelope" where
  "from_config parse config =
     (if config = [] then Inl NoBudget
      else if (\<exists>key \<in> set [''wall_ms'', ''cpu_ms'', ''gpu_ms'']. \<exists>s. dict_get config key = Some (PStr s))
      then Inl TextBudget
      else rbind (rmap (config_get parse config) [''wall_ms'', ''cpu_ms'', ''gpu_ms'',
          ''verification_reserve_fraction'', ''refinement_reserve_fraction'', ''controller_overhead_reserve_ms''])
        (\<lambda>xs. resource_envelope (PFloat (xs ! 0)) (PFloat (xs ! 1)) (PFloat (xs ! 2)) (PFloat (xs ! 3))
           (PFloat (xs ! 4)) (PFloat (xs ! 5))))"

section \<open>Accounts and reservations\<close>

record reservation =
  rv_id :: nat
  rv_lane :: string
  rv_purpose :: string
  rv_cpu :: pyfloat
  rv_gpu :: pyfloat
  rv_grant :: pyval
  rv_profile :: pyval
  rv_decision :: pyval

record lane_account =
  la_reserved_cpu :: pyfloat
  la_reserved_gpu :: pyfloat
  la_spent_cpu :: pyfloat
  la_spent_gpu :: pyfloat
  la_declared_cpu :: pyfloat
  la_declared_gpu :: pyfloat
  la_measured_cpu :: pyfloat
  la_estimated_cpu :: pyfloat
  la_fallback_cpu :: pyfloat
  la_measured_gpu :: pyfloat
  la_estimated_gpu :: pyfloat
  la_fallback_gpu :: pyfloat
  la_settlements :: nat
  la_measured_settlements :: nat
  la_estimated_settlements :: nat
  la_fallback_settlements :: nat
  la_native_work :: "(string \<times> pyfloat) list"
  la_stage_work :: "((string \<times> string) \<times> pyfloat) list"

definition new_account :: lane_account where
  "new_account = \<lparr>la_reserved_cpu = Fin 0, la_reserved_gpu = Fin 0, la_spent_cpu = Fin 0, la_spent_gpu = Fin 0,
     la_declared_cpu = Fin 0, la_declared_gpu = Fin 0, la_measured_cpu = Fin 0, la_estimated_cpu = Fin 0,
     la_fallback_cpu = Fin 0, la_measured_gpu = Fin 0, la_estimated_gpu = Fin 0, la_fallback_gpu = Fin 0,
     la_settlements = 0, la_measured_settlements = 0, la_estimated_settlements = 0, la_fallback_settlements = 0,
     la_native_work = [], la_stage_work = []\<rparr>"

datatype journal_event =
    JReserve reservation
  | JSettle reservation pyfloat pyfloat string string
  | JRelease reservation
  | JCharge string string pyfloat string

datatype denial =
    CpuDenial string string pyfloat pyfloat
  | GpuDenial string string pyfloat pyfloat

record budget_ledger =
  bl_envelope :: envelope
  bl_started :: pyfloat
  bl_lanes :: "(string \<times> lane_account) list"
  bl_next_id :: nat
  bl_open :: "(nat \<times> reservation) list"
  bl_group_reserved_cpu :: "(string \<times> pyfloat) list"
  bl_group_reserved_gpu :: "(string \<times> pyfloat) list"
  bl_group_spent_cpu :: "(string \<times> pyfloat) list"
  bl_group_spent_gpu :: "(string \<times> pyfloat) list"
  bl_denials :: "denial list"
  bl_next_sequence :: nat
  bl_journal :: "(nat \<times> journal_event) list"

definition new_budget_ledger :: "envelope \<Rightarrow> pyfloat \<Rightarrow> budget_ledger" where
  "new_budget_ledger E started = \<lparr>bl_envelope = E, bl_started = started, bl_lanes = [], bl_next_id = 1, bl_open = [],
     bl_group_reserved_cpu = [], bl_group_reserved_gpu = [], bl_group_spent_cpu = [], bl_group_spent_gpu = [],
     bl_denials = [], bl_next_sequence = 1, bl_journal = []\<rparr>"

definition append_journal :: "journal_event \<Rightarrow> budget_ledger \<Rightarrow> budget_ledger" where
  "append_journal e B = B\<lparr>bl_journal := bl_journal B @ [(bl_next_sequence B, e)],
     bl_next_sequence := Suc (bl_next_sequence B)\<rparr>"

definition amount_at :: "('k \<times> pyfloat) list \<Rightarrow> 'k \<Rightarrow> pyfloat" where
  "amount_at d k = (case dict_get d k of None \<Rightarrow> Fin 0 | Some x \<Rightarrow> x)"

definition add_at :: "'k \<Rightarrow> pyfloat \<Rightarrow> ('k \<times> pyfloat) list \<Rightarrow> ('k \<times> pyfloat) list" where
  "add_at k x d = dict_set k (f_add (amount_at d k) x) d"

definition take_at :: "'k \<Rightarrow> pyfloat \<Rightarrow> ('k \<times> pyfloat) list \<Rightarrow> ('k \<times> pyfloat) list" where
  "take_at k x d = dict_set k (f_max (Fin 0) (f_sub (amount_at d k) x)) d"

definition account :: "budget_ledger \<Rightarrow> string \<Rightarrow> lane_account" where
  "account B lane = (case dict_get (bl_lanes B) lane of None \<Rightarrow> new_account | Some a \<Rightarrow> a)"

text \<open>An in-place change of the account of a lane, which \<open>setdefault\<close> has created.\<close>

definition update_lane :: "string \<Rightarrow> (lane_account \<Rightarrow> lane_account) \<Rightarrow> budget_ledger \<Rightarrow> budget_ledger" where
  "update_lane lane f B = B\<lparr>bl_lanes := dict_set lane (f (account B lane)) (bl_lanes B)\<rparr>"

definition committed_cpu :: "budget_ledger \<Rightarrow> pyfloat" where
  "committed_cpu B = f_sum (map (\<lambda>(_, a). f_add (la_reserved_cpu a) (la_spent_cpu a)) (bl_lanes B))"

definition committed_gpu :: "budget_ledger \<Rightarrow> pyfloat" where
  "committed_gpu B = f_sum (map (\<lambda>(_, a). f_add (la_reserved_gpu a) (la_spent_gpu a)) (bl_lanes B))"

definition purpose_class :: "string \<Rightarrow> budget_error + string" where
  "purpose_class p = (if p \<in> {''solver'', ''anchor''} then Inr ''solver''
     else if p \<in> {''verify'', ''refine'', ''controller''} then Inr p else Inl PurposeUnknown)"

definition group_committed :: "budget_ledger \<Rightarrow> string \<Rightarrow> pyfloat \<times> pyfloat" where
  "group_committed B g = (f_add (amount_at (bl_group_reserved_cpu B) g) (amount_at (bl_group_spent_cpu B) g),
     f_add (amount_at (bl_group_reserved_gpu B) g) (amount_at (bl_group_spent_gpu B) g))"

definition group_caps :: "budget_ledger \<Rightarrow> string \<Rightarrow> pyfloat \<times> pyfloat" where
  "group_caps B g = (let E = bl_envelope B in
     if g = ''verify'' then (verification_reserve E, verification_gpu_reserve E)
     else if g = ''refine'' then (refinement_reserve E, refinement_gpu_reserve E)
     else if g = ''controller'' then (env_controller E, Fin 0)
     else (solver_cpu_ceiling E, solver_gpu_ceiling E))"

definition purpose_committed :: "budget_ledger \<Rightarrow> string \<Rightarrow> budget_error + pyfloat \<times> pyfloat" where
  "purpose_committed B p = rbind (purpose_class p) (\<lambda>g. Inr (group_committed B g))"

definition purpose_caps :: "budget_ledger \<Rightarrow> string \<Rightarrow> budget_error + pyfloat \<times> pyfloat" where
  "purpose_caps B p = rbind (purpose_class p) (\<lambda>g. Inr (group_caps B g))"

definition available_cpu :: "budget_ledger \<Rightarrow> string \<Rightarrow> budget_error + pyfloat" where
  "available_cpu B p = rbind (purpose_committed B p) (\<lambda>(used, _). rbind (purpose_caps B p) (\<lambda>(cap, _).
     Inr (f_max (Fin 0) (f_min (f_sub cap used) (f_sub (env_cpu (bl_envelope B)) (committed_cpu B))))))"

definition available_gpu :: "budget_ledger \<Rightarrow> string \<Rightarrow> budget_error + pyfloat" where
  "available_gpu B p = rbind (purpose_committed B p) (\<lambda>(_, used). rbind (purpose_caps B p) (\<lambda>(_, cap).
     Inr (f_max (Fin 0) (f_min (f_sub cap used) (f_sub (env_gpu (bl_envelope B)) (committed_gpu B))))))"

definition can_afford :: "budget_ledger \<Rightarrow> pyfloat \<Rightarrow> pyfloat \<Rightarrow> string \<Rightarrow> budget_error + bool" where
  "can_afford B cpu gpu p = rbind (available_cpu B p) (\<lambda>ac.
     if f_le cpu ac then rbind (available_gpu B p) (\<lambda>ag. Inr (f_le gpu ag)) else Inr False)"

definition within_envelope :: "budget_ledger \<Rightarrow> bool" where
  "within_envelope B \<longleftrightarrow> f_le (committed_cpu B) (env_cpu (bl_envelope B)) \<and> f_le (committed_gpu B) (env_gpu (bl_envelope B))"

definition within_partition_caps :: "budget_ledger \<Rightarrow> bool" where
  "within_partition_caps B \<longleftrightarrow> (\<forall>g \<in> set [''solver'', ''verify'', ''refine'', ''controller''].
     \<not> f_less (fst (group_caps B g)) (fst (group_committed B g)) \<and>
     \<not> f_less (snd (group_caps B g)) (snd (group_committed B g)))"

definition elapsed_ms :: "budget_ledger \<Rightarrow> pyfloat \<Rightarrow> pyfloat" where
  "elapsed_ms B clock = f_mul (f_sub clock (bl_started B)) (Fin 1000)"

definition wall_remaining_ms :: "budget_ledger \<Rightarrow> pyfloat \<Rightarrow> pyfloat" where
  "wall_remaining_ms B clock = f_max (Fin 0) (f_sub (env_wall (bl_envelope B)) (elapsed_ms B clock))"

definition wall_exhausted :: "budget_ledger \<Rightarrow> pyfloat \<Rightarrow> bool" where
  "wall_exhausted B clock \<longleftrightarrow> f_le (env_wall (bl_envelope B)) (elapsed_ms B clock)"

section \<open>Operations\<close>

definition finite_nonnegative :: "pyval \<Rightarrow> budget_error + pyfloat" where
  "finite_nonnegative v = (case as_float v of
      None \<Rightarrow> Inl NotAmount
    | Some None \<Rightarrow> Inl FloatOverflow
    | Some (Some x) \<Rightarrow> if f_finite x \<and> \<not> f_less x (Fin 0) then Inr x else Inl AmountRange)"

definition digest_or_none :: "pyval \<Rightarrow> bool" where
  "digest_or_none v = (case v of PNone \<Rightarrow> True | PStr s \<Rightarrow> sha256_text s | _ \<Rightarrow> False)"

definition check_provenance :: "pyval \<Rightarrow> pyval \<Rightarrow> pyval \<Rightarrow> budget_error + unit" where
  "check_provenance grant profile decision =
     rbind (ensure (digest_or_none grant) GrantDigest) (\<lambda>_.
     rbind (ensure (case profile of PNone \<Rightarrow> True | PStr s \<Rightarrow> s \<noteq> [] | _ \<Rightarrow> False) ProfileEmpty) (\<lambda>_.
     rbind (ensure (digest_or_none decision) DecisionDigest) (\<lambda>_.
     ensure (\<not> (PNone \<in> set [grant, profile, decision] \<and> [grant, profile, decision] \<noteq> [PNone, PNone, PNone]))
       PartialProvenance)))"

text \<open>The state change of an admitted reservation.\<close>

definition book :: "reservation \<Rightarrow> string \<Rightarrow> budget_ledger \<Rightarrow> budget_ledger" where
  "book r g B = (let
       B1 = update_lane (rv_lane r) (\<lambda>a. a\<lparr>la_reserved_cpu := f_add (la_reserved_cpu a) (rv_cpu r),
         la_reserved_gpu := f_add (la_reserved_gpu a) (rv_gpu r)\<rparr>) B
     in append_journal (JReserve r) (B1\<lparr>bl_next_id := Suc (bl_next_id B1),
       bl_open := dict_set (rv_id r) r (bl_open B1),
       bl_group_reserved_cpu := add_at g (rv_cpu r) (bl_group_reserved_cpu B1),
       bl_group_reserved_gpu := add_at g (rv_gpu r) (bl_group_reserved_gpu B1)\<rparr>))"

definition deny :: "denial \<Rightarrow> budget_ledger \<Rightarrow> budget_ledger" where
  "deny d B = B\<lparr>bl_denials := bl_denials B @ [d]\<rparr>"

definition reserve :: "budget_ledger \<Rightarrow> string \<Rightarrow> pyval \<Rightarrow> pyval \<Rightarrow> string \<Rightarrow> pyval \<Rightarrow> pyval \<Rightarrow> pyval \<Rightarrow>
    budget_ledger \<times> (budget_error + reservation)" where
  "reserve B lane cpu_ms gpu_ms purpose grant profile decision =
     raising B (finite_nonnegative cpu_ms) (\<lambda>cpu. raising B (finite_nonnegative gpu_ms) (\<lambda>gpu.
     raising B (check_provenance grant profile decision) (\<lambda>_.
     raising B (purpose_class purpose) (\<lambda>g.
     raising B (available_cpu B purpose) (\<lambda>ac. raising B (available_gpu B purpose) (\<lambda>ag.
     if f_less ac cpu then (deny (CpuDenial lane purpose cpu ac) B, Inl CpuExceeded)
     else if f_less ag gpu then (deny (GpuDenial lane purpose gpu ag) B, Inl GpuExceeded)
     else if lane = [] then (B, Inl LaneEmpty)
     else let r = \<lparr>rv_id = bl_next_id B, rv_lane = lane, rv_purpose = purpose, rv_cpu = cpu, rv_gpu = gpu,
         rv_grant = grant, rv_profile = profile, rv_decision = decision\<rparr>
       in (book r g B, Inr r)))))))"

text \<open>\<open>_open.pop\<close>, and giving the reserved amounts of a reservation back to its lane and its group.\<close>

definition close_reservation :: "nat \<Rightarrow> budget_ledger \<Rightarrow> budget_ledger" where
  "close_reservation i B = B\<lparr>bl_open := AList.delete i (bl_open B)\<rparr>"

definition unreserve_lane :: "reservation \<Rightarrow> budget_ledger \<Rightarrow> budget_ledger" where
  "unreserve_lane r = update_lane (rv_lane r)
     (\<lambda>a. a\<lparr>la_reserved_cpu := f_max (Fin 0) (f_sub (la_reserved_cpu a) (rv_cpu r)),
       la_reserved_gpu := f_max (Fin 0) (f_sub (la_reserved_gpu a) (rv_gpu r))\<rparr>)"

definition unreserve_group :: "reservation \<Rightarrow> string \<Rightarrow> budget_ledger \<Rightarrow> budget_ledger" where
  "unreserve_group r g B = B\<lparr>bl_group_reserved_cpu := take_at g (rv_cpu r) (bl_group_reserved_cpu B),
     bl_group_reserved_gpu := take_at g (rv_gpu r) (bl_group_reserved_gpu B)\<rparr>"

text \<open>
  The settled account: the declaration, the spend, and the spend under its source.
\<close>

definition settle_account :: "reservation \<Rightarrow> pyfloat \<Rightarrow> pyfloat \<Rightarrow> string \<Rightarrow> string \<Rightarrow> lane_account \<Rightarrow> lane_account" where
  "settle_account r cpu gpu cpu_source gpu_source a = (let
       a1 = a\<lparr>la_declared_cpu := f_add (la_declared_cpu a) (rv_cpu r), la_declared_gpu := f_add (la_declared_gpu a) (rv_gpu r),
         la_spent_cpu := f_add (la_spent_cpu a) cpu, la_spent_gpu := f_add (la_spent_gpu a) gpu,
         la_settlements := Suc (la_settlements a)\<rparr>;
       a2 = (if cpu_source = ''measured'' then a1\<lparr>la_measured_cpu := f_add (la_measured_cpu a1) cpu,
           la_measured_settlements := Suc (la_measured_settlements a1)\<rparr>
         else if cpu_source = ''estimated_fallback'' then a1\<lparr>la_estimated_cpu := f_add (la_estimated_cpu a1) cpu,
           la_estimated_settlements := Suc (la_estimated_settlements a1)\<rparr>
         else a1\<lparr>la_fallback_cpu := f_add (la_fallback_cpu a1) cpu,
           la_fallback_settlements := Suc (la_fallback_settlements a1)\<rparr>)
     in if gpu_source = ''measured'' then a2\<lparr>la_measured_gpu := f_add (la_measured_gpu a2) gpu\<rparr>
        else if gpu_source = ''estimated_fallback'' then a2\<lparr>la_estimated_gpu := f_add (la_estimated_gpu a2) gpu\<rparr>
        else a2\<lparr>la_fallback_gpu := f_add (la_fallback_gpu a2) gpu\<rparr>)"

definition spend_group :: "string \<Rightarrow> pyfloat \<Rightarrow> pyfloat \<Rightarrow> budget_ledger \<Rightarrow> budget_ledger" where
  "spend_group g cpu gpu B = B\<lparr>bl_group_spent_cpu := add_at g cpu (bl_group_spent_cpu B),
     bl_group_spent_gpu := add_at g gpu (bl_group_spent_gpu B)\<rparr>"

definition actual_amount :: "pyfloat \<Rightarrow> pyval \<Rightarrow> budget_error + pyfloat" where
  "actual_amount declared v = (if v = PNone then Inr declared else finite_nonnegative v)"

definition settlement_source :: "pyval \<Rightarrow> string option \<Rightarrow> string" where
  "settlement_source actual source = (case source of
      Some s \<Rightarrow> s
    | None \<Rightarrow> if actual = PNone then ''declared_fallback'' else ''estimated_fallback'')"

definition valid_sources :: "string list" where
  "valid_sources = [''measured'', ''estimated_fallback'', ''declared_fallback'']"

definition settle :: "budget_ledger \<Rightarrow> reservation \<Rightarrow> pyval \<Rightarrow> pyval \<Rightarrow> string option \<Rightarrow> string option \<Rightarrow>
    budget_ledger \<times> (budget_error + unit)" where
  "settle B r actual_cpu actual_gpu cpu_src gpu_src =
     raising B (actual_amount (rv_cpu r) actual_cpu) (\<lambda>cpu.
     raising B (actual_amount (rv_gpu r) actual_gpu) (\<lambda>gpu.
     let cs = settlement_source actual_cpu cpu_src; gs = settlement_source actual_gpu gpu_src in
     if cs \<notin> set valid_sources then (B, Inl CpuSource)
     else if gs \<notin> set valid_sources then (B, Inl GpuSource)
     else if dict_get (bl_open B) (rv_id r) = None then (B, Inl NotOpen)
     else let B1 = close_reservation (rv_id r) B in
       if rv_lane r = [] then (B1, Inl LaneEmpty)
       else let B2 = unreserve_lane r B1 in
         raising B2 (purpose_class (rv_purpose r)) (\<lambda>g.
           (append_journal (JSettle r cpu gpu cs gs)
             (spend_group g cpu gpu (update_lane (rv_lane r) (settle_account r cpu gpu cs gs) (unreserve_group r g B2))),
            Inr ()))))"

definition release :: "budget_ledger \<Rightarrow> reservation \<Rightarrow> budget_ledger \<times> (budget_error + unit)" where
  "release B r =
     (if dict_get (bl_open B) (rv_id r) = None then (B, Inr ())
      else let B1 = close_reservation (rv_id r) B in
        if rv_lane r = [] then (B1, Inl LaneEmpty)
        else let B2 = unreserve_lane r B1 in
          raising B2 (purpose_class (rv_purpose r)) (\<lambda>g.
            (append_journal (JRelease r) (unreserve_group r g B2), Inr ())))"

definition note_work :: "string \<Rightarrow> pyfloat \<Rightarrow> lane_account \<Rightarrow> lane_account" where
  "note_work note x a = a\<lparr>la_native_work := add_at note x (la_native_work a)\<rparr>"

definition charge_elapsed :: "budget_ledger \<Rightarrow> string \<Rightarrow> pyfloat \<Rightarrow> string \<Rightarrow> string \<Rightarrow>
    budget_ledger \<times> (budget_error + unit)" where
  "charge_elapsed B lane cpu note purpose =
     (if f_less cpu (Fin 0) \<or> \<not> f_finite cpu then (B, Inl ChargeRange)
      else raising B (purpose_class purpose) (\<lambda>g.
        if lane = [] then (B, Inl LaneEmpty)
        else let
          B1 = update_lane lane (\<lambda>a. (if note \<noteq> [] then note_work note cpu else id)
            (a\<lparr>la_spent_cpu := f_add (la_spent_cpu a) cpu\<rparr>)) B;
          B2 = B1\<lparr>bl_group_spent_cpu := add_at g cpu (bl_group_spent_cpu B1)\<rparr>
        in (append_journal (JCharge lane purpose cpu note) B2, Inr ())))"

text \<open>\<open>controller_overhead\<close>: the charge made when its block is left; the clock values are arguments.\<close>

definition controller_overhead :: "budget_ledger \<Rightarrow> string \<Rightarrow> pyfloat \<Rightarrow> pyfloat \<Rightarrow> budget_ledger \<times> (budget_error + unit)" where
  "controller_overhead B label started_cpu now_cpu =
     raising B (finite_nonnegative (PFloat (f_mul (f_sub now_cpu started_cpu) (Fin 1000)))) (\<lambda>cpu. let
       B1 = update_lane ''controller'' (\<lambda>a. note_work (''controller.'' @ label @ ''_ms'') cpu
         (a\<lparr>la_spent_cpu := f_add (la_spent_cpu a) cpu\<rparr>)) B;
       B2 = B1\<lparr>bl_group_spent_cpu := add_at ''controller'' cpu (bl_group_spent_cpu B1)\<rparr>
     in (append_journal (JCharge ''controller'' ''controller'' cpu label) B2, Inr ()))"

definition record_native :: "string \<Rightarrow> string \<Rightarrow> pyfloat \<Rightarrow> lane_account \<Rightarrow> lane_account" where
  "record_native semantics stage x a = (let
       a1 = a\<lparr>la_stage_work := dict_set (semantics, stage) (f_max (amount_at (la_stage_work a) (semantics, stage)) x)
         (la_stage_work a)\<rparr>
     in a1\<lparr>la_native_work := dict_set semantics
         (f_sum (map snd (filter (\<lambda>((tag, _), _). tag = semantics) (la_stage_work a1)))) (la_native_work a1)\<rparr>)"

definition record_native_work :: "budget_ledger \<Rightarrow> string \<Rightarrow> pyval \<Rightarrow> string \<Rightarrow> string \<Rightarrow> budget_ledger \<times> (budget_error + unit)" where
  "record_native_work B lane v semantics stage =
     (if semantics = [] then (B, Inl NoSemantics)
      else raising B (finite_nonnegative v) (\<lambda>x.
        if lane = [] then (B, Inl LaneEmpty)
        else (update_lane lane (record_native semantics stage x) B, Inr ())))"

definition native_work_by_semantics :: "budget_ledger \<Rightarrow> (string \<times> pyfloat) list" where
  "native_work_by_semantics B = fold (\<lambda>(_, a) totals. fold (\<lambda>(tag, x) t. add_at tag x t) (la_native_work a) totals)
     (bl_lanes B) []"

section \<open>Reports\<close>

abbreviation rounded :: "pyfloat \<Rightarrow> pyval" where
  "rounded x \<equiv> PFloat (f_round3 x)"

definition envelope_dict :: "envelope \<Rightarrow> pyval" where
  "envelope_dict E = PDict
     [(''wall_ms'', PFloat (env_wall E)), (''cpu_ms'', PFloat (env_cpu E)), (''gpu_ms'', PFloat (env_gpu E)),
      (''verification_reserve_fraction'', PFloat (env_verify_fraction E)),
      (''verification_reserve_ms'', PFloat (verification_reserve E)),
      (''refinement_reserve_fraction'', PFloat (env_refine_fraction E)),
      (''refinement_reserve_ms'', PFloat (refinement_reserve E)),
      (''verification_gpu_reserve_ms'', PFloat (verification_gpu_reserve E)),
      (''refinement_gpu_reserve_ms'', PFloat (refinement_gpu_reserve E)),
      (''solver_cpu_ceiling_ms'', PFloat (solver_cpu_ceiling E)),
      (''solver_gpu_ceiling_ms'', PFloat (solver_gpu_ceiling E)),
      (''controller_overhead_reserve_ms'', PFloat (env_controller E))]"

definition account_dict :: "lane_account \<Rightarrow> pyval" where
  "account_dict a = PDict
     [(''reserved_cpu_ms'', rounded (la_reserved_cpu a)), (''reserved_gpu_ms'', rounded (la_reserved_gpu a)),
      (''spent_cpu_ms'', rounded (la_spent_cpu a)), (''spent_gpu_ms'', rounded (la_spent_gpu a)),
      (''declared_cpu_ms'', rounded (la_declared_cpu a)), (''declared_gpu_ms'', rounded (la_declared_gpu a)),
      (''measured_cpu_ms'', rounded (la_measured_cpu a)), (''estimated_cpu_ms'', rounded (la_estimated_cpu a)),
      (''declared_fallback_cpu_ms'', rounded (la_fallback_cpu a)),
      (''measured_gpu_ms'', rounded (la_measured_gpu a)), (''estimated_gpu_ms'', rounded (la_estimated_gpu a)),
      (''declared_fallback_gpu_ms'', rounded (la_fallback_gpu a)),
      (''settlements'', PInt (int (la_settlements a))),
      (''measured_settlements'', PInt (int (la_measured_settlements a))),
      (''estimated_settlements'', PInt (int (la_estimated_settlements a))),
      (''declared_fallback_settlements'', PInt (int (la_fallback_settlements a))),
      (''native_work'', PDict (map (map_prod id rounded) (sort_key fst (la_native_work a)))),
      (''native_work_by_stage'',
        PDict (map (\<lambda>((semantics, stage), x). (semantics @ ''@'' @ stage, rounded x)) (sort_key fst (la_stage_work a))))]"

fun denial_dict :: "denial \<Rightarrow> pyval" where
  "denial_dict (CpuDenial lane purpose req avail) = PDict [(''lane'', PStr lane), (''purpose'', PStr purpose),
     (''requested_cpu_ms'', PFloat req), (''available_cpu_ms'', PFloat avail),
     (''reason'', PStr ''cpu envelope or purpose reserve'')]"
| "denial_dict (GpuDenial lane purpose req avail) = PDict [(''lane'', PStr lane), (''purpose'', PStr purpose),
     (''requested_gpu_ms'', PFloat req), (''available_gpu_ms'', PFloat avail),
     (''reason'', PStr ''gpu envelope or purpose reserve'')]"

definition group_dict :: "budget_ledger \<Rightarrow> string \<Rightarrow> pyval" where
  "group_dict B g = PDict
     [(''reserved_cpu_ms'', rounded (amount_at (bl_group_reserved_cpu B) g)),
      (''spent_cpu_ms'', rounded (amount_at (bl_group_spent_cpu B) g)),
      (''reserved_gpu_ms'', rounded (amount_at (bl_group_reserved_gpu B) g)),
      (''spent_gpu_ms'', rounded (amount_at (bl_group_spent_gpu B) g))]"

definition available_dict :: "budget_error + pyfloat \<Rightarrow> pyval" where
  "available_dict m = (case m of Inl e \<Rightarrow> PNone | Inr x \<Rightarrow> rounded x)"

text \<open>The purposes of the snapshot are known ones, so that no availability raises.\<close>

definition budget_snapshot :: "budget_ledger \<Rightarrow> pyfloat \<Rightarrow> pyval" where
  "budget_snapshot B clock = PDict
     [(''envelope'', envelope_dict (bl_envelope B)),
      (''elapsed_ms'', rounded (elapsed_ms B clock)),
      (''wall_remaining_ms'', rounded (wall_remaining_ms B clock)),
      (''committed_cpu_ms'', rounded (committed_cpu B)),
      (''committed_gpu_ms'', rounded (committed_gpu B)),
      (''available_solver_cpu_ms'', available_dict (available_cpu B ''solver'')),
      (''available_verify_cpu_ms'', available_dict (available_cpu B ''verify'')),
      (''available_refine_cpu_ms'', available_dict (available_cpu B ''refine'')),
      (''available_solver_gpu_ms'', available_dict (available_gpu B ''solver'')),
      (''available_verify_gpu_ms'', available_dict (available_gpu B ''verify'')),
      (''available_refine_gpu_ms'', available_dict (available_gpu B ''refine'')),
      (''open_reservations'', PInt (int (length (bl_open B)))),
      (''purpose_totals'', PDict (map (\<lambda>g. (g, group_dict B g)) [''solver'', ''verify'', ''refine'', ''controller''])),
      (''lanes'', PDict (map (map_prod id account_dict) (sort_key fst (bl_lanes B)))),
      (''native_work_by_semantics'', PDict (map (map_prod id rounded) (sort_key fst (native_work_by_semantics B)))),
      (''denials'', PList (map denial_dict (bl_denials B))),
      (''within_envelope'', PBool (within_envelope B)),
      (''within_partition_caps'', PBool (within_partition_caps B))]"

section \<open>Runs\<close>

datatype budget_op =
    OReserve string pyval pyval string pyval pyval pyval
  | OSettle reservation pyval pyval "string option" "string option"
  | ORelease reservation
  | OCharge string pyfloat string string
  | OOverhead string pyfloat pyfloat
  | ONative string pyval string string

fun budget_step :: "budget_ledger \<Rightarrow> budget_op \<Rightarrow> budget_ledger \<times> (budget_error + reservation option)" where
  "budget_step B (OReserve lane cpu gpu purpose grant profile decision) =
     map_prod id (map_sum id Some) (reserve B lane cpu gpu purpose grant profile decision)"
| "budget_step B (OSettle r cpu gpu cs gs) = map_prod id (map_sum id (\<lambda>_. None)) (settle B r cpu gpu cs gs)"
| "budget_step B (ORelease r) = map_prod id (map_sum id (\<lambda>_. None)) (release B r)"
| "budget_step B (OCharge lane cpu note purpose) = map_prod id (map_sum id (\<lambda>_. None)) (charge_elapsed B lane cpu note purpose)"
| "budget_step B (OOverhead label t0 t1) = map_prod id (map_sum id (\<lambda>_. None)) (controller_overhead B label t0 t1)"
| "budget_step B (ONative lane v semantics stage) = map_prod id (map_sum id (\<lambda>_. None)) (record_native_work B lane v semantics stage)"

lemmas budget_ops = reserve_def settle_def release_def charge_elapsed_def controller_overhead_def record_native_work_def

lemmas budget_updates = book_def deny_def close_reservation_def unreserve_lane_def unreserve_group_def spend_group_def
  append_journal_def update_lane_def

section \<open>The journal\<close>

text \<open>The reservations that an event opens and closes.\<close>

fun opens :: "journal_event \<Rightarrow> nat list" where
  "opens (JReserve r) = [rv_id r]"
| "opens e = []"

fun closes :: "journal_event \<Rightarrow> nat list" where
  "closes (JSettle r cpu gpu cs gs) = [rv_id r]"
| "closes (JRelease r) = [rv_id r]"
| "closes e = []"

definition opened :: "budget_ledger \<Rightarrow> nat list" where
  "opened B = concat (map (opens \<circ> snd) (bl_journal B))"

definition closed :: "budget_ledger \<Rightarrow> nat list" where
  "closed B = concat (map (closes \<circ> snd) (bl_journal B))"

definition journal_exact :: "budget_ledger \<Rightarrow> bool" where
  "journal_exact B \<longleftrightarrow> bl_next_sequence B = Suc (length (bl_journal B)) \<and>
     map fst (bl_journal B) = [1..<Suc (length (bl_journal B))] \<and>
     1 \<le> bl_next_id B \<and> opened B = [1..<bl_next_id B] \<and>
     distinct (closed B) \<and> set (closed B) \<subseteq> {1..<bl_next_id B} \<and>
     dict_ok (bl_open B) \<and> set (dict_keys (bl_open B)) \<subseteq> {1..<bl_next_id B} - set (closed B)"

text \<open>What an operation does to the journal and to the open reservations.\<close>

datatype journal_change = Unchanged | Closing nat | Opening reservation | Appending journal_event

fun journal_changed :: "budget_ledger \<Rightarrow> journal_change \<Rightarrow> budget_ledger \<Rightarrow> bool" where
  "journal_changed B Unchanged B' \<longleftrightarrow> bl_next_sequence B' = bl_next_sequence B \<and> bl_journal B' = bl_journal B \<and>
     bl_next_id B' = bl_next_id B \<and> bl_open B' = bl_open B"
| "journal_changed B (Closing i) B' \<longleftrightarrow> bl_next_sequence B' = bl_next_sequence B \<and> bl_journal B' = bl_journal B \<and>
     bl_next_id B' = bl_next_id B \<and> bl_open B' = AList.delete i (bl_open B)"
| "journal_changed B (Opening r) B' \<longleftrightarrow> rv_id r = bl_next_id B \<and>
     bl_next_sequence B' = Suc (bl_next_sequence B) \<and> bl_journal B' = bl_journal B @ [(bl_next_sequence B, JReserve r)] \<and>
     bl_next_id B' = Suc (bl_next_id B) \<and> bl_open B' = dict_set (rv_id r) r (bl_open B)"
| "journal_changed B (Appending e) B' \<longleftrightarrow> opens e = [] \<and> distinct (closes e) \<and> set (closes e) \<subseteq> set (dict_keys (bl_open B)) \<and>
     bl_next_sequence B' = Suc (bl_next_sequence B) \<and> bl_journal B' = bl_journal B @ [(bl_next_sequence B, e)] \<and>
     bl_next_id B' = bl_next_id B \<and> dict_keys (bl_open B') = filter (\<lambda>i. i \<notin> set (closes e)) (dict_keys (bl_open B))"

lemma opened_append: "bl_journal B' = bl_journal B @ [(n, e)] \<Longrightarrow> opened B' = opened B @ opens e"
  by (simp add: opened_def)

lemma closed_append: "bl_journal B' = bl_journal B @ [(n, e)] \<Longrightarrow> closed B' = closed B @ closes e"
  by (simp add: closed_def)

lemma same_journal: "bl_journal B' = bl_journal B \<Longrightarrow> opened B' = opened B \<and> closed B' = closed B"
  by (simp add: opened_def closed_def)

lemma journal_exact_changed:
  assumes inv: "journal_exact B" and change: "journal_changed B c B'"
  shows "journal_exact B'"
proof (cases c)
  case Unchanged
  with change inv same_journal [of B' B] show ?thesis
    by (simp add: journal_exact_def)
next
  case (Closing i)
  with change have keys: "dict_keys (bl_open B') = removeAll i (dict_keys (bl_open B))"
    by (simp add: AList.delete_keys)
  from Closing change inv same_journal [of B' B] show ?thesis
    unfolding journal_exact_def keys by (auto simp: distinct_removeAll)
next
  case (Opening r)
  with change have journal: "bl_journal B' = bl_journal B @ [(bl_next_sequence B, JReserve r)]"
    and id: "rv_id r = bl_next_id B" and next_id: "bl_next_id B' = Suc (bl_next_id B)"
    and seq: "bl_next_sequence B' = Suc (bl_next_sequence B)" by simp_all
  have "rv_id r \<notin> fst ` set (bl_open B)"
    using inv id by (auto simp: journal_exact_def)
  then have keys: "dict_keys (bl_open B') = dict_keys (bl_open B) @ [bl_next_id B]"
    using Opening change id by (simp add: dict_set_fresh)
  show ?thesis
    using inv unfolding journal_exact_def keys opened_append [OF journal] closed_append [OF journal] next_id seq
    by (auto simp: journal id)
next
  case (Appending e)
  with change have journal: "bl_journal B' = bl_journal B @ [(bl_next_sequence B, e)]"
    and e: "opens e = []" "distinct (closes e)" "set (closes e) \<subseteq> set (dict_keys (bl_open B))"
    and keys: "dict_keys (bl_open B') = filter (\<lambda>i. i \<notin> set (closes e)) (dict_keys (bl_open B))"
    and next_id: "bl_next_id B' = bl_next_id B"
    and seq: "bl_next_sequence B' = Suc (bl_next_sequence B)" by simp_all
  show ?thesis
    using inv e unfolding journal_exact_def keys opened_append [OF journal] closed_append [OF journal] next_id seq
    by (auto simp: journal)
qed

lemma map_prod_fst: "fst (map_prod id f x) = fst x"
  by (cases x) simp

lemma raising_cases:
  "fst (raising B m k) = (case m of Inl e \<Rightarrow> B | Inr v \<Rightarrow> fst (k v))"
  by (simp add: raising_def split: sum.splits)

lemma update_lane_fields [simp]:
  "bl_next_sequence (update_lane l f B) = bl_next_sequence B" "bl_journal (update_lane l f B) = bl_journal B"
  "bl_next_id (update_lane l f B) = bl_next_id B" "bl_open (update_lane l f B) = bl_open B"
  by (simp_all add: update_lane_def)

lemma deleted_keys: "dict_keys (AList.delete i d) = filter (\<lambda>j. j \<notin> {i}) (dict_keys d)"
  by (simp add: AList.delete_keys removeAll_filter_not_eq) (rule filter_cong, auto)

lemma present_key: "dict_get d i = Some y \<Longrightarrow> i \<in> fst ` set d"
  by (metis dict_get_None option.distinct(1))

lemma reserve_journal: "\<exists>c. journal_changed B c (fst (reserve B lane cpu gpu purpose grant profile decision))"
proof -
  let ?R = "reserve B lane cpu gpu purpose grant profile decision"
  have "journal_changed B Unchanged (fst ?R) \<or> (\<exists>r. journal_changed B (Opening r) (fst ?R))"
    by (auto simp: reserve_def raising_cases book_def deny_def append_journal_def Let_def split: sum.split)
  then show ?thesis by blast
qed

lemma settle_journal: "\<exists>c. journal_changed B c (fst (settle B r cpu gpu cs gs))"
proof -
  let ?R = "settle B r cpu gpu cs gs"
  have "journal_changed B Unchanged (fst ?R) \<or> journal_changed B (Closing (rv_id r)) (fst ?R) \<or>
      (\<exists>c g s t. journal_changed B (Appending (JSettle r c g s t)) (fst ?R))"
    by (auto simp: settle_def raising_cases append_journal_def close_reservation_def unreserve_lane_def
        unreserve_group_def spend_group_def Let_def deleted_keys present_key split: sum.split)
  then show ?thesis by blast
qed

lemma release_journal: "\<exists>c. journal_changed B c (fst (release B r))"
proof -
  have "journal_changed B Unchanged (fst (release B r)) \<or> journal_changed B (Closing (rv_id r)) (fst (release B r)) \<or>
      journal_changed B (Appending (JRelease r)) (fst (release B r))"
    by (auto simp: release_def raising_cases append_journal_def close_reservation_def unreserve_lane_def
        unreserve_group_def Let_def deleted_keys present_key split: sum.split)
  then show ?thesis by blast
qed

lemma step_journal_changed: "\<exists>c. journal_changed B c (fst (budget_step B x))"
proof (cases x)
  case (OCharge lane cpu label purpose)
  have "journal_changed B Unchanged (fst (budget_step B x)) \<or>
      journal_changed B (Appending (JCharge lane purpose cpu label)) (fst (budget_step B x))"
    by (auto simp: OCharge map_prod_fst charge_elapsed_def raising_cases append_journal_def Let_def split: sum.split)
  then show ?thesis by blast
next
  case (OOverhead label t0 t1)
  have "journal_changed B Unchanged (fst (budget_step B x)) \<or>
      (\<exists>l p c n. journal_changed B (Appending (JCharge l p c n)) (fst (budget_step B x)))"
    by (auto simp: OOverhead map_prod_fst controller_overhead_def raising_cases append_journal_def Let_def split: sum.split)
  then show ?thesis by blast
next
  case (ONative lane v semantics stage)
  have "journal_changed B Unchanged (fst (budget_step B x))"
    by (auto simp: ONative map_prod_fst record_native_work_def raising_cases split: sum.split)
  then show ?thesis by blast
qed (auto simp: map_prod_fst reserve_journal settle_journal release_journal simp del: journal_changed.simps)

lemma journal_change_prefix: "journal_changed B c B' \<Longrightarrow> prefix (bl_journal B) (bl_journal B')"
  by (cases c) auto

interpretation budget: growing budget_step journal_exact bl_journal
proof unfold_locales
  fix B x
  assume inv: "journal_exact B"
  obtain c where c: "journal_changed B c (fst (budget_step B x))"
    using step_journal_changed by blast
  show "journal_exact (fst (budget_step B x))"
    using journal_exact_changed [OF inv c] .
  show "prefix (bl_journal B) (bl_journal (fst (budget_step B x)))"
    using journal_change_prefix [OF c] .
qed

lemma new_journal_exact [simp]: "journal_exact (new_budget_ledger E t)"
  by (simp add: journal_exact_def new_budget_ledger_def opened_def closed_def)

text \<open>
  The accounting journal is exact and append-only: in every ledger that operations can
  reach, the events are numbered from 1 without a gap, every reservation number was
  opened exactly once and in order, none was closed (settled or released) twice or without having been opened,
  only unclosed reservations are open, and what was in the journal before stays at its front.
\<close>

theorem budget_journal_exact:
  "let B = run budget_step (new_budget_ledger E t) xs; B' = run budget_step B ys in
     prefix (bl_journal B) (bl_journal B') \<and>
     map fst (bl_journal B) = [1..<Suc (length (bl_journal B))] \<and>
     opened B = [1..<bl_next_id B] \<and> distinct (closed B) \<and> set (closed B) \<subseteq> set (opened B) \<and>
     distinct (dict_keys (bl_open B)) \<and> set (dict_keys (bl_open B)) \<subseteq> set (opened B) - set (closed B)"
proof -
  have "journal_exact (run budget_step (new_budget_ledger E t) xs)"
    by (rule budget.run_inv) simp
  then show ?thesis
    unfolding Let_def using budget.run_log by (auto simp: journal_exact_def)
qed

section \<open>The envelope is never exceeded\<close>

text \<open>
  One resource of the ledger: \<open>R\<close> and \<open>S\<close> read the reserved and the spent amount of a lane, \<open>c\<close> the
  amount of a reservation.  All amounts are exact, a lane has reserved exactly what its open reservations hold, and
  the lanes together stay below the ceiling.
\<close>

definition exact_amount :: "pyfloat \<Rightarrow> bool" where
  "exact_amount x \<longleftrightarrow> (\<exists>a. x = Fin a \<and> on_grid a \<and> 0 \<le> a)"

definition held :: "(reservation \<Rightarrow> pyfloat) \<Rightarrow> string \<Rightarrow> (nat \<times> reservation) list \<Rightarrow> rat" where
  "held c l opn = sum_list (map (\<lambda>(_, r). if rv_lane r = l then amount (c r) else 0) opn)"

definition committed :: "('a \<Rightarrow> pyfloat) \<Rightarrow> ('a \<Rightarrow> pyfloat) \<Rightarrow> (string \<times> 'a) list \<Rightarrow> rat" where
  "committed R S lanes = sum_list (map (\<lambda>(_, a). amount (R a) + amount (S a)) lanes)"

definition pot_ok :: "('a \<Rightarrow> pyfloat) \<Rightarrow> ('a \<Rightarrow> pyfloat) \<Rightarrow> (reservation \<Rightarrow> pyfloat) \<Rightarrow> rat \<Rightarrow>
    (string \<times> 'a) list \<Rightarrow> (nat \<times> reservation) list \<Rightarrow> bool" where
  "pot_ok R S c E lanes opn \<longleftrightarrow>
     (\<forall>(l, a) \<in> set lanes. exact_amount (R a) \<and> exact_amount (S a) \<and> amount (R a) = held c l opn) \<and>
     (\<forall>(i, r) \<in> set opn. exact_amount (c r) \<and> rv_lane r \<in> fst ` set lanes) \<and>
     committed R S lanes \<le> E \<and> E \<le> 2 ^ 32 \<and> on_grid E"

lemma exact_amount_Fin: "exact_amount x \<Longrightarrow> x = Fin (amount x) \<and> on_grid (amount x) \<and> 0 \<le> amount x"
  by (auto simp: exact_amount_def)

lemma exact_amount_0 [simp]: "exact_amount (Fin 0)"
  by (simp add: exact_amount_def)

lemma exact_amount_add:
  assumes "exact_amount x" "exact_amount y" "amount x + amount y \<le> 2 ^ 33"
  shows "f_add x y = Fin (amount x + amount y)" "exact_amount (f_add x y)"
proof -
  from assms obtain a b where x: "x = Fin a" "on_grid a" "0 \<le> a" and y: "y = Fin b" "on_grid b" "0 \<le> b"
    by (auto simp: exact_amount_def)
  with assms show sum: "f_add x y = Fin (amount x + amount y)"
    by (simp add: grid_add del: f_add.simps)
  with x y show "exact_amount (f_add x y)"
    by (auto simp: exact_amount_def)
qed

lemma exact_amount_take:
  assumes "exact_amount x" "exact_amount y" "amount y \<le> amount x" "amount x \<le> 2 ^ 33"
  shows "f_max (Fin 0) (f_sub x y) = Fin (amount x - amount y)" "exact_amount (f_max (Fin 0) (f_sub x y))"
proof -
  from assms obtain a b where x: "x = Fin a" "on_grid a" "0 \<le> a" and y: "y = Fin b" "on_grid b" "0 \<le> b"
    by (auto simp: exact_amount_def)
  with assms show diff: "f_max (Fin 0) (f_sub x y) = Fin (amount x - amount y)"
    by (simp add: grid_sub)
  with x y assms(3) show "exact_amount (f_max (Fin 0) (f_sub x y))"
    by (auto simp: exact_amount_def)
qed

lemma pot_lane_nonneg: "pot_ok R S c E lanes opn \<Longrightarrow> (l, a) \<in> set lanes \<Longrightarrow> 0 \<le> amount (R a) \<and> 0 \<le> amount (S a)"
  by (auto simp: pot_ok_def dest!: bspec exact_amount_Fin)

lemma pot_lane_le:
  assumes "pot_ok R S c E lanes opn" "(l, a) \<in> set lanes"
  shows "amount (R a) + amount (S a) \<le> E"
proof -
  have "amount (R a) + amount (S a) \<le> committed R S lanes"
    unfolding committed_def using assms pot_lane_nonneg [OF assms(1)]
    by (intro member_le_sum_list) (force intro: add_nonneg_nonneg)+
  with assms(1) show ?thesis by (simp add: pot_ok_def)
qed

lemma pot_committed_float:
  assumes "pot_ok R S c E lanes opn"
  shows "f_sum (map (\<lambda>(_, a). f_add (R a) (S a)) lanes) = Fin (committed R S lanes)"
proof -
  have each: "f_add (R a) (S a) = Fin (amount (R a) + amount (S a))" "on_grid (amount (R a) + amount (S a))"
      "0 \<le> amount (R a) + amount (S a)" if "(l, a) \<in> set lanes" for l a
  proof -
    have ra: "exact_amount (R a)" "exact_amount (S a)"
      using assms \<open>(l, a) \<in> set lanes\<close> by (auto simp: pot_ok_def)
    have "amount (R a) + amount (S a) \<le> 2 ^ 33"
      using pot_lane_le [OF assms \<open>(l, a) \<in> set lanes\<close>] assms by (simp add: pot_ok_def)
    then show "f_add (R a) (S a) = Fin (amount (R a) + amount (S a))"
      using exact_amount_add [OF ra] by simp
    show "on_grid (amount (R a) + amount (S a))" "0 \<le> amount (R a) + amount (S a)"
      using exact_amount_Fin [OF ra(1)] exact_amount_Fin [OF ra(2)] by auto
  qed
  have "map (\<lambda>(_, a). f_add (R a) (S a)) lanes = map Fin (map (\<lambda>(_, a). amount (R a) + amount (S a)) lanes)"
    using each(1) by auto
  then show ?thesis
    using each(2,3) assms unfolding committed_def
    by (simp only:) (subst f_sum_exact, auto simp: pot_ok_def committed_def)
qed

lemma held_book: "i \<notin> fst ` set opn \<Longrightarrow>
    held c l (dict_set i r opn) = held c l opn + (if rv_lane r = l then amount (c r) else 0)"
  by (simp add: held_def dict_set_fresh)

lemma held_close: "dict_ok opn \<Longrightarrow> dict_get opn i = Some r \<Longrightarrow>
    held c l (AList.delete i opn) = held c l opn - (if rv_lane r = l then amount (c r) else 0)"
  by (simp add: held_def sum_dict_delete)

lemma held_absent: "(\<forall>(i, r) \<in> set opn. rv_lane r \<noteq> l) \<Longrightarrow> held c l opn = 0"
  unfolding held_def by (induction opn) auto

lemma pot_held_nonneg: "pot_ok R S c E lanes opn \<Longrightarrow> (i, r) \<in> set opn \<Longrightarrow> 0 \<le> amount (c r)"
  by (auto simp: pot_ok_def dest!: bspec exact_amount_Fin)

lemma held_member:
  assumes "pot_ok R S c E lanes opn" "(i, r) \<in> set opn"
  shows "amount (c r) \<le> held c (rv_lane r) opn"
  unfolding held_def using assms(2) pot_held_nonneg [OF assms(1)]
  by (intro member_le_sum_list) (force simp: image_iff)+

lemma committed_set:
  assumes "dict_ok lanes" "case dict_get lanes l of None \<Rightarrow> amount (R a) = 0 \<and> amount (S a) = 0 | Some b \<Rightarrow> a = b"
  shows "committed R S (dict_set l a' lanes) =
    committed R S lanes - (amount (R a) + amount (S a)) + (amount (R a') + amount (S a'))"
  using assms by (cases "dict_get lanes l") (simp_all add: committed_def sum_dict_set)

lemma dict_set_keys: "fst ` set (dict_set k v d) = insert k (fst ` set d)"
  by (induction d) auto

lemma pot_old:
  assumes pot: "pot_ok R S c E lanes opn" and ok: "dict_ok lanes"
    and old: "case dict_get lanes l of None \<Rightarrow> R a = Fin 0 \<and> S a = Fin 0 | Some b \<Rightarrow> a = b"
  shows "exact_amount (R a) \<and> exact_amount (S a) \<and> amount (R a) = held c l opn"
proof (cases "dict_get lanes l")
  case None
  then have "l \<notin> fst ` set lanes"
    by (simp add: dict_get_None)
  then have "\<forall>(i, q) \<in> set opn. rv_lane q \<noteq> l"
    using pot unfolding pot_ok_def by (metis (mono_tags, lifting) case_prod_beta)
  with None old show ?thesis
    by (simp add: held_absent)
next
  case (Some b)
  then have "(l, a) \<in> set lanes"
    using old ok by (simp add: dict_get_mem)
  with pot show ?thesis
    by (auto simp: pot_ok_def)
qed

lemma pot_book:
  assumes pot: "pot_ok R S c E lanes opn" and ok: "dict_ok lanes" "dict_ok opn" and fresh: "i \<notin> fst ` set opn"
    and old: "case dict_get lanes (rv_lane r) of None \<Rightarrow> R a = Fin 0 \<and> S a = Fin 0 | Some b \<Rightarrow> a = b"
    and new: "R a' = f_add (R a) (c r)" "S a' = S a"
    and room: "exact_amount (c r)" "amount (c r) \<le> E - committed R S lanes"
  shows "pot_ok R S c E (dict_set (rv_lane r) a' lanes) (dict_set i r opn)"
proof -
  let ?l = "rv_lane r"
  have a: "exact_amount (R a) \<and> exact_amount (S a) \<and> amount (R a) = held c ?l opn"
    by (rule pot_old [OF pot ok(1) old])
  have a_le: "amount (R a) + amount (S a) \<le> committed R S lanes"
  proof (cases "dict_get lanes ?l")
    case None
    have "0 \<le> committed R S lanes"
      unfolding committed_def using pot_lane_nonneg [OF pot] by (intro sum_list_nonneg) force
    with None old show ?thesis by simp
  next
    case (Some b)
    then have "(?l, a) \<in> set lanes"
      using old ok by (simp add: dict_get_mem)
    then show ?thesis
      unfolding committed_def using pot_lane_nonneg [OF pot]
      by (intro member_le_sum_list) (force intro: add_nonneg_nonneg)+
  qed
  have "0 \<le> amount (S a)"
    using exact_amount_Fin [of "S a"] a by blast
  then have "amount (R a) + amount (c r) \<le> 2 ^ 33"
    using a_le room(2) pot by (simp add: pot_ok_def)
  then have R: "R a' = Fin (amount (R a) + amount (c r))" "exact_amount (R a')"
    using exact_amount_add [of "R a", OF _ room(1)] a new(1) by simp_all
  have total: "committed R S (dict_set ?l a' lanes) = committed R S lanes + amount (c r)"
    using committed_set [OF ok(1), where l = ?l and R = R and S = S and a = a and a' = a'] old R(1) new(2)
    by (cases "dict_get lanes ?l") simp_all
  show ?thesis
    using pot a R new(2) room total
    by (auto simp: pot_ok_def dict_set_mem dict_set_keys ok held_book fresh)
qed

lemma pot_close:
  assumes pot: "pot_ok R S c E lanes opn" and ok: "dict_ok lanes" "dict_ok opn" and r: "dict_get opn i = Some r"
    and old: "dict_get lanes (rv_lane r) = Some a"
    and new: "R a' = f_max (Fin 0) (f_sub (R a) (c r))" "exact_amount (S a')"
      "amount (S a') \<le> amount (S a) + amount (c r)"
  shows "pot_ok R S c E (dict_set (rv_lane r) a' lanes) (AList.delete i opn)"
proof -
  let ?l = "rv_lane r"
  have mem: "(i, r) \<in> set opn" "(?l, a) \<in> set lanes"
    using r old ok by (simp_all add: dict_get_mem)
  have a: "exact_amount (R a)" "exact_amount (S a)" "amount (R a) = held c ?l opn" "exact_amount (c r)"
    using pot mem by (auto simp: pot_ok_def)
  have le: "amount (c r) \<le> amount (R a)"
    using held_member [OF pot mem(1)] a(3) by simp
  have "amount (R a) \<le> 2 ^ 33"
    using pot_lane_le [OF pot mem(2)] exact_amount_Fin [OF a(2)] pot by (simp add: pot_ok_def)
  then have R: "R a' = Fin (amount (R a) - amount (c r))" "exact_amount (R a')"
    using exact_amount_take [OF a(1,4) le] new(1) by auto
  have total: "committed R S (dict_set ?l a' lanes) \<le> committed R S lanes"
    using committed_set [OF ok(1), where l = ?l and R = R and S = S and a = a and a' = a'] old R(1) new(3) by simp
  show ?thesis
    using pot a R new(2) total
    by (auto simp: pot_ok_def dict_set_mem dict_set_keys dict_delete_mem ok held_close r)
qed

text \<open>
  The contract of a caller: amounts lie on the exact grid, a settlement names the reservation that was
  issued and spends no more than it declared, and nothing is charged after the fact.
\<close>

definition grid_argument :: "pyval \<Rightarrow> bool" where
  "grid_argument v = (case as_float v of Some (Some (Fin a)) \<Rightarrow> on_grid a | _ \<Rightarrow> True)"

definition spends_at_most :: "pyfloat \<Rightarrow> pyval \<Rightarrow> bool" where
  "spends_at_most declared v = (case as_float v of Some (Some (Fin a)) \<Rightarrow> on_grid a \<and> a \<le> amount declared | _ \<Rightarrow> True)"

definition issued :: "budget_ledger \<Rightarrow> reservation \<Rightarrow> bool" where
  "issued B r \<longleftrightarrow> (case dict_get (bl_open B) (rv_id r) of None \<Rightarrow> True | Some q \<Rightarrow> q = r)"

fun disciplined :: "budget_ledger \<Rightarrow> budget_op \<Rightarrow> bool" where
  "disciplined B (OReserve lane cpu gpu purpose grant profile decision) = (grid_argument cpu \<and> grid_argument gpu)"
| "disciplined B (OSettle r cpu gpu cs gs) = (issued B r \<and> spends_at_most (rv_cpu r) cpu \<and> spends_at_most (rv_gpu r) gpu)"
| "disciplined B (ORelease r) = issued B r"
| "disciplined B (OCharge lane cpu label purpose) = False"
| "disciplined B (OOverhead label t0 t1) = False"
| "disciplined B (ONative lane v semantics stage) = True"

definition cpu_ok :: "budget_ledger \<Rightarrow> bool" where
  "cpu_ok B \<longleftrightarrow> env_cpu (bl_envelope B) = Fin (amount (env_cpu (bl_envelope B))) \<and>
     pot_ok la_reserved_cpu la_spent_cpu rv_cpu (amount (env_cpu (bl_envelope B))) (bl_lanes B) (bl_open B)"

definition gpu_ok :: "budget_ledger \<Rightarrow> bool" where
  "gpu_ok B \<longleftrightarrow> env_gpu (bl_envelope B) = Fin (amount (env_gpu (bl_envelope B))) \<and>
     pot_ok la_reserved_gpu la_spent_gpu rv_gpu (amount (env_gpu (bl_envelope B))) (bl_lanes B) (bl_open B)"

definition budget_ok :: "budget_ledger \<Rightarrow> bool" where
  "budget_ok B \<longleftrightarrow> journal_exact B \<and> dict_ok (bl_lanes B) \<and> cpu_ok B \<and> gpu_ok B \<and>
     (\<forall>(i, r) \<in> set (bl_open B). rv_lane r \<noteq> [] \<and> returned (purpose_class (rv_purpose r)))"

lemma committed_cpu_exact: "cpu_ok B \<Longrightarrow> committed_cpu B = Fin (committed la_reserved_cpu la_spent_cpu (bl_lanes B))"
  unfolding committed_cpu_def cpu_ok_def by (blast intro: pot_committed_float)

lemma committed_gpu_exact: "gpu_ok B \<Longrightarrow> committed_gpu B = Fin (committed la_reserved_gpu la_spent_gpu (bl_lanes B))"
  unfolding committed_gpu_def gpu_ok_def by (blast intro: pot_committed_float)

lemma pot_committed_nonneg: "pot_ok R S c E lanes opn \<Longrightarrow> 0 \<le> committed R S lanes"
  unfolding committed_def using pot_lane_nonneg by (intro sum_list_nonneg) fastforce

lemma committed_grid:
  assumes "pot_ok R S c E lanes opn"
  shows "on_grid (committed R S lanes)"
  unfolding committed_def using assms
  by (intro on_grid_sum_list) (auto simp: pot_ok_def dest!: bspec exact_amount_Fin)

lemma available_bound:
  assumes "\<not> f_less (f_max (Fin 0) (f_min u (f_sub (Fin E) (Fin T)))) (Fin x)" "0 \<le> x"
    "on_grid E" "on_grid T" "0 \<le> T" "T \<le> E" "E \<le> 2 ^ 32"
  shows "x \<le> E - T"
proof -
  have "f_sub (Fin E) (Fin T) = Fin (E - T)"
    using assms by (intro grid_sub) auto
  with assms(1,2,6) show ?thesis
    by (cases u) (auto simp: f_max_def f_min_def split: if_splits)
qed

lemma cpu_room:
  assumes "cpu_ok B" "available_cpu B p = Inr v" "\<not> f_less v (Fin x)" "0 \<le> x"
  shows "x \<le> amount (env_cpu (bl_envelope B)) - committed la_reserved_cpu la_spent_cpu (bl_lanes B)"
proof -
  obtain u where v: "v = f_max (Fin 0) (f_min u (f_sub (env_cpu (bl_envelope B)) (committed_cpu B)))"
    using assms(2) by (auto simp: available_cpu_def rbind_eq_Inr split: prod.splits)
  have env: "env_cpu (bl_envelope B) = Fin (amount (env_cpu (bl_envelope B)))"
    and pot: "pot_ok la_reserved_cpu la_spent_cpu rv_cpu (amount (env_cpu (bl_envelope B))) (bl_lanes B) (bl_open B)"
    using assms(1) by (auto simp: cpu_ok_def)
  show ?thesis
    using assms(3,4) v env pot_committed_nonneg [OF pot] committed_grid [OF pot] pot
    by (intro available_bound [where u = u]) (auto simp: committed_cpu_exact [OF assms(1)] pot_ok_def)
qed

lemma gpu_room:
  assumes "gpu_ok B" "available_gpu B p = Inr v" "\<not> f_less v (Fin x)" "0 \<le> x"
  shows "x \<le> amount (env_gpu (bl_envelope B)) - committed la_reserved_gpu la_spent_gpu (bl_lanes B)"
proof -
  obtain u where v: "v = f_max (Fin 0) (f_min u (f_sub (env_gpu (bl_envelope B)) (committed_gpu B)))"
    using assms(2) by (auto simp: available_gpu_def rbind_eq_Inr split: prod.splits)
  have env: "env_gpu (bl_envelope B) = Fin (amount (env_gpu (bl_envelope B)))"
    and pot: "pot_ok la_reserved_gpu la_spent_gpu rv_gpu (amount (env_gpu (bl_envelope B))) (bl_lanes B) (bl_open B)"
    using assms(1) by (auto simp: gpu_ok_def)
  show ?thesis
    using assms(3,4) v env pot_committed_nonneg [OF pot] committed_grid [OF pot] pot
    by (intro available_bound [where u = u]) (auto simp: committed_gpu_exact [OF assms(1)] pot_ok_def)
qed

lemma budget_ok_deny [simp]: "budget_ok (deny d B) = budget_ok B"
  by (simp add: budget_ok_def deny_def journal_exact_def opened_def closed_def cpu_ok_def gpu_ok_def)

lemma grid_argument_amount:
  "finite_nonnegative v = Inr x \<Longrightarrow> grid_argument v \<Longrightarrow> exact_amount x"
  by (cases x) (auto simp: finite_nonnegative_def grid_argument_def exact_amount_def split: option.splits if_splits)

lemma spends_amount:
  assumes "actual_amount d v = Inr x" "spends_at_most d v" "exact_amount d"
  shows "exact_amount x \<and> amount x \<le> amount d"
proof (cases "v = PNone")
  case True
  with assms show ?thesis by (simp add: actual_amount_def)
next
  case False
  with assms show ?thesis
    by (cases x) (auto simp: actual_amount_def finite_nonnegative_def spends_at_most_def exact_amount_def
        split: option.splits if_splits)
qed

lemma reserve_shape:
  obtains "fst (reserve B lane cpu_ms gpu_ms purpose grant profile decision) = B"
  | d where "fst (reserve B lane cpu_ms gpu_ms purpose grant profile decision) = deny d B"
  | r g ac ag where "fst (reserve B lane cpu_ms gpu_ms purpose grant profile decision) = book r g B"
      "finite_nonnegative cpu_ms = Inr (rv_cpu r)" "finite_nonnegative gpu_ms = Inr (rv_gpu r)"
      "purpose_class (rv_purpose r) = Inr g" "available_cpu B (rv_purpose r) = Inr ac" "\<not> f_less ac (rv_cpu r)"
      "available_gpu B (rv_purpose r) = Inr ag" "\<not> f_less ag (rv_gpu r)"
      "rv_id r = bl_next_id B" "rv_lane r \<noteq> []"
proof (cases "\<exists>cpu gpu g ac ag. finite_nonnegative cpu_ms = Inr cpu \<and> finite_nonnegative gpu_ms = Inr gpu \<and>
    check_provenance grant profile decision = Inr () \<and> purpose_class purpose = Inr g \<and>
    available_cpu B purpose = Inr ac \<and> available_gpu B purpose = Inr ag \<and> \<not> f_less ac cpu \<and> \<not> f_less ag gpu \<and>
    lane \<noteq> []")
  case True
  then obtain cpu gpu g ac ag where args: "finite_nonnegative cpu_ms = Inr cpu" "finite_nonnegative gpu_ms = Inr gpu"
      "check_provenance grant profile decision = Inr ()" "purpose_class purpose = Inr g"
      "available_cpu B purpose = Inr ac" "available_gpu B purpose = Inr ag" "\<not> f_less ac cpu" "\<not> f_less ag gpu"
      "lane \<noteq> []"
    by blast
  define r where "r = \<lparr>rv_id = bl_next_id B, rv_lane = lane, rv_purpose = purpose, rv_cpu = cpu, rv_gpu = gpu,
    rv_grant = grant, rv_profile = profile, rv_decision = decision\<rparr>"
  have "fst (reserve B lane cpu_ms gpu_ms purpose grant profile decision) = book r g B"
    using args by (simp add: reserve_def r_def Let_def)
  then show ?thesis
    by (rule that(3) [where ac = ac and ag = ag]) (simp_all add: r_def args)
next
  case False
  then have "fst (reserve B lane cpu_ms gpu_ms purpose grant profile decision) \<in> insert B (range (\<lambda>d. deny d B))"
    by (auto simp: reserve_def raising_cases Let_def split: sum.split)
  with that(1,2) show ?thesis by blast
qed

lemma account_old: "case dict_get (bl_lanes B) l of
      None \<Rightarrow> la_reserved_cpu (account B l) = Fin 0 \<and> la_spent_cpu (account B l) = Fin 0 \<and>
        la_reserved_gpu (account B l) = Fin 0 \<and> la_spent_gpu (account B l) = Fin 0
    | Some b \<Rightarrow> account B l = b"
  by (simp add: account_def new_account_def split: option.splits)

lemma budget_ok_book:
  assumes ok: "budget_ok B" and exact: "exact_amount (rv_cpu r)" "exact_amount (rv_gpu r)"
    and room: "amount (rv_cpu r) \<le> amount (env_cpu (bl_envelope B)) - committed la_reserved_cpu la_spent_cpu (bl_lanes B)"
      "amount (rv_gpu r) \<le> amount (env_gpu (bl_envelope B)) - committed la_reserved_gpu la_spent_gpu (bl_lanes B)"
    and r: "rv_id r = bl_next_id B" "rv_lane r \<noteq> []" "purpose_class (rv_purpose r) = Inr g"
  shows "budget_ok (book r g B)"
proof -
  define a where "a = account B (rv_lane r)"
  define a' where "a' = a\<lparr>la_reserved_cpu := f_add (la_reserved_cpu a) (rv_cpu r),
    la_reserved_gpu := f_add (la_reserved_gpu a) (rv_gpu r)\<rparr>"
  have fields: "bl_lanes (book r g B) = dict_set (rv_lane r) a' (bl_lanes B)"
    "bl_open (book r g B) = dict_set (rv_id r) r (bl_open B)" "bl_envelope (book r g B) = bl_envelope B"
    by (simp_all add: book_def append_journal_def update_lane_def a'_def a_def Let_def)
  have change: "journal_changed B (Opening r) (book r g B)"
    unfolding book_def append_journal_def Let_def by (simp add: r(1))
  have journal: "journal_exact (book r g B)"
    using ok journal_exact_changed [OF _ change] by (simp add: budget_ok_def)
  have dicts: "dict_ok (bl_lanes B)" "dict_ok (bl_open B)" and fresh: "rv_id r \<notin> fst ` set (bl_open B)"
    using ok r(1) by (auto simp: budget_ok_def journal_exact_def)
  have old: "case dict_get (bl_lanes B) (rv_lane r) of None \<Rightarrow> la_reserved_cpu a = Fin 0 \<and> la_spent_cpu a = Fin 0 | Some b \<Rightarrow> a = b"
    "case dict_get (bl_lanes B) (rv_lane r) of None \<Rightarrow> la_reserved_gpu a = Fin 0 \<and> la_spent_gpu a = Fin 0 | Some b \<Rightarrow> a = b"
    using account_old [of B "rv_lane r"] by (cases "dict_get (bl_lanes B) (rv_lane r)"; simp add: a_def)+
  have pots: "cpu_ok B" "gpu_ok B"
    using ok by (simp_all add: budget_ok_def)
  have cpu: "cpu_ok (book r g B)"
    using pots(1) unfolding cpu_ok_def fields
    by (intro conjI pot_book [where a = a and R = la_reserved_cpu and S = la_spent_cpu, OF _ dicts fresh old(1)] exact room) (simp_all add: a'_def)
  have gpu: "gpu_ok (book r g B)"
    using pots(2) unfolding gpu_ok_def fields
    by (intro conjI pot_book [where a = a and R = la_reserved_gpu and S = la_spent_gpu, OF _ dicts fresh old(2)] exact room) (simp_all add: a'_def)
  have "(\<forall>(i, q) \<in> set (bl_open (book r g B)). rv_lane q \<noteq> [] \<and> returned (purpose_class (rv_purpose q)))"
    using ok r dicts by (auto simp: budget_ok_def fields dict_set_mem)
  with journal dicts cpu gpu show ?thesis
    by (simp add: budget_ok_def fields dict_ok_set)
qed

lemma budget_ok_close:
  assumes ok: "budget_ok B" and r: "dict_get (bl_open B) (rv_id r) = Some r"
    and journal: "journal_exact B'" and same: "bl_envelope B' = bl_envelope B"
    and lanes: "bl_lanes B' = dict_set (rv_lane r) a' (bl_lanes B)"
    and opn: "bl_open B' = AList.delete (rv_id r) (bl_open B)"
    and a: "a = account B (rv_lane r)"
    and cpu: "la_reserved_cpu a' = f_max (Fin 0) (f_sub (la_reserved_cpu a) (rv_cpu r))"
      "exact_amount (la_spent_cpu a')" "amount (la_spent_cpu a') \<le> amount (la_spent_cpu a) + amount (rv_cpu r)"
    and gpu: "la_reserved_gpu a' = f_max (Fin 0) (f_sub (la_reserved_gpu a) (rv_gpu r))"
      "exact_amount (la_spent_gpu a')" "amount (la_spent_gpu a') \<le> amount (la_spent_gpu a) + amount (rv_gpu r)"
  shows "budget_ok B'"
proof -
  have dicts: "dict_ok (bl_lanes B)" "dict_ok (bl_open B)" and pots: "cpu_ok B" "gpu_ok B"
    using ok by (auto simp: budget_ok_def journal_exact_def)
  have "(rv_id r, r) \<in> set (bl_open B)"
    using r dicts by (simp add: dict_get_mem)
  then have "rv_lane r \<in> fst ` set (bl_lanes B)"
    using pots(1) by (auto simp: cpu_ok_def pot_ok_def)
  then obtain b where b: "dict_get (bl_lanes B) (rv_lane r) = Some b"
    by (metis dict_get_None not_None_eq)
  then have old: "dict_get (bl_lanes B) (rv_lane r) = Some a"
    by (simp add: a account_def)
  have "cpu_ok B'"
    using pots(1) unfolding cpu_ok_def lanes opn same
    by (intro conjI pot_close [where R = la_reserved_cpu and S = la_spent_cpu, OF _ dicts r old] cpu) simp_all
  moreover have "gpu_ok B'"
    using pots(2) unfolding gpu_ok_def lanes opn same
    by (intro conjI pot_close [where R = la_reserved_gpu and S = la_spent_gpu, OF _ dicts r old] gpu) simp_all
  moreover have "\<forall>(i, q) \<in> set (bl_open B'). rv_lane q \<noteq> [] \<and> returned (purpose_class (rv_purpose q))"
    using ok by (auto simp: budget_ok_def opn dict_delete_mem)
  ultimately show ?thesis
    using journal dicts by (simp add: budget_ok_def lanes dict_ok_set)
qed

lemma account_exact:
  assumes ok: "budget_ok B"
  shows "exact_amount (la_spent_cpu (account B l)) \<and> exact_amount (la_spent_gpu (account B l)) \<and>
    amount (la_spent_cpu (account B l)) \<le> 2 ^ 32 \<and> amount (la_spent_gpu (account B l)) \<le> 2 ^ 32"
proof (cases "dict_get (bl_lanes B) l")
  case None
  then show ?thesis by (simp add: account_def new_account_def)
next
  case (Some a)
  have pots: "cpu_ok B" "gpu_ok B" and "dict_ok (bl_lanes B)"
    using ok by (simp_all add: budget_ok_def)
  then have a: "(l, a) \<in> set (bl_lanes B)" "account B l = a"
    using Some by (simp_all add: dict_get_mem account_def)
  have cpu: "pot_ok la_reserved_cpu la_spent_cpu rv_cpu (amount (env_cpu (bl_envelope B))) (bl_lanes B) (bl_open B)"
    and gpu: "pot_ok la_reserved_gpu la_spent_gpu rv_gpu (amount (env_gpu (bl_envelope B))) (bl_lanes B) (bl_open B)"
    using pots by (simp_all add: cpu_ok_def gpu_ok_def)
  have "exact_amount (la_spent_cpu a)" "exact_amount (la_spent_gpu a)"
    "amount (env_cpu (bl_envelope B)) \<le> 2 ^ 32" "amount (env_gpu (bl_envelope B)) \<le> 2 ^ 32"
    using cpu gpu a by (auto simp: pot_ok_def)
  with pot_lane_le [OF cpu a(1)] pot_lane_le [OF gpu a(1)] pot_lane_nonneg [OF cpu a(1)] pot_lane_nonneg [OF gpu a(1)]
  show ?thesis by (simp add: a(2))
qed

lemma open_reservation:
  assumes "budget_ok B" "dict_get (bl_open B) i = Some r"
  shows "rv_lane r \<noteq> []" "\<exists>g. purpose_class (rv_purpose r) = Inr g"
    "exact_amount (rv_cpu r)" "exact_amount (rv_gpu r)"
    "amount (rv_cpu r) \<le> 2 ^ 32" "amount (rv_gpu r) \<le> 2 ^ 32"
proof -
  have "dict_ok (bl_open B)"
    using assms(1) by (simp add: budget_ok_def journal_exact_def)
  then have mem: "(i, r) \<in> set (bl_open B)"
    using assms(2) by (simp add: dict_get_mem)
  then show "rv_lane r \<noteq> []" "\<exists>g. purpose_class (rv_purpose r) = Inr g"
    using assms(1) by (auto simp: budget_ok_def returned_iff)
  have cpu: "pot_ok la_reserved_cpu la_spent_cpu rv_cpu (amount (env_cpu (bl_envelope B))) (bl_lanes B) (bl_open B)"
    and gpu: "pot_ok la_reserved_gpu la_spent_gpu rv_gpu (amount (env_gpu (bl_envelope B))) (bl_lanes B) (bl_open B)"
    using assms(1) by (simp_all add: budget_ok_def cpu_ok_def gpu_ok_def)
  then show "exact_amount (rv_cpu r)" "exact_amount (rv_gpu r)"
    using mem by (auto simp: pot_ok_def)
  obtain a where a: "(rv_lane r, a) \<in> set (bl_lanes B)"
    using cpu mem by (auto simp: pot_ok_def)
  have "la_reserved_cpu a = la_reserved_cpu a" "amount (la_reserved_cpu a) = held rv_cpu (rv_lane r) (bl_open B)"
    "amount (la_reserved_gpu a) = held rv_gpu (rv_lane r) (bl_open B)"
    using cpu gpu a by (auto simp: pot_ok_def)
  with held_member [OF cpu mem] held_member [OF gpu mem] pot_lane_le [OF cpu a] pot_lane_le [OF gpu a]
    pot_lane_nonneg [OF cpu a] pot_lane_nonneg [OF gpu a] cpu gpu
  show "amount (rv_cpu r) \<le> 2 ^ 32" "amount (rv_gpu r) \<le> 2 ^ 32"
    by (simp_all add: pot_ok_def)
qed

lemma account_update [simp]: "account (update_lane l f B) l = f (account B l)"
  by (simp add: account_def update_lane_def)

lemma lanes_update: "bl_lanes (update_lane l f B) = dict_set l (f (account B l)) (bl_lanes B)"
  by (simp add: update_lane_def)

lemma settle_account_spent:
  "la_spent_cpu (settle_account r cpu gpu cs gs a) = f_add (la_spent_cpu a) cpu"
  "la_spent_gpu (settle_account r cpu gpu cs gs a) = f_add (la_spent_gpu a) gpu"
  "la_reserved_cpu (settle_account r cpu gpu cs gs a) = la_reserved_cpu a"
  "la_reserved_gpu (settle_account r cpu gpu cs gs a) = la_reserved_gpu a"
  by (simp_all add: settle_account_def Let_def)

lemma settle_contract:
  assumes ok: "budget_ok B" and disc: "disciplined B (OSettle r cpu_ms gpu_ms cs gs)"
  shows "budget_ok (fst (settle B r cpu_ms gpu_ms cs gs))"
proof (cases "\<exists>cpu gpu. actual_amount (rv_cpu r) cpu_ms = Inr cpu \<and> actual_amount (rv_gpu r) gpu_ms = Inr gpu \<and>
    settlement_source cpu_ms cs \<in> set valid_sources \<and> settlement_source gpu_ms gs \<in> set valid_sources \<and>
    dict_get (bl_open B) (rv_id r) \<noteq> None")
  case False
  then have "fst (settle B r cpu_ms gpu_ms cs gs) = B"
    by (auto simp: settle_def raising_cases Let_def split: sum.split)
  with ok show ?thesis by simp
next
  case True
  then obtain cpu gpu where args: "actual_amount (rv_cpu r) cpu_ms = Inr cpu" "actual_amount (rv_gpu r) gpu_ms = Inr gpu"
      "settlement_source cpu_ms cs \<in> set valid_sources" "settlement_source gpu_ms gs \<in> set valid_sources"
      and opn: "dict_get (bl_open B) (rv_id r) \<noteq> None"
    by blast
  have r: "dict_get (bl_open B) (rv_id r) = Some r"
    using opn disc by (auto simp: issued_def)
  note open_r = open_reservation [OF ok r]
  obtain g where g: "purpose_class (rv_purpose r) = Inr g"
    using open_r(2) by blast
  have spent: "exact_amount cpu \<and> amount cpu \<le> amount (rv_cpu r)" "exact_amount gpu \<and> amount gpu \<le> amount (rv_gpu r)"
    using spends_amount [OF args(1) _ open_r(3)] spends_amount [OF args(2) _ open_r(4)] disc by simp_all
  let ?B' = "fst (settle B r cpu_ms gpu_ms cs gs)"
  define a where "a = account B (rv_lane r)"
  define a' where "a' = settle_account r cpu gpu (settlement_source cpu_ms cs) (settlement_source gpu_ms gs)
    (a\<lparr>la_reserved_cpu := f_max (Fin 0) (f_sub (la_reserved_cpu a) (rv_cpu r)),
      la_reserved_gpu := f_max (Fin 0) (f_sub (la_reserved_gpu a) (rv_gpu r))\<rparr>)"
  have result: "?B' = append_journal (JSettle r cpu gpu (settlement_source cpu_ms cs) (settlement_source gpu_ms gs))
      (spend_group g cpu gpu (update_lane (rv_lane r)
        (settle_account r cpu gpu (settlement_source cpu_ms cs) (settlement_source gpu_ms gs))
        (unreserve_group r g (unreserve_lane r (close_reservation (rv_id r) B)))))"
    using args r g open_r(1) by (simp add: settle_def Let_def)
  have acct: "account (unreserve_group r g C) l = account C l" "account (close_reservation i C) l = account C l" for C l i
    by (simp_all add: account_def unreserve_group_def close_reservation_def)
  have "bl_lanes ?B' = dict_set (rv_lane r) a' (bl_lanes B)"
    by (simp add: result append_journal_def spend_group_def lanes_update acct unreserve_lane_def a'_def a_def)
      (simp add: unreserve_group_def lanes_update acct close_reservation_def)
  moreover have "journal_exact ?B'"
    using journal_exact_changed settle_journal ok unfolding budget_ok_def by blast
  moreover have "bl_open ?B' = AList.delete (rv_id r) (bl_open B)" "bl_envelope ?B' = bl_envelope B"
    by (simp_all add: result append_journal_def spend_group_def update_lane_def unreserve_group_def unreserve_lane_def
        close_reservation_def)
  moreover have "f_add (la_spent_cpu a) cpu = Fin (amount (la_spent_cpu a) + amount cpu)"
      "exact_amount (f_add (la_spent_cpu a) cpu)"
    using exact_amount_add [of "la_spent_cpu a" cpu] account_exact [OF ok, of "rv_lane r"] spent(1) open_r(5)
    by (simp_all add: a_def)
  moreover have "f_add (la_spent_gpu a) gpu = Fin (amount (la_spent_gpu a) + amount gpu)"
      "exact_amount (f_add (la_spent_gpu a) gpu)"
    using exact_amount_add [of "la_spent_gpu a" gpu] account_exact [OF ok, of "rv_lane r"] spent(2) open_r(6)
    by (simp_all add: a_def)
  ultimately show ?thesis
    using spent by (intro budget_ok_close [OF ok r, where a' = a' and a = a]) (simp_all add: a_def a'_def settle_account_spent)
qed

lemma release_contract:
  assumes ok: "budget_ok B" and disc: "issued B r"
  shows "budget_ok (fst (release B r))"
proof (cases "dict_get (bl_open B) (rv_id r)")
  case None
  with ok show ?thesis by (simp add: release_def)
next
  case (Some q)
  with disc have r: "dict_get (bl_open B) (rv_id r) = Some r"
    by (simp add: issued_def)
  note open_r = open_reservation [OF ok r]
  obtain g where g: "purpose_class (rv_purpose r) = Inr g"
    using open_r(2) by blast
  let ?B' = "fst (release B r)"
  define a where "a = account B (rv_lane r)"
  define a' where "a' = a\<lparr>la_reserved_cpu := f_max (Fin 0) (f_sub (la_reserved_cpu a) (rv_cpu r)),
    la_reserved_gpu := f_max (Fin 0) (f_sub (la_reserved_gpu a) (rv_gpu r))\<rparr>"
  have result: "?B' = append_journal (JRelease r) (unreserve_group r g (unreserve_lane r (close_reservation (rv_id r) B)))"
    using r g open_r(1) by (simp add: release_def Let_def)
  have "bl_lanes ?B' = dict_set (rv_lane r) a' (bl_lanes B)"
    by (simp add: result append_journal_def unreserve_group_def unreserve_lane_def lanes_update a'_def a_def)
      (simp add: account_def close_reservation_def)
  moreover have "journal_exact ?B'"
    using journal_exact_changed release_journal ok unfolding budget_ok_def by blast
  moreover have "bl_open ?B' = AList.delete (rv_id r) (bl_open B)" "bl_envelope ?B' = bl_envelope B"
    by (simp_all add: result append_journal_def update_lane_def unreserve_group_def unreserve_lane_def
        close_reservation_def)
  ultimately show ?thesis
    using account_exact [OF ok, of "rv_lane r"] exact_amount_Fin [OF open_r(3)] exact_amount_Fin [OF open_r(4)]
    by (intro budget_ok_close [OF ok r, where a' = a' and a = a]) (simp_all add: a_def a'_def)
qed

lemma pot_touch:
  assumes pot: "pot_ok R S c E lanes opn" and ok: "dict_ok lanes"
    and old: "case dict_get lanes l of None \<Rightarrow> R a = Fin 0 \<and> S a = Fin 0 | Some b \<Rightarrow> a = b"
    and same: "R a' = R a" "S a' = S a"
  shows "pot_ok R S c E (dict_set l a' lanes) opn"
proof -
  have "exact_amount (R a) \<and> exact_amount (S a) \<and> amount (R a) = held c l opn"
    by (rule pot_old [OF pot ok old])
  moreover have "committed R S (dict_set l a' lanes) = committed R S lanes"
    using committed_set [OF ok, where l = l and R = R and S = S and a = a and a' = a'] old same
    by (cases "dict_get lanes l") simp_all
  ultimately show ?thesis
    using pot same by (auto simp: pot_ok_def dict_set_mem dict_set_keys ok)
qed

lemma native_contract:
  assumes ok: "budget_ok B"
  shows "budget_ok (fst (record_native_work B lane v semantics stage))"
proof (cases "\<exists>x. fst (record_native_work B lane v semantics stage) = update_lane lane (record_native semantics stage x) B")
  case True
  then obtain x where result: "fst (record_native_work B lane v semantics stage) =
      update_lane lane (record_native semantics stage x) B" by blast
  define a where "a = account B lane"
  define a' where "a' = record_native semantics stage x a"
  have same: "la_reserved_cpu a' = la_reserved_cpu a" "la_spent_cpu a' = la_spent_cpu a"
      "la_reserved_gpu a' = la_reserved_gpu a" "la_spent_gpu a' = la_spent_gpu a"
    by (simp_all add: a'_def record_native_def Let_def)
  have old: "case dict_get (bl_lanes B) lane of None \<Rightarrow> la_reserved_cpu a = Fin 0 \<and> la_spent_cpu a = Fin 0 | Some b \<Rightarrow> a = b"
    "case dict_get (bl_lanes B) lane of None \<Rightarrow> la_reserved_gpu a = Fin 0 \<and> la_spent_gpu a = Fin 0 | Some b \<Rightarrow> a = b"
    using account_old [of B lane] by (cases "dict_get (bl_lanes B) lane"; simp add: a_def)+
  have dicts: "dict_ok (bl_lanes B)" and pots: "cpu_ok B" "gpu_ok B"
    using ok by (simp_all add: budget_ok_def)
  let ?B' = "update_lane lane (record_native semantics stage x) B"
  have fields: "bl_lanes ?B' = dict_set lane a' (bl_lanes B)" "bl_open ?B' = bl_open B" "bl_envelope ?B' = bl_envelope B"
    by (simp_all add: update_lane_def a'_def a_def)
  have "cpu_ok ?B'"
    using pots(1) unfolding cpu_ok_def fields
    by (intro conjI pot_touch [where R = la_reserved_cpu and S = la_spent_cpu, OF _ dicts old(1)] same) simp_all
  moreover have "gpu_ok ?B'"
    using pots(2) unfolding gpu_ok_def fields
    by (intro conjI pot_touch [where R = la_reserved_gpu and S = la_spent_gpu, OF _ dicts old(2)] same) simp_all
  moreover have "journal_exact ?B'"
    using ok journal_exact_changed [of B Unchanged ?B'] by (simp add: budget_ok_def)
  ultimately show ?thesis
    using ok unfolding result by (simp add: budget_ok_def fields dict_ok_set)
next
  case False
  then have "fst (record_native_work B lane v semantics stage) = B"
    by (auto simp: record_native_work_def raising_cases split: sum.split if_splits)
  with ok show ?thesis by simp
qed

lemma reserve_contract:
  assumes ok: "budget_ok B" and disc: "grid_argument cpu_ms" "grid_argument gpu_ms"
  shows "budget_ok (fst (reserve B lane cpu_ms gpu_ms purpose grant profile decision))"
proof (cases rule: reserve_shape [of B lane cpu_ms gpu_ms purpose grant profile decision])
  case (3 r g ac ag)
  have exact: "exact_amount (rv_cpu r)" "exact_amount (rv_gpu r)"
    using grid_argument_amount [OF 3(2) disc(1)] grid_argument_amount [OF 3(3) disc(2)] by simp_all
  have pots: "cpu_ok B" "gpu_ok B"
    using ok by (simp_all add: budget_ok_def)
  have floats: "rv_cpu r = Fin (amount (rv_cpu r))" "0 \<le> amount (rv_cpu r)"
      "rv_gpu r = Fin (amount (rv_gpu r))" "0 \<le> amount (rv_gpu r)"
    using exact_amount_Fin [OF exact(1)] exact_amount_Fin [OF exact(2)] by simp_all
  have "\<not> f_less ac (Fin (amount (rv_cpu r)))" "\<not> f_less ag (Fin (amount (rv_gpu r)))"
    using 3(6,8) floats by simp_all
  then have room: "amount (rv_cpu r) \<le> amount (env_cpu (bl_envelope B)) - committed la_reserved_cpu la_spent_cpu (bl_lanes B)"
      "amount (rv_gpu r) \<le> amount (env_gpu (bl_envelope B)) - committed la_reserved_gpu la_spent_gpu (bl_lanes B)"
    using cpu_room [OF pots(1) 3(5) _ floats(2)] gpu_room [OF pots(2) 3(7) _ floats(4)] by simp_all
  show ?thesis
    unfolding 3(1) by (rule budget_ok_book [OF ok exact room 3(9,10,4)])
qed (use ok in simp_all)

interpretation envelope: contract budget_step disciplined budget_ok
proof unfold_locales
  fix B x
  assume "budget_ok B" "disciplined B x"
  then show "budget_ok (fst (budget_step B x))"
    by (cases x) (simp_all add: map_prod_fst reserve_contract settle_contract release_contract native_contract
        del: disciplined.simps(2) add: disciplined.simps(1,3,4,5,6))
qed

lemma budget_ok_new:
  assumes "env_cpu E = Fin c" "exact_ms c" "env_gpu E = Fin g" "exact_ms g"
  shows "budget_ok (new_budget_ledger E t)"
  using assms new_journal_exact [of E t]
  by (simp add: budget_ok_def cpu_ok_def gpu_ok_def pot_ok_def exact_ms_def)
    (simp add: new_budget_ledger_def committed_def)

lemma step_envelope: "bl_envelope (fst (budget_step B x)) = bl_envelope B"
proof (cases x)
  case (OReserve lane cpu gpu purpose grant profile decision)
  show ?thesis
    by (cases rule: reserve_shape [of B lane cpu gpu purpose grant profile decision])
      (simp_all add: OReserve map_prod_fst deny_def book_def append_journal_def update_lane_def Let_def)
qed (auto simp: map_prod_fst settle_def release_def charge_elapsed_def controller_overhead_def record_native_work_def
    budget_updates raising_cases Let_def split: sum.split)

lemma run_envelope: "bl_envelope (run budget_step B xs) = bl_envelope B"
  by (induction xs arbitrary: B) (simp_all add: step_envelope)

text \<open>
  C20. Concurrency cannot inflate the envelope: when the declared CPU and GPU
  budgets and the requested amounts are exact milliseconds and no settlement spends more than its reservation declared,
  no interleaving of reservations, settlements, releases and counter reports ever commits more than the declared
  CPU and GPU budget, in the ledger's own floating-point accounting.
\<close>

theorem envelope_never_exceeded:
  assumes "env_cpu E = Fin c" "exact_ms c" "env_gpu E = Fin g" "exact_ms g"
    and "along budget_step disciplined (new_budget_ledger E t) xs"
  shows "within_envelope (run budget_step (new_budget_ledger E t) xs) \<and>
    bl_envelope (run budget_step (new_budget_ledger E t) xs) = E"
proof -
  let ?B = "run budget_step (new_budget_ledger E t) xs"
  have ok: "budget_ok ?B"
    using envelope.run_contract [OF budget_ok_new [OF assms(1-4)] assms(5)] .
  then have "f_le (committed_cpu ?B) (Fin (amount (env_cpu (bl_envelope ?B))))"
      "f_le (committed_gpu ?B) (Fin (amount (env_gpu (bl_envelope ?B))))"
    by (simp_all add: budget_ok_def committed_cpu_exact committed_gpu_exact)
      (simp_all add: cpu_ok_def gpu_ok_def pot_ok_def)
  with ok show ?thesis
    by (simp add: within_envelope_def budget_ok_def cpu_ok_def gpu_ok_def run_envelope)
      (simp add: new_budget_ledger_def)
qed

definition sample_envelope :: envelope where
  "sample_envelope = \<lparr>env_wall = Fin 1000, env_cpu = Fin 1000, env_gpu = Fin 0, env_verify_fraction = Fin (1 / 4),
     env_refine_fraction = Fin 0, env_controller = Fin 50\<rparr>"

definition sample_reservation :: reservation where
  "sample_reservation = \<lparr>rv_id = 1, rv_lane = ''cpu-0'', rv_purpose = ''solver'', rv_cpu = Fin 600, rv_gpu = Fin 0,
     rv_grant = PNone, rv_profile = PNone, rv_decision = PNone\<rparr>"

lemmas budget_eval = reserve_def settle_def finite_nonnegative_def check_provenance_def digest_or_none_def
  purpose_class_def available_cpu_def available_gpu_def purpose_committed_def purpose_caps_def group_committed_def
  group_caps_def verification_reserve_def refinement_reserve_def verification_gpu_reserve_def
  refinement_gpu_reserve_def solver_cpu_ceiling_def solver_gpu_ceiling_def committed_cpu_def committed_gpu_def
  amount_at_def add_at_def take_at_def account_def new_account_def float_eval Let_def actual_amount_def
  settlement_source_def valid_sources_def settle_account_def budget_updates grid_argument_def spends_at_most_def
  issued_def

text \<open>Two workers ask for 600 ms each; the second one is refused until the first has settled.\<close>

definition sample_budget_run :: "budget_op list" where
  "sample_budget_run =
     [OReserve ''cpu-0'' (PInt 600) (PInt 0) ''solver'' PNone PNone PNone,
      OReserve ''cpu-1'' (PInt 600) (PInt 0) ''solver'' PNone PNone PNone,
      OSettle sample_reservation (PInt 100) PNone None None,
      OReserve ''cpu-1'' (PInt 600) (PInt 0) ''solver'' PNone PNone PNone]"

theorem envelope_never_exceeded_witness:
  "within_envelope (run budget_step (new_budget_ledger sample_envelope (Fin 0)) sample_budget_run) \<and>
   committed_cpu (run budget_step (new_budget_ledger sample_envelope (Fin 0)) sample_budget_run) = Fin 700"
proof -
  have run: "along budget_step disciplined (new_budget_ledger sample_envelope (Fin 0)) sample_budget_run"
    "committed_cpu (run budget_step (new_budget_ledger sample_envelope (Fin 0)) sample_budget_run) = Fin 700"
    by (simp_all add: sample_budget_run_def sample_reservation_def sample_envelope_def new_budget_ledger_def
        budget_eval)
  have "within_envelope (run budget_step (new_budget_ledger sample_envelope (Fin 0)) sample_budget_run) \<and>
      bl_envelope (run budget_step (new_budget_ledger sample_envelope (Fin 0)) sample_budget_run) = sample_envelope"
    by (rule envelope_never_exceeded [where c = 1000 and g = 0, OF _ _ _ _ run(1)])
      (simp_all add: sample_envelope_def exact_ms_def)
  with run(2) show ?thesis by blast
qed

section \<open>Clamping the envelope to a move\<close>

lemma check_envelope_Inr: "check_envelope E = Inr E' \<Longrightarrow> E' = E"
  by (auto simp: check_envelope_def rbind_eq_Inr split: if_splits)

lemma resource_envelope_Inr: "resource_envelope (PFloat w) (PFloat c) (PFloat g) (PFloat v) (PFloat r) (PFloat k) = Inr E \<Longrightarrow>
    E = \<lparr>env_wall = w, env_cpu = c, env_gpu = g, env_verify_fraction = v, env_refine_fraction = r, env_controller = k\<rparr> \<and>
    check_envelope E = Inr E"
  by (auto simp: resource_envelope_def envelope_number_def rbind_eq_Inr dest: check_envelope_Inr split: if_splits)

lemma f_min_le: "f_finite x \<Longrightarrow> f_le (f_min x y) x" "f_finite x \<Longrightarrow> f_finite y \<Longrightarrow> f_le (f_min x y) y"
  by (cases x; cases y; auto simp: f_min_def)+

lemma resource_envelope_finite:
  "resource_envelope wall cpu gpu vf rf ctl = Inr E \<Longrightarrow>
    f_finite (env_wall E) \<and> f_finite (env_cpu E) \<and> f_finite (env_controller E) \<and> check_envelope E = Inr E"
  by (auto simp: resource_envelope_def envelope_number_def rbind_eq_Inr dest: check_envelope_Inr
      split: option.splits if_splits)

text \<open>
  A clamped envelope is a legal envelope that never exceeds the
  profile: its wall and CPU budgets and its controller reserve are at most those of the profile and at
  most the requested clamp, the reserve fractions are kept and there is no GPU budget.
\<close>

theorem clamp_shrinks:
  assumes new: "resource_envelope wall cpu gpu vf rf ctl = Inr E"
    and clamp: "clamped_cpu_envelope E (PFloat w) (PFloat c) = Inr E'"
  shows "check_envelope E' = Inr E' \<and> f_le (env_wall E') w \<and> f_le (env_wall E') (env_wall E) \<and>
    f_le (env_cpu E') c \<and> f_le (env_cpu E') (env_cpu E) \<and> env_gpu E' = Fin 0 \<and>
    env_verify_fraction E' = env_verify_fraction E \<and> env_refine_fraction E' = env_refine_fraction E \<and>
    f_le (env_controller E') (env_controller E)"
proof -
  have finite: "f_finite (env_wall E)" "f_finite (env_cpu E)" "f_finite (env_controller E)"
    using resource_envelope_finite [OF new] by simp_all
  have args: "f_finite w" "f_finite c"
    using clamp by (auto simp: clamped_cpu_envelope_def clamp_number_def rbind_eq_Inr split: if_splits)
  obtain k where "resource_envelope (PFloat (f_min w (env_wall E))) (PFloat (f_min c (env_cpu E))) (PFloat (Fin 0))
      (PFloat (env_verify_fraction E)) (PFloat (env_refine_fraction E)) (PFloat (f_min (env_controller E) k)) = Inr E'"
    using clamp by (auto simp: clamped_cpu_envelope_def clamp_number_def rbind_eq_Inr Let_def split: if_splits)
  then have "check_envelope E' = Inr E'" "E' = \<lparr>env_wall = f_min w (env_wall E), env_cpu = f_min c (env_cpu E),
      env_gpu = Fin 0, env_verify_fraction = env_verify_fraction E, env_refine_fraction = env_refine_fraction E,
      env_controller = f_min (env_controller E) k\<rparr>"
    using resource_envelope_Inr by blast+
  then show ?thesis
    using finite args by (simp add: f_min_le)
qed

theorem clamp_shrinks_witness:
  "\<exists>E E'. resource_envelope (PInt 1000) (PInt 1000) (PInt 0) (PInt 0) (PInt 0) (PInt 50) = Inr E \<and>
     clamped_cpu_envelope E (PFloat (Fin 100)) (PFloat (Fin 400)) = Inr E' \<and> f_le (env_cpu E') (Fin 400)"
proof -
  define E where "E = \<lparr>env_wall = Fin 1000, env_cpu = Fin 1000, env_gpu = Fin 0, env_verify_fraction = Fin 0,
     env_refine_fraction = Fin 0, env_controller = Fin 50\<rparr>"
  have new: "resource_envelope (PInt 1000) (PInt 1000) (PInt 0) (PInt 0) (PInt 0) (PInt 50) = Inr E"
    by (simp add: resource_envelope_def envelope_number_def check_envelope_def verification_reserve_def
        refinement_reserve_def E_def)
  have "\<exists>E'. clamped_cpu_envelope E (PFloat (Fin 100)) (PFloat (Fin 400)) = Inr E'"
    by (simp add: clamped_cpu_envelope_def clamp_number_def E_def float_eval resource_envelope_def envelope_number_def
        check_envelope_def verification_reserve_def refinement_reserve_def Let_def)
  then obtain E' where clamp: "clamped_cpu_envelope E (PFloat (Fin 100)) (PFloat (Fin 400)) = Inr E'"
    by blast
  show ?thesis
    using new clamp clamp_shrinks [OF new clamp] by blast
qed

text \<open>The amounts of a move of 31 ms under the reserves of the hybrid profile, correctly rounded.\<close>

lemma clamp_amounts:
  "of_rat64 (3 / 25) = Fin (1080863910568919 / 9007199254740992)" "of_rat64 (9 / 50) = Fin (3242591731706757 / 18014398509481984)"
  "f_add (Fin (1080863910568919 / 9007199254740992)) (Fin (3242591731706757 / 18014398509481984)) = Fin (5404319552844595 / 18014398509481984)"
  "f_mul (Fin 30000) (Fin (1080863910568919 / 9007199254740992)) = Fin 3600"
  "f_mul (Fin 30000) (Fin (3242591731706757 / 18014398509481984)) = Fin 5400"
  "f_add (Fin 3600) (Fin 5400) = Fin 9000"
  "f_add (Fin 9000) (Fin 500) = Fin 9500"
  "f_mul (Fin 31) (Fin 1) = Fin 31"
  "f_mul (Fin 31) (Fin (5404319552844595 / 18014398509481984)) = Fin (5235434566818201 / 562949953421312)"
  "f_sub (Fin 31) (Fin (5235434566818201 / 562949953421312)) = Fin (1527001748655309 / 70368744177664)"
  "f_mul (Fin 31) (Fin (1080863910568919 / 9007199254740992)) = Fin (4188347653454561 / 1125899906842624)"
  "f_mul (Fin 31) (Fin (3242591731706757 / 18014398509481984)) = Fin (3141260740090921 / 562949953421312)"
  "f_add (Fin (4188347653454561 / 1125899906842624)) (Fin (3141260740090921 / 562949953421312)) = Fin (2617717283409101 / 281474976710656)"
  "f_add (Fin (2617717283409101 / 281474976710656)) (Fin (1527001748655309 / 70368744177664)) = Fin (8725724278030337 / 281474976710656)"
  by code_simp+

definition hybrid_profile :: envelope where
  "hybrid_profile = \<lparr>env_wall = Fin 7000, env_cpu = Fin 30000, env_gpu = Fin 0, env_verify_fraction = Fin (1080863910568919 / 9007199254740992),
     env_refine_fraction = Fin (3242591731706757 / 18014398509481984), env_controller = Fin 500\<rparr>"

text \<open>
  The clamp does not always return: with the reserves of the hybrid validation
  profile (0.12, 0.18 and 500 ms) a move of 31 ms on one processor is refused, because the sum of the rounded reserves
  exceeds the clamped CPU budget by one unit in the last place, although the capacity of the
  controller had just been computed to make them fit.
\<close>

lemma clamp_rounding_raises:
  "case resource_envelope (PInt 7000) (PInt 30000) (PInt 0) (PFloat (of_rat64 (3 / 25)))
      (PFloat (of_rat64 (9 / 50))) (PInt 500) of
     Inl e \<Rightarrow> False
   | Inr E \<Rightarrow> bounded_for_move E (PInt 31) (PInt 1) = Inl ReservesTooLarge"
proof -
  have profile: "resource_envelope (PInt 7000) (PInt 30000) (PInt 0) (PFloat (of_rat64 (3 / 25)))
      (PFloat (of_rat64 (9 / 50))) (PInt 500) = Inr hybrid_profile"
    by (simp add: resource_envelope_def envelope_number_def check_envelope_def verification_reserve_def
        refinement_reserve_def clamp_amounts hybrid_profile_def del: f_add.simps f_mul.simps)
  have "bounded_for_move hybrid_profile (PInt 31) (PInt 1) = Inl ReservesTooLarge"
    by (simp add: bounded_for_move_def clamped_cpu_envelope_def clamp_number_def hybrid_profile_def f_min_def f_max_def
        resource_envelope_def envelope_number_def check_envelope_def verification_reserve_def
        refinement_reserve_def clamp_amounts Let_def del: f_add.simps f_mul.simps)
  with profile show ?thesis by simp
qed

end
