(* ===== verification/TimePlan.thy ===== *)
theory TimePlan
  imports Budget SearchRequest
begin

text \<open>
  \<^verbatim>\<open>controller/online_time.py\<close>, first part: the settings of clock mode, the
  admission of a \<open>go\<close> command, and the plan that bounds one move by the clock, the settings and the
  resource envelope.  The receipt time and the fraction are binary64 numbers; an integer given for them is represented by its
  \<open>float\<close>.
\<close>

section \<open>Settings\<close>

datatype time_error =
    IntegerRange string
  | PolicyUnsupported
  | FractionRange
  | FractionOverflow
  | MarginsTooLarge
  | ConfigNotObject
  | EnabledNotBool
  | UnknownKeys
  | GoRejected request_error
  | UnknownTokens
  | DuplicateLimit string
  | SearchmovesShape
  | DuplicateSearchmoves
  | SearchmovesCase
  | ReceiptClock
  | VariantUnsupported
  | PositionRejected request_error
  | MovesToGo
  | LimitMixture
  | NotIntegral
  | ClockTooShort
  | EnvelopeNotCpu
  | BudgetRejected budget_error
  | DeadlineStarted

definition online_policy :: string where
  "online_policy = ''clock_envelope_v1''"

definition max_uci_time :: int where
  "max_uci_time = 2147483647"

definition check_integer :: "pyval \<Rightarrow> string \<Rightarrow> int \<Rightarrow> int \<Rightarrow> time_error + int" where
  "check_integer v name low high = (case as_int v of
      None \<Rightarrow> Inl (IntegerRange name)
    | Some i \<Rightarrow> if low \<le> i \<and> i \<le> high then Inr i else Inl (IntegerRange name))"

record time_settings =
  ts_moves_horizon :: int
  ts_increment_fraction :: pyfloat
  ts_max_move :: int
  ts_network_reserve :: int
  ts_stop_grace :: int
  ts_output_margin :: int
  ts_prepare_budget :: int
  ts_quiesce_budget :: int
  ts_cpu_parallelism :: int

definition check_fraction :: "pyval \<Rightarrow> time_error + pyfloat" where
  "check_fraction v = (case as_float v of
      None \<Rightarrow> Inl FractionRange
    | Some None \<Rightarrow> Inl FractionOverflow
    | Some (Some x) \<Rightarrow> if f_finite x \<and> f_le (Fin 0) x \<and> f_le x (Fin 1) then Inr x else Inl FractionRange)"

definition setting_names :: "string list" where
  "setting_names = [''policy'', ''moves_horizon'', ''increment_fraction'', ''max_move_ms'', ''network_reserve_ms'',
     ''stop_grace_ms'', ''output_margin_ms'', ''prepare_budget_ms'', ''quiesce_budget_ms'', ''cpu_parallelism'']"

text \<open>The constructor, on its keyword arguments; a missing one takes its default.\<close>

definition setting :: "(string \<times> pyval) list \<Rightarrow> string \<Rightarrow> pyval \<Rightarrow> pyval" where
  "setting args name d = (case dict_get args name of None \<Rightarrow> d | Some v \<Rightarrow> v)"

definition time_settings_new :: "(string \<times> pyval) list \<Rightarrow> time_error + time_settings" where
  "time_settings_new args =
     rbind (ensure (setting args ''policy'' (PStr online_policy) = PStr online_policy) PolicyUnsupported) (\<lambda>_.
     rbind (check_integer (setting args ''moves_horizon'' (PInt 30)) ''moves_horizon'' 1 200) (\<lambda>horizon.
     rbind (check_integer (setting args ''cpu_parallelism'' (PInt 4)) ''cpu_parallelism'' 1 1024) (\<lambda>par.
     rbind (check_integer (setting args ''max_move_ms'' (PInt 10000)) ''max_move_ms'' 1 60000) (\<lambda>move.
     rbind (check_integer (setting args ''stop_grace_ms'' (PInt 100)) ''stop_grace_ms'' 1 60000) (\<lambda>grace.
     rbind (check_integer (setting args ''output_margin_ms'' (PInt 10)) ''output_margin_ms'' 1 60000) (\<lambda>margin.
     rbind (check_integer (setting args ''prepare_budget_ms'' (PInt 10)) ''prepare_budget_ms'' 1 60000) (\<lambda>prep.
     rbind (check_integer (setting args ''quiesce_budget_ms'' (PInt 50)) ''quiesce_budget_ms'' 1 60000) (\<lambda>quiesce.
     rbind (check_integer (setting args ''network_reserve_ms'' (PInt 100)) ''network_reserve_ms'' 0 60000) (\<lambda>net.
     rbind (check_fraction (setting args ''increment_fraction'' (PFloat (Fin (3 / 4))))) (\<lambda>frac.
     if move \<le> grace + margin then Inl MarginsTooLarge
     else Inr \<lparr>ts_moves_horizon = horizon, ts_increment_fraction = frac, ts_max_move = move, ts_network_reserve = net,
       ts_stop_grace = grace, ts_output_margin = margin, ts_prepare_budget = prep, ts_quiesce_budget = quiesce,
       ts_cpu_parallelism = par\<rparr>))))))))))"

definition time_settings_from_config :: "pyval \<Rightarrow> time_error + time_settings option" where
  "time_settings_from_config raw = (case raw of
      PNone \<Rightarrow> Inr None
    | PDict d \<Rightarrow> (case dict_get d ''enabled'' of
          Some (PBool enabled) \<Rightarrow>
            if \<not> set (dict_keys d) \<subseteq> insert ''enabled'' (set setting_names) then Inl UnknownKeys
            else rbind (time_settings_new (filter (\<lambda>(k, _). k \<noteq> ''enabled'') d)) (\<lambda>s.
              Inr (if enabled then Some s else None))
        | _ \<Rightarrow> Inl EnabledNotBool)
    | _ \<Rightarrow> Inl ConfigNotObject)"

section \<open>Limits of a go command\<close>

definition add_clock_limit :: "(string \<times> int) list \<Rightarrow> string \<times> limit_value \<Rightarrow> time_error + (string \<times> int) list" where
  "add_clock_limit limits item = (case item of (name, v) \<Rightarrow>
     if dict_get limits name \<noteq> None then Inl (DuplicateLimit name)
     else (case v of
         LimitFlag \<Rightarrow> Inl (IntegerRange name)
       | LimitInt i \<Rightarrow> rbind (check_integer (PInt i) name 0 max_uci_time) (\<lambda>n. Inr (limits @ [(name, n)]))))"

definition check_roots :: "string list \<Rightarrow> string list \<Rightarrow> time_error + unit" where
  "check_roots tokens roots =
     rbind (ensure (\<not> (1 < count_list tokens ''searchmoves'' \<or> (''searchmoves'' \<in> set tokens \<and> roots = [])))
       SearchmovesShape) (\<lambda>_.
     rbind (ensure (distinct roots) DuplicateSearchmoves) (\<lambda>_.
     ensure (set roots \<subseteq> set tokens) SearchmovesCase))"

definition go_limits :: "string \<Rightarrow> time_error + ((string \<times> int) list \<times> string list)" where
  "go_limits command = (case parse_go_request command of
      Inl e \<Rightarrow> Inl (GoRejected e)
    | Inr request \<Rightarrow>
        if gr_unknown request \<noteq> [] then Inl UnknownTokens
        else rbind (rfold add_clock_limit [] (gr_limits request)) (\<lambda>limits.
          rbind (check_roots (py_split command) (gr_root_moves request)) (\<lambda>_.
          Inr (limits, gr_root_moves request))))"

section \<open>The plan\<close>

record time_plan =
  tp_generation :: int
  tp_position_id :: string
  tp_side :: string
  tp_request_class :: string
  tp_external :: string
  tp_anchor :: string
  tp_received :: pyfloat
  tp_cpu_started :: int
  tp_available :: int
  tp_increment :: int
  tp_moves_to_go :: "int option"
  tp_soft :: int
  tp_hard :: int
  tp_prepare :: int
  tp_network_reserve :: int
  tp_output_margin :: int
  tp_envelope :: envelope
  tp_declared :: envelope
  tp_settings :: time_settings

definition soft_deadline :: "time_plan \<Rightarrow> pyfloat" where
  "soft_deadline p = f_add (tp_received p) (of_rat64 (of_int (tp_soft p) / 1000))"

definition hard_deadline :: "time_plan \<Rightarrow> pyfloat" where
  "hard_deadline p = f_add (tp_received p) (of_rat64 (of_int (tp_hard p) / 1000))"

text \<open>\<open>int\<close> of a float; infinities and NaN raise.\<close>

definition f_int :: "pyfloat \<Rightarrow> time_error + int" where
  "f_int x = (case x of Fin a \<Rightarrow> Inr (if 0 \<le> a then \<lfloor>a\<rfloor> else \<lceil>a\<rceil>) | _ \<Rightarrow> Inl NotIntegral)"

text \<open>What a request asks for: the clock, the increment, the moves to go, its class, the reserve and the wish.\<close>

record time_request =
  tr_available :: int
  tr_increment :: int
  tr_moves_to_go :: "int option"
  tr_class :: string
  tr_reserve :: int
  tr_desired :: int

definition limit_at :: "(string \<times> int) list \<Rightarrow> string \<Rightarrow> int \<Rightarrow> int" where
  "limit_at limits name d = (case dict_get limits name of None \<Rightarrow> d | Some i \<Rightarrow> i)"

definition clock_request :: "time_settings \<Rightarrow> string \<Rightarrow> (string \<times> int) list \<Rightarrow> time_error + time_request" where
  "clock_request s side limits = (let
       available = limit_at limits (side @ ''time'') 0;
       increment = limit_at limits (side @ ''inc'') 0;
       moves = dict_get limits ''movestogo'';
       reserve = ts_network_reserve s;
       horizon = (case moves of Some m \<Rightarrow> min m (ts_moves_horizon s) | None \<Rightarrow> ts_moves_horizon s)
     in if (case moves of Some m \<Rightarrow> m < 1 | None \<Rightarrow> False) then Inl MovesToGo
        else rbind (f_int (f_add (of_rat64 (of_int (max 0 (available - reserve)) / of_int horizon))
            (f_mul (ts_increment_fraction s) (Fin (of_int increment))))) (\<lambda>share.
          Inr \<lparr>tr_available = available, tr_increment = increment, tr_moves_to_go = moves, tr_class = ''clock_v1'',
            tr_reserve = reserve, tr_desired = share + (ts_stop_grace s + ts_output_margin s)\<rparr>))"

definition movetime_request :: "(string \<times> int) list \<Rightarrow> time_request" where
  "movetime_request limits = (let available = limit_at limits ''movetime'' 0 in
     \<lparr>tr_available = available, tr_increment = 0, tr_moves_to_go = None, tr_class = ''movetime_deadline_v1'',
      tr_reserve = 0, tr_desired = available\<rparr>)"

definition time_request_of :: "time_settings \<Rightarrow> string \<Rightarrow> (string \<times> int) list \<Rightarrow> time_error + time_request" where
  "time_request_of s side limits =
     (if set (dict_keys limits) = {''movetime''} then Inr (movetime_request limits)
      else if {''wtime'', ''btime''} \<subseteq> set (dict_keys limits) \<and>
          set (dict_keys limits) \<subseteq> {''wtime'', ''btime'', ''winc'', ''binc'', ''movestogo''}
      then clock_request s side limits
      else Inl LimitMixture)"

definition anchor_command :: "int \<Rightarrow> string list \<Rightarrow> string" where
  "anchor_command soft roots = ''go movetime '' @ show_int soft @
     (if roots \<noteq> [] then '' searchmoves '' @ py_join '' '' roots else [])"

definition bound_plan :: "time_settings \<Rightarrow> envelope \<Rightarrow> time_request \<Rightarrow> time_error + (int \<times> int \<times> envelope)" where
  "bound_plan s E r = rbind (f_int (env_wall E)) (\<lambda>wall. let
       hard = min (min (min (tr_available r - tr_reserve r) (tr_desired r)) (ts_max_move s)) wall
     in if hard \<le> ts_stop_grace s + ts_output_margin s then Inl ClockTooShort
        else let soft = hard - ts_stop_grace s - ts_output_margin s;
          cpu = f_min (env_cpu E) (Fin (of_int (hard * ts_cpu_parallelism s)))
        in if f_le (env_wall E) (Fin 0) \<or> f_le (env_cpu E) (Fin 0) \<or> f_le cpu (Fin 0) \<or> env_gpu E \<noteq> Fin 0
          then Inl EnvelopeNotCpu
          else (case bounded_for_move E (PInt hard) (PInt (ts_cpu_parallelism s)) of
              Inl e \<Rightarrow> Inl (BudgetRejected e)
            | Inr per_move \<Rightarrow> Inr (soft, hard, per_move)))"

definition make_time_plan :: "string \<Rightarrow> position_request \<Rightarrow> pyval \<Rightarrow> time_settings \<Rightarrow> envelope \<Rightarrow> pyval \<Rightarrow> pyval \<Rightarrow>
    time_error + time_plan" where
  "make_time_plan command pos generation s E received cpu_started =
     rbind (check_integer generation ''generation'' 1 max_uci_time) (\<lambda>gen.
     rbind (case as_float received of
         Some (Some x) \<Rightarrow> if f_finite x then Inr x else Inl ReceiptClock
       | Some None \<Rightarrow> Inl FractionOverflow
       | None \<Rightarrow> Inl ReceiptClock) (\<lambda>recv.
     rbind (check_integer cpu_started ''controller_cpu_started_ns'' 0 (2 ^ 63 - 1)) (\<lambda>cpu0.
     rbind (ensure (pr_variant pos = ''standard'') VariantUnsupported) (\<lambda>_.
     rbind (case side_to_move pos of Inl e \<Rightarrow> Inl (PositionRejected e) | Inr side \<Rightarrow> Inr side) (\<lambda>side.
     rbind (go_limits command) (\<lambda>(limits, roots).
     rbind (time_request_of s side limits) (\<lambda>r.
     rbind (bound_plan s E r) (\<lambda>(soft, hard, per_move).
       Inr \<lparr>tp_generation = gen, tp_position_id = position_id pos, tp_side = side, tp_request_class = tr_class r,
         tp_external = command, tp_anchor = anchor_command soft roots, tp_received = recv, tp_cpu_started = cpu0,
         tp_available = tr_available r, tp_increment = tr_increment r, tp_moves_to_go = tr_moves_to_go r,
         tp_soft = soft, tp_hard = hard, tp_prepare = min (ts_prepare_budget s) (max 0 (soft div 4)),
         tp_network_reserve = tr_reserve r, tp_output_margin = ts_output_margin s, tp_envelope = per_move,
         tp_declared = E, tp_settings = s\<rparr>))))))))"

section \<open>Provenance of a replay manifest\<close>

definition pv_get :: "(string \<times> pyval) list \<Rightarrow> string \<Rightarrow> pyval" where
  "pv_get d k = (case dict_get d k of None \<Rightarrow> PNone | Some v \<Rightarrow> v)"

definition bounded_anchor :: "string \<Rightarrow> pyval \<Rightarrow> bool" where
  "bounded_anchor command stage = (case stage of
      PDict d \<Rightarrow> pv_get d ''role'' = PStr ''anchor'' \<and>
        (case pv_get d ''command'' of
            PStr c \<Rightarrow> c \<noteq> command \<and> (case parse_go_request c of
                Inl e \<Rightarrow> False
              | Inr r \<Rightarrow> set (map fst (gr_limits r)) = {''movetime''} \<and> gr_unknown r = [])
          | _ \<Rightarrow> False)
    | _ \<Rightarrow> False)"

definition timing_marker_without_plan :: "(string \<times> pyval) list \<Rightarrow> bool" where
  "timing_marker_without_plan m =
     (if dict_get m ''clock_outcome'' \<noteq> None then True
      else (case (pv_get m ''external_request'', pv_get m ''stages'') of
          (PDict external, PList stages) \<Rightarrow> (case pv_get external ''command'' of
              PStr command \<Rightarrow> (case parse_go_request command of
                  Inl e \<Rightarrow> False
                | Inr r \<Rightarrow> let names = set (map fst (gr_limits r)) in
                    ({''wtime'', ''btime''} \<subseteq> names \<or> ''movetime'' \<in> names) \<and> list_ex (bounded_anchor command) stages)
            | _ \<Rightarrow> False)
        | _ \<Rightarrow> False))"

section \<open>The plan stays inside every bound\<close>

lemma check_integer_Inr [simp]:
  "check_integer v name low high = Inr i \<longleftrightarrow> as_int v = Some i \<and> low \<le> i \<and> i \<le> high"
  by (auto simp: check_integer_def split: option.splits)

definition settings_ok :: "time_settings \<Rightarrow> bool" where
  "settings_ok s \<longleftrightarrow> 1 \<le> ts_moves_horizon s \<and> 1 \<le> ts_stop_grace s \<and> 1 \<le> ts_output_margin s \<and>
     1 \<le> ts_prepare_budget s \<and> 0 \<le> ts_network_reserve s \<and> ts_max_move s \<le> 60000 \<and>
     ts_stop_grace s + ts_output_margin s < ts_max_move s \<and> 1 \<le> ts_cpu_parallelism s \<and> ts_cpu_parallelism s \<le> 1024"

lemma time_settings_new_ok: "time_settings_new args = Inr s \<Longrightarrow> settings_ok s"
  by (auto simp: time_settings_new_def rbind_eq_Inr settings_ok_def split: if_splits)

lemma limit_at_nonneg: "(\<forall>(k, i) \<in> set limits. 0 \<le> i) \<Longrightarrow> 0 \<le> d \<Longrightarrow> 0 \<le> limit_at limits name d"
  by (auto simp: limit_at_def split: option.splits dest!: map_of_SomeD)

lemma bound_plan_Inr:
  assumes "bound_plan s E r = Inr (soft, hard, per_move)"
  shows "soft + ts_stop_grace s + ts_output_margin s = hard \<and> 1 \<le> soft \<and> hard \<le> ts_max_move s \<and>
    hard + tr_reserve r \<le> tr_available r \<and> hard \<le> tr_desired r \<and> f_le (Fin (of_int hard)) (env_wall E) \<and>
    bounded_for_move E (PInt hard) (PInt (ts_cpu_parallelism s)) = Inr per_move"
proof -
  obtain a where wall: "env_wall E = Fin a"
    using assms by (auto simp: bound_plan_def rbind_eq_Inr f_int_def split: pyfloat.splits)
  define w where "w = (if 0 \<le> a then \<lfloor>a\<rfloor> else \<lceil>a\<rceil>)"
  define m where "m = min (min (min (tr_available r - tr_reserve r) (tr_desired r)) (ts_max_move s)) w"
  have int: "f_int (env_wall E) = Inr w"
    by (simp add: f_int_def wall w_def)
  have parts: "hard = m" "\<not> m \<le> ts_stop_grace s + ts_output_margin s" "\<not> f_le (env_wall E) (Fin 0)"
      "soft = hard - ts_stop_grace s - ts_output_margin s"
      "bounded_for_move E (PInt hard) (PInt (ts_cpu_parallelism s)) = Inr per_move"
    using assms unfolding bound_plan_def int rbind_Inr Let_def m_def [symmetric]
    by (auto split: if_split_asm sum.splits)
  have "of_int w \<le> a"
    using parts(3) by (simp add: w_def wall)
  moreover have "of_int hard \<le> (of_int w :: rat)"
    using parts(1) by (simp add: m_def)
  ultimately have "f_le (Fin (of_int hard)) (env_wall E)"
    by (simp add: wall)
  moreover have "hard \<le> tr_available r - tr_reserve r" "hard \<le> tr_desired r" "hard \<le> ts_max_move s"
    using parts(1) by (simp_all add: m_def)
  ultimately show ?thesis
    using parts by simp
qed



lemma make_time_plan_Inr:
  assumes "make_time_plan command pos generation s E received cpu_started = Inr p"
  obtains limits roots r side where "go_limits command = Inr (limits, roots)" "side_to_move pos = Inr side"
    "time_request_of s side limits = Inr r" "bound_plan s E r = Inr (tp_soft p, tp_hard p, tp_envelope p)"
    "tp_anchor p = anchor_command (tp_soft p) roots" "tp_available p = tr_available r"
    "tp_network_reserve p = tr_reserve r" "tp_prepare p = min (ts_prepare_budget s) (max 0 (tp_soft p div 4))"
    "tp_side p = side"
  using assms by (auto simp: make_time_plan_def rbind_eq_Inr split: option.splits if_splits sum.splits)




section \<open>The anchor command\<close>

lemma add_roots_moves: "gr_root_moves (add_roots ms r) = gr_root_moves r @ ms"
  by (simp add: add_roots_def)

lemma go_tokens_roots: "(\<forall>m \<in> set (gr_root_moves r). uci_move m) \<Longrightarrow> \<forall>m \<in> set (gr_root_moves (go_tokens ts r)). uci_move m"
proof (induction ts r rule: go_tokens.induct)
  case (2 t ts r)
  have moves: "\<forall>m \<in> set (map py_lower (takeWhile move_text ts)). uci_move m"
    by (auto dest: set_takeWhileD)
  consider "t \<in> set numeric_limits" | "t \<notin> set numeric_limits" "t \<in> set flag_limits"
    | "t \<notin> set numeric_limits" "t \<notin> set flag_limits" "t = ''searchmoves''"
    | "t \<notin> set numeric_limits" "t \<notin> set flag_limits" "t \<noteq> ''searchmoves''" by blast
  then show ?case
  proof cases
    case 1
    show ?thesis
    proof (cases ts)
      case Nil
      with 1 show ?thesis
        using "2.prems" by (simp add: go_tokens.simps(2) add_unknown_def)
    next
      case (Cons v rest)
      with 1 show ?thesis
        using "2.IH"(2) [OF 1 Cons] "2.IH"(3) [OF 1 Cons] "2.IH"(4) [OF 1 Cons] "2.prems"
        by (simp add: go_tokens.simps(2) add_unknown_def add_limit_def split: option.split)
    qed
  next
    case 2
    then show ?thesis
      using "2.IH"(5) "2.prems" by (simp add: go_tokens.simps(2) add_limit_def)
  next
    case 3
    have step: "go_tokens (t # ts) r =
        go_tokens (dropWhile move_text ts) (add_roots (map py_lower (takeWhile move_text ts)) r)"
      by (subst go_tokens.simps(2)) (simp only: searchmoves_not_limit 3(3) if_False if_True refl)
    have "\<forall>m \<in> set (gr_root_moves (add_roots (map py_lower (takeWhile move_text ts)) r)). uci_move m"
      using "2.prems" moves by (simp only: add_roots_moves set_append ball_Un simp_thms)
    then show ?thesis
      unfolding step by (rule "2.IH"(6) [OF 3])
  next
    case 4
    then show ?thesis
      using "2.IH"(7) "2.prems" by (simp add: go_tokens.simps(2) add_unknown_def)
  qed
qed simp

lemma go_limits_roots:
  assumes "go_limits command = Inr (limits, roots)"
  shows "\<forall>m \<in> set roots. uci_move m" "distinct roots"
  using assms go_tokens_roots [of "empty_go command"]
  by (auto simp: go_limits_def parse_go_request_def rbind_eq_Inr check_roots_def empty_go_def split: if_splits sum.splits)

lemma show_nat_length: "n < 10 ^ Suc k \<Longrightarrow> length (show_nat n) \<le> Suc k"
proof (induction k arbitrary: n)
  case 0
  then show ?case by (simp add: show_nat.simps [of n])
next
  case (Suc k)
  show ?case
  proof (cases "n < 10")
    case True
    then show ?thesis by (simp add: show_nat.simps [of n])
  next
    case False
    have "n div 10 < 10 ^ Suc k"
      using Suc.prems by (simp add: div_less_iff_less_mult)
    with False Suc.IH show ?thesis
      by (subst show_nat.simps) simp
  qed
qed

lemma py_str_int_small:
  assumes "0 \<le> i" "i \<le> max_uci_time"
  shows "py_str_int i = Some (show_int i)"
proof -
  have "nat i < 10 ^ Suc 9"
    using assms by (simp add: max_uci_time_def)
  then have "length (show_nat (nat i)) \<le> Suc 9"
    by (rule show_nat_length)
  then have "length (show_nat (nat \<bar>i\<bar>)) \<le> int_max_str_digits"
    using assms(1) unfolding int_max_str_digits_def by simp
  then show ?thesis
    by (simp add: py_str_int_def)
qed

definition anchor_words :: "int \<Rightarrow> string list \<Rightarrow> string list" where
  "anchor_words soft roots = [''go'', ''movetime'', show_int soft] @ (if roots = [] then [] else ''searchmoves'' # roots)"

lemma anchor_command_words: "anchor_command soft roots = py_join '' '' (anchor_words soft roots)"
  by (cases roots) (simp_all add: anchor_command_def anchor_words_def py_join_cons)

lemma anchor_tokens:
  assumes "0 \<le> soft" "soft \<le> max_uci_time" "\<forall>m \<in> set roots. uci_move m"
  shows "py_split (anchor_command soft roots) = anchor_words soft roots"
proof -
  have "token (show_int soft)"
    using py_str_int_token [OF assms(1) py_str_int_small [OF assms(1,2)]] .
  moreover have "token ''go''" "token ''movetime''" "token ''searchmoves''"
    by (auto simp: token_def py_space_def)
  ultimately show ?thesis
    unfolding anchor_command_words using assms(3)
    by (intro py_split_join) (auto simp: anchor_words_def uci_move_token)
qed

lemma anchor_request:
  assumes "1 \<le> soft" "soft \<le> max_uci_time" "\<forall>m \<in> set roots. uci_move m"
  shows "parse_go_request (anchor_command soft roots) = Inr
    \<lparr>gr_limits = [(''movetime'', LimitInt soft)], gr_root_moves = roots, gr_unknown = [],
     gr_raw = anchor_command soft roots\<rparr>"
proof -
  have words: "limit_words ''movetime'' (PInt soft) = Inr [''movetime'', show_int soft]"
    using assms(1,2) py_str_int_small [of soft]
    by (simp add: limit_words_def flag_limits_def numeric_limits_def)
  have lower: "map py_lower roots = roots"
    using assms(3) by (simp add: map_idI)
  have "go_tokens (tl (anchor_words soft roots)) (empty_go c) =
      \<lparr>gr_limits = [(''movetime'', LimitInt soft)], gr_root_moves = roots, gr_unknown = [], gr_raw = c\<rparr>" for c
  proof (cases "roots = []")
    case True
    then show ?thesis
      using go_tokens_words [OF words, of "[]"]
      by (simp add: anchor_words_def empty_go_def limit_entry_def flag_limits_def)
  next
    case False
    then show ?thesis
      using go_tokens_words [OF words, of "''searchmoves'' # roots"] go_tokens_searchmoves [of roots] assms(3) lower
      by (simp add: anchor_words_def empty_go_def limit_entry_def flag_limits_def add_roots_def)
  qed
  moreover have "py_split (anchor_command soft roots) = anchor_words soft roots"
    using assms by (intro anchor_tokens) auto
  moreover have "prefix ''go '' (anchor_command soft roots)"
    by (simp add: anchor_command_def)
  ultimately show ?thesis
    by (simp add: parse_go_request_def)
qed

lemma show_int_not_word: "0 \<le> i \<Longrightarrow> show_int i \<noteq> ''searchmoves''"
proof
  assume "0 \<le> i" "show_int i = ''searchmoves''"
  then have "CHR ''s'' \<in> set (show_nat (nat i))"
    by (simp add: show_int_def)
  then show False
    using show_nat_digits by (fastforce simp: is_digit_def)
qed

lemma uci_not_searchmoves: "uci_move m \<Longrightarrow> m \<noteq> ''searchmoves''"
  by auto

lemma anchor_limits:
  assumes "1 \<le> soft" "soft \<le> max_uci_time" "\<forall>m \<in> set roots. uci_move m" "distinct roots"
  shows "go_limits (anchor_command soft roots) = Inr ([(''movetime'', soft)], roots)"
proof -
  have "count_list roots ''searchmoves'' = 0"
    using assms(3) uci_not_searchmoves by (auto simp: count_list_0_iff)
  then have "check_roots (anchor_words soft roots) roots = Inr ()"
    using assms show_int_not_word [of soft] by (auto simp: check_roots_def anchor_words_def)
  moreover have "py_split (anchor_command soft roots) = anchor_words soft roots"
    using assms by (intro anchor_tokens) auto
  ultimately show ?thesis
    using assms by (simp add: go_limits_def anchor_request add_clock_limit_def check_integer_def)
qed

text \<open>
  The bounded request that the anchor engine receives is itself a request that
  clock mode admits: parsed again it is a single \<open>movetime\<close> limit, equal to the soft budget,
  restricted to exactly the root moves of the external request.
\<close>

theorem anchor_command_admissible:
  assumes settings: "time_settings_new args = Inr s"
    and plan: "make_time_plan command pos generation s E received cpu_started = Inr p"
  shows "\<exists>limits roots. go_limits command = Inr (limits, roots) \<and>
    go_limits (tp_anchor p) = Inr ([(''movetime'', tp_soft p)], roots)"
proof -
  have s: "settings_ok s"
    using settings by (rule time_settings_new_ok)
  obtain limits roots r where limits: "go_limits command = Inr (limits, roots)"
    and bound: "bound_plan s E r = Inr (tp_soft p, tp_hard p, tp_envelope p)"
    and anchor: "tp_anchor p = anchor_command (tp_soft p) roots"
    using make_time_plan_Inr [OF plan] by metis
  have "1 \<le> tp_soft p" "tp_soft p \<le> max_uci_time"
    using bound_plan_Inr [OF bound] s by (auto simp: settings_ok_def max_uci_time_def)
  then show ?thesis
    using limits go_limits_roots [OF limits] by (auto simp: anchor anchor_limits)
qed

text \<open>A clock of a minute with an increment of a second, under the default settings.\<close>

definition sample_settings :: time_settings where
  "sample_settings = \<lparr>ts_moves_horizon = 30, ts_increment_fraction = Fin (3 / 4), ts_max_move = 10000,
     ts_network_reserve = 100, ts_stop_grace = 100, ts_output_margin = 10, ts_prepare_budget = 10,
     ts_quiesce_budget = 50, ts_cpu_parallelism = 4\<rparr>"

definition sample_cpu_envelope :: envelope where
  "sample_cpu_envelope = \<lparr>env_wall = Fin 7000, env_cpu = Fin 30000, env_gpu = Fin 0, env_verify_fraction = Fin 0,
     env_refine_fraction = Fin 0, env_controller = Fin 500\<rparr>"

definition sample_position :: position_request where
  "sample_position = \<lparr>pr_base_fen = startpos_fen, pr_moves = [], pr_variant = ''standard''\<rparr>"

definition sample_go :: string where
  "sample_go = ''go wtime 60100 btime 50000 winc 1000 binc 1000 searchmoves e2e4 d2d4''"

lemma sample_settings_new: "time_settings_new [] = Inr sample_settings"
  by (simp add: time_settings_new_def setting_def check_fraction_def sample_settings_def check_integer_def)

definition sample_move_envelope :: envelope where
  "sample_move_envelope = \<lparr>env_wall = Fin 2860, env_cpu = Fin 11440, env_gpu = Fin 0, env_verify_fraction = Fin 0,
     env_refine_fraction = Fin 0, env_controller = Fin 500\<rparr>"

definition sample_time_plan :: time_plan where
  "sample_time_plan = \<lparr>tp_generation = 1, tp_position_id = position_id sample_position, tp_side = ''w'',
     tp_request_class = ''clock_v1'', tp_external = sample_go, tp_anchor = anchor_command 2750 [''e2e4'', ''d2d4''],
     tp_received = Fin 5, tp_cpu_started = 0, tp_available = 60100, tp_increment = 1000, tp_moves_to_go = None,
     tp_soft = 2750, tp_hard = 2860, tp_prepare = 10, tp_network_reserve = 100, tp_output_margin = 10,
     tp_envelope = sample_move_envelope, tp_declared = sample_cpu_envelope, tp_settings = sample_settings\<rparr>"

lemma sample_go_parsed: "parse_go_request sample_go = Inr \<lparr>gr_limits = [(''wtime'', LimitInt 60100),
    (''btime'', LimitInt 50000), (''winc'', LimitInt 1000), (''binc'', LimitInt 1000)],
    gr_root_moves = [''e2e4'', ''d2d4''], gr_unknown = [], gr_raw = sample_go\<rparr>"
proof -
  have words: "py_split sample_go = [''go'', ''wtime'', ''60100'', ''btime'', ''50000'', ''winc'', ''1000'',
      ''binc'', ''1000'', ''searchmoves'', ''e2e4'', ''d2d4'']"
    by code_simp
  have ints: "py_int ''60100'' = Some 60100" "py_int ''50000'' = Some 50000" "py_int ''1000'' = Some 1000"
    by (simp_all add: py_int_def py_strip_def py_space_def int_sign_def is_digit_def digit_val_def
        int_max_str_digits_def)
  have roots: "move_text ''e2e4''" "move_text ''d2d4''" "py_lower ''e2e4'' = ''e2e4''" "py_lower ''d2d4'' = ''d2d4''"
    by code_simp+
  have "go_tokens (tl (py_split sample_go)) (empty_go sample_go) = \<lparr>gr_limits = [(''wtime'', LimitInt 60100),
      (''btime'', LimitInt 50000), (''winc'', LimitInt 1000), (''binc'', LimitInt 1000)],
      gr_root_moves = [''e2e4'', ''d2d4''], gr_unknown = [], gr_raw = sample_go\<rparr>"
    using ints roots
    by (simp add: words go_tokens.simps(2) numeric_limits_def flag_limits_def add_limit_def add_roots_def empty_go_def)
  moreover have "prefix ''go '' sample_go"
    by (simp add: sample_go_def)
  ultimately show ?thesis
    by (simp add: parse_go_request_def)
qed

lemma sample_go_limits: "go_limits sample_go =
    Inr ([(''wtime'', 60100), (''btime'', 50000), (''winc'', 1000), (''binc'', 1000)], [''e2e4'', ''d2d4''])"
proof -
  have "py_split sample_go = [''go'', ''wtime'', ''60100'', ''btime'', ''50000'', ''winc'', ''1000'',
      ''binc'', ''1000'', ''searchmoves'', ''e2e4'', ''d2d4'']"
    by code_simp
  then show ?thesis
    using sample_go_parsed
    by (simp add: go_limits_def add_clock_limit_def check_integer_def max_uci_time_def check_roots_def)
qed

lemma sample_plan:
  "make_time_plan sample_go sample_position (PInt 1) sample_settings sample_cpu_envelope (PFloat (Fin 5)) (PInt 0) =
     Inr sample_time_plan"
proof -
  have side: "side_to_move sample_position = Inr ''w''"
    by code_simp
  have req: "time_request_of sample_settings ''w''
      [(''wtime'', 60100), (''btime'', 50000), (''winc'', 1000), (''binc'', 1000)] =
      Inr \<lparr>tr_available = 60100, tr_increment = 1000, tr_moves_to_go = None, tr_class = ''clock_v1'', tr_reserve = 100,
        tr_desired = 2860\<rparr>"
    by (simp add: time_request_of_def clock_request_def limit_at_def sample_settings_def f_int_def Let_def)
  have "bounded_for_move sample_cpu_envelope (PInt 2860) (PInt 4) = Inr sample_move_envelope"
    by (simp add: bounded_for_move_def sample_cpu_envelope_def sample_move_envelope_def clamped_cpu_envelope_def
        clamp_number_def float_eval resource_envelope_def envelope_number_def check_envelope_def verification_reserve_def
        refinement_reserve_def Let_def)
  then have bound: "bound_plan sample_settings sample_cpu_envelope
      \<lparr>tr_available = 60100, tr_increment = 1000, tr_moves_to_go = None, tr_class = ''clock_v1'', tr_reserve = 100,
        tr_desired = 2860\<rparr> = Inr (2750, 2860, sample_move_envelope)"
    by (simp add: bound_plan_def f_int_def Let_def sample_settings_def) (simp add: sample_cpu_envelope_def float_eval)
  show ?thesis
    using sample_go_limits side req bound
    by (simp add: make_time_plan_def check_integer_def sample_time_plan_def)
      (simp add: max_uci_time_def sample_position_def sample_settings_def)
qed


theorem anchor_command_admissible_witness:
  "\<exists>p roots. make_time_plan sample_go sample_position (PInt 1) sample_settings sample_cpu_envelope (PFloat (Fin 5)) (PInt 0) = Inr p \<and>
     go_limits (tp_anchor p) = Inr ([(''movetime'', tp_soft p)], roots)"
proof -
  obtain p where p: "make_time_plan sample_go sample_position (PInt 1) sample_settings sample_cpu_envelope (PFloat (Fin 5)) (PInt 0) = Inr p"
    using sample_plan by blast
  then show ?thesis
    using anchor_command_admissible [OF sample_settings_new p] by blast
qed

end
