(* ===== verification/ClockSearch.thy ===== *)
theory ClockSearch
  imports TimePlan
begin

text \<open>
  \<^verbatim>\<open>controller/online_time.py\<close>, second part: the deadline state of one search, shared by
  the thread that publishes the move, the threads that stop or fail the search, and the watch
  thread.  A method that holds its locks is one step; \<open>clock_step\<close> interleaves the steps of all threads with
  the passing of time.  The write callback of \<open>try_publish\<close> acts on the standard output:
  it writes the whole line or, when the sink would block, nothing.
\<close>

section \<open>State and methods\<close>

datatype watch = Unstarted | AwaitSoft | AwaitHard | WatchOver bool

record clock_search =
  ck_plan :: time_plan
  ck_work_closed :: bool
  ck_blocked :: bool
  ck_committed :: bool
  ck_finished :: bool
  ck_emitted_ms :: "pyfloat option"
  ck_emitted_line :: "string option"
  ck_failure :: "string option"
  ck_watch :: watch

definition clock_new :: "time_plan \<Rightarrow> clock_search" where
  "clock_new p = \<lparr>ck_plan = p, ck_work_closed = False, ck_blocked = False, ck_committed = False, ck_finished = False,
     ck_emitted_ms = None, ck_emitted_line = None, ck_failure = None, ck_watch = Unstarted\<rparr>"

definition work_open :: "clock_search \<Rightarrow> pyfloat \<Rightarrow> bool" where
  "work_open c now \<longleftrightarrow> \<not> ck_work_closed c \<and> f_less now (soft_deadline (ck_plan c))"

definition authority_open :: "clock_search \<Rightarrow> pyfloat \<Rightarrow> bool" where
  "authority_open c now \<longleftrightarrow> \<not> ck_blocked c \<and> f_less now (hard_deadline (ck_plan c))"

definition block_authority :: "clock_search \<Rightarrow> clock_search \<times> bool" where
  "block_authority c = (if ck_committed c \<or> ck_finished c then (c, False) else (c\<lparr>ck_blocked := True\<rparr>, True))"

definition elapsed_since :: "clock_search \<Rightarrow> pyfloat \<Rightarrow> pyfloat" where
  "elapsed_since c now = f_mul (f_sub now (tp_received (ck_plan c))) (Fin 1000)"

datatype publish_result = FinishedAlready | Expired | Revoked | WouldBlock | Published

text \<open>
  \<open>write\<close> is the callback, on a world of any type; \<open>t1\<close> and \<open>t2\<close> are the two readings
  of the clock, before and after the write.
\<close>

definition try_publish :: "clock_search \<Rightarrow> string \<Rightarrow> ('w \<Rightarrow> 'w \<times> bool) \<Rightarrow> 'w \<Rightarrow> bool \<Rightarrow> pyfloat \<Rightarrow> pyfloat \<Rightarrow>
    clock_search \<times> 'w \<times> publish_result" where
  "try_publish c line write w authority t1 t2 =
     (if ck_finished c then (c, w, FinishedAlready)
      else if \<not> f_less t1 (hard_deadline (ck_plan c)) then (c, w, Expired)
      else if authority \<and> ck_blocked c then (c, w, Revoked)
      else let (w', written) = write w in
        if \<not> written then (c, w', WouldBlock)
        else (c\<lparr>ck_emitted_ms := Some (elapsed_since c t2), ck_emitted_line := Some line, ck_failure := None,
            ck_work_closed := True, ck_committed := ck_committed c \<or> authority, ck_finished := True\<rparr>, w', Published))"

definition clock_fail :: "clock_search \<Rightarrow> string \<Rightarrow> string \<Rightarrow> pyfloat \<Rightarrow> clock_search \<times> bool" where
  "clock_fail c reason line now =
     (if ck_finished c then (c, False)
      else (c\<lparr>ck_blocked := True, ck_emitted_ms := Some (elapsed_since c now), ck_emitted_line := Some line,
          ck_failure := Some reason, ck_work_closed := True, ck_finished := True\<rparr>, True))"

definition clock_finish :: "clock_search \<Rightarrow> string option \<Rightarrow> string option \<Rightarrow> pyfloat \<Rightarrow> clock_search \<times> bool" where
  "clock_finish c line failure now =
     (if ck_finished c then (c, False)
      else (c\<lparr>ck_emitted_ms := Some (elapsed_since c now), ck_emitted_line := line, ck_failure := failure,
          ck_work_closed := True, ck_finished := True\<rparr>, True))"

definition output_within_deadline :: "clock_search \<Rightarrow> bool" where
  "output_within_deadline c \<longleftrightarrow> ck_finished c \<and> ck_failure c = None \<and> ck_emitted_line c \<noteq> None \<and>
     (case ck_emitted_ms c of None \<Rightarrow> False | Some ms \<Rightarrow> f_le ms (Fin (of_int (tp_hard (ck_plan c)))))"

definition optional :: "('a \<Rightarrow> pyval) \<Rightarrow> 'a option \<Rightarrow> pyval" where
  "optional f x = (case x of None \<Rightarrow> PNone | Some v \<Rightarrow> f v)"

definition clock_outcome :: "clock_search \<Rightarrow> (string \<times> pyval) list" where
  "clock_outcome c =
     [(''emitted_ms'', optional PFloat (ck_emitted_ms c)), (''emitted_line'', optional PStr (ck_emitted_line c)),
      (''failure'', optional PStr (ck_failure c)), (''output_within_deadline'', PBool (output_within_deadline c))]"

definition clock_start :: "clock_search \<Rightarrow> time_error + clock_search" where
  "clock_start c = (if ck_watch c \<noteq> Unstarted then Inl DeadlineStarted else Inr (c\<lparr>ck_watch := AwaitSoft\<rparr>))"

text \<open>
  The watch thread: it leaves a wait when the search is finished or the deadline has passed; the
  flag of \<open>WatchOver\<close> tells whether it called the hard-expiry callback.
\<close>

fun watch_step :: "clock_search \<Rightarrow> pyfloat \<Rightarrow> clock_search option" where
  "watch_step c now = (case ck_watch c of
      AwaitSoft \<Rightarrow>
        if ck_finished c then Some (c\<lparr>ck_watch := WatchOver False\<rparr>)
        else if f_le (soft_deadline (ck_plan c)) now then Some (c\<lparr>ck_work_closed := True, ck_watch := AwaitHard\<rparr>)
        else None
    | AwaitHard \<Rightarrow>
        if ck_finished c then Some (c\<lparr>ck_watch := WatchOver False\<rparr>)
        else if f_le (hard_deadline (ck_plan c)) now then Some (c\<lparr>ck_watch := WatchOver True\<rparr>)
        else None
    | _ \<Rightarrow> None)"

section \<open>Interleaving\<close>

record clock_world =
  cw_clock :: clock_search
  cw_now :: pyfloat
  cw_out :: "string list"

definition write_line :: "string \<Rightarrow> bool \<Rightarrow> string list \<Rightarrow> string list \<times> bool" where
  "write_line line ready out = (if ready then (out @ [line], True) else (out, False))"

datatype clock_event =
    EvTick
  | EvPublish string bool publish_result
  | EvBlock bool
  | EvFail string string bool
  | EvFinish "string option" "string option" bool
  | EvStart
  | EvWatch

inductive clock_step :: "clock_world \<Rightarrow> clock_event \<Rightarrow> clock_world \<Rightarrow> bool" where
  tick: "f_le (cw_now w) t \<Longrightarrow> clock_step w EvTick (w\<lparr>cw_now := t\<rparr>)"
| publish: "f_le (cw_now w) t1 \<Longrightarrow> f_le t1 t2 \<Longrightarrow>
    try_publish (cw_clock w) line (write_line line ready) (cw_out w) authority t1 t2 = (c, out, res) \<Longrightarrow>
    clock_step w (EvPublish line authority res) (w\<lparr>cw_clock := c, cw_now := t2, cw_out := out\<rparr>)"
| block: "block_authority (cw_clock w) = (c, b) \<Longrightarrow> clock_step w (EvBlock b) (w\<lparr>cw_clock := c\<rparr>)"
| fail: "f_le (cw_now w) t \<Longrightarrow> clock_fail (cw_clock w) reason line t = (c, b) \<Longrightarrow>
    clock_step w (EvFail reason line b) (w\<lparr>cw_clock := c, cw_now := t\<rparr>)"
| finish: "f_le (cw_now w) t \<Longrightarrow> clock_finish (cw_clock w) line failure t = (c, b) \<Longrightarrow>
    clock_step w (EvFinish line failure b) (w\<lparr>cw_clock := c, cw_now := t\<rparr>)"
| start: "clock_start (cw_clock w) = Inr c \<Longrightarrow> clock_step w EvStart (w\<lparr>cw_clock := c\<rparr>)"
| watch: "watch_step (cw_clock w) (cw_now w) = Some c \<Longrightarrow> clock_step w EvWatch (w\<lparr>cw_clock := c\<rparr>)"

inductive_cases publish_cases: "clock_step w (EvPublish line authority res) w'"
inductive_cases block_cases: "clock_step w (EvBlock b) w'"

inductive clock_steps :: "clock_world \<Rightarrow> clock_event list \<Rightarrow> clock_world \<Rightarrow> bool" where
  stop: "clock_steps w [] w"
| step: "clock_step w e w1 \<Longrightarrow> clock_steps w1 es w2 \<Longrightarrow> clock_steps w (e # es) w2"

inductive_simps clock_steps_Nil: "clock_steps w [] w'"
inductive_simps clock_steps_Cons: "clock_steps w (e # es) w'"

definition world_new :: "time_plan \<Rightarrow> pyfloat \<Rightarrow> clock_world" where
  "world_new p t = \<lparr>cw_clock = clock_new p, cw_now = t, cw_out = []\<rparr>"

section \<open>Invariants\<close>

lemma f_le_not_less: "f_le x y \<Longrightarrow> \<not> f_less x h \<Longrightarrow> \<not> f_less y h"
  by (cases x; cases y; cases h) auto


definition world_ok :: "clock_world \<Rightarrow> bool" where
  "world_ok w \<longleftrightarrow> (let c = cw_clock w in
     (ck_finished c \<longrightarrow> ck_work_closed c \<and> ck_emitted_ms c \<noteq> None) \<and>
     (\<not> ck_finished c \<longrightarrow> ck_emitted_ms c = None \<and> ck_emitted_line c = None \<and> ck_failure c = None \<and> cw_out w = []) \<and>
     (cw_out w = [] \<or> (\<exists>l. cw_out w = [l] \<and> ck_emitted_line c = Some l \<and> ck_failure c = None)) \<and>
     (ck_committed c \<longrightarrow> ck_finished c \<and> \<not> ck_blocked c \<and> cw_out w \<noteq> []))"

lemmas clock_methods = try_publish_def block_authority_def clock_fail_def clock_finish_def clock_start_def write_line_def

lemma world_ok_new: "world_ok (world_new p t)"
  by (simp add: world_ok_def world_new_def clock_new_def)

lemma world_ok_step: "clock_step w e w' \<Longrightarrow> world_ok w \<Longrightarrow> world_ok w'"
  by (induction rule: clock_step.induct)
    (auto simp: world_ok_def clock_methods Let_def split: if_splits watch.splits)

lemma world_ok_steps: "clock_steps w es w' \<Longrightarrow> world_ok w \<Longrightarrow> world_ok w'"
  by (induction rule: clock_steps.induct) (auto intro: world_ok_step)

text \<open>The events that seal the search, that revoke authority, and that publish under authority.\<close>

fun sealing :: "clock_event \<Rightarrow> bool" where
  "sealing (EvPublish line authority res) = (res = Published)"
| "sealing (EvFail reason line b) = b"
| "sealing (EvFinish line failure b) = b"
| "sealing e = False"

fun revoking :: "clock_event \<Rightarrow> bool" where
  "revoking (EvBlock b) = b"
| "revoking e = False"

fun publishing :: "clock_event \<Rightarrow> bool" where
  "publishing (EvPublish line authority res) = (res = Published)"
| "publishing e = False"

fun authorised :: "clock_event \<Rightarrow> bool" where
  "authorised (EvPublish line authority res) = (authority \<and> res = Published)"
| "authorised e = False"

abbreviation finished_in :: "clock_world \<Rightarrow> bool" where
  "finished_in w \<equiv> ck_finished (cw_clock w)"

lemma step_seals:
  "clock_step w e w' \<Longrightarrow> (if sealing e then \<not> finished_in w \<and> finished_in w' else finished_in w' = finished_in w)"
  by (induction rule: clock_step.induct)
    (auto simp: clock_methods Let_def split: if_splits watch.splits)

lemma step_publishes:
  "clock_step w e w' \<Longrightarrow> length (cw_out w') = length (cw_out w) + (if publishing e then 1 else 0)"
  by (induction rule: clock_step.induct)
    (auto simp: clock_methods Let_def split: if_splits watch.splits)

lemma step_authority:
  "clock_step w e w' \<Longrightarrow> world_ok w \<Longrightarrow>
    (ck_blocked (cw_clock w) \<longrightarrow> ck_blocked (cw_clock w') \<and> \<not> authorised e) \<and>
    (ck_committed (cw_clock w) \<longrightarrow> ck_committed (cw_clock w') \<and> \<not> revoking e) \<and>
    (revoking e \<longrightarrow> ck_blocked (cw_clock w')) \<and> (authorised e \<longrightarrow> ck_committed (cw_clock w'))"
  by (induction rule: clock_step.induct)
    (auto simp: clock_methods world_ok_def Let_def split: if_splits watch.splits)

lemma steps_seal:
  "clock_steps w es w' \<Longrightarrow>
    length (filter sealing es) + (if finished_in w then 1 else 0) = (if finished_in w' then 1 else 0 :: nat)"
  by (induction rule: clock_steps.induct) (auto dest: step_seals split: if_splits)

lemma steps_publish: "clock_steps w es w' \<Longrightarrow> length (cw_out w') = length (cw_out w) + length (filter publishing es)"
  by (induction rule: clock_steps.induct) (auto dest: step_publishes)

lemma steps_blocked:
  "clock_steps w es w' \<Longrightarrow> world_ok w \<Longrightarrow> ck_blocked (cw_clock w) \<Longrightarrow> filter authorised es = []"
  by (induction rule: clock_steps.induct) (auto dest: step_authority world_ok_step)

lemma steps_committed:
  "clock_steps w es w' \<Longrightarrow> world_ok w \<Longrightarrow> ck_committed (cw_clock w) \<Longrightarrow> filter revoking es = []"
  by (induction rule: clock_steps.induct) (auto dest: step_authority world_ok_step)

lemma steps_exclusive:
  "clock_steps w es w' \<Longrightarrow> world_ok w \<Longrightarrow> filter authorised es = [] \<or> filter revoking es = []"
proof (induction rule: clock_steps.induct)
  case (step w e w1 es w2)
  have ok: "world_ok w1"
    using step.hyps(1) step.prems by (rule world_ok_step)
  note now = step_authority [OF step.hyps(1) step.prems]
  have "\<not> (authorised e \<and> revoking e)"
    by (cases e) auto
  then show ?case
    using step.IH [OF ok] steps_blocked [OF step.hyps(2) ok] steps_committed [OF step.hyps(2) ok] now
    by auto
qed simp

text \<open>
  C22. Exactly one terminal outcome wins: along any interleaving of publications,
  stops, failures, deadline expiry and time, the search is finished if and only if one and only one of the calls
  sealed it; at most one line was written, exactly when a call reported that it published; and
  a written line is the recorded line, with no failure recorded.
\<close>

theorem clock_single_outcome:
  assumes "clock_steps (world_new p t) es w"
  shows "length (filter sealing es) = (if ck_finished (cw_clock w) then 1 else 0) \<and>
    length (filter publishing es) = length (cw_out w) \<and>
    cw_out w = (if filter publishing es = [] then [] else [the (ck_emitted_line (cw_clock w))]) \<and>
    (if cw_out w = [] then True else ck_failure (cw_clock w) = None \<and> ck_emitted_line (cw_clock w) \<noteq> None)"
proof -
  have ok: "world_ok w"
    using world_ok_steps [OF assms world_ok_new] .
  have "length (filter publishing es) = length (cw_out w)"
    using steps_publish [OF assms] by (simp add: world_new_def)
  moreover have "length (filter sealing es) = (if ck_finished (cw_clock w) then 1 else 0)"
    using steps_seal [OF assms] by (simp add: world_new_def clock_new_def)
  ultimately show ?thesis
    using ok by (auto simp: world_ok_def Let_def)
qed

text \<open>
  Revocation and authorised publication exclude each other: no run contains
  both a call that revoked the authority of the search and a publication under that authority, and
  a committed authority is never blocked.
\<close>

theorem clock_authority_exclusive:
  assumes "clock_steps (world_new p t) es w"
  shows "(filter authorised es = [] \<or> filter revoking es = []) \<and>
    \<not> (ck_committed (cw_clock w) \<and> ck_blocked (cw_clock w))"
  using steps_exclusive [OF assms world_ok_new] world_ok_steps [OF assms world_ok_new]
  by (auto simp: world_ok_def Let_def)

lemma step_time:
  "clock_step w e w' \<Longrightarrow> ck_plan (cw_clock w') = ck_plan (cw_clock w) \<and>
    (\<not> f_less (cw_now w) (hard_deadline (ck_plan (cw_clock w))) \<longrightarrow>
      \<not> f_less (cw_now w') (hard_deadline (ck_plan (cw_clock w))) \<and> \<not> publishing e)"
proof (induction rule: clock_step.induct)
  case (tick w t)
  then show ?case by (auto dest: f_le_not_less)
next
  case (publish w t1 t2 line ready authority c out res)
  then have late: "\<not> f_less t1 (hard_deadline (ck_plan (cw_clock w))) \<and> \<not> f_less t2 (hard_deadline (ck_plan (cw_clock w)))"
    if "\<not> f_less (cw_now w) (hard_deadline (ck_plan (cw_clock w)))"
    using that f_le_not_less by blast
  from publish show ?case
    using late by (auto simp: try_publish_def write_line_def Let_def split: if_splits)
qed (auto simp: clock_methods Let_def dest: f_le_not_less split: if_splits watch.splits)

lemma step_out: "clock_step w e w' \<Longrightarrow> prefix (cw_out w) (cw_out w')"
  by (induction rule: clock_step.induct)
    (auto simp: clock_methods Let_def split: if_splits watch.splits)

lemma steps_time:
  "clock_steps w es w' \<Longrightarrow> \<not> f_less (cw_now w) (hard_deadline (ck_plan (cw_clock w))) \<Longrightarrow> filter publishing es = []"
  by (induction rule: clock_steps.induct) (auto dest: step_time)

lemma steps_plan: "clock_steps w es w' \<Longrightarrow> ck_plan (cw_clock w') = ck_plan (cw_clock w)"
  by (induction rule: clock_steps.induct) (auto dest: step_time)

text \<open>
  Silence after the hard deadline: once time has reached the hard deadline
  of the plan, no call publishes any more, whatever the threads do.
\<close>

theorem clock_hard_silence:
  assumes before: "clock_steps (world_new p t) es w1" and after: "clock_steps w1 es' w2"
    and late: "\<not> f_less (cw_now w1) (hard_deadline p)"
  shows "filter publishing es' = [] \<and> cw_out w2 = cw_out w1"
proof -
  have "ck_plan (cw_clock w1) = p"
    using steps_plan [OF before] by (simp add: world_new_def clock_new_def)
  then have silent: "filter publishing es' = []"
    using steps_time [OF after] late by simp
  have "cw_out w2 = cw_out w1"
  proof -
    have "length (cw_out w2) = length (cw_out w1)"
      using steps_publish [OF after] silent by simp
    moreover have "prefix (cw_out w1) (cw_out w2)"
      using after by (induction rule: clock_steps.induct) (auto dest: step_out intro: prefix_order.trans)
    ultimately show ?thesis
      by (metis append_eq_conv_conj append_self_conv length_append prefix_def take_all_iff le_refl)
  qed
  with silent show ?thesis by simp
qed

text \<open>The turns that the watch thread still has; only its own steps use them up.\<close>

fun turns_left :: "watch \<Rightarrow> nat" where
  "turns_left AwaitSoft = 2"
| "turns_left AwaitHard = 1"
| "turns_left _ = 0"

abbreviation watch_of :: "clock_world \<Rightarrow> watch" where
  "watch_of w \<equiv> ck_watch (cw_clock w)"

abbreviation watch_turns :: "clock_event list \<Rightarrow> nat" where
  "watch_turns es \<equiv> length (filter (\<lambda>e. e = EvWatch) es)"

lemma step_watch:
  "clock_step w e w' \<Longrightarrow> watch_of w \<noteq> Unstarted \<Longrightarrow> watch_of w' \<noteq> Unstarted \<and>
    (if e = EvWatch then turns_left (watch_of w') < turns_left (watch_of w) else watch_of w' = watch_of w)"
  by (induction rule: clock_step.induct)
    (auto simp: clock_methods Let_def split: if_splits watch.splits)

lemma steps_watch:
  "clock_steps w es w' \<Longrightarrow> watch_of w \<noteq> Unstarted \<Longrightarrow> watch_of w' \<noteq> Unstarted \<and>
    turns_left (watch_of w') + watch_turns es \<le> turns_left (watch_of w)"
proof (induction rule: clock_steps.induct)
  case (step w e w1 es w2)
  from step_watch [OF step.hyps(1) step.prems] step.IH show ?case by (auto split: if_splits)
qed simp

lemma step_now: "clock_step w e w' \<Longrightarrow> f_le d (cw_now w) \<Longrightarrow> f_le d (cw_now w')"
  by (induction rule: clock_step.induct) (auto elim: f_le_trans)

lemma steps_now: "clock_steps w es w' \<Longrightarrow> f_le d (cw_now w) \<Longrightarrow> f_le d (cw_now w')"
  by (induction rule: clock_steps.induct) (auto dest: step_now)

lemma watch_enabled:
  assumes "watch_of w \<noteq> Unstarted" "turns_left (watch_of w) \<noteq> 0"
    and "f_le (soft_deadline (ck_plan (cw_clock w))) (cw_now w)" "f_le (hard_deadline (ck_plan (cw_clock w))) (cw_now w)"
  shows "\<exists>w'. clock_step w EvWatch w'"
proof -
  have "watch_step (cw_clock w) (cw_now w) \<noteq> None"
    using assms by (cases "watch_of w") auto
  then show ?thesis using watch by blast
qed

text \<open>Where the watch thread ended, and what it saw there.\<close>

definition watch_ended :: "clock_world \<Rightarrow> clock_event list \<Rightarrow> bool \<Rightarrow> bool" where
  "watch_ended w0 es called \<longleftrightarrow> (\<exists>es1 w1 es2. es = es1 @ EvWatch # es2 \<and> clock_steps w0 es1 w1 \<and>
     called = (\<not> finished_in w1) \<and>
     (called \<longrightarrow> ck_work_closed (cw_clock w1) \<and> f_le (hard_deadline (ck_plan (cw_clock w1))) (cw_now w1)))"

definition watch_ok :: "clock_world \<Rightarrow> bool" where
  "watch_ok w \<longleftrightarrow> (watch_of w = AwaitHard \<longrightarrow> ck_work_closed (cw_clock w))"

lemma watch_ok_step: "clock_step w e w' \<Longrightarrow> watch_ok w \<Longrightarrow> watch_ok w'"
  by (induction rule: clock_step.induct)
    (auto simp: watch_ok_def clock_methods Let_def split: if_splits watch.splits)

lemma watch_over_now:
  assumes "clock_step w e w'" "watch_of w' = WatchOver called" "turns_left (watch_of w) \<noteq> 0 \<or> watch_of w = Unstarted"
    and "watch_ok w"
  shows "e = EvWatch \<and> called = (\<not> finished_in w) \<and>
    (called \<longrightarrow> ck_work_closed (cw_clock w) \<and> f_le (hard_deadline (ck_plan (cw_clock w))) (cw_now w))"
  using assms by (induction rule: clock_step.induct)
    (auto simp: watch_ok_def clock_methods Let_def split: if_splits watch.splits)

lemma watch_kept: "clock_steps w es w' \<Longrightarrow> watch_of w = WatchOver b \<Longrightarrow> watch_of w' = WatchOver b"
proof (induction rule: clock_steps.induct)
  case (step w e w1 es w2)
  with step_watch [OF step.hyps(1)] show ?case by (auto split: if_splits)
qed simp

lemma watch_origin:
  "clock_steps w0 es w \<Longrightarrow> watch_of w = WatchOver called \<Longrightarrow> turns_left (watch_of w0) \<noteq> 0 \<or> watch_of w0 = Unstarted \<Longrightarrow>
    watch_ok w0 \<Longrightarrow> watch_ended w0 es called"
proof (induction rule: clock_steps.induct)
  case (step w e w1 es w2)
  show ?case
  proof (cases "watch_of w1")
    case (WatchOver b)
    then have "b = called" using watch_kept [OF step.hyps(2)] step.prems(1) by simp
    with watch_over_now [OF step.hyps(1) WatchOver step.prems(2,3)] show ?thesis
      unfolding watch_ended_def by (intro exI [of _ "[]"] exI [of _ w] exI [of _ es]) (auto intro: clock_steps.stop)
  next
    case Unstarted
    with step.IH [OF step.prems(1) _ watch_ok_step [OF step.hyps(1) step.prems(3)]]
    show ?thesis using step.hyps(1) by (auto simp: watch_ended_def) (metis append_Cons clock_steps.step)+
  next
    case AwaitSoft
    with step.IH [OF step.prems(1) _ watch_ok_step [OF step.hyps(1) step.prems(3)]]
    show ?thesis using step.hyps(1) by (auto simp: watch_ended_def) (metis append_Cons clock_steps.step)+
  next
    case AwaitHard
    with step.IH [OF step.prems(1) _ watch_ok_step [OF step.hyps(1) step.prems(3)]]
    show ?thesis using step.hyps(1) by (auto simp: watch_ended_def) (metis append_Cons clock_steps.step)+
  qed
qed auto

lemma clock_steps_append: "clock_steps w es w1 \<Longrightarrow> clock_steps w1 es' w2 \<Longrightarrow> clock_steps w (es @ es') w2"
  by (induction rule: clock_steps.induct) (auto intro: clock_steps.step)

text \<open>
  C23. The watch thread always comes to its end and expires a search only when it must:
  once it was started and both deadlines have passed, then whatever the other threads do it is
  never stuck, it takes at most two more turns, and two turns end it; and wherever it ended, it
  called the hard-expiry callback exactly when the search was not finished at that moment, and
  then only with the work closed and the hard deadline passed.
\<close>

theorem watch_ends:
  assumes before: "clock_steps (world_new p t) es w" and after: "clock_steps w es' w'"
    and started: "watch_of w \<noteq> Unstarted"
    and late: "f_le (soft_deadline p) (cw_now w)" "f_le (hard_deadline p) (cw_now w)"
  shows "watch_turns es' \<le> 2 \<and>
    (case watch_of w' of
       WatchOver called \<Rightarrow> watch_ended (world_new p t) (es @ es') called
     | _ \<Rightarrow> watch_turns es' < 2 \<and> (\<exists>w''. clock_step w' EvWatch w''))"
proof -
  have plan: "ck_plan (cw_clock w) = p" "ck_plan (cw_clock w') = p"
    using steps_plan [OF before] steps_plan [OF after] by (simp_all add: world_new_def clock_new_def)
  have turns: "watch_of w' \<noteq> Unstarted \<and> turns_left (watch_of w') + watch_turns es' \<le> turns_left (watch_of w)"
    by (rule steps_watch [OF after started])
  have "turns_left (watch_of w) \<le> 2" by (cases "watch_of w") auto
  moreover have "\<exists>w''. clock_step w' EvWatch w''" if "turns_left (watch_of w') \<noteq> 0"
    using watch_enabled [of w'] turns that steps_now [OF after late(1)] steps_now [OF after late(2)] plan by simp
  moreover have "watch_ended (world_new p t) (es @ es') called" if "watch_of w' = WatchOver called" for called
    by (rule watch_origin [OF clock_steps_append [OF before after] that])
      (simp_all add: world_new_def clock_new_def watch_ok_def)
  ultimately show ?thesis using turns by (cases "watch_of w'") auto
qed

text \<open>A search of half a second, a second at most, that publishes once and is then told to stop.\<close>

definition sample_clock_plan :: time_plan where
  "sample_clock_plan = \<lparr>tp_generation = 1, tp_position_id = ''pos-0'', tp_side = ''w'', tp_request_class = ''clock_v1'',
     tp_external = ''go movetime 1000'', tp_anchor = ''go movetime 500'', tp_received = Fin 0, tp_cpu_started = 0,
     tp_available = 1000, tp_increment = 0, tp_moves_to_go = None, tp_soft = 1000, tp_hard = 2000, tp_prepare = 10,
     tp_network_reserve = 0, tp_output_margin = 10, tp_envelope = sample_cpu_envelope, tp_declared = sample_cpu_envelope,
     tp_settings = sample_settings\<rparr>"

lemma sample_deadlines: "soft_deadline sample_clock_plan = Fin 1" "hard_deadline sample_clock_plan = Fin 2"
  by (simp_all add: soft_deadline_def hard_deadline_def sample_clock_plan_def)

definition sample_line :: string where
  "sample_line = ''bestmove e2e4''"

lemma sample_clock_run:
  "\<exists>w. clock_steps (world_new sample_clock_plan (Fin 0)) [EvStart, EvPublish sample_line True Published, EvBlock False] w \<and>
     cw_out w = [sample_line] \<and> cw_now w = Fin 1"
proof -
  let ?w0 = "world_new sample_clock_plan (Fin 0)"
  obtain c1 where c1: "clock_start (cw_clock ?w0) = Inr c1" "c1 = (cw_clock ?w0)\<lparr>ck_watch := AwaitSoft\<rparr>"
    by (simp add: clock_start_def world_new_def clock_new_def)
  let ?w1 = "?w0\<lparr>cw_clock := c1\<rparr>"
  obtain c2 out where c2: "try_publish c1 sample_line (write_line sample_line True) (cw_out ?w1) True (Fin 1) (Fin 1) =
      (c2, out, Published)" "out = [sample_line]" "ck_finished c2"
    by (simp add: c1(2) try_publish_def write_line_def world_new_def clock_new_def sample_deadlines)
  let ?w2 = "?w1\<lparr>cw_clock := c2, cw_now := Fin 1, cw_out := out\<rparr>"
  have "clock_step ?w0 EvStart ?w1"
    using c1(1) by (rule start)
  moreover have "clock_step ?w1 (EvPublish sample_line True Published) ?w2"
    using c2(1) by (intro publish [where ?t1.0 = "Fin 1" and ready = True]) (simp_all add: world_new_def)
  moreover have "clock_step ?w2 (EvBlock False) (?w2\<lparr>cw_clock := c2\<rparr>)"
    using c2(3) by (intro block) (simp add: block_authority_def)
  ultimately have "clock_steps ?w0 [EvStart, EvPublish sample_line True Published, EvBlock False] (?w2\<lparr>cw_clock := c2\<rparr>)"
    by (meson clock_steps.intros)
  then show ?thesis
    using c2(2) by fastforce
qed

theorem clock_single_outcome_witness:
  "\<exists>w. clock_steps (world_new sample_clock_plan (Fin 0)) [EvStart, EvPublish sample_line True Published, EvBlock False] w \<and>
     ck_finished (cw_clock w) \<and> ck_emitted_line (cw_clock w) = Some sample_line"
proof -
  obtain w where w: "clock_steps (world_new sample_clock_plan (Fin 0))
      [EvStart, EvPublish sample_line True Published, EvBlock False] w" "cw_out w = [sample_line]"
    using sample_clock_run by blast
  have "ck_finished (cw_clock w) \<and> ck_emitted_line (cw_clock w) = Some sample_line"
    using clock_single_outcome [OF w(1)] w(2) by (auto split: if_splits)
  with w(1) show ?thesis by blast
qed

theorem clock_authority_exclusive_witness:
  "\<exists>w. clock_steps (world_new sample_clock_plan (Fin 0)) [EvStart, EvPublish sample_line True Published, EvBlock False] w \<and>
     filter authorised [EvStart, EvPublish sample_line True Published, EvBlock False] \<noteq> [] \<and>
     filter revoking [EvStart, EvPublish sample_line True Published, EvBlock False] = []"
proof -
  obtain w where w: "clock_steps (world_new sample_clock_plan (Fin 0))
      [EvStart, EvPublish sample_line True Published, EvBlock False] w"
    using sample_clock_run by blast
  show ?thesis
    using w clock_authority_exclusive [OF w] by auto
qed

theorem clock_hard_silence_witness:
  "\<exists>w w'. clock_steps (world_new sample_clock_plan (Fin 0)) [EvStart, EvTick] w \<and> cw_now w = Fin 2 \<and>
     clock_steps w [EvPublish sample_line False Expired] w' \<and> cw_out w' = []"
proof -
  let ?w0 = "world_new sample_clock_plan (Fin 0)"
  let ?c1 = "(cw_clock ?w0)\<lparr>ck_watch := AwaitSoft\<rparr>"
  let ?w1 = "?w0\<lparr>cw_clock := ?c1\<rparr>"
  let ?w2 = "?w1\<lparr>cw_now := Fin 2\<rparr>"
  have "clock_step ?w0 EvStart ?w1"
    by (intro start) (simp add: clock_start_def world_new_def clock_new_def)
  moreover have "clock_step ?w1 EvTick ?w2"
    by (intro tick) (simp add: world_new_def)
  ultimately have before: "clock_steps ?w0 [EvStart, EvTick] ?w2"
    by (meson clock_steps.intros)
  have "clock_step ?w2 (EvPublish sample_line False Expired) (?w2\<lparr>cw_clock := ?c1, cw_now := Fin 2, cw_out := []\<rparr>)"
    by (intro publish [where ?t1.0 = "Fin 2" and ready = True])
      (simp_all add: try_publish_def world_new_def clock_new_def sample_deadlines)
  then have after: "clock_steps ?w2 [EvPublish sample_line False Expired] (?w2\<lparr>cw_clock := ?c1, cw_now := Fin 2, cw_out := []\<rparr>)"
    by (meson clock_steps.intros)
  have "\<not> f_less (cw_now ?w2) (hard_deadline sample_clock_plan)"
    by (simp add: sample_deadlines)
  from clock_hard_silence [OF before after this] before after show ?thesis
    by (intro exI [of _ ?w2] exI [of _ "?w2\<lparr>cw_clock := ?c1, cw_now := Fin 2, cw_out := []\<rparr>"]) (simp add: world_new_def)
qed

theorem watch_ends_witness:
  "\<exists>w w'. clock_steps (world_new sample_clock_plan (Fin 0)) [EvStart, EvTick] w \<and>
     clock_steps w [EvWatch, EvWatch] w' \<and> watch_of w' = WatchOver True \<and>
     watch_ended (world_new sample_clock_plan (Fin 0)) [EvStart, EvTick, EvWatch, EvWatch] True"
proof -
  let ?w0 = "world_new sample_clock_plan (Fin 0)"
  let ?c1 = "(cw_clock ?w0)\<lparr>ck_watch := AwaitSoft\<rparr>"
  let ?w1 = "?w0\<lparr>cw_clock := ?c1\<rparr>"
  let ?w2 = "?w1\<lparr>cw_now := Fin 3\<rparr>"
  let ?c3 = "?c1\<lparr>ck_work_closed := True, ck_watch := AwaitHard\<rparr>"
  let ?w3 = "?w2\<lparr>cw_clock := ?c3\<rparr>"
  let ?w4 = "?w3\<lparr>cw_clock := ?c3\<lparr>ck_watch := WatchOver True\<rparr>\<rparr>"
  have "clock_step ?w0 EvStart ?w1"
    by (intro start) (simp add: clock_start_def world_new_def clock_new_def)
  moreover have "clock_step ?w1 EvTick ?w2"
    by (intro tick) (simp add: world_new_def)
  ultimately have before: "clock_steps ?w0 [EvStart, EvTick] ?w2"
    by (meson clock_steps.intros)
  have "clock_step ?w2 EvWatch ?w3"
    by (intro watch) (simp add: world_new_def clock_new_def sample_deadlines)
  moreover have "clock_step ?w3 EvWatch ?w4"
    by (intro watch) (simp add: world_new_def clock_new_def sample_deadlines)
  ultimately have after: "clock_steps ?w2 [EvWatch, EvWatch] ?w4"
    by (meson clock_steps.intros)
  have "watch_of ?w2 \<noteq> Unstarted" "f_le (soft_deadline sample_clock_plan) (cw_now ?w2)"
    "f_le (hard_deadline sample_clock_plan) (cw_now ?w2)"
    by (simp_all add: sample_deadlines)
  from watch_ends [OF before after this] before after show ?thesis
    by (intro exI [of _ ?w2] exI [of _ ?w4]) simp
qed

end
