(* ===== verification/Telemetry.thy ===== *)
theory Telemetry
  imports PyAmount
begin

text \<open>
  \<^verbatim>\<open>common/telemetry.py\<close>: the stream that numbers and stamps the events of one search.
  An event is the dictionary that the code returns.
\<close>

section \<open>The stream\<close>

datatype telemetry_error =
    VariantUnknown
  | ObservedNumeric
  | ObservedFinite
  | ObservedNegative
  | ObservedDecreased
  | AlreadyStarted
  | NotStarted
  | AfterComplete
  | StartedByEmit
  | MetadataCollision

type_synonym event = "(string \<times> pyval) list"

definition common_event_keys :: "string list" where
  "common_event_keys = [''schema_version'', ''event_type'', ''search_id'', ''sequence'', ''observed_ms'', ''engine'',
     ''engine_instance'', ''position_id'']"

record search_identity =
  si_engine :: string
  si_engine_instance :: string
  si_search_id :: string
  si_position_id :: string
  si_variant :: string

definition move_encoding :: "search_identity \<Rightarrow> telemetry_error + string" where
  "move_encoding i = (if si_variant i = ''standard'' then Inr ''uci''
     else if si_variant i = ''chess960'' then Inr ''uci_chess960'' else Inl VariantUnknown)"

record telemetry_stream =
  tm_identity :: search_identity
  tm_started :: bool
  tm_completed :: bool
  tm_sequence :: int
  tm_last_observed :: pyfloat

definition new_stream :: "search_identity \<Rightarrow> telemetry_stream" where
  "new_stream i = \<lparr>tm_identity = i, tm_started = False, tm_completed = False, tm_sequence = - 1,
     tm_last_observed = Fin (- 1)\<rparr>"

definition validate_observed :: "telemetry_stream \<Rightarrow> pyval \<Rightarrow> telemetry_error + pyfloat" where
  "validate_observed s v = (case as_float v of
      None \<Rightarrow> Inl ObservedNumeric
    | Some None \<Rightarrow> Inl ObservedFinite
    | Some (Some x) \<Rightarrow>
        if \<not> f_finite x then Inl ObservedFinite
        else if f_less x (Fin 0) then Inl ObservedNegative
        else if tm_started s \<and> f_less x (tm_last_observed s) then Inl ObservedDecreased
        else Inr x)"

definition common_event :: "telemetry_stream \<Rightarrow> string \<Rightarrow> pyval \<Rightarrow> telemetry_error + (telemetry_stream \<times> event)" where
  "common_event s event_type observed = rbind (validate_observed s observed) (\<lambda>x. let
       s' = s\<lparr>tm_sequence := tm_sequence s + 1, tm_last_observed := x\<rparr>; i = tm_identity s
     in Inr (s', [(''schema_version'', PInt 1), (''event_type'', PStr event_type), (''search_id'', PStr (si_search_id i)),
       (''sequence'', PInt (tm_sequence s')), (''observed_ms'', observed), (''engine'', PStr (si_engine i)),
       (''engine_instance'', PStr (si_engine_instance i)), (''position_id'', PStr (si_position_id i))]))"

text \<open>\<open>d.update(e)\<close>.\<close>

definition dict_update :: "('k \<times> 'v) list \<Rightarrow> ('k \<times> 'v) list \<Rightarrow> ('k \<times> 'v) list" where
  "dict_update d e = fold (\<lambda>(k, v). dict_set k v) e d"

definition stream_start :: "telemetry_stream \<Rightarrow> pyval \<Rightarrow> pyval \<Rightarrow> pyval \<Rightarrow> pyval option \<Rightarrow>
    telemetry_stream \<times> (telemetry_error + event)" where
  "stream_start s pos request observed controller =
     (if tm_started s then (s, Inl AlreadyStarted)
      else raising s (move_encoding (tm_identity s)) (\<lambda>enc.
        raising s (common_event s ''search.started'' observed) (\<lambda>(s', event). let
          event1 = dict_update event [(''variant'', PStr (si_variant (tm_identity s))), (''move_encoding'', PStr enc),
            (''position'', pos), (''request'', request)];
          event2 = (case controller of None \<Rightarrow> event1 | Some c \<Rightarrow> dict_set ''controller'' c event1)
        in (s'\<lparr>tm_started := True\<rparr>, Inr event2))))"

definition stream_emit :: "telemetry_stream \<Rightarrow> string \<Rightarrow> pyval \<Rightarrow> event \<Rightarrow> telemetry_stream \<times> (telemetry_error + event)" where
  "stream_emit s event_type observed payload =
     (if \<not> tm_started s then (s, Inl NotStarted)
      else if tm_completed s then (s, Inl AfterComplete)
      else if event_type = ''search.started'' then (s, Inl StartedByEmit)
      else if set common_event_keys \<inter> set (dict_keys payload) \<noteq> {} then (s, Inl MetadataCollision)
      else raising s (common_event s event_type observed) (\<lambda>(s', event).
        (if event_type = ''search.complete'' then s'\<lparr>tm_completed := True\<rparr> else s', Inr (dict_update event payload))))"

section \<open>Runs\<close>

datatype telemetry_op =
    TStart pyval pyval pyval "pyval option"
  | TEmit string pyval event

text \<open>The stream together with the events it has returned so far.\<close>

fun stream_op :: "telemetry_stream \<Rightarrow> telemetry_op \<Rightarrow> telemetry_stream \<times> (telemetry_error + event)" where
  "stream_op s (TStart pos request observed controller) = stream_start s pos request observed controller"
| "stream_op s (TEmit event_type observed payload) = stream_emit s event_type observed payload"

definition telemetry_step :: "telemetry_stream \<times> event list \<Rightarrow> telemetry_op \<Rightarrow>
    (telemetry_stream \<times> event list) \<times> (telemetry_error + event)" where
  "telemetry_step w x = (case stream_op (fst w) x of
      (s, Inl e) \<Rightarrow> ((s, snd w), Inl e)
    | (s, Inr event) \<Rightarrow> ((s, snd w @ [event]), Inr event))"

text \<open>The observation time of an event, as the stream compares it.\<close>

definition observed_at :: "event \<Rightarrow> pyfloat" where
  "observed_at e = (case dict_get e ''observed_ms'' of
      Some v \<Rightarrow> (case as_float v of Some (Some x) \<Rightarrow> x | _ \<Rightarrow> NaN) | None \<Rightarrow> NaN)"

definition event_type_of :: "event \<Rightarrow> string" where
  "event_type_of e = (case dict_get e ''event_type'' of Some (PStr s) \<Rightarrow> s | _ \<Rightarrow> [])"

definition stamped :: "search_identity \<Rightarrow> nat \<times> event \<Rightarrow> bool" where
  "stamped i ne = (case ne of (n, e) \<Rightarrow>
     dict_get e ''schema_version'' = Some (PInt 1) \<and> dict_get e ''sequence'' = Some (PInt (int n)) \<and>
     dict_get e ''search_id'' = Some (PStr (si_search_id i)) \<and> dict_get e ''engine'' = Some (PStr (si_engine i)) \<and>
     dict_get e ''engine_instance'' = Some (PStr (si_engine_instance i)) \<and>
     dict_get e ''position_id'' = Some (PStr (si_position_id i)))"

definition valid_stream :: "search_identity \<Rightarrow> event list \<Rightarrow> bool" where
  "valid_stream i es \<longleftrightarrow> list_all (stamped i) (zip [0..<length es] es) \<and>
     list_all (\<lambda>e. event_type_of e = ''search.started'') (take 1 es) \<and>
     list_all (\<lambda>e. event_type_of e \<noteq> ''search.started'') (drop 1 es) \<and>
     list_all (\<lambda>e. event_type_of e \<noteq> ''search.complete'') (butlast es) \<and>
     sorted_wrt f_le (map observed_at es)"

definition stream_ok :: "search_identity \<Rightarrow> telemetry_stream \<times> event list \<Rightarrow> bool" where
  "stream_ok i w \<longleftrightarrow> (case w of (s, es) \<Rightarrow>
     tm_identity s = i \<and> tm_sequence s = int (length es) - 1 \<and> (tm_started s \<longleftrightarrow> es \<noteq> []) \<and>
     (if es = [] then True else tm_last_observed s = observed_at (last es) \<and> f_finite (observed_at (last es))) \<and>
     (tm_completed s \<longleftrightarrow> es \<noteq> [] \<and> event_type_of (last es) = ''search.complete'') \<and>
     valid_stream i es)"

lemma dict_update_other: "k \<notin> set (dict_keys e) \<Longrightarrow> dict_get (dict_update d e) k = dict_get d k"
  unfolding dict_update_def by (induction e arbitrary: d) auto

lemma f_le_refl_finite: "f_finite x \<Longrightarrow> f_le x x"
  by (cases x) auto

lemma f_not_less_le: "f_finite x \<Longrightarrow> \<not> f_less x y \<Longrightarrow> f_finite y \<Longrightarrow> f_le y x"
  by (cases x; cases y) auto

text \<open>What a returned event carries, and what it does to the stream.\<close>

lemma common_event_Inr:
  assumes "common_event s t v = Inr (s', e)"
  shows "s' = s\<lparr>tm_sequence := tm_sequence s + 1, tm_last_observed := observed_at e\<rparr> \<and> f_finite (observed_at e) \<and>
    (tm_started s \<longrightarrow> \<not> f_less (observed_at e) (tm_last_observed s)) \<and> event_type_of e = t \<and>
    dict_keys e = common_event_keys \<and>
    (0 \<le> tm_sequence s + 1 \<longrightarrow> stamped (tm_identity s) (nat (tm_sequence s + 1), e))"
  using assms
  by (auto simp: common_event_def rbind_eq_Inr Let_def validate_observed_def observed_at_def event_type_of_def
      common_event_keys_def stamped_def split: option.splits if_splits)

lemma keep_common:
  assumes "\<And>k. k \<in> set common_event_keys \<Longrightarrow> dict_get e' k = dict_get e k"
  shows "observed_at e' = observed_at e" "event_type_of e' = event_type_of e" "stamped i (n, e') = stamped i (n, e)"
  using assms by (simp_all add: observed_at_def event_type_of_def stamped_def common_event_keys_def)

lemma update_keeps_common:
  assumes "set common_event_keys \<inter> set (dict_keys payload) = {}"
  shows "observed_at (dict_update e payload) = observed_at e"
    "event_type_of (dict_update e payload) = event_type_of e"
    "stamped i (n, dict_update e payload) = stamped i (n, e)"
proof -
  have "dict_get (dict_update e payload) k = dict_get e k" if "k \<in> set common_event_keys" for k
    using assms that by (intro dict_update_other) blast
  from keep_common [of "dict_update e payload" e, OF this]
  show "observed_at (dict_update e payload) = observed_at e"
    "event_type_of (dict_update e payload) = event_type_of e"
    "stamped i (n, dict_update e payload) = stamped i (n, e)" by blast+
qed

text \<open>What an operation that returns an event has found and leaves behind.\<close>

definition accepted :: "telemetry_stream \<Rightarrow> telemetry_stream \<Rightarrow> event \<Rightarrow> bool" where
  "accepted s s' e \<longleftrightarrow> tm_identity s' = tm_identity s \<and> tm_sequence s' = tm_sequence s + 1 \<and>
     tm_last_observed s' = observed_at e \<and> tm_started s' \<and>
     (tm_completed s' \<longleftrightarrow> tm_completed s \<or> event_type_of e = ''search.complete'') \<and>
     f_finite (observed_at e) \<and> (tm_started s \<longrightarrow> \<not> f_less (observed_at e) (tm_last_observed s) \<and> \<not> tm_completed s) \<and>
     (event_type_of e = ''search.started'' \<longleftrightarrow> \<not> tm_started s) \<and>
     (0 \<le> tm_sequence s + 1 \<longrightarrow> stamped (tm_identity s) (nat (tm_sequence s + 1), e))"

definition start_fields :: "telemetry_stream \<Rightarrow> string \<Rightarrow> pyval \<Rightarrow> pyval \<Rightarrow> pyval option \<Rightarrow> event" where
  "start_fields s enc pos request controller = [(''variant'', PStr (si_variant (tm_identity s))),
     (''move_encoding'', PStr enc), (''position'', pos), (''request'', request)] @
     (case controller of None \<Rightarrow> [] | Some c \<Rightarrow> [(''controller'', c)])"

lemma start_accepted:
  assumes "stream_start s pos request observed controller = (s', Inr e)"
  shows "accepted s s' e"
proof -
  obtain enc s1 event where parts: "\<not> tm_started s" "common_event s ''search.started'' observed = Inr (s1, event)"
      "s' = s1\<lparr>tm_started := True\<rparr>"
    and e: "e = dict_update event (start_fields s enc pos request controller)"
    using assms by (auto simp: stream_start_def raising_def dict_update_def start_fields_def Let_def
        split: if_splits sum.splits option.splits)
  have fields: "set common_event_keys \<inter> set (dict_keys (start_fields s enc pos request controller)) = {}"
    by (cases controller) (simp_all add: start_fields_def common_event_keys_def)
  note keep = update_keeps_common [OF fields, where e = event, folded e]
  show ?thesis
    using common_event_Inr [OF parts(2)] parts(1,3) by (simp add: accepted_def keep)
qed

lemma emit_accepted:
  assumes "stream_emit s event_type observed payload = (s', Inr e)"
  shows "accepted s s' e"
proof -
  obtain s1 event where parts: "tm_started s" "\<not> tm_completed s" "event_type \<noteq> ''search.started''"
      "set common_event_keys \<inter> set (dict_keys payload) = {}" "common_event s event_type observed = Inr (s1, event)"
      "s' = (if event_type = ''search.complete'' then s1\<lparr>tm_completed := True\<rparr> else s1)" "e = dict_update event payload"
    using assms by (auto simp: stream_emit_def raising_def split: if_splits sum.splits)
  note keep = update_keeps_common [OF parts(4), where e = event]
  show ?thesis
    using common_event_Inr [OF parts(5)] parts(1-3,6) by (auto simp: accepted_def parts(7) keep)
qed

lemma stream_op_accepted: "stream_op s x = (s', Inr e) \<Longrightarrow> accepted s s' e"
  by (cases x) (auto intro: start_accepted emit_accepted)

lemma stream_op_raise: "stream_op s x = (s', Inl err) \<Longrightarrow> s' = s"
  by (cases x) (auto simp: stream_start_def stream_emit_def raising_def Let_def split: if_splits sum.splits)

lemma sorted_wrt_snoc: "sorted_wrt R (xs @ [x]) \<longleftrightarrow> sorted_wrt R xs \<and> (\<forall>y \<in> set xs. R y x)"
  by (simp add: sorted_wrt_append)

lemma take_snoc: "take 1 (es @ [e]) = (if es = [] then [e] else take 1 es)"
  by (cases es) simp_all

lemma drop_snoc: "drop 1 (es @ [e]) = (if es = [] then [] else drop 1 es @ [e])"
  by (cases es) simp_all

lemma zip_snoc: "zip [0..<length (es @ [e])] (es @ [e]) = zip [0..<length es] es @ [(length es, e)]"
  by simp

lemma list_all_last: "list_all P es \<longleftrightarrow> (if es = [] then True else list_all P (butlast es) \<and> P (last es))"
  by (cases es rule: rev_cases) simp_all

lemma valid_stream_finite:
  "sorted_wrt f_le (map observed_at es) \<Longrightarrow> es \<noteq> [] \<Longrightarrow> f_le (observed_at (last es)) x \<Longrightarrow> e \<in> set es \<Longrightarrow>
    f_le (observed_at e) x"
proof (induction es rule: rev_induct)
  case (snoc a es)
  then show ?case
    by (auto simp: sorted_wrt_snoc intro: f_le_trans)
qed simp

lemma stream_ok_step:
  assumes ok: "stream_ok i w"
  shows "stream_ok i (fst (telemetry_step w x))"
proof -
  obtain s es where w: "w = (s, es)" by (cases w)
  obtain s' res where op: "stream_op s x = (s', res)" by (cases "stream_op s x")
  show ?thesis
  proof (cases res)
    case (Inl err)
    with op have "s' = s" by (auto intro: stream_op_raise)
    with Inl ok op w show ?thesis by (simp add: telemetry_step_def)
  next
    case (Inr e)
    with op have acc: "accepted s s' e" by (auto intro: stream_op_accepted)
    have s: "tm_identity s = i" "tm_sequence s = int (length es) - 1" "tm_started s \<longleftrightarrow> es \<noteq> []"
        "es \<noteq> [] \<Longrightarrow> tm_last_observed s = observed_at (last es)"
        "tm_completed s \<longleftrightarrow> es \<noteq> [] \<and> event_type_of (last es) = ''search.complete''" "valid_stream i es"
      using ok w by (auto simp: stream_ok_def split: if_splits)
    have "stamped i (nat (tm_sequence s + 1), e)"
      using acc s(1,2) by (simp add: accepted_def)
    then have stamp: "stamped i (length es, e)"
      by (simp add: s(2))
    have started: "event_type_of e = ''search.started'' \<longleftrightarrow> es = []"
      using acc s(3) by (auto simp: accepted_def)
    have running: "es \<noteq> [] \<Longrightarrow> event_type_of (last es) \<noteq> ''search.complete''"
      using acc s(3,5) by (auto simp: accepted_def)
    have later: "f_le (observed_at d) (observed_at e)" if "d \<in> set es" for d
    proof (rule valid_stream_finite [OF _ _ _ that])
      show "sorted_wrt f_le (map observed_at es)"
        using s(6) by (simp add: valid_stream_def)
      show ne: "es \<noteq> []"
        using that by auto
      have "\<not> f_less (observed_at e) (observed_at (last es))" "f_finite (observed_at e)"
        using acc s(3) s(4) [OF ne] ne by (simp_all add: accepted_def)
      moreover have "f_finite (observed_at (last es)) "
        using ok w ne by (simp add: stream_ok_def)
      ultimately show "f_le (observed_at (last es)) (observed_at e)"
        using f_not_less_le by blast
    qed
    have "valid_stream i (es @ [e])"
      using s(6) stamp started running later list_all_last [of "\<lambda>e. event_type_of e \<noteq> ''search.complete''" es]
      unfolding valid_stream_def take_snoc drop_snoc zip_snoc butlast_snoc map_append list.map sorted_wrt_snoc
      by (simp del: take_Suc drop_Suc split: if_splits)
    then have "stream_ok i (s', es @ [e])"
      using acc s by (auto simp: stream_ok_def accepted_def)
    then show ?thesis
      using op w Inr by (simp add: telemetry_step_def)
  qed
qed

interpretation telemetry: growing telemetry_step "stream_ok i" snd for i
proof unfold_locales
  fix w x
  assume "stream_ok i w"
  then show "stream_ok i (fst (telemetry_step w x))" by (rule stream_ok_step)
  show "prefix (snd w) (snd (fst (telemetry_step w x)))"
    by (auto simp: telemetry_step_def split: prod.splits sum.splits)
qed

lemma new_stream_ok: "stream_ok i (new_stream i, [])"
  by (simp add: stream_ok_def new_stream_def valid_stream_def)

text \<open>
  Whatever calls are made, the events of a stream form a valid telemetry
  stream: they are numbered from 0 without gaps and all carry the identity of the search; the first and only the first is
  \<open>search.started\<close>, nothing follows \<open>search.complete\<close>, observation times never decrease, and
  events already returned stay.
\<close>

theorem telemetry_stream_valid:
  "let es = snd (run telemetry_step (new_stream i, []) xs); es' = snd (run telemetry_step (new_stream i, []) (xs @ ys)) in
     valid_stream i es \<and> prefix es es'"
proof -
  have ok: "stream_ok i (run telemetry_step (new_stream i, []) xs)"
    by (rule telemetry.run_inv) (rule new_stream_ok)
  then show ?thesis
    using telemetry.run_log [OF ok, of ys]
    by (auto simp: stream_ok_def run_append split: prod.splits)
qed

end
