(* ===== verification/RefinePolicy.thy ===== *)
theory RefinePolicy
  imports SearchRequest "HOL-Library.Product_Lexorder" "HOL-Library.Multiset"
begin

text \<open>
  \<^verbatim>\<open>controller/refinement_policy.py\<close>: the nomination of deeper zooms from the stages
  that ended cleanly.  Only rows of a clean terminal are nominated, each extended prefix once, in an
  order that does not depend on the order in which the evidence arrived.
\<close>

section \<open>Evidence and nominations\<close>

datatype policy_error =
    PolicyUnknown
  | ExpansionEmpty
  | OwnerEmpty
  | SearchEmpty
  | ParentMove
  | ChildrenEmpty
  | ChildrenDuplicate
  | ChildMoveText
  | BestmoveText

definition nomination_policy :: string where
  "nomination_policy = ''stage_terminal_bestmove_v1''"

record stage_evidence =
  se_expansion :: string
  se_parent :: "string list"
  se_owner :: string
  se_search :: string
  se_children :: "string list"
  se_bestmove :: "string option"
  se_disposition :: string
  se_lossy :: bool
  se_truncated :: bool

definition check_evidence :: "stage_evidence \<Rightarrow> policy_error + stage_evidence" where
  "check_evidence r =
     rbind (ensure (se_expansion r \<noteq> []) ExpansionEmpty) (\<lambda>_.
     rbind (ensure (se_owner r \<noteq> []) OwnerEmpty) (\<lambda>_.
     rbind (ensure (se_search r \<noteq> []) SearchEmpty) (\<lambda>_.
     rbind (ensure (list_all uci_move (se_parent r)) ParentMove) (\<lambda>_.
     rbind (ensure (se_children r \<noteq> []) ChildrenEmpty) (\<lambda>_.
     rbind (ensure (distinct (se_children r)) ChildrenDuplicate) (\<lambda>_.
     rbind (ensure (list_all uci_move (se_children r)) ChildMoveText) (\<lambda>_.
     rbind (ensure (case se_bestmove r of None \<Rightarrow> True | Some m \<Rightarrow> uci_move m) BestmoveText) (\<lambda>_.
     Inr r))))))))"

record nomination =
  nm_expansion :: string
  nm_prefix :: "string list"
  nm_owner :: string
  nm_source :: string
  nm_reason :: string

definition nomination_reason :: string where
  "nomination_reason = ''clean restricted REFINE stage ended on this owned child; nomination is regional evidence only''"

definition nomination_dict :: "nomination \<Rightarrow> (string \<times> pyval) list" where
  "nomination_dict n = [(''expansion_id'', PStr (nm_expansion n)), (''prefix'', PList (map PStr (nm_prefix n))),
     (''owner'', PStr (nm_owner n)), (''source_search_id'', PStr (nm_source n)), (''reason'', PStr (nm_reason n))]"

section \<open>The policy\<close>

text \<open>The rank of an owner: the last index it has in the order, or the number of owners.\<close>

definition owner_ranks :: "string list \<Rightarrow> (string \<times> nat) list" where
  "owner_ranks order = fold (\<lambda>(i, owner). dict_set owner i) (zip [0..<length order] order) []"

definition owner_rank :: "string list \<Rightarrow> string \<Rightarrow> nat" where
  "owner_rank order owner = (case dict_get (owner_ranks order) owner of
      None \<Rightarrow> length (owner_ranks order) | Some i \<Rightarrow> i)"

definition row_key :: "string list \<Rightarrow> stage_evidence \<Rightarrow> string list \<times> nat \<times> string \<times> string" where
  "row_key order r = (se_parent r, owner_rank order (se_owner r), se_owner r, se_search r)"

text \<open>The prefix that a row nominates, if it ended cleanly on one of its children.\<close>

definition nominated_prefix :: "stage_evidence \<Rightarrow> string list option" where
  "nominated_prefix r =
     (if se_disposition r \<noteq> ''completed'' then None
      else if se_lossy r \<or> se_truncated r then None
      else (case se_bestmove r of
          None \<Rightarrow> None
        | Some m \<Rightarrow> if m \<in> set (se_children r) then Some (se_parent r @ [m]) else None))"

definition nomination_of :: "stage_evidence \<Rightarrow> string list \<Rightarrow> nomination" where
  "nomination_of r p = \<lparr>nm_expansion = se_expansion r, nm_prefix = p, nm_owner = se_owner r, nm_source = se_search r,
     nm_reason = nomination_reason\<rparr>"

fun nominate :: "string list list \<Rightarrow> stage_evidence list \<Rightarrow> nomination list" where
  "nominate seen [] = []"
| "nominate seen (r # rows) = (case nominated_prefix r of
      None \<Rightarrow> nominate seen rows
    | Some p \<Rightarrow> if p \<in> set seen then nominate seen rows
        else nomination_of r p # nominate (p # seen) rows)"

definition evaluate_nominations :: "stage_evidence list \<Rightarrow> string list \<Rightarrow> string \<Rightarrow> policy_error + nomination list" where
  "evaluate_nominations evidence order policy =
     (if policy \<noteq> nomination_policy then Inl PolicyUnknown
      else Inr (nominate [] (sort_key (row_key order) evidence)))"

section \<open>Properties\<close>

definition clean_prefixes :: "stage_evidence list \<Rightarrow> string list list" where
  "clean_prefixes rows = List.map_filter nominated_prefix rows"

lemma set_clean_prefixes: "set (clean_prefixes rows) = {p. \<exists>r \<in> set rows. nominated_prefix r = Some p}"
  by (induction rows) (auto simp: clean_prefixes_def map_filter_simps split: option.splits)

lemma nominated_prefix_Some:
  "nominated_prefix r = Some p \<longleftrightarrow> se_disposition r = ''completed'' \<and> \<not> se_lossy r \<and> \<not> se_truncated r \<and>
    (\<exists>m \<in> set (se_children r). se_bestmove r = Some m \<and> p = se_parent r @ [m])"
  by (auto simp: nominated_prefix_def split: option.splits)

lemma nomination_of_fields [simp]:
  "nm_owner (nomination_of r p) = se_owner r" "nm_source (nomination_of r p) = se_search r"
  "nm_expansion (nomination_of r p) = se_expansion r" "nm_prefix (nomination_of r p) = p"
  by (simp_all add: nomination_of_def)

lemma nominate_prefixes: "set (map nm_prefix (nominate seen rows)) = set (clean_prefixes rows) - set seen"
  by (induction seen rows rule: nominate.induct)
    (auto simp: clean_prefixes_def map_filter_simps nomination_of_def split: option.splits)

lemma nominate_distinct: "distinct (map nm_prefix (nominate seen rows))"
  by (induction seen rows rule: nominate.induct)
    (auto simp: nomination_of_def nominate_prefixes [unfolded set_map] split: option.splits)

lemma nominate_source: "n \<in> set (nominate seen rows) \<Longrightarrow>
    \<exists>r \<in> set rows. nominated_prefix r = Some (nm_prefix n) \<and> n = nomination_of r (nm_prefix n)"
  by (induction seen rows rule: nominate.induct) (auto simp: nomination_of_def split: option.splits if_splits)

text \<open>
  C24. The nominations are exactly the clean terminals: every prefix that some row of
  the evidence cleanly ended on is nominated once and no other prefix is; and the source of each nomination is a
  row that completed without loss or truncation on one of its own children.
\<close>

theorem nominations_exact:
  assumes "evaluate_nominations evidence order policy = Inr ns"
  shows "distinct (map nm_prefix ns) \<and>
    set (map nm_prefix ns) = {p. \<exists>r \<in> set evidence. nominated_prefix r = Some p} \<and>
    list_all (\<lambda>n. \<exists>r \<in> set evidence. se_disposition r = ''completed'' \<and> \<not> se_lossy r \<and> \<not> se_truncated r \<and>
      (\<exists>m \<in> set (se_children r). se_bestmove r = Some m \<and> nm_prefix n = se_parent r @ [m]) \<and>
      nm_owner n = se_owner r \<and> nm_source n = se_search r \<and> nm_expansion n = se_expansion r) ns"
proof -
  have ns: "ns = nominate [] (sort_key (row_key order) evidence)"
    using assms by (simp add: evaluate_nominations_def split: if_splits)
  have "list_all (\<lambda>n. \<exists>r \<in> set evidence. se_disposition r = ''completed'' \<and> \<not> se_lossy r \<and> \<not> se_truncated r \<and>
      (\<exists>m \<in> set (se_children r). se_bestmove r = Some m \<and> nm_prefix n = se_parent r @ [m]) \<and>
      nm_owner n = se_owner r \<and> nm_source n = se_search r \<and> nm_expansion n = se_expansion r) ns"
    unfolding list_all_iff
  proof
    fix n
    assume "n \<in> set ns"
    then obtain r where r: "r \<in> set evidence" "nominated_prefix r = Some (nm_prefix n)" "n = nomination_of r (nm_prefix n)"
      using nominate_source [of n "[]" "sort_key (row_key order) evidence"] unfolding ns set_sort by blast
    from r(3) have "nm_owner n = se_owner r" "nm_source n = se_search r" "nm_expansion n = se_expansion r"
      by (metis nomination_of_fields)+
    with r(1,2) show "\<exists>r \<in> set evidence. se_disposition r = ''completed'' \<and> \<not> se_lossy r \<and> \<not> se_truncated r \<and>
      (\<exists>m \<in> set (se_children r). se_bestmove r = Some m \<and> nm_prefix n = se_parent r @ [m]) \<and>
      nm_owner n = se_owner r \<and> nm_source n = se_search r \<and> nm_expansion n = se_expansion r"
      unfolding nominated_prefix_Some by blast
  qed
  moreover have "set (map nm_prefix ns) = {p. \<exists>r \<in> set evidence. nominated_prefix r = Some p}"
    unfolding ns nominate_prefixes set_clean_prefixes by simp
  ultimately show ?thesis
    using nominate_distinct by (simp add: ns)
qed

text \<open>
  The nominations do not depend on the order of arrival: two permutations
  of the same evidence, in which no two rows have the same parent, owner and search, give the same list.
\<close>

theorem nominations_order_independent:
  assumes "mset evidence = mset evidence'" and "inj_on (row_key order) (set evidence)"
  shows "evaluate_nominations evidence order policy = evaluate_nominations evidence' order policy"
proof -
  have "sort_key (row_key order) evidence = sort_key (row_key order) evidence'"
    using assms by (intro sort_key_inj_key_eq) simp_all
  then show ?thesis
    by (simp add: evaluate_nominations_def)
qed

definition sample_row :: "string \<Rightarrow> string \<Rightarrow> stage_evidence" where
  "sample_row owner search = \<lparr>se_expansion = ''x1'', se_parent = [''e2e4''], se_owner = owner, se_search = search,
     se_children = [''e7e5'', ''c7c5''], se_bestmove = Some ''e7e5'', se_disposition = ''completed'',
     se_lossy = False, se_truncated = False\<rparr>"

theorem nominations_exact_witness:
  "\<exists>ns. evaluate_nominations [sample_row ''b'' ''s2'', sample_row ''a'' ''s1''] [''a'', ''b''] nomination_policy = Inr ns \<and>
     set (map nm_prefix ns) = {[''e2e4'', ''e7e5'']}"
proof -
  obtain ns where ns: "evaluate_nominations [sample_row ''b'' ''s2'', sample_row ''a'' ''s1''] [''a'', ''b'']
      nomination_policy = Inr ns"
    by (simp add: evaluate_nominations_def)
  have "set (map nm_prefix ns) = {[''e2e4'', ''e7e5'']}"
    using nominations_exact [OF ns] by (simp add: nominated_prefix_def sample_row_def)
  with ns show ?thesis by blast
qed

theorem nominations_order_independent_witness:
  "evaluate_nominations [sample_row ''b'' ''s2'', sample_row ''a'' ''s1''] [''a'', ''b''] nomination_policy =
   evaluate_nominations [sample_row ''a'' ''s1'', sample_row ''b'' ''s2''] [''a'', ''b''] nomination_policy"
  by (rule nominations_order_independent) (simp_all add: row_key_def sample_row_def inj_on_def)

end
