(* ===== verification/PyJson.thy ===== *)
theory PyJson
  imports PyVal Sha256 "HOL-Library.List_Lexorder" "HOL-Library.Char_ord"
begin

text \<open>
  Canonical JSON text and the digests taken of it:
  \<open>json.dumps(value, sort_keys=True, separators=(",", ":"), ensure_ascii=False)\<close>
  and \<open>hashlib.sha256\<close>.  The text of a value without floats determines the value
  up to the order of dictionary keys, so a digest is taken of exactly the fields
  that a record writes into its dictionary.
\<close>

section \<open>Text of a float\<close>

text \<open>
  \<open>float.__repr__\<close>: the shortest decimal that reads back as the same double,
  and the nearest one of that length.
\<close>

definition ten_to :: "int \<Rightarrow> rat" where
  "ten_to e = (if 0 \<le> e then 10 ^ nat e else 1 / 10 ^ nat (- e))"

text \<open>The exponent \<open>e\<close> with \<open>10^(e-1) \<le> q < 10^e\<close>; 330 steps reach below the least double.\<close>

fun lead_zeros :: "nat \<Rightarrow> rat \<Rightarrow> nat" where
  "lead_zeros 0 q = 0"
| "lead_zeros (Suc n) q = (if 1 \<le> q then 0 else Suc (lead_zeros n (10 * q)))"

definition decimal_exponent :: "rat \<Rightarrow> int" where
  "decimal_exponent q = (if 1 \<le> q then int (length (show_nat (nat \<lfloor>q\<rfloor>)))
     else 1 - int (lead_zeros 330 q))"

definition decimal_candidates :: "rat \<Rightarrow> nat \<Rightarrow> int list" where
  "decimal_candidates q n = (let s = ten_to (decimal_exponent q - int n); c = \<lfloor>q / s\<rfloor> in
     filter (\<lambda>d. of_rat64 (of_int d * s) = Fin q) [c, c + 1])"

definition nearest_decimal :: "rat \<Rightarrow> nat \<Rightarrow> int option" where
  "nearest_decimal q n = (let s = ten_to (decimal_exponent q - int n) in
     case decimal_candidates q n of
       [] \<Rightarrow> None
     | [d] \<Rightarrow> Some d
     | c # d # _ \<Rightarrow> Some (if q - of_int c * s < of_int d * s - q \<or>
         q - of_int c * s = of_int d * s - q \<and> even c then c else d))"

definition shortest_decimal :: "rat \<Rightarrow> (nat \<times> int) option" where
  "shortest_decimal q = (case filter (\<lambda>n. nearest_decimal q n \<noteq> None) [1..<18] of
     [] \<Rightarrow> None | n # _ \<Rightarrow> map_option (Pair n) (nearest_decimal q n))"

definition strip_zeros :: "string \<Rightarrow> string" where
  "strip_zeros s = rev (dropWhile (\<lambda>c. c = CHR ''0'') (rev s))"

definition exponent_text :: "int \<Rightarrow> string" where
  "exponent_text x = (if x < 0 then ''e-'' else ''e+'') @ pad0 2 (nat \<bar>x\<bar>)"

text \<open>Digits \<open>ds\<close> with the decimal point after the first \<open>p\<close> of them.\<close>

definition place_point :: "string \<Rightarrow> int \<Rightarrow> string" where
  "place_point ds p =
     (if p \<le> -4 \<or> 16 < p
      then take 1 ds @ (if 1 < length ds then ''.'' @ drop 1 ds else []) @ exponent_text (p - 1)
      else if p \<le> 0 then ''0.'' @ replicate (nat (- p)) CHR ''0'' @ ds
      else if int (length ds) \<le> p then ds @ replicate (nat p - length ds) CHR ''0'' @ ''.0''
      else take (nat p) ds @ ''.'' @ drop (nat p) ds)"

definition repr_positive :: "rat \<Rightarrow> string" where
  "repr_positive q = (case shortest_decimal q of
     None \<Rightarrow> []
   | Some (n, d) \<Rightarrow> (let ds = show_nat (nat d) in
       place_point (strip_zeros ds) (decimal_exponent q - int n + int (length ds))))"

fun float_text :: "pyfloat \<Rightarrow> string" where
  "float_text NaN = ''NaN''"
| "float_text PosInf = ''Infinity''"
| "float_text NegInf = ''-Infinity''"
| "float_text (Fin q) = (if q = 0 then ''0.0'' else if q < 0 then ''-'' @ repr_positive (- q)
     else repr_positive q)"

section \<open>Text of a value\<close>

definition escape_char :: "char \<Rightarrow> string" where
  "escape_char c =
     (if c = CHR 0x22 then [CHR 0x5C, CHR 0x22]
      else if c = CHR 0x5C then [CHR 0x5C, CHR 0x5C]
      else if c = CHR 0x08 then CHR 0x5C # ''b''
      else if c = CHR 0x0C then CHR 0x5C # ''f''
      else if c = CHR 0x0A then CHR 0x5C # ''n''
      else if c = CHR 0x0D then CHR 0x5C # ''r''
      else if c = CHR 0x09 then CHR 0x5C # ''t''
      else if (of_char c :: nat) < 32
        then CHR 0x5C # ''u00'' @ [hex_digit (of_char c div 16), hex_digit (of_char c mod 16)]
      else [c])"

definition quoted :: "string \<Rightarrow> string" where
  "quoted s = CHR 0x22 # concat (map escape_char s) @ [CHR 0x22]"

fun json_text :: "pyval \<Rightarrow> string" where
  "json_text PNone = ''null''"
| "json_text (PBool b) = (if b then ''true'' else ''false'')"
| "json_text (PInt i) = show_int i"
| "json_text (PFloat x) = float_text x"
| "json_text (PStr s) = quoted s"
| "json_text (PList xs) = ''['' @ py_join '','' (map json_text xs) @ '']''"
| "json_text (PDict d) = ''{'' @ py_join '',''
     (map (\<lambda>(k, t). quoted k @ '':'' @ t) (sort_key fst (map (\<lambda>(k, v). (k, json_text v)) d))) @ ''}''"
| "json_text PObj = []"

text \<open>
  What \<open>json.dumps\<close> accepts with \<open>allow_nan=False\<close>: other objects raise
  \<open>TypeError\<close>, non-finite floats and integers of more digits than the
  interpreter prints raise \<open>ValueError\<close>.
\<close>

fun json_ok :: "pyval \<Rightarrow> bool" where
  "json_ok (PInt i) = (py_str_int i \<noteq> None)"
| "json_ok (PFloat x) = f_finite x"
| "json_ok (PList xs) = list_all json_ok xs"
| "json_ok (PDict d) = list_all (\<lambda>(k, v). json_ok v) d"
| "json_ok PObj = False"
| "json_ok v = True"

definition digest_of :: "pyval \<Rightarrow> string option" where
  "digest_of v = (if json_ok v then Some (sha256_hex (json_text v)) else None)"

lemma digest_of_text: "digest_of v = Some s \<Longrightarrow> sha256_text s"
  by (auto simp: digest_of_def sha256_hex_text split: if_splits)

section \<open>The text determines the value\<close>

text \<open>
  Values without floats, and a value with the keys of all its dictionaries in
  order.  Two such values have the same text only if they are the same up to that order.
\<close>

fun exact :: "pyval \<Rightarrow> bool" where
  "exact (PFloat x) = False"
| "exact PObj = False"
| "exact (PList xs) = list_all exact xs"
| "exact (PDict d) = list_all (\<lambda>(k, v). exact v) d"
| "exact v = True"

fun key_sorted :: "pyval \<Rightarrow> pyval" where
  "key_sorted (PList xs) = PList (map key_sorted xs)"
| "key_sorted (PDict d) = PDict (sort_key fst (map (\<lambda>(k, v). (k, key_sorted v)) d))"
| "key_sorted v = v"

definition delimited :: "string \<Rightarrow> bool" where
  "delimited r \<longleftrightarrow> r = [] \<or> hd r \<in> {CHR '','', CHR '']'', CHR ''}''}"

definition readable :: "('a \<Rightarrow> string) \<Rightarrow> ('a \<Rightarrow> 'b) \<Rightarrow> 'a \<Rightarrow> 'a \<Rightarrow> bool" where
  "readable f g x y \<longleftrightarrow> (\<forall>r s. delimited r \<longrightarrow> delimited s \<longrightarrow> f x @ r = f y @ s \<longrightarrow> g x = g y \<and> r = s)"

definition opens :: "string \<Rightarrow> bool" where
  "opens t \<longleftrightarrow> t \<noteq> [] \<and> \<not> delimited t"

lemma readableD:
  "readable f g x y \<Longrightarrow> f x @ r = f y @ s \<Longrightarrow> delimited r \<Longrightarrow> delimited s \<Longrightarrow> g x = g y \<and> r = s"
  by (simp add: readable_def)

lemma delimited_Cons [simp]: "delimited (c # r) \<longleftrightarrow> c \<in> {CHR '','', CHR '']'', CHR ''}''}"
  by (simp add: delimited_def)

lemma delimited_Nil [simp]: "delimited []"
  by (simp add: delimited_def)

lemma opens_append: "opens t \<Longrightarrow> t @ r \<noteq> c # s \<or> c \<notin> {CHR '','', CHR '']'', CHR ''}''}"
  by (cases t) (auto simp: opens_def)

lemma insort_key_map_snd:
  "insort_key fst (k, f v) (map (\<lambda>(k, v). (k, f v)) d) = map (\<lambda>(k, v). (k, f v)) (insort_key fst (k, v) d)"
  by (induction d) auto

lemma sort_key_map_snd:
  "sort_key fst (map (\<lambda>(k, v). (k, f v)) d) = map (\<lambda>(k, v). (k, f v)) (sort_key fst d)"
  by (induction d) (auto simp: insort_key_map_snd)

lemma json_text_dict:
  "json_text (PDict d) = ''{'' @ py_join '',''
     (map (\<lambda>(k, v). quoted k @ '':'' @ json_text v) (sort_key fst d)) @ ''}''"
  by (simp add: sort_key_map_snd comp_def) (simp add: split_def)

lemma key_sorted_dict: "key_sorted (PDict d) = PDict (map (\<lambda>(k, v). (k, key_sorted v)) (sort_key fst d))"
  by (simp add: sort_key_map_snd)

declare json_text.simps(7) [simp del] key_sorted.simps(2) [simp del]

text \<open>Items between separators, closed by a bracket.\<close>

lemma join_Cons: "py_join '','' (t # ts) = t @ (if ts = [] then [] else CHR '','' # py_join '','' ts)"
  by (cases ts) auto

lemma join_opens: "ts \<noteq> [] \<Longrightarrow> opens (hd ts) \<Longrightarrow> opens (py_join '','' ts)"
  by (cases ts) (auto simp: join_Cons opens_def delimited_def)

lemma join_readable:
  assumes "\<And>x y. x \<in> set xs \<Longrightarrow> y \<in> set ys \<Longrightarrow> readable f g x y"
    and "\<And>x. x \<in> set xs \<union> set ys \<Longrightarrow> opens (f x)"
    and "c = CHR '']'' \<or> c = CHR ''}''"
    and "py_join '','' (map f xs) @ c # r = py_join '','' (map f ys) @ c # s"
  shows "map g xs = map g ys \<and> r = s"
  using assms(1,2,4)
proof (induction xs arbitrary: ys)
  case Nil
  then show ?case
    using join_opens [of "map f ys"] opens_append [of "py_join '','' (map f ys)" "c # s" c r] assms(3)
    by (cases ys) auto
next
  case (Cons x xs)
  show ?case
  proof (cases ys)
    case Nil
    then show ?thesis
      using Cons.prems join_opens [of "map f (x # xs)"] assms(3)
        opens_append [of "py_join '','' (map f (x # xs))" "c # r" c s] by auto
  next
    case (Cons y zs)
    let ?rest = "\<lambda>us t. if us = [] then c # t else CHR '','' # py_join '','' (map f us) @ c # t"
    have eq: "f x @ ?rest xs r = f y @ ?rest zs s"
      using Cons.prems(3) \<open>ys = y # zs\<close> by (simp add: join_Cons split: if_splits)
    have del: "delimited (?rest xs r)" "delimited (?rest zs s)"
      using assms(3) by auto
    have "readable f g x y" by (rule Cons.prems(1)) (simp_all add: \<open>ys = y # zs\<close>)
    from readableD [OF this eq del] have *: "g x = g y \<and> ?rest xs r = ?rest zs s" .
    have IH: "py_join '','' (map f xs) @ c # r = py_join '','' (map f zs) @ c # s \<Longrightarrow>
        map g xs = map g zs \<and> r = s"
      by (rule Cons.IH [of zs]) (auto intro: Cons.prems(1,2) simp: \<open>ys = y # zs\<close>)
    have "c \<noteq> CHR '',''" using assms(3) by auto
    with * IH have "map g xs = map g zs \<and> r = s"
      by (cases "xs = []"; cases "zs = []") auto
    with * Cons show ?thesis by simp
  qed
qed

text \<open>Quoted text: no escape of a character is a prefix of the escape of another.\<close>

lemma hex_digit_inj: "m < 16 \<Longrightarrow> n < 16 \<Longrightarrow> hex_digit m = hex_digit n \<Longrightarrow> m = n"
  by (simp add: hex_digit_def nth_eq_iff_index_eq distinct_conv_nth [symmetric])

lemma escape_special: "hd (escape_char c) \<noteq> CHR 0x22 \<and> escape_char c \<noteq> []"
  by (simp add: escape_char_def)

lemma escape_unique:
  assumes "escape_char c @ r = escape_char d @ s"
  shows "c = d \<and> r = s"
proof -
  have *: "c = d" if "hex_digit (of_char c div 16) = hex_digit (of_char d div 16)"
    "hex_digit (of_char c mod 16) = hex_digit (of_char d mod 16)"
    "(of_char c :: nat) < 32" "(of_char d :: nat) < 32"
  proof -
    have "(of_char c :: nat) div 16 = of_char d div 16" "(of_char c :: nat) mod 16 = of_char d mod 16"
      using that by (auto intro!: hex_digit_inj)
    then have "(of_char c :: nat) = of_char d" by (metis div_mult_mod_eq)
    then show ?thesis by simp
  qed
  show ?thesis
    using assms by (auto simp: escape_char_def split: if_splits intro: *)
qed

lemma quoted_readable: "quoted x @ r = quoted y @ s \<Longrightarrow> x = y \<and> r = s"
proof (induction x arbitrary: y)
  case Nil
  then show ?case
    using escape_special [of "hd y"]
    by (cases y; cases "escape_char (hd y)") (auto simp: quoted_def)
next
  case (Cons c x)
  show ?case
  proof (cases y)
    case Nil
    then show ?thesis
      using Cons.prems escape_special [of c] by (cases "escape_char c") (auto simp: quoted_def)
  next
    case (Cons d z)
    then have "escape_char c @ concat (map escape_char x) @ CHR 0x22 # r =
        escape_char d @ concat (map escape_char z) @ CHR 0x22 # s"
      using Cons.prems by (simp add: quoted_def)
    from escape_unique [OF this] show ?thesis
      using Cons.IH [of z] Cons by (simp add: quoted_def)
  qed
qed

text \<open>Integers end where their digits end.\<close>

lemma show_int_chars: "c \<in> set (show_int i) \<Longrightarrow> is_digit c \<or> c = CHR ''-''"
  using show_nat_digits by (auto simp: show_int_def split: if_splits)

lemma show_int_nonempty [simp]: "show_int i \<noteq> []"
  by (simp add: show_int_def)

lemma show_int_inj: "show_int i = show_int j \<Longrightarrow> i = j"
proof -
  have minus: "CHR ''-'' # t \<noteq> show_nat n" for t n
    using show_nat_digits [of "CHR ''-''" n] digit_not_sign by (metis list.set_intros(1))
  show "show_int i = show_int j \<Longrightarrow> i = j"
    using minus minus [symmetric] by (auto simp: show_int_def split: if_splits dest: show_nat_inj)
qed

lemma takeWhile_delimited:
  assumes "\<And>c. c \<in> set t \<Longrightarrow> P c" "\<not> P CHR '',''" "\<not> P CHR '']''" "\<not> P CHR ''}''" "delimited r"
  shows "takeWhile P (t @ r) = t"
  using assms by (cases r) (auto simp: takeWhile_append)

lemma show_int_readable: "delimited r \<Longrightarrow> delimited s \<Longrightarrow> show_int i @ r = show_int j @ s \<Longrightarrow> i = j \<and> r = s"
proof -
  assume "delimited r" "delimited s" and eq: "show_int i @ r = show_int j @ s"
  moreover have "takeWhile (\<lambda>c. is_digit c \<or> c = CHR ''-'') (show_int n @ t) = show_int n" if "delimited t" for n t
    using that by (intro takeWhile_delimited show_int_chars) (auto simp: is_digit_def)
  ultimately have "show_int i = show_int j" by metis
  with eq show ?thesis by (auto dest: show_int_inj)
qed

text \<open>The first character tells the kind of a value.\<close>

definition head_kind :: "char \<Rightarrow> nat" where
  "head_kind c = (if c = CHR ''n'' then 0 else if c = CHR ''t'' \<or> c = CHR ''f'' then 1
     else if is_digit c \<or> c = CHR ''-'' then 2 else if c = CHR 0x22 then 4
     else if c = CHR ''['' then 5 else if c = CHR ''{'' then 6 else 7)"

fun kind :: "pyval \<Rightarrow> nat" where
  "kind PNone = 0"
| "kind (PBool b) = 1"
| "kind (PInt i) = 2"
| "kind (PFloat x) = 3"
| "kind (PStr s) = 4"
| "kind (PList xs) = 5"
| "kind (PDict d) = 6"
| "kind PObj = 7"

lemma show_int_head: "head_kind (hd (show_int i)) = 2"
  using show_int_chars [of "hd (show_int i)" i] by (auto simp: head_kind_def is_digit_def)

lemma json_head: "exact v \<Longrightarrow> json_text v \<noteq> [] \<and> head_kind (hd (json_text v)) = kind v"
  by (cases v) (auto simp: show_int_head json_text_dict, auto simp: quoted_def head_kind_def is_digit_def)

lemma json_opens: "exact v \<Longrightarrow> opens (json_text v)"
proof -
  assume "exact v"
  then have "head_kind (hd (json_text v)) \<noteq> 7" and "json_text v \<noteq> []"
    using json_head [of v] by (auto elim: exact.elims)
  then show ?thesis by (auto simp: opens_def delimited_def head_kind_def is_digit_def)
qed

lemma json_same_kind:
  "exact v \<Longrightarrow> exact w \<Longrightarrow> json_text v @ r = json_text w @ s \<Longrightarrow> kind v = kind w"
  using json_head by (metis hd_append2)

lemma list_readable:
  assumes "\<And>x w. x \<in> set xs \<Longrightarrow> exact w \<Longrightarrow> readable json_text key_sorted x w"
    and "list_all exact xs" "list_all exact ys"
  shows "readable json_text key_sorted (PList xs) (PList ys)"
  unfolding readable_def
proof (intro allI impI)
  fix r s
  assume eq: "json_text (PList xs) @ r = json_text (PList ys) @ s"
  have "opens (json_text x)" if "x \<in> set xs \<union> set ys" for x
    using that assms(2,3) json_opens by (auto simp: list_all_iff)
  with eq show "key_sorted (PList xs) = key_sorted (PList ys) \<and> r = s"
    using join_readable [of xs ys json_text key_sorted "CHR '']''" r s] assms
    by (simp add: list_all_iff)
qed

lemma dict_readable:
  assumes "\<And>k v w. (k, v) \<in> set d \<Longrightarrow> exact w \<Longrightarrow> readable json_text key_sorted v w"
    and "list_all (\<lambda>(k, v). exact v) d" "list_all (\<lambda>(k, v). exact v) e"
  shows "readable json_text key_sorted (PDict d) (PDict e)"
  unfolding readable_def
proof (intro allI impI)
  let ?f = "\<lambda>(k, v). quoted k @ '':'' @ json_text v" and ?g = "\<lambda>(k, v). (k, key_sorted v)"
  fix r s
  assume eq: "json_text (PDict d) @ r = json_text (PDict e) @ s"
  have entry: "readable ?f ?g x y" if "x \<in> set d" "y \<in> set e" for x y
    unfolding readable_def
  proof (intro allI impI)
    fix r s
    assume "?f x @ r = ?f y @ s" and del: "delimited r" "delimited s"
    moreover obtain k v l w where [simp]: "x = (k, v)" "y = (l, w)" by (cases x; cases y)
    ultimately have "quoted k @ CHR '':'' # json_text v @ r = quoted l @ CHR '':'' # json_text w @ s"
      by simp
    from quoted_readable [OF this] have "k = l" and "json_text v @ r = json_text w @ s" by auto
    moreover have "readable json_text key_sorted v w"
      using assms that by (auto simp: list_all_iff)
    ultimately show "?g x = ?g y \<and> r = s" using readableD del by fastforce
  qed
  have "opens (?f x)" for x by (cases x) (simp add: opens_def quoted_def)
  with entry join_readable [of "sort_key fst d" "sort_key fst e" ?f ?g "CHR ''}''" r s] eq
  show "key_sorted (PDict d) = key_sorted (PDict e) \<and> r = s"
    by (auto simp: json_text_dict key_sorted_dict)
qed

lemma json_readable: "exact v \<Longrightarrow> exact w \<Longrightarrow> readable json_text key_sorted v w"
proof (induction v arbitrary: w)
  case (PList xs)
  have "kind w = 5 \<Longrightarrow> \<exists>ys. w = PList ys" by (cases w) auto
  with PList show ?case
    using list_readable [of xs] json_same_kind [OF PList.prems]
    by (metis (no_types, lifting) exact.simps(3) kind.simps(6) list_all_iff readable_def)
next
  case (PDict d)
  have "kind w = 6 \<Longrightarrow> \<exists>e. w = PDict e" by (cases w) auto
  moreover have "readable json_text key_sorted (PDict d) (PDict e)" if "w = PDict e" for e
    using PDict that by (intro dict_readable) (auto simp: list_all_iff)
  ultimately show ?case
    using json_same_kind [OF PDict.prems] by (metis kind.simps(7) readable_def)
next
  case (PInt i)
  have "kind w = 2 \<Longrightarrow> \<exists>j. w = PInt j" by (cases w) auto
  then show ?case
    using json_same_kind [OF PInt.prems] show_int_readable by (fastforce simp: readable_def)
next
  case (PStr t)
  have "kind w = 4 \<Longrightarrow> \<exists>j. w = PStr j" by (cases w) auto
  moreover have "readable json_text key_sorted (PStr t) (PStr j)" for j
    using quoted_readable [of t _ j] by (simp add: readable_def)
  ultimately show ?case
    using json_same_kind [OF PStr.prems] by (metis kind.simps(5) readable_def)
next
  case (PBool b)
  have "kind w = 1 \<Longrightarrow> \<exists>j. w = PBool j" by (cases w) auto
  then show ?case
    using json_same_kind [OF PBool.prems] by (auto simp: readable_def split: if_splits)
next
  case PNone
  have "kind w = 0 \<Longrightarrow> w = PNone" by (cases w) auto
  then show ?case
    using json_same_kind [OF PNone.prems] by (auto simp: readable_def)
qed simp_all

lemma json_text_inj:
  "exact v \<Longrightarrow> exact w \<Longrightarrow> json_text v = json_text w \<Longrightarrow> key_sorted v = key_sorted w"
  using readableD [OF json_readable, of v w "[]" "[]"] by simp

text \<open>Dictionaries with the same distinct keys in the same order have the same values.\<close>

lemma map_of_sort_key: "distinct (map fst d) \<Longrightarrow> map_of (sort_key fst d) = map_of d"
proof -
  assume "distinct (map fst d)"
  moreover have "distinct (map fst (sort_key fst d))"
    using calculation by (simp add: distinct_map)
  ultimately have "map_of (sort_key fst d) k = Some v \<longleftrightarrow> map_of d k = Some v" for k v
    by (simp add: map_of_eq_Some_iff)
  then show ?thesis by (metis (no_types) ext not_Some_eq)
qed

lemma map_of_values:
  "map fst d = map fst e \<Longrightarrow> distinct (map fst d) \<Longrightarrow> map_of d = map_of e \<Longrightarrow> d = e"
proof (induction d arbitrary: e)
  case (Cons x d)
  then obtain y e' where e: "e = y # e'" by (cases e) auto
  obtain k v w where [simp]: "x = (k, v)" "y = (k, w)" using Cons.prems(1) e by (cases x; cases y) auto
  have "v = w" using fun_cong [OF Cons.prems(3), of k] e by simp
  moreover have keys: "fst ` set d = fst ` set e'"
    using Cons.prems(1) e by (metis list.set_map list.inject list.simps(9))
  have "map_of d = map_of e'"
  proof
    fix l
    show "map_of d l = map_of e' l"
      using fun_cong [OF Cons.prems(3), of l] Cons.prems(1,2) e
      by (cases "l = k") (use keys in \<open>auto simp: map_of_eq_None_iff [THEN iffD2]\<close>)
  qed
  ultimately show ?case using Cons e by auto
qed simp

lemma key_sorted_dict_eq:
  assumes "key_sorted (PDict d) = key_sorted (PDict e)"
    and "map fst d = map fst e" "distinct (map fst d)"
  shows "map (key_sorted \<circ> snd) d = map (key_sorted \<circ> snd) e"
proof -
  let ?n = "map (\<lambda>(k, v). (k, key_sorted v))"
  have keys: "map fst (?n x) = map fst x" for x :: "(string \<times> pyval) list"
    by (simp add: comp_def case_prod_beta)
  have "sort_key fst (?n d) = sort_key fst (?n e)"
    using assms(1) by (simp add: key_sorted.simps(2))
  then have "map_of (?n d) = map_of (?n e)"
    using map_of_sort_key [of "?n d"] map_of_sort_key [of "?n e"] assms(2,3) keys by metis
  then have "?n d = ?n e"
    using map_of_values [of "?n d" "?n e"] assms(2,3) keys by metis
  then have "map snd (?n d) = map snd (?n e)" by simp
  then show ?thesis by (simp add: comp_def case_prod_beta)
qed

lemma json_text_fields:
  assumes "json_text (PDict d) = json_text (PDict e)" "exact (PDict d)" "exact (PDict e)"
    and "map fst d = map fst e" "distinct (map fst d)"
  shows "map (key_sorted \<circ> snd) d = map (key_sorted \<circ> snd) e"
  using assms by (intro key_sorted_dict_eq json_text_inj)

end
