(* ===== verification/Decision.thy ===== *)
theory Decision
  imports SearchRequest PyJson
begin

text \<open>
  \<^verbatim>\<open>controller/decision.py\<close>: the only place where a move other than the anchor's can become
  the outward move.  Typed evidence is mapped to an evaluation, frozen into a proposal, and
  a separate gate authorises it over a snapshot of frozen facts; a final decision is then
  selected, and may later be revoked to the anchor move.  A dataclass is a record, its
  \<^verbatim>\<open>__post_init__\<close> a check that returns the record or raises; its fields have the annotated
  types, so the \<^verbatim>\<open>isinstance\<close> tests on them hold and what is left of them is the test of the value.
\<close>

section \<open>Moves and digests\<close>

datatype decision_error =
    BadMove | UnknownOwner | EmptyField string | RootCount | OwnerOrder | EmptyFault
  | EvidenceVersion | DigestLength | CandidateCount | CandidateOrder
  | PolicyUnsupported | FrozenTime | ProposedMove | ProposedOwner
  | ProvenanceVersion | PlanIdentity | ProvenanceDigest string | PlanDigest | SettledFlag | OpenCount
  | ProvenanceObject | ProvenanceKeys | ProvenanceMarker
  | DuplicateRoots string | NegativeCount string | RouteDigest | RoutePlan
  | GrantWithoutMove | DenialWithMove | UnknownAuthority | SnapshotBinding
  | HybridDenied | HybridNoProposal | HybridMove | HybridEmitted
  | FallbackGranted | AnchorEmitted | ControlNoProposal | ControlMove
  | Baseline | AnchorRelation | TerminalIdentity | OwnerAttribution
  | OutwardMode | RevocationReason | EncodeValue

definition owner_order :: "string list" where
  "owner_order = [''stockfish'', ''reckless'', ''lc0'']"

definition canonical_move :: "string \<Rightarrow> decision_error + string" where
  "canonical_move t = rbind (ensure (uci_move (py_lower t)) BadMove) (\<lambda>_. Inr (py_lower t))"

definition canonical_digest :: "pyval \<Rightarrow> decision_error + string" where
  "canonical_digest v = (case digest_of v of None \<Rightarrow> Inl EncodeValue | Some s \<Rightarrow> Inr s)"

definition check_opt_move :: "string option \<Rightarrow> decision_error + unit" where
  "check_opt_move v = (case v of None \<Rightarrow> Inr () | Some t \<Rightarrow> rbind (canonical_move t) (\<lambda>_. Inr ()))"

definition opt_text :: "string option \<Rightarrow> pyval" where
  "opt_text v = (case v of None \<Rightarrow> PNone | Some t \<Rightarrow> PStr t)"

definition opt_bool :: "bool option \<Rightarrow> pyval" where
  "opt_bool v = (case v of None \<Rightarrow> PNone | Some b \<Rightarrow> PBool b)"

definition opt_int :: "int option \<Rightarrow> pyval" where
  "opt_int v = (case v of None \<Rightarrow> PNone | Some i \<Rightarrow> PInt i)"

text \<open>\<open>dict(pairs)\<close>: a later pair overwrites an earlier one in its place.\<close>

definition dict_of_pairs :: "('k \<times> 'v) list \<Rightarrow> ('k \<times> 'v) list" where
  "dict_of_pairs ps = fold (\<lambda>(k, v). dict_set k v) ps []"

section \<open>Evidence\<close>

record decision_candidate =
  dc_move :: string
  dc_owner :: string

definition check_candidate :: "decision_candidate \<Rightarrow> decision_error + decision_candidate" where
  "check_candidate c =
     rbind (canonical_move (dc_move c)) (\<lambda>_.
     rbind (ensure (dc_owner c \<in> set owner_order) UnknownOwner) (\<lambda>_. Inr c))"

definition candidate_dict :: "decision_candidate \<Rightarrow> pyval" where
  "candidate_dict c = PDict [(''move'', PStr (dc_move c)), (''original_owner'', PStr (dc_owner c))]"

record terminal_evidence =
  vt_id :: string
  vt_roots :: "string list"
  vt_finals :: "(string \<times> string option) list"
  vt_stages :: "(string \<times> string) list"
  vt_run :: string
  vt_complete :: bool
  vt_faults :: "string list"

definition check_terminal :: "terminal_evidence \<Rightarrow> decision_error + terminal_evidence" where
  "check_terminal t =
     rbind (ensure (vt_id t \<noteq> []) (EmptyField ''verification_id'')) (\<lambda>_.
     rbind (rmap canonical_move (vt_roots t)) (\<lambda>roots.
     rbind (ensure (length roots = 3 \<and> distinct roots) RootCount) (\<lambda>_.
     rbind (ensure (map fst (vt_finals t) = owner_order \<and> map fst (vt_stages t) = owner_order) OwnerOrder) (\<lambda>_.
     rbind (rcheck (\<lambda>(owner, final). check_opt_move final) (vt_finals t)) (\<lambda>_.
     rbind (ensure (vt_run t \<noteq> []) (EmptyField ''run_disposition'')) (\<lambda>_.
     rbind (ensure (list_all (\<lambda>x. x \<noteq> []) (vt_faults t)) EmptyFault) (\<lambda>_. Inr t)))))))"

definition terminal_dict :: "terminal_evidence \<Rightarrow> pyval" where
  "terminal_dict t = PDict [
     (''verification_id'', PStr (vt_id t)),
     (''candidate_roots'', PList (map PStr (vt_roots t))),
     (''final_by_owner'', PDict (map (\<lambda>(k, v). (k, opt_text v)) (dict_of_pairs (vt_finals t)))),
     (''stage_disposition_by_owner'', PDict (map (\<lambda>(k, v). (k, PStr v)) (dict_of_pairs (vt_stages t)))),
     (''run_disposition'', PStr (vt_run t)),
     (''complete'', PBool (vt_complete t)),
     (''faults'', PList (map PStr (vt_faults t)))]"

record decision_evidence =
  de_version :: string
  de_run :: string
  de_generation :: int
  de_position :: string
  de_feed_policy :: string
  de_feed_digest :: string
  de_feed_complete :: bool
  de_candidates :: "decision_candidate list"
  de_terminal :: terminal_evidence
  de_faults :: "string list"

definition evidence_version :: string where
  "evidence_version = ''decision-evidence-v1''"

definition check_decision_evidence :: "decision_evidence \<Rightarrow> decision_error + decision_evidence" where
  "check_decision_evidence e =
     rbind (ensure (de_version e = evidence_version) EvidenceVersion) (\<lambda>_.
     rbind (ensure (de_run e \<noteq> []) (EmptyField ''run_id'')) (\<lambda>_.
     rbind (ensure (de_position e \<noteq> []) (EmptyField ''position_id'')) (\<lambda>_.
     rbind (ensure (de_feed_policy e \<noteq> []) (EmptyField ''crossfeed_policy'')) (\<lambda>_.
     rbind (ensure (length (de_feed_digest e) = 64) DigestLength) (\<lambda>_.
     (let moves = map dc_move (de_candidates e) in
     rbind (ensure (length moves = 3 \<and> distinct moves) CandidateCount) (\<lambda>_.
     rbind (ensure (moves = vt_roots (de_terminal e)) CandidateOrder) (\<lambda>_.
     rbind (ensure (list_all (\<lambda>x. x \<noteq> []) (de_faults e)) EmptyFault) (\<lambda>_. Inr e)))))))))"

definition evidence_dict :: "decision_evidence \<Rightarrow> pyval" where
  "evidence_dict e = PDict [
     (''evidence_version'', PStr (de_version e)),
     (''run_id'', PStr (de_run e)),
     (''generation'', PInt (de_generation e)),
     (''position_id'', PStr (de_position e)),
     (''crossfeed_policy'', PStr (de_feed_policy e)),
     (''crossfeed_view_digest'', PStr (de_feed_digest e)),
     (''crossfeed_verification_complete'', PBool (de_feed_complete e)),
     (''candidates'', PList (map candidate_dict (de_candidates e))),
     (''verification_terminal'', terminal_dict (de_terminal e)),
     (''evidence_faults'', PList (map PStr (de_faults e)))]"

definition evidence_digest :: "decision_evidence \<Rightarrow> decision_error + string" where
  "evidence_digest e = canonical_digest (evidence_dict e)"

section \<open>Evaluation and proposal\<close>

record disposition =
  ds_code :: string
  ds_reason :: string

definition check_disposition :: "disposition \<Rightarrow> decision_error + disposition" where
  "check_disposition d =
     rbind (ensure (ds_code d \<noteq> []) (EmptyField ''code'')) (\<lambda>_.
     rbind (ensure (ds_reason d \<noteq> []) (EmptyField ''reason'')) (\<lambda>_. Inr d))"

definition disposition_dict :: "disposition \<Rightarrow> pyval" where
  "disposition_dict d = PDict [(''code'', PStr (ds_code d)), (''reason'', PStr (ds_reason d))]"

definition unanimous_policy :: string where
  "unanimous_policy = ''unanimous_verify_v1''"

definition check_source :: "string option \<Rightarrow> decision_error + unit" where
  "check_source v = (case v of None \<Rightarrow> Inr () | Some x \<Rightarrow> ensure (x \<in> set owner_order) UnknownOwner)"

record evaluation =
  ev_policy :: string
  ev_disposition :: disposition
  ev_move :: "string option"
  ev_source :: "string option"
  ev_digest :: string

definition check_evaluation :: "evaluation \<Rightarrow> decision_error + evaluation" where
  "check_evaluation v =
     rbind (ensure (ev_policy v = unanimous_policy) PolicyUnsupported) (\<lambda>_.
     rbind (check_opt_move (ev_move v)) (\<lambda>_.
     rbind (check_source (ev_source v)) (\<lambda>_.
     rbind (ensure (length (ev_digest v) = 64) DigestLength) (\<lambda>_. Inr v))))"

record proposal =
  pp_policy :: string
  pp_disposition :: disposition
  pp_move :: "string option"
  pp_source :: "string option"
  pp_digest :: string
  pp_frozen_ms :: pyfloat
  pp_before_anchor :: bool

definition check_proposal :: "proposal \<Rightarrow> decision_error + proposal" where
  "check_proposal p =
     rbind (ensure (pp_policy p = unanimous_policy) PolicyUnsupported) (\<lambda>_.
     rbind (check_opt_move (pp_move p)) (\<lambda>_.
     rbind (check_source (pp_source p)) (\<lambda>_.
     rbind (ensure (length (pp_digest p) = 64) DigestLength) (\<lambda>_.
     rbind (ensure (f_finite (pp_frozen_ms p) \<and> \<not> f_less (pp_frozen_ms p) (Fin 0)) FrozenTime) (\<lambda>_.
     (let proposed = (ds_code (pp_disposition p) = ''PROPOSED'') in
     rbind (ensure (proposed = (pp_move p \<noteq> None)) ProposedMove) (\<lambda>_.
     rbind (ensure (proposed = (pp_source p \<noteq> None)) ProposedOwner) (\<lambda>_. Inr p))))))))"

text \<open>One result of the policy: its disposition is built first, then the evaluation.\<close>

definition decided :: "string \<Rightarrow> string \<Rightarrow> string \<Rightarrow> string option \<Rightarrow> string option \<Rightarrow> string \<Rightarrow>
    decision_error + evaluation" where
  "decided policy code reason move source digest =
     rbind (check_disposition \<lparr>ds_code = code, ds_reason = reason\<rparr>) (\<lambda>d.
     check_evaluation \<lparr>ev_policy = policy, ev_disposition = d, ev_move = move, ev_source = source,
       ev_digest = digest\<rparr>)"

text \<open>
  The one policy.  Its reads of the terminal dictionary by owner succeed because
  the keys have just been compared with the owners.
\<close>

definition evaluate_unanimous_verify_policy ::
  "string list \<Rightarrow> (string \<times> string) list \<Rightarrow> (string \<times> string option) list \<Rightarrow> bool \<Rightarrow> string list \<Rightarrow>
   string \<Rightarrow> string \<Rightarrow> decision_error + evaluation" where
  "evaluate_unanimous_verify_policy roots owner_of finals settled faults digest policy =
     rbind (ensure (policy = unanimous_policy) PolicyUnsupported) (\<lambda>_.
     rbind (ensure (length digest = 64) DigestLength) (\<lambda>_.
     if faults \<noteq> [] then decided policy ''NO_PROPOSAL_EVIDENCE_FAULT''
       ''typed evidence carries explicit loss, truncation, or terminal faults'' None None digest
     else if \<not> settled then decided policy ''NO_PROPOSAL_VERIFY_INCOMPLETE''
       ''VERIFY evidence is not complete in both cross-feed and terminal views'' None None digest
     else rbind (ensure (dict_keys finals = owner_order) OwnerOrder) (\<lambda>_.
       (let moves = map (\<lambda>owner. the (dict_get finals owner)) owner_order in
        if None \<in> set moves then decided policy ''NO_PROPOSAL_TERMINAL_INCOMPLETE''
          ''at least one completed verifier lacks a terminal bestmove'' None None digest
        else if \<not> set moves \<subseteq> Some ` set roots then decided policy ''INVALID_EVIDENCE''
          ''a terminal verifier move escaped the declared common candidate set'' None None digest
        else if \<not> list_all (\<lambda>x. x = hd moves) moves then decided policy ''NO_PROPOSAL_NONUNANIMOUS''
          ''completed VERIFY terminal bestmoves are not unanimous'' None None digest
        else (let move = the (hd moves); source = dict_get owner_of move in
          rbind (ensure (case source of None \<Rightarrow> False | Some x \<Rightarrow> x \<in> set owner_order) OwnerAttribution) (\<lambda>_.
          decided policy ''PROPOSED''
            ''all three completed verifiers independently ended on one common-support candidate''
            (Some move) source digest))))))"

text \<open>
  The comprehension reads \<open>finals[owner]\<close> for the three owners; the check of the evidence
  has established them, in this order.
\<close>

definition candidate_owners :: "decision_evidence \<Rightarrow> (string \<times> string) list" where
  "candidate_owners e = dict_of_pairs (map (\<lambda>c. (dc_move c, dc_owner c)) (de_candidates e))"

definition evaluate_decision_policy :: "decision_evidence \<Rightarrow> string \<Rightarrow> decision_error + evaluation" where
  "evaluate_decision_policy e policy =
     (let t = de_terminal e; finals = dict_of_pairs (vt_finals t) in
      rbind (evidence_digest e) (\<lambda>digest.
      evaluate_unanimous_verify_policy (vt_roots t) (candidate_owners e)
        (map (\<lambda>owner. (owner, the (dict_get finals owner))) owner_order)
        (de_feed_complete e \<and> vt_complete t) (de_faults e) digest policy))"

definition freeze_decision_proposal :: "evaluation \<Rightarrow> pyfloat \<Rightarrow> bool \<Rightarrow> decision_error + proposal" where
  "freeze_decision_proposal v ms before = check_proposal
     \<lparr>pp_policy = ev_policy v, pp_disposition = ev_disposition v, pp_move = ev_move v,
      pp_source = ev_source v, pp_digest = ev_digest v, pp_frozen_ms = ms, pp_before_anchor = before\<rparr>"

section \<open>Provenance and snapshot\<close>

record provenance =
  pv_version :: string
  pv_plan_id :: string
  pv_plan_digest :: string
  pv_policy_digest :: string
  pv_decision_digest :: string
  pv_trace_digest :: string
  pv_scheduler_digest :: string
  pv_profile_digest :: string
  pv_composition_digest :: string
  pv_environment_digest :: string
  pv_host_digest :: string
  pv_settled :: bool
  pv_open :: int

definition provenance_version :: string where
  "provenance_version = ''j11-orchestration-authority-binding-v1''"

definition digest_names :: "string list" where
  "digest_names = [''move_resource_plan_digest'', ''allocation_policy_digest'',
     ''allocation_decision_digest'', ''allocation_trace_digest'', ''work_scheduler_catalog_digest'',
     ''profile_catalog_digest'', ''composition_profile_digest'', ''game_environment_digest'',
     ''host_capabilities_digest'']"

text \<open>\<open>"move-plan/"\<close> and 64 lower-case hexadecimal digits.\<close>

definition plan_id_text :: "string \<Rightarrow> bool" where
  "plan_id_text t \<longleftrightarrow> prefix ''move-plan/'' t \<and> sha256_text (drop 10 t)"

definition sha_value :: "pyval \<Rightarrow> bool" where
  "sha_value v = (case v of PStr t \<Rightarrow> sha256_text t | _ \<Rightarrow> False)"

definition text_of :: "pyval \<Rightarrow> string" where
  "text_of v = (case v of PStr t \<Rightarrow> t | _ \<Rightarrow> [])"

text \<open>The constructor over any values, as \<open>from_dict\<close> calls it; \<open>field\<close> gives the value of a field.\<close>

definition make_provenance :: "(string \<Rightarrow> pyval) \<Rightarrow> decision_error + provenance" where
  "make_provenance field =
     rbind (ensure (field ''version'' = PStr provenance_version) ProvenanceVersion) (\<lambda>_.
     rbind (ensure (case field ''move_resource_plan_id'' of PStr t \<Rightarrow> plan_id_text t | _ \<Rightarrow> False) PlanIdentity) (\<lambda>_.
     rbind (rcheck (\<lambda>name. ensure (sha_value (field name)) (ProvenanceDigest name)) digest_names) (\<lambda>_.
     rbind (ensure (text_of (field ''move_resource_plan_digest'') =
         drop 10 (text_of (field ''move_resource_plan_id''))) PlanDigest) (\<lambda>_.
     rbind (case field ''work_grant_settlement_complete'' of PBool b \<Rightarrow> Inr b | _ \<Rightarrow> Inl SettledFlag) (\<lambda>settled.
     rbind (case field ''open_work_grant_reservations'' of PInt i \<Rightarrow> (if 0 \<le> i then Inr i else Inl OpenCount)
         | _ \<Rightarrow> Inl OpenCount) (\<lambda>open_count.
     Inr \<lparr>pv_version = text_of (field ''version''),
       pv_plan_id = text_of (field ''move_resource_plan_id''),
       pv_plan_digest = text_of (field ''move_resource_plan_digest''),
       pv_policy_digest = text_of (field ''allocation_policy_digest''),
       pv_decision_digest = text_of (field ''allocation_decision_digest''),
       pv_trace_digest = text_of (field ''allocation_trace_digest''),
       pv_scheduler_digest = text_of (field ''work_scheduler_catalog_digest''),
       pv_profile_digest = text_of (field ''profile_catalog_digest''),
       pv_composition_digest = text_of (field ''composition_profile_digest''),
       pv_environment_digest = text_of (field ''game_environment_digest''),
       pv_host_digest = text_of (field ''host_capabilities_digest''),
       pv_settled = settled, pv_open = open_count\<rparr>))))))"

definition provenance_fields :: "provenance \<Rightarrow> (string \<times> pyval) list" where
  "provenance_fields p = [
     (''version'', PStr (pv_version p)),
     (''move_resource_plan_id'', PStr (pv_plan_id p)),
     (''move_resource_plan_digest'', PStr (pv_plan_digest p)),
     (''allocation_policy_digest'', PStr (pv_policy_digest p)),
     (''allocation_decision_digest'', PStr (pv_decision_digest p)),
     (''allocation_trace_digest'', PStr (pv_trace_digest p)),
     (''work_scheduler_catalog_digest'', PStr (pv_scheduler_digest p)),
     (''profile_catalog_digest'', PStr (pv_profile_digest p)),
     (''composition_profile_digest'', PStr (pv_composition_digest p)),
     (''game_environment_digest'', PStr (pv_environment_digest p)),
     (''host_capabilities_digest'', PStr (pv_host_digest p)),
     (''work_grant_settlement_complete'', PBool (pv_settled p)),
     (''open_work_grant_reservations'', PInt (pv_open p))]"

definition authority_marker :: "(string \<times> pyval) list" where
  "authority_marker = [(''resource_evidence'', PBool True), (''resource_authorization'', PBool False),
     (''outward_move'', PBool False)]"

definition provenance_dict :: "provenance \<Rightarrow> pyval" where
  "provenance_dict p = PDict (provenance_fields p @ [(''authority'', PDict authority_marker)])"

definition value_or_none :: "(string \<times> pyval) list \<Rightarrow> string \<Rightarrow> pyval" where
  "value_or_none d k = (case dict_get d k of None \<Rightarrow> PNone | Some v \<Rightarrow> v)"

text \<open>\<open>v == b\<close> in Python, where numbers equal to 0 and 1 equal the booleans.\<close>

definition equals_bool :: "pyval \<Rightarrow> bool \<Rightarrow> bool" where
  "equals_bool v b = (v = PBool b \<or> v = PInt (of_bool b) \<or> v = PFloat (Fin (of_bool b)))"

definition marker_ok :: "pyval \<Rightarrow> bool" where
  "marker_ok v = (case v of
     PDict d \<Rightarrow> set (dict_keys d) = set (dict_keys authority_marker) \<and>
       equals_bool (value_or_none d ''resource_evidence'') True \<and>
       equals_bool (value_or_none d ''resource_authorization'') False \<and>
       equals_bool (value_or_none d ''outward_move'') False
   | _ \<Rightarrow> False)"

definition provenance_keys :: "string list" where
  "provenance_keys = [''version'', ''move_resource_plan_id'', ''move_resource_plan_digest'',
     ''allocation_policy_digest'', ''allocation_decision_digest'', ''allocation_trace_digest'',
     ''work_scheduler_catalog_digest'', ''profile_catalog_digest'', ''composition_profile_digest'',
     ''game_environment_digest'', ''host_capabilities_digest'', ''work_grant_settlement_complete'',
     ''open_work_grant_reservations'', ''authority'']"

definition provenance_from_dict :: "pyval \<Rightarrow> decision_error + provenance" where
  "provenance_from_dict raw = (case raw of
     PDict d \<Rightarrow>
       rbind (ensure (set (dict_keys d) = set provenance_keys) ProvenanceKeys) (\<lambda>_.
       rbind (ensure (marker_ok (value_or_none d ''authority'')) ProvenanceMarker) (\<lambda>_.
       make_provenance (value_or_none d)))
   | _ \<Rightarrow> Inl ProvenanceObject)"

definition check_provenance :: "provenance \<Rightarrow> decision_error + provenance" where
  "check_provenance p = make_provenance (value_or_none (provenance_fields p))"

record snapshot =
  sn_run :: string
  sn_generation :: int
  sn_position :: string
  sn_request_class :: string
  sn_request_eligible :: bool
  sn_request_reason :: string
  sn_legal_roots :: "string list"
  sn_external_roots :: "string list"
  sn_anchor_bounded :: bool
  sn_anchor_reserved :: bool
  sn_within_envelope :: bool
  sn_within_caps :: bool
  sn_wall_within :: bool
  sn_specialist_settled :: bool
  sn_open_specialist :: int
  sn_open_solver :: int
  sn_gpu_accounted :: bool
  sn_measurement_enabled :: bool
  sn_open_measurement :: int
  sn_provider_available :: bool
  sn_measurement_failure :: bool
  sn_backend_current :: bool
  sn_fallback_latched :: bool
  sn_plan_id :: "string option"
  sn_plan_class :: "string option"
  sn_plan_generation :: "int option"
  sn_plan_position :: "string option"
  sn_plan_command :: "string option"
  sn_terminal_source :: "string option"
  sn_staged_complete :: "bool option"
  sn_staged_intervention :: "string option"
  sn_staged_generation :: "int option"
  sn_staged_roots :: "string list"
  sn_route_action :: "string option"
  sn_route_buy :: "bool option"
  sn_route_digest :: "string option"
  sn_frozen_before_soft :: "bool option"
  sn_authority_blocked :: bool
  sn_provenance :: "provenance option"
  sn_grid_complete :: "bool option"
  sn_host_provider :: "string option"
  sn_capacity_claim :: "bool option"
  sn_domain_complete :: "bool option"
  sn_route_allocation :: "string option"
  sn_route_plan :: "string option"

text \<open>The loop over the moves of one field, with the set of those seen.\<close>

definition check_roots :: "string \<Rightarrow> string list \<Rightarrow> decision_error + unit" where
  "check_roots label moves = rbind (rfold (\<lambda>seen t.
      rbind (canonical_move t) (\<lambda>c. rbind (ensure (c \<notin> set seen) (DuplicateRoots label)) (\<lambda>_. Inr (c # seen))))
      [] moves) (\<lambda>_. Inr ())"

definition check_snapshot :: "snapshot \<Rightarrow> decision_error + snapshot" where
  "check_snapshot s =
     rbind (ensure (sn_run s \<noteq> []) (EmptyField ''run_id'')) (\<lambda>_.
     rbind (ensure (sn_position s \<noteq> []) (EmptyField ''position_id'')) (\<lambda>_.
     rbind (ensure (sn_request_class s \<noteq> []) (EmptyField ''request_class'')) (\<lambda>_.
     rbind (ensure (sn_request_reason s \<noteq> []) (EmptyField ''request_reason'')) (\<lambda>_.
     rbind (check_roots ''legal_roots'' (sn_legal_roots s)) (\<lambda>_.
     rbind (check_roots ''external_root_restriction'' (sn_external_roots s)) (\<lambda>_.
     rbind (ensure (0 \<le> sn_open_specialist s) (NegativeCount ''open_specialist_reservations'')) (\<lambda>_.
     rbind (ensure (0 \<le> sn_open_solver s) (NegativeCount ''open_solver_reservations'')) (\<lambda>_.
     rbind (ensure (0 \<le> sn_open_measurement s) (NegativeCount ''open_non_anchor_measurement_stages'')) (\<lambda>_.
     rbind (ensure (sn_host_provider s \<noteq> Some []) (EmptyField ''orchestration_host_provider_id'')) (\<lambda>_.
     rbind (ensure (case sn_route_allocation s of None \<Rightarrow> True | Some t \<Rightarrow> sha256_text t) RouteDigest) (\<lambda>_.
     rbind (ensure (case sn_route_plan s of None \<Rightarrow> True | Some t \<Rightarrow> plan_id_text t) RoutePlan) (\<lambda>_.
     Inr s))))))))))))"

text \<open>The part of the dictionary that every snapshot has, and the keys added only when present.\<close>

definition snapshot_common :: "snapshot \<Rightarrow> (string \<times> pyval) list" where
  "snapshot_common s = [
     (''run_id'', PStr (sn_run s)),
     (''generation'', PInt (sn_generation s)),
     (''position_id'', PStr (sn_position s)),
     (''request_class'', PStr (sn_request_class s)),
     (''request_eligible'', PBool (sn_request_eligible s)),
     (''request_reason'', PStr (sn_request_reason s)),
     (''legal_roots'', PList (map PStr (sn_legal_roots s))),
     (''external_root_restriction'', PList (map PStr (sn_external_roots s))),
     (''anchor_request_bounded'', PBool (sn_anchor_bounded s)),
     (''anchor_reserved'', PBool (sn_anchor_reserved s)),
     (''budget_within_envelope'', PBool (sn_within_envelope s)),
     (''partitions_within_caps'', PBool (sn_within_caps s)),
     (''wall_within_envelope'', PBool (sn_wall_within s)),
     (''specialist_settlement_complete'', PBool (sn_specialist_settled s)),
     (''open_specialist_reservations'', PInt (sn_open_specialist s)),
     (''open_solver_reservations'', PInt (sn_open_solver s)),
     (''gpu_accounted'', PBool (sn_gpu_accounted s)),
     (''measurement_enabled'', PBool (sn_measurement_enabled s)),
     (''open_non_anchor_measurement_stages'', PInt (sn_open_measurement s)),
     (''measurement_provider_available'', PBool (sn_provider_available s)),
     (''measurement_known_failure'', PBool (sn_measurement_failure s)),
     (''backend_generation_current'', PBool (sn_backend_current s)),
     (''controller_fallback_latched'', PBool (sn_fallback_latched s)),
     (''time_plan_id'', opt_text (sn_plan_id s)),
     (''time_plan_request_class'', opt_text (sn_plan_class s)),
     (''time_plan_generation'', opt_int (sn_plan_generation s)),
     (''time_plan_position_id'', opt_text (sn_plan_position s)),
     (''time_plan_anchor_go_command'', opt_text (sn_plan_command s)),
     (''terminal_source'', opt_text (sn_terminal_source s)),
     (''staged_complete'', opt_bool (sn_staged_complete s)),
     (''staged_intervention'', opt_text (sn_staged_intervention s)),
     (''staged_generation'', opt_int (sn_staged_generation s)),
     (''staged_candidate_roots'', PList (map PStr (sn_staged_roots s))),
     (''route_action'', opt_text (sn_route_action s)),
     (''route_buy_extension'', opt_bool (sn_route_buy s)),
     (''route_decision_digest'', opt_text (sn_route_digest s)),
     (''authority_evidence_frozen_before_soft_deadline'', opt_bool (sn_frozen_before_soft s)),
     (''authority_blocked'', PBool (sn_authority_blocked s))]"

definition present :: "string \<Rightarrow> pyval option \<Rightarrow> (string \<times> pyval) list" where
  "present k v = (case v of None \<Rightarrow> [] | Some x \<Rightarrow> [(k, x)])"

definition snapshot_dict :: "snapshot \<Rightarrow> pyval" where
  "snapshot_dict s = PDict (snapshot_common s @
     present ''orchestration_provenance'' (map_option provenance_dict (sn_provenance s)) @
     present ''orchestration_work_grant_grid_complete'' (map_option PBool (sn_grid_complete s)) @
     present ''orchestration_host_provider_id'' (map_option PStr (sn_host_provider s)) @
     present ''orchestration_host_capacity_claim'' (map_option PBool (sn_capacity_claim s)) @
     present ''orchestration_host_qualification_domain_complete'' (map_option PBool (sn_domain_complete s)) @
     present ''route_allocation_decision_digest'' (map_option PStr (sn_route_allocation s)) @
     present ''route_move_resource_plan_id'' (map_option PStr (sn_route_plan s)))"

definition snapshot_digest :: "snapshot \<Rightarrow> decision_error + string" where
  "snapshot_digest s = canonical_digest (snapshot_dict s)"

section \<open>Authorization\<close>

definition bounded_policy :: string where
  "bounded_policy = ''bounded_preanchor_v0''"

definition clocked_policy :: string where
  "clocked_policy = ''clocked_staged_preanchor_v1''"

definition orchestrated_policy :: string where
  "orchestrated_policy = ''orchestrated_clocked_staged_preanchor_v1''"

definition authorization_policies :: "string list" where
  "authorization_policies = [bounded_policy, clocked_policy, orchestrated_policy]"

record authorization =
  az_policy :: string
  az_authorized :: bool
  az_move :: "string option"
  az_reason :: string
  az_snapshot :: string

definition check_authorization :: "authorization \<Rightarrow> decision_error + authorization" where
  "check_authorization a =
     rbind (ensure (az_policy a \<in> set authorization_policies) PolicyUnsupported) (\<lambda>_.
     rbind (if az_authorized a
            then (case az_move a of None \<Rightarrow> Inl GrantWithoutMove
                  | Some t \<Rightarrow> rbind (canonical_move t) (\<lambda>_. Inr ()))
            else ensure (az_move a = None) DenialWithMove) (\<lambda>_.
     rbind (ensure (az_reason a \<noteq> []) (EmptyField ''reason'')) (\<lambda>_.
     rbind (ensure (length (az_snapshot a) = 64) DigestLength) (\<lambda>_. Inr a))))"

definition fault :: "bool \<Rightarrow> string \<Rightarrow> string list" where
  "fault b reason = (if b then [reason] else [])"

text \<open>The reasons in the order in which the gate appends them.\<close>

definition identity_reasons :: "proposal \<Rightarrow> decision_evidence \<Rightarrow> string \<Rightarrow> snapshot \<Rightarrow> string list" where
  "identity_reasons p e digest s =
     fault (ds_code (pp_disposition p) \<noteq> ''PROPOSED'' \<or> pp_move p = None) ''no frozen hybrid proposal'' @
     fault (\<not> pp_before_anchor p) ''proposal was not frozen before anchor completion'' @
     fault (pp_digest p \<noteq> digest) ''proposal/evidence digest mismatch'' @
     fault (de_run e \<noteq> sn_run s) ''run_id mismatch'' @
     fault (de_generation e \<noteq> sn_generation s) ''generation mismatch'' @
     fault (de_position e \<noteq> sn_position s) ''position_id mismatch'' @
     fault (de_faults e \<noteq> []) ''decision evidence carries explicit faults'' @
     fault (\<not> de_feed_complete e \<or> \<not> vt_complete (de_terminal e)) ''required VERIFY evidence is incomplete''"

definition move_reasons :: "proposal \<Rightarrow> snapshot \<Rightarrow> string list" where
  "move_reasons p s = (case pp_move p of None \<Rightarrow> []
   | Some t \<Rightarrow>
       fault (t \<notin> set (sn_legal_roots s)) ''proposal move is outside the qualified legal-root universe'' @
       fault (sn_external_roots s \<noteq> [] \<and> t \<notin> set (sn_external_roots s))
         ''proposal move is outside external searchmoves'')"

definition plan_identity :: "string option \<Rightarrow> bool" where
  "plan_identity v = (case v of None \<Rightarrow> False | Some t \<Rightarrow> prefix ''time-'' t \<and> length t = 69)"

definition request_reasons :: "string \<Rightarrow> decision_evidence \<Rightarrow> snapshot \<Rightarrow> string list" where
  "request_reasons policy e s =
     (if policy = bounded_policy
      then fault (sn_request_class s \<noteq> ''movetime_v0'' \<or> \<not> sn_request_eligible s)
        (''unsupported request class: '' @ sn_request_reason s)
      else
        fault (sn_request_class s \<noteq> ''online_time_v1'' \<or> \<not> sn_request_eligible s)
          (''unsupported online request class: '' @ sn_request_reason s) @
        fault (\<not> plan_identity (sn_plan_id s)) ''ONLINE authority is missing or malformed TimePlan identity'' @
        fault (sn_plan_class s \<notin> Some ` set [''movetime_deadline_v1'', ''clock_v1''])
          ''unsupported TimePlan request class'' @
        fault (sn_plan_generation s \<noteq> Some (sn_generation s)) ''TimePlan generation mismatch'' @
        fault (sn_plan_position s \<noteq> Some (sn_position s)) ''TimePlan position mismatch'' @
        fault (sn_plan_command s = None \<or> sn_plan_command s = Some []) ''TimePlan anchor command is missing'' @
        fault (sn_terminal_source s \<noteq> Some ''staged_verification'')
          ''G3 authority requires staged_verification terminal source'' @
        fault (sn_staged_complete s \<noteq> Some True) ''staged VERIFY is not completely settled'' @
        fault (sn_staged_intervention s \<noteq> Some ''same_process_staged_verify_v1'')
          ''staged VERIFY intervention identity mismatch'' @
        fault (sn_staged_generation s \<noteq> Some (sn_generation s)) ''staged VERIFY generation mismatch'' @
        fault (sn_staged_roots s \<noteq> vt_roots (de_terminal e))
          ''staged VERIFY candidate order differs from decision evidence'' @
        fault (sn_route_action s \<noteq> Some ''BUY_STAGED_VERIFY'' \<or> sn_route_buy s \<noteq> Some True)
          ''G3 authority requires a BUY_STAGED_VERIFY route'' @
        fault (case sn_route_digest s of None \<Rightarrow> True | Some t \<Rightarrow> length t \<noteq> 64)
          ''G3 route decision identity is missing'' @
        fault (sn_frozen_before_soft s \<noteq> Some True) ''proposal was not frozen before the soft compute deadline'' @
        fault (sn_authority_blocked s) ''clock authority was explicitly invalidated'')"

definition resource_reasons :: "snapshot \<Rightarrow> string list" where
  "resource_reasons s =
     fault (\<not> sn_anchor_bounded s) ''anchor request is not bounded by the declared wall envelope'' @
     fault (\<not> sn_anchor_reserved s) ''anchor resource reservation is missing'' @
     fault (\<not> sn_within_envelope s) ''known budget state exceeds the declared resource envelope'' @
     fault (\<not> sn_within_caps s) ''known specialist partition cap is exceeded'' @
     fault (\<not> sn_wall_within s) ''wall envelope is already exhausted'' @
     fault (\<not> sn_specialist_settled s) ''specialist settlement is incomplete'' @
     fault (sn_open_specialist s \<noteq> 0) ''indispensable specialist reservation remains open'' @
     fault (sn_open_solver s \<noteq> 0) ''completed EXPLORE solver reservation remains open'' @
     fault (\<not> sn_gpu_accounted s) ''declared GPU resource is not accounted'' @
     fault (\<not> sn_measurement_enabled s) ''physical resource measurement is disabled'' @
     fault (sn_open_measurement s \<noteq> 0) ''non-anchor physical measurement stage remains open'' @
     fault (\<not> sn_provider_available s) ''physical resource measurement provider is unavailable'' @
     fault (sn_measurement_failure s) ''completed physical resource evidence contains a known failure'' @
     fault (\<not> sn_backend_current s) ''backend generation is stale or unhealthy'' @
     fault (sn_fallback_latched s) ''controller has already latched anchor-only fallback''"

definition provenance_reasons :: "snapshot \<Rightarrow> string list" where
  "provenance_reasons s = (case sn_provenance s of None \<Rightarrow> []
   | Some v \<Rightarrow>
       fault (\<not> pv_settled v) ''orchestration WorkGrant settlement is incomplete'' @
       fault (pv_open v \<noteq> 0) ''orchestration WorkGrant reservation remains open'')"

definition orchestrated_reasons :: "string \<Rightarrow> snapshot \<Rightarrow> string list" where
  "orchestrated_reasons policy s =
     (if policy \<noteq> orchestrated_policy then []
      else
        (case sn_provenance s of
           None \<Rightarrow> [''orchestrated authority requires frozen J11 orchestration provenance'']
         | Some v \<Rightarrow>
             fault (sn_route_allocation s \<noteq> Some (pv_decision_digest v))
               ''orchestrated route does not bind the J11 AllocationDecision'' @
             fault (sn_route_plan s \<noteq> Some (pv_plan_id v))
               ''orchestrated route does not bind the J11 MoveResourcePlan'') @
        fault (sn_grid_complete s \<noteq> Some True)
          ''orchestrated authority requires the exact settled 3x3 WorkGrant grid'' @
        fault (sn_capacity_claim s \<noteq> Some True)
          ''orchestrated authority requires a real complete adaptive host-capacity claim'' @
        fault (sn_host_provider s \<noteq> Some ''linux-host-v2'')
          ''orchestrated authority requires the real linux-host-v2 capacity provider'')"

definition gate_reasons :: "proposal \<Rightarrow> decision_evidence \<Rightarrow> string \<Rightarrow> snapshot \<Rightarrow> string \<Rightarrow> string list" where
  "gate_reasons p e digest s policy =
     identity_reasons p e digest s @ move_reasons p s @ request_reasons policy e s @
     resource_reasons s @ provenance_reasons s @ orchestrated_reasons policy s"

definition granted_reason :: string where
  "granted_reason = ''all bounded M14-C authorization gates passed''"

definition authorize_decision :: "proposal \<Rightarrow> decision_evidence \<Rightarrow> snapshot \<Rightarrow> string \<Rightarrow>
    decision_error + authorization" where
  "authorize_decision p e s policy =
     rbind (ensure (policy \<in> set authorization_policies) PolicyUnsupported) (\<lambda>_.
     rbind (evidence_digest e) (\<lambda>digest.
     (let reasons = gate_reasons p e digest s policy in
      rbind (snapshot_digest s) (\<lambda>bound. check_authorization
        (if reasons \<noteq> []
         then \<lparr>az_policy = policy, az_authorized = False, az_move = None,
               az_reason = py_join ''; '' reasons, az_snapshot = bound\<rparr>
         else \<lparr>az_policy = policy, az_authorized = True, az_move = pp_move p,
               az_reason = granted_reason, az_snapshot = bound\<rparr>)))))"

section \<open>The final decision\<close>

definition hybrid_authority :: string where
  "hybrid_authority = ''HYBRID''"

definition anchor_fallback :: string where
  "anchor_fallback = ''ANCHOR_FALLBACK''"

definition anchor_control :: string where
  "anchor_control = ''ANCHOR_CONTROL''"

definition hybrid_mode :: string where
  "hybrid_mode = ''authorized_hybrid_v1''"

definition control_modes :: "string list" where
  "control_modes = [''anchor_control_v1'', ''g3_anchor_control_v1'']"

definition outward_modes :: "string list" where
  "outward_modes = hybrid_mode # control_modes"

record final_decision =
  fd_authority :: string
  fd_emitted :: string
  fd_anchor :: string
  fd_proposal :: "string option"
  fd_authorization :: authorization
  fd_snapshot :: snapshot
  fd_evidence :: "string option"

definition check_authority :: "final_decision \<Rightarrow> decision_error + unit" where
  "check_authority f = (let a = fd_authorization f in
     if fd_authority f = hybrid_authority then
       rbind (ensure (az_authorized a) HybridDenied) (\<lambda>_.
       rbind (ensure (fd_proposal f \<noteq> None) HybridNoProposal) (\<lambda>_.
       rbind (ensure (az_move a = fd_proposal f) HybridMove) (\<lambda>_.
       ensure (Some (fd_emitted f) = fd_proposal f) HybridEmitted)))
     else if fd_authority f = anchor_fallback then
       rbind (ensure (\<not> az_authorized a) FallbackGranted) (\<lambda>_.
       ensure (fd_emitted f = fd_anchor f) AnchorEmitted)
     else
       rbind (ensure (fd_emitted f = fd_anchor f) AnchorEmitted) (\<lambda>_.
       if az_authorized a then
         rbind (ensure (fd_proposal f \<noteq> None) ControlNoProposal) (\<lambda>_.
         ensure (az_move a = fd_proposal f) ControlMove)
       else Inr ()))"

definition check_final :: "final_decision \<Rightarrow> decision_error + final_decision" where
  "check_final f =
     rbind (canonical_move (fd_emitted f)) (\<lambda>_.
     rbind (canonical_move (fd_anchor f)) (\<lambda>_.
     rbind (check_opt_move (fd_proposal f)) (\<lambda>_.
     rbind (ensure (case fd_evidence f of None \<Rightarrow> True | Some t \<Rightarrow> length t = 64) DigestLength) (\<lambda>_.
     rbind (ensure (fd_authority f \<in> set [hybrid_authority, anchor_fallback, anchor_control]) UnknownAuthority) (\<lambda>_.
     rbind (snapshot_digest (fd_snapshot f)) (\<lambda>digest.
     rbind (ensure (az_snapshot (fd_authorization f) = digest) SnapshotBinding) (\<lambda>_.
     rbind (check_authority f) (\<lambda>_. Inr f))))))))"

definition select_final_decision :: "string \<Rightarrow> proposal option \<Rightarrow> authorization \<Rightarrow> snapshot \<Rightarrow> string \<Rightarrow>
    decision_error + final_decision" where
  "select_final_decision anchor_text p a s mode =
     rbind (canonical_move anchor_text) (\<lambda>anchor.
     (let proposed = Option.bind p pp_move; evidence = map_option pp_digest p;
          final = (\<lambda>authority emitted. \<lparr>fd_authority = authority, fd_emitted = emitted, fd_anchor = anchor,
            fd_proposal = proposed, fd_authorization = a, fd_snapshot = s, fd_evidence = evidence\<rparr>) in
     rbind (ensure (mode \<in> set outward_modes) OutwardMode) (\<lambda>_.
     if mode \<in> set control_modes then check_final (final anchor_control anchor)
     else if az_authorized a then check_final (final hybrid_authority
       (case az_move a of None \<Rightarrow> ''None'' | Some t \<Rightarrow> t))
     else check_final (final anchor_fallback anchor))))"

definition revoke_final_decision_to_anchor :: "final_decision \<Rightarrow> string \<Rightarrow> decision_error + final_decision" where
  "revoke_final_decision_to_anchor f reason =
     rbind (ensure (reason \<noteq> []) RevocationReason) (\<lambda>_.
     if fd_authority f = anchor_fallback then Inr f
     else if fd_authority f = anchor_control \<and> \<not> az_authorized (fd_authorization f) then Inr f
     else
       rbind (check_snapshot ((fd_snapshot f)\<lparr>sn_authority_blocked := True\<rparr>)) (\<lambda>s.
       rbind (snapshot_digest s) (\<lambda>digest.
       rbind (check_authorization \<lparr>az_policy = az_policy (fd_authorization f), az_authorized = False,
         az_move = None, az_reason = reason, az_snapshot = digest\<rparr>) (\<lambda>a.
       check_final \<lparr>
         fd_authority = (if fd_authority f = anchor_control then anchor_control else anchor_fallback),
         fd_emitted = fd_anchor f, fd_anchor = fd_anchor f, fd_proposal = fd_proposal f,
         fd_authorization = a, fd_snapshot = s, fd_evidence = fd_evidence f\<rparr>))))"

definition denied_counterfactual_authorization :: "decision_error + authorization" where
  "denied_counterfactual_authorization = check_authorization
     \<lparr>az_policy = bounded_policy, az_authorized = False, az_move = None,
      az_reason = ''counterfactual-only path grants no outward decision authority'',
      az_snapshot = replicate 64 CHR ''0''\<rparr>"

text \<open>The comparison of a proposal with the anchor move, which carries no authority.\<close>

record counterfactual =
  cf_proposal :: proposal
  cf_anchor :: string
  cf_matches :: "bool option"
  cf_changes :: "bool option"
  cf_baseline :: string

definition check_counterfactual :: "counterfactual \<Rightarrow> decision_error + counterfactual" where
  "check_counterfactual c =
     rbind (canonical_move (cf_anchor c)) (\<lambda>_.
     rbind (ensure (cf_baseline c = ''stockfish-anchor'') Baseline) (\<lambda>_.
     rbind (ensure (case pp_move (cf_proposal c) of
         None \<Rightarrow> cf_matches c = None \<and> cf_changes c = None
       | Some t \<Rightarrow> cf_matches c = Some (t = cf_anchor c) \<and> cf_changes c = Some (t \<noteq> cf_anchor c))
       AnchorRelation) (\<lambda>_. Inr c)))"

definition attach_anchor :: "proposal \<Rightarrow> string \<Rightarrow> decision_error + counterfactual" where
  "attach_anchor p anchor_text =
     rbind (canonical_move anchor_text) (\<lambda>anchor. check_counterfactual
       \<lparr>cf_proposal = p, cf_anchor = anchor,
        cf_matches = map_option (\<lambda>t. t = anchor) (pp_move p),
        cf_changes = map_option (\<lambda>t. t \<noteq> anchor) (pp_move p),
        cf_baseline = ''stockfish-anchor''\<rparr>)"

end
