(* ===== verification/DecisionLaws.thy ===== *)
theory DecisionLaws
  imports Decision
begin

text \<open>
  What the outward-authority kernel promises: the gate grants exactly the proposals for which all its
  conditions hold, and a move other than the anchor's leaves only through policy,
  freeze, gate and selection; revocation returns to the anchor.
\<close>


section \<open>Checked values\<close>

text \<open>A check that returns gives back the value it was given.\<close>

lemmas check_defs = check_candidate_def check_terminal_def check_decision_evidence_def
  check_disposition_def check_evaluation_def check_proposal_def check_snapshot_def
  check_authorization_def check_final_def check_counterfactual_def

lemma check_same:
  "check_evaluation v = Inr v' \<Longrightarrow> v' = v"
  "check_proposal p = Inr p' \<Longrightarrow> p' = p"
  "check_snapshot s = Inr s' \<Longrightarrow> s' = s"
  "check_authorization a = Inr a' \<Longrightarrow> a' = a"
  "check_final f = Inr f' \<Longrightarrow> f' = f"
  by (auto simp: check_defs Let_def rbind_eq_Inr)

lemma canonical_move_fixed: "uci_move t \<Longrightarrow> canonical_move t = Inr t"
  by (simp add: canonical_move_def)

lemma canonical_move_uci: "canonical_move t = Inr c \<Longrightarrow> uci_move c"
  by (auto simp: canonical_move_def)

lemma digest_length: "canonical_digest v = Inr t \<Longrightarrow> sha256_text t \<and> length t = 64"
  using digest_of_text by (auto simp: canonical_digest_def sha256_text_def split: option.splits)

lemma digest_returns: "(\<exists>t. canonical_digest v = Inr t) \<longleftrightarrow> json_ok v"
  by (simp add: canonical_digest_def digest_of_def)

section \<open>The gate\<close>

lemma fault_Nil [simp]: "fault b t = [] \<longleftrightarrow> \<not> b"
  by (simp add: fault_def)

text \<open>What the gate promises: the conditions, grouped by what they protect.\<close>

definition frozen_proposal :: "proposal \<Rightarrow> string \<Rightarrow> bool" where
  "frozen_proposal p digest \<longleftrightarrow> ds_code (pp_disposition p) = ''PROPOSED'' \<and> pp_move p \<noteq> None \<and>
     pp_before_anchor p \<and> pp_digest p = digest"

definition same_search :: "decision_evidence \<Rightarrow> snapshot \<Rightarrow> bool" where
  "same_search e s \<longleftrightarrow> de_run e = sn_run s \<and> de_generation e = sn_generation s \<and> de_position e = sn_position s"

definition sound_evidence :: "decision_evidence \<Rightarrow> bool" where
  "sound_evidence e \<longleftrightarrow> de_faults e = [] \<and> de_feed_complete e \<and> vt_complete (de_terminal e)"

definition playable :: "proposal \<Rightarrow> snapshot \<Rightarrow> bool" where
  "playable p s \<longleftrightarrow> set_option (pp_move p) \<subseteq> set (sn_legal_roots s) \<and>
     (sn_external_roots s = [] \<or> set_option (pp_move p) \<subseteq> set (sn_external_roots s))"

definition clock_bound :: "decision_evidence \<Rightarrow> snapshot \<Rightarrow> bool" where
  "clock_bound e s \<longleftrightarrow> sn_request_class s = ''online_time_v1'' \<and> sn_request_eligible s \<and>
     plan_identity (sn_plan_id s) \<and> sn_plan_class s \<in> Some ` set [''movetime_deadline_v1'', ''clock_v1''] \<and>
     sn_plan_generation s = Some (sn_generation s) \<and> sn_plan_position s = Some (sn_position s) \<and>
     sn_plan_command s \<notin> {None, Some []} \<and> sn_terminal_source s = Some ''staged_verification'' \<and>
     sn_staged_complete s = Some True \<and> sn_staged_intervention s = Some ''same_process_staged_verify_v1'' \<and>
     sn_staged_generation s = Some (sn_generation s) \<and> sn_staged_roots s = vt_roots (de_terminal e) \<and>
     sn_route_action s = Some ''BUY_STAGED_VERIFY'' \<and> sn_route_buy s = Some True \<and>
     (\<exists>t. sn_route_digest s = Some t \<and> length t = 64) \<and>
     sn_frozen_before_soft s = Some True \<and> \<not> sn_authority_blocked s"

definition resources_settled :: "snapshot \<Rightarrow> bool" where
  "resources_settled s \<longleftrightarrow> sn_anchor_bounded s \<and> sn_anchor_reserved s \<and> sn_within_envelope s \<and>
     sn_within_caps s \<and> sn_wall_within s \<and> sn_specialist_settled s \<and> sn_open_specialist s = 0 \<and>
     sn_open_solver s = 0 \<and> sn_gpu_accounted s \<and> sn_measurement_enabled s \<and> sn_open_measurement s = 0 \<and>
     sn_provider_available s \<and> \<not> sn_measurement_failure s \<and> sn_backend_current s \<and> \<not> sn_fallback_latched s \<and>
     (case sn_provenance s of None \<Rightarrow> True | Some v \<Rightarrow> pv_settled v \<and> pv_open v = 0)"

definition orchestration_bound :: "snapshot \<Rightarrow> bool" where
  "orchestration_bound s \<longleftrightarrow>
     (\<exists>v. sn_provenance s = Some v \<and> sn_route_allocation s = Some (pv_decision_digest v) \<and>
       sn_route_plan s = Some (pv_plan_id v)) \<and>
     sn_grid_complete s = Some True \<and> sn_capacity_claim s = Some True \<and>
     sn_host_provider s = Some ''linux-host-v2''"

definition gate_open :: "proposal \<Rightarrow> decision_evidence \<Rightarrow> string \<Rightarrow> snapshot \<Rightarrow> string \<Rightarrow> bool" where
  "gate_open p e digest s policy \<longleftrightarrow>
     frozen_proposal p digest \<and> same_search e s \<and> sound_evidence e \<and> playable p s \<and> resources_settled s \<and>
     (if policy = bounded_policy then sn_request_class s = ''movetime_v0'' \<and> sn_request_eligible s
      else clock_bound e s) \<and>
     (policy = orchestrated_policy \<longrightarrow> orchestration_bound s)"

lemma identity_reasons_Nil:
  "identity_reasons p e digest s = [] \<longleftrightarrow> frozen_proposal p digest \<and> same_search e s \<and> sound_evidence e"
  by (auto simp: identity_reasons_def frozen_proposal_def same_search_def sound_evidence_def)

lemma move_reasons_Nil: "move_reasons p s = [] \<longleftrightarrow> playable p s"
  by (auto simp: move_reasons_def playable_def split: option.splits)

lemma request_reasons_Nil:
  "request_reasons policy e s = [] \<longleftrightarrow>
     (if policy = bounded_policy then sn_request_class s = ''movetime_v0'' \<and> sn_request_eligible s
      else clock_bound e s)"
  by (auto simp: request_reasons_def clock_bound_def split: option.splits)

lemma resource_reasons_Nil:
  "resource_reasons s = [] \<and> provenance_reasons s = [] \<longleftrightarrow> resources_settled s"
  by (auto simp: resource_reasons_def provenance_reasons_def resources_settled_def split: option.splits)

lemma orchestrated_reasons_Nil:
  "orchestrated_reasons policy s = [] \<longleftrightarrow> (policy = orchestrated_policy \<longrightarrow> orchestration_bound s)"
  by (auto simp: orchestrated_reasons_def orchestration_bound_def split: option.splits)

lemma gate_reasons_Nil: "gate_reasons p e digest s policy = [] \<longleftrightarrow> gate_open p e digest s policy"
  using resource_reasons_Nil [of s]
  by (auto simp: gate_reasons_def gate_open_def identity_reasons_Nil move_reasons_Nil request_reasons_Nil
    orchestrated_reasons_Nil simp del: append_assoc)


lemma joined_reasons: "reasons \<noteq> [] \<Longrightarrow> [] \<notin> set reasons \<Longrightarrow> py_join ''; '' reasons \<noteq> []"
  by (cases "(''; '', reasons)" rule: py_join.cases) auto

lemma reasons_text: "[] \<notin> set (gate_reasons p e digest s policy)"
  by (auto simp: gate_reasons_def identity_reasons_def move_reasons_def request_reasons_def
    resource_reasons_def provenance_reasons_def orchestrated_reasons_def fault_def split: option.splits if_splits)

text \<open>
  The gate always answers when its inputs have digests, and grants exactly the
  proposal for which all the conditions hold.
\<close>

lemma authorize_decision_eq:
  assumes "policy \<in> set authorization_policies" "check_proposal p = Inr p"
    and "evidence_digest e = Inr digest" "snapshot_digest s = Inr bound"
  shows "\<exists>reason. authorize_decision p e s policy = Inr
    \<lparr>az_policy = policy, az_authorized = gate_open p e digest s policy,
     az_move = (if gate_open p e digest s policy then pp_move p else None),
     az_reason = reason, az_snapshot = bound\<rparr>"
proof (cases "gate_open p e digest s policy")
  case True
  then obtain t where "pp_move p = Some t" by (auto simp: gate_open_def frozen_proposal_def)
  moreover have "\<exists>c. canonical_move t = Inr c"
    using assms(2) calculation by (auto simp: check_proposal_def check_opt_move_def rbind_eq_Inr)
  moreover have "length bound = 64" using assms(4) digest_length by (auto simp: snapshot_digest_def)
  ultimately show ?thesis
    using assms True by (auto simp: authorize_decision_def check_authorization_def gate_reasons_Nil granted_reason_def)
next
  case False
  then have "py_join ''; '' (gate_reasons p e digest s policy) \<noteq> []"
    using joined_reasons reasons_text gate_reasons_Nil by blast
  moreover have "length bound = 64" using assms(4) digest_length by (auto simp: snapshot_digest_def)
  ultimately show ?thesis
    using assms False by (auto simp: authorize_decision_def check_authorization_def gate_reasons_Nil)
qed

section \<open>Selection and revocation\<close>

lemma policy_names [simp]:
  "hybrid_authority \<noteq> anchor_fallback" "hybrid_authority \<noteq> anchor_control" "anchor_fallback \<noteq> anchor_control"
  "anchor_fallback \<noteq> hybrid_authority" "anchor_control \<noteq> hybrid_authority" "anchor_control \<noteq> anchor_fallback"
  "hybrid_mode \<notin> set control_modes"
  by (auto simp: hybrid_authority_def anchor_fallback_def anchor_control_def hybrid_mode_def control_modes_def)

definition hybrid_granted :: "authorization \<Rightarrow> string \<Rightarrow> bool" where
  "hybrid_granted a mode \<longleftrightarrow> az_authorized a \<and> mode = hybrid_mode"

lemma check_opt_move_Inr: "check_opt_move v = Inr u \<longleftrightarrow> (\<forall>t \<in> set_option v. \<exists>c. canonical_move t = Inr c)"
  by (cases v) (auto simp: check_opt_move_def rbind_eq_Inr)

text \<open>A selection with the authorization that the gate gave to the proposal always returns.\<close>

lemma select_final_decision_eq:
  assumes "uci_move (py_lower anchor)" "mode \<in> set outward_modes"
    and "check_proposal p = Inr p" "check_authorization a = Inr a"
    and "snapshot_digest s = Inr (az_snapshot a)" "az_authorized a \<Longrightarrow> az_move a = pp_move p"
  shows "select_final_decision anchor (Some p) a s mode = Inr
    \<lparr>fd_authority = (if mode \<in> set control_modes then anchor_control
       else if az_authorized a then hybrid_authority else anchor_fallback),
     fd_emitted = (if hybrid_granted a mode then the (pp_move p) else py_lower anchor),
     fd_anchor = py_lower anchor, fd_proposal = pp_move p, fd_authorization = a, fd_snapshot = s,
     fd_evidence = Some (pp_digest p)\<rparr>"
proof -
  have anchor: "canonical_move anchor = Inr (py_lower anchor)"
    "canonical_move (py_lower anchor) = Inr (py_lower anchor)"
    using assms(1) canonical_move_fixed by (auto simp: canonical_move_def)
  have granted: "\<exists>t c. pp_move p = Some t \<and> canonical_move t = Inr c" if "az_authorized a"
    using assms(4,6) that by (auto simp: check_authorization_def rbind_eq_Inr split: option.splits)
  have props: "check_opt_move (pp_move p) = Inr ()" "length (pp_digest p) = 64"
    using assms(3) by (auto simp: check_proposal_def rbind_eq_Inr Let_def)
  have modes: "mode = hybrid_mode \<or> mode \<in> set control_modes"
    using assms(2) by (auto simp: outward_modes_def)
  show ?thesis
    using assms(2,5,6) anchor props modes granted
    by (auto simp: select_final_decision_def Let_def check_final_def check_authority_def hybrid_granted_def)
qed

lemma check_final_authority: "check_final f = Inr f \<Longrightarrow> check_authority f = Inr ()"
  by (auto simp: check_final_def rbind_eq_Inr)

lemma final_authority:
  "check_final f = Inr f \<Longrightarrow>
   fd_authority f = hybrid_authority \<and> az_authorized (fd_authorization f) \<and>
     fd_proposal f = Some (fd_emitted f) \<and> az_move (fd_authorization f) = Some (fd_emitted f) \<or>
   fd_authority f \<in> {anchor_fallback, anchor_control} \<and> fd_emitted f = fd_anchor f \<and>
     (fd_authority f = anchor_fallback \<longrightarrow> \<not> az_authorized (fd_authorization f))"
  using check_final_authority [of f]
  by (auto simp: check_authority_def check_final_def rbind_eq_Inr Let_def split: if_splits)

lemma snapshot_blocked_digest:
  "snapshot_digest s = Inr d \<Longrightarrow> \<exists>d'. snapshot_digest (s\<lparr>sn_authority_blocked := b\<rparr>) = Inr d'"
  by (auto simp: snapshot_digest_def canonical_digest_def digest_of_def snapshot_dict_def snapshot_common_def
    split: if_splits)

section \<open>The policy\<close>

lemma decided_eq:
  assumes "code \<noteq> []" "reason \<noteq> []" "policy = unanimous_policy" "length digest = 64"
    and "check_opt_move move = Inr ()" "check_source source = Inr ()"
  shows "decided policy code reason move source digest =
    Inr \<lparr>ev_policy = policy, ev_disposition = \<lparr>ds_code = code, ds_reason = reason\<rparr>, ev_move = move,
      ev_source = source, ev_digest = digest\<rparr>"
  using assms by (simp add: decided_def check_disposition_def check_evaluation_def)

lemma check_nothing [simp]: "check_opt_move None = Inr ()" "check_source None = Inr ()"
  by (simp_all add: check_opt_move_def check_source_def)

text \<open>What the policy looks for: the three verifiers ended on one candidate.\<close>

definition unanimous_on :: "(string \<times> string option) list \<Rightarrow> string list \<Rightarrow> string \<Rightarrow> bool" where
  "unanimous_on finals roots t \<longleftrightarrow> t \<in> set roots \<and> map (dict_get finals) owner_order = replicate 3 (Some (Some t))"

definition attributed :: "(string \<times> string) list \<Rightarrow> string list \<Rightarrow> bool" where
  "attributed owner_of roots \<longleftrightarrow> (\<forall>t \<in> set roots. \<exists>x \<in> set owner_order. dict_get owner_of t = Some x)"

lemma owner_keys_get: "dict_keys d = owner_order \<Longrightarrow> x \<in> set owner_order \<Longrightarrow> \<exists>v. dict_get d x = Some v"
  by (metis dict_get_None not_None_eq list.set_map)

lemma evaluate_policy_eq:
  assumes "dict_keys finals = owner_order" "length digest = 64" "attributed owner_of roots"
    and "list_all (\<lambda>t. uci_move (py_lower t)) roots"
  shows "\<exists>v. evaluate_unanimous_verify_policy roots owner_of finals settled faults digest unanimous_policy = Inr v \<and>
    ev_digest v = digest \<and> (ds_code (ev_disposition v) = ''PROPOSED'') = (ev_move v \<noteq> None) \<and>
    ev_source v = Option.bind (ev_move v) (dict_get owner_of) \<and>
    set_option (ev_move v) = {t. faults = [] \<and> settled \<and> unanimous_on finals roots t}"
proof -
  obtain a b c where [simp]: "finals = [(''stockfish'', a), (''reckless'', b), (''lc0'', c)]"
    using assms(1) by (auto simp: owner_order_def map_eq_Cons_conv)
  have root: "check_opt_move (Some t) = Inr () \<and> (\<exists>x. dict_get owner_of t = Some x \<and> x \<in> set owner_order)"
    if "t \<in> set roots" for t
    using assms(3,4) that
    by (auto simp: attributed_def list_all_iff check_opt_move_def canonical_move_def)
  show ?thesis
  proof (cases "faults = [] \<and> settled \<and> (\<exists>t. unanimous_on finals roots t)")
    case True
    then obtain t where t: "a = Some t" "b = Some t" "c = Some t" "t \<in> set roots"
      by (auto simp: unanimous_on_def owner_order_def numeral_3_eq_3)
    with root [OF t(4)] True assms(2) show ?thesis
      by (auto simp: evaluate_unanimous_verify_policy_def owner_order_def decided_eq unanimous_on_def
        numeral_3_eq_3 check_source_def Let_def)
  next
    case False
    with assms(2) show ?thesis
      by (cases a; cases b; cases c) (auto simp: evaluate_unanimous_verify_policy_def owner_order_def
        decided_eq unanimous_on_def numeral_3_eq_3 Let_def)
  qed
qed


section \<open>From evidence to the outward move\<close>

text \<open>Evidence all of whose parts passed their checks, as every constructed object has.\<close>

definition evidence_ok :: "decision_evidence \<Rightarrow> bool" where
  "evidence_ok e \<longleftrightarrow> check_decision_evidence e = Inr e \<and> check_terminal (de_terminal e) = Inr (de_terminal e) \<and>
     list_all (\<lambda>c. check_candidate c = Inr c) (de_candidates e)"

lemma dict_of_pairs_distinct: "distinct (map fst ps) \<Longrightarrow> dict_of_pairs ps = ps"
proof -
  have "distinct (map fst (qs @ ps)) \<Longrightarrow> fold (\<lambda>(k, v). dict_set k v) ps qs = qs @ ps" for qs
  proof (induction ps arbitrary: qs)
    case (Cons x ps)
    then show ?case
      using Cons.IH [of "qs @ [x]"] by (cases x) (auto simp: dict_set_fresh)
  qed simp
  from this [of "[]"] show "distinct (map fst ps) \<Longrightarrow> dict_of_pairs ps = ps"
    by (simp add: dict_of_pairs_def)
qed

lemma owner_order_distinct: "distinct owner_order"
  by (simp add: owner_order_def)

lemma evidence_ok_facts:
  assumes "evidence_ok e"
  shows "map fst (vt_finals (de_terminal e)) = owner_order"
    and "list_all (\<lambda>t. uci_move (py_lower t)) (vt_roots (de_terminal e))"
    and "attributed (candidate_owners e) (vt_roots (de_terminal e))"
proof -
  show "map fst (vt_finals (de_terminal e)) = owner_order"
    using assms by (auto simp: evidence_ok_def check_terminal_def rbind_eq_Inr)
  have moves: "map dc_move (de_candidates e) = vt_roots (de_terminal e)" "distinct (map dc_move (de_candidates e))"
    using assms by (auto simp: evidence_ok_def check_decision_evidence_def rbind_eq_Inr Let_def)
  have checked: "uci_move (py_lower (dc_move c)) \<and> dc_owner c \<in> set owner_order" if "c \<in> set (de_candidates e)" for c
    using assms that by (auto simp: evidence_ok_def list_all_iff check_candidate_def canonical_move_def rbind_eq_Inr)
  show "list_all (\<lambda>t. uci_move (py_lower t)) (vt_roots (de_terminal e))"
    using checked by (auto simp: list_all_iff moves(1) [symmetric])
  have "candidate_owners e = map (\<lambda>c. (dc_move c, dc_owner c)) (de_candidates e)"
    using moves(2) by (simp add: candidate_owners_def dict_of_pairs_distinct comp_def)
  then have "dict_get (candidate_owners e) (dc_move c) = Some (dc_owner c)" if "c \<in> set (de_candidates e)" for c
    using moves(2) that by (auto intro!: map_of_is_SomeI simp: comp_def)
  with checked show "attributed (candidate_owners e) (vt_roots (de_terminal e))"
    by (auto simp: attributed_def moves(1) [symmetric])
qed

lemma finals_in_order:
  assumes "map fst ps = owner_order"
  shows "map (\<lambda>x. (x, the (dict_get (dict_of_pairs ps) x))) owner_order = ps"
  using assms owner_order_distinct
  by (auto simp: dict_of_pairs_distinct owner_order_def map_eq_Cons_conv)

lemma evaluate_decision_eq:
  assumes "evidence_ok e" "evidence_digest e = Inr digest"
  shows "\<exists>v. evaluate_decision_policy e unanimous_policy = Inr v \<and> ev_digest v = digest \<and>
    (ds_code (ev_disposition v) = ''PROPOSED'') = (ev_move v \<noteq> None) \<and>
    ev_source v = Option.bind (ev_move v) (dict_get (candidate_owners e)) \<and>
    set_option (ev_move v) = {t. sound_evidence e \<and>
      unanimous_on (vt_finals (de_terminal e)) (vt_roots (de_terminal e)) t}"
proof -
  have "length digest = 64" using assms(2) digest_length by (auto simp: evidence_digest_def)
  moreover note evidence_ok_facts [OF assms(1)]
  ultimately show ?thesis
    using evaluate_policy_eq [of "vt_finals (de_terminal e)" digest "candidate_owners e" "vt_roots (de_terminal e)"
        "de_feed_complete e \<and> vt_complete (de_terminal e)" "de_faults e"] assms(2)
    by (auto simp: evaluate_decision_policy_def Let_def finals_in_order sound_evidence_def conj_ac)
qed

lemma evaluate_policy_name: "evaluate_decision_policy e policy = Inr v \<Longrightarrow> policy = unanimous_policy"
  by (auto simp: evaluate_decision_policy_def evaluate_unanimous_verify_policy_def Let_def rbind_eq_Inr)

lemma decided_checked: "decided policy code reason move source digest = Inr v \<Longrightarrow> check_evaluation v = Inr v"
  unfolding decided_def rbind_eq_Inr by (metis check_same(1))

lemma evaluate_checked: "evaluate_decision_policy e policy = Inr v \<Longrightarrow> check_evaluation v = Inr v"
  by (auto simp: evaluate_decision_policy_def evaluate_unanimous_verify_policy_def Let_def rbind_eq_Inr
    intro: decided_checked split: if_splits)

lemma freeze_fields:
  "freeze_decision_proposal v ms before = Inr p \<Longrightarrow>
   pp_move p = ev_move v \<and> pp_digest p = ev_digest v \<and> pp_before_anchor p = before \<and> check_proposal p = Inr p"
  unfolding freeze_decision_proposal_def
  by (frule check_same(2)) (auto dest: check_same(2))


lemma authorize_checked: "authorize_decision p e s policy = Inr a \<Longrightarrow> check_authorization a = Inr a"
  unfolding authorize_decision_def rbind_eq_Inr Let_def by (metis check_same(4))

lemma select_checked: "select_final_decision anchor p a s mode = Inr f \<Longrightarrow> check_final f = Inr f"
  unfolding select_final_decision_def rbind_eq_Inr Let_def by (metis check_same(5))

lemma select_fields:
  "select_final_decision anchor p a s mode = Inr f \<Longrightarrow> fd_authorization f = a \<and> fd_snapshot f = s"
  by (auto simp: select_final_decision_def rbind_eq_Inr Let_def dest!: check_same(5) split: if_splits)

section \<open>Revocation\<close>

lemma check_final_again: "check_final x = Inr f \<Longrightarrow> check_final f = Inr f"
  by (metis check_same(5))

lemma revoke_checked:
  "check_final f = Inr f \<Longrightarrow> revoke_final_decision_to_anchor f reason = Inr g \<Longrightarrow> check_final g = Inr g"
  by (simp add: revoke_final_decision_to_anchor_def rbind_eq_Inr split: if_splits)
    (auto intro: check_final_again)

lemma blocked_snapshot:
  "check_snapshot s = Inr s \<Longrightarrow> check_snapshot (s\<lparr>sn_authority_blocked := b\<rparr>) = Inr (s\<lparr>sn_authority_blocked := b\<rparr>)"
  by (auto simp: check_snapshot_def rbind_eq_Inr)

lemma anchor_only_kept:
  "fd_authority f = anchor_fallback \<or> fd_authority f = anchor_control \<and> \<not> az_authorized (fd_authorization f) \<Longrightarrow>
   reason \<noteq> [] \<Longrightarrow> revoke_final_decision_to_anchor f reason = Inr f"
  by (auto simp: revoke_final_decision_to_anchor_def)

lemma revoked_eq:
  assumes "check_final f = Inr f" "check_authorization (fd_authorization f) = Inr (fd_authorization f)"
    and "check_snapshot (fd_snapshot f) = Inr (fd_snapshot f)" "reason \<noteq> []"
    and "\<not> (fd_authority f = anchor_fallback \<or> fd_authority f = anchor_control \<and> \<not> az_authorized (fd_authorization f))"
  shows "\<exists>digest. revoke_final_decision_to_anchor f reason = Inr \<lparr>
      fd_authority = (if fd_authority f = anchor_control then anchor_control else anchor_fallback),
      fd_emitted = fd_anchor f, fd_anchor = fd_anchor f, fd_proposal = fd_proposal f,
      fd_authorization = \<lparr>az_policy = az_policy (fd_authorization f), az_authorized = False, az_move = None,
        az_reason = reason, az_snapshot = digest\<rparr>,
      fd_snapshot = (fd_snapshot f)\<lparr>sn_authority_blocked := True\<rparr>, fd_evidence = fd_evidence f\<rparr>"
proof -
  obtain d where "snapshot_digest (fd_snapshot f) = Inr d"
    using assms(1) by (auto simp: check_final_def rbind_eq_Inr)
  then obtain digest where d: "snapshot_digest ((fd_snapshot f)\<lparr>sn_authority_blocked := True\<rparr>) = Inr digest"
    using snapshot_blocked_digest by blast
  then have "length digest = 64" using digest_length by (auto simp: snapshot_digest_def)
  then show ?thesis
    using assms d blocked_snapshot [OF assms(3), of True]
    by (auto simp: revoke_final_decision_to_anchor_def check_authorization_def check_final_def
      check_authority_def rbind_eq_Inr)
qed

section \<open>The text of the evidence\<close>

lemma exact_dict: "exact (PDict d) \<longleftrightarrow> list_all exact (map snd d)"
  by (auto simp: list_all_iff)

lemma exact_texts [simp]: "exact (PList (map PStr xs))" "exact (opt_text t)"
  by (auto simp: list_all_iff opt_text_def split: option.splits)

lemma key_sorted_text [simp]: "key_sorted (opt_text t) = opt_text t" "key_sorted \<circ> PStr = PStr"
  by (auto simp: opt_text_def split: option.splits)

lemma opt_text_inj [simp]: "opt_text a = opt_text b \<longleftrightarrow> a = b"
  by (auto simp: opt_text_def split: option.splits)

lemma map_PStr_inj [simp]: "map PStr xs = map PStr ys \<longleftrightarrow> xs = ys"
  by (simp add: inj_map_eq_map inj_def)

lemma candidate_dict_exact [simp]: "exact (candidate_dict c)"
  by (simp add: candidate_dict_def)

lemma candidate_dict_inj: "key_sorted (candidate_dict c) = key_sorted (candidate_dict c') \<Longrightarrow> c = c'"
  unfolding candidate_dict_def by (drule key_sorted_dict_eq) auto

lemma candidates_inj:
  "map key_sorted (map candidate_dict cs) = map key_sorted (map candidate_dict cs') \<Longrightarrow> cs = cs'"
  using candidate_dict_inj by (induction cs arbitrary: cs') (auto simp: map_eq_Cons_conv Cons_eq_map_conv)

lemma owner_dict_inj:
  assumes "key_sorted (PDict (map (\<lambda>(k, v). (k, f v)) ps)) = key_sorted (PDict (map (\<lambda>(k, v). (k, f v)) qs))"
    and "map fst ps = owner_order" "map fst qs = owner_order" "\<And>v w. key_sorted (f v) = key_sorted (f w) \<Longrightarrow> v = w"
  shows "ps = qs"
proof -
  have "map (key_sorted \<circ> snd) (map (\<lambda>(k, v). (k, f v)) ps) = map (key_sorted \<circ> snd) (map (\<lambda>(k, v). (k, f v)) qs)"
    using assms(1-3) owner_order_distinct by (intro key_sorted_dict_eq) (auto simp: comp_def case_prod_beta)
  with assms(2-4) show ?thesis
    by (auto simp: owner_order_def map_eq_Cons_conv)
qed

lemma terminal_dict_exact: "exact (terminal_dict t)"
  by (auto simp: terminal_dict_def exact_dict list_all_iff)

lemma terminal_dict_inj:
  assumes "key_sorted (terminal_dict t) = key_sorted (terminal_dict t')"
    and "map fst (vt_finals t) = owner_order" "map fst (vt_stages t) = owner_order"
    and "map fst (vt_finals t') = owner_order" "map fst (vt_stages t') = owner_order"
  shows "t = t'"
proof -
  note eq = assms(1) [unfolded terminal_dict_def, THEN key_sorted_dict_eq]
  have pairs: "dict_of_pairs ps = ps" if "map fst ps = owner_order" for ps :: "(string \<times> 'x) list"
    using that owner_order_distinct by (simp add: dict_of_pairs_distinct)
  have finals: "vt_finals t = vt_finals t'"
    using eq assms by (intro owner_dict_inj [where f = opt_text]) (auto simp: pairs)
  have stages: "vt_stages t = vt_stages t'"
    using eq assms by (intro owner_dict_inj [where f = PStr]) (auto simp: pairs)
  show ?thesis
    using eq finals stages by (auto intro!: terminal_evidence.equality)
qed

lemma evidence_dict_exact: "exact (evidence_dict e)"
  by (auto simp: evidence_dict_def exact_dict terminal_dict_exact list_all_iff)

lemma evidence_dict_inj:
  assumes "key_sorted (evidence_dict e) = key_sorted (evidence_dict e')"
    and "map fst (vt_finals (de_terminal e)) = owner_order" "map fst (vt_stages (de_terminal e)) = owner_order"
    and "map fst (vt_finals (de_terminal e')) = owner_order" "map fst (vt_stages (de_terminal e')) = owner_order"
  shows "e = e'"
proof -
  note eq = assms(1) [unfolded evidence_dict_def, THEN key_sorted_dict_eq]
  have terminal: "de_terminal e = de_terminal e'"
    using eq assms by (intro terminal_dict_inj) auto
  have candidates: "de_candidates e = de_candidates e'"
    using eq by (intro candidates_inj) auto
  show ?thesis
    using eq terminal candidates by (auto intro!: decision_evidence.equality)
qed

text \<open>The policy and the gate are total on checked values.\<close>

lemma policy_frozen:
  assumes "evidence_ok e" "evidence_digest e = Inr digest" "f_finite ms" "\<not> f_less ms (Fin 0)"
  shows "\<exists>v p. evaluate_decision_policy e unanimous_policy = Inr v \<and>
    freeze_decision_proposal v ms before = Inr p \<and> pp_digest p = digest \<and> pp_before_anchor p = before \<and>
    set_option (pp_move p) = {t. sound_evidence e \<and>
      unanimous_on (vt_finals (de_terminal e)) (vt_roots (de_terminal e)) t} \<and>
    pp_source p = Option.bind (pp_move p) (dict_get (candidate_owners e))"
proof -
  obtain v where v: "evaluate_decision_policy e unanimous_policy = Inr v" "ev_digest v = digest"
      "(ds_code (ev_disposition v) = ''PROPOSED'') = (ev_move v \<noteq> None)"
      "ev_source v = Option.bind (ev_move v) (dict_get (candidate_owners e))"
      "set_option (ev_move v) = {t. sound_evidence e \<and>
        unanimous_on (vt_finals (de_terminal e)) (vt_roots (de_terminal e)) t}"
    using evaluate_decision_eq [OF assms(1,2)] by blast
  have "check_evaluation v = Inr v"
    using v(1) by (rule evaluate_checked)
  moreover have "(ev_source v \<noteq> None) = (ev_move v \<noteq> None)"
    using v(4,5) evidence_ok_facts(3) [OF assms(1)]
    by (cases "ev_move v") (auto simp: unanimous_on_def attributed_def)
  ultimately have "freeze_decision_proposal v ms before = Inr \<lparr>pp_policy = ev_policy v,
      pp_disposition = ev_disposition v, pp_move = ev_move v, pp_source = ev_source v,
      pp_digest = ev_digest v, pp_frozen_ms = ms, pp_before_anchor = before\<rparr>"
    using v(3) assms(3,4)
    by (auto simp: freeze_decision_proposal_def check_proposal_def check_evaluation_def rbind_eq_Inr Let_def)
  with v show ?thesis by auto
qed

lemma gate_selects:
  assumes "check_proposal p = Inr p" "policy \<in> set authorization_policies" "mode \<in> set outward_modes"
    and "uci_move (py_lower anchor)" "evidence_digest e = Inr digest" "snapshot_digest s = Inr bound"
  shows "\<exists>a f. authorize_decision p e s policy = Inr a \<and> az_snapshot a = bound \<and>
    az_authorized a = gate_open p e digest s policy \<and>
    select_final_decision anchor (Some p) a s mode = Inr f \<and> check_final f = Inr f \<and>
    fd_anchor f = py_lower anchor \<and>
    Some (fd_emitted f) = (if gate_open p e digest s policy \<and> mode = hybrid_mode then pp_move p
      else Some (py_lower anchor))"
proof -
  obtain a where a: "authorize_decision p e s policy = Inr a" "az_snapshot a = bound"
      "az_authorized a = gate_open p e digest s policy"
      "az_move a = (if gate_open p e digest s policy then pp_move p else None)"
    using authorize_decision_eq [OF assms(2,1,5,6)] by force
  have "check_authorization a = Inr a"
    using a(1) by (rule authorize_checked)
  from select_final_decision_eq [OF assms(4,3,1) this, of s] a assms(6)
  obtain f where f: "select_final_decision anchor (Some p) a s mode = Inr f"
      "fd_emitted f = (if hybrid_granted a mode then the (pp_move p) else py_lower anchor)"
      "fd_anchor f = py_lower anchor"
    by auto
  moreover have "check_final f = Inr f"
    using f(1) by (rule select_checked)
  ultimately show ?thesis
    using a by (auto simp: hybrid_granted_def gate_open_def frozen_proposal_def)
qed

section \<open>A concrete search\<close>

definition example_evidence :: decision_evidence where
  "example_evidence = \<lparr>de_version = evidence_version, de_run = ''run'', de_generation = 1, de_position = ''pos'',
     de_feed_policy = ''typed_verify_refine_v1'', de_feed_digest = replicate 64 CHR ''0'', de_feed_complete = True,
     de_candidates = [\<lparr>dc_move = ''e2e4'', dc_owner = ''stockfish''\<rparr>, \<lparr>dc_move = ''d2d4'', dc_owner = ''reckless''\<rparr>,
       \<lparr>dc_move = ''g1f3'', dc_owner = ''lc0''\<rparr>],
     de_terminal = \<lparr>vt_id = ''verify'', vt_roots = [''e2e4'', ''d2d4'', ''g1f3''],
       vt_finals = [(''stockfish'', Some ''e2e4''), (''reckless'', Some ''e2e4''), (''lc0'', Some ''e2e4'')],
       vt_stages = [(''stockfish'', ''completed''), (''reckless'', ''completed''), (''lc0'', ''completed'')],
       vt_run = ''completed'', vt_complete = True, vt_faults = []\<rparr>,
     de_faults = []\<rparr>"

definition example_snapshot :: snapshot where
  "example_snapshot = \<lparr>sn_run = ''run'', sn_generation = 1, sn_position = ''pos'',
     sn_request_class = ''movetime_v0'', sn_request_eligible = True, sn_request_reason = ''eligible'',
     sn_legal_roots = [''e2e4'', ''d2d4'', ''g1f3''], sn_external_roots = [], sn_anchor_bounded = True,
     sn_anchor_reserved = True, sn_within_envelope = True, sn_within_caps = True, sn_wall_within = True,
     sn_specialist_settled = True, sn_open_specialist = 0, sn_open_solver = 0, sn_gpu_accounted = True,
     sn_measurement_enabled = True, sn_open_measurement = 0, sn_provider_available = True,
     sn_measurement_failure = False, sn_backend_current = True, sn_fallback_latched = False,
     sn_plan_id = None, sn_plan_class = None, sn_plan_generation = None, sn_plan_position = None,
     sn_plan_command = None, sn_terminal_source = None, sn_staged_complete = None,
     sn_staged_intervention = None, sn_staged_generation = None, sn_staged_roots = [],
     sn_route_action = None, sn_route_buy = None, sn_route_digest = None, sn_frozen_before_soft = None,
     sn_authority_blocked = False, sn_provenance = None, sn_grid_complete = None, sn_host_provider = None,
     sn_capacity_claim = None, sn_domain_complete = None, sn_route_allocation = None, sn_route_plan = None\<rparr>"

lemma small_int_prints: "py_str_int 0 \<noteq> None" "py_str_int 1 \<noteq> None"
  by (simp_all add: py_str_int_def show_nat.simps int_max_str_digits_def)

lemma example_evidence_ok: "evidence_ok example_evidence"
  by (simp add: evidence_ok_def example_evidence_def check_defs canonical_move_fixed owner_order_def
    file_char_def rank_char_def check_opt_move_def Let_def)

lemma example_digests:
  obtains digest bound where "evidence_digest example_evidence = Inr digest" "snapshot_digest example_snapshot = Inr bound"
proof -
  have "json_ok (evidence_dict example_evidence)"
    using small_int_prints by (simp add: example_evidence_def evidence_dict_def terminal_dict_def candidate_dict_def
      dict_of_pairs_def opt_text_def)
  moreover have "json_ok (snapshot_dict example_snapshot)"
    using small_int_prints by (simp add: example_snapshot_def snapshot_dict_def snapshot_common_def present_def
      opt_text_def opt_bool_def opt_int_def)
  ultimately show ?thesis
    using that digest_returns by (metis evidence_digest_def snapshot_digest_def)
qed

lemma example_proposal:
  "gate_open \<lparr>pp_policy = unanimous_policy, pp_disposition = \<lparr>ds_code = ''PROPOSED'', ds_reason = r\<rparr>,
     pp_move = Some ''e2e4'', pp_source = Some ''stockfish'', pp_digest = digest, pp_frozen_ms = Fin 5,
     pp_before_anchor = True\<rparr> example_evidence digest example_snapshot bounded_policy"
  by (simp add: gate_open_def frozen_proposal_def same_search_def sound_evidence_def playable_def
    resources_settled_def bounded_policy_def orchestrated_policy_def example_evidence_def example_snapshot_def)


lemma example_chain:
  obtains v p a f where "evaluate_decision_policy example_evidence unanimous_policy = Inr v"
    "freeze_decision_proposal v (Fin 5) True = Inr p"
    "authorize_decision p example_evidence example_snapshot bounded_policy = Inr a" "check_authorization a = Inr a"
    "select_final_decision ''d2d4'' (Some p) a example_snapshot hybrid_mode = Inr f" "check_final f = Inr f"
    "fd_emitted f = ''e2e4''" "fd_anchor f = ''d2d4''"
proof -
  obtain digest bound where d: "evidence_digest example_evidence = Inr digest" "snapshot_digest example_snapshot = Inr bound"
    by (rule example_digests)
  obtain v p where vp: "evaluate_decision_policy example_evidence unanimous_policy = Inr v"
      "freeze_decision_proposal v (Fin 5) True = Inr p" "pp_digest p = digest" "pp_before_anchor p"
      "set_option (pp_move p) = {t. sound_evidence example_evidence \<and>
        unanimous_on (vt_finals (de_terminal example_evidence)) (vt_roots (de_terminal example_evidence)) t}"
    using policy_frozen [OF example_evidence_ok d(1), of "Fin 5" True] by auto
  have "unanimous_on (vt_finals (de_terminal example_evidence)) (vt_roots (de_terminal example_evidence)) t \<longleftrightarrow>
      t = ''e2e4''" for t
    by (auto simp: example_evidence_def unanimous_on_def owner_order_def numeral_3_eq_3)
  moreover have "sound_evidence example_evidence"
    by (simp add: sound_evidence_def example_evidence_def)
  ultimately have move: "pp_move p = Some ''e2e4''"
    using vp(5) by (cases "pp_move p") auto
  have p: "check_proposal p = Inr p" using freeze_fields [OF vp(2)] by blast
  have "ds_code (pp_disposition p) = ''PROPOSED''"
    using p move by (auto simp: check_proposal_def rbind_eq_Inr Let_def)
  with move vp(3,4) have gate: "gate_open p example_evidence digest example_snapshot bounded_policy"
    using example_proposal by (auto simp: gate_open_def frozen_proposal_def playable_def)
  have low: "py_lower ''d2d4'' = ''d2d4''" by (simp add: file_char_def rank_char_def)
  then have "uci_move (py_lower ''d2d4'')" by (simp add: file_char_def rank_char_def)
  moreover have "bounded_policy \<in> set authorization_policies" "hybrid_mode \<in> set outward_modes"
    by (simp_all add: authorization_policies_def outward_modes_def)
  ultimately obtain a f where af: "authorize_decision p example_evidence example_snapshot bounded_policy = Inr a"
      "select_final_decision ''d2d4'' (Some p) a example_snapshot hybrid_mode = Inr f" "check_final f = Inr f"
      "fd_anchor f = ''d2d4''" "fd_emitted f = ''e2e4''"
    using gate_selects [OF p _ _ _ d, of bounded_policy hybrid_mode "''d2d4''"] gate move low by auto
  show ?thesis
    by (rule that [OF vp(1,2) af(1) authorize_checked [OF af(1)] af(2,3,5,4)])
qed

section \<open>Properties\<close>

text \<open>
  C1. A move other than the anchor's leaves the controller only on the full chain of authority:
  when evidence has been evaluated, frozen, authorised and selected and the emitted move differs from
  the anchor move, then the mode is the hybrid mode, the proposal was frozen before the anchor completed, all
  three verifiers ended on exactly this candidate, it is a qualified legal root inside the
  external searchmoves, evidence and snapshot belong to the same search, every resource is settled, and under a
  clocked policy the plan, route and staged verification are bound and the clock has not revoked authority.
\<close>

theorem hybrid_move_authorised:
  assumes "evidence_ok e" "evaluate_decision_policy e name = Inr v" "freeze_decision_proposal v ms before = Inr p"
    and "authorize_decision p e s policy = Inr a" "select_final_decision anchor (Some p) a s mode = Inr f"
    and "fd_emitted f \<noteq> fd_anchor f"
  shows "mode = hybrid_mode \<and> fd_authority f = hybrid_authority \<and> before \<and> sound_evidence e \<and>
    unanimous_on (vt_finals (de_terminal e)) (vt_roots (de_terminal e)) (fd_emitted f) \<and>
    fd_emitted f \<in> set (sn_legal_roots s) \<and>
    (sn_external_roots s = [] \<or> fd_emitted f \<in> set (sn_external_roots s)) \<and>
    same_search e s \<and> resources_settled s \<and>
    (policy = bounded_policy \<or> clock_bound e s) \<and> (policy = orchestrated_policy \<longrightarrow> orchestration_bound s)"
proof -
  obtain digest bound where digests: "evidence_digest e = Inr digest" "snapshot_digest s = Inr bound"
    and policy: "policy \<in> set authorization_policies"
    using assms(4) by (auto simp: authorize_decision_def rbind_eq_Inr Let_def)
  have p: "pp_move p = ev_move v" "pp_digest p = ev_digest v" "pp_before_anchor p = before" "check_proposal p = Inr p"
    using freeze_fields [OF assms(3)] by blast+
  obtain reason where a: "a = \<lparr>az_policy = policy, az_authorized = gate_open p e digest s policy,
      az_move = (if gate_open p e digest s policy then pp_move p else None), az_reason = reason, az_snapshot = bound\<rparr>"
    using authorize_decision_eq [OF policy p(4) digests] assms(4) by (metis sum.inject(2))
  have bind: "snapshot_digest s = Inr (az_snapshot a)" "az_authorized a \<Longrightarrow> az_move a = pp_move p"
    using digests(2) by (auto simp: a)
  have "uci_move (py_lower anchor)" "mode \<in> set outward_modes"
    using assms(5) by (auto simp: select_final_decision_def canonical_move_def rbind_eq_Inr Let_def)
  from select_final_decision_eq [OF this p(4) authorize_checked [OF assms(4)] bind] assms(5)
  have "f = \<lparr>fd_authority = (if mode \<in> set control_modes then anchor_control
       else if az_authorized a then hybrid_authority else anchor_fallback),
     fd_emitted = (if hybrid_granted a mode then the (pp_move p) else py_lower anchor),
     fd_anchor = py_lower anchor, fd_proposal = pp_move p, fd_authorization = a, fd_snapshot = s,
     fd_evidence = Some (pp_digest p)\<rparr>"
    by simp
  then have f: "fd_emitted f = (if hybrid_granted a mode then the (pp_move p) else fd_anchor f)"
      "hybrid_granted a mode \<longrightarrow> fd_authority f = hybrid_authority"
    by (auto simp: hybrid_granted_def)
  then have gate: "gate_open p e digest s policy" "mode = hybrid_mode" and granted: "hybrid_granted a mode"
    using assms(6) by (auto simp: a hybrid_granted_def split: if_splits)
  then have move: "pp_move p = Some (fd_emitted f)"
    using f(1) by (auto simp: gate_open_def frozen_proposal_def)
  have "set_option (pp_move p) = {t. sound_evidence e \<and>
      unanimous_on (vt_finals (de_terminal e)) (vt_roots (de_terminal e)) t}"
    using evaluate_decision_eq [OF assms(1) digests(1)] assms(2) evaluate_policy_name [OF assms(2)] p by auto
  with move gate f granted p show ?thesis
    by (auto simp: gate_open_def frozen_proposal_def playable_def split: if_splits)
qed

theorem hybrid_move_authorised_witness:
  "\<exists>v p a f. evaluate_decision_policy example_evidence unanimous_policy = Inr v \<and>
    freeze_decision_proposal v (Fin 5) True = Inr p \<and>
    authorize_decision p example_evidence example_snapshot bounded_policy = Inr a \<and>
    select_final_decision ''d2d4'' (Some p) a example_snapshot hybrid_mode = Inr f \<and>
    fd_emitted f \<noteq> fd_anchor f \<and> fd_authority f = hybrid_authority \<and> resources_settled example_snapshot"
proof -
  obtain v p a f where c: "evaluate_decision_policy example_evidence unanimous_policy = Inr v"
      "freeze_decision_proposal v (Fin 5) True = Inr p"
      "authorize_decision p example_evidence example_snapshot bounded_policy = Inr a"
      "select_final_decision ''d2d4'' (Some p) a example_snapshot hybrid_mode = Inr f" "fd_emitted f \<noteq> fd_anchor f"
    by (rule example_chain) auto
  from hybrid_move_authorised [OF example_evidence_ok this] c show ?thesis by blast
qed

text \<open>
  The gate and the selection after it never raise on a checked proposal, and their
  result is determined: the hybrid move goes out exactly when the gate is open in the hybrid mode,
  and the canonical anchor move in every other case.
\<close>

theorem authorise_and_select_total:
  assumes "check_proposal p = Inr p" "policy \<in> set authorization_policies" "mode \<in> set outward_modes"
    and "uci_move (py_lower anchor)" "evidence_digest e = Inr digest" "snapshot_digest s = Inr bound"
  shows "\<exists>a f. authorize_decision p e s policy = Inr a \<and> az_snapshot a = bound \<and>
    az_authorized a = gate_open p e digest s policy \<and>
    select_final_decision anchor (Some p) a s mode = Inr f \<and> check_final f = Inr f \<and>
    fd_anchor f = py_lower anchor \<and>
    Some (fd_emitted f) = (if gate_open p e digest s policy \<and> mode = hybrid_mode then pp_move p
      else Some (py_lower anchor))"
  by (rule gate_selects [OF assms])

theorem authorise_and_select_total_witness:
  "\<exists>p a f. authorize_decision p example_evidence example_snapshot bounded_policy = Inr a \<and>
    select_final_decision ''d2d4'' (Some p) a example_snapshot hybrid_mode = Inr f \<and> check_final f = Inr f"
proof -
  obtain digest bound where d: "evidence_digest example_evidence = Inr digest" "snapshot_digest example_snapshot = Inr bound"
    by (rule example_digests)
  obtain p where p: "check_proposal p = Inr p"
    by (rule example_chain) (metis freeze_fields)
  have "bounded_policy \<in> set authorization_policies" "hybrid_mode \<in> set outward_modes" "uci_move (py_lower ''d2d4'')"
    by (simp_all add: authorization_policies_def outward_modes_def file_char_def rank_char_def)
  from authorise_and_select_total [OF p this d] show ?thesis by blast
qed

text \<open>
  C2. Revocation fails closed: revoking any checked final decision returns a checked
  decision that emits the anchor move, carries no grant and no hybrid authority, keeps the proposal and
  its evidence on record, and revoking it once more changes nothing.
\<close>

theorem revocation_to_anchor:
  assumes "check_final f = Inr f" "check_authorization (fd_authorization f) = Inr (fd_authorization f)"
    and "check_snapshot (fd_snapshot f) = Inr (fd_snapshot f)" "reason \<noteq> []"
  shows "\<exists>g. revoke_final_decision_to_anchor f reason = Inr g \<and> check_final g = Inr g \<and>
    fd_emitted g = fd_anchor f \<and> fd_authority g \<in> {anchor_fallback, anchor_control} \<and>
    \<not> az_authorized (fd_authorization g) \<and> fd_proposal g = fd_proposal f \<and> fd_evidence g = fd_evidence f \<and>
    revoke_final_decision_to_anchor g reason = Inr g"
proof (cases "fd_authority f = anchor_fallback \<or> fd_authority f = anchor_control \<and> \<not> az_authorized (fd_authorization f)")
  case True
  with anchor_only_kept [OF True assms(4)] final_authority [OF assms(1)] assms(1) show ?thesis by auto
next
  case False
  from revoked_eq [OF assms False] obtain g where g: "revoke_final_decision_to_anchor f reason = Inr g"
      "fd_authority g = (if fd_authority f = anchor_control then anchor_control else anchor_fallback)"
      "fd_emitted g = fd_anchor f" "fd_proposal g = fd_proposal f" "fd_evidence g = fd_evidence f"
      "\<not> az_authorized (fd_authorization g)"
    by auto
  moreover have "check_final g = Inr g"
    using assms(1) g(1) by (rule revoke_checked)
  moreover have "revoke_final_decision_to_anchor g reason = Inr g"
    using g assms(4) by (intro anchor_only_kept) auto
  ultimately show ?thesis by auto
qed


theorem revocation_to_anchor_witness:
  "\<exists>f g. fd_authority f = hybrid_authority \<and> revoke_final_decision_to_anchor f ''stop'' = Inr g \<and> fd_emitted g = ''d2d4''"
proof -
  obtain p a f where c: "check_authorization a = Inr a"
      "select_final_decision ''d2d4'' (Some p) a example_snapshot hybrid_mode = Inr f" "check_final f = Inr f"
      "fd_emitted f = ''e2e4''" "fd_anchor f = ''d2d4''"
    by (rule example_chain)
  then have "fd_authority f = hybrid_authority" using final_authority [OF c(3)] by auto
  moreover have "fd_authorization f = a" "fd_snapshot f = example_snapshot"
    using select_fields [OF c(2)] by auto
  moreover have "check_snapshot example_snapshot = Inr example_snapshot"
    by (simp add: check_snapshot_def example_snapshot_def check_roots_def canonical_move_fixed file_char_def rank_char_def)
  ultimately show ?thesis
    using revocation_to_anchor [OF c(3), of "''stop''"] c(1,5) by auto
qed

text \<open>
  The policy is exact and total: on checked evidence that has a digest it returns an evaluation, which
  freezes into a proposal at any finite non-negative time; a move is proposed exactly when the evidence is sound and all three
  verifiers ended on that candidate, with the candidate's original owner as its source.
\<close>

theorem decision_policy_exact:
  assumes "evidence_ok e" "evidence_digest e = Inr digest" "f_finite ms" "\<not> f_less ms (Fin 0)"
  shows "\<exists>v p. evaluate_decision_policy e unanimous_policy = Inr v \<and>
    freeze_decision_proposal v ms before = Inr p \<and> pp_digest p = digest \<and> pp_before_anchor p = before \<and>
    set_option (pp_move p) = {t. sound_evidence e \<and>
      unanimous_on (vt_finals (de_terminal e)) (vt_roots (de_terminal e)) t} \<and>
    pp_source p = Option.bind (pp_move p) (dict_get (candidate_owners e))"
  by (rule policy_frozen [OF assms])

theorem decision_policy_exact_witness:
  "\<exists>v p. evaluate_decision_policy example_evidence unanimous_policy = Inr v \<and>
    freeze_decision_proposal v (Fin 5) True = Inr p"
proof -
  obtain digest where d: "evidence_digest example_evidence = Inr digest"
    by (rule example_digests)
  show ?thesis
    using decision_policy_exact [OF example_evidence_ok d, of "Fin 5" True] by auto
qed

text \<open>
  C3. The digest of the evidence is taken of a text that determines the evidence: two
  checked evidence objects with the same canonical text are equal.
\<close>

theorem evidence_text_unique:
  assumes "evidence_ok e" "evidence_ok e'" "json_text (evidence_dict e) = json_text (evidence_dict e')"
  shows "e = e'"
  using assms evidence_dict_exact json_text_inj
  by (intro evidence_dict_inj) (auto simp: evidence_ok_def check_terminal_def rbind_eq_Inr)

theorem evidence_text_unique_witness:
  "\<exists>e. evidence_ok e \<and> json_text (evidence_dict e) = json_text (evidence_dict example_evidence) \<and> e = example_evidence"
  using evidence_text_unique [OF example_evidence_ok example_evidence_ok refl] example_evidence_ok by blast

text \<open>
  Orchestration provenance survives its dictionary: reading the dictionary of any
  provenance that passed its checks gives the same provenance back.
\<close>

theorem provenance_roundtrip:
  assumes "check_provenance p = Inr p"
  shows "provenance_from_dict (provenance_dict p) = Inr p"
proof -
  have "marker_ok (PDict authority_marker)"
    by (simp add: marker_ok_def authority_marker_def value_or_none_def equals_bool_def)
  moreover have "set (dict_keys (provenance_fields p @ [(''authority'', PDict authority_marker)])) = set provenance_keys"
    by (auto simp: provenance_fields_def provenance_keys_def)
  moreover have "value_or_none (provenance_fields p @ [(''authority'', PDict authority_marker)]) ''authority'' = PDict authority_marker"
    by (simp add: provenance_fields_def value_or_none_def)
  moreover have "make_provenance (value_or_none (provenance_fields p @ [(''authority'', PDict authority_marker)])) =
      make_provenance (value_or_none (provenance_fields p))"
    by (simp add: make_provenance_def provenance_fields_def value_or_none_def digest_names_def)
  ultimately show ?thesis
    using assms by (simp add: provenance_from_dict_def provenance_dict_def check_provenance_def)
qed

definition example_provenance :: provenance where
  "example_provenance = (let d = replicate 64 CHR ''0'' in
     \<lparr>pv_version = provenance_version, pv_plan_id = ''move-plan/'' @ d, pv_plan_digest = d,
      pv_policy_digest = d, pv_decision_digest = d, pv_trace_digest = d, pv_scheduler_digest = d,
      pv_profile_digest = d, pv_composition_digest = d, pv_environment_digest = d, pv_host_digest = d,
      pv_settled = True, pv_open = 0\<rparr>)"

theorem provenance_roundtrip_witness:
  "provenance_from_dict (provenance_dict example_provenance) = Inr example_provenance"
proof (rule provenance_roundtrip)
  have "sha256_text (replicate 64 CHR ''0'')"
    by (simp add: sha256_text_def hex_char_def)
  then show "check_provenance example_provenance = Inr example_provenance"
    by (simp add: check_provenance_def make_provenance_def example_provenance_def provenance_fields_def
      value_or_none_def sha_value_def text_of_def plan_id_text_def digest_names_def Let_def)
qed

end
