(* ===== verification/Strength.thy ===== *)
theory Strength
  imports SearchRequest PyJson
begin

text \<open>
  \<^verbatim>\<open>controller/strength/contracts.py\<close>, \<^verbatim>\<open>root_frames.py\<close> and \<^verbatim>\<open>epoch.py\<close>: the bounded records of the strength
  experiments with their digest, the parser of the engine's reports, and the tracker that
  counts the epochs of the engine's leading move.
\<close>

section \<open>Bounded canonical records\<close>

datatype strength_error = Contract string | IntegerText

abbreviation need :: "bool \<Rightarrow> string \<Rightarrow> strength_error + unit" where
  "need b reason \<equiv> ensure b (Contract reason)"

definition int64_max :: int where
  "int64_max = 2 ^ 63 - 1"

text \<open>
  \<open>visit\<close>: the bounds on depth, sizes and numbers.  A dictionary tests each key
  before it visits the value.
\<close>

lemma rcheck_cong [fundef_cong]:
  "xs = ys \<Longrightarrow> (\<And>x. x \<in> set ys \<Longrightarrow> f x = g x) \<Longrightarrow> rcheck f xs = rcheck g ys"
  by (induction ys arbitrary: xs) auto

abbreviation nested :: "nat \<Rightarrow> strength_error + unit \<Rightarrow> strength_error + unit" where
  "nested depth m \<equiv> rbind (need (depth \<le> 12) ''strength record nesting exceeds bound'') (\<lambda>_. m)"

fun visit :: "nat \<Rightarrow> pyval \<Rightarrow> strength_error + unit" where
  "visit depth PNone = nested depth (Inr ())"
| "visit depth (PBool b) = nested depth (Inr ())"
| "visit depth (PStr t) = nested depth (need (length t \<le> 8192) ''strength string length cap'')"
| "visit depth (PInt i) = nested depth (need (\<bar>i\<bar> \<le> int64_max) ''strength integer outside int64'')"
| "visit depth (PFloat x) = nested depth (need (f_finite x) ''nonfinite strength value'')"
| "visit depth (PList xs) = rbind (nested depth (need (length xs \<le> 8192) ''strength list size cap''))
     (\<lambda>_. rcheck (visit (Suc depth)) xs)"
| "visit depth (PDict d) = rbind (nested depth (need (length d \<le> 256) ''strength object key cap''))
     (\<lambda>_. rcheck (\<lambda>(k, v). rbind (need (length k \<le> 100) ''invalid key'') (\<lambda>_. visit (Suc depth) v)) d)"
| "visit depth PObj = nested depth (Inl (Contract ''unsupported strength value type''))"

text \<open>
  \<open>ensure_ascii=True\<close>: a character from 127 on can only stand inside a quoted text, where
  it is written as an escape.
\<close>

definition ascii_char :: "char \<Rightarrow> string" where
  "ascii_char c = (if (of_char c :: nat) < 127 then [c]
     else CHR 0x5C # ''u00'' @ [hex_digit (of_char c div 16), hex_digit (of_char c mod 16)])"

definition canonical_text :: "pyval \<Rightarrow> strength_error + string" where
  "canonical_text v = rbind (visit 0 v) (\<lambda>_. Inr (concat (map ascii_char (json_text v))))"

definition strength_digest :: "pyval \<Rightarrow> strength_error + string" where
  "strength_digest v = rbind (canonical_text v) (\<lambda>t. Inr (sha256_hex t))"

section \<open>Identities\<close>

definition hex_text :: "nat \<Rightarrow> string \<Rightarrow> bool" where
  "hex_text n t \<longleftrightarrow> length t = n \<and> list_all hex_char t"

record turn_key =
  tk_session :: string
  tk_generation :: int
  tk_history :: string
  tk_side :: string
  tk_variant :: string
  tk_restriction :: string
  tk_nonce :: string

definition check_turn :: "turn_key \<Rightarrow> strength_error + turn_key" where
  "check_turn t =
     rbind (need (hex_text 32 (tk_session t)) ''turn session UUID must be 32 hex'') (\<lambda>_.
     rbind (need (0 < tk_generation t) ''generation must be positive integer'') (\<lambda>_.
     rbind (need (sha256_text (tk_history t)) ''full history must be SHA256'') (\<lambda>_.
     rbind (need (sha256_text (tk_restriction t)) ''external root restriction must be SHA256'') (\<lambda>_.
     rbind (need (tk_side t \<in> set [''w'', ''b''] \<and> tk_variant t = ''standard'') ''S2 supports standard chess only'') (\<lambda>_.
     rbind (need (hex_text 32 (tk_nonce t)) ''search nonce must be 128-bit lowercase hex'') (\<lambda>_. Inr t))))))"

definition turn_dict :: "turn_key \<Rightarrow> pyval" where
  "turn_dict t = PDict [
     (''schema_version'', PInt 1), (''kind'', PStr ''strength_turn_key_v1''),
     (''session_id'', PStr (tk_session t)), (''generation'', PInt (tk_generation t)),
     (''history_sha256'', PStr (tk_history t)), (''side_to_move'', PStr (tk_side t)),
     (''variant'', PStr (tk_variant t)), (''restriction_sha256'', PStr (tk_restriction t)),
     (''search_nonce'', PStr (tk_nonce t))]"

definition turn_digest :: "turn_key \<Rightarrow> strength_error + string" where
  "turn_digest t = strength_digest (turn_dict t)"

record search_identity =
  si_turn :: turn_key
  si_commit :: string
  si_profile :: string
  si_binary :: string
  si_options :: string

definition check_identity :: "search_identity \<Rightarrow> strength_error + search_identity" where
  "check_identity s =
     rbind (need (hex_text 40 (si_commit s)) ''source commit must be full literal 40-character SHA'') (\<lambda>_.
     rbind (need (sha256_text (si_profile s)) ''profile_sha256 must be SHA256'') (\<lambda>_.
     rbind (need (sha256_text (si_binary s)) ''binary_sha256 must be SHA256'') (\<lambda>_.
     rbind (need (sha256_text (si_options s)) ''options_sha256 must be SHA256'') (\<lambda>_. Inr s))))"

definition identity_dict :: "search_identity \<Rightarrow> pyval" where
  "identity_dict s = PDict [
     (''schema_version'', PInt 1), (''kind'', PStr ''strength_search_identity_v1''),
     (''turn'', turn_dict (si_turn s)), (''source_commit'', PStr (si_commit s)),
     (''profile_sha256'', PStr (si_profile s)), (''binary_sha256'', PStr (si_binary s)),
     (''options_sha256'', PStr (si_options s))]"

definition search_digest :: "search_identity \<Rightarrow> strength_error + string" where
  "search_digest s = strength_digest (identity_dict s)"

section \<open>Reports of the engine\<close>

record uci_frame =
  uf_move :: string
  uf_depth :: int
  uf_multipv :: int
  uf_nodes :: int
  uf_cp :: "int option"
  uf_mate :: "int option"
  uf_exact :: bool
  uf_bound :: "string option"
  uf_raw :: string

text \<open>\<open>INT.fullmatch\<close>: an optional sign and ASCII digits.\<close>

definition int_literal :: "string \<Rightarrow> bool" where
  "int_literal t = (let ds = (case t of c # cs \<Rightarrow> if c \<in> set ''+-'' then cs else t | [] \<Rightarrow> t)
     in ds \<noteq> [] \<and> list_all is_digit ds)"

definition parse_integer :: "string \<Rightarrow> strength_error + int" where
  "parse_integer t = (case py_int t of None \<Rightarrow> Inl IntegerText | Some i \<Rightarrow> Inr i)"

text \<open>The number after the first occurrence of a key in the tokens before \<open>pv\<close>.\<close>

definition int_after :: "string list \<Rightarrow> string \<Rightarrow> int option \<Rightarrow> strength_error + int option" where
  "int_after head key missing =
     (if key \<notin> set head then Inr missing
      else (case dropWhile (\<lambda>t. t \<noteq> key) head of
          _ # t # _ \<Rightarrow> (if int_literal t then rbind (parse_integer t) (\<lambda>i. Inr (Some i))
            else Inl (Contract ''malformed numeric info field''))
        | _ \<Rightarrow> Inl (Contract ''malformed numeric info field'')))"

definition score_bound :: "string list \<Rightarrow> string option" where
  "score_bound head = (if ''lowerbound'' \<in> set head then Some ''lowerbound''
     else if ''upperbound'' \<in> set head then Some ''upperbound'' else None)"

definition score_value :: "string list \<Rightarrow> strength_error + string \<times> int" where
  "score_value head = (case dropWhile (\<lambda>t. t \<noteq> ''score'') head of
      _ # k # t # _ \<Rightarrow>
        rbind (need (k \<in> set [''cp'', ''mate''] \<and> int_literal t) ''malformed UCI score'') (\<lambda>_.
        rbind (parse_integer t) (\<lambda>i.
        rbind (need (\<bar>i\<bar> < 1000000) ''unbounded UCI score'') (\<lambda>_. Inr (k, i))))
    | _ \<Rightarrow> Inl (Contract ''malformed UCI score''))"

text \<open>The body of the \<open>try\<close> block: \<open>Inr None\<close> is its early return.\<close>

definition parse_tokens :: "string \<Rightarrow> string list \<Rightarrow> strength_error + uci_frame option" where
  "parse_tokens line ts = (let head = takeWhile (\<lambda>t. t \<noteq> ''pv'') ts; bound = score_bound head in
     case dropWhile (\<lambda>t. t \<noteq> ''pv'') ts of
       _ # mv # _ \<Rightarrow>
         rbind (need (uci_move mv) ''malformed UCI PV root'') (\<lambda>_.
         rbind (int_after head ''depth'' None) (\<lambda>depth.
         if depth = None \<or> the depth < 1 then Inr None
         else rbind (int_after head ''multipv'' (Some 1)) (\<lambda>mpv.
         rbind (int_after head ''nodes'' (Some 0)) (\<lambda>nodes.
         rbind (need (1 \<le> the mpv \<and> the mpv \<le> 16) ''unsupported MultiPV rank'') (\<lambda>_.
         rbind (need (0 \<le> the nodes \<and> the nodes \<le> int64_max) ''bad native node count'') (\<lambda>_.
         rbind (need (\<not> (''lowerbound'' \<in> set head \<and> ''upperbound'' \<in> set head))
           ''contradictory score bound flags'') (\<lambda>_.
         rbind (if ''score'' \<in> set head then rbind (score_value head) (\<lambda>s. Inr (Some s)) else Inr None) (\<lambda>score.
         (let kept = (\<lambda>k. case score of None \<Rightarrow> None
            | Some (unit_name, i) \<Rightarrow> if unit_name = k \<and> bound = None then Some i else None) in
         Inr (Some \<lparr>uf_move = mv, uf_depth = the depth, uf_multipv = the mpv, uf_nodes = the nodes,
           uf_cp = kept ''cp'', uf_mate = kept ''mate'', uf_exact = (score \<noteq> None \<and> bound = None),
           uf_bound = bound, uf_raw = line\<rparr>))))))))))
     | _ \<Rightarrow> Inr None)"

definition parse_info :: "string \<Rightarrow> uci_frame option" where
  "parse_info line = (let ts = py_split line in
     if length line > 4096 \<or> \<not> prefix ''info '' line then None
     else if ''string'' \<in> set (take 2 (drop 1 ts)) \<or> ''pv'' \<notin> set ts then None
     else case parse_tokens line ts of Inl e \<Rightarrow> None | Inr f \<Rightarrow> f)"

text \<open>
  \<open>PairFrames\<close>: exact frames by depth and rank.  Beyond 128 depths only the 64 greatest
  are kept; the row of the report stays in the hands of the method even then.
\<close>

type_synonym frame_rows = "(int \<times> (int \<times> uci_frame) list) list"

definition prune_rows :: "frame_rows \<Rightarrow> frame_rows" where
  "prune_rows rows = (if 128 < length rows
     then (let depths = sort (map fst rows); old = take (length depths - 64) depths in
       filter (\<lambda>(d, _). d \<notin> set old) rows)
     else rows)"

definition comparable :: "uci_frame \<Rightarrow> uci_frame \<Rightarrow> bool" where
  "comparable a b \<longleftrightarrow> uf_move a \<noteq> uf_move b \<and>
     (uf_cp a \<noteq> None \<and> uf_cp b \<noteq> None \<or> uf_mate a \<noteq> None \<and> uf_mate b \<noteq> None)"

definition observe_frame :: "frame_rows \<Rightarrow> string \<Rightarrow> frame_rows \<times> (uci_frame \<times> uci_frame) option" where
  "observe_frame rows line = (case parse_info line of
     None \<Rightarrow> (rows, None)
   | Some f \<Rightarrow>
       if uf_multipv f \<notin> set [1, 2] then (rows, None)
       else (let old = (case dict_get rows (uf_depth f) of None \<Rightarrow> [] | Some r \<Rightarrow> r);
                 row = (if uf_exact f then dict_set (uf_multipv f) f old else AList.delete (uf_multipv f) old);
                 rows' = prune_rows (dict_set (uf_depth f) row rows)
             in (rows', case (dict_get row 1, dict_get row 2) of
                  (Some a, Some b) \<Rightarrow> if comparable a b then Some (a, b) else None
                | _ \<Rightarrow> None)))"

section \<open>Epochs of the incumbent\<close>

record checkpoint =
  cp_search :: string
  cp_epoch :: int
  cp_progress :: int
  cp_move :: string
  cp_depth :: int
  cp_nodes :: int
  cp_cp :: "int option"
  cp_mate :: "int option"
  cp_observed :: int

definition score_ok :: "int option \<Rightarrow> bool" where
  "score_ok v = (case v of None \<Rightarrow> True | Some i \<Rightarrow> \<bar>i\<bar> < 1000000)"

definition check_checkpoint :: "checkpoint \<Rightarrow> strength_error + checkpoint" where
  "check_checkpoint c =
     rbind (need (sha256_text (cp_search c)) ''search identity must be SHA256'') (\<lambda>_.
     rbind (need (1 \<le> cp_epoch c) ''invalid root epoch'') (\<lambda>_.
     rbind (need (0 < cp_progress c) ''progress_seq must be positive integer'') (\<lambda>_.
     rbind (need (uci_move (cp_move c)) ''invalid incumbent move'') (\<lambda>_.
     rbind (need (0 < cp_depth c) ''incumbent depth must be positive integer'') (\<lambda>_.
     rbind (need (0 \<le> cp_nodes c) ''invalid node count'') (\<lambda>_.
     rbind (need (score_ok (cp_cp c) \<and> score_ok (cp_mate c)) ''invalid score integer'') (\<lambda>_.
     rbind (need (cp_cp c = None \<or> cp_mate c = None) ''mixed mate/cp score'') (\<lambda>_.
     rbind (need (0 \<le> cp_observed c) ''invalid monotonic timestamp'') (\<lambda>_. Inr c)))))))))"

record tracker =
  tr_identity :: search_identity
  tr_roots :: "string list"
  tr_epoch :: int
  tr_progress :: int
  tr_incumbent :: "string option"
  tr_current :: "checkpoint option"
  tr_closed :: bool
  tr_seen :: nat

definition new_tracker :: "search_identity \<Rightarrow> string list \<Rightarrow> strength_error + tracker" where
  "new_tracker s roots =
     rbind (need (distinct roots) ''duplicate root restriction'') (\<lambda>_.
     Inr \<lparr>tr_identity = s, tr_roots = roots, tr_epoch = 0, tr_progress = 0, tr_incumbent = None,
       tr_current = None, tr_closed = False, tr_seen = 0\<rparr>)"

definition eligible :: "tracker \<Rightarrow> string \<Rightarrow> bool" where
  "eligible T t \<longleftrightarrow> uci_move t \<and> (tr_roots T = [] \<or> t \<in> set (tr_roots T))"

text \<open>The counters move before the checkpoint is built; a checkpoint that is refused leaves them moved.\<close>

definition advance :: "tracker \<Rightarrow> string \<Rightarrow> tracker" where
  "advance T t = T\<lparr>tr_epoch := tr_epoch T + of_bool (tr_incumbent T \<noteq> Some t),
     tr_progress := tr_progress T + 1, tr_incumbent := Some t\<rparr>"

definition place_checkpoint :: "tracker \<Rightarrow> (string \<Rightarrow> checkpoint) \<Rightarrow> tracker \<times> (strength_error + checkpoint)" where
  "place_checkpoint T build =
     raising T (search_digest (tr_identity T)) (\<lambda>digest.
     raising T (check_checkpoint (build digest)) (\<lambda>c. (T\<lparr>tr_current := Some c\<rparr>, Inr c)))"

definition frame_checkpoint :: "tracker \<Rightarrow> uci_frame \<Rightarrow> int \<Rightarrow> string \<Rightarrow> checkpoint" where
  "frame_checkpoint T f observed digest =
     \<lparr>cp_search = digest, cp_epoch = tr_epoch T, cp_progress = tr_progress T, cp_move = uf_move f,
      cp_depth = uf_depth f, cp_nodes = uf_nodes f, cp_cp = (if uf_exact f then uf_cp f else None),
      cp_mate = (if uf_exact f then uf_mate f else None), cp_observed = observed\<rparr>"

definition final_checkpoint :: "tracker \<Rightarrow> checkpoint option \<Rightarrow> string \<Rightarrow> int \<Rightarrow> string \<Rightarrow> checkpoint" where
  "final_checkpoint T previous t observed digest =
     \<lparr>cp_search = digest, cp_epoch = tr_epoch T, cp_progress = tr_progress T, cp_move = t,
      cp_depth = (case previous of None \<Rightarrow> 1 | Some c \<Rightarrow> cp_depth c),
      cp_nodes = (case previous of None \<Rightarrow> 0 | Some c \<Rightarrow> cp_nodes c),
      cp_cp = Option.bind previous cp_cp, cp_mate = Option.bind previous cp_mate, cp_observed = observed\<rparr>"

definition note_frame :: "tracker \<Rightarrow> uci_frame \<Rightarrow> int \<Rightarrow> int \<Rightarrow> tracker \<times> (strength_error + checkpoint option)" where
  "note_frame T f tok observed =
     raising T (need (\<not> tr_closed T) ''closed incumbent tracker'') (\<lambda>_.
     raising T (need (tok = tk_generation (si_turn (tr_identity T))) ''stale incumbent search token'') (\<lambda>_.
     (let T1 = T\<lparr>tr_seen := Suc (tr_seen T)\<rparr> in
      if uf_multipv f \<noteq> 1 \<or> \<not> eligible T1 (uf_move f) then (T1, Inr None)
      else raising T1 (need (0 < uf_depth f) ''missing root report depth'') (\<lambda>_.
        (let T2 = advance T1 (uf_move f) in
         map_prod id (map_sum id Some) (place_checkpoint T2 (frame_checkpoint T2 f observed)))))))"

definition terminal :: "tracker \<Rightarrow> string \<Rightarrow> int \<Rightarrow> int \<Rightarrow> tracker \<times> (strength_error + checkpoint)" where
  "terminal T t tok observed =
     raising T (need (\<not> tr_closed T) ''second terminal incumbent event'') (\<lambda>_.
     raising T (need (tok = tk_generation (si_turn (tr_identity T))) ''stale terminal search token'') (\<lambda>_.
     raising T (need (eligible T t) ''terminal bestmove is not in allowed legal-root shape/restriction'') (\<lambda>_.
     (let previous = (if tr_incumbent T = Some t then tr_current T else None); T1 = advance T t;
          (T2, r) = place_checkpoint T1 (final_checkpoint T1 previous t observed)
      in case r of Inl e \<Rightarrow> (T2, Inl e) | Inr c \<Rightarrow> (T2\<lparr>tr_closed := True\<rparr>, Inr c)))))"

definition is_current :: "tracker \<Rightarrow> int \<Rightarrow> string \<Rightarrow> int option \<Rightarrow> bool" where
  "is_current T epoch t progress \<longleftrightarrow> tr_current T \<noteq> None \<and> tr_epoch T = epoch \<and> tr_incumbent T = Some t \<and>
     (progress = None \<or> progress = Some (tr_progress T))"

section \<open>The selection\<close>

definition bestmove_line :: "string \<Rightarrow> bool" where
  "bestmove_line t \<longleftrightarrow> prefix ''bestmove '' t \<and>
     (let rest = drop 9 t; best = (\<lambda>x. uci_move x \<or> x = ''0000'') in
      case py_partition '' ponder '' rest of None \<Rightarrow> best rest | Some (x, y) \<Rightarrow> best x \<and> uci_move y)"

record final_selection =
  fs_search :: string
  fs_anchor :: string
  fs_chosen :: string
  fs_epoch :: int
  fs_replaces :: bool
  fs_authorize :: bool
  fs_mode :: string
  fs_kind :: string

definition check_selection :: "final_selection \<Rightarrow> strength_error + final_selection" where
  "check_selection s =
     rbind (need (sha256_text (fs_search s)) ''search identity must be SHA256'') (\<lambda>_.
     rbind (need (fs_kind s = ''strength_final_selection_v1'' \<and> fs_mode s = ''observe_only'')
       ''S2 permits only observe_only selection kind'') (\<lambda>_.
     rbind (need (\<not> fs_replaces s) ''S2 may not replace anchor'') (\<lambda>_.
     rbind (need (\<not> fs_authorize s) ''S2 may not claim authorization'') (\<lambda>_.
     rbind (need (fs_chosen s = fs_anchor s \<and> bestmove_line (fs_anchor s) \<and> fs_anchor s \<noteq> ''bestmove 0000'')
       ''S2 must publish real anchor bestmove'') (\<lambda>_.
     rbind (need (1 \<le> fs_epoch s) ''missing incumbent epoch'') (\<lambda>_. Inr s))))))"

definition selection_dict :: "final_selection \<Rightarrow> pyval" where
  "selection_dict s = PDict [
     (''schema_version'', PInt 1), (''kind'', PStr (fs_kind s)), (''mode'', PStr (fs_mode s)),
     (''search_digest'', PStr (fs_search s)), (''anchor_line'', PStr (fs_anchor s)),
     (''chosen_line'', PStr (fs_chosen s)), (''incumbent_epoch'', PInt (fs_epoch s)),
     (''replaces_anchor'', PBool False), (''would_authorize'', PBool False)]"

section \<open>A concrete identity\<close>

definition sample_search :: search_identity where
  "sample_search = \<lparr>si_turn = \<lparr>tk_session = replicate 32 (CHR ''a''), tk_generation = 1,
       tk_history = replicate 64 (CHR ''b''), tk_side = ''w'', tk_variant = ''standard'',
       tk_restriction = replicate 64 (CHR ''c''), tk_nonce = replicate 32 (CHR ''d'')\<rparr>,
     si_commit = replicate 40 (CHR ''1''), si_profile = replicate 64 (CHR ''2''),
     si_binary = replicate 64 (CHR ''3''), si_options = replicate 64 (CHR ''4'')\<rparr>"

end
