(* ===== verification/AuxScheduler.thy ===== *)
theory AuxScheduler
  imports Strength Budget
begin

text \<open>
  \<^verbatim>\<open>controller/strength/scheduler.py\<close>: one auxiliary slot, paid for out of the budget ledger of the
  move.  The comparator is reserved before the proposer, the two run one after the
  other, and every way out settles or releases what is still reserved.  The ledger is shared
  with the rest of the controller, whose operations are steps of their own.
\<close>

section \<open>Costs and tasks\<close>

record phase_mapping =
  ph_family :: string
  ph_phase :: string
  ph_purpose :: string

definition aux_phases :: "(string \<times> phase_mapping) list" where
  "aux_phases = [
     (''PROPOSE_LC0'', \<lparr>ph_family = ''lc0'', ph_phase = ''EXPLORE'', ph_purpose = ''solver''\<rparr>),
     (''PROPOSE_RECKLESS'', \<lparr>ph_family = ''reckless'', ph_phase = ''EXPLORE'', ph_purpose = ''solver''\<rparr>),
     (''COMPARE_PAIR'', \<lparr>ph_family = ''stockfish'', ph_phase = ''VERIFY'', ph_purpose = ''verify''\<rparr>),
     (''COMPARE_REFINE'', \<lparr>ph_family = ''stockfish'', ph_phase = ''STAGED_VERIFY'', ph_purpose = ''verify''\<rparr>)]"

definition aux_actions :: "string list" where
  "aux_actions = [''NONE'', ''LC0_ONLY'', ''RECKLESS_ONLY'']"

definition positive_quantity :: "pyfloat \<Rightarrow> bool" where
  "positive_quantity x \<longleftrightarrow> f_finite x \<and> f_less (Fin 0) x \<and> f_le x (Fin (10 ^ 9))"

record cost_observation =
  co_role :: string
  co_commit :: string
  co_profile :: string
  co_host :: string
  co_evidence :: string
  co_limit :: int
  co_semantics :: string
  co_cpu :: pyfloat
  co_gpu :: pyfloat
  co_wall :: pyfloat
  co_memory :: int
  co_review :: string

definition check_cost :: "cost_observation \<Rightarrow> strength_error + cost_observation" where
  "check_cost c =
     rbind (need (co_role c \<in> set [''PROPOSE_LC0'', ''PROPOSE_RECKLESS'', ''COMPARE_PAIR''])
       ''S3-A supports only one proposer + one first-round comparator'') (\<lambda>_.
     rbind (need (hex_text 40 (co_commit c)) ''S3 cost source commit invalid'') (\<lambda>_.
     rbind (need (sha256_text (co_profile c)) ''S3 profile_sha256 must be full lowercase SHA256'') (\<lambda>_.
     rbind (need (sha256_text (co_host c)) ''S3 host_domain_sha256 must be full lowercase SHA256'') (\<lambda>_.
     rbind (need (sha256_text (co_evidence c)) ''S3 evidence_sha256 must be full lowercase SHA256'') (\<lambda>_.
     rbind (need (case dict_get aux_phases (co_role c) of None \<Rightarrow> False
         | Some m \<Rightarrow> co_semantics c = ph_family m @ ''.uci_nodes'' \<and> 1 \<le> co_limit c \<and> co_limit c \<le> 2 ^ 48)
       ''S3 cost native-limit semantics mismatch'') (\<lambda>_.
     rbind (need (positive_quantity (co_cpu c)) ''S3 reserved_cpu_ms must be positive finite physical quantity'') (\<lambda>_.
     rbind (need (f_finite (co_gpu c) \<and> f_le (Fin 0) (co_gpu c) \<and> f_le (co_gpu c) (Fin (10 ^ 9)))
       ''S3 GPU reservation invalid'') (\<lambda>_.
     rbind (need (positive_quantity (co_wall c)) ''S3 wall_bound_ms must be positive finite physical quantity'') (\<lambda>_.
     rbind (need (0 < co_memory c) ''S3 helper memory needs measurement'') (\<lambda>_.
     rbind (need (co_review c \<in> set [''SOURCE_TEST_FIXTURE'', ''INDEPENDENTLY_REVIEWED''])
       ''S3 cost must be source-test or independently reviewed'') (\<lambda>_. Inr c)))))))))))"

definition cost_dict :: "cost_observation \<Rightarrow> pyval" where
  "cost_dict c = PDict [
     (''schema_version'', PInt 1), (''kind'', PStr ''strength_cost_observation_v1''),
     (''semantic_role'', PStr (co_role c)), (''source_commit'', PStr (co_commit c)),
     (''profile_sha256'', PStr (co_profile c)), (''host_domain_sha256'', PStr (co_host c)),
     (''evidence_sha256'', PStr (co_evidence c)), (''native_limit'', PInt (co_limit c)),
     (''native_semantics'', PStr (co_semantics c)), (''reserved_cpu_ms'', PFloat (co_cpu c)),
     (''reserved_gpu_ms'', PFloat (co_gpu c)), (''wall_bound_ms'', PFloat (co_wall c)),
     (''memory_peak_bytes'', PInt (co_memory c)), (''review_status'', PStr (co_review c)),
     (''authority'', PDict [(''move'', PBool False), (''dispatch'', PBool False),
       (''strength_qualified'', PBool False)])]"

record aux_task =
  ta_search :: search_identity
  ta_role :: string
  ta_epoch :: int
  ta_cost :: cost_observation

text \<open>The slot of a task is the default \<open>0\<close> everywhere in the source.\<close>

definition check_task :: "aux_task \<Rightarrow> strength_error + aux_task" where
  "check_task t =
     rbind (need (0 < ta_epoch t) ''S3 invalid incumbent epoch'') (\<lambda>_.
     rbind (need (ta_role t = co_role (ta_cost t) \<and> ta_role t \<in> set (dict_keys aux_phases))
       ''S3 only one leased slot exists'') (\<lambda>_.
     rbind (need (co_commit (ta_cost t) = si_commit (ta_search t) \<and> co_profile (ta_cost t) = si_profile (ta_search t))
       ''S3 task cost source/profile differs from incumbent'') (\<lambda>_. Inr t)))"

definition task_dict :: "aux_task \<Rightarrow> string \<Rightarrow> pyval" where
  "task_dict t turn = (let m = the (dict_get aux_phases (ta_role t)) in PDict [
     (''schema_version'', PInt 1), (''kind'', PStr ''strength_semantic_task_v1''),
     (''anchor_search'', identity_dict (ta_search t)), (''turn_digest'', PStr turn),
     (''root_epoch'', PInt (ta_epoch t)), (''semantic_role'', PStr (ta_role t)),
     (''native_family'', PStr (ph_family m)), (''legacy_phase_mapping'', PStr (ph_phase m)),
     (''ledger_purpose_mapping'', PStr (ph_purpose m)), (''slot'', PInt 0),
     (''cost'', cost_dict (ta_cost t)),
     (''authority'', PDict [(''work_dispatch'', PBool False), (''outward_move'', PBool False),
       (''comparison_quality'', PBool False)])])"

definition task_digest :: "aux_task \<Rightarrow> strength_error + string" where
  "task_digest t = rbind (turn_digest (si_turn (ta_search t))) (\<lambda>turn. strength_digest (task_dict t turn))"

section \<open>State\<close>

datatype aux_error = Strength strength_error | Ledger budget_error | SlackOverflow

datatype aux_phase = Idle | Denied | Reserved | ProposerActive | ProposerSettled | ComparatorActive | Done | Aborted

datatype aux_role = Propose | Compare

datatype aux_event =
    DenyEvent string
  | PreparedEvent string nat nat string string
  | StartedEvent aux_role string
  | SettledEvent aux_role bool bool bool
  | AbortEvent string
  | ClosedEvent aux_phase

record aux =
  ax_search :: search_identity
  ax_ledger :: budget_ledger
  ax_epoch :: int
  ax_host :: string
  ax_memory :: int
  ax_anchor_memory :: int
  ax_cleanup :: pyfloat
  ax_fixture :: bool
  ax_action :: string
  ax_state :: aux_phase
  ax_reason :: string
  ax_proposer :: "aux_task option"
  ax_comparator :: "aux_task option"
  ax_prop_res :: "reservation option"
  ax_comp_res :: "reservation option"
  ax_prop_settled :: bool
  ax_comp_settled :: bool
  ax_failure :: bool
  ax_active :: "aux_role option"
  ax_events :: "(nat \<times> aux_event) list"

definition new_aux :: "search_identity \<Rightarrow> budget_ledger \<Rightarrow> int \<Rightarrow> string \<Rightarrow> int \<Rightarrow> int \<Rightarrow> pyfloat \<Rightarrow> bool \<Rightarrow>
    strength_error + aux" where
  "new_aux s B epoch host memory anchor cleanup fixture =
     rbind (need (0 < epoch) ''S3 scheduler requires anchor identity, physical ledger and epoch'') (\<lambda>_.
     rbind (need (sha256_text host) ''S3 host domain must be full lowercase SHA256'') (\<lambda>_.
     rbind (need (0 < memory \<and> 0 \<le> anchor \<and> anchor \<le> memory) ''S3 invalid whole-participant memory envelope'') (\<lambda>_.
     rbind (need (positive_quantity cleanup) ''S3 cleanup guard must be positive finite physical quantity'') (\<lambda>_.
     Inr \<lparr>ax_search = s, ax_ledger = B, ax_epoch = epoch, ax_host = host, ax_memory = memory,
       ax_anchor_memory = anchor, ax_cleanup = cleanup, ax_fixture = fixture, ax_action = ''NONE'',
       ax_state = Idle, ax_reason = ''DEFAULT_NONE'', ax_proposer = None, ax_comparator = None,
       ax_prop_res = None, ax_comp_res = None, ax_prop_settled = False, ax_comp_settled = False,
       ax_failure = False, ax_active = None, ax_events = []\<rparr>))))"

section \<open>Operations\<close>

definition note_event :: "aux_event \<Rightarrow> aux \<Rightarrow> aux" where
  "note_event e A = A\<lparr>ax_events := ax_events A @ [(Suc (length (ax_events A)), e)]\<rparr>"

definition deny_plan :: "string \<Rightarrow> aux \<Rightarrow> aux \<times> (aux_error + string)" where
  "deny_plan reason A = (note_event (DenyEvent reason) (A\<lparr>ax_reason := reason\<rparr>), Inr ''NONE'')"

text \<open>A check of this class, and a call of the shared ledger, inside an operation.\<close>

definition checked :: "aux \<Rightarrow> strength_error + 'a \<Rightarrow> ('a \<Rightarrow> aux \<times> (aux_error + 'r)) \<Rightarrow> aux \<times> (aux_error + 'r)" where
  "checked A m k = raising A (map_sum Strength id m) k"

definition on_ledger :: "aux \<Rightarrow> budget_ledger \<times> (budget_error + 'a) \<Rightarrow> (aux \<Rightarrow> 'a \<Rightarrow> aux \<times> (aux_error + 'r)) \<Rightarrow>
    aux \<times> (aux_error + 'r)" where
  "on_ledger A call k = (let A1 = A\<lparr>ax_ledger := fst call\<rparr> in
     case snd call of Inl e \<Rightarrow> (A1, Inl (Ledger e)) | Inr v \<Rightarrow> k A1 v)"

definition cost_denial :: "aux \<Rightarrow> cost_observation \<Rightarrow> string option" where
  "cost_denial A c =
     (if co_commit c \<noteq> si_commit (ax_search A) \<or> co_profile c \<noteq> si_profile (ax_search A) \<or> co_host c \<noteq> ax_host A
      then Some ''COST_OR_HOST_DOMAIN_MISMATCH''
      else if co_review c \<noteq> ''INDEPENDENTLY_REVIEWED'' \<and> \<not> (ax_fixture A \<and> co_review c = ''SOURCE_TEST_FIXTURE'')
      then Some ''COST_NOT_INDEPENDENTLY_REVIEWED'' else None)"

text \<open>
  The native slack as a float, or nothing when its type or value is refused;
  \<open>math.isfinite\<close> raises on an integer beyond the float range.
\<close>

definition native_slack :: "pyval \<Rightarrow> aux_error + pyfloat option" where
  "native_slack v = (case as_float v of
     None \<Rightarrow> Inr None
   | Some None \<Rightarrow> Inl SlackOverflow
   | Some (Some x) \<Rightarrow> Inr (if f_finite x \<and> f_less (Fin 0) x then Some x else None))"

definition wanted_role :: "string \<Rightarrow> string" where
  "wanted_role action = (if action = ''LC0_ONLY'' then ''PROPOSE_LC0'' else ''PROPOSE_RECKLESS'')"

text \<open>The tests before any money is committed; \<open>None\<close> is admission.\<close>

definition plan_denial :: "aux \<Rightarrow> string \<Rightarrow> cost_observation \<Rightarrow> cost_observation \<Rightarrow> pyval \<Rightarrow> pyfloat \<Rightarrow> aux_error + string option" where
  "plan_denial A action p c slack clock =
     (if co_role p \<noteq> wanted_role action \<or> co_role c \<noteq> ''COMPARE_PAIR'' then Inr (Some ''COST_TASK_FAMILY_MISMATCH'')
      else if cost_denial A p \<noteq> None then Inr (cost_denial A p)
      else if cost_denial A c \<noteq> None then Inr (cost_denial A c)
      else rbind (native_slack slack) (\<lambda>v. Inr (case v of
          None \<Rightarrow> Some ''INVALID_NATIVE_SLACK''
        | Some x \<Rightarrow> (let wall = f_add (f_add (co_wall p) (co_wall c)) (ax_cleanup A) in
            if f_less x wall \<or> f_less (wall_remaining_ms (ax_ledger A) clock) wall
            then Some ''COMPARISON_NO_LONGER_FEASIBLE''
            else if ax_memory A < ax_anchor_memory A + max (co_memory p) (co_memory c)
            then Some ''MEMORY_OUTSIDE_ENVELOPE'' else None))))"

definition reserve_cost :: "budget_ledger \<Rightarrow> string \<Rightarrow> cost_observation \<Rightarrow> string \<Rightarrow> budget_ledger \<times> (budget_error + reservation)" where
  "reserve_cost B lane c purpose = reserve B lane (PFloat (co_cpu c)) (PFloat (co_gpu c)) purpose PNone PNone PNone"

text \<open>
  The two reservations, comparator first.  A refused proposer gives the comparator's
  reservation back, which cannot raise for these lanes; any exception of the ledger is answered by a denial.
\<close>

definition reserve_pair :: "cost_observation \<Rightarrow> cost_observation \<Rightarrow> aux \<Rightarrow> aux \<times> bool" where
  "reserve_pair p c A =
     (case reserve_cost (ax_ledger A) ''strength-s3-compare'' c ''verify'' of
        (B1, Inl e) \<Rightarrow> (A\<lparr>ax_ledger := B1\<rparr>, False)
      | (B1, Inr cr) \<Rightarrow>
          (case reserve_cost B1 ''strength-s3-propose'' p ''solver'' of
             (B2, Inl e) \<Rightarrow> (A\<lparr>ax_ledger := fst (release B2 cr)\<rparr>, False)
           | (B2, Inr pr) \<Rightarrow> (A\<lparr>ax_ledger := B2, ax_comp_res := Some cr, ax_prop_res := Some pr\<rparr>, True)))"

definition make_task :: "aux \<Rightarrow> string \<Rightarrow> cost_observation \<Rightarrow> strength_error + aux_task" where
  "make_task A role c = check_task \<lparr>ta_search = ax_search A, ta_role = role, ta_epoch = ax_epoch A, ta_cost = c\<rparr>"

definition prepare_admitted :: "string \<Rightarrow> cost_observation \<Rightarrow> cost_observation \<Rightarrow> aux \<Rightarrow> aux \<times> (aux_error + string)" where
  "prepare_admitted action p c A =
     checked A (make_task A (wanted_role action) p) (\<lambda>pt.
     (let A1 = A\<lparr>ax_proposer := Some pt\<rparr> in
      checked A1 (make_task A1 ''COMPARE_PAIR'' c) (\<lambda>ct.
      (let (A3, ok) = reserve_pair p c (A1\<lparr>ax_comparator := Some ct\<rparr>) in
       if \<not> ok then deny_plan ''LEDGER_ADMISSION_DENIED'' (A3\<lparr>ax_proposer := None, ax_comparator := None\<rparr>)
       else (let A4 = A3\<lparr>ax_state := Reserved, ax_action := action, ax_reason := ''RESOURCE_PREPARED_ONLY''\<rparr> in
         checked A4 (task_digest ct) (\<lambda>cd. checked A4 (task_digest pt) (\<lambda>pd.
         (note_event (PreparedEvent action (rv_id (the (ax_comp_res A4))) (rv_id (the (ax_prop_res A4))) cd pd) A4,
          Inr action))))))))"

definition prepare :: "string \<Rightarrow> cost_observation option \<Rightarrow> cost_observation option \<Rightarrow> int \<Rightarrow> pyval \<Rightarrow> pyfloat \<Rightarrow>
    aux \<Rightarrow> aux \<times> (aux_error + string)" where
  "prepare action proposer comparator epoch slack clock A =
     checked A (need (ax_state A = Idle) ''S3 plan already used; never retry one turn'') (\<lambda>_.
     (let A1 = A\<lparr>ax_state := Denied\<rparr> in
      checked A1 (need (action \<in> set aux_actions) ''unknown S3 action'') (\<lambda>_.
      checked A1 (need (epoch = ax_epoch A1) ''S3 stale incumbent epoch'') (\<lambda>_.
      if action = ''NONE'' then deny_plan ''POLICY_NONE'' A1
      else (case (proposer, comparator) of
          (Some p, Some c) \<Rightarrow>
            raising A1 (plan_denial A1 action p c slack clock) (\<lambda>denial.
            case denial of
               Some reason \<Rightarrow> deny_plan reason A1
             | None \<Rightarrow> prepare_admitted action p c A1)
        | _ \<Rightarrow> deny_plan ''NO_MEASURED_COST_PROFILE'' A1)))))"

definition assert_current :: "aux \<Rightarrow> turn_key \<Rightarrow> int \<Rightarrow> strength_error + unit" where
  "assert_current A turn epoch =
     need (turn = si_turn (ax_search A) \<and> epoch = ax_epoch A \<and> \<not> ax_failure A) ''S3 stale generation/nonce or terminated task''"

definition begin_proposer :: "turn_key \<Rightarrow> int \<Rightarrow> aux \<Rightarrow> aux \<times> (aux_error + aux_task)" where
  "begin_proposer turn epoch A =
     checked A (assert_current A turn epoch) (\<lambda>_.
     checked A (need (ax_state A = Reserved \<and> ax_active A = None) ''S3 proposer slot already occupied/closed'') (\<lambda>_.
     (let A1 = A\<lparr>ax_state := ProposerActive, ax_active := Some Propose\<rparr>; t = the (ax_proposer A1) in
      checked A1 (task_digest t) (\<lambda>d. (note_event (StartedEvent Propose d) A1, Inr t)))))"

definition begin_comparator :: "turn_key \<Rightarrow> int \<Rightarrow> aux \<Rightarrow> aux \<times> (aux_error + aux_task)" where
  "begin_comparator turn epoch A =
     checked A (assert_current A turn epoch) (\<lambda>_.
     checked A (need (ax_state A = ProposerSettled \<and> ax_prop_settled A \<and> ax_active A = None \<and> ax_comp_res A \<noteq> None)
       ''S3 comparator cannot overlap proposer or unreserved work'') (\<lambda>_.
     (let A1 = A\<lparr>ax_state := ComparatorActive, ax_active := Some Compare\<rparr>; t = the (ax_comparator A1) in
      checked A1 (task_digest t) (\<lambda>d. (note_event (StartedEvent Compare d) A1, Inr t)))))"

definition measured_source :: "pyval \<Rightarrow> string option" where
  "measured_source v = Some (if v = PNone then ''declared_fallback'' else ''measured'')"

definition settle_cost :: "budget_ledger \<Rightarrow> reservation \<Rightarrow> pyval \<Rightarrow> pyval \<Rightarrow> budget_ledger \<times> (budget_error + unit)" where
  "settle_cost B r cpu gpu = settle B r cpu gpu (measured_source cpu) (measured_source gpu)"

text \<open>Closing what is held: a started task is settled at its declared cost, another one is released.\<close>

definition close_held :: "aux_role \<Rightarrow> aux \<Rightarrow> reservation \<Rightarrow> budget_ledger \<times> (budget_error + unit)" where
  "close_held role A r =
     (if ax_active A = Some role then settle_cost (ax_ledger A) r PNone PNone else release (ax_ledger A) r)"

definition abort_finish :: "string \<Rightarrow> aux \<Rightarrow> aux \<times> (aux_error + unit)" where
  "abort_finish reason A = (note_event (AbortEvent (take 100 reason))
     (A\<lparr>ax_state := Aborted, ax_failure := True, ax_active := None, ax_reason := take 100 reason\<rparr>), Inr ())"

definition abort_comparator :: "string \<Rightarrow> aux \<Rightarrow> aux \<times> (aux_error + unit)" where
  "abort_comparator reason A = (case ax_comp_res A of
     None \<Rightarrow> abort_finish reason A
   | Some r \<Rightarrow> on_ledger A (close_held Compare A r) (\<lambda>A1 _. abort_finish reason (A1\<lparr>ax_comp_res := None\<rparr>)))"

definition abort :: "string \<Rightarrow> aux \<Rightarrow> aux \<times> (aux_error + unit)" where
  "abort reason A =
     (if ax_state A \<in> {Aborted, Denied, Done} then (A, Inr ())
      else (case ax_prop_res A of
          None \<Rightarrow> abort_comparator reason A
        | Some r \<Rightarrow> on_ledger A (close_held Propose A r)
            (\<lambda>A1 _. abort_comparator reason (A1\<lparr>ax_prop_res := None\<rparr>))))"

definition exceeds :: "pyval \<Rightarrow> pyfloat \<Rightarrow> bool" where
  "exceeds v limit = (case v of
     PInt i \<Rightarrow> (case limit of Fin q \<Rightarrow> q < of_int i | _ \<Rightarrow> False)
   | PFloat x \<Rightarrow> f_less limit x | _ \<Rightarrow> False)"

definition measured :: "cost_observation \<Rightarrow> pyval \<Rightarrow> pyval \<Rightarrow> bool" where
  "measured c cpu gpu \<longleftrightarrow> cpu \<noteq> PNone \<and> (co_gpu c = Fin 0 \<or> gpu \<noteq> PNone)"

definition settle_proposer :: "turn_key \<Rightarrow> int \<Rightarrow> pyval \<Rightarrow> pyval \<Rightarrow> bool \<Rightarrow> aux \<Rightarrow> aux \<times> (aux_error + unit)" where
  "settle_proposer turn epoch cpu gpu succeeded A =
     checked A (assert_current A turn epoch) (\<lambda>_.
     checked A (need (ax_state A = ProposerActive \<and> ax_active A = Some Propose \<and> ax_prop_res A \<noteq> None)
       ''S3 proposer not active'') (\<lambda>_.
     on_ledger A (settle_cost (ax_ledger A) (the (ax_prop_res A)) cpu gpu) (\<lambda>A1 _.
     (let c = ta_cost (the (ax_proposer A1)); over = exceeds cpu (co_cpu c); known = measured c cpu gpu;
          A2 = note_event (SettledEvent Propose succeeded known over)
            (A1\<lparr>ax_prop_res := None, ax_prop_settled := True, ax_active := None\<rparr>)
      in if \<not> succeeded \<or> \<not> known \<or> over then abort ''PROPOSER_FAILED_OR_UNMEASURED'' A2
         else (A2\<lparr>ax_state := ProposerSettled\<rparr>, Inr ())))))"

definition settle_comparator :: "turn_key \<Rightarrow> int \<Rightarrow> pyval \<Rightarrow> pyval \<Rightarrow> bool \<Rightarrow> aux \<Rightarrow> aux \<times> (aux_error + unit)" where
  "settle_comparator turn epoch cpu gpu succeeded A =
     checked A (assert_current A turn epoch) (\<lambda>_.
     checked A (need (ax_state A = ComparatorActive \<and> ax_active A = Some Compare \<and> ax_comp_res A \<noteq> None)
       ''S3 comparator not active'') (\<lambda>_.
     on_ledger A (settle_cost (ax_ledger A) (the (ax_comp_res A)) cpu gpu) (\<lambda>A1 _.
     (let c = ta_cost (the (ax_comparator A1)); over = exceeds cpu (co_cpu c); known = measured c cpu gpu;
          A2 = note_event (SettledEvent Compare succeeded known over)
            (A1\<lparr>ax_comp_res := None, ax_comp_settled := True, ax_active := None\<rparr>)
      in if \<not> succeeded \<or> \<not> known \<or> over then abort ''COMPARATOR_FAILED_OR_UNMEASURED'' A2
         else (A2\<lparr>ax_state := Done, ax_reason := ''SOURCE_ONLY_NO_COMPARISON_AUTHORITY''\<rparr>, Inr ())))))"

definition incumbent_changed :: "turn_key \<Rightarrow> int \<Rightarrow> aux \<Rightarrow> aux \<times> (aux_error + unit)" where
  "incumbent_changed turn epoch A =
     checked A (need (turn = si_turn (ax_search A)) ''foreign turn cannot mutate strength reservation'') (\<lambda>_.
     checked A (need (ax_epoch A \<le> epoch) ''incumbent epoch cannot regress'') (\<lambda>_.
     if epoch = ax_epoch A then (A, Inr ())
     else (case abort ''INCUMBENT_EPOCH_STALE'' A of
         (A1, Inl e) \<Rightarrow> (A1, Inl e)
       | (A1, Inr _) \<Rightarrow> (A1\<lparr>ax_epoch := epoch\<rparr>, Inr ()))))"

definition finish :: "aux \<Rightarrow> aux \<times> (aux_error + unit)" where
  "finish A =
     (case (if ax_state A \<in> {Reserved, ProposerActive, ProposerSettled, ComparatorActive}
            then abort ''ANCHOR_TERMINAL_OR_STOP'' A else (A, Inr ())) of
        (A1, Inl e) \<Rightarrow> (A1, Inl e)
      | (A1, Inr _) \<Rightarrow>
          (let A2 = (if ax_state A1 = Idle then A1\<lparr>ax_state := Denied, ax_reason := ''NEVER_PLANNED''\<rparr> else A1)
           in (note_event (ClosedEvent (ax_state A2)) A2, Inr ())))"

section \<open>Steps\<close>

text \<open>
  A call of the scheduler, or an operation of the rest of the controller on the shared
  ledger.  The others use other lanes, and they cannot close a reservation they do not hold.
\<close>

datatype aux_op =
    XPrepare string "cost_observation option" "cost_observation option" int pyval pyfloat
  | XBeginProposer turn_key int
  | XSettleProposer turn_key int pyval pyval bool
  | XBeginComparator turn_key int
  | XSettleComparator turn_key int pyval pyval bool
  | XAbort string
  | XIncumbent turn_key int
  | XFinish
  | XLedger budget_op

definition aux_lanes :: "string list" where
  "aux_lanes = [''strength-s3-compare'', ''strength-s3-propose'']"

definition aux_held :: "aux \<Rightarrow> reservation list" where
  "aux_held A = (case ax_comp_res A of None \<Rightarrow> [] | Some r \<Rightarrow> [r]) @
     (case ax_prop_res A of None \<Rightarrow> [] | Some r \<Rightarrow> [r])"

fun foreign :: "aux \<Rightarrow> budget_op \<Rightarrow> bool" where
  "foreign A (OReserve lane cpu gpu purpose grant profile decision) = (lane \<notin> set aux_lanes)"
| "foreign A (OSettle r cpu gpu cs gs) = (rv_id r \<notin> rv_id ` set (aux_held A))"
| "foreign A (ORelease r) = (rv_id r \<notin> rv_id ` set (aux_held A))"
| "foreign A x = True"

fun aux_step :: "aux \<Rightarrow> aux_op \<Rightarrow> aux \<times> (aux_error + unit)" where
  "aux_step A (XPrepare action p c epoch slack clock) =
     map_prod id (map_sum id (\<lambda>_. ())) (prepare action p c epoch slack clock A)"
| "aux_step A (XBeginProposer turn epoch) = map_prod id (map_sum id (\<lambda>_. ())) (begin_proposer turn epoch A)"
| "aux_step A (XSettleProposer turn epoch cpu gpu ok) = settle_proposer turn epoch cpu gpu ok A"
| "aux_step A (XBeginComparator turn epoch) = map_prod id (map_sum id (\<lambda>_. ())) (begin_comparator turn epoch A)"
| "aux_step A (XSettleComparator turn epoch cpu gpu ok) = settle_comparator turn epoch cpu gpu ok A"
| "aux_step A (XAbort reason) = abort reason A"
| "aux_step A (XIncumbent turn epoch) = incumbent_changed turn epoch A"
| "aux_step A XFinish = finish A"
| "aux_step A (XLedger x) =
     (if foreign A x then (A\<lparr>ax_ledger := fst (budget_step (ax_ledger A) x)\<rparr>, Inr ()) else (A, Inr ()))"

end
