(* ===== verification/AuxLaws.thy ===== *)
theory AuxLaws
  imports AuxScheduler
begin

text \<open>
  Laws of the auxiliary scheduler: every call is a run of the shared budget ledger, an
  invariant ties the open reservations on its lanes to what its state holds, the phases only
  move forward, and an admission is paid for in advance.
\<close>

section \<open>What a ledger call does to the open reservations\<close>

lemma reserve_open:
  "reserve B lane cpu gpu purpose g pr d = (B', Inr r) \<Longrightarrow>
   bl_open B' = dict_set (rv_id r) r (bl_open B) \<and> rv_id r = bl_next_id B \<and> rv_lane r = lane \<and>
     rv_purpose r = purpose"
  by (auto simp: reserve_def raising_def book_def append_journal_def Let_def split: sum.splits if_splits)

lemma reserve_denied: "reserve B lane cpu gpu purpose g pr d = (B', Inl e) \<Longrightarrow> bl_open B' = bl_open B"
  by (auto simp: reserve_def raising_def deny_def Let_def split: sum.splits if_splits)

definition closable :: "budget_ledger \<Rightarrow> reservation \<Rightarrow> bool" where
  "closable B r \<longleftrightarrow> rv_id r \<in> set (dict_keys (bl_open B)) \<and> rv_lane r \<noteq> [] \<and> (\<exists>g. purpose_class (rv_purpose r) = Inr g)"

lemma closable_open: "closable B r \<Longrightarrow> dict_get (bl_open B) (rv_id r) \<noteq> None"
  by (simp add: closable_def dict_get_None)

lemma settle_open:
  "closable B r \<Longrightarrow> settle B r cpu gpu cs gs = (B', res) \<Longrightarrow>
   (if res = Inr () then bl_open B' = AList.delete (rv_id r) (bl_open B) else bl_open B' = bl_open B)"
  by (auto simp: settle_def raising_def close_reservation_def unreserve_lane_def unreserve_group_def
    spend_group_def append_journal_def Let_def closable_def split: sum.splits if_splits)

lemma settle_declared: "closable B r \<Longrightarrow> snd (settle_cost B r PNone PNone) = Inr ()"
  using closable_open [of B r]
  by (auto simp: settle_cost_def settle_def raising_def actual_amount_def measured_source_def
    settlement_source_def valid_sources_def Let_def closable_def split: sum.splits)

lemma release_open:
  "closable B r \<Longrightarrow> snd (release B r) = Inr () \<and> bl_open (fst (release B r)) = AList.delete (rv_id r) (bl_open B)"
  using closable_open [of B r]
  by (auto simp: release_def raising_def close_reservation_def unreserve_lane_def unreserve_group_def
    append_journal_def Let_def closable_def split: sum.splits)

lemma close_held_open:
  assumes "closable (ax_ledger A) r"
  shows "snd (close_held role A r) = Inr () \<and>
    bl_open (fst (close_held role A r)) = AList.delete (rv_id r) (bl_open (ax_ledger A))"
proof (cases "ax_active A = Some role")
  case True
  obtain B' res where call: "settle_cost (ax_ledger A) r PNone PNone = (B', res)" by (cases "settle_cost (ax_ledger A) r PNone PNone")
  moreover have "res = Inr ()" using settle_declared [OF assms] call by simp
  ultimately show ?thesis
    using settle_open [OF assms] True by (auto simp: close_held_def settle_cost_def)
qed (use release_open [OF assms] in \<open>simp add: close_held_def\<close>)

section \<open>Every call is a run of the ledger\<close>

text \<open>The ledger after a call results from a sequence of the ledger's own operations.\<close>

definition ledger_run :: "budget_ledger \<Rightarrow> budget_ledger \<Rightarrow> bool" where
  "ledger_run B B' \<longleftrightarrow> (\<exists>xs. B' = run budget_step B xs)"

lemma ledger_run_refl [simp]: "ledger_run B B"
  unfolding ledger_run_def by (rule exI [of _ "[]"]) simp

lemma ledger_run_trans: "ledger_run B B' \<Longrightarrow> ledger_run B' B'' \<Longrightarrow> ledger_run B B''"
  unfolding ledger_run_def by (metis run_append)

lemma ledger_run_step: "ledger_run B (fst (budget_step B x))"
  unfolding ledger_run_def by (rule exI [of _ "[x]"]) simp

lemma ledger_run_ops [simp]:
  "ledger_run B (fst (reserve_cost B lane c purpose))"
  "ledger_run B (fst (release B r))"
  "ledger_run B (fst (settle_cost B r cpu gpu))"
  using ledger_run_step [of B "OReserve lane (PFloat (co_cpu c)) (PFloat (co_gpu c)) purpose PNone PNone PNone"]
    ledger_run_step [of B "ORelease r"]
    ledger_run_step [of B "OSettle r cpu gpu (measured_source cpu) (measured_source gpu)"]
  by (simp_all add: map_prod_fst reserve_cost_def settle_cost_def)

lemma ledger_run_close [simp]: "ledger_run (ax_ledger A) (fst (close_held role A r))"
  by (simp add: close_held_def)

lemma ledger_run_exact: "ledger_run B B' \<Longrightarrow> journal_exact B \<Longrightarrow> journal_exact B'"
  unfolding ledger_run_def using budget.run_inv by blast

lemma note_event_fields [simp]:
  "ax_ledger (note_event e A) = ax_ledger A" "ax_state (note_event e A) = ax_state A"
  "ax_prop_res (note_event e A) = ax_prop_res A" "ax_comp_res (note_event e A) = ax_comp_res A"
  "ax_active (note_event e A) = ax_active A" "ax_failure (note_event e A) = ax_failure A"
  "ax_prop_settled (note_event e A) = ax_prop_settled A" "ax_comp_settled (note_event e A) = ax_comp_settled A"
  "ax_epoch (note_event e A) = ax_epoch A" "ax_search (note_event e A) = ax_search A"
  "ax_action (note_event e A) = ax_action A"
  by (simp_all add: note_event_def)

lemma reserve_pair_run: "ledger_run (ax_ledger A) (ax_ledger (fst (reserve_pair p c A)))"
proof (cases "reserve_cost (ax_ledger A) ''strength-s3-compare'' c ''verify''")
  case (Pair B1 r1)
  have 1: "ledger_run (ax_ledger A) B1"
    using ledger_run_ops(1) [of "ax_ledger A" "''strength-s3-compare''" c "''verify''"] Pair by simp
  show ?thesis
  proof (cases "reserve_cost B1 ''strength-s3-propose'' p ''solver''")
    case (Pair B2 r2)
    have 2: "ledger_run B1 B2"
      using ledger_run_ops(1) [of B1 "''strength-s3-propose''" p "''solver''"] Pair by simp
    then have "ledger_run B1 (fst (release B2 r))" for r
      using ledger_run_trans ledger_run_ops(2) by blast
    with 1 2 \<open>reserve_cost (ax_ledger A) _ c _ = (B1, r1)\<close> Pair ledger_run_trans [OF 1] show ?thesis
      by (auto simp: reserve_pair_def split: sum.split)
  qed
qed

lemma on_ledger_run:
  assumes "ledger_run (ax_ledger A) (fst call)"
    and "\<And>A1 v. ax_ledger A1 = fst call \<Longrightarrow> ledger_run (ax_ledger A1) (ax_ledger (fst (k A1 v)))"
  shows "ledger_run (ax_ledger A) (ax_ledger (fst (on_ledger A call k)))"
proof (cases "snd call")
  case (Inr v)
  let ?A1 = "A\<lparr>ax_ledger := fst call\<rparr>"
  have "ledger_run (ax_ledger ?A1) (ax_ledger (fst (k ?A1 v)))"
    by (rule assms(2)) simp
  then show ?thesis
    using Inr assms(1) ledger_run_trans by (simp add: on_ledger_def Let_def)
qed (use assms(1) in \<open>simp add: on_ledger_def\<close>)

lemma abort_run: "ledger_run (ax_ledger A) (ax_ledger (fst (abort reason A)))"
proof -
  have 1: "ledger_run (ax_ledger B) (ax_ledger (fst (abort_comparator reason B)))" for B
    by (cases "ax_comp_res B")
      (auto simp: abort_comparator_def abort_finish_def intro!: on_ledger_run)
  show ?thesis
    using 1 [of "B\<lparr>ax_prop_res := None\<rparr>" for B]
    by (cases "ax_prop_res A") (auto simp: abort_def 1 intro!: on_ledger_run)
qed

section \<open>The invariant\<close>

text \<open>The open reservations on the lanes of the scheduler, in the order of the ledger.\<close>

definition own_open :: "budget_ledger \<Rightarrow> reservation list" where
  "own_open B = filter (\<lambda>r. rv_lane r \<in> set aux_lanes) (map snd (bl_open B))"

definition open_keyed :: "budget_ledger \<Rightarrow> bool" where
  "open_keyed B \<longleftrightarrow> (\<forall>(i, r) \<in> set (bl_open B). i = rv_id r)"

definition priced :: "reservation \<Rightarrow> bool" where
  "priced r \<longleftrightarrow> rv_lane r \<in> set aux_lanes \<and> (\<exists>g. purpose_class (rv_purpose r) = Inr g)"

text \<open>Which reservations are held, and which role runs, in each state.\<close>

fun shape :: "aux_phase \<Rightarrow> reservation option \<Rightarrow> reservation option \<Rightarrow> aux_role option \<Rightarrow> bool \<Rightarrow> bool" where
  "shape Reserved c p role settled = (c \<noteq> None \<and> p \<noteq> None \<and> role = None \<and> \<not> settled)"
| "shape ProposerActive c p role settled = (c \<noteq> None \<and> p \<noteq> None \<and> role = Some Propose \<and> \<not> settled)"
| "shape ProposerSettled c p role settled = (c \<noteq> None \<and> p = None \<and> role = None \<and> settled)"
| "shape ComparatorActive c p role settled = (c \<noteq> None \<and> p = None \<and> role = Some Compare \<and> settled)"
| "shape Done c p role settled = (c = None \<and> p = None \<and> role = None \<and> settled)"
| "shape Aborted c p role settled = (c = None \<and> p = None \<and> role = None)"
| "shape phase c p role settled = (c = None \<and> p = None \<and> role = None \<and> \<not> settled)"

definition aux_core :: "aux \<Rightarrow> bool" where
  "aux_core A \<longleftrightarrow> journal_exact (ax_ledger A) \<and> open_keyed (ax_ledger A) \<and> own_open (ax_ledger A) = aux_held A \<and>
     list_all priced (aux_held A)"

definition aux_inv :: "aux \<Rightarrow> bool" where
  "aux_inv A \<longleftrightarrow> aux_core A \<and> shape (ax_state A) (ax_comp_res A) (ax_prop_res A) (ax_active A) (ax_prop_settled A)"

lemma aux_coreD:
  "aux_core A \<Longrightarrow> journal_exact (ax_ledger A)" "aux_core A \<Longrightarrow> open_keyed (ax_ledger A)"
  "aux_core A \<Longrightarrow> own_open (ax_ledger A) = aux_held A" "aux_core A \<Longrightarrow> list_all priced (aux_held A)"
  by (simp_all add: aux_core_def)

lemma aux_core_frame [simp]:
  "aux_core (note_event e A) = aux_core A"
  "aux_core (A\<lparr>ax_proposer := v_ax_proposer\<rparr>) = aux_core A"
  "aux_core (A\<lparr>ax_comparator := v_ax_comparator\<rparr>) = aux_core A"
  "aux_core (A\<lparr>ax_action := v_ax_action\<rparr>) = aux_core A"
  "aux_core (A\<lparr>ax_reason := v_ax_reason\<rparr>) = aux_core A"
  "aux_core (A\<lparr>ax_epoch := v_ax_epoch\<rparr>) = aux_core A"
  "aux_core (A\<lparr>ax_failure := v_ax_failure\<rparr>) = aux_core A"
  "aux_core (A\<lparr>ax_comp_settled := v_ax_comp_settled\<rparr>) = aux_core A"
  "aux_core (A\<lparr>ax_state := v_ax_state\<rparr>) = aux_core A"
  "aux_core (A\<lparr>ax_active := v_ax_active\<rparr>) = aux_core A"
  "aux_core (A\<lparr>ax_prop_settled := v_ax_prop_settled\<rparr>) = aux_core A"
  by (simp_all add: aux_core_def aux_held_def)

lemma held_closable: "aux_core A \<Longrightarrow> r \<in> set (aux_held A) \<Longrightarrow> closable (ax_ledger A) r"
proof -
  assume core: "aux_core A" and r: "r \<in> set (aux_held A)"
  then have "r \<in> set (own_open (ax_ledger A))" by (simp add: aux_coreD)
  then obtain i where "(i, r) \<in> set (bl_open (ax_ledger A))" by (auto simp: own_open_def)
  moreover have "i = rv_id r" using aux_coreD(2) [OF core] calculation by (auto simp: open_keyed_def)
  moreover have "priced r" using aux_coreD(4) [OF core] r by (simp add: list_all_iff)
  ultimately show ?thesis by (force simp: closable_def priced_def aux_lanes_def)
qed

lemma own_ids_distinct: "journal_exact B \<Longrightarrow> open_keyed B \<Longrightarrow> distinct (map rv_id (own_open B))"
proof -
  assume "journal_exact B" "open_keyed B"
  then have "distinct (map fst (bl_open B))" and ids: "map fst (bl_open B) = map rv_id (map snd (bl_open B))"
    by (auto simp: journal_exact_def open_keyed_def)
  then have "distinct (map rv_id (map snd (bl_open B)))" by simp
  then show ?thesis unfolding own_open_def by (rule distinct_map_filter)
qed

text \<open>Closing a reservation takes it out of the list of the own ones, opening appends it.\<close>

lemma own_open_closed:
  assumes "open_keyed B" "bl_open B' = AList.delete i (bl_open B)"
  shows "open_keyed B' \<and> own_open B' = filter (\<lambda>r. rv_id r \<noteq> i) (own_open B)"
proof -
  have "bl_open B' = filter (\<lambda>(k, _). k \<noteq> i) (bl_open B)"
    unfolding assms(2) AList.delete_eq by (rule filter_cong) auto
  moreover have "map snd (filter (\<lambda>(k, _). k \<noteq> i) d) = filter (\<lambda>r. rv_id r \<noteq> i) (map snd d)"
    if "\<forall>(k, r) \<in> set d. k = rv_id r" for d :: "(nat \<times> reservation) list"
    using that by (induction d) auto
  ultimately show ?thesis
    using assms(1) by (auto simp: own_open_def open_keyed_def filter_filter conj_commute)
qed

lemma own_open_reserved:
  assumes "journal_exact B" "open_keyed B" "reserve_cost B lane c purpose = (B', Inr r)"
  shows "open_keyed B' \<and> rv_lane r = lane \<and> rv_purpose r = purpose \<and>
    own_open B' = own_open B @ (if lane \<in> set aux_lanes then [r] else [])"
proof -
  have r: "bl_open B' = dict_set (rv_id r) r (bl_open B)" "rv_id r = bl_next_id B" "rv_lane r = lane" "rv_purpose r = purpose"
    using reserve_open assms(3) by (auto simp: reserve_cost_def)
  then have "rv_id r \<notin> fst ` set (bl_open B)"
    using assms(1) by (auto simp: journal_exact_def)
  then have "bl_open B' = bl_open B @ [(rv_id r, r)]"
    unfolding r(1) by (rule dict_set_fresh)
  with r(3,4) assms(2) show ?thesis by (auto simp: own_open_def open_keyed_def)
qed

lemma own_open_denied:
  "reserve_cost B lane c purpose = (B', Inl e) \<Longrightarrow> bl_open B' = bl_open B"
  using reserve_denied by (auto simp: reserve_cost_def)

lemma same_open: "bl_open B' = bl_open B \<Longrightarrow> open_keyed B' = open_keyed B \<and> own_open B' = own_open B"
  by (simp add: open_keyed_def own_open_def)

lemma core_closed:
  assumes "aux_core A" "r \<in> set (aux_held A)" "bl_open L = AList.delete (rv_id r) (bl_open (ax_ledger A))"
    and "ledger_run (ax_ledger A) L"
  shows "journal_exact L \<and> open_keyed L \<and> own_open L = filter (\<lambda>x. rv_id x \<noteq> rv_id r) (aux_held A) \<and>
    distinct (map rv_id (aux_held A))"
  using assms own_open_closed [of "ax_ledger A" L "rv_id r"] ledger_run_exact
    own_ids_distinct [of "ax_ledger A"] by (auto simp: aux_core_def)

lemma core_drop_comp:
  assumes "aux_core A" "ax_comp_res A = Some r" "bl_open L = AList.delete (rv_id r) (bl_open (ax_ledger A))"
    and "ledger_run (ax_ledger A) L"
  shows "aux_core (A\<lparr>ax_ledger := L, ax_comp_res := None\<rparr>)"
  using core_closed [OF assms(1) _ assms(3,4)] assms(1,2)
  by (auto simp: aux_core_def aux_held_def split: option.splits)

lemma core_drop_prop:
  assumes "aux_core A" "ax_prop_res A = Some r" "bl_open L = AList.delete (rv_id r) (bl_open (ax_ledger A))"
    and "ledger_run (ax_ledger A) L"
  shows "aux_core (A\<lparr>ax_ledger := L, ax_prop_res := None\<rparr>)"
  using core_closed [OF assms(1) _ assms(3,4)] assms(1,2)
  by (auto simp: aux_core_def aux_held_def split: option.splits)

definition ended :: "aux \<Rightarrow> bool" where
  "ended A \<longleftrightarrow> ax_comp_res A = None \<and> ax_prop_res A = None \<and> ax_active A = None"

lemma abort_finish_ended:
  assumes "aux_core A" "ax_comp_res A = None" "ax_prop_res A = None"
  shows "snd (abort_finish reason A) = Inr () \<and> aux_core (fst (abort_finish reason A)) \<and>
    ended (fst (abort_finish reason A)) \<and> ax_state (fst (abort_finish reason A)) = Aborted"
  using assms by (auto simp: abort_finish_def ended_def)

lemma abort_comparator_ended:
  assumes "aux_core A" "ax_prop_res A = None"
  shows "snd (abort_comparator reason A) = Inr () \<and> aux_core (fst (abort_comparator reason A)) \<and>
    ended (fst (abort_comparator reason A)) \<and> ax_state (fst (abort_comparator reason A)) = Aborted"
proof (cases "ax_comp_res A")
  case None
  then show ?thesis using abort_finish_ended [OF assms(1)] assms(2) by (simp add: abort_comparator_def)
next
  case (Some r)
  let ?L = "fst (close_held Compare A r)"
  have "closable (ax_ledger A) r" using assms(1) Some by (intro held_closable) (auto simp: aux_held_def)
  note closed = close_held_open [OF this, of Compare]
  have "aux_core (A\<lparr>ax_ledger := ?L, ax_comp_res := None\<rparr>)"
    using core_drop_comp [OF assms(1) Some] closed ledger_run_close by blast
  from abort_finish_ended [OF this] assms(2) closed Some show ?thesis
    by (simp add: abort_comparator_def on_ledger_def Let_def)
qed

lemma abort_ended:
  assumes "aux_core A" "ax_state A \<notin> {Aborted, Denied, Done}"
  shows "snd (abort reason A) = Inr () \<and> aux_core (fst (abort reason A)) \<and> ended (fst (abort reason A)) \<and>
    ax_state (fst (abort reason A)) = Aborted"
proof (cases "ax_prop_res A")
  case None
  then show ?thesis using abort_comparator_ended [OF assms(1)] assms(2) by (simp add: abort_def)
next
  case (Some r)
  let ?L = "fst (close_held Propose A r)"
  have "closable (ax_ledger A) r" using assms(1) Some by (intro held_closable) (auto simp: aux_held_def split: option.split)
  note closed = close_held_open [OF this, of Propose]
  have "aux_core (A\<lparr>ax_ledger := ?L, ax_prop_res := None\<rparr>)"
    using core_drop_prop [OF assms(1) Some] closed ledger_run_close by blast
  from abort_comparator_ended [OF this] assms(2) closed Some show ?thesis
    by (simp add: abort_def on_ledger_def Let_def)
qed

lemma abort_kept: "ax_state A \<in> {Aborted, Denied, Done} \<Longrightarrow> abort reason A = (A, Inr ())"
  by (auto simp: abort_def)

lemma abort_inv: "aux_inv A \<Longrightarrow> aux_inv (fst (abort reason A))"
  using abort_ended [of A reason] abort_kept [of A reason]
  by (cases "ax_state A \<in> {Aborted, Denied, Done}") (auto simp: aux_inv_def ended_def)

lemma abort_core_inv: "aux_core A \<Longrightarrow> ax_state A \<notin> {Aborted, Denied, Done} \<Longrightarrow> aux_inv (fst (abort reason A))"
  using abort_ended [of A reason] by (auto simp: aux_inv_def ended_def)

lemma checked_fst: "fst (checked A m k) = (case m of Inl e \<Rightarrow> A | Inr v \<Rightarrow> fst (k v))"
  by (simp add: checked_def raising_def split: sum.split)

lemma reserve_pair_core:
  assumes "aux_core A" "ax_comp_res A = None" "ax_prop_res A = None"
  shows "aux_core (fst (reserve_pair p c A)) \<and>
    (ax_comp_res (fst (reserve_pair p c A)) \<noteq> None) = snd (reserve_pair p c A) \<and>
    (ax_prop_res (fst (reserve_pair p c A)) \<noteq> None) = snd (reserve_pair p c A)"
proof -
  let ?B = "ax_ledger A"
  obtain B1 m1 where c1: "reserve_cost ?B ''strength-s3-compare'' c ''verify'' = (B1, m1)"
    by (cases "reserve_cost ?B ''strength-s3-compare'' c ''verify''")
  obtain B2 m2 where c2: "reserve_cost B1 ''strength-s3-propose'' p ''solver'' = (B2, m2)"
    by (cases "reserve_cost B1 ''strength-s3-propose'' p ''solver''")
  have lanes: "''strength-s3-compare'' \<in> set aux_lanes" "''strength-s3-propose'' \<in> set aux_lanes"
    by (simp_all add: aux_lanes_def)
  have purposes: "\<exists>g. purpose_class ''verify'' = Inr g" "\<exists>g. purpose_class ''solver'' = Inr g"
    by (simp_all add: purpose_class_def)
  have own: "own_open ?B = []" "journal_exact ?B" "open_keyed ?B"
    using assms by (auto simp: aux_core_def aux_held_def)
  have exact1: "journal_exact B1" "ledger_run ?B B1"
    using ledger_run_ops(1) [of ?B "''strength-s3-compare''" c "''verify''"] c1 own(2) ledger_run_exact by auto
  have exact2: "journal_exact B2" "ledger_run B1 B2"
    using ledger_run_ops(1) [of B1 "''strength-s3-propose''" p "''solver''"] c2 exact1 ledger_run_exact by auto
  show ?thesis
  proof (cases m1)
    case (Inl e)
    then have "open_keyed B1 \<and> own_open B1 = []"
      using own_open_denied [of ?B _ c _ B1 e] c1 own same_open [of B1 ?B] by auto
    with Inl c1 assms exact1 show ?thesis
      by (auto simp: reserve_pair_def aux_core_def aux_held_def)
  next
    case (Inr cr)
    note r1 = own_open_reserved [OF own(2,3) c1 [unfolded Inr]]
    show ?thesis
    proof (cases m2)
      case (Inl e)
      then have open2: "open_keyed B2" "own_open B2 = [cr]" and same: "bl_open B2 = bl_open B1"
        using own_open_denied [of B1 _ p _ B2 e] c2 same_open [of B2 B1] r1 own(1) lanes by auto
      have "cr \<in> set (own_open B2)" using open2 by simp
      then have "closable B2 cr"
        using open2(1) r1 purposes by (force simp: closable_def own_open_def open_keyed_def)
      from release_open [OF this] own_open_closed [OF open2(1), of "fst (release B2 cr)" "rv_id cr"] open2(2)
      have "open_keyed (fst (release B2 cr)) \<and> own_open (fst (release B2 cr)) = []" by simp
      moreover have "journal_exact (fst (release B2 cr))"
        using ledger_run_ops(2) exact2(1) ledger_run_exact by blast
      ultimately show ?thesis
        using c1 c2 \<open>m1 = Inr cr\<close> Inl assms by (auto simp: reserve_pair_def aux_core_def aux_held_def)
    next
      case (Inr pr)
      have "open_keyed B1" using r1 by simp
      note r2 = own_open_reserved [OF exact1(1) this c2 [unfolded Inr]]
      show ?thesis
        using c1 c2 \<open>m1 = Inr cr\<close> Inr r1 r2 own(1) exact2(1) lanes purposes
        by (auto simp: reserve_pair_def aux_core_def aux_held_def priced_def)
    qed
  qed
qed

lemma reserve_pair_frame:
  "ax_state (fst (reserve_pair p c A)) = ax_state A" "ax_active (fst (reserve_pair p c A)) = ax_active A"
  "ax_prop_settled (fst (reserve_pair p c A)) = ax_prop_settled A" "ax_events (fst (reserve_pair p c A)) = ax_events A"
  by (auto simp: reserve_pair_def split: prod.split sum.split)

lemma aux_inv_frame [simp]:
  "aux_inv (note_event e A) = aux_inv A"
  "aux_inv (A\<lparr>ax_proposer := v_ax_proposer\<rparr>) = aux_inv A"
  "aux_inv (A\<lparr>ax_comparator := v_ax_comparator\<rparr>) = aux_inv A"
  "aux_inv (A\<lparr>ax_action := v_ax_action\<rparr>) = aux_inv A"
  "aux_inv (A\<lparr>ax_reason := v_ax_reason\<rparr>) = aux_inv A"
  "aux_inv (A\<lparr>ax_epoch := v_ax_epoch\<rparr>) = aux_inv A"
  "aux_inv (A\<lparr>ax_failure := v_ax_failure\<rparr>) = aux_inv A"
  "aux_inv (A\<lparr>ax_comp_settled := v_ax_comp_settled\<rparr>) = aux_inv A"
  by (simp_all add: aux_inv_def)

lemma deny_plan_inv: "aux_inv A \<Longrightarrow> aux_inv (fst (deny_plan reason A))"
  by (simp add: deny_plan_def)

lemma denied_inv:
  "aux_core A \<Longrightarrow> ax_state A = Denied \<Longrightarrow> ax_comp_res A = None \<Longrightarrow> ax_prop_res A = None \<Longrightarrow> ax_active A = None \<Longrightarrow>
   \<not> ax_prop_settled A \<Longrightarrow> aux_inv A"
  by (simp add: aux_inv_def)

lemma prepare_admitted_inv:
  assumes "aux_inv A" "ax_state A = Denied"
  shows "aux_inv (fst (prepare_admitted action p c A))"
proof -
  let ?A = "\<lambda>pt ct. A\<lparr>ax_proposer := Some pt, ax_comparator := Some ct\<rparr>"
  have core: "aux_core (?A pt ct)" "ax_comp_res (?A pt ct) = None" "ax_prop_res (?A pt ct) = None" for pt ct
    using assms by (auto simp: aux_inv_def)
  have "aux_inv (fst (case reserve_pair p c (?A pt ct) of (A3, ok) \<Rightarrow>
      if \<not> ok then deny_plan ''LEDGER_ADMISSION_DENIED'' (A3\<lparr>ax_proposer := None, ax_comparator := None\<rparr>)
       else let A4 = A3\<lparr>ax_state := Reserved, ax_action := action, ax_reason := ''RESOURCE_PREPARED_ONLY''\<rparr> in
         checked A4 (task_digest ct) (\<lambda>cd. checked A4 (task_digest pt) (\<lambda>pd.
         (note_event (PreparedEvent action (rv_id (the (ax_comp_res A4))) (rv_id (the (ax_prop_res A4))) cd pd) A4,
          Inr action)))))" for pt ct
  proof -
    obtain A3 ok where r: "reserve_pair p c (?A pt ct) = (A3, ok)" by (cases "reserve_pair p c (?A pt ct)")
    have A3: "aux_core A3" "(ax_comp_res A3 \<noteq> None) = ok" "(ax_prop_res A3 \<noteq> None) = ok"
      "ax_state A3 = Denied" "ax_active A3 = None" "\<not> ax_prop_settled A3"
      using reserve_pair_core [OF core [where pt = pt and ct = ct], of p c] reserve_pair_frame [of p c "?A pt ct"] r assms
      by (auto simp: aux_inv_def)
    show ?thesis
    proof (cases ok)
      case True
      then have "aux_inv (A3\<lparr>ax_state := Reserved, ax_action := action, ax_reason := ''RESOURCE_PREPARED_ONLY''\<rparr>)"
        using A3 by (simp add: aux_inv_def)
      with True r show ?thesis
        by (simp add: checked_fst Let_def split: sum.split)
    next
      case False
      then have "aux_inv (A3\<lparr>ax_proposer := None, ax_comparator := None\<rparr>)"
        using A3 by (intro denied_inv) auto
      with False r show ?thesis by (simp add: deny_plan_inv)
    qed
  qed
  moreover have "aux_inv (A\<lparr>ax_proposer := Some pt\<rparr>)" for pt
    using assms(1) by (simp)
  ultimately show ?thesis
    using assms(1) by (simp add: prepare_admitted_def checked_fst Let_def split: sum.split)
qed

lemma aux_prepare_inv: "aux_inv A \<Longrightarrow> aux_inv (fst (prepare action p c epoch slack clock A))"
proof (cases "ax_state A = Idle")
  case True
  assume inv: "aux_inv A"
  let ?D = "A\<lparr>ax_state := Denied\<rparr>"
  have D: "aux_inv ?D" using inv True by (auto simp: aux_inv_def)
  have "aux_inv (fst (prepare_admitted action x y ?D))" for x y
    using prepare_admitted_inv [OF D] by simp
  with D True deny_plan_inv [OF D] show ?thesis
    by (auto simp: prepare_def checked_fst raising_cases Let_def ensure_def split: sum.split option.split)
next
  case False
  then show "aux_inv A \<Longrightarrow> ?thesis" by (simp add: prepare_def checked_fst)
qed

lemma begin_proposer_inv: "aux_inv A \<Longrightarrow> aux_inv (fst (begin_proposer turn epoch A))"
proof -
  assume inv: "aux_inv A"
  have "ax_state A = Reserved \<Longrightarrow> aux_inv (A\<lparr>ax_state := ProposerActive, ax_active := Some Propose\<rparr>)"
    using inv by (auto simp: aux_inv_def)
  with inv show ?thesis
    by (auto simp: begin_proposer_def checked_fst Let_def ensure_def split: sum.split)
qed

lemma begin_comparator_inv: "aux_inv A \<Longrightarrow> aux_inv (fst (begin_comparator turn epoch A))"
proof -
  assume inv: "aux_inv A"
  have "ax_state A = ProposerSettled \<Longrightarrow> aux_inv (A\<lparr>ax_state := ComparatorActive, ax_active := Some Compare\<rparr>)"
    using inv by (auto simp: aux_inv_def)
  with inv show ?thesis
    by (auto simp: begin_comparator_def checked_fst Let_def ensure_def split: sum.split)
qed

lemma core_same_open:
  assumes "aux_core A" "ledger_run (ax_ledger A) L" "own_open L = own_open (ax_ledger A)" "open_keyed L"
  shows "aux_core (A\<lparr>ax_ledger := L\<rparr>)"
  using assms ledger_run_exact by (auto simp: aux_core_def aux_held_def)

lemma settle_call:
  assumes "aux_core A" "r \<in> set (aux_held A)"
  shows "snd (settle_cost (ax_ledger A) r cpu gpu) = Inr () \<Longrightarrow>
      bl_open (fst (settle_cost (ax_ledger A) r cpu gpu)) = AList.delete (rv_id r) (bl_open (ax_ledger A))"
    and "snd (settle_cost (ax_ledger A) r cpu gpu) = Inl e \<Longrightarrow>
      aux_core (A\<lparr>ax_ledger := fst (settle_cost (ax_ledger A) r cpu gpu)\<rparr>)"
proof -
  obtain B' res where call: "settle_cost (ax_ledger A) r cpu gpu = (B', res)" by (cases "settle_cost (ax_ledger A) r cpu gpu")
  note open' = settle_open [OF held_closable [OF assms] call [unfolded settle_cost_def]]
  show "snd (settle_cost (ax_ledger A) r cpu gpu) = Inr () \<Longrightarrow>
      bl_open (fst (settle_cost (ax_ledger A) r cpu gpu)) = AList.delete (rv_id r) (bl_open (ax_ledger A))"
    using open' call by simp
  have "ledger_run (ax_ledger A) B'" using ledger_run_ops(3) [of "ax_ledger A" r cpu gpu] call by simp
  then show "snd (settle_cost (ax_ledger A) r cpu gpu) = Inl e \<Longrightarrow>
      aux_core (A\<lparr>ax_ledger := fst (settle_cost (ax_ledger A) r cpu gpu)\<rparr>)"
    using open' call same_open [of B' "ax_ledger A"] assms(1) aux_coreD(2)
    by (intro core_same_open) auto
qed

lemma settle_proposer_inv: "aux_inv A \<Longrightarrow> aux_inv (fst (settle_proposer turn epoch cpu gpu ok A))"
proof -
  assume inv: "aux_inv A"
  show ?thesis
  proof (cases "assert_current A turn epoch = Inr () \<and> ax_state A = ProposerActive \<and> ax_active A = Some Propose \<and> ax_prop_res A \<noteq> None")
    case True
    then obtain r where r: "ax_prop_res A = Some r" by auto
    have core: "aux_core A" and rin: "r \<in> set (aux_held A)" using inv r by (auto simp: aux_inv_def aux_held_def split: option.split)
    let ?call = "settle_cost (ax_ledger A) r cpu gpu"
    show ?thesis
    proof (cases "snd ?call")
      case (Inl e)
      then have "aux_inv (A\<lparr>ax_ledger := fst ?call\<rparr>)"
        using settle_call(2) [OF core rin Inl] inv by (simp add: aux_inv_def)
      with True r Inl show ?thesis by (simp add: settle_proposer_def checked_fst on_ledger_def Let_def)
    next
      case (Inr u)
      let ?A = "A\<lparr>ax_ledger := fst ?call, ax_prop_res := None, ax_prop_settled := True, ax_active := None\<rparr>"
      have "aux_core (A\<lparr>ax_ledger := fst ?call, ax_prop_res := None\<rparr>)"
        using settle_call(1) [OF core rin] Inr by (intro core_drop_prop [OF core r]) auto
      then have core': "aux_core ?A" by simp
      moreover have "ax_comp_res A \<noteq> None" using inv True by (simp add: aux_inv_def)
      ultimately have "aux_inv (note_event e ?A\<lparr>ax_state := ProposerSettled\<rparr>)"
          "aux_inv (fst (abort reason (note_event e ?A)))" for e reason
        using True by (simp add: aux_inv_def, intro abort_core_inv) auto
      then show ?thesis
        using True r Inr by (simp add: settle_proposer_def checked_fst on_ledger_def Let_def)
    qed
  qed (use inv in \<open>auto simp: settle_proposer_def checked_fst ensure_def split: sum.split\<close>)
qed

lemma settle_comparator_inv: "aux_inv A \<Longrightarrow> aux_inv (fst (settle_comparator turn epoch cpu gpu ok A))"
proof -
  assume inv: "aux_inv A"
  show ?thesis
  proof (cases "assert_current A turn epoch = Inr () \<and> ax_state A = ComparatorActive \<and> ax_active A = Some Compare \<and> ax_comp_res A \<noteq> None")
    case True
    then obtain r where r: "ax_comp_res A = Some r" by auto
    have core: "aux_core A" and rin: "r \<in> set (aux_held A)" using inv r by (auto simp: aux_inv_def aux_held_def)
    let ?call = "settle_cost (ax_ledger A) r cpu gpu"
    show ?thesis
    proof (cases "snd ?call")
      case (Inl e)
      then have "aux_inv (A\<lparr>ax_ledger := fst ?call\<rparr>)"
        using settle_call(2) [OF core rin Inl] inv by (simp add: aux_inv_def)
      with True r Inl show ?thesis by (simp add: settle_comparator_def checked_fst on_ledger_def Let_def)
    next
      case (Inr u)
      let ?A = "A\<lparr>ax_ledger := fst ?call, ax_comp_res := None, ax_comp_settled := True, ax_active := None\<rparr>"
      have "aux_core (A\<lparr>ax_ledger := fst ?call, ax_comp_res := None\<rparr>)"
        using settle_call(1) [OF core rin] Inr by (intro core_drop_comp [OF core r]) auto
      then have core': "aux_core ?A" by simp
      moreover have "ax_prop_res A = None \<and> ax_prop_settled A" using inv True by (simp add: aux_inv_def)
      ultimately have "aux_inv (note_event e ?A\<lparr>ax_state := Done, ax_reason := t\<rparr>)"
          "aux_inv (fst (abort reason (note_event e ?A)))" for e reason t
        using True by (simp add: aux_inv_def, intro abort_core_inv) auto
      then show ?thesis
        using True r Inr by (simp add: settle_comparator_def checked_fst on_ledger_def Let_def)
    qed
  qed (use inv in \<open>auto simp: settle_comparator_def checked_fst ensure_def split: sum.split\<close>)
qed

lemma incumbent_changed_inv: "aux_inv A \<Longrightarrow> aux_inv (fst (incumbent_changed turn epoch A))"
proof -
  assume inv: "aux_inv A"
  obtain A1 r where a: "abort ''INCUMBENT_EPOCH_STALE'' A = (A1, r)" by (cases "abort ''INCUMBENT_EPOCH_STALE'' A")
  with abort_inv [OF inv, of "''INCUMBENT_EPOCH_STALE''"] inv show ?thesis
    by (auto simp: incumbent_changed_def checked_fst a split: sum.split)
qed

lemma aux_finish_inv: "aux_inv A \<Longrightarrow> aux_inv (fst (finish A))"
proof -
  assume inv: "aux_inv A"
  have closing: "aux_inv (fst (let A2 = (if ax_state A1 = Idle then A1\<lparr>ax_state := Denied, ax_reason := ''NEVER_PLANNED''\<rparr> else A1)
           in (note_event (ClosedEvent (ax_state A2)) A2, Inr ())))" if "aux_inv A1" for A1
    using that by (auto simp: aux_inv_def Let_def)
  obtain A1 r where a: "abort ''ANCHOR_TERMINAL_OR_STOP'' A = (A1, r)" by (cases "abort ''ANCHOR_TERMINAL_OR_STOP'' A")
  have "aux_inv A1" using abort_inv [OF inv, of "''ANCHOR_TERMINAL_OR_STOP''"] a by simp
  with closing [OF inv] closing [of A1] show ?thesis
    by (auto simp: finish_def a split: sum.split)
qed

text \<open>The rest of the controller: any operation on the ledger that does not close what is held.\<close>

lemma settle_any: "bl_open (fst (settle B r cpu gpu cs gs)) \<in> {bl_open B, AList.delete (rv_id r) (bl_open B)}"
  by (auto simp: settle_def raising_cases close_reservation_def unreserve_lane_def unreserve_group_def
    spend_group_def append_journal_def Let_def split: sum.split)

lemma release_any: "bl_open (fst (release B r)) \<in> {bl_open B, AList.delete (rv_id r) (bl_open B)}"
  by (auto simp: release_def raising_cases close_reservation_def unreserve_lane_def unreserve_group_def
    append_journal_def Let_def split: sum.split)

lemma others_open:
  "bl_open (fst (charge_elapsed B lane x note purpose)) = bl_open B"
  "bl_open (fst (controller_overhead B label t0 t1)) = bl_open B"
  "bl_open (fst (record_native_work B lane v semantics stage)) = bl_open B"
  by (auto simp: charge_elapsed_def controller_overhead_def record_native_work_def raising_cases
    append_journal_def Let_def split: sum.split)

lemma foreign_closing:
  assumes "aux_core A" "rv_id r \<notin> rv_id ` set (aux_held A)"
    and "bl_open L \<in> {bl_open (ax_ledger A), AList.delete (rv_id r) (bl_open (ax_ledger A))}"
  shows "own_open L = own_open (ax_ledger A) \<and> open_keyed L"
proof -
  have "filter (\<lambda>x. rv_id x \<noteq> rv_id r) (own_open (ax_ledger A)) = own_open (ax_ledger A)"
    using assms(1,2) by (intro filter_True) (auto simp: aux_coreD, metis imageI)
  then show ?thesis
    using assms own_open_closed [of "ax_ledger A" L "rv_id r"] same_open [of L "ax_ledger A"] by (auto simp: aux_core_def)
qed

lemma foreign_open:
  assumes "aux_core A" "foreign A x"
  shows "own_open (fst (budget_step (ax_ledger A) x)) = own_open (ax_ledger A) \<and>
    open_keyed (fst (budget_step (ax_ledger A) x))"
proof (cases x)
  case (OReserve lane cpu gpu purpose g pr d)
  let ?call = "reserve (ax_ledger A) lane cpu gpu purpose g pr d"
  have fresh: "bl_next_id (ax_ledger A) \<notin> fst ` set (bl_open (ax_ledger A))"
    using assms(1) by (auto simp: aux_core_def journal_exact_def)
  obtain L res where call: "?call = (L, res)" by (cases ?call)
  show ?thesis
  proof (cases res)
    case (Inl e)
    then have "bl_open L = bl_open (ax_ledger A)" using reserve_denied call by auto
    then show ?thesis
      using call OReserve assms(1) same_open [of L "ax_ledger A"] by (simp add: map_prod_fst aux_core_def)
  next
    case (Inr r)
    note r = reserve_open [OF call [unfolded Inr]]
    have "bl_open L = bl_open (ax_ledger A) @ [(rv_id r, r)]"
      using r dict_set_fresh fresh by metis
    with r call OReserve assms show ?thesis
      by (auto simp: map_prod_fst own_open_def open_keyed_def aux_core_def)
  qed
next
  case (OSettle r cpu gpu cs gs)
  then show ?thesis
    using foreign_closing [OF assms(1) _ settle_any, of r cpu gpu cs gs] assms(2) by (simp add: map_prod_fst)
next
  case (ORelease r)
  then show ?thesis
    using foreign_closing [OF assms(1) _ release_any, of r] assms(2) by (simp add: map_prod_fst)
qed (use assms(1) in \<open>simp_all add: map_prod_fst others_open own_open_def open_keyed_def aux_core_def\<close>)

lemma aux_step_inv: "aux_inv A \<Longrightarrow> aux_inv (fst (aux_step A x))"
proof (cases x)
  case (XLedger y)
  assume inv: "aux_inv A"
  have "aux_core (A\<lparr>ax_ledger := fst (budget_step (ax_ledger A) y)\<rparr>)" if "foreign A y"
    using foreign_open [OF _ that] inv ledger_run_step by (intro core_same_open) (auto simp: aux_inv_def)
  with inv XLedger show ?thesis by (auto simp: aux_inv_def)
qed (simp_all add: map_prod_fst aux_prepare_inv begin_proposer_inv begin_comparator_inv settle_proposer_inv
  settle_comparator_inv abort_inv incumbent_changed_inv aux_finish_inv)

section \<open>Lifecycle\<close>

fun phase_next :: "aux_phase \<Rightarrow> aux_phase list" where
  "phase_next Idle = [Idle, Denied, Reserved, Aborted]"
| "phase_next Reserved = [Reserved, ProposerActive, Aborted]"
| "phase_next ProposerActive = [ProposerActive, ProposerSettled, Aborted]"
| "phase_next ProposerSettled = [ProposerSettled, ComparatorActive, Aborted]"
| "phase_next ComparatorActive = [ComparatorActive, Done, Aborted]"
| "phase_next phase = [phase]"

lemma abort_state: "ax_state (fst (abort reason A)) \<in> {ax_state A, Aborted} \<and>
    (ax_state A \<in> {Aborted, Denied, Done} \<longrightarrow> ax_state (fst (abort reason A)) = ax_state A)"
proof -
  have "ax_state (fst (abort_comparator reason B)) \<in> {ax_state B, Aborted}" for B
    by (cases "ax_comp_res B") (auto simp: abort_comparator_def on_ledger_def abort_finish_def Let_def split: sum.split)
  from this [of "A\<lparr>ax_ledger := l, ax_prop_res := None\<rparr>" for l] this [of A] show ?thesis
    by (cases "ax_prop_res A") (auto simp: abort_def on_ledger_def Let_def split: sum.split)
qed

lemma prepare_admitted_state:
  "ax_state A = Denied \<Longrightarrow> ax_state (fst (prepare_admitted action p c A)) \<in> {Denied, Reserved}"
  using reserve_pair_frame(1) [of p c "A\<lparr>ax_proposer := pt, ax_comparator := ct\<rparr>" for pt ct]
  by (auto simp: prepare_admitted_def checked_fst Let_def deny_plan_def split: sum.split prod.split) (metis fst_conv)+

lemma prepare_state:
  "ax_state (fst (prepare action p c epoch slack clock A)) \<in>
    (if ax_state A = Idle then {Denied, Reserved} else {ax_state A})"
  using prepare_admitted_state [of "A\<lparr>ax_state := Denied\<rparr>"]
  by (auto simp: prepare_def checked_fst raising_cases Let_def ensure_def deny_plan_def split: sum.split option.split)

lemma abort_event_state:
  "ax_state B \<in> S \<Longrightarrow> Aborted \<in> S \<Longrightarrow> ax_state (fst (abort reason (note_event e B))) \<in> S"
  using abort_state [of reason "note_event e B"] by auto

lemma settle_proposer_state:
  "ax_state A \<in> S \<Longrightarrow> ax_state A = ProposerActive \<Longrightarrow> ProposerSettled \<in> S \<Longrightarrow> Aborted \<in> S \<Longrightarrow>
   ax_state (fst (settle_proposer turn epoch cpu gpu ok A)) \<in> S"
  by (auto simp: settle_proposer_def checked_fst on_ledger_def Let_def ensure_def
    intro!: abort_event_state split: sum.split)

lemma settle_comparator_state:
  "ax_state A \<in> S \<Longrightarrow> ax_state A = ComparatorActive \<Longrightarrow> Done \<in> S \<Longrightarrow> Aborted \<in> S \<Longrightarrow>
   ax_state (fst (settle_comparator turn epoch cpu gpu ok A)) \<in> S"
  by (auto simp: settle_comparator_def checked_fst on_ledger_def Let_def ensure_def
    intro!: abort_event_state split: sum.split)

lemma settle_other_state:
  "ax_state A \<noteq> ProposerActive \<Longrightarrow> ax_state (fst (settle_proposer turn epoch cpu gpu ok A)) = ax_state A"
  "ax_state A \<noteq> ComparatorActive \<Longrightarrow> ax_state (fst (settle_comparator turn epoch cpu gpu ok A)) = ax_state A"
  by (simp_all add: settle_proposer_def settle_comparator_def checked_fst split: sum.split)

lemma begin_state:
  "ax_state (fst (begin_proposer turn epoch A)) \<in> (if ax_state A = Reserved then {Reserved, ProposerActive} else {ax_state A})"
  "ax_state (fst (begin_comparator turn epoch A)) \<in>
    (if ax_state A = ProposerSettled then {ProposerSettled, ComparatorActive} else {ax_state A})"
  by (auto simp: begin_proposer_def begin_comparator_def checked_fst Let_def ensure_def split: sum.split)

lemma incumbent_state: "ax_state (fst (incumbent_changed turn epoch A)) \<in> {ax_state A, Aborted} \<and>
    (ax_state A \<in> {Aborted, Denied, Done} \<longrightarrow> ax_state (fst (incumbent_changed turn epoch A)) = ax_state A)"
  using abort_state [of "''INCUMBENT_EPOCH_STALE''" A]
  by (auto simp: incumbent_changed_def checked_fst ensure_def split: sum.split prod.split)

lemma finish_state: "ax_state (fst (finish A)) \<in> set (phase_next (ax_state A))"
  using abort_state [of "''ANCHOR_TERMINAL_OR_STOP''" A]
  by (cases "ax_state A") (auto simp: finish_def Let_def split: sum.split prod.split)

lemma aux_step_phase: "ax_state (fst (aux_step A x)) \<in> set (phase_next (ax_state A))"
proof (cases x)
  case (XSettleProposer turn epoch cpu gpu ok)
  then show ?thesis
    using settle_proposer_state [of A "set (phase_next ProposerActive)"] settle_other_state(1) [of A]
    by (cases "ax_state A = ProposerActive") (cases "ax_state A"; simp)+
next
  case (XSettleComparator turn epoch cpu gpu ok)
  then show ?thesis
    using settle_comparator_state [of A "set (phase_next ComparatorActive)"] settle_other_state(2) [of A]
    by (cases "ax_state A = ComparatorActive") (cases "ax_state A"; simp)+
next
  case (XPrepare action p c epoch slack clock)
  then show ?thesis
    using prepare_state [of action p c epoch slack clock A] by (cases "ax_state A") (auto simp: map_prod_fst)
next
  case (XBeginProposer turn epoch)
  then show ?thesis
    using begin_state(1) [of turn epoch A] by (cases "ax_state A") (auto simp: map_prod_fst)
next
  case (XBeginComparator turn epoch)
  then show ?thesis
    using begin_state(2) [of turn epoch A] by (cases "ax_state A") (auto simp: map_prod_fst)
next
  case (XAbort reason)
  then show ?thesis using abort_state [of reason A] by (cases "ax_state A") auto
next
  case (XIncumbent turn epoch)
  then show ?thesis using incumbent_state [of turn epoch A] by (cases "ax_state A") auto
next
  case XFinish
  then show ?thesis using finish_state by simp
next
  case (XLedger y)
  then show ?thesis by (cases "ax_state A") auto
qed

interpretation auxiliary: machine aux_step aux_inv
  by unfold_locales (rule aux_step_inv)

lemma new_aux_fields:
  "new_aux s B epoch host memory anchor cleanup fixture = Inr A \<Longrightarrow>
   ax_ledger A = B \<and> ax_state A = Idle \<and> aux_held A = [] \<and> ax_comp_res A = None \<and> ax_prop_res A = None \<and>
   ax_active A = None \<and> \<not> ax_prop_settled A \<and> 0 < ax_epoch A"
  by (auto simp: new_aux_def aux_held_def)

lemma new_ledger_open [simp]: "bl_open (new_budget_ledger E t) = []"
  by (simp add: new_budget_ledger_def)

lemma new_aux_inv: "new_aux s (new_budget_ledger E t) epoch host memory anchor cleanup fixture = Inr A \<Longrightarrow> aux_inv A"
  by (drule new_aux_fields) (auto simp: aux_inv_def aux_core_def own_open_def open_keyed_def)

section \<open>Every step is a run of the ledger\<close>

lemma prepare_ledger_run: "ledger_run (ax_ledger A) (ax_ledger (fst (prepare action p c epoch slack clock A)))"
proof -
  have admitted: "ledger_run (ax_ledger B) (ax_ledger (fst (prepare_admitted action x y B)))" for x y B
  proof -
    have "ledger_run (ax_ledger B) (ax_ledger A3)" if "reserve_pair x y (B\<lparr>ax_proposer := u, ax_comparator := v\<rparr>) = (A3, ok)" for u v A3 ok
      using reserve_pair_run [of "B\<lparr>ax_proposer := u, ax_comparator := v\<rparr>" x y] that by simp
    then show ?thesis
      by (auto simp: prepare_admitted_def checked_fst Let_def deny_plan_def split: sum.split prod.split)
  qed
  from this [of "A\<lparr>ax_state := Denied\<rparr>"] show ?thesis
    by (auto simp: prepare_def checked_fst raising_cases Let_def ensure_def deny_plan_def split: sum.split option.split)
qed

lemma abort_event_run:
  "ax_ledger B = L \<Longrightarrow> ledger_run L (ax_ledger (fst (abort reason (note_event e B))))"
  using abort_run [of "note_event e B" reason] by simp

lemma settle_ledger_run:
  "ledger_run (ax_ledger A) (ax_ledger (fst (settle_proposer turn epoch cpu gpu ok A)))"
  "ledger_run (ax_ledger A) (ax_ledger (fst (settle_comparator turn epoch cpu gpu ok A)))"
  unfolding settle_proposer_def settle_comparator_def checked_fst
  by (auto simp: ensure_def Let_def intro!: on_ledger_run abort_event_run split: sum.split)

lemma aux_step_ledger: "ledger_run (ax_ledger A) (ax_ledger (fst (aux_step A x)))"
proof (cases x)
  case (XBeginProposer turn epoch)
  then show ?thesis by (auto simp: map_prod_fst begin_proposer_def checked_fst Let_def split: sum.split)
next
  case (XBeginComparator turn epoch)
  then show ?thesis by (auto simp: map_prod_fst begin_comparator_def checked_fst Let_def split: sum.split)
next
  case (XIncumbent turn epoch)
  then show ?thesis
    using abort_run [of A "''INCUMBENT_EPOCH_STALE''"]
    by (auto simp: incumbent_changed_def checked_fst split: sum.split prod.split)
next
  case XFinish
  then show ?thesis
    using abort_run [of A "''ANCHOR_TERMINAL_OR_STOP''"]
    by (auto simp: finish_def Let_def split: sum.split prod.split)
qed (simp_all add: map_prod_fst prepare_ledger_run settle_ledger_run abort_run ledger_run_step)

lemma run_ledger: "ledger_run (ax_ledger A) (ax_ledger (run aux_step A xs))"
proof (induction xs arbitrary: A)
  case (Cons x xs)
  then show ?case using ledger_run_trans [OF aux_step_ledger [of A x]] by simp
qed simp

section \<open>Admission\<close>

lemma prepare_admitted_reserves:
  assumes "prepare_admitted action p c A = (A', Inr a)" "a \<noteq> ''NONE''"
  shows "a = action \<and> (\<exists>B1 cr B2 pr. reserve_cost (ax_ledger A) ''strength-s3-compare'' c ''verify'' = (B1, Inr cr) \<and>
    reserve_cost B1 ''strength-s3-propose'' p ''solver'' = (B2, Inr pr) \<and>
    ax_ledger A' = B2 \<and> ax_comp_res A' = Some cr \<and> ax_prop_res A' = Some pr \<and> ax_state A' = Reserved)"
  using assms
  by (auto simp: prepare_admitted_def checked_def raising_def Let_def deny_plan_def reserve_pair_def
    split: sum.splits prod.splits if_splits)

section \<open>Properties\<close>

definition held_count :: "aux_phase \<Rightarrow> nat" where
  "held_count phase = (if phase \<in> {Reserved, ProposerActive} then 2
     else if phase \<in> {ProposerSettled, ComparatorActive} then 1 else 0)"

lemma finish_ended:
  assumes "aux_inv A"
  shows "snd (finish A) = Inr () \<and> aux_held (fst (finish A)) = [] \<and> ax_state (fst (finish A)) \<in> {Denied, Done, Aborted}"
proof (cases "ax_state A \<in> {Reserved, ProposerActive, ProposerSettled, ComparatorActive}")
  case True
  then show ?thesis
    using abort_ended [of A "''ANCHOR_TERMINAL_OR_STOP''"] assms
    by (cases "abort ''ANCHOR_TERMINAL_OR_STOP'' A")
      (auto simp: finish_def aux_inv_def ended_def aux_held_def Let_def)
next
  case False
  then show ?thesis
    using assms by (cases "ax_state A") (auto simp: finish_def aux_inv_def aux_held_def Let_def)
qed

text \<open>
  C25. The scheduler never leaks money: whatever calls it receives and whatever the rest of
  the controller does with the shared ledger in between, the open reservations on its lanes are
  exactly the ones it holds, two while reserved or proposing, one up to the end of the comparison
  and none otherwise; and closing it always succeeds and leaves none open.
\<close>

theorem aux_reservations_exact:
  assumes "new_aux s (new_budget_ledger E t) epoch host memory anchor cleanup fixture = Inr A0"
    and "A = run aux_step A0 xs"
  shows "own_open (ax_ledger A) = aux_held A \<and> distinct (map rv_id (aux_held A)) \<and>
    length (aux_held A) = held_count (ax_state A) \<and>
    snd (finish A) = Inr () \<and> own_open (ax_ledger (fst (finish A))) = [] \<and>
    ax_state (fst (finish A)) \<in> {Denied, Done, Aborted}"
proof -
  have inv: "aux_inv A"
    unfolding assms(2) by (rule auxiliary.run_inv [OF new_aux_inv [OF assms(1)]])
  then have "own_open (ax_ledger A) = aux_held A" "distinct (map rv_id (aux_held A))"
    using own_ids_distinct [of "ax_ledger A"] by (auto simp: aux_inv_def aux_core_def)
  moreover have "length (aux_held A) = held_count (ax_state A)"
    using inv by (cases "ax_state A") (auto simp: aux_inv_def aux_held_def held_count_def)
  moreover have "own_open (ax_ledger (fst (finish A))) = aux_held (fst (finish A))"
    using aux_finish_inv [OF inv] by (simp add: aux_inv_def aux_core_def)
  ultimately show ?thesis using finish_ended [OF inv] by simp
qed

fun phase_rank :: "aux_phase \<Rightarrow> nat" where
  "phase_rank Idle = 0"
| "phase_rank Reserved = 1"
| "phase_rank ProposerActive = 2"
| "phase_rank ProposerSettled = 3"
| "phase_rank ComparatorActive = 4"
| "phase_rank phase = 5"

lemma phase_forward: "phase \<in> set (phase_next phase') \<Longrightarrow> phase = phase' \<or> phase_rank phase' < phase_rank phase"
  by (cases phase') auto

lemma run_forward:
  "ax_state (run aux_step A xs) = ax_state A \<or> phase_rank (ax_state A) < phase_rank (ax_state (run aux_step A xs))"
proof (induction xs arbitrary: A)
  case (Cons x xs)
  from phase_forward [OF aux_step_phase [of A x]] Cons.IH [of "fst (aux_step A x)"]
  show ?case by (auto simp del: phase_rank.simps)
qed simp

text \<open>
  One slot, one use, in one order: at every moment of every run the active role is the one of the
  state, a comparator runs only after the proposer has been settled and its reservation closed, and the states follow
  the fixed path forward, so that a plan is never prepared twice and an ended one stays ended.
\<close>

theorem aux_slot_sequential:
  assumes "new_aux s (new_budget_ledger E t) epoch host memory anchor cleanup fixture = Inr A0"
    and "A = run aux_step A0 xs" "B = run aux_step A ys"
  shows "ax_active A = (if ax_state A = ProposerActive then Some Propose
      else if ax_state A = ComparatorActive then Some Compare else None) \<and>
    (ax_active A = Some Compare \<longrightarrow> ax_prop_settled A \<and> ax_prop_res A = None) \<and>
    (ax_state B = ax_state A \<or> phase_rank (ax_state A) < phase_rank (ax_state B)) \<and>
    (ax_state A \<in> {Denied, Done, Aborted} \<longrightarrow> ax_state B = ax_state A)"
proof -
  have "aux_inv A"
    unfolding assms(2) by (rule auxiliary.run_inv [OF new_aux_inv [OF assms(1)]])
  moreover have "phase_rank (ax_state B) \<le> 5" by (cases "ax_state B") auto
  ultimately show ?thesis
    using run_forward [of A ys] by (cases "ax_state A") (auto simp: aux_inv_def assms(3))
qed

lemma plan_admitted:
  assumes "plan_denial A action p c slack clock = Inr None"
  shows "co_role p = wanted_role action \<and> co_role c = ''COMPARE_PAIR'' \<and> cost_denial A p = None \<and> cost_denial A c = None \<and>
    (\<exists>x. native_slack slack = Inr (Some x) \<and>
      (let wall = f_add (f_add (co_wall p) (co_wall c)) (ax_cleanup A) in
       \<not> f_less x wall \<and> \<not> f_less (wall_remaining_ms (ax_ledger A) clock) wall)) \<and>
    ax_anchor_memory A + max (co_memory p) (co_memory c) \<le> ax_memory A"
  using assms by (auto simp: plan_denial_def rbind_eq_Inr Let_def not_less split: if_splits option.splits)

lemma prepare_cases:
  assumes "prepare action proposer comparator epoch slack clock A = (A', Inr a)" "a \<noteq> ''NONE''"
  shows "ax_state A = Idle \<and> action \<in> set aux_actions \<and> epoch = ax_epoch A \<and>
    (\<exists>p c. proposer = Some p \<and> comparator = Some c \<and>
      plan_denial (A\<lparr>ax_state := Denied\<rparr>) action p c slack clock = Inr None \<and>
      prepare_admitted action p c (A\<lparr>ax_state := Denied\<rparr>) = (A', Inr a))"
  using assms
  by (auto simp: prepare_def checked_def raising_def Let_def deny_plan_def ensure_def split: sum.splits option.splits if_splits)

text \<open>
  A cost that passes was measured at this source commit, under this profile and on this host, and
  was reviewed independently; only a scheduler in fixture mode takes the label of the test fixture instead.
\<close>

lemma cost_denial_None:
  "cost_denial A c = None \<longleftrightarrow> co_commit c = si_commit (ax_search A) \<and> co_profile c = si_profile (ax_search A) \<and>
     co_host c = ax_host A \<and>
     co_review c \<in> insert ''INDEPENDENTLY_REVIEWED'' (if ax_fixture A then {''SOURCE_TEST_FIXTURE''} else {})"
  by (auto simp: cost_denial_def)

text \<open>
  C26. Admission is paid for in advance: a plan that is admitted is for the current epoch and the two
  roles of its action; both costs were measured at the source commit, the profile and the host of the
  search and are independently reviewed (in fixture mode the fixture label is taken too); both together with the
  cleanup fit into the native slack and the remaining wall time, and the larger of their memories into the memory envelope;
  and the ledger has granted the comparator before the proposer.
\<close>

theorem aux_admission_paid:
  assumes "prepare action proposer comparator epoch slack clock A = (A', Inr a)" "a \<noteq> ''NONE''"
  shows "a = action \<and> epoch = ax_epoch A \<and> ax_state A = Idle \<and>
    (\<exists>p c x B1 cr B2 pr. proposer = Some p \<and> comparator = Some c \<and>
    co_role p = wanted_role action \<and> co_role c = ''COMPARE_PAIR'' \<and>
    (\<forall>q \<in> {p, c}. co_commit q = si_commit (ax_search A) \<and> co_profile q = si_profile (ax_search A) \<and>
       co_host q = ax_host A \<and>
       co_review q \<in> insert ''INDEPENDENTLY_REVIEWED'' (if ax_fixture A then {''SOURCE_TEST_FIXTURE''} else {})) \<and>
    native_slack slack = Inr (Some x) \<and>
    (let wall = f_add (f_add (co_wall p) (co_wall c)) (ax_cleanup A) in
       \<not> f_less x wall \<and> \<not> f_less (wall_remaining_ms (ax_ledger A) clock) wall) \<and>
    ax_anchor_memory A + max (co_memory p) (co_memory c) \<le> ax_memory A \<and>
    reserve_cost (ax_ledger A) ''strength-s3-compare'' c ''verify'' = (B1, Inr cr) \<and>
    reserve_cost B1 ''strength-s3-propose'' p ''solver'' = (B2, Inr pr) \<and>
    ax_ledger A' = B2 \<and> ax_comp_res A' = Some cr \<and> ax_prop_res A' = Some pr \<and> ax_state A' = Reserved)"
proof -
  let ?D = "A\<lparr>ax_state := Denied\<rparr>"
  obtain p c where pc: "proposer = Some p" "comparator = Some c" "epoch = ax_epoch A"
      "plan_denial ?D action p c slack clock = Inr None" "prepare_admitted action p c ?D = (A', Inr a)"
    using prepare_cases [OF assms] by blast
  have "cost_denial ?D = cost_denial A" by (simp add: cost_denial_def fun_eq_iff)
  moreover have "ax_state A = Idle" using prepare_cases [OF assms] by blast
  ultimately show ?thesis
    using plan_admitted [OF pc(4)] prepare_admitted_reserves [OF pc(5) assms(2)] pc(1-3)
    by (simp add: cost_denial_None)
qed

section \<open>Concrete runs\<close>

definition sample_cost :: "string \<Rightarrow> string \<Rightarrow> cost_observation" where
  "sample_cost r family = \<lparr>co_role = r, co_commit = replicate 40 (CHR ''1''), co_profile = replicate 64 (CHR ''2''),
     co_host = replicate 64 (CHR ''5''), co_evidence = replicate 64 (CHR ''6''), co_limit = 1000,
     co_semantics = family, co_cpu = Fin 100, co_gpu = Fin 0, co_wall = Fin 100, co_memory = 5,
     co_review = ''INDEPENDENTLY_REVIEWED''\<rparr>"

definition sample_aux :: aux where
  "sample_aux = \<lparr>ax_search = sample_search, ax_ledger = new_budget_ledger sample_envelope (Fin 0), ax_epoch = 1,
     ax_host = replicate 64 (CHR ''5''), ax_memory = 10, ax_anchor_memory = 1, ax_cleanup = Fin 5,
     ax_fixture = False, ax_action = ''NONE'', ax_state = Idle, ax_reason = ''DEFAULT_NONE'',
     ax_proposer = None, ax_comparator = None, ax_prop_res = None, ax_comp_res = None,
     ax_prop_settled = False, ax_comp_settled = False, ax_failure = False, ax_active = None, ax_events = []\<rparr>"

definition sample_propose :: cost_observation where
  "sample_propose = sample_cost ''PROPOSE_LC0'' ''lc0.uci_nodes''"

definition sample_compare :: cost_observation where
  "sample_compare = sample_cost ''COMPARE_PAIR'' ''stockfish.uci_nodes''"

lemma sample_aux_new: "new_aux sample_search (new_budget_ledger sample_envelope (Fin 0)) 1 (replicate 64 (CHR ''5'')) 10 1
    (Fin 5) False = Inr sample_aux"
  by (simp add: new_aux_def sample_aux_def sha256_text_def positive_quantity_def hex_char_def)

lemmas sample_values = sample_search_def sample_propose_def sample_compare_def sample_cost_def

lemma sample_identity_visit: "visit d (identity_dict sample_search) = Inr ()" if "d < 10"
  using that by (simp add: identity_dict_def turn_dict_def sample_search_def ensure_def int64_max_def)

lemma sample_cost_visit: "visit d (cost_dict sample_propose) = Inr ()" "visit d (cost_dict sample_compare) = Inr ()" if "d < 10"
  using that by (simp_all add: cost_dict_def sample_propose_def sample_compare_def sample_cost_def ensure_def int64_max_def)

lemma sample_turn_digest: "\<exists>h. turn_digest (si_turn sample_search) = Inr h \<and> length h = 64"
  by (simp add: turn_digest_def strength_digest_def canonical_text_def turn_dict_def sample_search_def ensure_def
    int64_max_def length_sha256_hex)

lemma sample_task_visit:
  assumes "length h = 64"
  shows "visit 0 (task_dict \<lparr>ta_search = sample_search, ta_role = ''PROPOSE_LC0'', ta_epoch = 1, ta_cost = sample_propose\<rparr> h) = Inr ()"
    "visit 0 (task_dict \<lparr>ta_search = sample_search, ta_role = ''COMPARE_PAIR'', ta_epoch = 1, ta_cost = sample_compare\<rparr> h) = Inr ()"
  using assms sample_identity_visit [of 1] sample_cost_visit [of 1]
  by (simp_all add: task_dict_def ensure_def int64_max_def aux_phases_def)

lemma sample_digests:
  "\<exists>h. task_digest \<lparr>ta_search = sample_search, ta_role = ''PROPOSE_LC0'', ta_epoch = 1, ta_cost = sample_propose\<rparr> = Inr h"
  "\<exists>h. task_digest \<lparr>ta_search = sample_search, ta_role = ''COMPARE_PAIR'', ta_epoch = 1, ta_cost = sample_compare\<rparr> = Inr h"
  using sample_turn_digest sample_task_visit
  by (auto simp: task_digest_def strength_digest_def canonical_text_def)

lemma aux_sample_plan:
  "plan_denial (sample_aux\<lparr>ax_state := Denied\<rparr>) ''LC0_ONLY'' sample_propose sample_compare (PFloat (Fin 900)) (Fin 0) = Inr None"
  by (simp add: plan_denial_def sample_aux_def sample_values wanted_role_def cost_denial_def native_slack_def
    wall_remaining_ms_def elapsed_ms_def new_budget_ledger_def sample_envelope_def float_eval Let_def)


abbreviation sample_prepare :: "aux \<Rightarrow> aux \<times> (aux_error + string)" where
  "sample_prepare \<equiv> prepare ''LC0_ONLY'' (Some sample_propose) (Some sample_compare) 1 (PFloat (Fin 900)) (Fin 0)"

abbreviation sample_prepare_op :: aux_op where
  "sample_prepare_op \<equiv> XPrepare ''LC0_ONLY'' (Some sample_propose) (Some sample_compare) 1 (PFloat (Fin 900)) (Fin 0)"

lemma sample_tasks:
  assumes "ax_search A = sample_search" "ax_epoch A = 1"
  shows "make_task A ''PROPOSE_LC0'' sample_propose = Inr \<lparr>ta_search = sample_search, ta_role = ''PROPOSE_LC0'', ta_epoch = 1, ta_cost = sample_propose\<rparr>"
    "make_task A ''COMPARE_PAIR'' sample_compare = Inr \<lparr>ta_search = sample_search, ta_role = ''COMPARE_PAIR'', ta_epoch = 1, ta_cost = sample_compare\<rparr>"
  using assms by (simp_all add: make_task_def check_task_def sample_values aux_phases_def)

lemma sample_pair:
  assumes "ax_ledger A = new_budget_ledger sample_envelope (Fin 0)"
  shows "snd (reserve_pair sample_propose sample_compare A)"
  by (simp add: assms reserve_pair_def reserve_cost_def sample_values new_budget_ledger_def sample_envelope_def budget_eval)

lemma sample_prepared: "snd (sample_prepare sample_aux) = Inr ''LC0_ONLY''"
proof -
  let ?A = "sample_aux\<lparr>ax_state := Denied\<rparr>"
  let ?P = "\<lparr>ta_search = sample_search, ta_role = ''PROPOSE_LC0'', ta_epoch = 1, ta_cost = sample_propose\<rparr>"
  let ?C = "\<lparr>ta_search = sample_search, ta_role = ''COMPARE_PAIR'', ta_epoch = 1, ta_cost = sample_compare\<rparr>"
  have fields: "ax_search sample_aux = sample_search" "ax_epoch sample_aux = 1" "ax_state sample_aux = Idle"
      "ax_ledger sample_aux = new_budget_ledger sample_envelope (Fin 0)"
    by (simp_all add: sample_aux_def)
  have "snd (reserve_pair sample_propose sample_compare (?A\<lparr>ax_proposer := Some ?P, ax_comparator := Some ?C\<rparr>))"
    by (rule sample_pair) (simp add: fields)
  moreover obtain p c where "task_digest ?P = Inr p" "task_digest ?C = Inr c"
    using sample_digests by blast
  ultimately have "snd (prepare_admitted ''LC0_ONLY'' sample_propose sample_compare ?A) = Inr ''LC0_ONLY''"
    using sample_tasks fields
    by (auto simp: prepare_admitted_def checked_def wanted_role_def Let_def split: prod.split)
  with aux_sample_plan fields show ?thesis
    by (simp add: prepare_def checked_def aux_actions_def Let_def)
qed

theorem aux_admission_paid_witness:
  "\<exists>A'. sample_prepare sample_aux = (A', Inr ''LC0_ONLY'') \<and> ax_state A' = Reserved \<and> ax_comp_res A' \<noteq> None \<and>
     ax_prop_res A' \<noteq> None"
proof -
  obtain A' where prep: "sample_prepare sample_aux = (A', Inr ''LC0_ONLY'')"
    using sample_prepared by (cases "sample_prepare sample_aux") simp
  moreover have "(''LC0_ONLY'' :: string) \<noteq> ''NONE''" by simp
  ultimately show ?thesis using aux_admission_paid [OF prep] by auto
qed

lemma sample_reserved: "ax_state (run aux_step sample_aux [sample_prepare_op]) = Reserved"
proof -
  obtain A' where prep: "sample_prepare sample_aux = (A', Inr ''LC0_ONLY'')"
    using sample_prepared by (cases "sample_prepare sample_aux") simp
  then have "ax_state A' = Reserved"
    using prepare_cases [OF prep] prepare_admitted_reserves by fastforce
  with prep show ?thesis by simp
qed

theorem aux_reservations_exact_witness:
  "length (own_open (ax_ledger (run aux_step sample_aux [sample_prepare_op]))) = 2"
  using aux_reservations_exact [OF sample_aux_new refl, of "[sample_prepare_op]"] sample_reserved
  by (simp add: held_count_def)

theorem aux_slot_sequential_witness:
  "ax_active (run aux_step sample_aux [sample_prepare_op]) = None \<and>
   ax_state (run aux_step sample_aux ([sample_prepare_op] @ [XFinish])) \<noteq> Idle"
  using aux_slot_sequential [OF sample_aux_new refl refl, of "[sample_prepare_op]" "[XFinish]"] sample_reserved
  by (auto simp: run_append)

end
