(* ===== verification/EpochLaws.thy ===== *)
theory EpochLaws
  imports Strength
begin

text \<open>
  Laws of the incumbent tracker and of the pair frames: the epoch of a checkpoint tells
  whether its move has been leading without interruption, reports of the engine never make the
  tracker raise, and a pair consists of the latest exact reports of one depth.
\<close>

section \<open>Epochs\<close>

datatype track_op = TNote uci_frame int int | TTerminal string int int

fun track_step :: "tracker \<Rightarrow> track_op \<Rightarrow> tracker \<times> (strength_error + checkpoint option)" where
  "track_step T (TNote f tok observed) = note_frame T f tok observed"
| "track_step T (TTerminal t tok observed) = map_prod id (map_sum id Some) (terminal T t tok observed)"

text \<open>The calls that name a new or the same leading move.\<close>

fun accepted :: "tracker \<Rightarrow> track_op \<Rightarrow> bool" where
  "accepted T (TNote f tok observed) \<longleftrightarrow> \<not> tr_closed T \<and> tok = tk_generation (si_turn (tr_identity T)) \<and>
     uf_multipv f = 1 \<and> eligible T (uf_move f) \<and> 0 < uf_depth f"
| "accepted T (TTerminal t tok observed) \<longleftrightarrow> \<not> tr_closed T \<and> tok = tk_generation (si_turn (tr_identity T)) \<and>
     eligible T t"

fun named_move :: "track_op \<Rightarrow> string" where
  "named_move (TNote f tok observed) = uf_move f"
| "named_move (TTerminal t tok observed) = t"

lemma advance_fields [simp]:
  "tr_epoch (advance T t) = tr_epoch T + of_bool (tr_incumbent T \<noteq> Some t)"
  "tr_progress (advance T t) = tr_progress T + 1"
  "tr_incumbent (advance T t) = Some t" "tr_current (advance T t) = tr_current T"
  "tr_closed (advance T t) = tr_closed T" "tr_identity (advance T t) = tr_identity T"
  "tr_roots (advance T t) = tr_roots T"
  by (simp_all add: advance_def)

lemma eligible_seen [simp]: "eligible (T\<lparr>tr_seen := n\<rparr>) t = eligible T t"
  by (simp add: eligible_def)

lemma check_checkpoint_Inr: "check_checkpoint c = Inr d \<Longrightarrow> d = c"
  by (auto simp: check_checkpoint_def rbind_eq_Inr)

lemma place_checkpoint_cases:
  assumes "place_checkpoint T build = (T', r)"
  shows "(T' = T \<and> (\<exists>e. r = Inl e)) \<or> (\<exists>digest c. c = build digest \<and> T' = T\<lparr>tr_current := Some c\<rparr> \<and> r = Inr c \<and> check_checkpoint c = Inr c)"
proof (cases "search_digest (tr_identity T)")
  case digest: (Inr digest)
  show ?thesis
  proof (cases "check_checkpoint (build digest)")
    case (Inl e)
    with digest assms have "T' = T" "r = Inl e" by (simp_all add: place_checkpoint_def)
    then show ?thesis by blast
  next
    case (Inr c)
    with digest assms check_checkpoint_Inr [OF Inr] show ?thesis by (auto simp: place_checkpoint_def)
  qed
qed (use assms in \<open>auto simp: place_checkpoint_def\<close>)

lemma track_step_ignored:
  assumes "\<not> accepted T x" "track_step T x = (T', r)"
  shows "tr_epoch T' = tr_epoch T \<and> tr_progress T' = tr_progress T \<and> tr_incumbent T' = tr_incumbent T \<and>
    tr_current T' = tr_current T \<and> tr_identity T' = tr_identity T \<and> tr_roots T' = tr_roots T \<and> (\<forall>c. r \<noteq> Inr (Some c))"
proof (cases x)
  case (TNote f tok observed)
  then show ?thesis using assms
    by (auto simp: note_frame_def raising_def ensure_def eligible_def Let_def split: sum.splits if_splits)
next
  case (TTerminal t tok observed)
  then show ?thesis using assms by (auto simp: terminal_def raising_def ensure_def split: sum.splits if_splits)
qed

lemma track_step_accepted:
  assumes "accepted T x" "track_step T x = (T', r)"
  shows "tr_epoch T' = tr_epoch T + of_bool (tr_incumbent T \<noteq> Some (named_move x)) \<and> tr_progress T' = tr_progress T + 1 \<and>
    tr_incumbent T' = Some (named_move x) \<and> tr_identity T' = tr_identity T \<and> tr_roots T' = tr_roots T \<and>
    ((tr_current T' = tr_current T \<and> (\<exists>e. r = Inl e)) \<or>
     (\<exists>c. r = Inr (Some c) \<and> tr_current T' = Some c \<and> cp_epoch c = tr_epoch T' \<and> cp_progress c = tr_progress T' \<and>
       cp_move c = named_move x \<and> check_checkpoint c = Inr c))"
proof (cases x)
  case (TNote f tok observed)
  let ?T = "advance (T\<lparr>tr_seen := Suc (tr_seen T)\<rparr>) (uf_move f)"
  obtain U s where place: "place_checkpoint ?T (frame_checkpoint ?T f observed) = (U, s)"
    by fastforce
  have "\<not> tr_closed T" "tok = tk_generation (si_turn (tr_identity T))" "uf_multipv f = 1" "eligible T (uf_move f)" "0 < uf_depth f"
    using assms(1) TNote by auto
  then have "T' = U" "r = map_sum id Some s"
    using assms(2) place by (simp_all add: TNote note_frame_def Let_def)
  with place_checkpoint_cases [OF place] TNote show ?thesis by (auto simp: frame_checkpoint_def)
next
  case (TTerminal t tok observed)
  let ?T = "advance T t" and ?P = "if tr_incumbent T = Some t then tr_current T else None"
  obtain U s where place: "place_checkpoint ?T (final_checkpoint ?T ?P t observed) = (U, s)"
    by fastforce
  have "\<not> tr_closed T" "tok = tk_generation (si_turn (tr_identity T))" "eligible T t"
    using assms(1) TTerminal by auto
  then have "T' = (case s of Inl e \<Rightarrow> U | Inr c \<Rightarrow> U\<lparr>tr_closed := True\<rparr>)" "r = map_sum id Some s"
    using assms(2) place by (auto simp: TTerminal terminal_def Let_def split: sum.splits)
  with place_checkpoint_cases [OF place] TTerminal show ?thesis
    by (auto simp: final_checkpoint_def split: if_splits)
qed

text \<open>The counters only grow, and the epoch stands still exactly while the same move leads.\<close>

lemma track_step_counters:
  "tr_epoch T \<le> tr_epoch (fst (track_step T x)) \<and>
   (tr_epoch (fst (track_step T x)) = tr_epoch T \<longleftrightarrow> tr_incumbent (fst (track_step T x)) = tr_incumbent T) \<and>
   tr_progress (fst (track_step T x)) = tr_progress T + of_bool (accepted T x) \<and>
   (tr_current T \<noteq> None \<longrightarrow> tr_current (fst (track_step T x)) \<noteq> None)"
proof -
  obtain T' r where step: "track_step T x = (T', r)" by (cases "track_step T x")
  then show ?thesis
    using track_step_ignored [OF _ step] track_step_accepted [OF _ step] by (cases "accepted T x") auto
qed

lemma run_counters:
  "tr_epoch T \<le> tr_epoch (run track_step T xs) \<and> tr_progress T \<le> tr_progress (run track_step T xs) \<and>
   (tr_current T \<noteq> None \<longrightarrow> tr_current (run track_step T xs) \<noteq> None)"
proof (induction xs arbitrary: T)
  case (Cons x xs)
  show ?case using Cons [of "fst (track_step T x)"] track_step_counters [of T x] by (auto simp: of_bool_def split: if_splits)
qed simp

lemma run_epoch_same:
  "tr_epoch (run track_step T xs) = tr_epoch T \<longleftrightarrow>
   (\<forall>n. tr_incumbent (run track_step T (take n xs)) = tr_incumbent T)"
proof (induction xs arbitrary: T)
  case (Cons x xs)
  let ?T = "fst (track_step T x)"
  have le: "tr_epoch T \<le> tr_epoch ?T" "tr_epoch ?T \<le> tr_epoch (run track_step ?T xs)"
    using track_step_counters run_counters by blast+
  have "(\<forall>n. tr_incumbent (run track_step T (take n (x # xs))) = tr_incumbent T) \<longleftrightarrow>
      (\<forall>n. tr_incumbent (run track_step ?T (take n xs)) = tr_incumbent T)"
    by (metis run_Cons run_Nil take_Suc_Cons take_0 not0_implies_Suc)
  also have "\<dots> \<longleftrightarrow> tr_incumbent ?T = tr_incumbent T \<and>
      (\<forall>n. tr_incumbent (run track_step ?T (take n xs)) = tr_incumbent ?T)"
    by (metis run_Nil take_0)
  also have "\<dots> \<longleftrightarrow> tr_epoch ?T = tr_epoch T \<and> tr_epoch (run track_step ?T xs) = tr_epoch ?T"
    using Cons [of ?T] track_step_counters [of T x] by simp
  finally show ?case using le by auto
qed simp

lemma run_progress_same:
  "tr_progress (run track_step T xs) = tr_progress T \<longleftrightarrow>
   (\<forall>n < length xs. \<not> accepted (run track_step T (take n xs)) (xs ! n))"
proof (induction xs arbitrary: T)
  case (Cons x xs)
  let ?T = "fst (track_step T x)"
  have "(\<forall>n < length (x # xs). \<not> accepted (run track_step T (take n (x # xs))) ((x # xs) ! n)) \<longleftrightarrow>
      \<not> accepted T x \<and> (\<forall>n < length xs. \<not> accepted (run track_step ?T (take n xs)) (xs ! n))"
    by (auto simp: less_Suc_eq_0_disj)
  then show ?case
    using Cons [of ?T] track_step_counters [of T x] run_counters [of ?T xs]
    by (auto simp: of_bool_def split: if_splits)
qed simp

lemma run_quiet:
  "tr_progress (run track_step T xs) = tr_progress T \<Longrightarrow> tr_epoch (run track_step T xs) = tr_epoch T"
proof (induction xs arbitrary: T)
  case (Cons x xs)
  let ?T = "fst (track_step T x)"
  have "tr_progress (run track_step ?T xs) = tr_progress ?T \<and> \<not> accepted T x"
    using Cons.prems track_step_counters [of T x] run_counters [of ?T xs]
    by (auto simp: of_bool_def split: if_splits)
  moreover from this have "tr_epoch ?T = tr_epoch T"
    using track_step_ignored [of T x ?T "snd (track_step T x)"] by simp
  ultimately show ?case using Cons.IH [of ?T] by simp
qed simp

text \<open>
  C27. A checkpoint is current exactly while its move has been leading without interruption: a return to
  the same move after another one is told apart, and with the progress number a checkpoint is current
  exactly while no further report was accepted.  Later checkpoints have greater numbers.
\<close>

theorem checkpoint_currency_exact:
  assumes "track_step A x = (A1, Inr (Some c))" "B = run track_step A1 ys"
  shows "(is_current B (cp_epoch c) (cp_move c) None \<longleftrightarrow>
      (\<forall>n. tr_incumbent (run track_step A1 (take n ys)) = Some (cp_move c))) \<and>
    (is_current B (cp_epoch c) (cp_move c) (Some (cp_progress c)) \<longleftrightarrow>
      (\<forall>n < length ys. \<not> accepted (run track_step A1 (take n ys)) (ys ! n))) \<and>
    (\<forall>y B1 d. track_step B y = (B1, Inr (Some d)) \<longrightarrow> cp_progress c < cp_progress d \<and> cp_epoch c \<le> cp_epoch d \<and>
      (cp_epoch c = cp_epoch d \<longrightarrow> cp_move c = cp_move d))"
proof -
  have made: "cp_epoch c = tr_epoch A1 \<and> cp_progress c = tr_progress A1 \<and> tr_incumbent A1 = Some (cp_move c) \<and> tr_current A1 = Some c"
    using track_step_ignored [OF _ assms(1)] track_step_accepted [OF _ assms(1)] by (cases "accepted A x") auto
  then have current: "tr_current B \<noteq> None" and mono: "tr_epoch A1 \<le> tr_epoch B" "tr_progress A1 \<le> tr_progress B"
    using run_counters [of A1 ys] unfolding assms(2) by auto
  have reign: "tr_epoch B = tr_epoch A1 \<longleftrightarrow> (\<forall>n. tr_incumbent (run track_step A1 (take n ys)) = Some (cp_move c))"
    using run_epoch_same [of A1 ys] made by (simp add: assms(2))
  moreover have at_end: "tr_epoch B = tr_epoch A1 \<Longrightarrow> tr_incumbent B = Some (cp_move c)"
    using reign assms(2) by (metis take_all_iff order_refl)
  moreover have idle: "tr_progress B = tr_progress A1 \<Longrightarrow> tr_epoch B = tr_epoch A1"
    using run_quiet [of A1 ys] by (simp add: assms(2))
  moreover have "cp_progress c < cp_progress d \<and> cp_epoch c \<le> cp_epoch d \<and> (cp_epoch c = cp_epoch d \<longrightarrow> cp_move c = cp_move d)"
    if later: "track_step B y = (B1, Inr (Some d))" for y B1 d
    using track_step_ignored [OF _ later] track_step_accepted [OF _ later] made mono at_end
    by (cases "accepted B y") (auto split: if_splits)
  ultimately show ?thesis
    using current made run_progress_same [of A1 ys] by (auto simp: is_current_def assms(2))
qed

section \<open>Reports of the engine are accepted\<close>

definition frame_ok :: "uci_frame \<Rightarrow> bool" where
  "frame_ok f \<longleftrightarrow> uci_move (uf_move f) \<and> 1 \<le> uf_depth f \<and> 1 \<le> uf_multipv f \<and> uf_multipv f \<le> 16 \<and>
     0 \<le> uf_nodes f \<and> uf_nodes f \<le> int64_max \<and> score_ok (uf_cp f) \<and> score_ok (uf_mate f) \<and>
     (uf_exact f \<longleftrightarrow> (uf_cp f = None) \<noteq> (uf_mate f = None)) \<and> (uf_cp f = None \<or> uf_mate f = None) \<and>
     (uf_exact f \<longrightarrow> uf_bound f = None)"

lemma score_value_Inr: "score_value head = Inr (k, i) \<Longrightarrow> k \<in> {''cp'', ''mate''} \<and> \<bar>i\<bar> < 1000000"
  by (auto simp: score_value_def rbind_eq_Inr split: list.splits)

lemma parse_tokens_ok: "parse_tokens line ts = Inr (Some f) \<Longrightarrow> frame_ok f \<and> uf_raw f = line"
  unfolding parse_tokens_def Let_def
  by (auto simp: rbind_eq_Inr frame_ok_def score_ok_def split: list.splits if_splits dest!: score_value_Inr)

lemma parse_info_ok: "parse_info line = Some f \<Longrightarrow> frame_ok f \<and> uf_raw f = line"
  by (auto simp: parse_info_def Let_def split: if_splits sum.splits dest: parse_tokens_ok)

definition identity_ok :: "search_identity \<Rightarrow> bool" where
  "identity_ok s \<longleftrightarrow> check_turn (si_turn s) = Inr (si_turn s) \<and> check_identity s = Inr s \<and>
     tk_generation (si_turn s) \<le> int64_max"

lemma identity_lengths:
  assumes "identity_ok s"
  shows "length (tk_session (si_turn s)) = 32" "length (tk_history (si_turn s)) = 64" "length (tk_restriction (si_turn s)) = 64"
    "length (tk_nonce (si_turn s)) = 32" "length (tk_side (si_turn s)) = 1" "length (tk_variant (si_turn s)) = 8"
    "length (si_commit s) = 40" "length (si_profile s) = 64" "length (si_binary s) = 64" "length (si_options s) = 64"
    "\<bar>tk_generation (si_turn s)\<bar> \<le> int64_max"
  using assms by (auto simp: identity_ok_def check_turn_def check_identity_def hex_text_def sha256_text_def)

lemma identity_digest:
  assumes "identity_ok s"
  shows "\<exists>d. search_digest s = Inr d \<and> sha256_text d"
  using identity_lengths(11) [OF assms]
  by (simp add: search_digest_def strength_digest_def canonical_text_def identity_dict_def turn_dict_def ensure_def
    identity_lengths(1-10) [OF assms] int64_max_def sha256_hex_text)

definition tracked :: "search_identity \<Rightarrow> string list \<Rightarrow> tracker \<Rightarrow> bool" where
  "tracked s roots T \<longleftrightarrow> tr_identity T = s \<and> tr_roots T = roots \<and> 0 \<le> tr_epoch T \<and> 0 \<le> tr_progress T \<and>
     (tr_incumbent T \<noteq> None \<longrightarrow> 1 \<le> tr_epoch T) \<and> (\<forall>c. tr_current T = Some c \<longrightarrow> check_checkpoint c = Inr c)"

lemma tracked_step:
  assumes "tracked s roots T"
  shows "tracked s roots (fst (track_step T x))"
proof -
  obtain T' r where step: "track_step T x = (T', r)" by (cases "track_step T x")
  then show ?thesis
    using track_step_ignored [OF _ step] track_step_accepted [OF _ step] assms
    by (cases "accepted T x") (auto simp: tracked_def)
qed

interpretation epochs: machine track_step "tracked s roots" for s roots
  by unfold_locales (rule tracked_step)

lemma new_tracker_tracked: "new_tracker s roots = Inr T \<Longrightarrow> tracked s roots T"
  by (auto simp: new_tracker_def tracked_def)

lemma place_checkpoint_total:
  assumes "identity_ok (tr_identity T)" "\<And>d. sha256_text d \<Longrightarrow> check_checkpoint (build d) = Inr (build d)"
  shows "\<exists>d. place_checkpoint T build = (T\<lparr>tr_current := Some (build d)\<rparr>, Inr (build d)) \<and> check_checkpoint (build d) = Inr (build d)"
  using identity_digest [OF assms(1)] assms(2) by (auto simp: place_checkpoint_def)

lemma note_frame_total:
  assumes "identity_ok s" "tracked s roots T" "\<not> tr_closed T" "frame_ok f" "0 \<le> observed" "tok = tk_generation (si_turn s)"
  shows "\<exists>T' r. note_frame T f tok observed = (T', Inr r) \<and> (r = None \<longleftrightarrow> uf_multipv f \<noteq> 1 \<or> \<not> eligible T (uf_move f)) \<and>
    (\<forall>c. r = Some c \<longrightarrow> cp_move c = uf_move f \<and> cp_depth c = uf_depth f \<and> cp_nodes c = uf_nodes f)"
proof (cases "uf_multipv f \<noteq> 1 \<or> \<not> eligible T (uf_move f)")
  case True
  then show ?thesis using assms by (simp add: note_frame_def tracked_def Let_def)
next
  case False
  let ?T = "advance (T\<lparr>tr_seen := Suc (tr_seen T)\<rparr>) (uf_move f)"
  have "check_checkpoint (frame_checkpoint ?T f observed d) = Inr (frame_checkpoint ?T f observed d)" if "sha256_text d" for d
    using assms that False
    by (auto simp: frame_checkpoint_def tracked_def frame_ok_def check_checkpoint_def score_ok_def eligible_def split: option.splits)
  then obtain d where "place_checkpoint ?T (frame_checkpoint ?T f observed) =
      (?T\<lparr>tr_current := Some (frame_checkpoint ?T f observed d)\<rparr>, Inr (frame_checkpoint ?T f observed d))"
    using place_checkpoint_total [of ?T "frame_checkpoint ?T f observed"] assms by (auto simp: tracked_def)
  then show ?thesis using False assms
    by (auto simp: note_frame_def tracked_def Let_def frame_ok_def) (simp_all add: frame_checkpoint_def)
qed

lemma terminal_total:
  assumes "identity_ok s" "tracked s roots T" "\<not> tr_closed T" "eligible T t" "0 \<le> observed" "tok = tk_generation (si_turn s)"
  shows "\<exists>T' c. terminal T t tok observed = (T', Inr c) \<and> cp_move c = t \<and> tr_closed T'"
proof -
  let ?T = "advance T t" and ?P = "if tr_incumbent T = Some t then tr_current T else None"
  have "check_checkpoint (final_checkpoint ?T ?P t observed d) = Inr (final_checkpoint ?T ?P t observed d)" if "sha256_text d" for d
  proof -
    have "check_checkpoint c = Inr c" if "?P = Some c" for c using assms(2) that by (auto simp: tracked_def split: if_splits)
    then have "?P = None \<or> (\<exists>c. ?P = Some c \<and> 0 < cp_depth c \<and> 0 \<le> cp_nodes c \<and> score_ok (cp_cp c) \<and> score_ok (cp_mate c) \<and>
        (cp_cp c = None \<or> cp_mate c = None))"
      by (cases ?P) (auto simp: check_checkpoint_def)
    with assms that show ?thesis
      by (elim disjE exE) (auto simp: final_checkpoint_def tracked_def check_checkpoint_def score_ok_def eligible_def
        simp del: if_split split: option.splits)
  qed
  then obtain d where "place_checkpoint ?T (final_checkpoint ?T ?P t observed) =
      (?T\<lparr>tr_current := Some (final_checkpoint ?T ?P t observed d)\<rparr>, Inr (final_checkpoint ?T ?P t observed d))"
    using place_checkpoint_total [of ?T "final_checkpoint ?T ?P t observed"] assms by (auto simp: tracked_def)
  then show ?thesis using assms
    by (simp add: terminal_def tracked_def Let_def) (simp add: final_checkpoint_def)
qed

text \<open>
  C28. On a valid identity the tracker never refuses the engine's own reports: as long as no
  terminal move has come, every report that the parser accepts is noted, with a checkpoint exactly
  for a first-rank move that is allowed, and the terminal move closes the tracker.
\<close>

theorem reports_accepted:
  assumes "identity_ok s" "new_tracker s roots = Inr T0" "T = run track_step T0 xs" "\<not> tr_closed T"
    and "parse_info line = Some f" "0 \<le> observed" "tok = tk_generation (si_turn s)"
  shows "frame_ok f \<and>
    (\<exists>T' r. note_frame T f tok observed = (T', Inr r) \<and> (r = None \<longleftrightarrow> uf_multipv f \<noteq> 1 \<or> \<not> eligible T (uf_move f)) \<and>
      (\<forall>c. r = Some c \<longrightarrow> cp_move c = uf_move f \<and> cp_depth c = uf_depth f \<and> cp_nodes c = uf_nodes f)) \<and>
    (\<forall>t. eligible T t \<longrightarrow> (\<exists>T' c. terminal T t tok observed = (T', Inr c) \<and> cp_move c = t \<and> tr_closed T'))"
proof -
  have "tracked s roots T"
    unfolding assms(3) by (rule epochs.run_inv [OF new_tracker_tracked [OF assms(2)]])
  then show ?thesis
    using note_frame_total [of s roots T f observed tok] terminal_total [of s roots T _ observed tok]
      parse_info_ok [OF assms(5)] assms by blast
qed

section \<open>Pairs of reports\<close>

text \<open>The last report of a rank at a depth among the lines read so far.\<close>

definition last_report :: "string list \<Rightarrow> int \<Rightarrow> int \<Rightarrow> uci_frame option" where
  "last_report lines d k = (case rev (filter (\<lambda>f. uf_depth f = d \<and> uf_multipv f = k) (List.map_filter parse_info lines)) of
     [] \<Rightarrow> None | f # _ \<Rightarrow> Some f)"

lemma last_report_parsed:
  assumes "last_report lines d k = Some f"
  shows "\<exists>line \<in> set lines. parse_info line = Some f"
proof -
  let ?fs = "filter (\<lambda>f. uf_depth f = d \<and> uf_multipv f = k) (List.map_filter parse_info lines)"
  obtain fs where "rev ?fs = f # fs" using assms by (auto simp: last_report_def split: list.splits)
  then have "f \<in> set (rev ?fs)" by simp
  then show ?thesis by (auto simp: List.map_filter_def)
qed

definition rows_after :: "string list \<Rightarrow> frame_rows" where
  "rows_after lines = foldl (\<lambda>rows line. fst (observe_frame rows line)) [] lines"

lemma map_filter_snoc: "List.map_filter p (xs @ [x]) = List.map_filter p xs @ (case p x of None \<Rightarrow> [] | Some y \<Rightarrow> [y])"
  by (simp add: List.map_filter_def split: option.splits)

lemma last_report_snoc:
  "last_report (lines @ [line]) d k = (case parse_info line of None \<Rightarrow> last_report lines d k
     | Some f \<Rightarrow> if uf_depth f = d \<and> uf_multipv f = k then Some f else last_report lines d k)"
  by (simp add: last_report_def map_filter_snoc split: option.splits)

definition rows_sound :: "string list \<Rightarrow> frame_rows \<Rightarrow> bool" where
  "rows_sound lines rows \<longleftrightarrow> dict_ok rows \<and> length rows \<le> 128 \<and>
     (\<forall>d row k f. dict_get rows d = Some row \<longrightarrow> dict_get row k = Some f \<longrightarrow> last_report lines d k = Some f \<and> uf_exact f \<and>
        uf_depth f = d \<and> uf_multipv f = k \<and> k \<in> {1, 2})"

lemma dict_get_filter: "dict_get (filter (\<lambda>(k, v). P k) d) k = (if P k then dict_get d k else None)"
  by (induction d) auto

lemma prune_rows_get: "dict_get (prune_rows rows) d = Some row \<Longrightarrow> dict_get rows d = Some row"
  by (auto simp: prune_rows_def Let_def dict_get_filter split: if_splits)

lemma prune_rows_dict: "dict_ok rows \<Longrightarrow> dict_ok (prune_rows rows)"
  by (auto simp: prune_rows_def Let_def distinct_map_filter case_prod_unfold)

lemma prune_rows_length:
  assumes "dict_ok rows"
  shows "length (prune_rows rows) \<le> 128"
proof (cases "128 < length rows")
  case True
  let ?D = "sort (map fst rows)"
  let ?old = "take (length rows - 64) ?D"
  have "length (filter (\<lambda>(d, _). d \<notin> set ?old) rows) = length (filter (\<lambda>d. d \<notin> set ?old) (map fst rows))"
    by (simp add: filter_map comp_def case_prod_unfold)
  also have "\<dots> = card (set (map fst rows) - set ?old)"
  proof -
    have "set (filter (\<lambda>d. d \<notin> set ?old) (map fst rows)) = set (map fst rows) - set ?old" by auto
    with distinct_card [OF distinct_filter [OF assms, where P = "\<lambda>d. d \<notin> set ?old"]] show ?thesis by metis
  qed
  also have "\<dots> \<le> 64"
  proof -
    have "card (set ?old) = length rows - 64"
      using assms by (simp add: distinct_card)
    moreover have "set ?old \<subseteq> set (map fst rows)" by (metis set_sort set_take_subset)
    moreover have "card (set (map fst rows)) = length rows" using assms by (metis distinct_card length_map)
    ultimately show ?thesis using True by (simp add: card_Diff_subset)
  qed
  finally show ?thesis using True by (simp add: prune_rows_def Let_def)
qed (simp add: prune_rows_def)

lemma observe_rows:
  assumes "rows_sound lines rows"
  shows "rows_sound (lines @ [line]) (fst (observe_frame rows line)) \<and>
    (\<forall>a b. snd (observe_frame rows line) = Some (a, b) \<longrightarrow>
       last_report (lines @ [line]) (uf_depth a) 1 = Some a \<and> last_report (lines @ [line]) (uf_depth a) 2 = Some b \<and>
       uf_exact a \<and> uf_exact b \<and> comparable a b \<and> uf_depth b = uf_depth a \<and> parse_info line \<in> {Some a, Some b})"
proof (cases "parse_info line")
  case None
  with assms show ?thesis by (simp add: observe_frame_def rows_sound_def last_report_snoc)
next
  case (Some f)
  show ?thesis
  proof (cases "uf_multipv f \<in> {1, 2}")
    case False
    have "last_report (lines @ [line]) d k = last_report lines d k" if "k \<in> {1, 2}" for d k
      using that False Some by (auto simp: last_report_snoc)
    with False Some assms show ?thesis unfolding rows_sound_def observe_frame_def by simp
  next
    case True
    define old where "old = (case dict_get rows (uf_depth f) of None \<Rightarrow> [] | Some r \<Rightarrow> r)"
    define row where "row = (if uf_exact f then dict_set (uf_multipv f) f old else AList.delete (uf_multipv f) old)"
    have rowsd: "\<forall>k g. dict_get old k = Some g \<longrightarrow> last_report lines (uf_depth f) k = Some g \<and> uf_exact g \<and>
        uf_depth g = uf_depth f \<and> uf_multipv g = k \<and> k \<in> {1, 2}"
      using assms by (auto simp: old_def rows_sound_def split: option.splits)
    have row: "last_report (lines @ [line]) (uf_depth f) k = Some g \<and> uf_exact g \<and> uf_depth g = uf_depth f \<and> uf_multipv g = k \<and> k \<in> {1, 2}"
      if "dict_get row k = Some g" for k g
      using that rowsd Some True by (auto simp: row_def last_report_snoc delete_conv' split: if_splits)
    have rows': "fst (observe_frame rows line) = prune_rows (dict_set (uf_depth f) row rows)"
        "snd (observe_frame rows line) = (case (dict_get row 1, dict_get row 2) of
           (Some a, Some b) \<Rightarrow> if comparable a b then Some (a, b) else None | _ \<Rightarrow> None)"
      unfolding row_def old_def using True by (simp_all add: observe_frame_def Some Let_def)
    have "rows_sound (lines @ [line]) (prune_rows (dict_set (uf_depth f) row rows))"
      unfolding rows_sound_def
    proof (intro conjI allI impI)
      show "dict_ok (prune_rows (dict_set (uf_depth f) row rows))" "length (prune_rows (dict_set (uf_depth f) row rows)) \<le> 128"
        using assms by (auto intro!: prune_rows_dict prune_rows_length simp: rows_sound_def distinct_update)
      fix d r k g assume get: "dict_get (prune_rows (dict_set (uf_depth f) row rows)) d = Some r" "dict_get r k = Some g"
      have "last_report (lines @ [line]) d k = Some g \<and> uf_exact g \<and> uf_depth g = d \<and> uf_multipv g = k \<and> k \<in> {1, 2}"
      proof (cases "d = uf_depth f")
        case True
        with prune_rows_get [OF get(1)] get(2) show ?thesis by (metis dict_get_set fun_upd_same option.inject row)
      next
        case False
        with prune_rows_get [OF get(1)] get(2) assms Some show ?thesis
          unfolding rows_sound_def last_report_snoc by simp
      qed
      then show "last_report (lines @ [line]) d k = Some g" "uf_exact g" "uf_depth g = d" "uf_multipv g = k" "k \<in> {1, 2}"
        by blast+
    qed
    moreover have "parse_info line \<in> {Some a, Some b}" if "dict_get row 1 = Some a" "dict_get row 2 = Some b" for a b
      using that True Some by (auto simp: row_def delete_conv' split: if_splits)
    ultimately show ?thesis unfolding rows' using row by (auto split: option.splits if_splits)
  qed
qed

lemma rows_after_sound: "rows_sound lines (rows_after lines)"
proof (induction lines rule: rev_induct)
  case Nil
  show ?case by (simp add: rows_sound_def rows_after_def)
next
  case (snoc line lines)
  then show ?case using observe_rows by (simp add: rows_after_def)
qed

text \<open>
  However many lines are read, at most 128 depths are kept, and a pair consists of the
  latest reports of the first and second rank at the depth of the last line, both exact, for
  different moves and with scores of the same unit.
\<close>

theorem pair_frames_latest:
  assumes "snd (observe_frame (rows_after lines) line) = Some (a, b)"
  shows "length (rows_after (lines @ [line])) \<le> 128 \<and> parse_info line \<in> {Some a, Some b} \<and>
    last_report (lines @ [line]) (uf_depth a) 1 = Some a \<and> last_report (lines @ [line]) (uf_depth a) 2 = Some b \<and>
    uf_depth b = uf_depth a \<and> uf_bound a = None \<and> uf_bound b = None \<and> uf_move a \<noteq> uf_move b \<and>
    (uf_cp a = None \<longleftrightarrow> uf_cp b = None) \<and> (uf_mate a = None \<longleftrightarrow> uf_mate b = None)"
proof -
  have pair: "last_report (lines @ [line]) (uf_depth a) 1 = Some a" "last_report (lines @ [line]) (uf_depth a) 2 = Some b"
      "uf_exact a" "uf_exact b" "comparable a b" "uf_depth b = uf_depth a" "parse_info line \<in> {Some a, Some b}"
    using observe_rows [OF rows_after_sound, of lines line] assms by auto
  have "frame_ok f" if "last_report xs d k = Some f" for xs d k f
    using last_report_parsed [OF that] parse_info_ok by blast
  with pair(1,2) have "frame_ok a" "frame_ok b" by blast+
  with pair rows_after_sound [of "lines @ [line]"] show ?thesis
    by (auto simp: frame_ok_def comparable_def rows_sound_def)
qed

section \<open>Concrete runs\<close>

definition sample_frame :: "string \<Rightarrow> int \<Rightarrow> int \<Rightarrow> string \<Rightarrow> uci_frame" where
  "sample_frame t rank cp line = \<lparr>uf_move = t, uf_depth = 5, uf_multipv = rank, uf_nodes = 10, uf_cp = Some cp,
     uf_mate = None, uf_exact = True, uf_bound = None, uf_raw = line\<rparr>"

abbreviation first_line :: string where
  "first_line \<equiv> ''info depth 5 multipv 1 score cp 20 nodes 10 pv e2e4''"

abbreviation second_line :: string where
  "second_line \<equiv> ''info depth 5 multipv 2 score cp 15 nodes 10 pv d2d4''"

lemma sample_lines:
  "parse_info first_line = Some (sample_frame ''e2e4'' 1 20 first_line)"
  "parse_info second_line = Some (sample_frame ''d2d4'' 2 15 second_line)"
  by code_simp+

theorem pair_frames_latest_witness:
  "last_report [first_line, second_line] 5 2 = Some (sample_frame ''d2d4'' 2 15 second_line)"
proof -
  have "snd (observe_frame (rows_after [first_line]) second_line) =
      Some (sample_frame ''e2e4'' 1 20 first_line, sample_frame ''d2d4'' 2 15 second_line)"
    by (simp only: rows_after_def foldl.simps observe_frame_def sample_lines option.case)
      (simp add: sample_frame_def prune_rows_def comparable_def Let_def)
  from pair_frames_latest [OF this] show ?thesis by (simp add: sample_frame_def)
qed

lemma sample_identity_ok: "identity_ok sample_search"
  by (simp add: identity_ok_def sample_search_def check_turn_def check_identity_def hex_text_def sha256_text_def
    hex_char_def int64_max_def list_all_iff)

definition sample_tracker :: tracker where
  "sample_tracker = \<lparr>tr_identity = sample_search, tr_roots = [], tr_epoch = 0, tr_progress = 0, tr_incumbent = None,
     tr_current = None, tr_closed = False, tr_seen = 0\<rparr>"

lemma sample_tracker_new: "new_tracker sample_search [] = Inr sample_tracker"
  by (simp add: new_tracker_def sample_tracker_def)

lemma sample_eligible: "eligible sample_tracker ''e2e4''" "eligible sample_tracker ''d2d4''"
  by (simp_all add: eligible_def sample_tracker_def file_char_def rank_char_def)

theorem reports_accepted_witness:
  "\<exists>T c. note_frame sample_tracker (sample_frame ''e2e4'' 1 20 first_line) 1 0 = (T, Inr (Some c)) \<and> cp_move c = ''e2e4''"
proof -
  have "sample_tracker = run track_step sample_tracker []" "\<not> tr_closed sample_tracker" "0 \<le> (0::int)"
      "1 = tk_generation (si_turn sample_search)"
    by (simp_all add: sample_tracker_def sample_search_def)
  from reports_accepted [OF sample_identity_ok sample_tracker_new this(1,2) sample_lines(1) this(3,4)]
  obtain T r where noted: "note_frame sample_tracker (sample_frame ''e2e4'' 1 20 first_line) 1 0 = (T, Inr r)"
      "r = None \<longleftrightarrow> \<not> eligible sample_tracker ''e2e4''" "\<forall>c. r = Some c \<longrightarrow> cp_move c = ''e2e4''"
    by (auto simp: sample_frame_def)
  then show ?thesis using sample_eligible by (cases r) auto
qed

text \<open>The engine changes its mind and returns: the first checkpoint is no longer current.\<close>

theorem checkpoint_currency_exact_witness:
  "\<exists>T c. track_step sample_tracker (TNote (sample_frame ''e2e4'' 1 20 first_line) 1 0) = (T, Inr (Some c)) \<and>
     tr_incumbent (run track_step T [TNote (sample_frame ''d2d4'' 1 15 second_line) 1 0,
       TNote (sample_frame ''e2e4'' 1 20 first_line) 1 0]) = Some (cp_move c) \<and>
     \<not> is_current (run track_step T [TNote (sample_frame ''d2d4'' 1 15 second_line) 1 0,
       TNote (sample_frame ''e2e4'' 1 20 first_line) 1 0]) (cp_epoch c) (cp_move c) None"
proof -
  let ?x = "TNote (sample_frame ''e2e4'' 1 20 first_line) 1 0" and ?y = "TNote (sample_frame ''d2d4'' 1 15 second_line) 1 0"
  obtain d where d: "search_digest sample_search = Inr d" "sha256_text d"
    using identity_digest [OF sample_identity_ok] by blast
  let ?c = "frame_checkpoint (advance (sample_tracker\<lparr>tr_seen := 1\<rparr>) ''e2e4'') (sample_frame ''e2e4'' 1 20 first_line) 0 d"
  define T where "T = advance (sample_tracker\<lparr>tr_seen := 1\<rparr>) ''e2e4''\<lparr>tr_current := Some ?c\<rparr>"
  have first: "track_step sample_tracker ?x = (T, Inr (Some ?c))" and move: "cp_move ?c = ''e2e4''"
    using d by (simp_all add: T_def note_frame_def sample_frame_def sample_tracker_def sample_search_def place_checkpoint_def
      eligible_def file_char_def rank_char_def frame_checkpoint_def advance_def check_checkpoint_def score_ok_def)
  have names: "tr_incumbent (run track_step T [?y]) = Some ''d2d4''" "tr_incumbent (run track_step T [?y, ?x]) = Some ''e2e4''"
    using d by (simp_all add: T_def note_frame_def sample_frame_def sample_tracker_def sample_search_def place_checkpoint_def
      eligible_def file_char_def rank_char_def frame_checkpoint_def advance_def check_checkpoint_def score_ok_def)
  have "\<not> is_current (run track_step T [?y, ?x]) (cp_epoch ?c) (cp_move ?c) None"
  proof
    assume "is_current (run track_step T [?y, ?x]) (cp_epoch ?c) (cp_move ?c) None"
    then have "\<forall>n. tr_incumbent (run track_step T (take n [?y, ?x])) = Some (cp_move ?c)"
      using checkpoint_currency_exact [OF first refl, of "[?y, ?x]"] by blast
    from spec [OF this, of 1] show False using names move by simp
  qed
  with first names move show ?thesis by metis
qed

end
