(* ===== verification/VerifyRun.thy ===== *)
theory VerifyRun
  imports Decision
begin

text \<open>
  \<^verbatim>\<open>controller/verification.py\<close>: the plan of a common-support verification, in which every owner
  searches the nominees of all owners, and the evidence container of one run.  A stage is an object
  that the run shares with the threads of the controller; it is found by its owner, under which the run
  holds it.  A stream writer is shared as well: the run holds its handle.  The files of a finalised run are
  left out.  The terminal facts of a run (\<^verbatim>\<open>controller/counterfactual.py\<close>) close the theory.
\<close>

section \<open>Plans\<close>

datatype verify_error =
    VerifyDisabled
  | VerifyMethod
  | VerifyOwners
  | NoBestmove string
  | NomineeText string
  | NomineeRoots string
  | NomineesEqual
  | NoInstance string
  | StreamTwice string
  | NoStream string
  | DispatchedTwice string

record verification_settings =
  vs_enabled :: bool
  vs_method :: string
  vs_limit :: "(string \<times> pyval) list"

record verification_plan =
  vp_id :: string
  vp_generation :: int
  vp_run :: string
  vp_position :: string
  vp_owners :: "string list"
  vp_roots :: "string list"
  vp_nominees :: "(string \<times> string) list"
  vp_participants :: "(string \<times> string) list"
  vp_limit :: "(string \<times> pyval) list"
  vp_method :: string

definition union_method :: string where
  "union_method = ''owner_bestmove_union_v1''"

definition nominee :: "(string \<times> string option) list \<Rightarrow> (string \<times> string list) list \<Rightarrow> string \<Rightarrow> verify_error + string" where
  "nominee bestmoves roots owner =
     (case dict_get bestmoves owner of
        Some (Some raw) \<Rightarrow> (let move = py_lower raw in
          rbind (ensure (uci_move move) (NomineeText owner)) (\<lambda>_.
          rbind (ensure (move \<in> set (case dict_get roots owner of None \<Rightarrow> [] | Some rs \<Rightarrow> rs)) (NomineeRoots owner)) (\<lambda>_.
          Inr move)))
      | _ \<Rightarrow> Inl (NoBestmove owner))"

definition participant :: "(string \<times> string) list \<Rightarrow> string \<Rightarrow> verify_error + string \<times> string" where
  "participant insts owner = (case dict_get insts owner of None \<Rightarrow> Inl (NoInstance owner) | Some i \<Rightarrow> Inr (owner, i))"

definition build_verification_plan :: "int \<Rightarrow> string \<Rightarrow> string \<Rightarrow> verification_settings \<Rightarrow> string list \<Rightarrow>
    (string \<times> string) list \<Rightarrow> (string \<times> string option) list \<Rightarrow> (string \<times> string list) list \<Rightarrow>
    verify_error + verification_plan" where
  "build_verification_plan generation run_id pos s owners insts bestmoves roots =
     rbind (ensure (vs_enabled s) VerifyDisabled) (\<lambda>_.
     rbind (ensure (vs_method s = union_method) VerifyMethod) (\<lambda>_.
     rbind (ensure (length owners = 3) VerifyOwners) (\<lambda>_.
     rbind (rmap (nominee bestmoves roots) owners) (\<lambda>moves.
     (let nominees = dict_of_pairs (zip owners moves);
          candidates = map (\<lambda>owner. the (dict_get nominees owner)) owners in
     rbind (ensure (distinct candidates) NomineesEqual) (\<lambda>_.
     rbind (rmap (participant insts) owners) (\<lambda>participants.
     Inr \<lparr>vp_id = run_id @ '':verify-v1'', vp_generation = generation, vp_run = run_id, vp_position = pos,
       vp_owners = owners, vp_roots = candidates, vp_nominees = nominees,
       vp_participants = dict_of_pairs participants, vp_limit = vs_limit s, vp_method = vs_method s\<rparr>)))))))"

section \<open>Runs\<close>

record verification_stage =
  vg_owner :: string
  vg_instance :: string
  vg_family :: string
  vg_search :: string
  vg_command :: string
  vg_roots :: "string list"
  vg_order :: nat
  vg_dispatched :: pyfloat
  vg_phase :: string
  vg_options :: "(string \<times> pyval) list"
  vg_completed :: "pyfloat option"
  vg_completion_order :: "nat option"
  vg_disposition :: string
  vg_bestmove :: "string option"
  vg_stop_reason :: "string option"
  vg_failure :: "string option"
  vg_done :: bool

text \<open>
  Two threads write a stage field by field.  The thread that records a completion holds the lock of
  the run while it does so; \<open>Outcome\<close>, \<open>Reason\<close> and \<open>Signal\<close> are the writes that it still has to do.
  The thread that finalises the run marks the stages in a loop \<^emph>\<open>without\<close> the lock; its program counter is
  the list of the owners still to visit and where it stands with the first of them.
\<close>

datatype recording_phase = Outcome | Reason | Signal

record recording =
  rc_owner :: string
  rc_phase :: recording_phase
  rc_disposition :: string
  rc_bestmove :: "string option"
  rc_stop_reason :: "string option"
  rc_failure :: "string option"

datatype sweep_phase = Testing | Marking | Reading | Writing "string option" | Ending

record verification_run =
  vn_plan :: verification_plan
  vn_streams :: "(string \<times> nat) list"
  vn_mapped :: "string set"
  vn_stages :: "(string \<times> verification_stage) list"
  vn_dispatches :: nat
  vn_completions :: nat
  vn_disposition :: string
  vn_stop_reason :: "string option"
  vn_notes :: "string list"
  vn_finalized :: bool
  vn_recording :: "recording option"
  vn_sweep :: "string list \<times> sweep_phase"

definition new_verification_run :: "verification_plan \<Rightarrow> verification_run" where
  "new_verification_run p = \<lparr>vn_plan = p, vn_streams = [], vn_mapped = {}, vn_stages = [], vn_dispatches = 0,
     vn_completions = 0, vn_disposition = ''running'', vn_stop_reason = None, vn_notes = [], vn_finalized = False,
     vn_recording = None, vn_sweep = ([], Testing)\<rparr>"

definition verify_register :: "string \<Rightarrow> nat \<Rightarrow> verification_run \<Rightarrow> verification_run \<times> (verify_error + unit)" where
  "verify_register inst handle R =
     (if inst \<in> set (dict_keys (vn_streams R)) then (R, Inl (StreamTwice inst))
      else (R\<lparr>vn_streams := dict_set inst handle (vn_streams R)\<rparr>, Inr ()))"

definition verify_activate :: "string \<Rightarrow> verification_run \<Rightarrow> verification_run \<times> (verify_error + unit)" where
  "verify_activate inst R =
     (if inst \<notin> set (dict_keys (vn_streams R)) then (R, Inl (NoStream inst))
      else (R\<lparr>vn_mapped := insert inst (vn_mapped R)\<rparr>, Inr ()))"

definition verify_observation :: "verification_run \<Rightarrow> string \<Rightarrow> nat option" where
  "verify_observation R inst = (if inst \<notin> vn_mapped R then None else dict_get (vn_streams R) inst)"

definition verify_stream :: "verification_run \<Rightarrow> string \<Rightarrow> nat option" where
  "verify_stream R inst = dict_get (vn_streams R) inst"

definition verify_dispatch :: "string \<Rightarrow> string \<Rightarrow> string \<Rightarrow> string \<Rightarrow> string \<Rightarrow> string \<Rightarrow> (string \<times> pyval) list option \<Rightarrow> pyfloat \<Rightarrow>
    verification_run \<Rightarrow> verification_run \<times> (verify_error + verification_stage)" where
  "verify_dispatch owner inst fam search command phase options dispatched R =
     (if owner \<in> set (dict_keys (vn_stages R)) then (R, Inl (DispatchedTwice owner))
      else (let stage = \<lparr>vg_owner = owner, vg_instance = inst, vg_family = fam, vg_search = search, vg_command = command,
          vg_roots = vp_roots (vn_plan R), vg_order = Suc (vn_dispatches R), vg_dispatched = dispatched, vg_phase = phase,
          vg_options = (case options of None \<Rightarrow> [] | Some d \<Rightarrow> d), vg_completed = None, vg_completion_order = None,
          vg_disposition = ''running'', vg_bestmove = None, vg_stop_reason = None, vg_failure = None, vg_done = False\<rparr>
        in (R\<lparr>vn_dispatches := Suc (vn_dispatches R), vn_stages := dict_set owner stage (vn_stages R)\<rparr>, Inr stage)))"

definition put_verify :: "string \<Rightarrow> (verification_stage \<Rightarrow> verification_stage) \<Rightarrow> verification_run \<Rightarrow> verification_run" where
  "put_verify owner f R = (case dict_get (vn_stages R) owner of
     None \<Rightarrow> R | Some g \<Rightarrow> R\<lparr>vn_stages := dict_set owner (f g) (vn_stages R)\<rparr>)"

text \<open>
  \<open>record_completion\<close> up to its test and the facts that only it writes, and its remaining writes, in
  their order: the outcome, the failure, the event.
\<close>

definition verify_complete :: "string \<Rightarrow> pyfloat \<Rightarrow> string \<Rightarrow> string option \<Rightarrow> string option \<Rightarrow> string option \<Rightarrow>
    verification_run \<Rightarrow> verification_run" where
  "verify_complete owner completed disp best reason failure R =
     (case dict_get (vn_stages R) owner of
        None \<Rightarrow> R
      | Some g \<Rightarrow>
          if vg_disposition g \<noteq> ''running'' then put_verify owner (\<lambda>g. g\<lparr>vg_done := True\<rparr>) R
          else (let n = Suc (vn_completions R) in
            (put_verify owner (\<lambda>g. g\<lparr>vg_completed := Some completed, vg_completion_order := Some n\<rparr>) R)\<lparr>
              vn_completions := n, vn_recording := Some \<lparr>rc_owner = owner, rc_phase = Outcome, rc_disposition = disp,
                rc_bestmove = best, rc_stop_reason = reason, rc_failure = failure\<rparr>\<rparr>))"

definition verify_record :: "verification_run \<Rightarrow> verification_run" where
  "verify_record R = (case vn_recording R of
     None \<Rightarrow> R
   | Some r \<Rightarrow> (case rc_phase r of
       Outcome \<Rightarrow> (put_verify (rc_owner r) (\<lambda>g. g\<lparr>vg_disposition := rc_disposition r, vg_bestmove := rc_bestmove r,
           vg_stop_reason := rc_stop_reason r\<rparr>) R)\<lparr>vn_recording := Some (r\<lparr>rc_phase := Reason\<rparr>)\<rparr>
     | Reason \<Rightarrow> (put_verify (rc_owner r) (\<lambda>g. g\<lparr>vg_failure := rc_failure r\<rparr>) R)\<lparr>
           vn_recording := Some (r\<lparr>rc_phase := Signal\<rparr>)\<rparr>
     | Signal \<Rightarrow> (put_verify (rc_owner r) (\<lambda>g. g\<lparr>vg_done := True\<rparr>) R)\<lparr>vn_recording := None\<rparr>))"

definition verify_stage_of :: "verification_run \<Rightarrow> string \<Rightarrow> verification_stage option" where
  "verify_stage_of R owner = dict_get (vn_stages R) owner"

definition verify_stage_at :: "verification_run \<Rightarrow> string \<Rightarrow> verification_stage option" where
  "verify_stage_at R inst = find (\<lambda>g. vg_instance g = inst) (map snd (vn_stages R))"

definition verify_stages :: "verification_run \<Rightarrow> verification_stage list" where
  "verify_stages R = sort_key vg_order (map snd (vn_stages R))"

definition verify_active :: "verification_run \<Rightarrow> verification_stage list" where
  "verify_active R = filter (\<lambda>g. \<not> vg_done g) (verify_stages R)"

definition verify_note :: "string \<Rightarrow> verification_run \<Rightarrow> verification_run" where
  "verify_note message R = (if length (vn_notes R) < 64 then R\<lparr>vn_notes := vn_notes R @ [message]\<rparr> else R)"

definition verify_set_disposition :: "string \<Rightarrow> string option \<Rightarrow> verification_run \<Rightarrow> verification_run" where
  "verify_set_disposition disp reason R = R\<lparr>vn_disposition := disp, vn_stop_reason := reason\<rparr>"

text \<open>
  The part of \<open>finalize\<close> that changes the run: under the lock it claims the run and takes the list of the
  stages; then, without it, it tests every stage and marks the ones that it found running, one access at a time.
\<close>

definition verify_finalize :: "verification_run \<Rightarrow> verification_run" where
  "verify_finalize R = (if vn_finalized R then R
     else R\<lparr>vn_finalized := True, vn_sweep := (dict_keys (vn_stages R), Testing)\<rparr>)"

definition final_failure :: "string option \<Rightarrow> string" where
  "final_failure v = (case v of
     None \<Rightarrow> ''verification finalized before completion''
   | Some t \<Rightarrow> if t = [] then ''verification finalized before completion'' else t)"

definition verify_sweep :: "verification_run \<Rightarrow> verification_run" where
  "verify_sweep R = (case vn_sweep R of
     ([], phase) \<Rightarrow> R
   | (k # ks, phase) \<Rightarrow> (case dict_get (vn_stages R) k of
       None \<Rightarrow> R
     | Some g \<Rightarrow> (case phase of
         Testing \<Rightarrow> R\<lparr>vn_sweep := if vg_disposition g = ''running'' then (k # ks, Marking) else (ks, Testing)\<rparr>
       | Marking \<Rightarrow> (put_verify k (\<lambda>g. g\<lparr>vg_disposition := ''unresolved''\<rparr>) R)\<lparr>vn_sweep := (k # ks, Reading)\<rparr>
       | Reading \<Rightarrow> R\<lparr>vn_sweep := (k # ks, Writing (vg_failure g))\<rparr>
       | Writing v \<Rightarrow> (put_verify k (\<lambda>g. g\<lparr>vg_failure := Some (final_failure v)\<rparr>) R)\<lparr>vn_sweep := (k # ks, Ending)\<rparr>
       | Ending \<Rightarrow> (put_verify k (\<lambda>g. g\<lparr>vg_done := True\<rparr>) R)\<lparr>vn_sweep := (ks, Testing)\<rparr>)))"

datatype verify_op =
    VRegister string nat
  | VActivate string
  | VDispatch string string string string string string "(string \<times> pyval) list option" pyfloat
  | VComplete string pyfloat string "string option" "string option" "string option"
  | VNote string
  | VDisposition string "string option"
  | VFinalize
  | VRecord
  | VSweep

fun verify_perform :: "verification_run \<Rightarrow> verify_op \<Rightarrow> verification_run \<times> (verify_error + unit)" where
  "verify_perform R (VRegister inst handle) = verify_register inst handle R"
| "verify_perform R (VActivate inst) = verify_activate inst R"
| "verify_perform R (VDispatch owner inst fam search command phase options dispatched) =
     map_prod id (map_sum id (\<lambda>_. ())) (verify_dispatch owner inst fam search command phase options dispatched R)"
| "verify_perform R (VComplete owner completed disp best reason failure) =
     (verify_complete owner completed disp best reason failure R, Inr ())"
| "verify_perform R (VNote message) = (verify_note message R, Inr ())"
| "verify_perform R (VDisposition disp reason) = (verify_set_disposition disp reason R, Inr ())"
| "verify_perform R VFinalize = (verify_finalize R, Inr ())"
| "verify_perform R VRecord = (verify_record R, Inr ())"
| "verify_perform R VSweep = (verify_sweep R, Inr ())"

text \<open>
  While a completion is being recorded the lock is held: a call that needs it waits, so it has no effect yet;
  only the recording thread and the loop of \<open>finalize\<close> move.
\<close>

definition verify_step :: "verification_run \<Rightarrow> verify_op \<Rightarrow> verification_run \<times> (verify_error + unit)" where
  "verify_step R x =
     (if vn_recording R \<noteq> None \<and> x \<notin> {VRecord, VSweep} then (R, Inr ()) else verify_perform R x)"

section \<open>The terminal facts\<close>

definition terminal_faults :: "verification_run \<Rightarrow> string \<Rightarrow> string list" where
  "terminal_faults R owner = (case verify_stage_of R owner of
     None \<Rightarrow> [''VERIFY terminal stage missing for '' @ owner]
   | Some g \<Rightarrow> (if vg_owner g \<noteq> owner then [''VERIFY terminal stage owner mismatch for '' @ owner] else []) @
       (if vg_family g \<noteq> owner then [''VERIFY terminal family mismatch for '' @ owner] else []))"

definition terminal_final :: "verification_run \<Rightarrow> string \<Rightarrow> string option" where
  "terminal_final R owner = Option.bind (verify_stage_of R owner) vg_bestmove"

definition terminal_disposition :: "verification_run \<Rightarrow> string \<Rightarrow> string" where
  "terminal_disposition R owner = (case verify_stage_of R owner of None \<Rightarrow> ''missing'' | Some g \<Rightarrow> vg_disposition g)"

text \<open>\<open>tuple(sorted(set(xs)))\<close>.\<close>

definition sorted_texts :: "string list \<Rightarrow> string list" where
  "sorted_texts xs = sort (remdups xs)"

definition terminal_evidence_from_run :: "verification_run \<Rightarrow> decision_error + terminal_evidence" where
  "terminal_evidence_from_run R = (let faults = concat (map (terminal_faults R) owner_order) in
     check_terminal \<lparr>vt_id = vp_id (vn_plan R), vt_roots = vp_roots (vn_plan R),
       vt_finals = map (\<lambda>owner. (owner, terminal_final R owner)) owner_order,
       vt_stages = map (\<lambda>owner. (owner, terminal_disposition R owner)) owner_order,
       vt_run = vn_disposition R,
       vt_complete = (vn_disposition R = ''completed'' \<and> faults = [] \<and>
         list_all (\<lambda>owner. terminal_disposition R owner = ''completed'') owner_order),
       vt_faults = sorted_texts faults\<rparr>)"

end
