(* ===== verification/RefineRun.thy ===== *)
theory RefineRun
  imports VerifyRun
begin

text \<open>
  \<^verbatim>\<open>controller/refinement.py\<close>: the plan that turns the disagreement of a verification into root targets,
  the partition of the children of a target among the owners, and the evidence container of a
  refinement run.  A target and a recursive expansion have the same fields but for their origin, and their
  methods have the same bodies over one of two dictionaries, which a \<open>level\<close> selects.  A stage is found
  by its scope and its owner; a stream writer is a handle.  The files of a finalised run are left out.
\<close>

section \<open>Plans\<close>

datatype refine_error =
    RefineDisabled
  | RefineMethod
  | VerifyIncomplete
  | RefineOwners
  | OwnerIncomplete string
  | FinalText string
  | FinalEscaped string
  | TargetOwner string
  | NoOwners
  | ChildText string
  | ChildTwice string
  | ScopeTwice string
  | UnknownScope string
  | UnknownSeed string
  | ScopeStreamTwice string string
  | NoScopeStream string string
  | InstanceActive string string
  | OwnerTwice string string

record refinement_settings =
  fs_enabled :: bool
  fs_method :: string
  fs_partition :: string
  fs_limit :: "(string \<times> pyval) list"
  fs_max_targets :: int
  fs_recursive :: string
  fs_max_depth :: int
  fs_max_expansions :: int

record refinement_target =
  ft_id :: string
  ft_root :: string
  ft_owner :: string

record refinement_plan =
  fp_id :: string
  fp_generation :: int
  fp_run :: string
  fp_verification :: string
  fp_position :: string
  fp_owners :: "string list"
  fp_participants :: "(string \<times> string) list"
  fp_finals :: "(string \<times> string) list"
  fp_roots :: "string list"
  fp_targets :: "refinement_target list"
  fp_limit :: "(string \<times> pyval) list"
  fp_method :: string
  fp_partition :: string
  fp_max_targets :: int
  fp_recursive :: string
  fp_max_depth :: int
  fp_max_expansions :: int

definition disagreement_method :: string where
  "disagreement_method = ''verify_final_disagreement_union_v1''"

definition owner_final :: "verification_run \<Rightarrow> string \<Rightarrow> refine_error + string" where
  "owner_final R owner =
     (case verify_stage_of R owner of
        None \<Rightarrow> Inl (OwnerIncomplete owner)
      | Some g \<Rightarrow>
          rbind (ensure (vg_disposition g = ''completed'') (OwnerIncomplete owner)) (\<lambda>_.
          (case vg_bestmove g of
             None \<Rightarrow> Inl (FinalText owner)
           | Some mv \<Rightarrow>
               rbind (ensure (uci_move mv) (FinalText owner)) (\<lambda>_.
               rbind (ensure (mv \<in> set (vp_roots (vn_plan R))) (FinalEscaped owner)) (\<lambda>_. Inr mv)))))"

text \<open>The loop over the candidates; the limit is tested after each of them.\<close>

fun pick_targets :: "string list \<Rightarrow> int \<Rightarrow> string list \<Rightarrow> string list \<Rightarrow> string list" where
  "pick_targets finals limit [] acc = acc"
| "pick_targets finals limit (mv # rest) acc =
     (let acc' = (if mv \<in> set finals \<and> mv \<notin> set acc then acc @ [mv] else acc)
      in if limit \<le> int (length acc') then acc' else pick_targets finals limit rest acc')"

definition target_moves :: "refinement_settings \<Rightarrow> string list \<Rightarrow> string list \<Rightarrow> string list" where
  "target_moves s finals roots = (if 1 < length (remdups finals) then pick_targets finals (fs_max_targets s) roots [] else [])"

text \<open>\<open>{move: owner for owner, move in nominees.items()}\<close>, then one target per move.\<close>

definition target_id :: "nat \<Rightarrow> string \<Rightarrow> string" where
  "target_id n mv = ''target-'' @ pad0 3 n @ ''-'' @ mv"

definition make_target :: "(string \<times> string) list \<Rightarrow> nat \<times> string \<Rightarrow> refine_error + refinement_target" where
  "make_target nominees nm = (case nm of (n, mv) \<Rightarrow>
     (case dict_get (dict_of_pairs (map (\<lambda>(owner, m). (m, owner)) nominees)) mv of
        None \<Rightarrow> Inl (TargetOwner mv)
      | Some owner \<Rightarrow> Inr \<lparr>ft_id = target_id n mv, ft_root = mv, ft_owner = owner\<rparr>))"

definition build_refinement_plan :: "refinement_settings \<Rightarrow> verification_run \<Rightarrow> refine_error + refinement_plan" where
  "build_refinement_plan s R = (let p = vn_plan R in
     rbind (ensure (fs_enabled s) RefineDisabled) (\<lambda>_.
     rbind (ensure (fs_method s = disagreement_method) RefineMethod) (\<lambda>_.
     rbind (ensure (vn_disposition R = ''completed'') VerifyIncomplete) (\<lambda>_.
     rbind (ensure (length (vp_owners p) = 3) RefineOwners) (\<lambda>_.
     rbind (rmap (owner_final R) (vp_owners p)) (\<lambda>finals.
     (let moves = target_moves s finals (vp_roots p) in
     rbind (rmap (make_target (vp_nominees p)) (zip [0..<length moves] moves)) (\<lambda>targets.
     Inr \<lparr>fp_id = vp_run p @ '':refine-v1'', fp_generation = vp_generation p, fp_run = vp_run p,
       fp_verification = vp_id p, fp_position = vp_position p, fp_owners = vp_owners p,
       fp_participants = vp_participants p, fp_finals = dict_of_pairs (zip (vp_owners p) finals),
       fp_roots = vp_roots p, fp_targets = targets, fp_limit = fs_limit s, fp_method = fs_method s,
       fp_partition = fs_partition s, fp_max_targets = fs_max_targets s, fp_recursive = fs_recursive s,
       fp_max_depth = fs_max_depth s, fp_max_expansions = fs_max_expansions s\<rparr>))))))))"

section \<open>The partition of the children\<close>

text \<open>The child with index \<open>n\<close> goes to the owner with index \<open>n mod k\<close>.\<close>

fun deal :: "string list \<Rightarrow> nat \<Rightarrow> string list \<Rightarrow> (string \<times> string list) list \<Rightarrow> string list \<Rightarrow>
    refine_error + (string \<times> string list) list" where
  "deal owners n [] buckets seen = Inr buckets"
| "deal owners n (mv # rest) buckets seen =
     rbind (ensure (uci_move mv) (ChildText mv)) (\<lambda>_.
     rbind (ensure (mv \<notin> set seen) (ChildTwice mv)) (\<lambda>_.
     (let owner = owners ! (n mod length owners) in
      deal owners (Suc n) rest (dict_set owner (the (dict_get buckets owner) @ [mv]) buckets) (mv # seen))))"

definition partition_children :: "string list \<Rightarrow> string list \<Rightarrow> refine_error + (string \<times> string list) list" where
  "partition_children children owners =
     rbind (ensure (owners \<noteq> []) NoOwners) (\<lambda>_.
     rbind (deal owners 0 children (dict_of_pairs (map (\<lambda>owner. (owner, [])) owners)) []) (\<lambda>buckets.
     Inr (dict_of_pairs (map (\<lambda>owner. (owner, the (dict_get buckets owner))) owners))))"

section \<open>Runs\<close>

record refinement_stage =
  fg_scope :: string
  fg_owner :: string
  fg_instance :: string
  fg_family :: string
  fg_search :: string
  fg_position :: string
  fg_command :: string
  fg_children :: "string list"
  fg_shards :: "string list"
  fg_prefixes :: "string list list"
  fg_order :: nat
  fg_dispatched :: pyfloat
  fg_completed :: "pyfloat option"
  fg_completion_order :: "nat option"
  fg_disposition :: string
  fg_bestmove :: "string option"
  fg_stop_reason :: "string option"
  fg_failure :: "string option"
  fg_done :: bool

datatype origin =
    RootTarget refinement_target
  | Recursive string "string list" string "(string \<times> pyval) list"

record refine_scope =
  sc_origin :: origin
  sc_shard :: string
  sc_command :: string
  sc_children :: "string list"
  sc_terminal :: bool
  sc_partition :: "(string \<times> string list) list"
  sc_shards :: "(string \<times> string list) list"
  sc_stages :: "(string \<times> refinement_stage) list"
  sc_streams :: "(string \<times> nat) list"
  sc_disposition :: string
  sc_stop_reason :: "string option"
  sc_abort :: bool

datatype level = Root | Deeper

record refinement_run =
  rn_plan :: refinement_plan
  rn_targets :: "(string \<times> refine_scope) list"
  rn_expansions :: "(string \<times> refine_scope) list"
  rn_active :: "(string \<times> (string \<times> nat)) list"
  rn_dispatches :: nat
  rn_completions :: nat
  rn_disposition :: string
  rn_stop_reason :: "string option"
  rn_notes :: "string list"
  rn_finalized :: bool

definition new_refinement_run :: "refinement_plan \<Rightarrow> refinement_run" where
  "new_refinement_run p = \<lparr>rn_plan = p, rn_targets = [], rn_expansions = [], rn_active = [], rn_dispatches = 0,
     rn_completions = 0, rn_disposition = ''running'', rn_stop_reason = None, rn_notes = [], rn_finalized = False\<rparr>"

fun scopes :: "level \<Rightarrow> refinement_run \<Rightarrow> (string \<times> refine_scope) list" where
  "scopes Root R = rn_targets R"
| "scopes Deeper R = rn_expansions R"

fun put_scope :: "level \<Rightarrow> string \<Rightarrow> refine_scope \<Rightarrow> refinement_run \<Rightarrow> refinement_run" where
  "put_scope Root k c R = R\<lparr>rn_targets := dict_set k c (rn_targets R)\<rparr>"
| "put_scope Deeper k c R = R\<lparr>rn_expansions := dict_set k c (rn_expansions R)\<rparr>"

definition scope_of :: "level \<Rightarrow> refinement_run \<Rightarrow> string \<Rightarrow> refine_scope option" where
  "scope_of lv R k = dict_get (scopes lv R) k"

text \<open>An operation on a scope that must exist.\<close>

definition with_scope :: "level \<Rightarrow> string \<Rightarrow> refinement_run \<Rightarrow>
    (refine_scope \<Rightarrow> refinement_run \<times> (refine_error + 'r)) \<Rightarrow> refinement_run \<times> (refine_error + 'r)" where
  "with_scope lv k R f = (case scope_of lv R k of None \<Rightarrow> (R, Inl (UnknownScope k)) | Some c \<Rightarrow> f c)"

definition per_owner :: "refinement_run \<Rightarrow> (string \<times> string list) list \<Rightarrow> (string \<times> string list) list" where
  "per_owner R d = dict_of_pairs (map (\<lambda>owner. (owner, case dict_get d owner of None \<Rightarrow> [] | Some xs \<Rightarrow> xs)) (fp_owners (rn_plan R)))"

definition new_scope :: "refinement_run \<Rightarrow> origin \<Rightarrow> string \<Rightarrow> string \<Rightarrow> string list \<Rightarrow> (string \<times> string list) list \<Rightarrow>
    (string \<times> string list) list \<Rightarrow> refine_scope" where
  "new_scope R origin shard command children parts shards = \<lparr>sc_origin = origin, sc_shard = shard, sc_command = command,
     sc_children = children, sc_terminal = (children = []), sc_partition = per_owner R parts,
     sc_shards = per_owner R shards, sc_stages = [], sc_streams = [],
     sc_disposition = (if children = [] then ''terminal'' else ''running''), sc_stop_reason = None, sc_abort = False\<rparr>"

definition register_target :: "refinement_target \<Rightarrow> string \<Rightarrow> string \<Rightarrow> string list \<Rightarrow> (string \<times> string list) list \<Rightarrow>
    (string \<times> string list) list \<Rightarrow> refinement_run \<Rightarrow> refinement_run \<times> (refine_error + unit)" where
  "register_target t shard command children parts shards R =
     (if ft_id t \<in> set (dict_keys (rn_targets R)) then (R, Inl (ScopeTwice (ft_id t)))
      else (put_scope Root (ft_id t) (new_scope R (RootTarget t) shard command children parts shards) R, Inr ()))"

definition register_expansion :: "string \<Rightarrow> string \<Rightarrow> string list \<Rightarrow> string \<Rightarrow> string \<Rightarrow> (string \<times> pyval) list \<Rightarrow> string \<Rightarrow> string list \<Rightarrow>
    (string \<times> string list) list \<Rightarrow> (string \<times> string list) list \<Rightarrow> refinement_run \<Rightarrow> refinement_run \<times> (refine_error + unit)" where
  "register_expansion k seed moves owner shard nomination command children parts shards R =
     (if k \<in> set (dict_keys (rn_expansions R)) then (R, Inl (ScopeTwice k))
      else if seed \<notin> set (dict_keys (rn_targets R)) then (R, Inl (UnknownSeed seed))
      else (put_scope Deeper k (new_scope R (Recursive seed moves owner nomination) shard command children parts shards) R,
        Inr ()))"

text \<open>\<open>targets()\<close>: in the order of the plan; a target that the plan does not name would raise \<open>KeyError\<close>.\<close>

definition plan_index :: "refinement_run \<Rightarrow> string \<Rightarrow> refine_error + nat" where
  "plan_index R k = (case dict_get (dict_of_pairs (zip (map ft_id (fp_targets (rn_plan R))) [0..<length (fp_targets (rn_plan R))])) k of
     None \<Rightarrow> Inl (UnknownScope k) | Some n \<Rightarrow> Inr n)"

definition ordered_targets :: "refinement_run \<Rightarrow> refine_error + (string \<times> refine_scope) list" where
  "ordered_targets R = rbind (rmap (\<lambda>(k, c). rbind (plan_index R k) (\<lambda>n. Inr (n, k, c))) (rn_targets R))
     (\<lambda>xs. Inr (map snd (sort_key fst xs)))"

definition scope_register_stream :: "level \<Rightarrow> string \<Rightarrow> string \<Rightarrow> nat \<Rightarrow> refinement_run \<Rightarrow> refinement_run \<times> (refine_error + unit)" where
  "scope_register_stream lv k inst handle R = with_scope lv k R (\<lambda>c.
     if inst \<in> set (dict_keys (sc_streams c)) then (R, Inl (ScopeStreamTwice k inst))
     else (put_scope lv k (c\<lparr>sc_streams := dict_set inst handle (sc_streams c)\<rparr>) R, Inr ()))"

definition scope_stream :: "level \<Rightarrow> refinement_run \<Rightarrow> string \<Rightarrow> string \<Rightarrow> nat option" where
  "scope_stream lv R k inst = Option.bind (scope_of lv R k) (\<lambda>c. dict_get (sc_streams c) inst)"

definition scope_activate :: "level \<Rightarrow> string \<Rightarrow> string \<Rightarrow> refinement_run \<Rightarrow> refinement_run \<times> (refine_error + unit)" where
  "scope_activate lv k inst R =
     (case scope_stream lv R k inst of
        None \<Rightarrow> (R, Inl (NoScopeStream k inst))
      | Some handle \<Rightarrow> (case dict_get (rn_active R) inst of
          Some (k', h) \<Rightarrow> (R, Inl (InstanceActive inst k'))
        | None \<Rightarrow> (R\<lparr>rn_active := dict_set inst (k, handle) (rn_active R)\<rparr>, Inr ())))"

definition deactivate_stream :: "string \<Rightarrow> string \<Rightarrow> refinement_run \<Rightarrow> refinement_run" where
  "deactivate_stream k inst R = (case dict_get (rn_active R) inst of
     Some (k', h) \<Rightarrow> if k' = k then R\<lparr>rn_active := AList.delete inst (rn_active R)\<rparr> else R
   | None \<Rightarrow> R)"

definition observed_handle :: "refinement_run \<Rightarrow> string \<Rightarrow> nat option" where
  "observed_handle R inst = map_option snd (dict_get (rn_active R) inst)"

definition scope_dispatch :: "level \<Rightarrow> string \<Rightarrow> string \<Rightarrow> string \<Rightarrow> string \<Rightarrow> string \<Rightarrow> string \<Rightarrow> string \<Rightarrow> string list \<Rightarrow>
    string list \<Rightarrow> string list list \<Rightarrow> pyfloat \<Rightarrow> refinement_run \<Rightarrow> refinement_run \<times> (refine_error + refinement_stage)" where
  "scope_dispatch lv k owner inst fam search pos command children shards prefs dispatched R = with_scope lv k R (\<lambda>c.
     if owner \<in> set (dict_keys (sc_stages c)) then (R, Inl (OwnerTwice k owner))
     else (let stage = \<lparr>fg_scope = k, fg_owner = owner, fg_instance = inst, fg_family = fam, fg_search = search,
         fg_position = pos, fg_command = command, fg_children = children, fg_shards = shards, fg_prefixes = prefs,
         fg_order = Suc (rn_dispatches R), fg_dispatched = dispatched, fg_completed = None, fg_completion_order = None,
         fg_disposition = ''running'', fg_bestmove = None, fg_stop_reason = None, fg_failure = None, fg_done = False\<rparr>
       in (put_scope lv k (c\<lparr>sc_stages := dict_set owner stage (sc_stages c)\<rparr>) (R\<lparr>rn_dispatches := Suc (rn_dispatches R)\<rparr>),
           Inr stage)))"

definition put_stage :: "level \<Rightarrow> string \<Rightarrow> refine_scope \<Rightarrow> refinement_stage \<Rightarrow> refinement_run \<Rightarrow> refinement_run" where
  "put_stage lv k c g R = put_scope lv k (c\<lparr>sc_stages := dict_set (fg_owner g) g (sc_stages c)\<rparr>) R"

definition refine_complete :: "level \<Rightarrow> string \<Rightarrow> string \<Rightarrow> pyfloat \<Rightarrow> string \<Rightarrow> string option \<Rightarrow> string option \<Rightarrow> string option \<Rightarrow>
    refinement_run \<Rightarrow> refinement_run" where
  "refine_complete lv k owner completed disp best reason failure R =
     (case Option.bind (scope_of lv R k) (\<lambda>c. map_option (Pair c) (dict_get (sc_stages c) owner)) of
        None \<Rightarrow> R
      | Some (c, g) \<Rightarrow> deactivate_stream (fg_scope g) (fg_instance g)
          (if fg_disposition g \<noteq> ''running'' then put_stage lv k c (g\<lparr>fg_done := True\<rparr>) R
           else (let n = Suc (rn_completions R) in
             put_stage lv k c (g\<lparr>fg_completed := Some completed, fg_completion_order := Some n, fg_disposition := disp,
               fg_bestmove := best, fg_stop_reason := reason, fg_failure := failure, fg_done := True\<rparr>)
               (R\<lparr>rn_completions := n\<rparr>))))"

definition scope_stages :: "level \<Rightarrow> refinement_run \<Rightarrow> refinement_stage list" where
  "scope_stages lv R = concat (map (\<lambda>(k, c). map snd (sc_stages c)) (scopes lv R))"

definition refine_active :: "refinement_run \<Rightarrow> refinement_stage list" where
  "refine_active R = filter (\<lambda>g. \<not> fg_done g) (scope_stages Root R @ scope_stages Deeper R)"

definition refine_stage_at :: "refinement_run \<Rightarrow> string \<Rightarrow> refinement_stage option" where
  "refine_stage_at R inst = find (\<lambda>g. fg_instance g = inst) (refine_active R)"

definition scope_abort :: "level \<Rightarrow> string \<Rightarrow> string \<Rightarrow> refinement_run \<Rightarrow> refinement_run \<times> (refine_error + unit)" where
  "scope_abort lv k reason R = with_scope lv k R (\<lambda>c.
     (put_scope lv k (c\<lparr>sc_abort := True, sc_disposition := ''incomplete'', sc_stop_reason := Some reason\<rparr>) R, Inr ()))"

definition scope_aborted :: "level \<Rightarrow> refinement_run \<Rightarrow> string \<Rightarrow> bool" where
  "scope_aborted lv R k = (case scope_of lv R k of None \<Rightarrow> False | Some c \<Rightarrow> sc_abort c)"

definition scope_set_disposition :: "level \<Rightarrow> string \<Rightarrow> string \<Rightarrow> string option \<Rightarrow> refinement_run \<Rightarrow>
    refinement_run \<times> (refine_error + unit)" where
  "scope_set_disposition lv k disp reason R = with_scope lv k R (\<lambda>c.
     (put_scope lv k (c\<lparr>sc_disposition := disp, sc_stop_reason := reason\<rparr>) R, Inr ()))"

definition set_scope_disposition :: "string \<Rightarrow> string \<Rightarrow> string option \<Rightarrow> refinement_run \<Rightarrow> refinement_run \<times> (refine_error + unit)" where
  "set_scope_disposition k disp reason R =
     (if scope_of Root R k \<noteq> None then scope_set_disposition Root k disp reason R
      else scope_set_disposition Deeper k disp reason R)"

definition refine_set_disposition :: "string \<Rightarrow> string option \<Rightarrow> refinement_run \<Rightarrow> refinement_run" where
  "refine_set_disposition disp reason R = R\<lparr>rn_disposition := disp, rn_stop_reason := reason\<rparr>"

definition refine_note :: "string \<Rightarrow> refinement_run \<Rightarrow> refinement_run" where
  "refine_note message R = (if length (rn_notes R) < 64 then R\<lparr>rn_notes := rn_notes R @ [message]\<rparr> else R)"

text \<open>
  What \<open>finalize\<close> does under the lock; its loop over the stages, which marks the ones that still run
  without the lock, is not modelled.
\<close>

definition refine_finalize :: "refinement_run \<Rightarrow> refinement_run" where
  "refine_finalize R = (if rn_finalized R then R else R\<lparr>rn_finalized := True\<rparr>)"

section \<open>The methods by name\<close>

definition target_record :: "refinement_run \<Rightarrow> string \<Rightarrow> refine_scope option" where
  "target_record = scope_of Root"

definition expansion_record :: "refinement_run \<Rightarrow> string \<Rightarrow> refine_scope option" where
  "expansion_record = scope_of Deeper"

definition refine_expansions :: "refinement_run \<Rightarrow> refine_scope list" where
  "refine_expansions R = map snd (rn_expansions R)"

definition register_target_stream :: "string \<Rightarrow> string \<Rightarrow> nat \<Rightarrow> refinement_run \<Rightarrow> refinement_run \<times> (refine_error + unit)" where
  "register_target_stream = scope_register_stream Root"

definition register_expansion_stream :: "string \<Rightarrow> string \<Rightarrow> nat \<Rightarrow> refinement_run \<Rightarrow> refinement_run \<times> (refine_error + unit)" where
  "register_expansion_stream = scope_register_stream Deeper"

definition target_stream :: "refinement_run \<Rightarrow> string \<Rightarrow> string \<Rightarrow> nat option" where
  "target_stream = scope_stream Root"

definition expansion_stream :: "refinement_run \<Rightarrow> string \<Rightarrow> string \<Rightarrow> nat option" where
  "expansion_stream = scope_stream Deeper"

definition activate_target_stream :: "string \<Rightarrow> string \<Rightarrow> refinement_run \<Rightarrow> refinement_run \<times> (refine_error + unit)" where
  "activate_target_stream = scope_activate Root"

definition activate_expansion_stream :: "string \<Rightarrow> string \<Rightarrow> refinement_run \<Rightarrow> refinement_run \<times> (refine_error + unit)" where
  "activate_expansion_stream = scope_activate Deeper"

definition record_target_dispatch :: "string \<Rightarrow> string \<Rightarrow> string \<Rightarrow> string \<Rightarrow> string \<Rightarrow> string \<Rightarrow> string \<Rightarrow> string list \<Rightarrow>
    string list \<Rightarrow> string list list \<Rightarrow> pyfloat \<Rightarrow> refinement_run \<Rightarrow> refinement_run \<times> (refine_error + refinement_stage)" where
  "record_target_dispatch = scope_dispatch Root"

definition record_expansion_dispatch :: "string \<Rightarrow> string \<Rightarrow> string \<Rightarrow> string \<Rightarrow> string \<Rightarrow> string \<Rightarrow> string \<Rightarrow> string list \<Rightarrow>
    string list \<Rightarrow> string list list \<Rightarrow> pyfloat \<Rightarrow> refinement_run \<Rightarrow> refinement_run \<times> (refine_error + refinement_stage)" where
  "record_expansion_dispatch = scope_dispatch Deeper"

definition scope_owner_stage :: "level \<Rightarrow> refinement_run \<Rightarrow> string \<Rightarrow> string \<Rightarrow> refinement_stage option" where
  "scope_owner_stage lv R k owner = Option.bind (scope_of lv R k) (\<lambda>c. dict_get (sc_stages c) owner)"

definition target_owner_stage :: "refinement_run \<Rightarrow> string \<Rightarrow> string \<Rightarrow> refinement_stage option" where
  "target_owner_stage = scope_owner_stage Root"

definition expansion_owner_stage :: "refinement_run \<Rightarrow> string \<Rightarrow> string \<Rightarrow> refinement_stage option" where
  "expansion_owner_stage = scope_owner_stage Deeper"

definition request_target_abort :: "string \<Rightarrow> string \<Rightarrow> refinement_run \<Rightarrow> refinement_run \<times> (refine_error + unit)" where
  "request_target_abort = scope_abort Root"

definition request_expansion_abort :: "string \<Rightarrow> string \<Rightarrow> refinement_run \<Rightarrow> refinement_run \<times> (refine_error + unit)" where
  "request_expansion_abort = scope_abort Deeper"

definition target_abort_requested :: "refinement_run \<Rightarrow> string \<Rightarrow> bool" where
  "target_abort_requested = scope_aborted Root"

definition expansion_abort_requested :: "refinement_run \<Rightarrow> string \<Rightarrow> bool" where
  "expansion_abort_requested = scope_aborted Deeper"

definition set_target_disposition :: "string \<Rightarrow> string \<Rightarrow> string option \<Rightarrow> refinement_run \<Rightarrow> refinement_run \<times> (refine_error + unit)" where
  "set_target_disposition = scope_set_disposition Root"

definition set_expansion_disposition :: "string \<Rightarrow> string \<Rightarrow> string option \<Rightarrow> refinement_run \<Rightarrow> refinement_run \<times> (refine_error + unit)" where
  "set_expansion_disposition = scope_set_disposition Deeper"

section \<open>Calls\<close>

datatype refine_op =
    RTarget refinement_target string string "string list" "(string \<times> string list) list" "(string \<times> string list) list"
  | RExpansion string string "string list" string string "(string \<times> pyval) list" string "string list"
      "(string \<times> string list) list" "(string \<times> string list) list"
  | RStream level string string nat
  | RActivate level string string
  | RDeactivate string string
  | RDispatch level string string string string string string string "string list" "string list" "string list list" pyfloat
  | RComplete level string string pyfloat string "string option" "string option" "string option"
  | RAbort level string string
  | RScope level string string "string option"
  | RAnyScope string string "string option"
  | RDisposition string "string option"
  | RNote string
  | RFinalize

fun refine_step :: "refinement_run \<Rightarrow> refine_op \<Rightarrow> refinement_run \<times> (refine_error + unit)" where
  "refine_step R (RTarget t shard command children parts shards) = register_target t shard command children parts shards R"
| "refine_step R (RExpansion k seed moves owner shard nomination command children parts shards) =
     register_expansion k seed moves owner shard nomination command children parts shards R"
| "refine_step R (RStream lv k inst handle) = scope_register_stream lv k inst handle R"
| "refine_step R (RActivate lv k inst) = scope_activate lv k inst R"
| "refine_step R (RDeactivate k inst) = (deactivate_stream k inst R, Inr ())"
| "refine_step R (RDispatch lv k owner inst fam search pos command children shards prefs dispatched) =
     map_prod id (map_sum id (\<lambda>_. ())) (scope_dispatch lv k owner inst fam search pos command children shards prefs dispatched R)"
| "refine_step R (RComplete lv k owner completed disp best reason failure) =
     (refine_complete lv k owner completed disp best reason failure R, Inr ())"
| "refine_step R (RAbort lv k reason) = scope_abort lv k reason R"
| "refine_step R (RScope lv k disp reason) = scope_set_disposition lv k disp reason R"
| "refine_step R (RAnyScope k disp reason) = set_scope_disposition k disp reason R"
| "refine_step R (RDisposition disp reason) = (refine_set_disposition disp reason R, Inr ())"
| "refine_step R (RNote message) = (refine_note message R, Inr ())"
| "refine_step R RFinalize = (refine_finalize R, Inr ())"

end
