(* ===== verification/UciAdapter.thy ===== *)
theory UciAdapter
  imports Telemetry SearchRequest
begin

text \<open>
  \<^verbatim>\<open>adapters/telemetry/uci.py\<close>, \<^verbatim>\<open>stockfish.py\<close>, \<^verbatim>\<open>reckless.py\<close> and \<^verbatim>\<open>lc0.py\<close>: the translation of
  the lines that an engine prints during one search into the events of a telemetry stream.  The
  three subclasses are the values of a datatype.  A parsed line is a dictionary in insertion
  order, as in the code.
\<close>

section \<open>Lines\<close>

datatype adapter_error =
    Stream telemetry_error
  | NotInfoLine
  | NotBestmoveLine
  | BestmoveMissing
  | MoveToken string
  | ScoreKind string
  | DefectMissing
  | DefectMalformed
  | DefectObject
  | DefectNonfinite
  | DefectVersion
  | ScoreType

type_synonym parsed = "(string \<times> pyval) list"

definition null_moves :: "string list" where
  "null_moves = [''(none)'', ''none'', ''0000'', ''a1a1'']"

definition int_fields :: "string list" where
  "int_fields = [''depth'', ''seldepth'', ''time'', ''nodes'', ''nps'', ''hashfull'', ''tbhits'', ''multipv'',
     ''movesleft'', ''eps'', ''currmovenumber'', ''player'', ''gameid'', ''cpuload'']"

definition string_fields :: "string list" where
  "string_fields = [''currmove'', ''side'']"

text \<open>A move in any case: \<open>re.IGNORECASE\<close> over ASCII classes.\<close>

definition is_uci_move :: "string \<Rightarrow> bool" where
  "is_uci_move t \<longleftrightarrow> uci_move (py_lower t)"

definition normalize_nullable_move :: "string \<Rightarrow> adapter_error + string option" where
  "normalize_nullable_move t = (let lowered = py_lower t in
     if lowered \<in> set null_moves then Inr None
     else if \<not> is_uci_move lowered then Inl (MoveToken t)
     else Inr (Some lowered))"

text \<open>One turn of the loop over the tokens, by the kind of the first one.\<close>

definition score_entry :: "string \<Rightarrow> int \<Rightarrow> string \<Rightarrow> pyval" where
  "score_entry k v bound = PDict [(''kind'', PStr k), (''value'', PInt v), (''bound'', PStr bound)]"

definition bound_of :: "string list \<Rightarrow> string \<times> string list" where
  "bound_of ts = (case ts of
     [] \<Rightarrow> (''none'', [])
   | t # rest \<Rightarrow> if t = ''lowerbound'' then (''lower'', rest)
       else if t = ''upperbound'' then (''upper'', rest) else (''none'', ts))"

lemma bound_of_length [termination_simp]: "length (snd (bound_of ts)) \<le> length ts"
  by (cases ts) (auto simp: bound_of_def)

function (sequential) info_tokens :: "string list \<Rightarrow> parsed \<Rightarrow> string list \<Rightarrow> parsed \<times> string list" where
  "info_tokens [] p u = (p, u)"
| "info_tokens (t # ts) p u =
     (if t \<in> set int_fields then (case ts of
          [] \<Rightarrow> (p, u @ [t])
        | v # rest \<Rightarrow> (case py_int v of
              None \<Rightarrow> info_tokens rest p (u @ [t, v])
            | Some i \<Rightarrow> info_tokens rest (dict_set t (PInt i) p) u))
      else if t \<in> set string_fields then (case ts of
          [] \<Rightarrow> (p, u @ [t])
        | v # rest \<Rightarrow> info_tokens rest (dict_set t (PStr v) p) u)
      else if t = ''score'' then (case ts of
          k # v # rest \<Rightarrow> (case py_int v of
              None \<Rightarrow> info_tokens rest p (u @ [t, k, v])
            | Some i \<Rightarrow> if k \<notin> set [''cp'', ''mate''] then info_tokens rest p (u @ [t, k, v])
                else info_tokens (snd (bound_of rest)) (dict_set ''score'' (score_entry k i (fst (bound_of rest))) p) u)
        | _ \<Rightarrow> (p, u @ t # ts))
      else if t = ''wdl'' then (case ts of
          a # b # c # rest \<Rightarrow> (case (py_int a, py_int b, py_int c) of
              (Some w, Some d, Some l) \<Rightarrow> info_tokens rest (dict_set ''wdl'' (PList [PInt w, PInt d, PInt l]) p) u
            | _ \<Rightarrow> info_tokens rest p (u @ [t, a, b, c]))
        | _ \<Rightarrow> (p, u @ t # ts))
      else if t = ''pv'' then
        info_tokens (dropWhile is_uci_move ts) (dict_set ''pv'' (PList (map (PStr \<circ> py_lower) (takeWhile is_uci_move ts))) p) u
      else if t = ''string'' then (dict_set ''comment'' (PStr (py_join '' '' ts)) p, u)
      else info_tokens ts p (u @ [t]))"
  by pat_completeness auto
termination
  by (relation "measure (\<lambda>(ts, p, u). length ts)")
    (auto simp: le_imp_less_Suc length_dropWhile_le intro!: le_less_trans [OF bound_of_length])

definition parse_info_line :: "string \<Rightarrow> adapter_error + parsed" where
  "parse_info_line line =
     (if line = ''info'' then Inr [(''raw'', PStr line)]
      else if \<not> prefix ''info '' line then Inl NotInfoLine
      else (case info_tokens (drop 1 (py_split line)) [(''raw'', PStr line)] [] of
          (p, u) \<Rightarrow> Inr (if u = [] then p else dict_set ''unknown_tokens'' (PList (map PStr u)) p)))"

text \<open>The extras of a \<open>bestmove\<close> line; an unknown token is appended to the list of such tokens.\<close>

definition add_unknown :: "string \<Rightarrow> parsed \<Rightarrow> parsed" where
  "add_unknown t extra = (case dict_get extra ''unknown_tokens'' of
     Some (PList xs) \<Rightarrow> dict_set ''unknown_tokens'' (PList (xs @ [PStr t])) extra
   | _ \<Rightarrow> dict_set ''unknown_tokens'' (PList [PStr t]) extra)"

definition opt_move :: "string option \<Rightarrow> pyval" where
  "opt_move v = (case v of None \<Rightarrow> PNone | Some t \<Rightarrow> PStr t)"

fun bestmove_tokens :: "string list \<Rightarrow> parsed \<Rightarrow> parsed \<Rightarrow> adapter_error + parsed \<times> parsed" where
  "bestmove_tokens (t # v # rest) p extra =
     (if t = ''ponder'' then rbind (normalize_nullable_move v) (\<lambda>mv. bestmove_tokens rest (dict_set ''ponder'' (opt_move mv) p) extra)
      else if t \<in> set [''player'', ''gameid''] then
        bestmove_tokens rest p (dict_set t (case py_int v of None \<Rightarrow> PStr v | Some i \<Rightarrow> PInt i) extra)
      else if t = ''side'' then bestmove_tokens rest p (dict_set t (PStr v) extra)
      else bestmove_tokens (v # rest) p (add_unknown t extra))"
| "bestmove_tokens [t] p extra = Inr (p, add_unknown t extra)"
| "bestmove_tokens [] p extra = Inr (p, extra)"

definition parse_bestmove_line :: "string \<Rightarrow> adapter_error + parsed" where
  "parse_bestmove_line line =
     (if \<not> prefix ''bestmove '' line then Inl NotBestmoveLine
      else (case py_split line of
          _ # t # rest \<Rightarrow>
            rbind (normalize_nullable_move t) (\<lambda>mv.
            rbind (bestmove_tokens rest [(''raw'', PStr line), (''bestmove'', opt_move mv)] []) (\<lambda>(p, extra).
            Inr (if extra = [] then p else dict_set ''extra'' (PDict extra) p)))
        | _ \<Rightarrow> Inl BestmoveMissing))"

section \<open>Adapters\<close>

datatype family = Stockfish | Reckless | Lc0 string

fun engine_name :: "family \<Rightarrow> string" where
  "engine_name Stockfish = ''stockfish''"
| "engine_name Reckless = ''reckless''"
| "engine_name (Lc0 score_type) = ''lc0''"

fun nodes_unit :: "family \<Rightarrow> string" where
  "nodes_unit (Lc0 score_type) = ''count''"
| "nodes_unit _ = ''nodes''"

fun default_multipv :: "family \<Rightarrow> int option" where
  "default_multipv (Lc0 score_type) = Some 1"
| "default_multipv _ = None"

definition supported_score_types :: "string list" where
  "supported_score_types = [''centipawn'', ''centipawn_with_drawscore'', ''centipawn_2019'', ''centipawn_2018'',
     ''win_percentage'', ''Q'', ''W-L'', ''WDL_mu'']"

fun score_semantics :: "family \<Rightarrow> string \<Rightarrow> adapter_error + string \<times> string" where
  "score_semantics (Lc0 score_type) k =
     (if k = ''mate'' then Inr (''mate'', ''lc0.uci_mate'')
      else if k \<noteq> ''cp'' then Inl (ScoreKind k)
      else Inr (if prefix ''centipawn'' score_type then ''cp'' else ''scalar'', ''lc0.uci_score.'' @ score_type))"
| "score_semantics f k =
     (if k = ''cp'' then Inr (''cp'', engine_name f @ ''.uci_cp'')
      else if k = ''mate'' then Inr (''mate'', engine_name f @ ''.uci_mate'') else Inl (ScoreKind k))"

record adapter =
  ad_family :: family
  ad_stream :: telemetry_stream

definition new_adapter :: "family \<Rightarrow> string \<Rightarrow> string \<Rightarrow> string \<Rightarrow> string \<Rightarrow> adapter_error + adapter" where
  "new_adapter f search inst pos variant =
     rbind (ensure (case f of Lc0 score_type \<Rightarrow> score_type \<in> set supported_score_types | _ \<Rightarrow> True) ScoreType) (\<lambda>_.
     Inr \<lparr>ad_family = f, ad_stream = new_stream \<lparr>si_engine = engine_name f, si_engine_instance = inst,
       si_search_id = search, si_position_id = pos, si_variant = variant\<rparr>\<rparr>)"

text \<open>A call of the stream inside the adapter.\<close>

definition on_stream :: "adapter \<Rightarrow> telemetry_stream \<times> (telemetry_error + event) \<Rightarrow> adapter \<times> (adapter_error + event)" where
  "on_stream A call = (A\<lparr>ad_stream := fst call\<rparr>, map_sum Stream id (snd call))"

definition adapter_start :: "adapter \<Rightarrow> pyval \<Rightarrow> pyval \<Rightarrow> pyval \<Rightarrow> pyval option \<Rightarrow> adapter \<times> (adapter_error + event)" where
  "adapter_start A pos request observed controller = on_stream A (stream_start (ad_stream A) pos request observed controller)"

definition promoted :: "string list" where
  "promoted = [''score'', ''wdl'', ''nodes'', ''time'', ''pv'', ''multipv'']"

definition native_data :: "parsed \<Rightarrow> pyval" where
  "native_data p = PDict (filter (\<lambda>(k, v). k \<notin> set promoted) p)"

definition native_entry :: "string \<Rightarrow> pyval \<Rightarrow> string \<times> pyval" where
  "native_entry schema data = (''native'', PDict [(''schema'', PStr schema), (''data'', data)])"

definition info_native :: "family \<Rightarrow> parsed \<Rightarrow> string \<times> pyval" where
  "info_native f p = native_entry (engine_name f @ ''.uci.v1'') (native_data p)"

definition native_event :: "adapter \<Rightarrow> parsed \<Rightarrow> pyval \<Rightarrow> adapter \<times> (adapter_error + event)" where
  "native_event A p observed =
     on_stream A (stream_emit (ad_stream A) ''native.event'' observed [info_native (ad_family A) p])"

definition score_evaluation :: "family \<Rightarrow> parsed \<Rightarrow> adapter_error + pyval list" where
  "score_evaluation f p = (case dict_get p ''score'' of
     Some (PDict s) \<Rightarrow> (case (dict_get s ''kind'', dict_get s ''value'', dict_get s ''bound'') of
         (Some (PStr k), Some v, Some b) \<Rightarrow> rbind (score_semantics f k) (\<lambda>(shown, semantics).
           Inr [PDict [(''kind'', PStr shown), (''value'', v), (''bound'', b), (''perspective'', PStr ''unknown''),
             (''semantics'', PStr semantics)]])
       | _ \<Rightarrow> Inr [])
   | _ \<Rightarrow> Inr [])"

definition wdl_evaluation :: "family \<Rightarrow> parsed \<Rightarrow> pyval list" where
  "wdl_evaluation f p = (case dict_get p ''wdl'' of
     Some (PList [PInt w, PInt d, PInt l]) \<Rightarrow>
       [PDict [(''kind'', PStr ''wdl''), (''win'', PInt w), (''draw'', PInt d), (''loss'', PInt l),
         (''scale'', PInt (w + d + l)), (''bound'', PStr ''none''), (''perspective'', PStr ''unknown''),
         (''semantics'', PStr (engine_name f @ ''.uci_wdl''))]]
   | _ \<Rightarrow> [])"

definition work_entry :: "family \<Rightarrow> parsed \<Rightarrow> event" where
  "work_entry f p = (case dict_get p ''nodes'' of None \<Rightarrow> []
     | Some v \<Rightarrow> [(''work'', PList [PDict [(''value'', v), (''unit'', PStr (nodes_unit f)),
         (''semantics'', PStr (engine_name f @ ''.uci_nodes''))]])])"

definition time_entry :: "family \<Rightarrow> parsed \<Rightarrow> event" where
  "time_entry f p = (case dict_get p ''time'' of None \<Rightarrow> []
     | Some v \<Rightarrow> [(''engine_time'', PDict [(''value'', v), (''unit'', PStr ''ms''),
         (''semantics'', PStr (engine_name f @ ''.uci_time''))])])"

definition candidate_payload :: "family \<Rightarrow> parsed \<Rightarrow> int \<Rightarrow> pyval \<Rightarrow> pyval list \<Rightarrow> pyval list \<Rightarrow> event" where
  "candidate_payload f p rank mv pv evaluations =
     [(''candidate'', PDict ([(''multipv_index'', PInt rank), (''move'', mv), (''pv'', PList (mv # pv))] @
        (if evaluations = [] then [] else [(''evaluations'', PList evaluations)]))),
      info_native f p] @ work_entry f p @ time_entry f p"

definition rank_of :: "family \<Rightarrow> parsed \<Rightarrow> int option" where
  "rank_of f p = (case dict_get p ''multipv'' of Some (PInt k) \<Rightarrow> Some k | _ \<Rightarrow> default_multipv f)"

definition candidate_event :: "adapter \<Rightarrow> parsed \<Rightarrow> pyval \<Rightarrow> adapter \<times> (adapter_error + event)" where
  "candidate_event A p observed = (case (dict_get p ''pv'', rank_of (ad_family A) p) of
     (Some (PList (mv # pv)), Some rank) \<Rightarrow>
       (if rank < 1 then native_event A p observed
        else raising A (score_evaluation (ad_family A) p) (\<lambda>scores.
          on_stream A (stream_emit (ad_stream A) ''candidate.update'' observed
            (candidate_payload (ad_family A) p rank mv pv (scores @ wdl_evaluation (ad_family A) p)))))
   | _ \<Rightarrow> native_event A p observed)"

definition complete_event :: "adapter \<Rightarrow> parsed \<Rightarrow> pyval \<Rightarrow> adapter \<times> (adapter_error + event)" where
  "complete_event A p observed =
     on_stream A (stream_emit (ad_stream A) ''search.complete'' observed
       ([(''bestmove'', the (dict_get p ''bestmove'')),
         native_entry (engine_name (ad_family A) @ ''.uci.bestmove.v1'')
           (PDict (dict_update [(''raw'', the (dict_get p ''raw''))]
              (case dict_get p ''extra'' of Some (PDict extra) \<Rightarrow> extra | _ \<Rightarrow> [])))] @
        (case dict_get p ''ponder'' of None \<Rightarrow> [] | Some v \<Rightarrow> [(''ponder'', v)])))"

definition one_event :: "adapter \<times> (adapter_error + event) \<Rightarrow> adapter \<times> (adapter_error + event list)" where
  "one_event call = map_prod id (map_sum id (\<lambda>e. [e])) call"

definition base_consume :: "adapter \<Rightarrow> string \<Rightarrow> pyval \<Rightarrow> adapter \<times> (adapter_error + event list)" where
  "base_consume A line observed =
     (if \<not> tm_started (ad_stream A) then (A, Inl (Stream NotStarted))
      else if tm_completed (ad_stream A) then (A, Inl (Stream AfterComplete))
      else if line = [] then (A, Inr [])
      else if prefix ''info'' line then
        raising A (parse_info_line line) (\<lambda>p. one_event
          (if (case dict_get p ''pv'' of Some v \<Rightarrow> truthy v | None \<Rightarrow> False) then candidate_event A p observed
           else native_event A p observed))
      else if prefix ''bestmove '' line then
        raising A (parse_bestmove_line line) (\<lambda>p. one_event (complete_event A p observed))
      else one_event (on_stream A (stream_emit (ad_stream A) ''native.event'' observed
        [native_entry (engine_name (ad_family A) @ ''.uci.raw.v1'') (PDict [(''raw'', PStr line)])])))"

text \<open>
  The defect telemetry of LC0.  \<open>loads\<close> stands for \<open>json.loads\<close> with the constants
  rejected, \<open>None\<close> for its \<open>ValueError\<close>.
\<close>

fun finite_native :: "pyval \<Rightarrow> bool" where
  "finite_native (PFloat x) = f_finite x"
| "finite_native (PDict d) = list_all (\<lambda>(k, v). finite_native v) d"
| "finite_native (PList xs) = list_all finite_native xs"
| "finite_native v = True"

definition defect_payload :: "(string \<Rightarrow> pyval option) \<Rightarrow> string \<Rightarrow> string \<Rightarrow> adapter_error + pyval" where
  "defect_payload loads comment start = (let raw = py_strip (drop (length start) comment) in
     if raw = [] then Inl DefectMissing
     else (case loads raw of
        None \<Rightarrow> Inl DefectMalformed
      | Some (PDict d) \<Rightarrow>
          if \<not> finite_native (PDict d) then Inl DefectNonfinite
          else if dict_get d ''v'' \<noteq> Some (PInt 1) then Inl DefectVersion
          else Inr (PDict d)
      | Some _ \<Rightarrow> Inl DefectObject))"

definition defect_event :: "adapter \<Rightarrow> (string \<Rightarrow> pyval option) \<Rightarrow> string \<Rightarrow> string \<Rightarrow> string \<Rightarrow> pyval \<Rightarrow>
    adapter \<times> (adapter_error + event list)" where
  "defect_event A loads comment start schema observed =
     raising A (defect_payload loads comment start) (\<lambda>data. one_event
       (on_stream A (stream_emit (ad_stream A) ''native.event'' observed [native_entry schema data])))"

definition lc0_consume :: "(string \<Rightarrow> pyval option) \<Rightarrow> adapter \<Rightarrow> string \<Rightarrow> pyval \<Rightarrow> adapter \<times> (adapter_error + event list)" where
  "lc0_consume loads A line observed =
     (if prefix ''info '' line then
        raising A (parse_info_line line) (\<lambda>p. case dict_get p ''comment'' of
            Some (PStr comment) \<Rightarrow>
              (if prefix ''DEFECT_TELEMETRY_ITER '' comment
               then defect_event A loads comment ''DEFECT_TELEMETRY_ITER '' ''lc0.defect.iter.v1'' observed
               else if prefix ''DEFECT_TELEMETRY_SUMMARY '' comment
               then defect_event A loads comment ''DEFECT_TELEMETRY_SUMMARY '' ''lc0.defect.summary.v1'' observed
               else base_consume A line observed)
          | _ \<Rightarrow> base_consume A line observed)
      else base_consume A line observed)"

definition consume :: "(string \<Rightarrow> pyval option) \<Rightarrow> adapter \<Rightarrow> string \<Rightarrow> pyval \<Rightarrow> adapter \<times> (adapter_error + event list)" where
  "consume loads A line observed =
     (case ad_family A of Lc0 score_type \<Rightarrow> lc0_consume loads A line observed | _ \<Rightarrow> base_consume A line observed)"

end
