(* ===== verification/StreamWriter.thy ===== *)
theory StreamWriter
  imports UciAdapter
begin

text \<open>
  \<open>TelemetryStreamWriter\<close> of \<^verbatim>\<open>controller/replay.py\<close>: a bounded queue between the thread that reads
  an engine's output and the thread that translates and writes it, with the counters from which a
  decision tells whether the live view of the events is complete.  Every lock-protected region is a
  step of its own, and the steps of the threads interleave freely.
\<close>

section \<open>State\<close>

datatype writer_error =
    AdapterError adapter_error
  | BeforeBinding
  | BeforeStarted
  | WriteFailed
  | NotDrained nat
  | Loss string
  | BindClosed
  | BindTwice
  | BindUsed

datatype item =
    Begin string pyval pyval "pyval option" pyval
  | Line string pyval
  | Sentinel

text \<open>
  The writer thread waits for an item, or has counted an item whose translation raised and has not yet
  recorded the error, or has ended.
\<close>

datatype writer_thread = Waiting | Raised writer_error | Ended

definition queue_maxsize :: nat where
  "queue_maxsize = 200000"

definition tracked_limit :: nat where
  "tracked_limit = 50000"

definition error_limit :: nat where
  "error_limit = 32"

type_synonym factory = "string \<Rightarrow> adapter_error + adapter"

record writer =
  wr_path :: string
  wr_factory :: "factory option"
  wr_offered :: "item list"
  wr_queue :: "item list"
  wr_adapter :: "adapter option"
  wr_search_ids :: "string list"
  wr_event_count :: nat
  wr_dropped :: int
  wr_post_complete :: nat
  wr_errors :: "writer_error list"
  wr_closed :: bool
  wr_peak :: nat
  wr_track :: bool
  wr_events :: "event list"
  wr_truncated :: bool
  wr_enqueued :: int
  wr_applied :: int
  wr_abandoned :: bool
  wr_stopping :: bool
  wr_thread :: writer_thread

definition new_writer :: "string \<Rightarrow> factory option \<Rightarrow> bool \<Rightarrow> writer" where
  "new_writer path factory track = \<lparr>wr_path = path, wr_factory = factory, wr_offered = [], wr_queue = [],
     wr_adapter = None, wr_search_ids = [], wr_event_count = 0, wr_dropped = 0, wr_post_complete = 0,
     wr_errors = [], wr_closed = False, wr_peak = 0, wr_track = track, wr_events = [], wr_truncated = False,
     wr_enqueued = 0, wr_applied = 0, wr_abandoned = False, wr_stopping = False, wr_thread = Waiting\<rparr>"

definition add_error :: "writer_error \<Rightarrow> writer \<Rightarrow> writer" where
  "add_error e W = (if length (wr_errors W) < error_limit then W\<lparr>wr_errors := wr_errors W @ [e]\<rparr> else W)"

definition bind_prepared :: "string \<Rightarrow> factory \<Rightarrow> writer \<Rightarrow> writer \<times> (writer_error + unit)" where
  "bind_prepared path factory W =
     (if wr_closed W then (W, Inl BindClosed)
      else if wr_factory W \<noteq> None then (W, Inl BindTwice)
      else if wr_adapter W \<noteq> None \<or> wr_search_ids W \<noteq> [] \<or> wr_enqueued W \<noteq> 0 \<or> wr_applied W \<noteq> 0 \<or> wr_event_count W \<noteq> 0
      then (W, Inl BindUsed)
      else (W\<lparr>wr_path := path, wr_factory := Some factory\<rparr>, Inr ()))"

section \<open>The producers\<close>

text \<open>
  \<open>_enqueue\<close> counts an item in one region and publishes it afterwards: it is \<open>offered\<close> in
  between.  A full queue takes the count back and drops the item.
\<close>

definition offer :: "item \<Rightarrow> writer \<Rightarrow> writer" where
  "offer x W = (if wr_closed W then W
     else W\<lparr>wr_enqueued := wr_enqueued W + 1, wr_offered := wr_offered W @ [x]\<rparr>)"

definition publish :: "nat \<Rightarrow> writer \<Rightarrow> writer" where
  "publish n W =
     (if length (wr_offered W) \<le> n then W
      else (let x = wr_offered W ! n; W1 = W\<lparr>wr_offered := take n (wr_offered W) @ drop (Suc n) (wr_offered W)\<rparr> in
        if queue_maxsize \<le> length (wr_queue W1)
        then W1\<lparr>wr_enqueued := wr_enqueued W1 - 1, wr_dropped := wr_dropped W1 + 1\<rparr>
        else W1\<lparr>wr_queue := wr_queue W1 @ [x], wr_peak := max (wr_peak W1) (Suc (length (wr_queue W1)))\<rparr>))"

section \<open>The writer thread\<close>

text \<open>\<open>stored\<close> tells whether the file took the event.\<close>

definition write_event :: "bool \<Rightarrow> event \<Rightarrow> writer \<Rightarrow> writer \<times> writer_error option" where
  "write_event stored e W =
     (if wr_abandoned W then (W, None)
      else if \<not> stored then (W, Some WriteFailed)
      else (let W1 = W\<lparr>wr_event_count := wr_event_count W + 1\<rparr> in
        (if \<not> wr_track W1 then W1
         else if length (wr_events W1) < tracked_limit then W1\<lparr>wr_events := wr_events W1 @ [e]\<rparr>
         else W1\<lparr>wr_truncated := True\<rparr>, None)))"

fun write_events :: "bool \<Rightarrow> event list \<Rightarrow> writer \<Rightarrow> writer \<times> writer_error option" where
  "write_events stored [] W = (W, None)"
| "write_events stored (e # es) W = (case write_event stored e W of
     (W1, Some err) \<Rightarrow> (W1, Some err) | (W1, None) \<Rightarrow> write_events stored es W1)"

text \<open>\<open>ValueError\<close>, which is not a \<open>TelemetryError\<close>.\<close>

fun value_error :: "adapter_error \<Rightarrow> bool" where
  "value_error (ScoreKind k) = True"
| "value_error ScoreType = True"
| "value_error e = False"

fun apply_item :: "(string \<Rightarrow> pyval option) \<Rightarrow> bool \<Rightarrow> item \<Rightarrow> writer \<Rightarrow> writer \<times> writer_error option" where
  "apply_item loads stored (Begin search pos request controller observed) W =
     (case wr_factory W of
        None \<Rightarrow> (W, Some BeforeBinding)
      | Some f \<Rightarrow> (case f search of
          Inl e \<Rightarrow> (W, Some (AdapterError e))
        | Inr A \<Rightarrow> (case adapter_start A pos request observed controller of
            (A', Inl e) \<Rightarrow> (W, Some (AdapterError e))
          | (A', Inr e) \<Rightarrow>
              write_event stored e (W\<lparr>wr_adapter := Some A', wr_search_ids := wr_search_ids W @ [search]\<rparr>))))"
| "apply_item loads stored (Line line observed) W =
     (case wr_adapter W of
        None \<Rightarrow> (add_error BeforeStarted W, None)
      | Some A \<Rightarrow>
          if tm_completed (ad_stream A) then (W\<lparr>wr_post_complete := wr_post_complete W + 1\<rparr>, None)
          else (case consume loads A line observed of
              (A', Inl e) \<Rightarrow> (let W1 = W\<lparr>wr_adapter := Some A'\<rparr> in
                if value_error e then (W1, Some (AdapterError e)) else (add_error (AdapterError e) W1, None))
            | (A', Inr es) \<Rightarrow> write_events stored es (W\<lparr>wr_adapter := Some A'\<rparr>)))"
| "apply_item loads stored Sentinel W = (W, None)"

text \<open>One turn of the loop up to the count, and the record of an error after the count.\<close>

definition take_item :: "(string \<Rightarrow> pyval option) \<Rightarrow> bool \<Rightarrow> writer \<Rightarrow> writer" where
  "take_item loads stored W =
     (if wr_thread W \<noteq> Waiting then W
      else (case wr_queue W of
          [] \<Rightarrow> if wr_stopping W then W\<lparr>wr_thread := Ended\<rparr> else W
        | Sentinel # rest \<Rightarrow> W\<lparr>wr_queue := rest, wr_thread := Ended\<rparr>
        | x # rest \<Rightarrow> (case apply_item loads stored x (W\<lparr>wr_queue := rest\<rparr>) of
            (W1, res) \<Rightarrow> W1\<lparr>wr_applied := wr_applied W1 + 1,
              wr_thread := (case res of None \<Rightarrow> Waiting | Some e \<Rightarrow> Raised e)\<rparr>)))"

definition record_error :: "writer \<Rightarrow> writer" where
  "record_error W = (case wr_thread W of Raised e \<Rightarrow> (add_error e W)\<lparr>wr_thread := Waiting\<rparr> | _ \<Rightarrow> W)"

section \<open>The readers\<close>

definition pending_events :: "writer \<Rightarrow> int" where
  "pending_events W = max 0 (wr_enqueued W - wr_applied W)"

definition evidence_lossy :: "writer \<Rightarrow> bool" where
  "evidence_lossy W \<longleftrightarrow> 0 < wr_dropped W \<or> wr_errors W \<noteq> []"

definition writer_completed :: "writer \<Rightarrow> bool" where
  "writer_completed W \<longleftrightarrow> (case wr_adapter W of None \<Rightarrow> False | Some A \<Rightarrow> tm_completed (ad_stream A))"

definition contract_validatable :: "writer \<Rightarrow> bool" where
  "contract_validatable W \<longleftrightarrow> writer_completed W \<and> wr_errors W = [] \<and> wr_dropped W = 0"

section \<open>Closing\<close>

definition close_begin :: "writer \<Rightarrow> writer" where
  "close_begin W =
     (if wr_closed W then W
      else (let W1 = W\<lparr>wr_closed := True, wr_stopping := True\<rparr> in
        if length (wr_queue W1) < queue_maxsize then W1\<lparr>wr_queue := wr_queue W1 @ [Sentinel]\<rparr> else W1))"

text \<open>Both joins have timed out while the thread was alive.\<close>

definition close_timeout :: "writer \<Rightarrow> writer" where
  "close_timeout W =
     (if \<not> wr_closed W \<or> wr_thread W = Ended then W
      else (let stranded = max 0 (wr_enqueued W - wr_applied W);
                W1 = (if stranded \<noteq> 0 then W\<lparr>wr_dropped := wr_dropped W + stranded, wr_applied := wr_applied W + stranded\<rparr> else W)
            in (add_error (NotDrained (nat stranded)) W1)\<lparr>wr_abandoned := True\<rparr>))"

definition note_loss :: "string \<Rightarrow> writer \<Rightarrow> writer" where
  "note_loss reason W = add_error (Loss reason) (W\<lparr>wr_dropped := wr_dropped W + 1\<rparr>)"

section \<open>Steps\<close>

datatype writer_op =
    WBind string factory
  | WOffer item
  | WPublish nat
  | WTake bool
  | WRecord
  | WClose
  | WTimeout
  | WLoss string

fun writer_step :: "(string \<Rightarrow> pyval option) \<Rightarrow> writer \<Rightarrow> writer_op \<Rightarrow> writer \<times> (writer_error + unit)" where
  "writer_step loads W (WBind path factory) = bind_prepared path factory W"
| "writer_step loads W (WOffer x) = (if x = Sentinel then W else offer x W, Inr ())"
| "writer_step loads W (WPublish n) = (publish n W, Inr ())"
| "writer_step loads W (WTake stored) = (take_item loads stored W, Inr ())"
| "writer_step loads W WRecord = (record_error W, Inr ())"
| "writer_step loads W WClose = (close_begin W, Inr ())"
| "writer_step loads W WTimeout = (close_timeout W, Inr ())"
| "writer_step loads W (WLoss reason) = (note_loss reason W, Inr ())"

end
