(* ===== verification/CrossFeed.thy ===== *)
theory CrossFeed
  imports RefineRun StreamWriter "HOL-Library.Product_Lexorder"
begin

text \<open>
  \<^verbatim>\<open>controller/crossfeed.py\<close>: the view that composes what the engines reported in the VERIFY and REFINE
  stages of a move, typed and with its provenance, and \<open>build_decision_evidence\<close> of
  \<^verbatim>\<open>controller/decision.py\<close>, which hands the view and the terminal facts to the decision.
  The writers of the streams are a store that maps the handles held by the runs to their state.
\<close>

section \<open>Native records\<close>

datatype feed_error =
    NotNumeric string | NotFinite string | NumberOverflow | NotMove string
  | EvaluationObject | EmptyText string | WorkObject
  | UnknownSource | FamilyMismatch | PhaseUnknown | BadSequence | BadRank
  | HintMove | UnknownOriginal
  | ViewPolicy | DuplicateCandidates
  | InstanceMismatch | EngineMismatch | CandidateMissing | PvArray | PvHead | EvaluationArray | WorkArray | SearchMissing
  | RunMismatch string | OwnersMismatch | CandidateSet | NomineesDistinct | ParticipantMismatch
  | HintOutside | HintSearch | TargetOutside | TargetUnknown

definition finite_number :: "pyval option \<Rightarrow> string \<Rightarrow> feed_error + pyval" where
  "finite_number v label = (case v of
     None \<Rightarrow> Inl (NotNumeric label)
   | Some w \<Rightarrow> (case as_float w of
       None \<Rightarrow> Inl (NotNumeric label)
     | Some None \<Rightarrow> Inl NumberOverflow
     | Some (Some x) \<Rightarrow> if f_finite x then Inr w else Inl (NotFinite label)))"

definition feed_move :: "pyval option \<Rightarrow> string \<Rightarrow> feed_error + string" where
  "feed_move v label = (case v of
     Some (PStr t) \<Rightarrow> if uci_move (py_lower t) then Inr (py_lower t) else Inl (NotMove label)
   | _ \<Rightarrow> Inl (NotMove label))"

definition nonempty_text :: "event \<Rightarrow> string \<Rightarrow> feed_error + string" where
  "nonempty_text d k = (case dict_get d k of
     Some (PStr t) \<Rightarrow> if t = [] then Inl (EmptyText k) else Inr t | _ \<Rightarrow> Inl (EmptyText k))"

definition text_or_none :: "event \<Rightarrow> string \<Rightarrow> string option" where
  "text_or_none d k = (case dict_get d k of Some (PStr t) \<Rightarrow> Some t | _ \<Rightarrow> None)"

text \<open>A field that may be \<open>None\<close>; \<open>PNone\<close> stands for it in the record.\<close>

definition optional_number :: "event \<Rightarrow> string \<Rightarrow> feed_error + pyval" where
  "optional_number d k = (case dict_get d k of
     None \<Rightarrow> Inr PNone | Some PNone \<Rightarrow> Inr PNone | Some v \<Rightarrow> finite_number (Some v) k)"

record native_evaluation =
  ne_kind :: string
  ne_semantics :: string
  ne_bound :: "string option"
  ne_perspective :: "string option"
  ne_numbers :: "(string \<times> pyval) list"

definition number_keys :: "string list" where
  "number_keys = [''value'', ''win'', ''draw'', ''loss'', ''scale'']"

definition evaluation_from_payload :: "pyval \<Rightarrow> feed_error + native_evaluation" where
  "evaluation_from_payload v = (case v of
     PDict d \<Rightarrow>
       rbind (nonempty_text d ''kind'') (\<lambda>k.
       rbind (nonempty_text d ''semantics'') (\<lambda>s.
       rbind (rmap (\<lambda>key. rbind (optional_number d key) (\<lambda>x. Inr (key, x))) number_keys) (\<lambda>xs.
       Inr \<lparr>ne_kind = k, ne_semantics = s, ne_bound = text_or_none d ''bound'',
         ne_perspective = text_or_none d ''perspective'', ne_numbers = xs\<rparr>)))
   | _ \<Rightarrow> Inl EvaluationObject)"

definition given :: "string \<Rightarrow> pyval \<Rightarrow> event" where
  "given k v = (if v = PNone then [] else [(k, v)])"

definition evaluation_dict :: "native_evaluation \<Rightarrow> pyval" where
  "evaluation_dict e = PDict ([(''kind'', PStr (ne_kind e)), (''semantics'', PStr (ne_semantics e))] @
     given ''bound'' (opt_text (ne_bound e)) @ given ''perspective'' (opt_text (ne_perspective e)) @
     concat (map (\<lambda>(k, v). given k v) (ne_numbers e)))"

record native_work =
  nw_value :: pyval
  nw_unit :: string
  nw_semantics :: string

definition work_from_payload :: "pyval \<Rightarrow> feed_error + native_work" where
  "work_from_payload v = (case v of
     PDict d \<Rightarrow>
       rbind (nonempty_text d ''unit'') (\<lambda>u.
       rbind (nonempty_text d ''semantics'') (\<lambda>s.
       rbind (finite_number (dict_get d ''value'') ''work.value'') (\<lambda>x.
       Inr \<lparr>nw_value = x, nw_unit = u, nw_semantics = s\<rparr>)))
   | _ \<Rightarrow> Inl WorkObject)"

definition work_dict :: "native_work \<Rightarrow> pyval" where
  "work_dict w = PDict [(''value'', nw_value w), (''unit'', PStr (nw_unit w)), (''semantics'', PStr (nw_semantics w))]"

section \<open>Hints and candidates\<close>

record candidate_hint =
  ch_move :: string
  ch_observed :: string
  ch_owner :: string
  ch_instance :: string
  ch_family :: string
  ch_phase :: string
  ch_rank :: "int option"
  ch_pv :: "string list"
  ch_evaluations :: "native_evaluation list"
  ch_work :: "native_work list"
  ch_search :: string
  ch_run :: string
  ch_sequence :: int
  ch_time :: pyfloat
  ch_disposition :: string

definition text_move :: "string \<Rightarrow> string \<Rightarrow> feed_error + string" where
  "text_move t label = feed_move (Some (PStr t)) label"

definition phase_order :: "(string \<times> nat) list" where
  "phase_order = [(''VERIFY'', 0), (''REFINE'', 1)]"

definition check_hint :: "candidate_hint \<Rightarrow> feed_error + candidate_hint" where
  "check_hint h =
     rbind (text_move (ch_move h) ''hint.move'') (\<lambda>_.
     rbind (text_move (ch_observed h) ''hint.observed_move'') (\<lambda>_.
     rbind (ensure (ch_owner h \<in> set owner_order) UnknownSource) (\<lambda>_.
     rbind (ensure (ch_family h = ch_owner h) FamilyMismatch) (\<lambda>_.
     rbind (ensure (ch_phase h \<in> set (dict_keys phase_order)) PhaseUnknown) (\<lambda>_.
     rbind (ensure (ch_instance h \<noteq> []) (EmptyText ''source_instance'')) (\<lambda>_.
     rbind (ensure (ch_search h \<noteq> []) (EmptyText ''search_id'')) (\<lambda>_.
     rbind (ensure (ch_run h \<noteq> []) (EmptyText ''source_run_id'')) (\<lambda>_.
     rbind (ensure (0 \<le> ch_sequence h) BadSequence) (\<lambda>_.
     rbind (finite_number (Some (PFloat (ch_time h))) ''observed_ms'') (\<lambda>_.
     rbind (ensure (case ch_rank h of None \<Rightarrow> True | Some k \<Rightarrow> 1 \<le> k) BadRank) (\<lambda>_.
     rbind (rmap (\<lambda>t. text_move t ''pv_prefix'') (ch_pv h)) (\<lambda>_. Inr h))))))))))))"

definition hint_dict :: "candidate_hint \<Rightarrow> pyval" where
  "hint_dict h = PDict [
     (''move'', PStr (ch_move h)), (''observed_move'', PStr (ch_observed h)), (''source_owner'', PStr (ch_owner h)),
     (''source_instance'', PStr (ch_instance h)), (''source_family'', PStr (ch_family h)),
     (''source_phase'', PStr (ch_phase h)), (''source_rank'', opt_int (ch_rank h)),
     (''pv_prefix'', PList (map PStr (ch_pv h))), (''evaluations'', PList (map evaluation_dict (ch_evaluations h))),
     (''work'', PList (map work_dict (ch_work h))), (''search_id'', PStr (ch_search h)),
     (''source_run_id'', PStr (ch_run h)), (''sequence'', PInt (ch_sequence h)),
     (''observed_ms'', PFloat (ch_time h)), (''stage_disposition'', PStr (ch_disposition h))]"

record feed_candidate =
  fc_move :: string
  fc_owner :: string
  fc_hints :: "candidate_hint list"

definition check_feed_candidate :: "feed_candidate \<Rightarrow> feed_error + feed_candidate" where
  "check_feed_candidate c =
     rbind (text_move (fc_move c) ''candidate.move'') (\<lambda>_.
     rbind (ensure (fc_owner c \<in> set owner_order) UnknownOriginal) (\<lambda>_.
     rbind (ensure (list_all (\<lambda>h. ch_move h = fc_move c) (fc_hints c)) HintMove) (\<lambda>_. Inr c)))"

definition feed_candidate_dict :: "feed_candidate \<Rightarrow> pyval" where
  "feed_candidate_dict c = PDict [(''move'', PStr (fc_move c)), (''original_owner'', PStr (fc_owner c)),
     (''hints'', PList (map hint_dict (fc_hints c)))]"

record feed_view =
  fv_run :: string
  fv_generation :: int
  fv_position :: string
  fv_policy :: string
  fv_verification :: string
  fv_verification_disposition :: string
  fv_complete :: bool
  fv_refinement :: "string option"
  fv_refinement_disposition :: string
  fv_candidates :: "feed_candidate list"
  fv_faults :: "string list"

definition feed_policy :: string where
  "feed_policy = ''typed_verify_refine_v1''"

definition check_view :: "feed_view \<Rightarrow> feed_error + feed_view" where
  "check_view v =
     rbind (ensure (fv_policy v = feed_policy) ViewPolicy) (\<lambda>_.
     rbind (ensure (fv_run v \<noteq> []) (EmptyText ''run_id'')) (\<lambda>_.
     rbind (ensure (fv_position v \<noteq> []) (EmptyText ''position_id'')) (\<lambda>_.
     rbind (ensure (distinct (map fc_move (fv_candidates v))) DuplicateCandidates) (\<lambda>_. Inr v))))"

definition view_dict :: "feed_view \<Rightarrow> pyval" where
  "view_dict v = PDict [
     (''run_id'', PStr (fv_run v)), (''generation'', PInt (fv_generation v)), (''position_id'', PStr (fv_position v)),
     (''policy'', PStr (fv_policy v)),
     (''verification'', PDict [(''verification_id'', PStr (fv_verification v)),
       (''disposition'', PStr (fv_verification_disposition v)), (''complete'', PBool (fv_complete v))]),
     (''refinement'', PDict [(''refinement_id'', opt_text (fv_refinement v)),
       (''disposition'', PStr (fv_refinement_disposition v))]),
     (''candidates'', PList (map feed_candidate_dict (fv_candidates v))),
     (''evidence_faults'', PList (map PStr (fv_faults v)))]"

section \<open>Extraction\<close>

definition order_index :: "string \<Rightarrow> nat" where
  "order_index owner = length (takeWhile (\<lambda>x. x \<noteq> owner) owner_order)"

definition hint_key :: "candidate_hint \<Rightarrow> nat \<times> nat \<times> string \<times> string \<times> string \<times> int \<times> int" where
  "hint_key h = (the (dict_get phase_order (ch_phase h)), order_index (ch_owner h), ch_instance h, ch_search h, ch_observed h,
     (case ch_rank h of None \<Rightarrow> 1000000 | Some k \<Rightarrow> k), ch_sequence h)"

text \<open>\<open>d.get(k) or []\<close>, which must be a list.\<close>

definition list_or_empty :: "event \<Rightarrow> string \<Rightarrow> feed_error \<Rightarrow> feed_error + pyval list" where
  "list_or_empty d k e = (case dict_get d k of
     None \<Rightarrow> Inr []
   | Some v \<Rightarrow> if \<not> truthy v then Inr [] else (case v of PList xs \<Rightarrow> Inr xs | _ \<Rightarrow> Inl e))"

definition rank_value :: "event \<Rightarrow> feed_error + int option" where
  "rank_value c = (case dict_get c ''multipv_index'' of
     None \<Rightarrow> Inr None
   | Some PNone \<Rightarrow> Inr None
   | Some v \<Rightarrow> (case as_int v of None \<Rightarrow> Inl BadRank | Some k \<Rightarrow> if k < 1 then Inl BadRank else Inr (Some k)))"

definition sequence_value :: "event \<Rightarrow> feed_error + int" where
  "sequence_value e = (case Option.bind (dict_get e ''sequence'') as_int of
     None \<Rightarrow> Inl BadSequence | Some n \<Rightarrow> if n < 0 then Inl BadSequence else Inr n)"

definition candidate_object :: "event \<Rightarrow> feed_error + event" where
  "candidate_object e = (case dict_get e ''candidate'' of Some (PDict c) \<Rightarrow> Inr c | _ \<Rightarrow> Inl CandidateMissing)"

definition observed_float :: "event \<Rightarrow> feed_error + pyfloat" where
  "observed_float e = rbind (finite_number (dict_get e ''observed_ms'') ''observed_ms'')
     (\<lambda>v. Inr (case as_float v of Some (Some x) \<Rightarrow> x | _ \<Rightarrow> NaN))"

definition extract_hint :: "event \<Rightarrow> pyval option \<Rightarrow> string \<Rightarrow> string \<Rightarrow> string \<Rightarrow> string \<Rightarrow> string \<Rightarrow> string \<Rightarrow> bool \<Rightarrow>
    feed_error + candidate_hint option" where
  "extract_hint e root_move owner inst fam phase disp run_id prefix_root =
     (if dict_get e ''event_type'' \<noteq> Some (PStr ''candidate.update'') then Inr None
      else
     rbind (ensure (dict_get e ''engine_instance'' = Some (PStr inst)) InstanceMismatch) (\<lambda>_.
     rbind (ensure (dict_get e ''engine'' = Some (PStr fam)) EngineMismatch) (\<lambda>_.
     rbind (candidate_object e) (\<lambda>c.
     rbind (feed_move (dict_get c ''move'') ''candidate.move'') (\<lambda>observed.
     rbind (list_or_empty c ''pv'' PvArray) (\<lambda>raw.
     rbind (rmap (\<lambda>v. feed_move (Some v) ''candidate.pv'') raw) (\<lambda>moves.
     (let pv = (if moves = [] then [observed] else moves) in
     rbind (ensure (hd pv = observed) PvHead) (\<lambda>_.
     rbind (feed_move root_move ''root_move'') (\<lambda>decision.
     rbind (rank_value c) (\<lambda>rank.
     rbind (list_or_empty c ''evaluations'' EvaluationArray) (\<lambda>eraw.
     rbind (rmap evaluation_from_payload eraw) (\<lambda>evaluations.
     rbind (list_or_empty e ''work'' WorkArray) (\<lambda>wraw.
     rbind (rmap work_from_payload wraw) (\<lambda>work.
     rbind (case nonempty_text e ''search_id'' of Inl err \<Rightarrow> Inl SearchMissing | Inr t \<Rightarrow> Inr t) (\<lambda>search.
     rbind (sequence_value e) (\<lambda>n.
     rbind (observed_float e) (\<lambda>x.
     rbind (check_hint \<lparr>ch_move = decision, ch_observed = observed, ch_owner = owner, ch_instance = inst, ch_family = fam,
       ch_phase = phase, ch_rank = rank, ch_pv = (if prefix_root then decision # pv else pv),
       ch_evaluations = evaluations, ch_work = work, ch_search = search, ch_run = run_id, ch_sequence = n,
       ch_time = x, ch_disposition = disp\<rparr>) (\<lambda>h. Inr (Some h))))))))))))))))))))"

text \<open>The latest update of each source search and observed move.\<close>

type_synonym hint_slot = "string \<times> string \<times> string \<times> string \<times> string"

definition slot_of :: "candidate_hint \<Rightarrow> hint_slot" where
  "slot_of h = (ch_phase h, ch_owner h, ch_search h, ch_move h, ch_observed h)"

definition later :: "candidate_hint \<Rightarrow> candidate_hint \<Rightarrow> bool" where
  "later h g \<longleftrightarrow> ch_sequence g < ch_sequence h \<or> (ch_sequence g = ch_sequence h \<and> f_less (ch_time g) (ch_time h))"

definition keep_latest :: "(hint_slot \<times> candidate_hint) list \<Rightarrow> candidate_hint \<Rightarrow> (hint_slot \<times> candidate_hint) list" where
  "keep_latest latest h = (case dict_get latest (slot_of h) of
     None \<Rightarrow> dict_set (slot_of h) h latest
   | Some g \<Rightarrow> if later h g then dict_set (slot_of h) h latest else latest)"

definition retain_latest :: "candidate_hint list \<Rightarrow> candidate_hint list" where
  "retain_latest hints = sort_key hint_key (map snd (foldl keep_latest [] hints))"

section \<open>The view\<close>

type_synonym store = "nat \<Rightarrow> writer"

text \<open>What the loops collect: the hints and the faults.\<close>

type_synonym harvest = "candidate_hint list \<times> string list"

definition stream_faults :: "writer \<Rightarrow> string \<Rightarrow> string \<Rightarrow> string list" where
  "stream_faults W phase label =
     (if evidence_lossy W then [phase @ '' stream lossy for '' @ label] else []) @
     (if wr_truncated W then [phase @ '' live view truncated for '' @ label] else [])"

definition payload_move :: "event \<Rightarrow> pyval option" where
  "payload_move e = (case dict_get e ''candidate'' of Some (PDict c) \<Rightarrow> dict_get c ''move'' | _ \<Rightarrow> None)"

definition verify_event :: "string list \<Rightarrow> verification_stage \<Rightarrow> string \<Rightarrow> string \<Rightarrow> candidate_hint list \<Rightarrow> event \<Rightarrow>
    feed_error + candidate_hint list" where
  "verify_event roots g owner run_id hints e =
     (if dict_get e ''event_type'' \<noteq> Some (PStr ''candidate.update'') then Inr hints
      else rbind (extract_hint e (payload_move e) owner (vg_instance g) (vg_family g) ''VERIFY'' (vg_disposition g) run_id False)
        (\<lambda>found. case found of
           None \<Rightarrow> Inr hints
         | Some h \<Rightarrow>
             rbind (ensure (ch_move h \<in> set roots) HintOutside) (\<lambda>_.
             rbind (ensure (ch_search h = vg_search g) HintSearch) (\<lambda>_. Inr (hints @ [h])))))"

definition verify_harvest :: "verification_run \<Rightarrow> store \<Rightarrow> string list \<Rightarrow> string \<Rightarrow> harvest \<Rightarrow> string \<Rightarrow> feed_error + harvest" where
  "verify_harvest R st roots run_id w owner = (case verify_stage_of R owner of
     None \<Rightarrow> Inr (fst w, snd w @ [''VERIFY stage missing for '' @ owner])
   | Some g \<Rightarrow>
       rbind (ensure (vg_family g = owner) FamilyMismatch) (\<lambda>_.
       rbind (ensure (dict_get (vp_participants (vn_plan R)) owner = Some (vg_instance g)) ParticipantMismatch) (\<lambda>_.
       (case verify_stream R (vg_instance g) of
          None \<Rightarrow> Inr (fst w, snd w @ [''VERIFY stream missing for '' @ owner])
        | Some handle \<Rightarrow>
            rbind (rfold (verify_event roots g owner run_id) (fst w) (wr_events (st handle))) (\<lambda>hints.
            Inr (hints, snd w @ stream_faults (st handle) ''VERIFY'' owner))))))"

definition refine_event :: "refinement_stage \<Rightarrow> string \<Rightarrow> string \<Rightarrow> string \<Rightarrow> candidate_hint list \<Rightarrow> event \<Rightarrow>
    feed_error + candidate_hint list" where
  "refine_event g root_move owner run_id hints e =
     rbind (extract_hint e (Some (PStr root_move)) owner (fg_instance g) (fg_family g) ''REFINE'' (fg_disposition g) run_id True)
       (\<lambda>found. case found of
          None \<Rightarrow> Inr hints
        | Some h \<Rightarrow> rbind (ensure (ch_search h = fg_search g) HintSearch) (\<lambda>_. Inr (hints @ [h])))"

definition refine_harvest :: "refinement_run \<Rightarrow> store \<Rightarrow> string \<Rightarrow> string \<Rightarrow> refine_scope \<Rightarrow> string \<Rightarrow> harvest \<Rightarrow> string \<Rightarrow>
    feed_error + harvest" where
  "refine_harvest F st run_id root_move c k w owner = (case dict_get (sc_stages c) owner of
     None \<Rightarrow> Inr w
   | Some g \<Rightarrow>
       rbind (ensure (fg_family g = owner) FamilyMismatch) (\<lambda>_.
       (case scope_stream Root F k (fg_instance g) of
          None \<Rightarrow> Inr (fst w, snd w @ [''REFINE stream missing for '' @ k @ ''/'' @ owner])
        | Some handle \<Rightarrow>
            rbind (rfold (refine_event g root_move owner run_id) (fst w) (wr_events (st handle))) (\<lambda>hints.
            Inr (hints, snd w @ stream_faults (st handle) ''REFINE'' (k @ ''/'' @ owner))))))"

text \<open>The targets of a run are root targets: \<open>register_target\<close> is the only operation that adds one.\<close>

definition scope_target :: "string \<Rightarrow> refine_scope \<Rightarrow> refinement_target" where
  "scope_target k c = (case sc_origin c of RootTarget t \<Rightarrow> t | Recursive seed moves owner nomination \<Rightarrow> \<lparr>ft_id = k, ft_root = [], ft_owner = owner\<rparr>)"

definition target_harvest :: "refinement_run \<Rightarrow> store \<Rightarrow> string list \<Rightarrow> string list \<Rightarrow> string \<Rightarrow> harvest \<Rightarrow> string \<times> refine_scope \<Rightarrow>
    feed_error + harvest" where
  "target_harvest F st owners roots run_id w kc = (let t = scope_target (fst kc) (snd kc) in
     rbind (text_move (ft_root t) ''refinement root'') (\<lambda>root_move.
     rbind (ensure (root_move \<in> set roots) TargetOutside) (\<lambda>_.
     rfold (refine_harvest F st run_id root_move (snd kc) (ft_id t)) w owners)))"

definition refinement_harvest :: "refinement_run \<Rightarrow> store \<Rightarrow> verification_plan \<Rightarrow> string list \<Rightarrow> string \<Rightarrow> harvest \<Rightarrow>
    feed_error + harvest" where
  "refinement_harvest F st p roots run_id w =
     rbind (ensure (fp_run (rn_plan F) = run_id) (RunMismatch ''REFINE source run'')) (\<lambda>_.
     rbind (ensure (fp_verification (rn_plan F) = vp_id p) (RunMismatch ''REFINE source verification'')) (\<lambda>_.
     rbind (case ordered_targets F of Inl e \<Rightarrow> Inl TargetUnknown | Inr ts \<Rightarrow> Inr ts) (\<lambda>targets.
     rfold (target_harvest F st (vp_owners p) roots run_id) w targets)))"

text \<open>The owner whose nominee a candidate is.\<close>

definition add_nominee :: "verification_plan \<Rightarrow> (string \<times> string) list \<Rightarrow> string \<Rightarrow> feed_error + (string \<times> string) list" where
  "add_nominee p d owner =
     rbind (feed_move (map_option PStr (dict_get (vp_nominees p) owner)) ''nominee'') (\<lambda>mv.
     rbind (ensure (mv \<notin> set (dict_keys d)) NomineesDistinct) (\<lambda>_. Inr (dict_set mv owner d)))"

definition view_candidate :: "(string \<times> string) list \<Rightarrow> candidate_hint list \<Rightarrow> string \<Rightarrow> feed_error + feed_candidate" where
  "view_candidate owners hints mv = check_feed_candidate
     \<lparr>fc_move = mv, fc_owner = the (dict_get owners mv), fc_hints = sort_key hint_key (filter (\<lambda>h. ch_move h = mv) hints)\<rparr>"

definition verification_complete :: "verification_run \<Rightarrow> string list \<Rightarrow> bool" where
  "verification_complete R faults \<longleftrightarrow> vn_disposition R = ''completed'' \<and>
     \<not> list_ex (prefix ''VERIFY'') faults \<and> length (verify_stages R) = 3 \<and>
     list_all (\<lambda>g. vg_disposition g = ''completed'') (verify_stages R)"

definition build_view :: "string \<Rightarrow> int \<Rightarrow> string \<Rightarrow> verification_run \<Rightarrow> refinement_run option \<Rightarrow> store \<Rightarrow>
    feed_error + feed_view" where
  "build_view run_id generation pos R F st = (let p = vn_plan R in
     rbind (ensure (vp_run p = run_id) (RunMismatch ''VERIFY source run'')) (\<lambda>_.
     rbind (ensure (vp_generation p = generation) (RunMismatch ''VERIFY generation'')) (\<lambda>_.
     rbind (ensure (vp_position p = pos) (RunMismatch ''VERIFY position'')) (\<lambda>_.
     rbind (ensure (vp_owners p = owner_order) OwnersMismatch) (\<lambda>_.
     rbind (rmap (\<lambda>t. text_move t ''verification candidate'') (vp_roots p)) (\<lambda>candidates.
     rbind (ensure (length candidates = 3 \<and> distinct candidates) CandidateSet) (\<lambda>_.
     rbind (rfold (add_nominee p) [] (vp_owners p)) (\<lambda>owners.
     rbind (ensure (set (dict_keys owners) = set candidates) CandidateSet) (\<lambda>_.
     rbind (rfold (verify_harvest R st (dict_keys owners) run_id) ([], []) (vp_owners p)) (\<lambda>w.
     rbind (case F of None \<Rightarrow> Inr w | Some f \<Rightarrow> refinement_harvest f st p (dict_keys owners) run_id w) (\<lambda>(hints, faults).
     rbind (rmap (view_candidate owners (retain_latest hints)) candidates) (\<lambda>shown.
     check_view \<lparr>fv_run = run_id, fv_generation = generation, fv_position = pos, fv_policy = feed_policy,
       fv_verification = vp_id p, fv_verification_disposition = vn_disposition R,
       fv_complete = verification_complete R faults,
       fv_refinement = map_option (\<lambda>f. fp_id (rn_plan f)) F,
       fv_refinement_disposition = (case F of None \<Rightarrow> ''absent'' | Some f \<Rightarrow> rn_disposition f),
       fv_candidates = shown, fv_faults = sorted_texts faults\<rparr>))))))))))))"

section \<open>Evidence for the decision\<close>

datatype evidence_error = Feed feed_error | Decide decision_error

definition build_decision_evidence :: "feed_view \<Rightarrow> terminal_evidence \<Rightarrow> decision_error + decision_evidence" where
  "build_decision_evidence v t =
     rbind (ensure (vt_id t = fv_verification v) TerminalIdentity) (\<lambda>_.
     rbind (ensure (map fc_move (fv_candidates v) = vt_roots t) CandidateOrder) (\<lambda>_.
     rbind (canonical_digest (view_dict v)) (\<lambda>digest.
     rbind (rmap (\<lambda>c. check_candidate \<lparr>dc_move = fc_move c, dc_owner = fc_owner c\<rparr>) (fv_candidates v)) (\<lambda>candidates.
     check_decision_evidence \<lparr>de_version = evidence_version, de_run = fv_run v, de_generation = fv_generation v,
       de_position = fv_position v, de_feed_policy = fv_policy v, de_feed_digest = digest,
       de_feed_complete = fv_complete v, de_candidates = candidates, de_terminal = t,
       de_faults = sorted_texts (fv_faults v @ vt_faults t)\<rparr>))))"

text \<open>From the runs of a move to the evidence of its decision.\<close>

definition evidence_of_runs :: "string \<Rightarrow> int \<Rightarrow> string \<Rightarrow> verification_run \<Rightarrow> refinement_run option \<Rightarrow> store \<Rightarrow>
    evidence_error + decision_evidence" where
  "evidence_of_runs run_id generation pos R F st =
     rbind (map_sum Feed id (build_view run_id generation pos R F st)) (\<lambda>v.
     rbind (map_sum Decide id (terminal_evidence_from_run R)) (\<lambda>t.
     map_sum Decide id (build_decision_evidence v t)))"

end
