(* ===== verification/UciLaws.thy ===== *)
theory UciLaws
  imports UciAdapter
begin

text \<open>
  Laws of the engine adapters: an adapter is a client of the telemetry stream only, it keeps every line
  verbatim, and it refuses no \<open>info\<close> line.
\<close>

section \<open>An adapter runs its stream\<close>

definition emits :: "adapter \<Rightarrow> pyval \<Rightarrow> adapter \<times> (adapter_error + event list) \<Rightarrow> bool" where
  "emits A observed call \<longleftrightarrow> (fst call = A \<and> (\<forall>es. snd call = Inr es \<longrightarrow> es = [])) \<or>
     (\<exists>t payload. call = one_event (on_stream A (stream_emit (ad_stream A) t observed payload)))"

lemma emits_raise [simp]: "emits A observed (A, Inl e)"
  by (simp add: emits_def)

lemma emits_one [simp]: "emits A observed (one_event (on_stream A (stream_emit (ad_stream A) t observed payload)))"
  unfolding emits_def by blast

lemma emits_raising: "(\<And>v. m = Inr v \<Longrightarrow> emits A observed (k v)) \<Longrightarrow> emits A observed (raising A m k)"
  by (cases m) auto

lemma one_event_raising: "one_event (raising A m k) = raising A m (\<lambda>v. one_event (k v))"
  by (cases m) (simp_all add: one_event_def)

lemma emits_native [simp]: "emits A observed (one_event (native_event A p observed))"
  by (simp add: native_event_def)

lemma emits_candidate [simp]: "emits A observed (one_event (candidate_event A p observed))"
  by (auto simp: candidate_event_def one_event_raising intro!: emits_raising split: option.split pyval.split list.split)

lemma base_consume_emits: "emits A observed (base_consume A line observed)"
  by (auto simp: base_consume_def complete_event_def emits_def [where call = "(A, Inr [])"] intro!: emits_raising)

lemma consume_emits: "emits A observed (consume loads A line observed)"
  by (auto simp: consume_def lc0_consume_def defect_event_def base_consume_emits intro!: emits_raising
      split: family.split option.split pyval.split)

datatype adapter_op = AStart pyval pyval pyval "pyval option" | AConsume string pyval

text \<open>The adapter together with the events it has returned so far.\<close>

definition logged :: "event list \<Rightarrow> adapter \<times> (adapter_error + event list) \<Rightarrow>
    (adapter \<times> event list) \<times> (adapter_error + event list)" where
  "logged es call = (case call of (A, Inl e) \<Rightarrow> ((A, es), Inl e) | (A, Inr l) \<Rightarrow> ((A, es @ l), Inr l))"

definition adapter_step :: "(string \<Rightarrow> pyval option) \<Rightarrow> adapter \<times> event list \<Rightarrow> adapter_op \<Rightarrow>
    (adapter \<times> event list) \<times> (adapter_error + event list)" where
  "adapter_step loads w x = logged (snd w) (case x of
       AStart pos request observed controller \<Rightarrow> one_event (adapter_start (fst w) pos request observed controller)
     | AConsume line observed \<Rightarrow> consume loads (fst w) line observed)"

definition view :: "adapter \<times> event list \<Rightarrow> telemetry_stream \<times> event list" where
  "view w = (ad_stream (fst w), snd w)"

lemma on_stream_view:
  assumes "one_event (on_stream A (stream_op (ad_stream A) y)) = (A', res)"
  shows "(ad_stream A', es @ (case res of Inl e \<Rightarrow> [] | Inr l \<Rightarrow> l)) = fst (telemetry_step (ad_stream A, es) y)"
  using assms by (auto simp: one_event_def on_stream_def telemetry_step_def split: prod.splits sum.splits)

lemma adapter_step_view: "\<exists>ys. view (fst (adapter_step loads w x)) = run telemetry_step (view w) ys"
proof -
  obtain A es where w: "w = (A, es)" by (cases w)
  have step: "\<exists>ys. view (fst (logged es call)) =
      run telemetry_step (view w) ys" if "call = one_event (on_stream A (stream_op (ad_stream A) y))" for call y
  proof -
    obtain A' res where call: "call = (A', res)" by (cases call)
    with that have eq: "one_event (on_stream A (stream_op (ad_stream A) y)) = (A', res)" by simp
    have "view (fst (logged es call)) =
        run telemetry_step (view w) [y]"
      unfolding call using on_stream_view [OF eq, of es] by (cases res) (simp_all add: view_def w logged_def)
    then show ?thesis ..
  qed
  show ?thesis
  proof (cases x)
    case (AStart pos request observed controller)
    then show ?thesis
      using step [of _ "TStart pos request observed controller"] by (simp add: adapter_step_def w adapter_start_def)
  next
    case (AConsume line observed)
    obtain A' res where call: "consume loads A line observed = (A', res)" by (cases "consume loads A line observed")
    from consume_emits [of A observed loads line] call consider
        (idle) "A' = A" "\<forall>l. res = Inr l \<longrightarrow> l = []"
      | (emit) t payload where "(A', res) = one_event (on_stream A (stream_emit (ad_stream A) t observed payload))"
      unfolding emits_def by auto
    then show ?thesis
    proof cases
      case idle
      then have "view (fst (adapter_step loads w x)) = run telemetry_step (view w) []"
        by (auto simp: AConsume adapter_step_def w call view_def logged_def split: sum.split)
      then show ?thesis ..
    next
      case emit
      then show ?thesis
        using step [of "(A', res)" "TEmit t observed payload"] by (simp add: AConsume adapter_step_def w call)
    qed
  qed
qed

lemma adapter_run_view: "\<exists>ys. view (run (adapter_step loads) w xs) = run telemetry_step (view w) ys"
proof (induction xs arbitrary: w)
  case Nil
  show ?case by (rule exI [of _ "[]"]) simp
next
  case (Cons x xs)
  obtain ys zs where "view (fst (adapter_step loads w x)) = run telemetry_step (view w) ys"
      "view (run (adapter_step loads) (fst (adapter_step loads w x)) xs) = run telemetry_step (view (fst (adapter_step loads w x))) zs"
    using adapter_step_view Cons by metis
  then have "view (run (adapter_step loads) w (x # xs)) = run telemetry_step (view w) (ys @ zs)"
    by (simp add: run_append)
  then show ?case ..
qed

text \<open>
  C29. An adapter is a client of its telemetry stream: whatever lines it is given, its events are
  those of a run of the stream, and hence a valid stream of the search.
\<close>

theorem adapter_refines_stream:
  assumes "new_adapter f search inst pos variant = Inr A0"
    and "run (adapter_step loads) (A0, []) xs = (A, es)"
  shows "(\<exists>ys. run telemetry_step (new_stream (tm_identity (ad_stream A0)), []) ys = (ad_stream A, es)) \<and>
    valid_stream \<lparr>si_engine = engine_name f, si_engine_instance = inst, si_search_id = search, si_position_id = pos,
      si_variant = variant\<rparr> es"
proof -
  let ?i = "\<lparr>si_engine = engine_name f, si_engine_instance = inst, si_search_id = search, si_position_id = pos,
      si_variant = variant\<rparr>"
  have new: "ad_stream A0 = new_stream ?i" "tm_identity (ad_stream A0) = ?i"
    using assms(1) by (auto simp: new_adapter_def rbind_eq_Inr new_stream_def)
  obtain ys where ys: "view (run (adapter_step loads) (A0, []) xs) = run telemetry_step (view (A0, [])) ys"
    using adapter_run_view by blast
  then have run: "run telemetry_step (new_stream ?i, []) ys = (ad_stream A, es)"
    using assms(2) new by (simp add: view_def)
  moreover have "stream_ok ?i (run telemetry_step (new_stream ?i, []) ys)"
    by (rule telemetry.run_inv) (rule new_stream_ok)
  ultimately show ?thesis
    using new(2) by (auto simp: stream_ok_def)
qed

section \<open>What a parsed line holds\<close>

definition shown_pv :: "parsed \<Rightarrow> bool" where
  "shown_pv p \<longleftrightarrow> (\<forall>v. dict_get p ''pv'' = Some v \<longrightarrow> (\<exists>ms. v = PList (map PStr ms) \<and> list_all uci_move ms))"

definition shown_score :: "parsed \<Rightarrow> bool" where
  "shown_score p \<longleftrightarrow> (\<forall>v. dict_get p ''score'' = Some v \<longrightarrow> (\<exists>k i b. v = score_entry k i b \<and> k \<in> {''cp'', ''mate''}))"

definition shown_ints :: "parsed \<Rightarrow> bool" where
  "shown_ints p \<longleftrightarrow> (\<forall>k v. k \<in> {''multipv'', ''nodes'', ''time''} \<longrightarrow> dict_get p k = Some v \<longrightarrow> (\<exists>i. v = PInt i))"

definition parsed_ok :: "string \<Rightarrow> parsed \<Rightarrow> bool" where
  "parsed_ok line p \<longleftrightarrow> dict_get p ''raw'' = Some (PStr line) \<and> shown_pv p \<and> shown_score p \<and> shown_ints p"

lemma parsed_ok_set:
  assumes "parsed_ok line p" "k \<noteq> ''raw''"
    and "k = ''pv'' \<Longrightarrow> \<exists>ms. v = PList (map PStr ms) \<and> list_all uci_move ms"
    and "k = ''score'' \<Longrightarrow> \<exists>j i b. v = score_entry j i b \<and> j \<in> {''cp'', ''mate''}"
    and "k \<in> {''multipv'', ''nodes'', ''time''} \<Longrightarrow> \<exists>i. v = PInt i"
  shows "parsed_ok line (dict_set k v p)"
  using assms by (auto simp: parsed_ok_def shown_pv_def shown_score_def shown_ints_def)

lemma pv_moves_ok: "list_all uci_move (map py_lower (takeWhile is_uci_move ts))"
  by (auto simp: list_all_iff is_uci_move_def dest: set_takeWhileD)

lemma parsed_ok_field: "parsed_ok line p \<Longrightarrow> t \<in> set int_fields \<Longrightarrow> parsed_ok line (dict_set t (PInt i) p)"
  by (rule parsed_ok_set) (auto simp: int_fields_def)

lemma parsed_ok_text: "parsed_ok line p \<Longrightarrow> t \<in> set string_fields \<Longrightarrow> parsed_ok line (dict_set t (PStr v) p)"
  by (rule parsed_ok_set) (auto simp: string_fields_def)

lemma parsed_ok_score:
  "parsed_ok line p \<Longrightarrow> k \<in> {''cp'', ''mate''} \<Longrightarrow> parsed_ok line (dict_set ''score'' (score_entry k i b) p)"
  by (rule parsed_ok_set) auto

lemma parsed_ok_pv:
  "parsed_ok line p \<Longrightarrow> parsed_ok line (dict_set ''pv'' (PList (map (PStr \<circ> py_lower) (takeWhile is_uci_move ts))) p)"
  by (rule parsed_ok_set) (use pv_moves_ok [of ts] in \<open>auto simp flip: map_map\<close>)

lemma parsed_ok_other:
  "parsed_ok line p \<Longrightarrow> parsed_ok line (dict_set ''wdl'' v p)" "parsed_ok line p \<Longrightarrow> parsed_ok line (dict_set ''comment'' v p)"
  "parsed_ok line p \<Longrightarrow> parsed_ok line (dict_set ''unknown_tokens'' v p)"
  by (rule parsed_ok_set; simp)+

lemma info_tokens_ok: "parsed_ok line p \<Longrightarrow> parsed_ok line (fst (info_tokens ts p u))"
proof (induction ts arbitrary: p u rule: length_induct)
  case (1 ts)
  note ok = 1(2)
  have IH: "parsed_ok line (fst (info_tokens ys q w))" if "length ys < length ts" "parsed_ok line q" for ys q w
    using 1 that by blast
  show ?case
  proof (cases ts)
    case (Cons t rest)
    note step = info_tokens.simps(2) [of t rest p u]
    consider "t \<in> set int_fields" | "t \<notin> set int_fields" "t \<in> set string_fields"
      | "t \<notin> set int_fields" "t \<notin> set string_fields" "t = ''score''"
      | "t \<notin> set int_fields" "t \<notin> set string_fields" "t \<noteq> ''score''" by blast
    then show ?thesis
    proof cases
      case 1
      then show ?thesis unfolding Cons step using ok Cons
        by (auto intro: IH parsed_ok_field simp del: info_tokens.simps split: list.split option.split)
    next
      case 2
      then show ?thesis unfolding Cons step using ok Cons
        by (auto intro: IH parsed_ok_text simp del: info_tokens.simps split: list.split)
    next
      case 3
      have shorter: "length (snd (bound_of xs)) < length ts" if "length xs < length ts" for xs
        using le_less_trans [OF bound_of_length that] .
      from 3 show ?thesis unfolding Cons step using ok Cons shorter
        by (auto intro!: IH parsed_ok_score simp del: info_tokens.simps split: list.split option.split)
    next
      case 4
      have shorter: "length (dropWhile is_uci_move rest) < length ts"
        using length_dropWhile_le [of is_uci_move rest] by (simp add: Cons less_Suc_eq_le)
      consider "t = ''wdl''" | "t = ''pv''" | "t \<noteq> ''wdl''" "t \<noteq> ''pv''" by blast
      then show ?thesis
      proof cases
        case 1
        with 4 show ?thesis unfolding Cons step using ok Cons
          by (auto intro!: IH parsed_ok_other simp del: info_tokens.simps split: list.split option.split)
      next
        case 2
        with 4 show ?thesis unfolding Cons step using IH [OF shorter parsed_ok_pv [OF ok]] by simp
      next
        case 3
        with 4 show ?thesis unfolding Cons step using ok Cons
          by (auto intro: IH parsed_ok_other simp del: info_tokens.simps)
      qed
    qed
  qed (use ok in simp)
qed

lemma parse_info_line_ok:
  assumes "parse_info_line line = Inr p"
  shows "parsed_ok line p"
proof -
  have raw: "parsed_ok line [(''raw'', PStr line)]"
    by (simp add: parsed_ok_def shown_pv_def shown_score_def shown_ints_def)
  obtain q u where loop: "info_tokens (drop 1 (py_split line)) [(''raw'', PStr line)] [] = (q, u)"
    by fastforce
  have "parsed_ok line q" using info_tokens_ok [OF raw] loop by (metis fst_conv)
  with raw assms loop show ?thesis
    by (auto simp: parse_info_line_def simp del: drop_Suc info_tokens.simps intro: parsed_ok_other split: if_splits)
qed

section \<open>Every line is kept\<close>

definition raw_of :: "event \<Rightarrow> string option" where
  "raw_of e = (case dict_get e ''native'' of
     Some (PDict n) \<Rightarrow> (case dict_get n ''data'' of
         Some (PDict d) \<Rightarrow> (case dict_get d ''raw'' of Some (PStr r) \<Rightarrow> Some r | _ \<Rightarrow> None)
       | _ \<Rightarrow> None)
   | _ \<Rightarrow> None)"

lemma dict_update_get:
  "dict_ok e \<Longrightarrow> dict_get (dict_update d e) k = (case dict_get e k of None \<Rightarrow> dict_get d k | Some v \<Rightarrow> Some v)"
proof (induction e arbitrary: d)
  case (Cons kv e)
  obtain a b where kv: "kv = (a, b)" by (cases kv)
  have "dict_get e a = None" using Cons.prems by (simp add: kv dict_get_None)
  moreover have "dict_get (dict_update (dict_set a b d) e) k =
      (case dict_get e k of None \<Rightarrow> dict_get (dict_set a b d) k | Some v \<Rightarrow> Some v)"
    using Cons.IH Cons.prems by simp
  ultimately show ?case
    by (cases "dict_get e k") (auto simp: kv dict_update_def simp del: map_of_eq_Some_iff)
qed (simp add: dict_update_def)

text \<open>A stream that runs accepts what the adapter emits at a valid time.\<close>

definition open_at :: "adapter \<Rightarrow> pyval \<Rightarrow> bool" where
  "open_at A observed \<longleftrightarrow> tm_started (ad_stream A) \<and> \<not> tm_completed (ad_stream A) \<and>
     (\<exists>x. validate_observed (ad_stream A) observed = Inr x)"

lemma emit_returns:
  assumes "open_at A observed" "t \<noteq> ''search.started''" "dict_ok payload"
    "set common_event_keys \<inter> set (dict_keys payload) = {}"
  shows "\<exists>A' e. one_event (on_stream A (stream_emit (ad_stream A) t observed payload)) = (A', Inr [e]) \<and>
    event_type_of e = t \<and> ad_family A' = ad_family A \<and> tm_identity (ad_stream A') = tm_identity (ad_stream A) \<and>
    (\<forall>k v. dict_get payload k = Some v \<longrightarrow> dict_get e k = Some v) \<and>
    (\<forall>k. k \<notin> set common_event_keys \<longrightarrow> dict_get payload k = None \<longrightarrow> dict_get e k = None) \<and>
    dict_get e ''search_id'' = Some (PStr (si_search_id (tm_identity (ad_stream A)))) \<and>
    dict_get e ''engine'' = Some (PStr (si_engine (tm_identity (ad_stream A)))) \<and>
    dict_get e ''engine_instance'' = Some (PStr (si_engine_instance (tm_identity (ad_stream A)))) \<and>
    dict_get e ''sequence'' = Some (PInt (tm_sequence (ad_stream A) + 1)) \<and> dict_get e ''observed_ms'' = Some observed"
proof -
  obtain x where x: "validate_observed (ad_stream A) observed = Inr x" using assms(1) by (auto simp: open_at_def)
  define s1 where "s1 = ad_stream A\<lparr>tm_sequence := tm_sequence (ad_stream A) + 1, tm_last_observed := x\<rparr>"
  obtain event where event: "common_event (ad_stream A) t observed = Inr (s1, event)" "dict_keys event = common_event_keys"
      "dict_get event ''event_type'' = Some (PStr t)"
      "dict_get event ''search_id'' = Some (PStr (si_search_id (tm_identity (ad_stream A))))"
      "dict_get event ''engine'' = Some (PStr (si_engine (tm_identity (ad_stream A))))"
      "dict_get event ''engine_instance'' = Some (PStr (si_engine_instance (tm_identity (ad_stream A))))"
      "dict_get event ''sequence'' = Some (PInt (tm_sequence (ad_stream A) + 1))" "dict_get event ''observed_ms'' = Some observed"
    using x by (simp add: common_event_def Let_def common_event_keys_def s1_def)
  have common: "dict_get (dict_update event payload) k = dict_get event k" if "k \<in> set common_event_keys" for k
    using assms(4) that by (intro dict_update_other) blast
  have own: "dict_get (dict_update event payload) k = dict_get payload k" if "k \<notin> set common_event_keys" for k
  proof -
    have "dict_get event k = None" unfolding dict_get_None using event(2) that by (metis set_map)
    then show ?thesis using dict_update_get [OF assms(3), of event k] by (cases "dict_get payload k") simp_all
  qed
  have "dict_get (dict_update event payload) k = Some v" if "dict_get payload k = Some v" for k v
    using dict_update_get [OF assms(3), of event k] that by simp
  moreover have "one_event (on_stream A (stream_emit (ad_stream A) t observed payload)) =
      (A\<lparr>ad_stream := if t = ''search.complete'' then s1\<lparr>tm_completed := True\<rparr> else s1\<rparr>, Inr [dict_update event payload])"
    using assms(1,2,4) event(1) by (simp add: open_at_def stream_emit_def one_event_def on_stream_def)
  moreover have "event_type_of (dict_update event payload) = t"
    using event(3) common by (simp add: event_type_of_def common_event_keys_def)
  ultimately show ?thesis
    using event common own by (auto simp: common_event_keys_def s1_def)
qed

lemma native_data_raw: "parsed_ok line p \<Longrightarrow> \<exists>d. native_data p = PDict d \<and> dict_get d ''raw'' = Some (PStr line)"
proof -
  have "dict_get (filter (\<lambda>(k, v). P k) d) k = (if P k then dict_get d k else None)" for P and d :: parsed and k
    by (induction d) auto
  then show "parsed_ok line p \<Longrightarrow> ?thesis"
    by (simp add: native_data_def promoted_def parsed_ok_def)
qed

lemma native_keeps:
  assumes "open_at A observed" "parsed_ok line p"
  shows "\<exists>A' e. one_event (native_event A p observed) = (A', Inr [e]) \<and> raw_of e = Some line"
  using emit_returns [OF assms(1), of "''native.event''" "[info_native (ad_family A) p]"] native_data_raw [OF assms(2)]
  by (fastforce simp: native_event_def info_native_def native_entry_def common_event_keys_def raw_of_def)

lemma score_known: "k \<in> {''cp'', ''mate''} \<Longrightarrow> \<exists>r. score_semantics f k = Inr r"
  by (cases f) auto

lemma score_evaluation_total: "parsed_ok line p \<Longrightarrow> \<exists>xs. score_evaluation f p = Inr xs"
  using score_known [of _ f]
  by (fastforce simp: parsed_ok_def shown_score_def score_evaluation_def score_entry_def split: option.split)

lemma candidate_keeps:
  assumes "open_at A observed" "parsed_ok line p"
  shows "\<exists>A' e. one_event (candidate_event A p observed) = (A', Inr [e]) \<and> raw_of e = Some line"
proof (cases "\<exists>mv pv rank. dict_get p ''pv'' = Some (PList (mv # pv)) \<and> rank_of (ad_family A) p = Some rank \<and> 1 \<le> rank")
  case True
  then obtain mv pv rank where found: "dict_get p ''pv'' = Some (PList (mv # pv))" "rank_of (ad_family A) p = Some rank" "1 \<le> rank"
    by blast
  obtain xs where scores: "score_evaluation (ad_family A) p = Inr xs" using score_evaluation_total [OF assms(2)] by blast
  let ?payload = "candidate_payload (ad_family A) p rank mv pv (xs @ wdl_evaluation (ad_family A) p)"
  have "dict_ok ?payload" "set common_event_keys \<inter> set (dict_keys ?payload) = {}"
    by (auto simp: candidate_payload_def info_native_def native_entry_def work_entry_def time_entry_def common_event_keys_def
        split: option.splits)
  from emit_returns [OF assms(1) _ this, of "''candidate.update''"] native_data_raw [OF assms(2)] found scores show ?thesis
    by (fastforce simp: candidate_event_def candidate_payload_def info_native_def native_entry_def raw_of_def)
next
  case False
  then have "candidate_event A p observed = native_event A p observed"
    by (auto simp: candidate_event_def split: option.split pyval.split list.split)
  with native_keeps [OF assms] show ?thesis by simp
qed

lemma add_unknown_get: "k \<noteq> ''unknown_tokens'' \<Longrightarrow> dict_get (add_unknown t extra) k = dict_get extra k"
  by (auto simp: add_unknown_def split: option.split pyval.split)

lemma bestmove_tokens_keep:
  "bestmove_tokens ts p extra = Inr (q, extra') \<Longrightarrow> dict_get extra ''raw'' = None \<Longrightarrow>
   dict_get q ''raw'' = dict_get p ''raw'' \<and> dict_get q ''extra'' = dict_get p ''extra'' \<and> dict_get extra' ''raw'' = None"
proof (induction ts p extra rule: bestmove_tokens.induct)
  case (1 t v rest p extra)
  consider "t = ''ponder''" | "t \<noteq> ''ponder''" "t \<in> set [''player'', ''gameid'']"
    | "t \<noteq> ''ponder''" "t \<notin> set [''player'', ''gameid'']" "t = ''side''"
    | "t \<noteq> ''ponder''" "t \<notin> set [''player'', ''gameid'']" "t \<noteq> ''side''" by blast
  then show ?case
  proof cases
    case 1
    then obtain mv where "bestmove_tokens rest (dict_set ''ponder'' (opt_move mv) p) extra = Inr (q, extra')"
      using "1.prems"(1) by (auto simp: rbind_eq_Inr)
    from "1.IH"(1) [OF 1 this "1.prems"(2)] show ?thesis by simp
  next
    case 2
    then have "bestmove_tokens rest p (dict_set t (case py_int v of None \<Rightarrow> PStr v | Some i \<Rightarrow> PInt i) extra) = Inr (q, extra')"
      using "1.prems"(1) by auto
    from "1.IH"(2) [OF 2 this] 2 "1.prems"(2) show ?thesis by auto
  next
    case 3
    then have "bestmove_tokens rest p (dict_set t (PStr v) extra) = Inr (q, extra')"
      using "1.prems"(1) by auto
    from "1.IH"(3) [OF 3 this] 3 "1.prems"(2) show ?thesis by auto
  next
    case 4
    then have "bestmove_tokens (v # rest) p (add_unknown t extra) = Inr (q, extra')"
      using "1.prems"(1) by (auto simp del: bestmove_tokens.simps(2))
    from "1.IH"(4) [OF 4 this] "1.prems"(2) show ?thesis by (simp add: add_unknown_get)
  qed
qed (auto simp: add_unknown_get)

lemma parse_bestmove_keeps:
  assumes "parse_bestmove_line line = Inr p"
  shows "dict_get p ''raw'' = Some (PStr line) \<and>
    (\<forall>extra. dict_get p ''extra'' = Some (PDict extra) \<longrightarrow> dict_get extra ''raw'' = None)"
proof -
  obtain ts q mv extra where parts: "bestmove_tokens ts [(''raw'', PStr line), (''bestmove'', mv)] [] = Inr (q, extra)"
      "p = (if extra = [] then q else dict_set ''extra'' (PDict extra) q)"
    using assms by (auto simp: parse_bestmove_line_def rbind_eq_Inr split: if_splits list.splits)
  from bestmove_tokens_keep [OF parts(1)] parts(2) show ?thesis by (auto split: if_splits)
qed

lemma complete_keeps:
  assumes "open_at A observed" "parse_bestmove_line line = Inr p"
  shows "\<exists>A' e. one_event (complete_event A p observed) = (A', Inr [e]) \<and> raw_of e = Some line"
proof -
  define xs where "xs = (case dict_get p ''extra'' of Some (PDict extra) \<Rightarrow> extra | _ \<Rightarrow> [])"
  define data where "data = dict_update [(''raw'', the (dict_get p ''raw''))] xs"
  have "dict_get xs ''raw'' = None"
    using parse_bestmove_keeps [OF assms(2)]
    by (auto simp: xs_def simp del: map_of_eq_None_iff split: option.split pyval.split)
  then have raw: "dict_get data ''raw'' = Some (PStr line)"
    using parse_bestmove_keeps [OF assms(2)] unfolding data_def by (subst dict_update_other) (simp_all add: dict_get_None)
  define payload where "payload = [(''bestmove'', the (dict_get p ''bestmove'')),
         native_entry (engine_name (ad_family A) @ ''.uci.bestmove.v1'') (PDict data)] @
        (case dict_get p ''ponder'' of None \<Rightarrow> [] | Some v \<Rightarrow> [(''ponder'', v)])"
  have "dict_ok payload" "set common_event_keys \<inter> set (dict_keys payload) = {}"
    by (auto simp: payload_def native_entry_def common_event_keys_def split: option.splits)
  from emit_returns [OF assms(1) _ this, of "''search.complete''"] obtain A' e where
      "one_event (on_stream A (stream_emit (ad_stream A) ''search.complete'' observed payload)) = (A', Inr [e])"
      "\<forall>k v. dict_get payload k = Some v \<longrightarrow> dict_get e k = Some v" by auto
  moreover from this(2) raw have "raw_of e = Some line"
    by (simp add: payload_def native_entry_def raw_of_def)
  ultimately show ?thesis by (simp add: complete_event_def payload_def data_def xs_def)
qed

text \<open>
  The lines that an adapter refuses, by their grammar: a word that only begins with \<open>info\<close>, and a
  \<open>bestmove\<close> line whose move, or whose ponder move, is missing or no move at all.  Nothing else is refused;
  an unknown token is skipped, and \<open>player\<close>, \<open>gameid\<close> and \<open>side\<close> take any value.
\<close>

definition move_or_null :: "string \<Rightarrow> bool" where
  "move_or_null t \<longleftrightarrow> py_lower t \<in> set null_moves \<or> is_uci_move (py_lower t)"

fun ponder_ok :: "string list \<Rightarrow> bool" where
  "ponder_ok (t # v # rest) =
     (if t = ''ponder'' then move_or_null v \<and> ponder_ok rest
      else if t \<in> set [''player'', ''gameid'', ''side''] then ponder_ok rest
      else ponder_ok (v # rest))"
| "ponder_ok ts = True"

definition refused :: "string \<Rightarrow> bool" where
  "refused line \<longleftrightarrow> (prefix ''info'' line \<and> line \<noteq> ''info'' \<and> \<not> prefix ''info '' line) \<or>
     (prefix ''bestmove '' line \<and> (case drop 1 (py_split line) of
        [] \<Rightarrow> True | t # rest \<Rightarrow> \<not> (move_or_null t \<and> ponder_ok rest)))"

lemma normalize_fails: "(\<exists>e. normalize_nullable_move t = Inl e) \<longleftrightarrow> \<not> move_or_null t"
  by (auto simp: normalize_nullable_move_def move_or_null_def Let_def)

lemma bestmove_tokens_fails: "(\<exists>e. bestmove_tokens ts p extra = Inl e) \<longleftrightarrow> \<not> ponder_ok ts"
proof (induction ts p extra rule: bestmove_tokens.induct)
  case (1 t v rest p extra)
  consider "t = ''ponder''" | "t \<noteq> ''ponder''" "t \<in> set [''player'', ''gameid'']"
    | "t \<noteq> ''ponder''" "t \<notin> set [''player'', ''gameid'']" "t = ''side''"
    | "t \<noteq> ''ponder''" "t \<notin> set [''player'', ''gameid'']" "t \<noteq> ''side''" by blast
  then show ?case
  proof cases
    case 1
    show ?thesis
    proof (cases "normalize_nullable_move v")
      case (Inl e)
      with 1 normalize_fails [of v] show ?thesis by auto
    next
      case (Inr mv)
      with 1 "1.IH"(1) [OF 1, of mv] normalize_fails [of v] show ?thesis by auto
    qed
  next
    case 2
    with "1.IH"(2) [OF 2] show ?thesis by auto
  next
    case 3
    with "1.IH"(3) [OF 3] show ?thesis by auto
  next
    case 4
    with "1.IH"(4) [OF 4] show ?thesis by (auto simp del: bestmove_tokens.simps(2))
  qed
qed auto

lemma parse_bestmove_fails:
  assumes "prefix ''bestmove '' line"
  shows "(\<exists>e. parse_bestmove_line line = Inl e) \<longleftrightarrow> refused line"
proof -
  have no_info: "\<not> prefix ''info'' line" using assms by (auto simp: prefix_def)
  show ?thesis
  proof (cases "drop 1 (py_split line)")
    case Nil
    with assms no_info show ?thesis
      by (cases "py_split line") (auto simp: parse_bestmove_line_def refused_def)
  next
    case (Cons t rest)
    then obtain u where toks: "py_split line = u # t # rest" by (cases "py_split line") auto
    show ?thesis
    proof (cases "normalize_nullable_move t")
      case (Inl e)
      with normalize_fails [of t] toks assms no_info show ?thesis
        by (auto simp: parse_bestmove_line_def refused_def)
    next
      case (Inr mv)
      with normalize_fails [of t] have "move_or_null t" by auto
      with Inr toks assms no_info bestmove_tokens_fails [of rest "[(''raw'', PStr line), (''bestmove'', opt_move mv)]" "[]"]
      show ?thesis
        by (cases "bestmove_tokens rest [(''raw'', PStr line), (''bestmove'', opt_move mv)] []")
          (auto simp: parse_bestmove_line_def refused_def)
    qed
  qed
qed

lemma base_lines_kept:
  assumes "open_at A observed" "line \<noteq> []"
  shows "((\<exists>A' e. base_consume A line observed = (A', Inr [e]) \<and> raw_of e = Some line) \<longleftrightarrow> \<not> refused line) \<and>
    (refused line \<longleftrightarrow> (\<exists>e. base_consume A line observed = (A, Inl e)))"
proof -
  have running: "tm_started (ad_stream A)" "\<not> tm_completed (ad_stream A)" using assms(1) by (auto simp: open_at_def)
  consider (info) "prefix ''info'' line" | (bestmove) "\<not> prefix ''info'' line" "prefix ''bestmove '' line"
    | (other) "\<not> prefix ''info'' line" "\<not> prefix ''bestmove '' line" by blast
  then show ?thesis
  proof cases
    case info
    then have no_best: "\<not> prefix ''bestmove '' line" by (auto simp: prefix_def)
    show ?thesis
    proof (cases "parse_info_line line")
      case (Inl e)
      then have "line \<noteq> ''info''" "\<not> prefix ''info '' line"
        by (auto simp: parse_info_line_def simp del: info_tokens.simps split: if_splits prod.splits)
      then have "refused line" using info by (simp add: refused_def)
      moreover have "base_consume A line observed = (A, Inl e)"
        using Inl info running assms(2) by (simp add: base_consume_def)
      ultimately show ?thesis by simp
    next
      case (Inr p)
      then have "\<not> refused line" using no_best by (auto simp: refused_def parse_info_line_def split: if_splits)
      moreover have "base_consume A line observed = one_event
          (if (case dict_get p ''pv'' of Some v \<Rightarrow> truthy v | None \<Rightarrow> False) then candidate_event A p observed
           else native_event A p observed)"
        using Inr info running assms(2) by (simp add: base_consume_def)
      moreover obtain A1 e1 A2 e2 where "one_event (candidate_event A p observed) = (A1, Inr [e1])" "raw_of e1 = Some line"
          "one_event (native_event A p observed) = (A2, Inr [e2])" "raw_of e2 = Some line"
        using native_keeps [OF assms(1) parse_info_line_ok [OF Inr]] candidate_keeps [OF assms(1) parse_info_line_ok [OF Inr]] by blast
      ultimately show ?thesis by simp
    qed
  next
    case bestmove
    show ?thesis
    proof (cases "parse_bestmove_line line")
      case (Inl e)
      then have "refused line" using parse_bestmove_fails [OF bestmove(2)] by blast
      with Inl bestmove running assms(2) show ?thesis by (simp add: base_consume_def)
    next
      case (Inr p)
      then have "\<not> refused line" using parse_bestmove_fails [OF bestmove(2)] by auto
      with Inr bestmove running assms(2) complete_keeps [OF assms(1) Inr] show ?thesis
        by (fastforce simp: base_consume_def)
    qed
  next
    case other
    then have "\<not> refused line" by (simp add: refused_def)
    then show ?thesis
      using other running assms(2) emit_returns [OF assms(1), of "''native.event''"
          "[native_entry (engine_name (ad_family A) @ ''.uci.raw.v1'') (PDict [(''raw'', PStr line)])]"]
      by (fastforce simp: base_consume_def raw_of_def native_entry_def common_event_keys_def)
  qed
qed

text \<open>
  The reports that only LC0 writes, in the comment of an \<open>info\<close> line: the schema under which
  the report is kept, and the JSON text behind the marker.
\<close>

definition defect_report :: "adapter \<Rightarrow> string \<Rightarrow> (string \<times> string) option" where
  "defect_report A line = (case (ad_family A, parse_info_line line) of
     (Lc0 score_type, Inr p) \<Rightarrow>
       if prefix ''info '' line
       then (case dict_get p ''comment'' of
           Some (PStr comment) \<Rightarrow>
             if prefix ''DEFECT_TELEMETRY_ITER '' comment
             then Some (''lc0.defect.iter.v1'', py_strip (drop 22 comment))
             else if prefix ''DEFECT_TELEMETRY_SUMMARY '' comment
             then Some (''lc0.defect.summary.v1'', py_strip (drop 25 comment)) else None
         | _ \<Rightarrow> None)
       else None
   | _ \<Rightarrow> None)"

definition defect_accepted :: "(string \<Rightarrow> pyval option) \<Rightarrow> string \<Rightarrow> (string \<times> pyval) list option" where
  "defect_accepted loads text = (case loads text of
     Some (PDict d) \<Rightarrow> if text \<noteq> [] \<and> finite_native (PDict d) \<and> dict_get d ''v'' = Some (PInt 1) then Some d else None
   | _ \<Rightarrow> None)"

lemma defect_payload_eq:
  "case defect_accepted loads (py_strip (drop (length start) comment)) of
     None \<Rightarrow> \<exists>e. defect_payload loads comment start = Inl e
   | Some d \<Rightarrow> defect_payload loads comment start = Inr (PDict d)"
  by (auto simp: defect_accepted_def defect_payload_def Let_def simp del: finite_native.simps
      split: option.split pyval.split)

lemma defect_event_keeps:
  assumes "open_at A observed"
  shows "case defect_accepted loads (py_strip (drop (length start) comment)) of
     None \<Rightarrow> \<exists>e. defect_event A loads comment start schema observed = (A, Inl e)
   | Some d \<Rightarrow> \<exists>A' e. defect_event A loads comment start schema observed = (A', Inr [e]) \<and>
       dict_get e ''native'' = Some (PDict [(''schema'', PStr schema), (''data'', PDict d)])"
proof (cases "defect_accepted loads (py_strip (drop (length start) comment))")
  case None
  with defect_payload_eq [where loads = loads and start = start and comment = comment] show ?thesis by (auto simp: defect_event_def)
next
  case (Some d)
  have "dict_ok [native_entry schema (PDict d)]" "set common_event_keys \<inter> set (dict_keys [native_entry schema (PDict d)]) = {}"
    by (simp_all add: native_entry_def common_event_keys_def)
  from emit_returns [OF assms _ this, of "''native.event''"] obtain A' e where
      "one_event (on_stream A (stream_emit (ad_stream A) ''native.event'' observed [native_entry schema (PDict d)])) = (A', Inr [e])"
      "\<forall>k v. dict_get [native_entry schema (PDict d)] k = Some v \<longrightarrow> dict_get e k = Some v" by auto
  with defect_payload_eq [where loads = loads and start = start and comment = comment] Some show ?thesis
    by (simp add: defect_event_def native_entry_def)
qed

lemma consume_plain:
  assumes "defect_report A line = None"
  shows "consume loads A line observed = base_consume A line observed"
proof (cases "\<exists>score_type. ad_family A = Lc0 score_type \<and> prefix ''info '' line")
  case True
  then obtain score_type p where "ad_family A = Lc0 score_type" "parse_info_line line = Inr p"
    by (fastforce simp: parse_info_line_def split: prod.splits)
  with assms True show ?thesis
    by (auto simp: consume_def lc0_consume_def defect_report_def split: option.splits pyval.splits if_splits)
next
  case False
  then show ?thesis by (auto simp: consume_def lc0_consume_def split: family.split)
qed

lemma consume_report:
  assumes "defect_report A line = Some (schema, text)"
  shows "\<exists>comment start. text = py_strip (drop (length start) comment) \<and>
    consume loads A line observed = defect_event A loads comment start schema observed"
proof -
  obtain score_type p where base: "ad_family A = Lc0 score_type" "parse_info_line line = Inr p" "prefix ''info '' line"
    using assms by (auto simp: defect_report_def split: family.splits sum.splits if_splits)
  with assms obtain comment where c: "dict_get p ''comment'' = Some (PStr comment)"
    by (auto simp: defect_report_def split: option.splits pyval.splits)
  have len: "length ''DEFECT_TELEMETRY_ITER '' = 22" "length ''DEFECT_TELEMETRY_SUMMARY '' = 25" by simp_all
  show ?thesis
  proof (cases "prefix ''DEFECT_TELEMETRY_ITER '' comment")
    case True
    with assms base c have "text = py_strip (drop (length ''DEFECT_TELEMETRY_ITER '') comment)"
      "consume loads A line observed = defect_event A loads comment ''DEFECT_TELEMETRY_ITER '' schema observed"
      unfolding len by (simp_all add: defect_report_def consume_def lc0_consume_def)
    then show ?thesis by blast
  next
    case False
    with assms base c have "text = py_strip (drop (length ''DEFECT_TELEMETRY_SUMMARY '') comment)"
      "consume loads A line observed = defect_event A loads comment ''DEFECT_TELEMETRY_SUMMARY '' schema observed"
      unfolding len by (simp_all add: defect_report_def consume_def lc0_consume_def split: if_splits)
    then show ?thesis by blast
  qed
qed

text \<open>
  C30. No engine output is lost: on an open stream the adapter of every engine turns a line into one
  event that carries the line verbatim, whatever unknown tokens stand in it, and raises exactly on a word that only begins with
  \<open>info\<close> and on a \<open>bestmove\<close> line whose move or ponder move is missing or no move, which leave the adapter
  as it was.  The defect reports of LC0 are the one exception: they become an event with the decoded object in place of the line,
  and raise when it is not a finite JSON object of version 1.
\<close>

theorem engine_lines_kept:
  assumes "open_at A observed" "line \<noteq> []"
  shows "case defect_report A line of
     None \<Rightarrow> if refused line then \<exists>e. consume loads A line observed = (A, Inl e)
       else \<exists>A' e. consume loads A line observed = (A', Inr [e]) \<and> raw_of e = Some line
   | Some (schema, text) \<Rightarrow> (case defect_accepted loads text of
       None \<Rightarrow> \<exists>e. consume loads A line observed = (A, Inl e)
     | Some d \<Rightarrow> \<exists>A' e. consume loads A line observed = (A', Inr [e]) \<and>
         dict_get e ''native'' = Some (PDict [(''schema'', PStr schema), (''data'', PDict d)]))"
proof (cases "defect_report A line")
  case None
  with base_lines_kept [OF assms] show ?thesis by (auto simp: consume_plain)
next
  case (Some st)
  obtain schema body where st: "st = (schema, body)" by (cases st)
  with Some consume_report [of A line schema body loads observed] obtain comment start where
    "body = py_strip (drop (length start) comment)"
    "consume loads A line observed = defect_event A loads comment start schema observed" by blast
  with defect_event_keeps [OF assms(1), where loads = loads and start = start and comment = comment and schema = schema] Some st show ?thesis
    by (cases "defect_accepted loads body") auto
qed

section \<open>Concrete runs\<close>

definition sample_adapter :: adapter where
  "sample_adapter = \<lparr>ad_family = Stockfish, ad_stream = new_stream \<lparr>si_engine = ''stockfish'', si_engine_instance = ''sf-0'',
     si_search_id = ''s1'', si_position_id = ''p1'', si_variant = ''standard''\<rparr>\<rparr>"

lemma sample_adapter_new: "new_adapter Stockfish ''s1'' ''sf-0'' ''p1'' ''standard'' = Inr sample_adapter"
  by (simp add: new_adapter_def sample_adapter_def)

definition sample_lines :: "adapter_op list" where
  "sample_lines = [AStart PNone PNone (PInt 0) None, AConsume ''readyok'' (PInt 1), AConsume ''bestmove e2e4'' (PInt 2)]"

lemmas adapter_eval = adapter_step_def logged_def adapter_start_def on_stream_def one_event_def stream_start_def
  stream_emit_def move_encoding_def common_event_def validate_observed_def new_stream_def consume_def base_consume_def
  complete_event_def native_entry_def dict_update_def common_event_keys_def float_eval Let_def

lemma sample_bestmove:
  "parse_bestmove_line ''bestmove e2e4'' = Inr [(''raw'', PStr ''bestmove e2e4''), (''bestmove'', PStr ''e2e4'')]"
  by code_simp

theorem adapter_refines_stream_witness:
  "\<exists>A es. run (adapter_step (\<lambda>_. None)) (sample_adapter, []) sample_lines = (A, es) \<and> length es = 3 \<and>
     valid_stream \<lparr>si_engine = ''stockfish'', si_engine_instance = ''sf-0'', si_search_id = ''s1'', si_position_id = ''p1'',
       si_variant = ''standard''\<rparr> es"
proof -
  obtain A es where run: "run (adapter_step (\<lambda>_. None)) (sample_adapter, []) sample_lines = (A, es)"
    by fastforce
  have "length (snd (run (adapter_step (\<lambda>_. None)) (sample_adapter, []) sample_lines)) = 3"
    by (simp add: sample_lines_def adapter_eval sample_adapter_def sample_bestmove)
  then have "length es = 3" by (simp add: run)
  with run adapter_refines_stream [OF sample_adapter_new run] show ?thesis by auto
qed

definition sample_open :: adapter where
  "sample_open = fst (adapter_start sample_adapter PNone PNone (PInt 0) None)"

definition sample_lc0 :: adapter where
  "sample_lc0 = fst (adapter_start \<lparr>ad_family = Lc0 ''centipawn'', ad_stream = ad_stream sample_adapter\<rparr>
     PNone PNone (PInt 0) None)"

theorem engine_lines_kept_witness:
  "(\<exists>A' e. consume (\<lambda>_. None) sample_open ''info depth 5 score cp 20 pv e2e4'' (PInt 3) = (A', Inr [e]) \<and>
     raw_of e = Some ''info depth 5 score cp 20 pv e2e4'') \<and>
   (\<exists>e. consume (\<lambda>_. None) sample_lc0 ''info string DEFECT_TELEMETRY_ITER x'' (PInt 3) = (sample_lc0, Inl e))"
proof
  let ?line = "''info depth 5 score cp 20 pv e2e4''"
  have "open_at sample_open (PInt 3)" "defect_report sample_open ?line = None"
    by (simp_all add: open_at_def sample_open_def sample_adapter_def adapter_eval defect_report_def)
  moreover have "\<not> refused ?line" by (simp add: refused_def prefix_def)
  ultimately show "\<exists>A' e. consume (\<lambda>_. None) sample_open ?line (PInt 3) = (A', Inr [e]) \<and> raw_of e = Some ?line"
    using engine_lines_kept [of sample_open "PInt 3" ?line "\<lambda>_. None"] by simp
  let ?bad = "''info string DEFECT_TELEMETRY_ITER x''"
  have "open_at sample_lc0 (PInt 3)" by (simp add: open_at_def sample_lc0_def sample_adapter_def adapter_eval)
  moreover have "defect_report sample_lc0 ?bad = Some (''lc0.defect.iter.v1'', ''x'')" by code_simp
  moreover have "defect_accepted (\<lambda>_. None) ''x'' = None" by (simp add: defect_accepted_def)
  ultimately show "\<exists>e. consume (\<lambda>_. None) sample_lc0 ?bad (PInt 3) = (sample_lc0, Inl e)"
    using engine_lines_kept [of sample_lc0 "PInt 3" ?bad "\<lambda>_. None"] by simp
qed

end
