(* ===== verification/RunLaws.thy ===== *)
theory RunLaws
  imports RefineRun DecisionLaws "HOL-Library.Multiset"
begin

text \<open>
  What the plans of a verification and of a refinement promise: the partition of the children of a
  target among the owners, and the targets that a refinement takes from a disagreement.
\<close>

section \<open>The partition of the children\<close>

lemma dict_set_zip:
  "distinct ks \<Longrightarrow> length xs = length ks \<Longrightarrow> m < length ks \<Longrightarrow> dict_set (ks ! m) v (zip ks xs) = zip ks (xs[m := v])"
proof (induction ks arbitrary: xs m)
  case (Cons a ks)
  then show ?case by (cases xs; cases m) auto
qed simp

lemma dict_of_pairs_zip: "distinct ks \<Longrightarrow> dict_of_pairs (zip ks xs) = zip ks xs"
  by (rule dict_of_pairs_distinct) (metis map_fst_zip_take distinct_take)

abbreviation every :: "nat \<Rightarrow> nat \<Rightarrow> nat \<Rightarrow> string list \<Rightarrow> string list" where
  "every k n i xs \<equiv> nths xs {j. (n + j) mod k = i}"

lemma every_Cons: "every k n i (x # xs) = (if n mod k = i then [x] else []) @ every k (Suc n) i xs"
  by (simp add: nths_Cons)

lemma deal_zip:
  assumes "distinct owners" "owners \<noteq> []" "length xs = length owners"
  shows "deal owners n children (zip owners xs) seen =
    (case deal owners n children (zip owners xs) seen of Inl e \<Rightarrow> Inl e
     | Inr d \<Rightarrow> Inr (zip owners (map (\<lambda>i. xs ! i @ every (length owners) n i children) [0..<length owners])))"
  using assms(3)
proof (induction children arbitrary: n xs seen)
  case Nil
  have "map (\<lambda>i. xs ! i @ every (length owners) n i []) [0..<length owners] = xs"
    using Nil by (simp add: map_nth flip: Nil)
  then show ?case by simp
next
  case (Cons mv rest)
  let ?m = "n mod length owners"
  have m: "?m < length owners" using assms(2) by simp
  show ?case
  proof (cases "uci_move mv \<and> mv \<notin> set seen")
    case True
    have get: "dict_get (zip owners xs) (owners ! ?m) = Some (xs ! ?m)"
      using m assms(1) Cons.prems by (simp add: map_of_zip_nth)
    have step: "deal owners n (mv # rest) (zip owners xs) seen =
        deal owners (Suc n) rest (zip owners (xs[?m := xs ! ?m @ [mv]])) (mv # seen)"
      using True m assms(1) Cons.prems by (simp add: get dict_set_zip)
    have shares: "map (\<lambda>i. xs[?m := xs ! ?m @ [mv]] ! i @ every (length owners) (Suc n) i rest) [0..<length owners] =
        map (\<lambda>i. xs ! i @ every (length owners) n i (mv # rest)) [0..<length owners]"
      using Cons.prems by (intro map_cong refl) (auto simp: every_Cons nth_list_update)
    show ?thesis
      unfolding step shares [symmetric] by (rule Cons.IH) (simp add: Cons.prems)
  next
    case False
    then show ?thesis by (cases "uci_move mv") auto
  qed
qed

lemma deal_returns:
  "(\<exists>d. deal owners n children buckets seen = Inr d) \<longleftrightarrow>
    list_all uci_move children \<and> distinct children \<and> set children \<inter> set seen = {}"
  by (induction owners n children buckets seen rule: deal.induct) (auto simp: rbind_eq_Inr Let_def)

lemma partition_children_eq:
  assumes "distinct owners" "owners \<noteq> []"
  shows "list_all uci_move children \<Longrightarrow> distinct children \<Longrightarrow> partition_children children owners =
      Inr (zip owners (map (\<lambda>i. every (length owners) 0 i children) [0..<length owners]))"
    and "\<not> (list_all uci_move children \<and> distinct children) \<Longrightarrow> \<exists>e. partition_children children owners = Inl e"
proof -
  let ?start = "map (\<lambda>owner. (owner, [] :: string list)) owners"
  have start: "dict_of_pairs ?start = zip owners (replicate (length owners) [])"
    using assms(1) by (subst dict_of_pairs_distinct) (auto simp: comp_def zip_map2 map_replicate_const [symmetric] zip_same_conv_map simp flip: map_replicate_const)
  show "\<not> (list_all uci_move children \<and> distinct children) \<Longrightarrow> \<exists>e. partition_children children owners = Inl e"
    using deal_returns [of owners 0 children "dict_of_pairs ?start" "[]"] assms(2)
    by (cases "deal owners 0 children (dict_of_pairs ?start) []") (auto simp: partition_children_def)
  assume "list_all uci_move children" "distinct children"
  then obtain d where "deal owners 0 children (zip owners (replicate (length owners) [])) [] = Inr d"
    using deal_returns [of owners 0 children "zip owners (replicate (length owners) [])" "[]"] by auto
  moreover have shares: "map (\<lambda>i. replicate (length owners) [] ! i @ every (length owners) 0 i children) [0..<length owners] =
      map (\<lambda>i. every (length owners) 0 i children) [0..<length owners]"
    by (rule map_cong) auto
  ultimately have deal: "deal owners 0 children (dict_of_pairs ?start) [] =
      Inr (zip owners (map (\<lambda>i. every (length owners) 0 i children) [0..<length owners]))"
    using deal_zip [OF assms, of "replicate (length owners) []" 0 children "[]"] unfolding start
    by (simp only: sum.case shares length_replicate)
  let ?d = "zip owners (map (\<lambda>i. every (length owners) 0 i children) [0..<length owners])"
  have "map (\<lambda>owner. (owner, the (dict_get ?d owner))) owners = ?d"
    by (rule nth_equalityI) (auto simp: map_of_zip_nth assms(1))
  then show "partition_children children owners = Inr ?d"
    using assms by (simp add: partition_children_def deal dict_of_pairs_zip)
qed

lemma length_every:
  assumes "i < k"
  shows "length (every k 0 i xs) = (length xs + (k - 1 - i)) div k"
proof (induction xs rule: rev_induct)
  case Nil
  then show ?case using assms by simp
next
  case (snoc x xs)
  have "Suc (length xs + (k - 1 - i)) mod k = 0 \<longleftrightarrow> length xs mod k = i"
  proof -
    have "Suc (length xs + (k - 1 - i)) = length xs + (k - i)" using assms by simp
    moreover have "(length xs + (k - i)) mod k = (length xs mod k + (k - i)) mod k"
      by (simp add: mod_add_left_eq)
    moreover have "(length xs mod k + (k - i)) mod k = 0 \<longleftrightarrow> length xs mod k = i"
    proof (cases "length xs mod k < i")
      case True
      then have "(length xs mod k + (k - i)) mod k = length xs mod k + (k - i)" using assms by simp
      then show ?thesis using True assms by simp
    next
      case False
      have "length xs mod k < k" using assms by simp
      then have "(length xs mod k + (k - i)) = k + (length xs mod k - i)" "length xs mod k - i < k" using False assms by (auto intro: less_imp_diff_less)
      then have "(length xs mod k + (k - i)) mod k = length xs mod k - i" by simp
      then show ?thesis using False by auto
    qed
    ultimately show ?thesis by metis
  qed
  then show ?case using snoc by (simp add: nths_append div_Suc)
qed

lemma mset_every:
  assumes "0 < k"
  shows "mset (concat (map (\<lambda>i. every k 0 i xs) [0..<k])) = mset xs"
proof (induction xs rule: rev_induct)
  case (snoc x xs)
  have sums: "mset (concat (map f [0..<k])) = (\<Sum>i<k. mset (f i))" for f :: "nat \<Rightarrow> string list"
    by (induction k) auto
  have "(\<Sum>i<k. mset (if length xs mod k = i then [x] else [])) = {#x#}"
    using assms by (simp add: if_distrib cong: if_cong)
  then show ?case
    using snoc by (simp add: sums nths_append sum.distrib)
qed simp

text \<open>
  C32. The children of a target are dealt out fairly: the partition returns exactly for distinct
  canonical moves, and then the owner with index \<open>i\<close> has the children whose index is \<open>i\<close> modulo
  the number of owners, in their order; together the shares are the children, none twice, and two
  shares differ in size by one at most.
\<close>

theorem partition_children_exact:
  assumes "distinct owners" "owners \<noteq> []"
  shows "((\<exists>d. partition_children children owners = Inr d) \<longleftrightarrow> list_all uci_move children \<and> distinct children) \<and>
    (\<forall>d. partition_children children owners = Inr d \<longrightarrow> dict_keys d = owners \<and>
      (\<forall>i < length owners. dict_get d (owners ! i) = Some (nths children {j. j mod length owners = i})) \<and>
      mset (concat (map snd d)) = mset children \<and>
      (\<forall>xs \<in> set (map snd d). \<forall>ys \<in> set (map snd d). length xs \<le> Suc (length ys)))"
proof (cases "list_all uci_move children \<and> distinct children")
  case False
  then show ?thesis using partition_children_eq(2) [OF assms, of children] by auto
next
  case True
  let ?k = "length owners" and ?n = "length children"
  have k: "0 < ?k" using assms(2) by simp
  have size: "(?n + ?k - Suc i) div ?k \<le> Suc ((?n + ?k - Suc i') div ?k)" if "i < ?k" "i' < ?k" for i i'
  proof -
    have "(?n + ?k - Suc i) div ?k \<le> (?n + ?k) div ?k" by (rule div_le_mono) simp
    moreover have "?n div ?k \<le> (?n + ?k - Suc i') div ?k" by (rule div_le_mono) (use that(2) in simp)
    ultimately show ?thesis using k by simp
  qed
  let ?shares = "map (\<lambda>i. every ?k 0 i children) [0..<?k]"
  have returned: "partition_children children owners = Inr (zip owners ?shares)"
    using partition_children_eq(1) [OF assms, of children] True by simp
  have "length xs \<le> Suc (length ys)" if "xs \<in> set ?shares" "ys \<in> set ?shares" for xs ys
    using that by (auto simp: length_every [simplified] intro: size)
  moreover have "map snd (zip owners ?shares) = ?shares" by simp
  ultimately show ?thesis
    using True mset_every [OF k, of children] returned
    by (auto simp del: map_snd_zip set_map simp: map_of_zip_nth assms(1))
qed

section \<open>Verification runs\<close>

definition numbered :: "nat \<Rightarrow> (string \<times> verification_stage) list \<Rightarrow> bool" where
  "numbered n d \<longleftrightarrow> map (vg_order \<circ> snd) d = [1..<Suc n]"

definition completed_at :: "(string \<times> verification_stage) list \<Rightarrow> string \<Rightarrow> nat option" where
  "completed_at d k = Option.bind (dict_get d k) vg_completion_order"

definition stages_ok :: "verification_plan \<Rightarrow> (string \<times> verification_stage) list \<Rightarrow> nat \<Rightarrow> nat \<Rightarrow> bool" where
  "stages_ok p d n m \<longleftrightarrow> dict_ok d \<and> numbered n d \<and>
     (\<forall>k g. dict_get d k = Some g \<longrightarrow> vg_owner g = k \<and> vg_roots g = vp_roots p) \<and>
     (\<forall>k i. completed_at d k = Some i \<longrightarrow> i \<le> m \<and> (\<forall>k'. completed_at d k' = Some i \<longrightarrow> k = k'))"

definition verify_inv :: "verification_plan \<Rightarrow> verification_run \<Rightarrow> bool" where
  "verify_inv p R \<longleftrightarrow> vn_plan R = p \<and> stages_ok p (vn_stages R) (vn_dispatches R) (vn_completions R)"

lemma map_dict_set_present:
  "dict_get d k = Some g \<Longrightarrow> dict_ok d \<Longrightarrow> f g' = f g \<Longrightarrow> map (f \<circ> snd) (dict_set k g' d) = map (f \<circ> snd) d"
  by (induction d) auto

lemma completed_at_set: "completed_at (dict_set k g d) k' = (if k' = k then vg_completion_order g else completed_at d k')"
  by (simp add: completed_at_def)

lemma stages_ok_add:
  assumes "stages_ok p d n m" "k \<notin> set (dict_keys d)" "vg_owner g = k" "vg_roots g = vp_roots p" "vg_order g = Suc n"
    "vg_completion_order g = None"
  shows "stages_ok p (dict_set k g d) (Suc n) m"
proof -
  have "numbered (Suc n) (dict_set k g d)"
    using assms by (simp add: stages_ok_def numbered_def dict_set_fresh)
  then show ?thesis
    using assms by (auto simp: stages_ok_def completed_at_set split: if_splits)
qed

lemma stages_ok_put:
  assumes "stages_ok p d n m" "dict_get d k = Some g" "vg_owner g' = vg_owner g" "vg_roots g' = vg_roots g"
    "vg_order g' = vg_order g"
  shows "vg_completion_order g' = vg_completion_order g \<Longrightarrow> stages_ok p (dict_set k g' d) n m"
    and "vg_completion_order g' = Some (Suc m) \<Longrightarrow> stages_ok p (dict_set k g' d) n (Suc m)"
proof -
  have base: "dict_ok (dict_set k g' d)" "numbered n (dict_set k g' d)"
      "\<forall>k' h. dict_get (dict_set k g' d) k' = Some h \<longrightarrow> vg_owner h = k' \<and> vg_roots h = vp_roots p"
    using assms by (auto simp: stages_ok_def numbered_def map_dict_set_present)
  have old: "completed_at d k' = Some i \<Longrightarrow> i \<le> m \<and> (\<forall>k''. completed_at d k'' = Some i \<longrightarrow> k' = k'')" for k' i
    using assms(1) by (simp add: stages_ok_def)
  show "stages_ok p (dict_set k g' d) n m" if "vg_completion_order g' = vg_completion_order g"
  proof -
    have "completed_at (dict_set k g' d) = completed_at d"
      using that(1) assms(2) by (auto simp: fun_eq_iff completed_at_set) (simp_all add: completed_at_def)
    then show ?thesis using base old by (simp add: stages_ok_def)
  qed
  show "stages_ok p (dict_set k g' d) n (Suc m)" if "vg_completion_order g' = Some (Suc m)"
    using that(1) base old by (fastforce simp: stages_ok_def completed_at_set dest: old)
qed

lemma put_verify_simps [simp]:
  "vn_plan (put_verify k f R) = vn_plan R" "vn_dispatches (put_verify k f R) = vn_dispatches R"
  "vn_completions (put_verify k f R) = vn_completions R" "vn_recording (put_verify k f R) = vn_recording R"
  "vn_sweep (put_verify k f R) = vn_sweep R" "vn_finalized (put_verify k f R) = vn_finalized R"
  by (simp_all add: put_verify_def split: option.split)

lemma put_verify_get:
  "dict_get (vn_stages (put_verify k f R)) k' =
     (if k' = k then map_option f (dict_get (vn_stages R) k) else dict_get (vn_stages R) k')"
  by (simp add: put_verify_def split: option.split)

text \<open>A write that leaves the identity, the order and the number of a completion alone.\<close>

lemma stages_ok_put_verify:
  assumes "stages_ok p (vn_stages R) n m" "\<And>g. vg_owner (f g) = vg_owner g" "\<And>g. vg_roots (f g) = vg_roots g"
    "\<And>g. vg_order (f g) = vg_order g"
  shows "(\<And>g. vg_completion_order (f g) = vg_completion_order g) \<Longrightarrow> stages_ok p (vn_stages (put_verify k f R)) n m"
    and "(\<And>g. vg_completion_order (f g) = Some (Suc m)) \<Longrightarrow> stages_ok p (vn_stages (put_verify k f R)) n (Suc m)"
proof -
  show "stages_ok p (vn_stages (put_verify k f R)) n m" if "\<And>g. vg_completion_order (f g) = vg_completion_order g"
  proof (cases "dict_get (vn_stages R) k")
    case (Some g)
    then show ?thesis using stages_ok_put(1) [OF assms(1) Some assms(2-4) that] by (simp add: put_verify_def)
  qed (simp add: put_verify_def assms(1))
  show "stages_ok p (vn_stages (put_verify k f R)) n (Suc m)" if "\<And>g. vg_completion_order (f g) = Some (Suc m)"
  proof (cases "dict_get (vn_stages R) k")
    case (Some g)
    then show ?thesis using stages_ok_put(2) [OF assms(1) Some assms(2-4) that] by (simp add: put_verify_def)
  next
    case None
    then show ?thesis using assms(1) by (auto simp: put_verify_def stages_ok_def intro: le_SucI)
  qed
qed

lemma verify_inv_complete:
  assumes "verify_inv p R"
  shows "verify_inv p (verify_complete owner t disp best reason failure R)"
  using assms
  by (auto simp: verify_inv_def verify_complete_def Let_def stages_ok_put_verify split: option.split)

lemma verify_inv_record: "verify_inv p R \<Longrightarrow> verify_inv p (verify_record R)"
  by (auto simp: verify_inv_def verify_record_def stages_ok_put_verify split: option.split recording_phase.split)

lemma verify_inv_sweep: "verify_inv p R \<Longrightarrow> verify_inv p (verify_sweep R)"
  by (auto simp: verify_inv_def verify_sweep_def stages_ok_put_verify
      split: prod.split list.split option.split sweep_phase.split)

lemma verify_inv_finalize: "verify_inv p R \<Longrightarrow> verify_inv p (verify_finalize R)"
  by (simp add: verify_inv_def verify_finalize_def)

lemma verify_inv_dispatch:
  "verify_inv p R \<Longrightarrow> verify_inv p (fst (verify_dispatch owner inst fam search command phase options t R))"
  by (simp add: verify_inv_def verify_dispatch_def Let_def stages_ok_add)

lemma verify_step_cases:
  obtains "fst (verify_step R x) = R" | "vn_recording R = None \<or> x = VRecord \<or> x = VSweep" "verify_step R x = verify_perform R x"
  by (cases "vn_recording R \<noteq> None \<and> x \<notin> {VRecord, VSweep}") (auto simp: verify_step_def)

lemma verify_inv_perform: "verify_inv p R \<Longrightarrow> verify_inv p (fst (verify_perform R x))"
  by (cases x) (simp_all add: verify_inv_dispatch verify_inv_complete verify_inv_finalize verify_inv_record verify_inv_sweep,
      simp_all add: verify_inv_def verify_register_def verify_activate_def verify_note_def verify_set_disposition_def)

interpretation verify_runs: machine verify_step "verify_inv p" for p
proof
  fix R :: verification_run and x
  assume "verify_inv p R"
  then show "verify_inv p (fst (verify_step R x))"
    using verify_inv_perform by (cases rule: verify_step_cases [of R x]) auto
qed

text \<open>
  A stage is undisturbed when no thread is in the middle of writing it: no completion of it is being
  recorded and the loop of \<open>finalize\<close> has not tested it and still to mark it.
\<close>

definition undisturbed :: "verification_run \<Rightarrow> string \<Rightarrow> bool" where
  "undisturbed R k \<longleftrightarrow> (case vn_recording R of None \<Rightarrow> True | Some r \<Rightarrow> rc_owner r \<noteq> k) \<and>
     (case vn_sweep R of ([], phase) \<Rightarrow> True | (k' # ks, phase) \<Rightarrow> k' = k \<longrightarrow> phase = Testing)"

lemma undisturbed_cong:
  "vn_recording R' = vn_recording R \<Longrightarrow> vn_sweep R' = vn_sweep R \<Longrightarrow> undisturbed R' k = undisturbed R k"
  by (simp add: undisturbed_def)

definition settled_as :: "verification_run \<Rightarrow> string \<Rightarrow> verification_stage \<Rightarrow> bool" where
  "settled_as R k g \<longleftrightarrow> (\<exists>d. verify_stage_of R k = Some (g\<lparr>vg_done := d\<rparr>)) \<and> undisturbed R k \<and>
     vg_disposition g \<noteq> ''running''"

lemma settled_cong:
  assumes "settled_as R k g" "vn_stages R' = vn_stages R" "vn_recording R' = vn_recording R" "vn_sweep R' = vn_sweep R"
  shows "settled_as R' k g"
  using assms by (simp add: settled_as_def verify_stage_of_def undisturbed_def)

lemma settled_perform:
  assumes "settled_as R k g" "vn_recording R = None \<or> x = VRecord \<or> x = VSweep"
  shows "settled_as (fst (verify_perform R x)) k g"
proof -
  obtain d where here: "dict_get (vn_stages R) k = Some (g\<lparr>vg_done := d\<rparr>)" and calm: "undisturbed R k"
    and disp: "vg_disposition g \<noteq> ''running''"
    using assms(1) by (auto simp: settled_as_def verify_stage_of_def)
  have kept: ?thesis if "dict_get (vn_stages (fst (verify_perform R x))) k = Some (g\<lparr>vg_done := d\<rparr>)"
    "undisturbed (fst (verify_perform R x)) k" for d
    using that disp by (auto simp: settled_as_def verify_stage_of_def)
  show ?thesis
  proof (cases x)
    case (VDispatch owner inst fam search command phase options t)
    have "owner = k \<Longrightarrow> owner \<in> set (dict_keys (vn_stages R))"
      using here by (metis dict_get_None list.set_map option.simps(3))
    then show ?thesis
      using here calm by (intro kept) (auto simp: VDispatch verify_dispatch_def Let_def undisturbed_def)
  next
    case (VComplete owner t disp' best reason failure)
    then have "vn_recording R = None" using assms(2) by simp
    show ?thesis
    proof (cases "owner = k")
      case True
      have "fst (verify_perform R x) = put_verify k (\<lambda>g. g\<lparr>vg_done := True\<rparr>) R"
        using here disp True by (simp add: VComplete verify_complete_def)
      then show ?thesis using here calm
        by (intro kept [of True]) (simp_all add: put_verify_get undisturbed_def)
    next
      case False
      with calm have "undisturbed (fst (verify_perform R x)) k"
        by (auto simp: VComplete verify_complete_def Let_def undisturbed_def split: option.split)
      moreover have "dict_get (vn_stages (fst (verify_perform R x))) k = Some (g\<lparr>vg_done := d\<rparr>)"
        using here False by (auto simp: VComplete verify_complete_def Let_def put_verify_get split: option.split)
      ultimately show ?thesis by (intro kept)
    qed
  next
    case VFinalize
    have "undisturbed (fst (verify_perform R x)) k"
      using calm by (auto simp: VFinalize verify_finalize_def undisturbed_def split: list.split)
    then show ?thesis using here by (intro kept) (simp_all add: VFinalize verify_finalize_def)
  next
    case VRecord
    show ?thesis
    proof (cases "vn_recording R")
      case None
      then show ?thesis using here calm by (intro kept) (simp_all add: VRecord verify_record_def)
    next
      case (Some r)
      then have "rc_owner r \<noteq> k" using calm by (simp add: undisturbed_def)
      with Some have "dict_get (vn_stages (verify_record R)) k = Some (g\<lparr>vg_done := d\<rparr>)" "undisturbed (verify_record R) k"
        using here calm by (auto simp: verify_record_def put_verify_get undisturbed_def split: recording_phase.split)
      then show ?thesis by (intro kept) (simp_all add: VRecord)
    qed
  next
    case VSweep
    show ?thesis
    proof (cases "vn_sweep R")
      case (Pair ks phase)
      have "dict_get (vn_stages (verify_sweep R)) k = Some (g\<lparr>vg_done := d\<rparr>)" "undisturbed (verify_sweep R) k"
        using here calm disp Pair
        by (cases ks; cases phase; auto simp: verify_sweep_def put_verify_get undisturbed_def split: option.split list.split)+
      then show ?thesis by (intro kept) (simp_all add: VSweep)
    qed
  qed (auto simp: verify_register_def verify_activate_def verify_note_def verify_set_disposition_def
      intro!: settled_cong [OF assms(1)])
qed

lemma verify_settled_run: "settled_as R k g \<Longrightarrow> settled_as (run verify_step R xs) k g"
proof (induction xs arbitrary: R)
  case (Cons x xs)
  have "settled_as (fst (verify_step R x)) k g"
    using settled_perform [OF Cons.prems] Cons.prems by (cases rule: verify_step_cases [of R x]) auto
  then show ?case using Cons.IH by simp
qed simp

text \<open>
  C33. However calls, the writes of a completion and the loop of \<open>finalize\<close> interleave, a
  verification run keeps one stage per owner, numbered from one in the order of their dispatches and
  searching the common candidates; completions have different numbers; and a stage that has left
  \<open>running\<close> while no thread is in the middle of writing it keeps all its facts whatever happens
  afterwards, further completions and the end of the run included.
\<close>

theorem verification_run_exact:
  assumes "R = run verify_step (new_verification_run p) xs"
  shows "map vg_order (verify_stages R) = [1..<Suc (vn_dispatches R)] \<and>
    map vg_owner (verify_stages R) = dict_keys (vn_stages R) \<and> distinct (dict_keys (vn_stages R)) \<and>
    (\<forall>g \<in> set (verify_stages R). vg_roots g = vp_roots p \<and>
      (\<forall>h \<in> set (verify_stages R). vg_completion_order g = vg_completion_order h \<longrightarrow> vg_completion_order g = None \<or> g = h)) \<and>
    (\<forall>k g ys. verify_stage_of R k = Some g \<longrightarrow> vg_disposition g \<noteq> ''running'' \<longrightarrow> undisturbed R k \<longrightarrow>
      (\<exists>d. verify_stage_of (run verify_step R ys) k = Some (g\<lparr>vg_done := d\<rparr>)))"
proof -
  have "verify_inv p (new_verification_run p)"
    by (simp add: verify_inv_def stages_ok_def numbered_def completed_at_def new_verification_run_def)
  then have "verify_inv p R" unfolding assms by (rule verify_runs.run_inv)
  then have ok: "stages_ok p (vn_stages R) (vn_dispatches R) (vn_completions R)" by (simp add: verify_inv_def)
  let ?gs = "map snd (vn_stages R)"
  have orders: "map vg_order ?gs = [1..<Suc (vn_dispatches R)]" and keys: "dict_ok (vn_stages R)"
    using ok by (simp_all add: stages_ok_def numbered_def)
  have "sorted (map vg_order ?gs)" unfolding orders by (rule sorted_upt)
  then have stages: "verify_stages R = ?gs" by (simp only: verify_stages_def sort_key_id_if_sorted)
  have entry: "dict_get (vn_stages R) (fst e) = Some (snd e)" if "e \<in> set (vn_stages R)" for e
    using keys that by simp
  have fields: "vg_owner (snd e) = fst e \<and> vg_roots (snd e) = vp_roots p" if "e \<in> set (vn_stages R)" for e
    using ok entry [OF that] unfolding stages_ok_def by blast
  then have owners: "map vg_owner ?gs = dict_keys (vn_stages R)" by simp
  have same: "vg_completion_order g = None \<or> g = h"
    if "g \<in> set ?gs" "h \<in> set ?gs" "vg_completion_order g = vg_completion_order h" for g h
  proof (cases "vg_completion_order g")
    case (Some n)
    have here: "g \<in> set ?gs" "h \<in> set ?gs" by fact+
    obtain e f where ef: "e \<in> set (vn_stages R)" "f \<in> set (vn_stages R)" "g = snd e" "h = snd f" using here by auto
    then have "completed_at (vn_stages R) (fst e) = Some n" "completed_at (vn_stages R) (fst f) = Some n"
      using \<open>vg_completion_order g = vg_completion_order h\<close> Some entry by (simp_all add: completed_at_def)
    then have "fst e = fst f" using ok by (simp add: stages_ok_def)
    then show ?thesis using entry [OF ef(1)] entry [OF ef(2)] ef(3,4) by simp
  qed simp
  have "\<exists>d. verify_stage_of (run verify_step R ys) k = Some (g\<lparr>vg_done := d\<rparr>)"
    if "verify_stage_of R k = Some g" "vg_disposition g \<noteq> ''running''" "undisturbed R k" for k g ys
  proof -
    have "settled_as R k g"
      using that by (auto simp: settled_as_def intro: exI [of _ "vg_done g"])
    from verify_settled_run [OF this, of ys] show ?thesis by (simp add: settled_as_def)
  qed
  then show ?thesis
    unfolding stages using orders owners keys fields same by (auto simp del: upt_Suc)
qed

section \<open>The targets of a refinement\<close>

lemma verify_plan_facts:
  assumes "build_verification_plan generation run_id pos s owners insts bestmoves roots = Inr p"
  shows "distinct (vp_owners p)" "length (vp_owners p) = 3" "length (vp_roots p) = 3" "distinct (vp_roots p)"
    "vp_nominees p = zip (vp_owners p) (vp_roots p)" "list_all uci_move (vp_roots p)"
proof -
  obtain moves ps where moves: "length owners = 3" "rmap (nominee bestmoves roots) owners = Inr moves"
    and p: "vp_owners p = owners" "vp_nominees p = dict_of_pairs (zip owners moves)"
      "vp_roots p = map (\<lambda>owner. the (dict_get (dict_of_pairs (zip owners moves)) owner)) owners" "distinct (vp_roots p)"
    using assms by (auto simp: build_verification_plan_def rbind_eq_Inr Let_def)
  have owners: "distinct owners" using p(3,4) by (simp add: distinct_map)
  have len: "length moves = length owners" by (rule rmap_length [OF moves(2)])
  have "map (\<lambda>owner. the (dict_get (zip owners moves) owner)) owners = moves"
    by (rule nth_equalityI) (simp_all add: len map_of_zip_nth owners)
  then have roots: "vp_roots p = moves" by (simp only: p(3) dict_of_pairs_zip [OF owners])
  have "list_all2 (\<lambda>o' mv. uci_move mv) owners moves"
    using moves(2) unfolding rmap_eq_Inr
    by (rule list_all2_mono) (auto simp: nominee_def Let_def split: option.splits)
  then show "list_all uci_move (vp_roots p)" unfolding roots by (induction rule: list_all2_induct) auto
  show "distinct (vp_owners p)" "length (vp_owners p) = 3" "length (vp_roots p) = 3" "distinct (vp_roots p)"
      "vp_nominees p = zip (vp_owners p) (vp_roots p)"
    using owners moves(1) len roots p by (simp_all add: dict_of_pairs_zip)
qed

lemma pick_targets_eq:
  "int (length acc) < limit \<Longrightarrow> distinct cs \<Longrightarrow> set acc \<inter> set cs = {} \<Longrightarrow>
    pick_targets finals limit cs acc = acc @ take (nat limit - length acc) (filter (\<lambda>mv. mv \<in> set finals) cs)"
proof (induction cs arbitrary: acc)
  case (Cons mv cs)
  then have fresh: "mv \<notin> set acc" by auto
  show ?case
  proof (cases "mv \<in> set finals")
    case True
    show ?thesis
    proof (cases "int (length acc) + 1 < limit")
      case more: True
      then have "nat limit - length acc = Suc (nat limit - Suc (length acc))" by linarith
      then show ?thesis using Cons.IH [of "acc @ [mv]"] Cons.prems True more fresh by auto
    next
      case False
      then have "nat limit - length acc = 1" using Cons.prems(1) by linarith
      then show ?thesis using Cons.prems True False fresh by (simp add: take_Suc)
    qed
  next
    case False
    then show ?thesis using Cons.IH [of acc] Cons.prems by auto
  qed
qed simp

lemma uci_move_no_dash: "uci_move mv \<Longrightarrow> CHR ''-'' \<notin> set mv"
  by (cases mv rule: uci_move.cases) (auto simp: file_char_def rank_char_def promo_char_def)

lemma target_id_move:
  assumes "uci_move mv"
  shows "rev (takeWhile (\<lambda>c. c \<noteq> CHR ''-'') (rev (target_id n mv))) = mv"
proof -
  have "takeWhile (\<lambda>c. c \<noteq> CHR ''-'') (rev mv @ CHR ''-'' # xs) = rev mv" for xs
    using uci_move_no_dash [OF assms] by (subst takeWhile_append2) auto
  then show ?thesis by (simp add: target_id_def)
qed

lemma make_targets_eq:
  assumes "distinct owners" "length moves = length owners" "distinct moves" "set ms \<subseteq> set moves"
  shows "\<exists>ts. rmap (make_target (zip owners moves)) (zip [0..<length ms] ms) = Inr ts \<and> map ft_root ts = ms \<and>
    map ft_id ts = map2 target_id [0..<length ms] ms \<and>
    (\<forall>t \<in> set ts. dict_get (zip owners moves) (ft_owner t) = Some (ft_root t))"
proof -
  have swap: "map (\<lambda>(owner, m). (m, owner)) (zip owners moves) = zip moves owners"
    by (simp add: zip_commute [of owners] comp_def case_prod_beta)
  have rev_dict: "dict_of_pairs (map (\<lambda>(owner, m). (m, owner)) (zip owners moves)) = zip moves owners"
    unfolding swap by (rule dict_of_pairs_zip [OF assms(3)])
  define owner_at where "owner_at mv = the (dict_get (zip moves owners) mv)" for mv
  have at: "dict_get (zip moves owners) mv = Some (owner_at mv)" "dict_get (zip owners moves) (owner_at mv) = Some mv"
    if "mv \<in> set ms" for mv
  proof -
    obtain i where "i < length moves" "mv = moves ! i" using \<open>mv \<in> set ms\<close> assms(4) by (metis in_set_conv_nth subsetD)
    then show "dict_get (zip moves owners) mv = Some (owner_at mv)" "dict_get (zip owners moves) (owner_at mv) = Some mv"
      using assms by (simp_all add: owner_at_def map_of_zip_nth)
  qed
  let ?f = "\<lambda>(n, mv). \<lparr>ft_id = target_id n mv, ft_root = mv, ft_owner = owner_at mv\<rparr>"
  have "rmap (make_target (zip owners moves)) (zip [0..<length ms] ms) = Inr (map ?f (zip [0..<length ms] ms))"
    by (rule rmap_total) (auto simp: make_target_def rev_dict at dest!: set_zip_rightD)
  moreover have "map ft_root (map ?f (zip [0..<length ms] ms)) = ms" by (simp add: comp_def case_prod_beta)
  ultimately show ?thesis using at(2) by (force simp: case_prod_beta dest: set_zip_rightD)
qed

lemma owner_finals:
  assumes "rmap (owner_final R) owners = Inr finals"
  shows "length finals = length owners" and "set finals \<subseteq> set (vp_roots (vn_plan R))"
    and "(owner, mv) \<in> set (zip owners finals) \<Longrightarrow> \<exists>g. verify_stage_of R owner = Some g \<and>
      vg_disposition g = ''completed'' \<and> vg_bestmove g = Some mv"
proof -
  have all: "list_all2 (\<lambda>owner mv. owner_final R owner = Inr mv) owners finals" using assms by (simp add: rmap_eq_Inr)
  have final: "owner_final R owner = Inr mv \<Longrightarrow> mv \<in> set (vp_roots (vn_plan R)) \<and> (\<exists>g. verify_stage_of R owner = Some g \<and>
      vg_disposition g = ''completed'' \<and> vg_bestmove g = Some mv)" for owner mv
    by (auto simp: owner_final_def split: option.splits)
  show "length finals = length owners" using assms by (rule rmap_length)
  show "set finals \<subseteq> set (vp_roots (vn_plan R))" using all final by (induction rule: list_all2_induct) auto
  show "\<exists>g. verify_stage_of R owner = Some g \<and> vg_disposition g = ''completed'' \<and> vg_bestmove g = Some mv"
    if "(owner, mv) \<in> set (zip owners finals)"
    using all \<open>(owner, mv) \<in> set (zip owners finals)\<close> final by (auto simp: list_all2_iff)
qed

lemma target_moves_eq:
  assumes "distinct roots" "0 < fs_max_targets fs"
  shows "target_moves fs finals roots = (if card (set finals) \<le> 1 then []
    else take (nat (fs_max_targets fs)) (filter (\<lambda>mv. mv \<in> set finals) roots))"
  using pick_targets_eq [of "[]" "fs_max_targets fs" roots finals] assms
  by (auto simp: target_moves_def length_remdups_card_conv)

lemma target_moves_roots: "distinct roots \<Longrightarrow> 0 < fs_max_targets fs \<Longrightarrow>
    set (target_moves fs finals roots) \<subseteq> set roots \<and> distinct (target_moves fs finals roots)"
  by (auto simp: target_moves_eq dest: in_set_takeD)

lemma target_ids_distinct:
  assumes "\<And>mv. mv \<in> set ms \<Longrightarrow> uci_move mv" "distinct ms"
  shows "distinct (map2 target_id [0..<length ms] ms)"
proof -
  have "map (\<lambda>x. rev (takeWhile (\<lambda>c. c \<noteq> CHR ''-'') (rev x))) (map2 target_id [0..<length ms] ms) = ms"
    using assms(1) by (intro nth_equalityI) (auto simp: target_id_move)
  then show ?thesis using assms(2) by (metis distinct_map)
qed

lemma owner_final_no_target: "rmap (owner_final R) ks \<noteq> Inl (TargetOwner mv)"
proof -
  have "owner_final R owner \<noteq> Inl (TargetOwner mv)" for owner
    by (auto simp: owner_final_def rbind_eq_Inl split: option.splits)
  then show ?thesis by (induction ks) (auto simp: rbind_eq_Inl)
qed

lemma verify_plan_kept: "vn_plan (run verify_step (new_verification_run p) xs) = p"
proof -
  have "verify_inv p (new_verification_run p)"
    by (simp add: verify_inv_def stages_ok_def numbered_def completed_at_def new_verification_run_def)
  then show ?thesis using verify_runs.run_inv [of p _ xs] by (simp add: verify_inv_def)
qed

text \<open>
  C34. A refinement works on the disagreement of a completed verification: its targets are, in the order
  of the candidates and up to the limit, the moves on which the three owners ended, and none when they
  agree; every target has the owner that nominated its move and an identity of its own; and the table of
  nominees never lacks a target, so that the lookup in it does not raise.
\<close>

theorem refinement_targets_exact:
  assumes "build_verification_plan generation run_id pos s owners insts bestmoves roots = Inr p"
    and "R = run verify_step (new_verification_run p) xs"
    and "0 < fs_max_targets fs"
  shows "(\<forall>mv. build_refinement_plan fs R \<noteq> Inl (TargetOwner mv)) \<and>
    (\<forall>q. build_refinement_plan fs R = Inr q \<longrightarrow>
      dict_keys (fp_finals q) = vp_owners p \<and>
      (\<forall>(owner, mv) \<in> set (fp_finals q). \<exists>g. verify_stage_of R owner = Some g \<and>
        vg_disposition g = ''completed'' \<and> vg_bestmove g = Some mv) \<and>
      map ft_root (fp_targets q) = (if card (set (map snd (fp_finals q))) \<le> 1 then []
        else take (nat (fs_max_targets fs)) (filter (\<lambda>mv. mv \<in> set (map snd (fp_finals q))) (vp_roots p))) \<and>
      distinct (map ft_id (fp_targets q)) \<and>
      (\<forall>t \<in> set (fp_targets q). dict_get (vp_nominees p) (ft_owner t) = Some (ft_root t)))"
proof -
  note facts = verify_plan_facts [OF assms(1)]
  let ?ms = "\<lambda>finals. target_moves fs finals (vp_roots p)"
  let ?make = "\<lambda>finals. rmap (make_target (vp_nominees p)) (zip [0..<length (?ms finals)] (?ms finals))"
  have plan: "vn_plan R = p" by (simp add: assms(2) verify_plan_kept)
  have sub: "set (?ms finals) \<subseteq> set (vp_roots p)" "distinct (?ms finals)" for finals
    using target_moves_roots [OF facts(4) assms(3)] by auto
  have targets: "\<exists>ts. ?make finals = Inr ts \<and> map ft_root ts = ?ms finals \<and>
      map ft_id ts = map2 target_id [0..<length (?ms finals)] (?ms finals) \<and>
      (\<forall>t \<in> set ts. dict_get (vp_nominees p) (ft_owner t) = Some (ft_root t))" for finals
    using make_targets_eq [OF facts(1) _ facts(4) sub(1), folded facts(5)] facts(2,3) by simp
  have ids: "distinct (map2 target_id [0..<length (?ms finals)] (?ms finals))" for finals
    using facts(6) sub by (intro target_ids_distinct) (auto simp: list_all_iff)
  have "?make finals \<noteq> Inl (TargetOwner mv)" for finals mv
    using targets [of finals] by auto
  then have known: "build_refinement_plan fs R \<noteq> Inl (TargetOwner mv)" for mv
    using owner_final_no_target unfolding build_refinement_plan_def plan Let_def rbind_eq_Inl ensure_eq_Inl by blast
  have fields: "dict_keys (fp_finals q) = vp_owners p \<and>
      (\<forall>(owner, mv) \<in> set (fp_finals q). \<exists>g. verify_stage_of R owner = Some g \<and>
        vg_disposition g = ''completed'' \<and> vg_bestmove g = Some mv) \<and>
      map ft_root (fp_targets q) = ?ms (map snd (fp_finals q)) \<and> distinct (map ft_id (fp_targets q)) \<and>
      (\<forall>t \<in> set (fp_targets q). dict_get (vp_nominees p) (ft_owner t) = Some (ft_root t))"
    if built: "build_refinement_plan fs R = Inr q" for q
  proof -
    obtain finals ts where finals: "rmap (owner_final R) (vp_owners p) = Inr finals" and ts: "?make finals = Inr ts"
      and q: "fp_finals q = zip (vp_owners p) finals" "fp_targets q = ts"
      using built unfolding build_refinement_plan_def plan Let_def
      by (auto simp: rbind_eq_Inr dict_of_pairs_zip [OF facts(1)])
    note found = owner_finals [OF finals]
    have "dict_keys (fp_finals q) = vp_owners p" "map snd (fp_finals q) = finals" using found(1) by (simp_all add: q)
    then show ?thesis using ids [of finals] targets [of finals] ts found(3) q by auto
  qed
  show ?thesis using known fields unfolding target_moves_eq [OF facts(4) assms(3)] by blast
qed

section \<open>A run of three engines\<close>

definition sample_settings :: verification_settings where
  "sample_settings = \<lparr>vs_enabled = True, vs_method = union_method, vs_limit = []\<rparr>"

definition sample_moves :: "string list" where
  "sample_moves = [''e2e4'', ''d2d4'', ''c2c4'']"

definition sample_plan :: "verify_error + verification_plan" where
  "sample_plan = build_verification_plan 1 ''run'' ''pos'' sample_settings owner_order
     (zip owner_order [''sf-0'', ''rk-0'', ''lc-0'']) (zip owner_order (map Some sample_moves))
     (zip owner_order (map (\<lambda>mv. [mv]) sample_moves))"

definition engine_ops :: "string \<Rightarrow> string \<Rightarrow> nat \<Rightarrow> string \<Rightarrow> verify_op list" where
  "engine_ops owner inst handle best =
     [VRegister inst handle, VActivate inst, VDispatch owner inst owner (''s-'' @ owner) ''go'' ''VERIFY'' None (Fin 0),
      VComplete owner (Fin 1) ''completed'' (Some best) None None, VRecord, VRecord, VRecord]"

definition engines_ops :: "string \<Rightarrow> string \<Rightarrow> string \<Rightarrow> verify_op list" where
  "engines_ops a b c = engine_ops ''stockfish'' ''sf-0'' 0 a @ engine_ops ''reckless'' ''rk-0'' 1 b @
     engine_ops ''lc0'' ''lc-0'' 2 c @ [VDisposition ''completed'' None]"

definition sample_refinement :: refinement_settings where
  "sample_refinement = \<lparr>fs_enabled = True, fs_method = disagreement_method, fs_partition = ''modulo'', fs_limit = [],
     fs_max_targets = 2, fs_recursive = ''none'', fs_max_depth = 0, fs_max_expansions = 0\<rparr>"

lemma sample_plan_eq: "sample_plan = Inr \<lparr>vp_id = ''run:verify-v1'', vp_generation = 1, vp_run = ''run'', vp_position = ''pos'',
    vp_owners = owner_order, vp_roots = sample_moves, vp_nominees = zip owner_order sample_moves,
    vp_participants = zip owner_order [''sf-0'', ''rk-0'', ''lc-0''], vp_limit = [], vp_method = union_method\<rparr>"
  by code_simp

definition agreed_plan :: verification_plan where
  "agreed_plan = projr sample_plan"

definition split_run :: verification_run where
  "split_run = run verify_step (new_verification_run agreed_plan) (engines_ops ''e2e4'' ''c2c4'' ''c2c4'')"

lemma split_targets:
  "map_sum id (\<lambda>q. map (\<lambda>t. (ft_id t, ft_owner t)) (fp_targets q)) (build_refinement_plan sample_refinement split_run) =
    Inr [(''target-000-e2e4'', ''stockfish''), (''target-001-c2c4'', ''lc0'')]"
  by code_simp

theorem partition_children_exact_witness:
  "partition_children [''a2a3'', ''a2a4'', ''b2b3''] [''x'', ''y''] = Inr [(''x'', [''a2a3'', ''b2b3'']), (''y'', [''a2a4''])] \<and>
   (\<exists>d. partition_children [''a2a3'', ''a2a4'', ''b2b3''] [''x'', ''y''] = Inr d \<and> dict_keys d = [''x'', ''y''])"
proof -
  have "distinct [''x'', ''y'']" "[''x'', ''y''] \<noteq> []" by simp_all
  note exact = partition_children_exact [OF this, of "[''a2a3'', ''a2a4'', ''b2b3'']"]
  have shares: "partition_children [''a2a3'', ''a2a4'', ''b2b3''] [''x'', ''y''] = Inr [(''x'', [''a2a3'', ''b2b3'']), (''y'', [''a2a4''])]"
    by code_simp
  show ?thesis using exact shares by blast
qed

theorem verification_run_exact_witness:
  "map vg_owner (verify_stages split_run) = owner_order \<and> map vg_order (verify_stages split_run) = [1, 2, 3] \<and>
   (\<exists>g d. verify_stage_of split_run ''lc0'' = Some g \<and>
     verify_stage_of (run verify_step split_run [VComplete ''lc0'' (Fin 2) ''failed'' None None None,
       VFinalize, VSweep]) ''lc0'' =
       Some (g\<lparr>vg_done := d\<rparr>) \<and> vg_bestmove g = Some ''c2c4'')"
proof -
  have calm: "undisturbed split_run ''lc0''" by code_simp
  note exact = verification_run_exact [OF split_run_def]
  have keys: "dict_keys (vn_stages split_run) = owner_order" and n: "vn_dispatches split_run = 3" by code_simp+
  have "map_option (\<lambda>g. (vg_disposition g, vg_bestmove g)) (verify_stage_of split_run ''lc0'') =
      Some (''completed'', Some ''c2c4'')" by code_simp
  then obtain g where g: "verify_stage_of split_run ''lc0'' = Some g" "vg_disposition g \<noteq> ''running''" "vg_bestmove g = Some ''c2c4''"
    by (cases "verify_stage_of split_run ''lc0''") auto
  have "\<exists>d. verify_stage_of (run verify_step split_run ys) ''lc0'' = Some (g\<lparr>vg_done := d\<rparr>)" for ys
    using exact g(1,2) calm by (elim conjE) blast
  moreover have "map vg_owner (verify_stages split_run) = owner_order" "map vg_order (verify_stages split_run) = [1, 2, 3]"
    using exact keys n by (simp_all add: upt_rec)
  ultimately show ?thesis using g(1,3) by blast
qed

text \<open>
  Without that condition a recorded completion is lost: the loop tests the stage while it runs, the
  completion is recorded, and the loop then marks the completed stage as unresolved.
\<close>

definition raced_ops :: "verify_op list" where
  "raced_ops = [VRegister ''sf-0'' 0, VDispatch ''stockfish'' ''sf-0'' ''stockfish'' ''s'' ''go'' ''VERIFY'' None (Fin 0),
     VFinalize, VSweep, VComplete ''stockfish'' (Fin 1) ''completed'' (Some ''e2e4'') None None, VRecord, VRecord, VRecord]"

lemma completion_overwritten:
  "terminal_disposition (run verify_step (new_verification_run agreed_plan) raced_ops) ''stockfish'' = ''completed'' \<and>
   terminal_disposition (run verify_step (new_verification_run agreed_plan) (raced_ops @ [VSweep])) ''stockfish'' = ''unresolved'' \<and>
   terminal_final (run verify_step (new_verification_run agreed_plan) (raced_ops @ [VSweep])) ''stockfish'' = Some ''e2e4''"
  by code_simp

theorem refinement_targets_exact_witness:
  "\<exists>q. build_refinement_plan sample_refinement split_run = Inr q \<and> map ft_root (fp_targets q) = [''e2e4'', ''c2c4''] \<and>
    distinct (map ft_id (fp_targets q))"
proof -
  have "sample_plan = Inr agreed_plan" by (simp add: agreed_plan_def sample_plan_eq)
  then have built: "build_verification_plan 1 ''run'' ''pos'' sample_settings owner_order (zip owner_order [''sf-0'', ''rk-0'', ''lc-0''])
      (zip owner_order (map Some sample_moves)) (zip owner_order (map (\<lambda>mv. [mv]) sample_moves)) = Inr agreed_plan"
    by (simp add: sample_plan_def)
  have "0 < fs_max_targets sample_refinement" by (simp add: sample_refinement_def)
  note exact = refinement_targets_exact [OF built split_run_def this]
  have "map_sum id (\<lambda>q. map ft_root (fp_targets q)) (build_refinement_plan sample_refinement split_run) =
      Inr [''e2e4'', ''c2c4'']" by code_simp
  then obtain q where q: "build_refinement_plan sample_refinement split_run = Inr q" "map ft_root (fp_targets q) = [''e2e4'', ''c2c4'']"
    by (cases "build_refinement_plan sample_refinement split_run") auto
  have "distinct (map ft_id (fp_targets q))" using exact [THEN conjunct2, THEN spec [of _ q]] q(1) by simp
  then show ?thesis by (intro exI [of _ q] conjI q)
qed

end
