(* ===== verification/FeedLaws.thy ===== *)
theory FeedLaws
  imports CrossFeed UciLaws RunLaws
begin

text \<open>
  What the cross-feed view promises: the latest observation of each source is kept, the events of an
  engine adapter can be read back as typed hints, and a proposal made from the view of a move rests on
  three completed verifiers with intact streams.
\<close>

section \<open>Retention\<close>

lemma later_irrefl: "\<not> later h h"
  by (cases "ch_time h") (simp_all add: later_def)

lemma f_less_trans: "f_less a b \<Longrightarrow> f_less b c \<Longrightarrow> f_less a c"
  by (cases a; cases b; cases c) auto

lemma later_trans: "later h g \<Longrightarrow> later g f \<Longrightarrow> later h f"
  by (auto simp: later_def intro: f_less_trans)

definition keeps_latest :: "candidate_hint list \<Rightarrow> (hint_slot \<times> candidate_hint) list \<Rightarrow> bool" where
  "keeps_latest hints d \<longleftrightarrow> dict_ok d \<and> set (dict_keys d) = slot_of ` set hints \<and>
     (\<forall>(k, h) \<in> set d. h \<in> set hints \<and> k = slot_of h \<and> (\<forall>g \<in> set hints. slot_of g = k \<longrightarrow> \<not> later g h))"

lemma keeps_latestI:
  assumes "dict_ok d" "set (dict_keys d) = slot_of ` set hints"
    and "\<And>k g. (k, g) \<in> set d \<Longrightarrow> g \<in> set hints \<and> k = slot_of g \<and> (\<forall>f \<in> set hints. slot_of f = k \<longrightarrow> \<not> later f g)"
  shows "keeps_latest hints d"
  using assms unfolding keeps_latest_def by blast

lemma keeps_latestD:
  assumes "keeps_latest hints d"
  shows "dict_ok d" "set (dict_keys d) = slot_of ` set hints"
    "(k, g) \<in> set d \<Longrightarrow> g \<in> set hints \<and> k = slot_of g \<and> (\<forall>f \<in> set hints. slot_of f = k \<longrightarrow> \<not> later f g)"
  using assms unfolding keeps_latest_def by blast+

lemma keep_latest_step:
  assumes "keeps_latest hints d"
  shows "keeps_latest (hints @ [h]) (keep_latest d h)"
proof (cases "dict_get d (slot_of h)")
  case None
  then have fresh: "slot_of h \<notin> slot_of ` set hints" "slot_of h \<notin> fst ` set d"
    using keeps_latestD(2) [OF assms] by (simp_all add: dict_get_None)
  have step: "keep_latest d h = d @ [(slot_of h, h)]"
    by (simp only: keep_latest_def None option.case dict_set_fresh [OF fresh(2)])
  show ?thesis unfolding step
  proof (rule keeps_latestI)
    show "dict_ok (d @ [(slot_of h, h)])" using keeps_latestD(1) [OF assms] fresh(2) by simp
    show "set (dict_keys (d @ [(slot_of h, h)])) = slot_of ` set (hints @ [h])" using keeps_latestD(2) [OF assms] by simp
    fix k g assume entry: "(k, g) \<in> set (d @ [(slot_of h, h)])"
    show "g \<in> set (hints @ [h]) \<and> k = slot_of g \<and> (\<forall>f \<in> set (hints @ [h]). slot_of f = k \<longrightarrow> \<not> later f g)"
    proof (cases "(k, g) \<in> set d")
      case True
      note old = keeps_latestD(3) [OF assms True]
      then have "slot_of h \<noteq> k" using fresh(1) by (metis image_eqI)
      with old show ?thesis by simp
    next
      case False
      then have "k = slot_of h" "g = h" using entry by simp_all
      moreover have "\<forall>f \<in> set hints. slot_of f \<noteq> slot_of h" using fresh(1) by (metis image_eqI)
      ultimately show ?thesis using later_irrefl by simp
    qed
  qed
next
  case (Some g)
  note ok = keeps_latestD(1,2) [OF assms]
  have here: "(slot_of h, g) \<in> set d" using Some by (simp only: dict_get_mem [OF ok(1)])
  note g = keeps_latestD(3) [OF assms here]
  have slots: "slot_of ` set (hints @ [h]) = slot_of ` set hints" using g by (simp add: insert_absorb)
  have present: "slot_of h \<in> fst ` set d" using here by (metis fst_conv image_eqI)
  show ?thesis
  proof (cases "later h g")
    case True
    have step: "keep_latest d h = dict_set (slot_of h) h d" by (simp only: keep_latest_def Some option.case True if_True)
    show ?thesis unfolding step
    proof (rule keeps_latestI)
      show "dict_ok (dict_set (slot_of h) h d)" by (rule dict_ok_set [OF ok(1)])
      show "set (dict_keys (dict_set (slot_of h) h d)) = slot_of ` set (hints @ [h])"
        by (simp only: dict_set_present_keys [OF present] ok(2) slots)
      fix k f assume "(k, f) \<in> set (dict_set (slot_of h) h d)"
      then consider "k = slot_of h" "f = h" | "(k, f) \<in> set d" "k \<noteq> slot_of h"
        unfolding dict_set_mem [OF ok(1)] prod.inject fst_conv by blast
      then show "f \<in> set (hints @ [h]) \<and> k = slot_of f \<and> (\<forall>e \<in> set (hints @ [h]). slot_of e = k \<longrightarrow> \<not> later e f)"
      proof cases
        case 1
        then show ?thesis using g later_trans [OF _ True] later_irrefl by auto
      next
        case 2
        then show ?thesis using keeps_latestD(3) [OF assms 2(1)] by simp
      qed
    qed
  next
    case False
    have step: "keep_latest d h = d" by (simp only: keep_latest_def Some option.case False if_False)
    show ?thesis unfolding step
    proof (rule keeps_latestI)
      fix k f assume entry: "(k, f) \<in> set d"
      have "k = slot_of h \<Longrightarrow> f = g" using entry Some dict_get_mem [OF ok(1), of k f] by simp
      then show "f \<in> set (hints @ [h]) \<and> k = slot_of f \<and> (\<forall>e \<in> set (hints @ [h]). slot_of e = k \<longrightarrow> \<not> later e f)"
        using keeps_latestD(3) [OF assms entry] False by auto
    qed (use ok slots in simp_all)
  qed
qed

lemma keep_latest_all: "keeps_latest hints (foldl keep_latest [] hints)"
  by (induction hints rule: rev_induct) (simp_all add: keep_latest_step, simp add: keeps_latest_def)

text \<open>
  C35. Retention keeps one hint for every source search and observed move, and it is a latest one:
  no observation of the same slot has a larger sequence number, or the same number and a later time;
  the kept hints are in the order of phase, owner, instance, search, move, rank and sequence.
\<close>

theorem retained_hints_exact:
  "set (retain_latest hints) \<subseteq> set hints \<and> distinct (map slot_of (retain_latest hints)) \<and>
   slot_of ` set (retain_latest hints) = slot_of ` set hints \<and>
   (\<forall>h \<in> set (retain_latest hints). \<forall>g \<in> set hints. slot_of g = slot_of h \<longrightarrow> \<not> later g h) \<and>
   sorted (map hint_key (retain_latest hints))"
proof -
  let ?d = "foldl keep_latest [] hints"
  have all: "keeps_latest hints ?d" by (rule keep_latest_all)
  have slots: "map slot_of (map snd ?d) = map fst ?d"
    unfolding map_map by (rule map_cong [OF refl]) (metis all comp_apply keeps_latestD(3) prod.collapse)
  have "mset (map slot_of (retain_latest hints)) = mset (map slot_of (map snd ?d))" by (simp add: retain_latest_def comp_def multiset.map_comp)
  then have "distinct (map slot_of (retain_latest hints)) = distinct (map slot_of (map snd ?d))" by (rule mset_eq_imp_distinct_iff)
  moreover have "dict_ok ?d" "set (dict_keys ?d) = slot_of ` set hints" by (rule keeps_latestD [OF all])+
  moreover have "slot_of ` set (retain_latest hints) = set (map slot_of (map snd ?d))" by (simp add: retain_latest_def image_image)
  ultimately have first: "distinct (map slot_of (retain_latest hints))"
      "slot_of ` set (retain_latest hints) = slot_of ` set hints"
    by (simp_all only: slots)
  have kept: "h \<in> set hints \<and> (\<forall>g \<in> set hints. slot_of g = slot_of h \<longrightarrow> \<not> later g h)" if "h \<in> set (retain_latest hints)" for h
  proof -
    have "h \<in> snd ` set ?d" using that by (simp add: retain_latest_def)
    then obtain k where "(k, h) \<in> set ?d" by (metis imageE prod.collapse)
    then show ?thesis using keeps_latestD(3) [OF all, of k h] by simp
  qed
  have "sorted (map hint_key (retain_latest hints))" by (simp add: retain_latest_def)
  then show ?thesis using first kept by (intro conjI ballI impI subsetI) blast+
qed

section \<open>Reading the events of an adapter\<close>

text \<open>The numbers of a parsed line that enter a hint.\<close>

definition fed_numbers :: "parsed \<Rightarrow> int list" where
  "fed_numbers p =
     (case dict_get p ''score'' of Some (PDict s) \<Rightarrow> (case dict_get s ''value'' of Some (PInt i) \<Rightarrow> [i] | _ \<Rightarrow> []) | _ \<Rightarrow> []) @
     (case dict_get p ''wdl'' of Some (PList [PInt w, PInt d, PInt l]) \<Rightarrow> [w, d, l, w + d + l] | _ \<Rightarrow> []) @
     (case dict_get p ''nodes'' of Some (PInt i) \<Rightarrow> [i] | _ \<Rightarrow> [])"

definition in_range :: "int list \<Rightarrow> bool" where
  "in_range ns \<longleftrightarrow> list_all (\<lambda>i. float_of_int i \<noteq> None) ns"

lemma in_range_simps [simp]:
  "in_range []" "in_range (i # ns) \<longleftrightarrow> float_of_int i \<noteq> None \<and> in_range ns" "in_range (ms @ ns) \<longleftrightarrow> in_range ms \<and> in_range ns"
  by (simp_all add: in_range_def)

lemma float_of_int_finite: "float_of_int i = Some x \<Longrightarrow> f_finite x"
  by (simp add: float_of_int_def Let_def split: if_splits)

text \<open>From the two to the power of 1024 on an integer has no float.\<close>

lemma float_of_int_overflow: "2 ^ 1024 \<le> i \<Longrightarrow> float_of_int i = None"
proof -
  have "(2::rat) powi 1024 = of_int (2 ^ 1024)" using powi_is_int [of 1024] by simp
  then have "round64 (of_int (2 ^ 1024)) = (of_int (2 ^ 1024) :: rat)"
    using round64_exact [of "of_int (2 ^ 1024)" 1 1024] by simp
  moreover assume "2 ^ 1024 \<le> i"
  then have "(of_int (2 ^ 1024) :: rat) \<le> of_int i" by (simp only: of_int_le_iff)
  then have "round64 (of_int (2 ^ 1024)) \<le> round64 (of_int i)" by (rule round64_mono)
  moreover have "max_double < of_int (2 ^ 1024)" by (simp add: max_double_def)
  ultimately have "max_double < round64 (of_int i)" by simp
  then show "float_of_int i = None" by (simp add: float_of_int_def of_rat64_def Let_def)
qed

lemma finite_int:
  "finite_number (Some (PInt i)) label = (if float_of_int i = None then Inl NumberOverflow else Inr (PInt i))"
  using float_of_int_finite [of i] by (auto simp: finite_number_def split: option.splits)

lemma optional_int:
  "dict_get d k = Some (PInt i) \<Longrightarrow> optional_number d k = (if float_of_int i = None then Inl NumberOverflow else Inr (PInt i))"
  by (simp add: optional_number_def finite_int)

lemma rmap_append: "rmap f (xs @ ys) = rbind (rmap f xs) (\<lambda>a. rbind (rmap f ys) (\<lambda>b. Inr (a @ b)))"
  by (induction xs) (auto simp: rbind_def split: sum.splits)

text \<open>A list of records that is read if its numbers are in range, and overflows otherwise.\<close>

definition reads :: "('a \<Rightarrow> feed_error + 'b) \<Rightarrow> 'a list \<Rightarrow> bool \<Rightarrow> bool" where
  "reads f xs fit \<longleftrightarrow> (if fit then \<exists>ys. rmap f xs = Inr ys else rmap f xs = Inl NumberOverflow)"

lemma reads_append: "reads f xs a \<Longrightarrow> reads f ys b \<Longrightarrow> reads f (xs @ ys) (a \<and> b)"
  by (cases a; cases b) (auto simp: reads_def rmap_append)

lemma reads_Nil: "reads f [] True"
  by (simp add: reads_def)

lemma reads_score:
  assumes "parsed_ok line p" "score_evaluation f p = Inr xs"
  shows "reads evaluation_from_payload xs
    (in_range (case dict_get p ''score'' of Some (PDict s) \<Rightarrow> (case dict_get s ''value'' of Some (PInt i) \<Rightarrow> [i] | _ \<Rightarrow> []) | _ \<Rightarrow> []))"
proof (cases "dict_get p ''score''")
  case None
  then show ?thesis using assms(2) by (simp add: score_evaluation_def reads_Nil)
next
  case (Some v)
  then obtain k i b where v: "v = score_entry k i b" "k \<in> {''cp'', ''mate''}"
    using assms(1) by (auto simp: parsed_ok_def shown_score_def)
  obtain shown semantics where sem: "score_semantics f k = Inr (shown, semantics)" "shown \<noteq> []" "semantics \<noteq> []"
    using v(2) by (cases f) auto
  have xs: "xs = [PDict [(''kind'', PStr shown), (''value'', PInt i), (''bound'', PStr b), (''perspective'', PStr ''unknown''),
      (''semantics'', PStr semantics)]]"
    using assms(2) Some v sem(1) by (simp add: score_evaluation_def score_entry_def)
  show ?thesis
    using sem(2,3) by (simp add: xs Some v(1) score_entry_def reads_def evaluation_from_payload_def nonempty_text_def
        number_keys_def optional_number_def finite_int)
qed

lemma reads_wdl:
  "reads evaluation_from_payload (wdl_evaluation f p)
    (in_range (case dict_get p ''wdl'' of Some (PList [PInt w, PInt d, PInt l]) \<Rightarrow> [w, d, l, w + d + l] | _ \<Rightarrow> []))"
proof (cases "\<exists>w d l. dict_get p ''wdl'' = Some (PList [PInt w, PInt d, PInt l])")
  case True
  then obtain w d l where "dict_get p ''wdl'' = Some (PList [PInt w, PInt d, PInt l])" by blast
  then show ?thesis
    by (simp add: wdl_evaluation_def reads_def evaluation_from_payload_def nonempty_text_def number_keys_def
        optional_number_def finite_int)
next
  case False
  then have "wdl_evaluation f p = []"
      "(case dict_get p ''wdl'' of Some (PList [PInt w, PInt d, PInt l]) \<Rightarrow> [w, d, l, w + d + l] | _ \<Rightarrow> []) = []"
    by (auto simp: wdl_evaluation_def split: option.split pyval.split list.split)
  then show ?thesis by (simp add: reads_Nil)
qed

lemma reads_work:
  assumes "parsed_ok line p"
  shows "\<exists>ws. list_or_empty (work_entry f p) ''work'' WorkArray = Inr ws \<and>
    reads work_from_payload ws (in_range (case dict_get p ''nodes'' of Some (PInt i) \<Rightarrow> [i] | _ \<Rightarrow> []))"
proof (cases "dict_get p ''nodes''")
  case None
  then show ?thesis by (simp add: work_entry_def list_or_empty_def reads_Nil)
next
  case (Some v)
  then obtain i where v: "v = PInt i" using assms by (auto simp: parsed_ok_def shown_ints_def)
  have "nodes_unit f \<noteq> []" by (cases f) simp_all
  then show ?thesis
    by (simp add: work_entry_def Some v list_or_empty_def reads_def work_from_payload_def nonempty_text_def finite_int)
qed

lemma feed_move_text: "uci_move t \<Longrightarrow> feed_move (Some (PStr t)) label = Inr t"
  using canonical_move_fixed [of t] by (auto simp: feed_move_def canonical_move_def split: if_splits)

lemma feed_moves_text: "list_all uci_move ts \<Longrightarrow> rmap (\<lambda>v. feed_move (Some v) label) (map PStr ts) = Inr ts"
  by (induction ts) (simp_all add: feed_move_text)

lemma text_moves: "list_all uci_move ts \<Longrightarrow> rmap (\<lambda>t. text_move t label) ts = Inr ts"
  by (induction ts) (simp_all add: text_move_def feed_move_text)

text \<open>The evaluations and the work of a candidate event are read together, or one of their numbers overflows.\<close>

lemma reads_event:
  assumes "parsed_ok line p" "score_evaluation f p = Inr xs" "list_or_empty (work_entry f p) ''work'' WorkArray = Inr ws"
    "reads work_from_payload ws (in_range (case dict_get p ''nodes'' of Some (PInt i) \<Rightarrow> [i] | _ \<Rightarrow> []))"
  shows "(in_range (fed_numbers p) \<longrightarrow> (\<exists>es. rmap evaluation_from_payload (xs @ wdl_evaluation f p) = Inr es) \<and>
      (\<exists>us. rmap work_from_payload ws = Inr us)) \<and>
    (\<not> in_range (fed_numbers p) \<longrightarrow> rmap evaluation_from_payload (xs @ wdl_evaluation f p) = Inl NumberOverflow \<or>
      (\<exists>es. rmap evaluation_from_payload (xs @ wdl_evaluation f p) = Inr es) \<and> rmap work_from_payload ws = Inl NumberOverflow)"
  using reads_append [OF reads_score [OF assms(1,2)] reads_wdl [of f p]] assms(4)
  unfolding reads_def fed_numbers_def in_range_simps by argo

lemma work_of_event:
  assumes "\<forall>k v. dict_get payload k = Some v \<longrightarrow> dict_get e k = Some v"
    "\<forall>k. k \<notin> set common_event_keys \<longrightarrow> dict_get payload k = None \<longrightarrow> dict_get e k = None"
    "dict_get payload ''work'' = dict_get (work_entry f p) ''work''"
  shows "list_or_empty e ''work'' WorkArray = list_or_empty (work_entry f p) ''work'' WorkArray"
proof -
  have "dict_get e ''work'' = dict_get payload ''work''"
    using assms(1,2) by (cases "dict_get payload ''work''") (auto simp: common_event_keys_def)
  then show ?thesis using assms(3) by (simp add: list_or_empty_def)
qed

definition evaluations_field :: "pyval list \<Rightarrow> event" where
  "evaluations_field xs = (if xs = [] then [] else [(''evaluations'', PList xs)])"

lemma list_or_empty_evaluations:
  "list_or_empty ([(''multipv_index'', r), (''move'', m), (''pv'', v)] @ evaluations_field xs) ''evaluations'' EvaluationArray = Inr xs"
  by (simp add: evaluations_field_def list_or_empty_def)

text \<open>
  C36. The events of an engine adapter can be read back: an info line with a principal variation becomes
  one candidate update, and the extraction reads from it the hint with that variation, the rank, the
  search and the sequence number, provided that the numbers of the line are in the range of a float; otherwise it raises
  the overflow of \<open>float\<close>, which the telemetry before it has let through.
\<close>

theorem adapter_hints_extract:
  assumes "open_at A observed" "tm_identity (ad_stream A) = \<lparr>si_engine = engine_name (ad_family A), si_engine_instance = inst,
      si_search_id = search, si_position_id = pos, si_variant = variant\<rparr>"
    and "0 \<le> tm_sequence (ad_stream A) + 1" "inst \<noteq> []" "search \<noteq> []" "run_id \<noteq> []"
    and "prefix ''info'' line" "parse_info_line line = Inr p" "dict_get p ''pv'' = Some (PList (map PStr (mv # pv)))"
    and "rank_of (ad_family A) p = Some rank" "1 \<le> rank"
  shows "\<exists>A' e. base_consume A line observed = (A', Inr [e]) \<and> event_type_of e = ''candidate.update'' \<and>
    (let r = extract_hint e (payload_move e) (engine_name (ad_family A)) inst (engine_name (ad_family A)) ''VERIFY'' disp run_id False
     in if in_range (fed_numbers p) then (\<exists>h. r = Inr (Some h) \<and> ch_move h = mv \<and> ch_observed h = mv \<and> ch_pv h = mv # pv \<and>
        ch_rank h = Some rank \<and> ch_search h = search \<and> ch_sequence h = tm_sequence (ad_stream A) + 1)
      else r = Inl NumberOverflow)"
proof -
  let ?f = "ad_family A"
  have ok: "parsed_ok line p" by (rule parse_info_line_ok [OF assms(8)])
  obtain xs where xs: "score_evaluation ?f p = Inr xs" using score_evaluation_total [OF ok] by blast
  obtain ws where ws: "list_or_empty (work_entry ?f p) ''work'' WorkArray = Inr ws"
      "reads work_from_payload ws (in_range (case dict_get p ''nodes'' of Some (PInt i) \<Rightarrow> [i] | _ \<Rightarrow> []))"
    using reads_work [OF ok] by blast
  let ?evs = "xs @ wdl_evaluation ?f p"
  let ?payload = "candidate_payload ?f p rank (PStr mv) (map PStr pv) ?evs"
  define c where "c = [(''multipv_index'', PInt rank), (''move'', PStr mv), (''pv'', PList (map PStr (mv # pv)))] @ evaluations_field ?evs"
  have keys: "dict_ok ?payload" "set common_event_keys \<inter> set (dict_keys ?payload) = {}"
      "dict_get ?payload ''work'' = dict_get (work_entry ?f p) ''work''" "dict_get ?payload ''candidate'' = Some (PDict c)"
    by (auto simp: candidate_payload_def info_native_def native_entry_def work_entry_def time_entry_def common_event_keys_def
        evaluations_field_def c_def split: option.splits)
  obtain A' e where step: "one_event (on_stream A (stream_emit (ad_stream A) ''candidate.update'' observed ?payload)) = (A', Inr [e])"
      and type: "event_type_of e = ''candidate.update''"
      and found: "\<forall>k v. dict_get ?payload k = Some v \<longrightarrow> dict_get e k = Some v"
      and absent: "\<forall>k. k \<notin> set common_event_keys \<longrightarrow> dict_get ?payload k = None \<longrightarrow> dict_get e k = None"
      and fields: "dict_get e ''search_id'' = Some (PStr search)" "dict_get e ''engine'' = Some (PStr (engine_name ?f))"
        "dict_get e ''engine_instance'' = Some (PStr inst)"
        "dict_get e ''sequence'' = Some (PInt (tm_sequence (ad_stream A) + 1))" "dict_get e ''observed_ms'' = Some observed"
    using emit_returns [OF assms(1) _ keys(1,2), of "''candidate.update''"] assms(2) by auto
  have consumed: "base_consume A line observed = (A', Inr [e])"
    using step assms(1,7,8,9,10,11) xs by (auto simp: base_consume_def candidate_event_def open_at_def)
  have moves: "list_all uci_move (mv # pv)"
    using ok assms(9) by (force simp: parsed_ok_def shown_pv_def)
  have dict_get_move: "dict_get c ''move'' = Some (PStr mv)" by (simp add: c_def)
  have object: "candidate_object e = Inr c" "payload_move e = Some (PStr mv)" "dict_get e ''event_type'' = Some (PStr ''candidate.update'')"
    using found keys(4) type dict_get_move
    by (auto simp: candidate_object_def payload_move_def event_type_of_def split: option.splits pyval.splits if_splits)
  have work: "list_or_empty e ''work'' WorkArray = Inr ws"
    using work_of_event [OF found absent keys(3)] ws(1) by simp
  obtain x where time: "observed_float e = Inr x" "finite_number (Some (PFloat x)) ''observed_ms'' = Inr (PFloat x)"
    using assms(1) fields(5)
    by (auto simp: open_at_def validate_observed_def observed_float_def finite_number_def split: option.splits if_splits)
  have known: "engine_name ?f \<in> set owner_order" by (cases ?f) (simp_all add: owner_order_def)
  have parts: "list_or_empty c ''evaluations'' EvaluationArray = Inr ?evs"
      "list_or_empty c ''pv'' PvArray = Inr (map PStr (mv # pv))" "rank_value c = Inr (Some rank)"
      "feed_move (dict_get c ''move'') ''candidate.move'' = Inr mv" "sequence_value e = Inr (tm_sequence (ad_stream A) + 1)"
      "nonempty_text e ''search_id'' = Inr search"
    using assms(3,5,11) moves fields
    unfolding c_def list_or_empty_evaluations
    by (simp_all add: list_or_empty_def rank_value_def feed_move_text sequence_value_def nonempty_text_def)
  define made where "made es us = \<lparr>ch_move = mv, ch_observed = mv, ch_owner = engine_name ?f, ch_instance = inst,
      ch_family = engine_name ?f, ch_phase = ''VERIFY'', ch_rank = Some rank, ch_pv = mv # pv, ch_evaluations = es, ch_work = us,
      ch_search = search, ch_run = run_id, ch_sequence = tm_sequence (ad_stream A) + 1, ch_time = x, ch_disposition = disp\<rparr>" for es us
  have single: "text_move mv label = Inr mv" "feed_move (Some (PStr mv)) label = Inr mv" for label
    using moves by (simp_all add: text_move_def feed_move_text)
  have checked: "check_hint (made es us) = Inr (made es us)" for es us
    using text_moves [OF moves, of "''pv_prefix''"] single known assms(3,4,5,6,11) time(2)
    by (simp add: made_def check_hint_def phase_order_def del: rmap.simps)
  have "extract_hint e (payload_move e) (engine_name ?f) inst (engine_name ?f) ''VERIFY'' disp run_id False =
      rbind (rmap evaluation_from_payload ?evs) (\<lambda>es. rbind (rmap work_from_payload ws) (\<lambda>us. Inr (Some (made es us))))"
    by (simp add: extract_hint_def object fields parts work time(1) feed_moves_text [OF moves] single checked [unfolded made_def]
        made_def del: list.map rmap.simps)
  then show ?thesis
    using consumed type reads_event [OF ok xs ws] by (cases "in_range (fed_numbers p)") (auto simp: made_def)
qed

section \<open>Concrete hints\<close>

definition sample_hint :: "int \<Rightarrow> candidate_hint" where
  "sample_hint n = \<lparr>ch_move = ''e2e4'', ch_observed = ''e2e4'', ch_owner = ''stockfish'', ch_instance = ''sf-0'',
     ch_family = ''stockfish'', ch_phase = ''VERIFY'', ch_rank = Some 1, ch_pv = [''e2e4''], ch_evaluations = [], ch_work = [],
     ch_search = ''s1'', ch_run = ''run'', ch_sequence = n, ch_time = Fin 0, ch_disposition = ''completed''\<rparr>"

theorem retained_hints_exact_witness:
  "retain_latest [sample_hint 1, sample_hint 3, sample_hint 2] = [sample_hint 3] \<and> \<not> later (sample_hint 2) (sample_hint 3)"
proof -
  note exact = retained_hints_exact [of "[sample_hint 1, sample_hint 3, sample_hint 2]"]
  have "retain_latest [sample_hint 1, sample_hint 3, sample_hint 2] = [sample_hint 3]"
    by (simp add: retain_latest_def keep_latest_def slot_of_def later_def sample_hint_def)
  with exact show ?thesis by (simp add: slot_of_def sample_hint_def)
qed

theorem adapter_hints_extract_witness:
  "\<exists>A' e h. base_consume sample_open ''info depth 5 multipv 1 nodes 100 score cp 20 pv e2e4 e7e5'' (PInt 3) = (A', Inr [e]) \<and>
    extract_hint e (payload_move e) ''stockfish'' ''sf-0'' ''stockfish'' ''VERIFY'' ''running'' ''run'' False = Inr (Some h) \<and>
    ch_move h = ''e2e4'' \<and> ch_pv h = [''e2e4'', ''e7e5'']"
proof -
  let ?line = "''info depth 5 multipv 1 nodes 100 score cp 20 pv e2e4 e7e5''"
  have parts: "open_at sample_open (PInt 3)" "ad_family sample_open = Stockfish"
      "tm_identity (ad_stream sample_open) = \<lparr>si_engine = engine_name Stockfish, si_engine_instance = ''sf-0'',
        si_search_id = ''s1'', si_position_id = ''p1'', si_variant = ''standard''\<rparr>" "0 \<le> tm_sequence (ad_stream sample_open) + 1"
    by (simp_all add: open_at_def sample_open_def sample_adapter_def adapter_eval)
  have "map_sum id (\<lambda>p. (dict_get p ''pv'', dict_get p ''multipv'', in_range (fed_numbers p))) (parse_info_line ?line) =
      Inr (Some (PList (map PStr [''e2e4'', ''e7e5''])), Some (PInt 1), True)" by code_simp
  then obtain p where p: "parse_info_line ?line = Inr p" "dict_get p ''pv'' = Some (PList (map PStr [''e2e4'', ''e7e5'']))"
      "dict_get p ''multipv'' = Some (PInt 1)" "in_range (fed_numbers p)"
    by (cases "parse_info_line ?line") auto
  have "rank_of (ad_family sample_open) p = Some 1" by (simp add: rank_of_def p(3) parts(2))
  from adapter_hints_extract [OF parts(1) parts(3) [folded parts(2)] parts(4) _ _ _ _ p(1,2) this, of "''run''" "''running''"] p(4)
  show ?thesis by (auto simp: Let_def parts(2) prefix_def)
qed

end
