(* ===== verification/StreamLaws.thy ===== *)
theory StreamLaws
  imports StreamWriter UciLaws "HOL-Library.Multiset"
begin

text \<open>
  Laws of the telemetry writer: when its counters say that nothing is pending or lost, the live view
  is exactly the translation of every line that was offered; and the windows in which the
  counters say so although something was lost.
\<close>

section \<open>The translation of a list of items\<close>

fun translate_item :: "(string \<Rightarrow> pyval option) \<Rightarrow> factory \<Rightarrow> item \<Rightarrow> adapter option \<times> event list \<Rightarrow> adapter option \<times> event list" where
  "translate_item loads f (Begin search pos request controller observed) (A, es) =
     (case f search of
        Inl e \<Rightarrow> (A, es)
      | Inr B \<Rightarrow> (case adapter_start B pos request observed controller of
          (B', Inl e) \<Rightarrow> (A, es) | (B', Inr e) \<Rightarrow> (Some B', es @ [e])))"
| "translate_item loads f (Line line observed) (A, es) =
     (case A of
        None \<Rightarrow> (A, es)
      | Some B \<Rightarrow> if tm_completed (ad_stream B) then (A, es)
          else (case consume loads B line observed of
            (B', Inl e) \<Rightarrow> (Some B', es) | (B', Inr l) \<Rightarrow> (Some B', es @ l)))"
| "translate_item loads f Sentinel w = w"

definition translation :: "(string \<Rightarrow> pyval option) \<Rightarrow> factory \<Rightarrow> item list \<Rightarrow> adapter option \<times> event list" where
  "translation loads f xs = fold (translate_item loads f) xs (None, [])"

lemma translation_snoc: "translation loads f (xs @ [x]) = translate_item loads f x (translation loads f xs)"
  by (simp add: translation_def)

section \<open>The view\<close>

text \<open>The writer with the items offered to it while it was open, and those it has queued.\<close>

definition put_items :: "writer \<Rightarrow> writer_op \<Rightarrow> item list" where
  "put_items W x = (case x of
     WPublish n \<Rightarrow> if n < length (wr_offered W) \<and> length (wr_queue W) < queue_maxsize then [wr_offered W ! n] else []
   | _ \<Rightarrow> [])"

definition offered_items :: "writer \<Rightarrow> writer_op \<Rightarrow> item list" where
  "offered_items W x = (case x of WOffer y \<Rightarrow> if y = Sentinel \<or> wr_closed W then [] else [y] | _ \<Rightarrow> [])"

type_synonym traced = "writer \<times> item list \<times> item list"

fun traced_step :: "(string \<Rightarrow> pyval option) \<Rightarrow> traced \<Rightarrow> writer_op \<Rightarrow> traced \<times> (writer_error + unit)" where
  "traced_step loads (W, offs, puts) x =
     (case writer_step loads W x of (W', r) \<Rightarrow> ((W', offs @ offered_items W x, puts @ put_items W x), r))"

definition items_of :: "item list \<Rightarrow> item list" where
  "items_of xs = filter (\<lambda>x. x \<noteq> Sentinel) xs"

definition healthy :: "writer \<Rightarrow> bool" where
  "healthy W \<longleftrightarrow> \<not> evidence_lossy W \<and> (\<forall>e. wr_thread W \<noteq> Raised e)"

definition viewed :: "(string \<Rightarrow> pyval option) \<Rightarrow> writer \<Rightarrow> item list \<Rightarrow> bool" where
  "viewed loads W done_items \<longleftrightarrow>
     (case wr_factory W of
        None \<Rightarrow> done_items = [] \<and> wr_adapter W = None \<and> wr_events W = [] \<and> \<not> wr_truncated W
      | Some f \<Rightarrow> wr_adapter W = fst (translation loads f done_items) \<and>
          wr_events W = take tracked_limit (snd (translation loads f done_items)) \<and>
          (wr_truncated W \<longleftrightarrow> tracked_limit < length (snd (translation loads f done_items))))"

definition writer_inv :: "(string \<Rightarrow> pyval option) \<Rightarrow> traced \<Rightarrow> bool" where
  "writer_inv loads t \<longleftrightarrow> (case t of (W, offs, puts) \<Rightarrow>
     wr_track W \<and> 0 \<le> wr_dropped W \<and> (wr_abandoned W \<longrightarrow> wr_errors W \<noteq> []) \<and> Sentinel \<notin> set (wr_offered W) \<and>
     (healthy W \<longrightarrow> mset offs = mset puts + mset (wr_offered W) \<and>
        wr_enqueued W - wr_applied W = int (length (wr_offered W)) + int (length (items_of (wr_queue W))) \<and>
        (wr_enqueued W = 0 \<and> wr_applied W = 0 \<longrightarrow> puts = []) \<and> 0 \<le> wr_applied W \<and>
        (\<exists>done_items. puts = done_items @ items_of (wr_queue W) \<and> viewed loads W done_items \<and>
           int (length done_items) = wr_applied W)))"

lemma add_error_fields [simp]:
  "wr_track (add_error e W) = wr_track W" "wr_dropped (add_error e W) = wr_dropped W"
  "wr_offered (add_error e W) = wr_offered W" "wr_thread (add_error e W) = wr_thread W"
  "wr_abandoned (add_error e W) = wr_abandoned W" "wr_queue (add_error e W) = wr_queue W"
  "wr_errors (add_error e W) \<noteq> []" "wr_enqueued (add_error e W) = wr_enqueued W"
  "wr_applied (add_error e W) = wr_applied W" "wr_closed (add_error e W) = wr_closed W"
  by (auto simp: add_error_def error_limit_def)

lemma unhealthy [simp]: "\<not> healthy (add_error e W)"
  by (simp add: healthy_def evidence_lossy_def)

lemma write_event_frame:
  "write_event stored e W = (W', res) \<Longrightarrow> wr_track W' = wr_track W \<and> wr_dropped W' = wr_dropped W \<and> wr_offered W' = wr_offered W \<and>
     wr_abandoned W' = wr_abandoned W \<and> wr_errors W' = wr_errors W \<and> wr_queue W' = wr_queue W \<and> wr_enqueued W' = wr_enqueued W \<and>
     wr_applied W' = wr_applied W \<and> wr_factory W' = wr_factory W \<and> wr_adapter W' = wr_adapter W"
  by (auto simp: write_event_def Let_def split: if_splits)

lemma write_events_frame:
  "write_events stored es W = (W', res) \<Longrightarrow> wr_track W' = wr_track W \<and> wr_dropped W' = wr_dropped W \<and> wr_offered W' = wr_offered W \<and>
     wr_abandoned W' = wr_abandoned W \<and> wr_errors W' = wr_errors W \<and> wr_queue W' = wr_queue W \<and> wr_enqueued W' = wr_enqueued W \<and>
     wr_applied W' = wr_applied W \<and> wr_factory W' = wr_factory W \<and> wr_adapter W' = wr_adapter W"
proof (induction es arbitrary: W)
  case (Cons e es)
  then show ?case
    by (auto split: prod.splits option.splits dest!: write_event_frame)
qed simp

text \<open>Writing appends to the view, up to its limit.\<close>

definition seen :: "writer \<Rightarrow> event list \<Rightarrow> bool" where
  "seen W es \<longleftrightarrow> wr_events W = take tracked_limit es \<and> (wr_truncated W \<longleftrightarrow> tracked_limit < length es)"

lemma write_event_seen:
  assumes "write_event stored e W = (W', None)" "seen W es" "wr_track W" "\<not> wr_abandoned W"
  shows "seen W' (es @ [e])"
  using assms by (auto simp: write_event_def seen_def Let_def split: if_splits)

lemma write_events_seen:
  "write_events stored xs W = (W', None) \<Longrightarrow> seen W es \<Longrightarrow> wr_track W \<Longrightarrow> \<not> wr_abandoned W \<Longrightarrow> seen W' (es @ xs)"
proof (induction xs arbitrary: W es)
  case (Cons e xs)
  obtain W1 where w: "write_event stored e W = (W1, None)" "write_events stored xs W1 = (W', None)"
    using Cons.prems(1) by (auto split: prod.splits option.splits)
  have "seen W1 (es @ [e])" "wr_track W1" "\<not> wr_abandoned W1"
    using write_event_seen [OF w(1) Cons.prems(2-4)] write_event_frame [OF w(1)] Cons.prems(3,4) by auto
  with Cons.IH [OF w(2)] show ?case by fastforce
qed simp

lemma apply_item_frame:
  "apply_item loads stored x W = (W', res) \<Longrightarrow> wr_track W' = wr_track W \<and> wr_dropped W' = wr_dropped W \<and> wr_offered W' = wr_offered W \<and>
     wr_abandoned W' = wr_abandoned W \<and> wr_queue W' = wr_queue W \<and> wr_enqueued W' = wr_enqueued W \<and>
     wr_applied W' = wr_applied W \<and> wr_factory W' = wr_factory W \<and> (wr_errors W \<noteq> [] \<longrightarrow> wr_errors W' \<noteq> [])"
  by (cases x) (auto simp: Let_def add_error_def split: option.splits sum.splits prod.splits if_splits
    dest!: write_event_frame write_events_frame)

text \<open>An item that is applied without an error extends the view by its translation.\<close>

lemma seen_frame [simp]: "seen (W\<lparr>wr_adapter := A\<rparr>) es = seen W es" "seen (W\<lparr>wr_search_ids := ids\<rparr>) es = seen W es"
    "seen (W\<lparr>wr_post_complete := n\<rparr>) es = seen W es"
  by (simp_all add: seen_def)

lemma apply_item_viewed:
  assumes "apply_item loads stored x W = (W', None)" "wr_errors W' = []" "viewed loads W xs" "wr_track W" "\<not> wr_abandoned W"
    "x \<noteq> Sentinel"
  shows "viewed loads W' (xs @ [x])"
proof (cases "wr_factory W")
  case None
  then show ?thesis using assms by (cases x) (auto simp: viewed_def split: option.splits prod.splits sum.splits)
next
  case (Some f)
  obtain A0 es0 where now: "translation loads f xs = (A0, es0)" by fastforce
  then have before: "wr_adapter W = A0" "seen W es0"
    using assms(3) Some by (auto simp: viewed_def seen_def)
  have factory: "wr_factory W' = Some f" using apply_item_frame [OF assms(1)] Some by simp
  have goal: "viewed loads W' (xs @ [x])" if "translate_item loads f x (A0, es0) = (A1, es1)" "wr_adapter W' = A1" "seen W' es1" for A1 es1
    using that factory by (simp add: viewed_def translation_snoc now seen_def)
  show ?thesis
  proof (cases x)
    case (Begin search pos request controller observed)
    obtain B B' e where made: "f search = Inr B" "adapter_start B pos request observed controller = (B', Inr e)"
        "write_event stored e (W\<lparr>wr_adapter := Some B', wr_search_ids := wr_search_ids W @ [search]\<rparr>) = (W', None)"
      using assms(1) Some Begin by (auto split: sum.splits prod.splits)
    have "seen W' (es0 @ [e])" using write_event_seen [OF made(3), of es0] before assms(4,5) by simp
    then show ?thesis using made write_event_frame [OF made(3)] by (intro goal) (simp_all add: Begin)
  next
    case (Line line observed)
    have "A0 \<noteq> None" using assms(1,2) before Line by (auto split: option.splits)
    then obtain B where B: "A0 = Some B" by blast
    show ?thesis
    proof (cases "tm_completed (ad_stream B)")
      case True
      then show ?thesis using assms(1) before B by (intro goal [of "Some B" es0]) (auto simp: Line)
    next
      case False
      obtain B' l where made: "consume loads B line observed = (B', Inr l)" "write_events stored l (W\<lparr>wr_adapter := Some B'\<rparr>) = (W', None)"
        using assms(1,2) before B False by (auto simp: Line Let_def split: sum.splits prod.splits if_splits)
      have "seen W' (es0 @ l)" using write_events_seen [OF made(2), of es0] before assms(4,5) by simp
      then show ?thesis using made write_events_frame [OF made(2)] False by (intro goal) (simp_all add: Line B)
    qed
  qed (use assms(6) in simp)
qed

lemma viewed_frame:
  assumes "wr_factory W' = wr_factory W" "wr_adapter W' = wr_adapter W" "wr_events W' = wr_events W" "wr_truncated W' = wr_truncated W"
  shows "viewed loads W' xs = viewed loads W xs"
  using assms by (cases "wr_factory W") (simp_all add: viewed_def)

lemma take_item_cases:
  obtains "take_item loads stored W = W"
  | "take_item loads stored W = W\<lparr>wr_thread := Ended\<rparr>" "wr_thread W = Waiting"
  | rest where "wr_queue W = Sentinel # rest" "take_item loads stored W = W\<lparr>wr_queue := rest, wr_thread := Ended\<rparr>"
      "wr_thread W = Waiting"
  | x rest W1 res where "wr_thread W = Waiting" "wr_queue W = x # rest" "x \<noteq> Sentinel"
      "apply_item loads stored x (W\<lparr>wr_queue := rest\<rparr>) = (W1, res)"
      "take_item loads stored W = W1\<lparr>wr_applied := wr_applied W1 + 1,
         wr_thread := (case res of None \<Rightarrow> Waiting | Some e \<Rightarrow> Raised e)\<rparr>"
proof (cases "wr_thread W = Waiting")
  case False
  show ?thesis by (rule that(1)) (simp add: take_item_def False)
next
  case waiting: True
  show ?thesis
  proof (cases "wr_queue W")
    case Nil
    show ?thesis
    proof (cases "wr_stopping W")
      case True
      show ?thesis by (rule that(2)) (simp_all add: take_item_def waiting Nil True)
    next
      case False
      show ?thesis by (rule that(1)) (simp add: take_item_def waiting Nil False)
    qed
  next
    case (Cons x rest)
    obtain W1 res where applied: "apply_item loads stored x (W\<lparr>wr_queue := rest\<rparr>) = (W1, res)" by fastforce
    show ?thesis
    proof (cases "x = Sentinel")
      case True
      show ?thesis by (rule that(3) [of rest]) (simp_all add: take_item_def waiting Cons True)
    next
      case False
      have "take_item loads stored W = W1\<lparr>wr_applied := wr_applied W1 + 1,
         wr_thread := (case res of None \<Rightarrow> Waiting | Some e \<Rightarrow> Raised e)\<rparr>"
        using waiting Cons applied False by (cases x) (simp_all add: take_item_def)
      then show ?thesis using waiting Cons applied False that(4) by blast
    qed
  qed
qed

text \<open>The invariant only looks at these fields.\<close>

lemma writer_inv_frame:
  assumes "writer_inv loads (W, offs, puts)" "wr_track W' = wr_track W" "wr_dropped W' = wr_dropped W" "wr_errors W' = wr_errors W"
    "wr_abandoned W' = wr_abandoned W" "wr_offered W' = wr_offered W" "items_of (wr_queue W') = items_of (wr_queue W)"
    "wr_enqueued W' = wr_enqueued W" "wr_applied W' = wr_applied W" "wr_factory W' = wr_factory W" "wr_adapter W' = wr_adapter W"
    "wr_events W' = wr_events W" "wr_truncated W' = wr_truncated W" "healthy W' \<Longrightarrow> healthy W"
  shows "writer_inv loads (W', offs, puts)"
  using assms viewed_frame [of W' W loads] unfolding writer_inv_def by auto

text \<open>An operation that leaves evidence of a loss needs only the bookkeeping.\<close>

lemma writer_inv_lossy:
  assumes "writer_inv loads (W, offs, puts)" "\<not> healthy W'" "wr_track W'" "0 \<le> wr_dropped W'"
    "wr_abandoned W' \<longrightarrow> wr_errors W' \<noteq> []" "Sentinel \<notin> set (wr_offered W')"
  shows "writer_inv loads (W', offs', puts')"
  using assms unfolding writer_inv_def by auto

lemma take_item_inv:
  assumes inv: "writer_inv loads (W, offs, puts)"
  shows "writer_inv loads (take_item loads stored W, offs, puts)"
proof (cases rule: take_item_cases [of loads stored W])
  case 1
  with inv show ?thesis by simp
next
  case 2
  with 2(2) show ?thesis unfolding 2(1) by (intro writer_inv_frame [OF inv]) (auto simp: healthy_def evidence_lossy_def)
next
  case (3 rest)
  with 3(1,3) show ?thesis unfolding 3(2) by (intro writer_inv_frame [OF inv]) (auto simp: healthy_def evidence_lossy_def items_of_def)
next
  case (4 x rest W1 res)
  let ?W = "W1\<lparr>wr_applied := wr_applied W1 + 1, wr_thread := (case res of None \<Rightarrow> Waiting | Some e \<Rightarrow> Raised e)\<rparr>"
  have frame: "wr_track W1 = wr_track W" "wr_dropped W1 = wr_dropped W" "wr_offered W1 = wr_offered W" "wr_abandoned W1 = wr_abandoned W"
      "wr_queue W1 = rest" "wr_enqueued W1 = wr_enqueued W" "wr_applied W1 = wr_applied W" "wr_factory W1 = wr_factory W"
      "wr_errors W \<noteq> [] \<Longrightarrow> wr_errors W1 \<noteq> []"
    using apply_item_frame [OF 4(4)] by auto
  have base: "wr_track W" "0 \<le> wr_dropped W" "wr_abandoned W \<longrightarrow> wr_errors W \<noteq> []" "Sentinel \<notin> set (wr_offered W)"
    using inv by (auto simp: writer_inv_def)
  show ?thesis
  proof (cases "res = None \<and> wr_errors W1 = [] \<and> wr_dropped W1 = 0")
    case True
    then have healthy: "healthy W" using frame base 4(1) by (auto simp: healthy_def evidence_lossy_def)
    then obtain done_items where known: "mset offs = mset puts + mset (wr_offered W)"
        "wr_enqueued W - wr_applied W = int (length (wr_offered W)) + int (length (items_of (wr_queue W)))" "0 \<le> wr_applied W"
        "puts = done_items @ items_of (wr_queue W)" "viewed loads W done_items" "int (length done_items) = wr_applied W"
      using inv by (auto simp: writer_inv_def)
    have abandoned: "\<not> wr_abandoned W" using healthy base by (auto simp: healthy_def evidence_lossy_def)
    have "viewed loads W1 (done_items @ [x])"
      using True abandoned base known(5) 4(3,4) by (intro apply_item_viewed [of loads stored x "W\<lparr>wr_queue := rest\<rparr>"])
        (auto simp: viewed_frame [of "W\<lparr>wr_queue := rest\<rparr>" W])
    then have "viewed loads ?W (done_items @ [x])" by (subst viewed_frame [of _ W1]) simp_all
    moreover have "puts = (done_items @ [x]) @ items_of (wr_queue ?W)"
      using known(4) 4(2,3) frame by (simp add: items_of_def)
    ultimately show ?thesis unfolding 4(5) using known base frame 4(2,3)
      by (auto simp: writer_inv_def items_of_def intro!: exI [of _ "done_items @ [x]"])
  next
    case False
    then have "\<not> healthy ?W" using frame base by (cases res) (auto simp: healthy_def evidence_lossy_def)
    then show ?thesis unfolding 4(5) using base frame by (intro writer_inv_lossy [OF inv]) auto
  qed
qed

lemma bind_inv:
  assumes inv: "writer_inv loads (W, offs, puts)"
  shows "writer_inv loads (fst (bind_prepared path f W), offs, puts)"
proof (cases "snd (bind_prepared path f W) = Inr ()")
  case True
  then have W': "fst (bind_prepared path f W) = W\<lparr>wr_path := path, wr_factory := Some f\<rparr>" "wr_factory W = None"
      "wr_enqueued W = 0" "wr_applied W = 0"
    by (auto simp: bind_prepared_def split: if_splits)
  have "viewed loads (W\<lparr>wr_path := path, wr_factory := Some f\<rparr>) []" if "viewed loads W xs" for xs
    using that W'(2) by (simp add: viewed_def translation_def)
  then show ?thesis using inv unfolding W'(1) writer_inv_def
    by (auto simp: W'(2-4) healthy_def evidence_lossy_def)
next
  case False
  then have "fst (bind_prepared path f W) = W" by (auto simp: bind_prepared_def split: if_splits)
  with inv show ?thesis by simp
qed

lemma offer_inv:
  assumes inv: "writer_inv loads (W, offs, puts)" "x \<noteq> Sentinel" "\<not> wr_closed W"
  shows "writer_inv loads (offer x W, offs @ [x], puts)"
proof -
  have healthy: "healthy (offer x W) = healthy W" by (simp add: offer_def healthy_def evidence_lossy_def)
  have view: "viewed loads (offer x W) xs = viewed loads W xs" for xs by (rule viewed_frame) (simp_all add: offer_def)
  show ?thesis using assms unfolding writer_inv_def prod.case healthy view
    by (auto simp: offer_def)
qed

lemma mset_take_drop: "n < length xs \<Longrightarrow> mset (take n xs @ drop (Suc n) xs) + {#xs ! n#} = mset xs"
  using arg_cong [OF id_take_nth_drop [of n xs], of mset] by simp

lemma publish_inv:
  assumes inv: "writer_inv loads (W, offs, puts)"
  shows "writer_inv loads (publish n W, offs, puts @ put_items W (WPublish n))"
proof (cases "n < length (wr_offered W)")
  case False
  with inv show ?thesis by (simp add: publish_def put_items_def)
next
  case True
  define rest where "rest = take n (wr_offered W) @ drop (Suc n) (wr_offered W)"
  have rest: "mset rest + {#wr_offered W ! n#} = mset (wr_offered W)" "length (wr_offered W) = Suc (length rest)"
    using mset_take_drop [OF True] True by (auto simp: rest_def)
  have sub: "set rest \<subseteq> set (wr_offered W)"
    unfolding rest_def using set_take_subset set_drop_subset by fastforce
  have no: "Sentinel \<notin> set (wr_offered W) \<Longrightarrow> Sentinel \<notin> set rest \<and> wr_offered W ! n \<noteq> Sentinel"
    using sub nth_mem [OF True] by auto
  show ?thesis
  proof (cases "queue_maxsize \<le> length (wr_queue W)")
    case full: True
    have W': "publish n W = W\<lparr>wr_offered := rest, wr_enqueued := wr_enqueued W - 1, wr_dropped := wr_dropped W + 1\<rparr>"
      using True full by (simp add: publish_def rest_def Let_def)
    show ?thesis unfolding W' using inv no
      by (intro writer_inv_lossy [OF inv]) (auto simp: writer_inv_def healthy_def evidence_lossy_def)
  next
    case False
    have W': "publish n W = W\<lparr>wr_offered := rest, wr_queue := wr_queue W @ [wr_offered W ! n],
        wr_peak := max (wr_peak W) (Suc (length (wr_queue W)))\<rparr>" (is "_ = ?W")
      using True False by (simp add: publish_def rest_def Let_def)
    have healthy: "healthy ?W = healthy W" by (simp add: healthy_def evidence_lossy_def)
    have view: "viewed loads ?W xs = viewed loads W xs" for xs by (rule viewed_frame) simp_all
    have puts: "put_items W (WPublish n) = [wr_offered W ! n]" using True False by (simp add: put_items_def)
    show ?thesis using inv no rest unfolding W' puts writer_inv_def prod.case healthy view
      by (auto simp: items_of_def rest(1) [symmetric])
  qed
qed

lemma lossy_ops_inv:
  assumes inv: "writer_inv loads (W, offs, puts)"
  shows "writer_inv loads (record_error W, offs, puts)" "writer_inv loads (close_timeout W, offs, puts)"
    "writer_inv loads (note_loss reason W, offs, puts)" "writer_inv loads (close_begin W, offs, puts)"
proof -
  have base: "wr_track W" "0 \<le> wr_dropped W" "Sentinel \<notin> set (wr_offered W)"
    using inv by (auto simp: writer_inv_def)
  show "writer_inv loads (record_error W, offs, puts)"
  proof (cases "\<exists>e. wr_thread W = Raised e")
    case True
    then show ?thesis using base
      by (intro writer_inv_lossy [OF inv]) (auto simp: record_error_def healthy_def evidence_lossy_def)
  next
    case False
    then have "record_error W = W" by (auto simp: record_error_def split: writer_thread.split)
    with inv show ?thesis by simp
  qed
  show "writer_inv loads (close_timeout W, offs, puts)"
  proof (cases "\<not> wr_closed W \<or> wr_thread W = Ended")
    case True
    with inv show ?thesis by (simp add: close_timeout_def)
  next
    case False
    then show ?thesis using base
      by (intro writer_inv_lossy [OF inv]) (auto simp: close_timeout_def healthy_def evidence_lossy_def Let_def)
  qed
  show "writer_inv loads (note_loss reason W, offs, puts)"
    using base by (intro writer_inv_lossy [OF inv]) (auto simp: note_loss_def)
  show "writer_inv loads (close_begin W, offs, puts)"
    by (rule writer_inv_frame [OF inv])
      (auto simp: close_begin_def Let_def items_of_def healthy_def evidence_lossy_def split: if_splits)
qed

lemma traced_inv: "writer_inv loads t \<Longrightarrow> writer_inv loads (fst (traced_step loads t x))"
proof -
  assume inv: "writer_inv loads t"
  obtain W offs puts where t: "t = (W, offs, puts)" by (cases t)
  note base = inv [unfolded t]
  show ?thesis
  proof (cases x)
    case (WBind path f)
    then show ?thesis using bind_inv [OF base, of path f]
      by (cases "bind_prepared path f W") (simp add: t offered_items_def put_items_def)
  next
    case (WOffer y)
    then show ?thesis using base offer_inv [OF base, of y]
      by (cases "y = Sentinel \<or> wr_closed W") (auto simp: t offered_items_def put_items_def offer_def)
  next
    case (WPublish n)
    then show ?thesis using publish_inv [OF base, of n] by (simp add: t offered_items_def)
  qed (use lossy_ops_inv [OF base] take_item_inv [OF base] in \<open>simp_all add: t offered_items_def put_items_def\<close>)
qed

interpretation writers: machine "traced_step loads" "writer_inv loads" for loads
  by unfold_locales (rule traced_inv)

lemma new_writer_inv: "writer_inv loads (new_writer path f True, [], [])"
  by (cases f) (auto simp: writer_inv_def new_writer_def healthy_def evidence_lossy_def items_of_def viewed_def translation_def)

text \<open>
  C31. The live view is faithful: whenever the counters of a tracked stream say that nothing is pending,
  lost or truncated, and no error waits to be recorded, the view holds exactly the events into
  which all the lines offered so far translate, in the order in which they were queued.
\<close>

theorem live_view_faithful:
  assumes "run (traced_step loads) (new_writer path factory True, [], []) xs = (W, offs, puts)"
    and "pending_events W = 0" "\<not> evidence_lossy W" "\<not> wr_truncated W" "\<forall>e. wr_thread W \<noteq> Raised e"
  shows "mset puts = mset offs \<and> items_of (wr_queue W) = [] \<and>
    (case wr_factory W of None \<Rightarrow> offs = [] \<and> wr_events W = [] | Some f \<Rightarrow> wr_events W = snd (translation loads f puts))"
proof -
  have inv: "writer_inv loads (W, offs, puts)"
    using writers.run_inv [OF new_writer_inv [of loads path factory], of xs] assms(1) by simp
  have "healthy W" using assms(3,5) by (simp add: healthy_def)
  then obtain done_items where known: "mset offs = mset puts + mset (wr_offered W)"
      "wr_enqueued W - wr_applied W = int (length (wr_offered W)) + int (length (items_of (wr_queue W)))"
      "puts = done_items @ items_of (wr_queue W)" "viewed loads W done_items"
    using inv by (auto simp: writer_inv_def)
  have "int (length (wr_offered W)) + int (length (items_of (wr_queue W))) = 0"
    using known(2) assms(2) by (simp add: pending_events_def)
  then have "length (wr_offered W) = 0" "length (items_of (wr_queue W)) = 0" by linarith+
  then have "wr_offered W = []" "items_of (wr_queue W) = []" by simp_all
  with known assms(4) show ?thesis
    by (cases "wr_factory W") (auto simp: viewed_def)
qed

section \<open>What the counters do not show\<close>

text \<open>
  Two windows in which a loss does not show.  The count of applied items moves before an error of the
  translation is recorded, so in between nothing is pending and nothing lossy although the first event of
  the search was not written.  And an item that is counted before the stream closes but queued behind the
  end mark is never applied: the closed stream, its search completed, still passes as valid evidence.
\<close>

definition sample_factory :: factory where
  "sample_factory search = new_adapter Stockfish search ''sf-0'' ''p1'' ''standard''"

definition failed_write :: "writer_op list" where
  "failed_write = [WOffer (Begin ''s1'' PNone PNone None (PInt 0)), WPublish 0, WTake False]"

definition late_item :: "writer_op list" where
  "late_item = [WOffer (Begin ''s1'' PNone PNone None (PInt 0)), WPublish 0, WTake True,
     WOffer (Line ''bestmove e2e4'' (PInt 1)), WPublish 0, WTake True,
     WOffer (Begin ''s2'' PNone PNone None (PInt 2)), WClose, WPublish 0, WTake True]"

lemmas writer_eval = new_writer_def sample_factory_def offer_def publish_def take_item_def queue_maxsize_def tracked_limit_def
  write_event_def new_adapter_def close_begin_def

lemma writer_loss_windows:
  "(let W = run (writer_step (\<lambda>_. None)) (new_writer ''p'' (Some sample_factory) True) failed_write in
     pending_events W = 0 \<and> \<not> evidence_lossy W \<and> \<not> wr_truncated W \<and> wr_events W = [] \<and>
     snd (translation (\<lambda>_. None) sample_factory [Begin ''s1'' PNone PNone None (PInt 0)]) \<noteq> [] \<and>
     evidence_lossy (record_error W)) \<and>
   (let W = run (writer_step (\<lambda>_. None)) (new_writer ''p'' (Some sample_factory) True) late_item in
     wr_closed W \<and> wr_thread W = Ended \<and> contract_validatable W \<and> \<not> evidence_lossy W \<and>
     wr_queue W = [Begin ''s2'' PNone PNone None (PInt 2)] \<and> pending_events W = 1 \<and> length (wr_events W) = 2)"
  by (simp add: failed_write_def late_item_def writer_eval adapter_eval sample_bestmove pending_events_def evidence_lossy_def
      record_error_def add_error_def error_limit_def contract_validatable_def writer_completed_def translation_def write_event_def)

definition whole_search :: "writer_op list" where
  "whole_search = [WOffer (Begin ''s1'' PNone PNone None (PInt 0)), WOffer (Line ''bestmove e2e4'' (PInt 1)), WPublish 0,
     WTake True, WPublish 0, WTake True]"

theorem live_view_faithful_witness:
  "\<exists>W. run (traced_step (\<lambda>_. None)) (new_writer ''p'' (Some sample_factory) True, [], []) whole_search =
     (W, [Begin ''s1'' PNone PNone None (PInt 0), Line ''bestmove e2e4'' (PInt 1)],
       [Begin ''s1'' PNone PNone None (PInt 0), Line ''bestmove e2e4'' (PInt 1)]) \<and>
     wr_events W = snd (translation (\<lambda>_. None) sample_factory
       [Begin ''s1'' PNone PNone None (PInt 0), Line ''bestmove e2e4'' (PInt 1)])"
proof -
  let ?items = "[Begin ''s1'' PNone PNone None (PInt 0), Line ''bestmove e2e4'' (PInt 1)]"
  obtain W offs puts where run: "run (traced_step (\<lambda>_. None)) (new_writer ''p'' (Some sample_factory) True, [], []) whole_search =
      (W, offs, puts)"
    by (metis prod_cases3)
  then have ran: "offs = ?items" "puts = ?items" "pending_events W = 0" "\<not> evidence_lossy W" "\<not> wr_truncated W"
      "wr_thread W = Waiting" "wr_factory W = Some sample_factory"
    by (auto simp: whole_search_def writer_eval adapter_eval sample_bestmove pending_events_def evidence_lossy_def
        offered_items_def put_items_def sample_adapter_def)
  with live_view_faithful [OF run ran(3-5)] run show ?thesis by auto
qed

end
