(* ===== verification/ProposalLaws.thy ===== *)
theory ProposalLaws
  imports FeedLaws StreamLaws
begin

text \<open>
  From the runs of a move to the proposal: what a proposed move says of the verification run and of
  the streams on which its evidence rests.
\<close>

section \<open>The faults of a harvest\<close>

definition owner_faults :: "verification_run \<Rightarrow> store \<Rightarrow> string \<Rightarrow> string list" where
  "owner_faults R st owner = (case verify_stage_of R owner of
     None \<Rightarrow> [''VERIFY stage missing for '' @ owner]
   | Some g \<Rightarrow> (case verify_stream R (vg_instance g) of
       None \<Rightarrow> [''VERIFY stream missing for '' @ owner]
     | Some handle \<Rightarrow> stream_faults (st handle) ''VERIFY'' owner))"

definition participates :: "verification_run \<Rightarrow> string \<Rightarrow> bool" where
  "participates R owner \<longleftrightarrow> (\<forall>g. verify_stage_of R owner = Some g \<longrightarrow>
     vg_family g = owner \<and> dict_get (vp_participants (vn_plan R)) owner = Some (vg_instance g))"

lemma verify_harvest_faults:
  "verify_harvest R st roots run_id w owner = Inr w' \<Longrightarrow> snd w' = snd w @ owner_faults R st owner \<and> participates R owner"
  by (auto simp: verify_harvest_def owner_faults_def participates_def rbind_eq_Inr split: option.splits)

lemma verify_harvests_faults:
  "rfold (verify_harvest R st roots run_id) w owners = Inr w' \<Longrightarrow>
    snd w' = snd w @ concat (map (owner_faults R st) owners) \<and> (\<forall>owner \<in> set owners. participates R owner)"
proof (induction owners arbitrary: w)
  case (Cons owner owners)
  then show ?case using verify_harvest_faults [of R st roots run_id w owner] by (fastforce simp: rbind_eq_Inr)
qed simp

lemma rfold_grows:
  assumes "\<And>w x w'. f w x = Inr w' \<Longrightarrow> prefix (g w) (g w')"
  shows "rfold f w xs = Inr w' \<Longrightarrow> prefix (g w) (g w')"
proof (induction xs arbitrary: w)
  case (Cons x xs)
  then obtain w1 where "f w x = Inr w1" "rfold f w1 xs = Inr w'" by (auto simp: rbind_eq_Inr)
  then show ?case using assms [of w x w1] Cons.IH [of w1] by (simp add: prefix_order.trans)
qed simp

lemma refinement_harvest_grows: "refinement_harvest F st p roots run_id w = Inr w' \<Longrightarrow> prefix (snd w) (snd w')"
proof -
  have one: "refine_harvest F st run_id root_move c k w owner = Inr w' \<Longrightarrow> prefix (snd w) (snd w')" for root_move c k w w' owner
    by (auto simp: refine_harvest_def rbind_eq_Inr split: option.splits)
  have "target_harvest F st owners roots run_id w kc = Inr w' \<Longrightarrow> prefix (snd w) (snd w')" for owners w w' kc
    by (auto simp: target_harvest_def rbind_eq_Inr Let_def intro: rfold_grows [of _ snd] one)
  then show "refinement_harvest F st p roots run_id w = Inr w' \<Longrightarrow> prefix (snd w) (snd w')"
    unfolding refinement_harvest_def rbind_eq_Inr by (metis rfold_grows)
qed

section \<open>The parts of a view\<close>

lemma build_view_parts:
  assumes "build_view run_id generation pos R F st = Inr v"
  shows "\<exists>owners w hints faults. vp_owners (vn_plan R) = owner_order \<and>
    rfold (add_nominee (vn_plan R)) [] owner_order = Inr owners \<and>
    rfold (verify_harvest R st (dict_keys owners) run_id) ([], []) owner_order = Inr w \<and> prefix (snd w) faults \<and>
    (\<exists>candidates. rmap (view_candidate owners hints) candidates = Inr (fv_candidates v) \<and>
      set candidates = set (dict_keys owners)) \<and>
    fv_complete v = verification_complete R faults \<and> fv_faults v = sorted_texts faults \<and> fv_run v = run_id"
proof -
  let ?p = "vn_plan R"
  obtain candidates owners w w' shown where parts:
    "vp_owners ?p = owner_order" "rfold (add_nominee ?p) [] (vp_owners ?p) = Inr owners" "set (dict_keys owners) = set candidates"
    "rfold (verify_harvest R st (dict_keys owners) run_id) ([], []) (vp_owners ?p) = Inr w"
    "(case F of None \<Rightarrow> Inr w | Some f \<Rightarrow> refinement_harvest f st ?p (dict_keys owners) run_id w) = Inr w'"
    "rmap (view_candidate owners (retain_latest (fst w'))) candidates = Inr shown"
    "check_view \<lparr>fv_run = run_id, fv_generation = generation, fv_position = pos, fv_policy = feed_policy,
       fv_verification = vp_id ?p, fv_verification_disposition = vn_disposition R,
       fv_complete = verification_complete R (snd w'),
       fv_refinement = map_option (\<lambda>f. fp_id (rn_plan f)) F,
       fv_refinement_disposition = (case F of None \<Rightarrow> ''absent'' | Some f \<Rightarrow> rn_disposition f),
       fv_candidates = shown, fv_faults = sorted_texts (snd w')\<rparr> = Inr v"
    using assms unfolding build_view_def Let_def rbind_ensure_eq_Inr
    by (auto simp: rbind_eq_Inr case_prod_beta)
  have v: "fv_candidates v = shown" "fv_complete v = verification_complete R (snd w')" "fv_faults v = sorted_texts (snd w')"
      "fv_run v = run_id"
    using parts(7) by (auto simp: check_view_def)
  have "prefix (snd w) (snd w')"
    using parts(5) refinement_harvest_grows by (cases F) auto
  then show ?thesis using parts v by (intro exI [of _ owners] exI [of _ w] exI [of _ "retain_latest (fst w')"] exI [of _ "snd w'"]) auto
qed

lemma add_nominee_owner:
  assumes "rfold (add_nominee p) [] ks = Inr owners"
  shows "dict_get owners mv = Some owner \<Longrightarrow> owner \<in> set ks \<and> (\<exists>t. dict_get (vp_nominees p) owner = Some t \<and> py_lower t = mv)"
proof -
  define ok where "ok d ks \<longleftrightarrow> (\<forall>mv owner. dict_get d mv = Some owner \<longrightarrow> owner \<in> set ks \<and>
    (\<exists>t. dict_get (vp_nominees p) owner = Some t \<and> py_lower t = mv))" for d ks
  have step: "add_nominee p d owner = Inr d' \<Longrightarrow> ok d ks \<Longrightarrow> ok d' (ks @ [owner])" for d d' ks owner
    by (auto simp: ok_def add_nominee_def feed_move_def rbind_eq_Inr split: option.splits pyval.splits if_splits)
  have "rfold (add_nominee p) d ks' = Inr owners \<Longrightarrow> ok d ks \<Longrightarrow> ok owners (ks @ ks')" for d ks ks'
  proof (induction ks' arbitrary: d ks)
    case (Cons owner ks')
    then obtain d' where d': "add_nominee p d owner = Inr d'" "rfold (add_nominee p) d' ks' = Inr owners" by (auto simp: rbind_eq_Inr)
    from Cons.IH [OF d'(2) step [OF d'(1) Cons.prems(2)]] show ?case by simp
  qed simp
  from this [of "[]" ks "[]"] assms have "ok owners ks" by (simp add: ok_def)
  then show "dict_get owners mv = Some owner \<Longrightarrow> owner \<in> set ks \<and>
      (\<exists>t. dict_get (vp_nominees p) owner = Some t \<and> py_lower t = mv)" by (simp add: ok_def)
qed

lemma sorted_texts_Nil [simp]: "sorted_texts xs = [] \<longleftrightarrow> xs = []"
  by (metis set_empty set_remdups set_sort sorted_texts_def)

section \<open>The evidence of the runs\<close>

lemma evidence_parts:
  assumes "evidence_of_runs run_id generation pos R F st = Inr e"
  shows "\<exists>v t. build_view run_id generation pos R F st = Inr v \<and> terminal_evidence_from_run R = Inr t \<and>
    de_terminal e = t \<and> de_run e = fv_run v \<and> de_feed_complete e = fv_complete v \<and>
    de_candidates e = map (\<lambda>c. \<lparr>dc_move = fc_move c, dc_owner = fc_owner c\<rparr>) (fv_candidates v) \<and>
    de_faults e = sorted_texts (fv_faults v @ vt_faults t) \<and> evidence_ok e"
proof -
  obtain v t where v: "build_view run_id generation pos R F st = Inr v" and t: "terminal_evidence_from_run R = Inr t"
    and e: "build_decision_evidence v t = Inr e"
    using assms by (auto simp: evidence_of_runs_def rbind_eq_Inr map_sum_def split: sum.splits)
  obtain digest candidates where c: "rmap (\<lambda>c. check_candidate \<lparr>dc_move = fc_move c, dc_owner = fc_owner c\<rparr>) (fv_candidates v) = Inr candidates"
    and e': "check_decision_evidence \<lparr>de_version = evidence_version, de_run = fv_run v, de_generation = fv_generation v,
       de_position = fv_position v, de_feed_policy = fv_policy v, de_feed_digest = digest,
       de_feed_complete = fv_complete v, de_candidates = candidates, de_terminal = t,
       de_faults = sorted_texts (fv_faults v @ vt_faults t)\<rparr> = Inr e"
    using e by (auto simp: build_decision_evidence_def rbind_eq_Inr)
  have same: "check_candidate x = Inr y \<Longrightarrow> y = x" for x y by (auto simp: check_candidate_def rbind_eq_Inr)
  have all: "list_all2 (\<lambda>c y. check_candidate \<lparr>dc_move = fc_move c, dc_owner = fc_owner c\<rparr> = Inr y) (fv_candidates v) candidates"
    using c by (simp add: rmap_eq_Inr)
  then have candidates: "candidates = map (\<lambda>c. \<lparr>dc_move = fc_move c, dc_owner = fc_owner c\<rparr>) (fv_candidates v)"
    by (induction rule: list_all2_induct) (auto dest: same)
  have checked: "list_all (\<lambda>c. check_candidate c = Inr c) candidates"
    using all by (induction rule: list_all2_induct) (auto dest: same)
  have eq: "e = \<lparr>de_version = evidence_version, de_run = fv_run v, de_generation = fv_generation v,
       de_position = fv_position v, de_feed_policy = fv_policy v, de_feed_digest = digest,
       de_feed_complete = fv_complete v, de_candidates = candidates, de_terminal = t,
       de_faults = sorted_texts (fv_faults v @ vt_faults t)\<rparr>"
    using e' by (auto simp: check_decision_evidence_def Let_def)
  have checked_terminal: "check_terminal t = Inr t"
    using t by (auto simp: terminal_evidence_from_run_def check_terminal_def rbind_eq_Inr Let_def)
  have "evidence_ok e" using e' checked checked_terminal by (simp add: evidence_ok_def eq)
  then show ?thesis using v t candidates by (simp add: eq)
qed

lemma no_faults:
  assumes "owner_faults R st owner = []" "participates R owner"
  shows "\<exists>g handle. verify_stage_of R owner = Some g \<and> vg_family g = owner \<and>
    dict_get (vp_participants (vn_plan R)) owner = Some (vg_instance g) \<and>
    verify_stream R (vg_instance g) = Some handle \<and> \<not> evidence_lossy (st handle) \<and> \<not> wr_truncated (st handle)"
  using assms by (auto simp: owner_faults_def participates_def stream_faults_def split: option.splits if_splits)

lemma terminal_parts:
  assumes "terminal_evidence_from_run R = Inr t"
  shows "vt_roots t = vp_roots (vn_plan R)" "vt_finals t = map (\<lambda>owner. (owner, terminal_final R owner)) owner_order"
    "vt_complete t \<Longrightarrow> vn_disposition R = ''completed'' \<and> (\<forall>owner \<in> set owner_order. terminal_disposition R owner = ''completed'')"
  using assms by (auto simp: terminal_evidence_from_run_def check_terminal_def rbind_eq_Inr Let_def list_all_iff)

lemma view_candidates_owners:
  assumes "rmap (view_candidate owners hints) candidates = Inr cs"
  shows "map (\<lambda>c. (fc_move c, fc_owner c)) cs = map (\<lambda>mv. (mv, the (dict_get owners mv))) candidates"
proof -
  have "list_all2 (\<lambda>mv c. view_candidate owners hints mv = Inr c) candidates cs" using assms by (simp add: rmap_eq_Inr)
  moreover have "view_candidate owners hints mv = Inr c \<Longrightarrow> fc_move c = mv \<and> fc_owner c = the (dict_get owners mv)" for mv c
    by (auto simp: view_candidate_def check_feed_candidate_def rbind_eq_Inr)
  ultimately show ?thesis by (induction rule: list_all2_induct) simp_all
qed

text \<open>
  C37. A proposal rests on what happened: when the evidence composed from the runs of a move leads the
  policy to propose a move, then the verification completed, all three verifiers completed with this move as their
  best move, each on the process that the plan gave it and on a registered stream without loss or
  truncation, and the owner named as its source nominated the move.
\<close>

theorem proposal_from_runs:
  assumes "evidence_of_runs run_id generation pos R F st = Inr e"
    and "evaluate_decision_policy e policy = Inr v" "ev_move v = Some mv"
  shows "evidence_ok e \<and> de_run e = run_id \<and> vn_disposition R = ''completed'' \<and> mv \<in> set (vp_roots (vn_plan R)) \<and>
    (\<exists>source t. ev_source v = Some source \<and> dict_get (vp_nominees (vn_plan R)) source = Some t \<and> py_lower t = mv) \<and>
    (\<forall>owner \<in> set owner_order. \<exists>g handle. verify_stage_of R owner = Some g \<and> vg_family g = owner \<and>
      vg_disposition g = ''completed'' \<and> vg_bestmove g = Some mv \<and>
      dict_get (vp_participants (vn_plan R)) owner = Some (vg_instance g) \<and>
      verify_stream R (vg_instance g) = Some handle \<and> \<not> evidence_lossy (st handle) \<and> \<not> wr_truncated (st handle))"
proof -
  obtain view t where view: "build_view run_id generation pos R F st = Inr view" and t: "terminal_evidence_from_run R = Inr t"
    and e: "de_terminal e = t" "de_run e = fv_run view" "de_feed_complete e = fv_complete view"
      "de_candidates e = map (\<lambda>c. \<lparr>dc_move = fc_move c, dc_owner = fc_owner c\<rparr>) (fv_candidates view)"
      "de_faults e = sorted_texts (fv_faults view @ vt_faults t)" "evidence_ok e"
    using evidence_parts [OF assms(1)] by blast
  have policy: "policy = unanimous_policy" by (rule evaluate_policy_name [OF assms(2)])
  obtain digest where digest: "evidence_digest e = Inr digest"
    using assms(2) by (auto simp: evaluate_decision_policy_def rbind_eq_Inr Let_def)
  have v: "ev_source v = dict_get (candidate_owners e) mv" "sound_evidence e" "unanimous_on (vt_finals t) (vt_roots t) mv"
    using evaluate_decision_eq [OF e(6) digest] assms(2,3) e(1) by (auto simp: policy)
  obtain owners w hints faults candidates where parts: "rfold (add_nominee (vn_plan R)) [] owner_order = Inr owners"
      "rfold (verify_harvest R st (dict_keys owners) run_id) ([], []) owner_order = Inr w" "prefix (snd w) faults"
      "rmap (view_candidate owners hints) candidates = Inr (fv_candidates view)" "set candidates = set (dict_keys owners)"
      "fv_faults view = sorted_texts faults" "fv_run view = run_id"
    using build_view_parts [OF view] by blast
  have "faults = []" using v(2) e(5) parts(6) by (simp add: sound_evidence_def)
  then have "snd w = []" using parts(3) by simp
  then have clean: "\<forall>owner \<in> set owner_order. owner_faults R st owner = [] \<and> participates R owner"
    using verify_harvests_faults [OF parts(2)] by simp
  have "vt_complete t" using v(2) e(1) by (simp add: sound_evidence_def)
  note terminal = terminal_parts(1,2) [OF t] terminal_parts(3) [OF t this]
  have finals: "\<forall>owner \<in> set owner_order. terminal_final R owner = Some mv"
    using v(3) by (simp add: terminal(2) unanimous_on_def owner_order_def numeral_3_eq_3)
  have stages: "\<exists>g handle. verify_stage_of R owner = Some g \<and> vg_family g = owner \<and>
      vg_disposition g = ''completed'' \<and> vg_bestmove g = Some mv \<and>
      dict_get (vp_participants (vn_plan R)) owner = Some (vg_instance g) \<and>
      verify_stream R (vg_instance g) = Some handle \<and> \<not> evidence_lossy (st handle) \<and> \<not> wr_truncated (st handle)"
    if known: "owner \<in> set owner_order" for owner
  proof -
    have "terminal_final R owner = Some mv" "terminal_disposition R owner = ''completed''"
      using known finals terminal(3) by blast+
    then show ?thesis
      using no_faults [of R st owner] clean known by (auto simp: terminal_final_def terminal_disposition_def)
  qed
  have root: "mv \<in> set (vt_roots t)" using v(3) by (simp add: unanimous_on_def)
  obtain source where source: "dict_get (candidate_owners e) mv = Some source"
    using evidence_ok_facts(3) [OF e(6)] root e(1) by (auto simp: attributed_def)
  have named: "candidate_owners e = map (\<lambda>mv. (mv, the (dict_get owners mv))) candidates"
  proof -
    have "map dc_move (de_candidates e) = vt_roots t" "distinct (map dc_move (de_candidates e))"
      using e(1,6) by (auto simp: evidence_ok_def check_decision_evidence_def rbind_eq_Inr Let_def)
    then have "candidate_owners e = map (\<lambda>c. (fc_move c, fc_owner c)) (fv_candidates view)"
      unfolding candidate_owners_def by (subst dict_of_pairs_distinct) (simp_all add: e(4) comp_def)
    then show ?thesis by (simp add: view_candidates_owners [OF parts(4)])
  qed
  have "(mv, source) \<in> set (candidate_owners e)" using source by (rule map_of_SomeD)
  then have "mv \<in> set (dict_keys owners)" "source = the (dict_get owners mv)" using parts(5) by (auto simp: named)
  then have "dict_get owners mv = Some source" by (metis dict_get_None list.set_map not_None_eq option.sel)
  from add_nominee_owner [OF parts(1) this] have "\<exists>u. dict_get (vp_nominees (vn_plan R)) source = Some u \<and> py_lower u = mv" by blast
  then show ?thesis
    using stages e(2,6) parts(7) terminal(1,3) root source v(1) by simp
qed

section \<open>A move of three engines\<close>

definition agreed_run :: verification_run where
  "agreed_run = run verify_step (new_verification_run agreed_plan) (engines_ops ''d2d4'' ''d2d4'' ''d2d4'')"

definition quiet_store :: store where
  "quiet_store handle = new_writer ''p'' None True"

definition agreed_view :: feed_view where
  "agreed_view = \<lparr>fv_run = ''run'', fv_generation = 1, fv_position = ''pos'', fv_policy = feed_policy,
     fv_verification = ''run:verify-v1'', fv_verification_disposition = ''completed'', fv_complete = True,
     fv_refinement = None, fv_refinement_disposition = ''absent'',
     fv_candidates = [\<lparr>fc_move = ''e2e4'', fc_owner = ''stockfish'', fc_hints = []\<rparr>,
       \<lparr>fc_move = ''d2d4'', fc_owner = ''reckless'', fc_hints = []\<rparr>,
       \<lparr>fc_move = ''c2c4'', fc_owner = ''lc0'', fc_hints = []\<rparr>], fv_faults = []\<rparr>"

definition agreed_terminal :: terminal_evidence where
  "agreed_terminal = \<lparr>vt_id = ''run:verify-v1'', vt_roots = sample_moves,
     vt_finals = map (\<lambda>owner. (owner, Some ''d2d4'')) owner_order,
     vt_stages = map (\<lambda>owner. (owner, ''completed'')) owner_order, vt_run = ''completed'', vt_complete = True, vt_faults = []\<rparr>"

lemma agreed_view_built: "build_view ''run'' 1 ''pos'' agreed_run None quiet_store = Inr agreed_view"
  by code_simp

lemma agreed_terminal_built: "terminal_evidence_from_run agreed_run = Inr agreed_terminal"
  by code_simp

lemma agreed_evidence:
  obtains e where "evidence_of_runs ''run'' 1 ''pos'' agreed_run None quiet_store = Inr e" "sound_evidence e"
    "de_terminal e = agreed_terminal" "json_ok (evidence_dict e)"
proof -
  have "json_ok (view_dict agreed_view)"
    using small_int_prints by (simp add: agreed_view_def view_dict_def feed_candidate_dict_def opt_text_def)
  then obtain digest where digest: "canonical_digest (view_dict agreed_view) = Inr digest" using digest_returns by blast
  let ?e = "\<lparr>de_version = evidence_version, de_run = ''run'', de_generation = 1, de_position = ''pos'',
     de_feed_policy = feed_policy, de_feed_digest = digest, de_feed_complete = True,
     de_candidates = [\<lparr>dc_move = ''e2e4'', dc_owner = ''stockfish''\<rparr>, \<lparr>dc_move = ''d2d4'', dc_owner = ''reckless''\<rparr>,
       \<lparr>dc_move = ''c2c4'', dc_owner = ''lc0''\<rparr>],
     de_terminal = agreed_terminal, de_faults = sorted_texts []\<rparr>"
  have built: "build_decision_evidence agreed_view agreed_terminal = Inr ?e"
    using digest digest_length [OF digest]
    by (simp add: build_decision_evidence_def agreed_view_def agreed_terminal_def sample_moves_def check_candidate_def canonical_move_fixed
        file_char_def rank_char_def owner_order_def check_decision_evidence_def feed_policy_def del: sorted_texts_Nil)
      (simp add: sorted_texts_def)
  have "json_ok (evidence_dict ?e)"
    using small_int_prints by (simp add: evidence_dict_def terminal_dict_def candidate_dict_def agreed_terminal_def
        dict_of_pairs_def owner_order_def opt_text_def sorted_texts_def list_all_iff)
  moreover have "evidence_of_runs ''run'' 1 ''pos'' agreed_run None quiet_store = Inr ?e"
    by (simp add: evidence_of_runs_def agreed_view_built agreed_terminal_built built)
  ultimately show ?thesis by (intro that) (simp_all add: sound_evidence_def agreed_terminal_def)
qed

theorem proposal_from_runs_witness:
  "\<exists>e v. evidence_of_runs ''run'' 1 ''pos'' agreed_run None quiet_store = Inr e \<and>
     evaluate_decision_policy e unanimous_policy = Inr v \<and> ev_move v = Some ''d2d4'' \<and>
     ''d2d4'' \<in> set (vp_roots (vn_plan agreed_run)) \<and>
     (\<exists>g. verify_stage_of agreed_run ''lc0'' = Some g \<and> vg_bestmove g = Some ''d2d4'')"
proof -
  obtain e where e: "evidence_of_runs ''run'' 1 ''pos'' agreed_run None quiet_store = Inr e" "sound_evidence e"
      "de_terminal e = agreed_terminal" "json_ok (evidence_dict e)"
    by (rule agreed_evidence)
  have ok: "evidence_ok e" using evidence_parts [OF e(1)] by blast
  obtain digest where "evidence_digest e = Inr digest" using e(4) digest_returns by (metis evidence_digest_def)
  from evaluate_decision_eq [OF ok this] obtain v where v: "evaluate_decision_policy e unanimous_policy = Inr v"
      "set_option (ev_move v) = {t. sound_evidence e \<and> unanimous_on (vt_finals agreed_terminal) (vt_roots agreed_terminal) t}"
    unfolding e(3) by blast
  have "unanimous_on (vt_finals agreed_terminal) (vt_roots agreed_terminal) ''d2d4''"
    by (simp add: unanimous_on_def agreed_terminal_def owner_order_def sample_moves_def numeral_3_eq_3)
  then have "''d2d4'' \<in> set_option (ev_move v)" using e(2) by (simp add: v(2))
  then have move: "ev_move v = Some ''d2d4''" by simp
  note rests = proposal_from_runs [OF e(1) v(1) move]
  have "''lc0'' \<in> set owner_order" by (simp add: owner_order_def)
  then show ?thesis using rests e(1) v(1) move by blast
qed

end
