(* ===== verification/PyEqual.thy ===== *)
theory PyEqual
  imports PyVal
begin

text \<open>
  \<open>==\<close> on dynamically typed values, as the comparisons of decoded JSON with a marker need it:
  numbers are compared by value across \<open>bool\<close>, \<open>int\<close> and \<open>float\<close>, lists item by item and dictionaries
  whatever the order of their keys.  A \<open>PObj\<close> equals nothing that the code compares it with.
\<close>

fun as_number :: "pyval \<Rightarrow> pyfloat option" where
  "as_number (PBool b) = Some (Fin (of_bool b))"
| "as_number (PInt i) = Some (Fin (of_int i))"
| "as_number (PFloat x) = Some x"
| "as_number v = None"

definition same_number :: "pyfloat option \<Rightarrow> pyfloat option \<Rightarrow> bool" where
  "same_number x y \<longleftrightarrow> x = y \<and> x \<noteq> None \<and> x \<noteq> Some NaN"

fun py_eq :: "pyval \<Rightarrow> pyval \<Rightarrow> bool" where
  "py_eq PNone w = (w = PNone)"
| "py_eq (PStr s) w = (w = PStr s)"
| "py_eq (PList xs) w = (case w of PList ys \<Rightarrow> list_all2 py_eq xs ys | _ \<Rightarrow> False)"
| "py_eq (PDict d) w = (case w of
     PDict e \<Rightarrow> length d = length e \<and> list_all (\<lambda>(k, x). case map_of e k of None \<Rightarrow> False | Some y \<Rightarrow> py_eq x y) d
   | _ \<Rightarrow> False)"
| "py_eq PObj w = False"
| "py_eq v w = same_number (as_number v) (as_number w)"

text \<open>Values of JSON: no other objects and no NaN; such a value equals itself.\<close>

fun plain :: "pyval \<Rightarrow> bool" where
  "plain PObj = False"
| "plain (PFloat x) = (x \<noteq> NaN)"
| "plain (PList xs) = list_all plain xs"
| "plain (PDict d) = (distinct (map fst d) \<and> list_all (\<lambda>(k, v). plain v) d)"
| "plain v = True"

lemma py_eq_refl: "plain v \<Longrightarrow> py_eq v v"
proof (induction v rule: plain.induct)
  case (3 xs)
  then show ?case by (induction xs) auto
next
  case (4 d)
  then show ?case by (fastforce simp: list_all_iff split: option.splits dest: eq_key_imp_eq_value)
qed (auto simp: same_number_def)

end
