(* ===== verification/Contracts.thy ===== *)
theory Contracts
  imports PyEqual Decision "HOL-Library.Product_Lexorder"
begin

text \<open>
  \<^verbatim>\<open>controller/resource_profiles.py\<close>: the immutable descriptions of engine operating points and of
  the layout of a host.  A constructor takes the values that it validates (\<open>pyval\<close>) and returns the
  record of the normalised values or raises; \<open>_dict\<close> is \<open>as_dict\<close>, \<open>read_\<close> is \<open>from_dict\<close>.
\<close>

section \<open>Identities and numbers\<close>

datatype contract_error =
    NotObject string
  | UnknownKeys string
  | BadText string
  | BadNumber string
  | FloatOverflow string
  | BadChoice string
  | BadList string
  | Duplicated string
  | BadVersion string
  | BadMarker string
  | Mismatched string
  | Exceeded string
  | WrongType string
  | WrongValue string
  | DigestFailed

definition schema_version :: pyval where
  "schema_version = PInt 1"

definition solver_families :: "string list" where
  "solver_families = [''stockfish'', ''reckless'', ''lc0'']"

definition phases :: "string list" where
  "phases = [''EXPLORE'', ''VERIFY'', ''STAGED_VERIFY'', ''REFINE'']"

definition mapping :: "pyval \<Rightarrow> string \<Rightarrow> contract_error + (string \<times> pyval) list" where
  "mapping v label = (case v of PDict d \<Rightarrow> Inr d | _ \<Rightarrow> Inl (NotObject label))"

definition reject_unknown :: "(string \<times> pyval) list \<Rightarrow> string list \<Rightarrow> string \<Rightarrow> contract_error + unit" where
  "reject_unknown d allowed label = ensure (set (dict_keys d) \<subseteq> set allowed) (UnknownKeys label)"

text \<open>\<open>raw.get(key)\<close> and \<open>raw.get(key, default)\<close>.\<close>

definition get_or :: "(string \<times> pyval) list \<Rightarrow> string \<Rightarrow> pyval \<Rightarrow> pyval" where
  "get_or d k dflt = (case dict_get d k of None \<Rightarrow> dflt | Some v \<Rightarrow> v)"

abbreviation get_value :: "(string \<times> pyval) list \<Rightarrow> string \<Rightarrow> pyval" where
  "get_value d k \<equiv> get_or d k PNone"

definition alpha :: "char \<Rightarrow> bool" where
  "alpha c \<longleftrightarrow> (let n = (of_char c :: nat) in (65 \<le> n \<and> n \<le> 90) \<or> (97 \<le> n \<and> n \<le> 122))"

definition alnum :: "char \<Rightarrow> bool" where
  "alnum c \<longleftrightarrow> alpha c \<or> is_digit c"

text \<open>\<open>[A-Za-z0-9][A-Za-z0-9._-]{0,63}\<close> and its like: a first character, then at most \<open>n\<close> others.\<close>

definition name_of :: "(char \<Rightarrow> bool) \<Rightarrow> (char \<Rightarrow> bool) \<Rightarrow> nat \<Rightarrow> string \<Rightarrow> bool" where
  "name_of first rest n s \<longleftrightarrow> (case s of [] \<Rightarrow> False | c # cs \<Rightarrow> first c \<and> length cs \<le> n \<and> list_all rest cs)"

fun split_on :: "char \<Rightarrow> string \<Rightarrow> string list" where
  "split_on c [] = [[]]"
| "split_on c (x # xs) = (if x = c then [] # split_on c xs
     else (case split_on c xs of [] \<Rightarrow> [[x]] | p # ps \<Rightarrow> (x # p) # ps))"

definition safe_text :: "string \<Rightarrow> bool" where
  "safe_text s \<longleftrightarrow> name_of alnum (\<lambda>c. alnum c \<or> c \<in> set ''._/-'') 127 s \<and>
     (CHR ''/'' \<in> set s \<longrightarrow> list_all (\<lambda>part. part \<notin> {'''', ''.'', ''..''}) (split_on (CHR ''/'') s))"

definition safe_id :: "pyval \<Rightarrow> string \<Rightarrow> contract_error + string" where
  "safe_id v label = (case v of PStr s \<Rightarrow> if safe_text s then Inr s else Inl (BadText label) | _ \<Rightarrow> Inl (BadText label))"

definition instance_text :: "string \<Rightarrow> bool" where
  "instance_text s \<longleftrightarrow> name_of alnum (\<lambda>c. alnum c \<or> c \<in> set ''._-'') 63 s"

definition instance_id :: "pyval \<Rightarrow> string \<Rightarrow> contract_error + string" where
  "instance_id v label = (case v of PStr s \<Rightarrow> if instance_text s then Inr s else Inl (BadText label) | _ \<Rightarrow> Inl (BadText label))"

definition environment_text :: "string \<Rightarrow> bool" where
  "environment_text s \<longleftrightarrow> name_of (\<lambda>c. alpha c \<or> c = CHR ''_'') (\<lambda>c. alnum c \<or> c = CHR ''_'') 127 s"

definition environment_name :: "pyval \<Rightarrow> string \<Rightarrow> contract_error + string" where
  "environment_name v label = (case v of
     PStr s \<Rightarrow> if environment_text s then Inr s else Inl (BadText label) | _ \<Rightarrow> Inl (BadText label))"

definition nul_free :: "pyval \<Rightarrow> string \<Rightarrow> contract_error + string" where
  "nul_free v label = (case v of PStr s \<Rightarrow> if CHR 0x00 \<in> set s then Inl (BadText label) else Inr s | _ \<Rightarrow> Inl (BadText label))"

definition nonempty_string :: "pyval \<Rightarrow> string \<Rightarrow> contract_error + string" where
  "nonempty_string v label = (case v of
     PStr s \<Rightarrow> if s = [] \<or> CHR 0x00 \<in> set s then Inl (BadText label) else Inr s | _ \<Rightarrow> Inl (BadText label))"

definition sha256_id :: "pyval \<Rightarrow> string \<Rightarrow> contract_error + string" where
  "sha256_id v label = (case v of PStr s \<Rightarrow> if sha256_text s then Inr s else Inl (BadText label) | _ \<Rightarrow> Inl (BadText label))"

definition git_oid :: "pyval \<Rightarrow> string \<Rightarrow> contract_error + string" where
  "git_oid v label = (case v of
     PStr s \<Rightarrow> if (length s = 40 \<or> length s = 64) \<and> list_all hex_char s then Inr s else Inl (BadText label)
   | _ \<Rightarrow> Inl (BadText label))"

definition positive_int :: "pyval \<Rightarrow> string \<Rightarrow> contract_error + int" where
  "positive_int v label = (case as_int v of Some i \<Rightarrow> if i < 1 then Inl (BadNumber label) else Inr i | None \<Rightarrow> Inl (BadNumber label))"

definition nonnegative_int :: "pyval \<Rightarrow> string \<Rightarrow> contract_error + int" where
  "nonnegative_int v label = (case as_int v of Some i \<Rightarrow> if i < 0 then Inl (BadNumber label) else Inr i | None \<Rightarrow> Inl (BadNumber label))"

definition finite_nonnegative :: "pyval \<Rightarrow> string \<Rightarrow> contract_error + pyfloat" where
  "finite_nonnegative v label = (case as_float v of
     None \<Rightarrow> Inl (BadNumber label)
   | Some None \<Rightarrow> Inl (FloatOverflow label)
   | Some (Some x) \<Rightarrow> if \<not> f_finite x \<or> f_less x (Fin 0) then Inl (BadNumber label) else Inr x)"

definition finite_positive :: "pyval \<Rightarrow> string \<Rightarrow> contract_error + pyfloat" where
  "finite_positive v label = rbind (finite_nonnegative v label) (\<lambda>x.
     if f_le x (Fin 0) then Inl (BadNumber label) else Inr x)"

definition family_of :: "pyval \<Rightarrow> string \<Rightarrow> contract_error + string" where
  "family_of v label = (case v of PStr s \<Rightarrow> if s \<in> set solver_families then Inr s else Inl (BadChoice label) | _ \<Rightarrow> Inl (BadChoice label))"

definition phase_of :: "pyval \<Rightarrow> string \<Rightarrow> contract_error + string" where
  "phase_of v label = (case v of PStr s \<Rightarrow> if s \<in> set phases then Inr s else Inl (BadChoice label) | _ \<Rightarrow> Inl (BadChoice label))"

text \<open>An enumeration of texts: its members are the texts of \<open>values\<close>.\<close>

definition enum_of :: "string list \<Rightarrow> pyval \<Rightarrow> string \<Rightarrow> contract_error + string" where
  "enum_of values v label = (case v of PStr s \<Rightarrow> if s \<in> set values then Inr s else Inl (BadChoice label) | _ \<Rightarrow> Inl (BadChoice label))"

definition option_scalar :: "pyval \<Rightarrow> string \<Rightarrow> contract_error + pyval" where
  "option_scalar v label = (case v of
     PStr s \<Rightarrow> if CHR 0x00 \<in> set s then Inl (BadText label) else Inr v
   | PBool b \<Rightarrow> Inr v
   | PInt i \<Rightarrow> Inr v
   | PFloat x \<Rightarrow> if f_finite x then Inr v else Inl (BadNumber label)
   | _ \<Rightarrow> Inl (BadChoice label))"

definition list_of :: "pyval \<Rightarrow> string \<Rightarrow> contract_error + pyval list" where
  "list_of v label = (case v of PList xs \<Rightarrow> Inr xs | _ \<Rightarrow> Inl (BadList label))"

definition marker :: "string \<Rightarrow> pyval" where
  "marker k = PDict [(k, PBool True), (''resource_authorization'', PBool False), (''outward_move'', PBool False)]"

definition digest_value :: "pyval \<Rightarrow> contract_error + string" where
  "digest_value v = (case canonical_digest v of Inl _ \<Rightarrow> Inl DigestFailed | Inr t \<Rightarrow> Inr t)"

section \<open>Process and qualification\<close>

record artifact_identity =
  ai_name :: string
  ai_sha256 :: string

definition make_artifact :: "pyval \<Rightarrow> pyval \<Rightarrow> contract_error + artifact_identity" where
  "make_artifact name sha =
     rbind (safe_id name ''artifact name'') (\<lambda>n.
     rbind (sha256_id sha ''artifact sha256'') (\<lambda>h. Inr \<lparr>ai_name = n, ai_sha256 = h\<rparr>))"

definition artifact_dict :: "artifact_identity \<Rightarrow> pyval" where
  "artifact_dict a = PDict [(''name'', PStr (ai_name a)), (''sha256'', PStr (ai_sha256 a))]"

definition read_artifact :: "pyval \<Rightarrow> contract_error + artifact_identity" where
  "read_artifact v =
     rbind (mapping v ''artifact identity'') (\<lambda>d.
     rbind (reject_unknown d [''name'', ''sha256''] ''artifact identity'') (\<lambda>_.
     make_artifact (get_value d ''name'') (get_value d ''sha256'')))"

record process_identity =
  pi_binary :: string
  pi_artifacts :: "artifact_identity list"
  pi_backend :: "string option"
  pi_args :: "string list"
  pi_environment :: "(string \<times> string) list"

definition environment_item :: "string \<times> pyval \<Rightarrow> contract_error + string \<times> string" where
  "environment_item kv = (case kv of (k, v) \<Rightarrow>
     rbind (environment_name (PStr k) ''environment name'') (\<lambda>n.
     rbind (nul_free v ''environment value'') (\<lambda>t. Inr (n, t))))"

definition optional_safe_id :: "pyval \<Rightarrow> string \<Rightarrow> contract_error + string option" where
  "optional_safe_id v label = (if v = PNone then Inr None else rbind (safe_id v label) (\<lambda>t. Inr (Some t)))"

definition make_process :: "pyval \<Rightarrow> artifact_identity list \<Rightarrow> pyval \<Rightarrow> pyval list \<Rightarrow> (string \<times> pyval) list \<Rightarrow>
    contract_error + process_identity" where
  "make_process binary artifacts backend args env =
     rbind (sha256_id binary ''binary_sha256'') (\<lambda>b.
     rbind (ensure (distinct (map ai_name artifacts)) (Duplicated ''artifact names'')) (\<lambda>_.
     rbind (optional_safe_id backend ''backend'') (\<lambda>e.
     rbind (rmap (\<lambda>v. nonempty_string v ''args'') args) (\<lambda>xs.
     rbind (rmap environment_item env) (\<lambda>items.
     rbind (ensure (distinct (map fst items)) (Duplicated ''environment variable names'')) (\<lambda>_.
     Inr \<lparr>pi_binary = b, pi_artifacts = sort_key ai_name artifacts, pi_backend = e, pi_args = xs,
       pi_environment = sort_key (\<lambda>kv. kv) items\<rparr>))))))"

definition process_dict :: "process_identity \<Rightarrow> pyval" where
  "process_dict p = PDict [
     (''binary_sha256'', PStr (pi_binary p)),
     (''artifacts'', PList (map artifact_dict (pi_artifacts p))),
     (''backend'', opt_text (pi_backend p)),
     (''args'', PList (map PStr (pi_args p))),
     (''environment'', PDict (map (\<lambda>x. (fst x, PStr (snd x))) (pi_environment p)))]"

definition read_process :: "pyval \<Rightarrow> contract_error + process_identity" where
  "read_process v =
     rbind (mapping v ''process identity'') (\<lambda>d.
     rbind (reject_unknown d [''binary_sha256'', ''artifacts'', ''backend'', ''args'', ''environment''] ''process identity'') (\<lambda>_.
     rbind (list_of (get_or d ''artifacts'' (PList [])) ''artifacts'') (\<lambda>raw.
     rbind (mapping (get_or d ''environment'' (PDict [])) ''process identity environment'') (\<lambda>env.
     rbind (list_of (get_or d ''args'' (PList [])) ''args'') (\<lambda>args.
     rbind (rmap read_artifact raw) (\<lambda>artifacts.
     make_process (get_value d ''binary_sha256'') artifacts (get_value d ''backend'') args env))))))"

record qualification =
  qi_commit :: string
  qi_evidence :: string
  qi_evidence_id :: string
  qi_domain :: string
  qi_domain_digest :: string
  qi_scope :: string

definition binding_scopes :: "string list" where
  "binding_scopes = [''exact_host_observation'', ''reusable_host_domain'']"

definition make_qualification :: "pyval \<Rightarrow> pyval \<Rightarrow> pyval \<Rightarrow> pyval \<Rightarrow> pyval \<Rightarrow> pyval \<Rightarrow> contract_error + qualification" where
  "make_qualification commit evidence evidence_id domain domain_digest scope =
     rbind (git_oid commit ''source_commit'') (\<lambda>c.
     rbind (sha256_id evidence ''evidence_sha256'') (\<lambda>e.
     rbind (safe_id evidence_id ''evidence_id'') (\<lambda>i.
     rbind (safe_id domain ''execution_domain_id'') (\<lambda>x.
     rbind (sha256_id domain_digest ''execution_domain_digest'') (\<lambda>h.
     rbind (enum_of binding_scopes scope ''binding_scope'') (\<lambda>b.
     rbind (ensure (x = ''exec-domain/'' @ take 20 h) (Mismatched ''execution_domain_id'')) (\<lambda>_.
     Inr \<lparr>qi_commit = c, qi_evidence = e, qi_evidence_id = i, qi_domain = x, qi_domain_digest = h, qi_scope = b\<rparr>)))))))"

definition qualification_fields :: "qualification \<Rightarrow> (string \<times> pyval) list" where
  "qualification_fields q = [
     (''source_commit'', PStr (qi_commit q)), (''evidence_sha256'', PStr (qi_evidence q)),
     (''evidence_id'', PStr (qi_evidence_id q)), (''execution_domain_id'', PStr (qi_domain q)),
     (''execution_domain_digest'', PStr (qi_domain_digest q)), (''binding_scope'', PStr (qi_scope q))]"

definition qualification_dict :: "qualification \<Rightarrow> pyval" where
  "qualification_dict q = PDict (qualification_fields q)"

definition qualification_keys :: "string list" where
  "qualification_keys = [''source_commit'', ''evidence_sha256'', ''evidence_id'', ''execution_domain_id'',
     ''execution_domain_digest'', ''binding_scope'']"

definition read_qualification :: "pyval \<Rightarrow> contract_error + qualification" where
  "read_qualification v =
     rbind (mapping v ''qualification identity'') (\<lambda>d.
     rbind (reject_unknown d qualification_keys ''qualification identity'') (\<lambda>_.
     make_qualification (get_value d ''source_commit'') (get_value d ''evidence_sha256'') (get_value d ''evidence_id'')
       (get_value d ''execution_domain_id'') (get_value d ''execution_domain_digest'') (get_value d ''binding_scope'')))"

section \<open>Options\<close>

definition boundaries :: "string list" where
  "boundaries = [''process'', ''game'', ''search'']"

record profile_option =
  po_name :: string
  po_value :: pyval
  po_boundary :: string
  po_phase :: "string option"

definition make_option :: "pyval \<Rightarrow> pyval \<Rightarrow> pyval \<Rightarrow> pyval \<Rightarrow> contract_error + profile_option" where
  "make_option name val boundary phase =
     rbind (nonempty_string name ''option name'') (\<lambda>n.
     rbind (ensure (n = py_strip n) (BadText ''option name'')) (\<lambda>_.
     rbind (ensure (\<not> list_ex (\<lambda>c. c \<in> {CHR 0x0D, CHR 0x0A, CHR 0x09}) n) (BadText ''option name'')) (\<lambda>_.
     rbind (option_scalar val ''option value'') (\<lambda>x.
     rbind (enum_of boundaries boundary ''mutation boundary'') (\<lambda>b.
     rbind (if b = ''search'' then rbind (phase_of phase ''search option phase'') (\<lambda>p. Inr (Some p))
       else if phase \<noteq> PNone then Inl (BadChoice ''phase'') else Inr None) (\<lambda>p.
     Inr \<lparr>po_name = n, po_value = x, po_boundary = b, po_phase = p\<rparr>))))))"

definition option_dict :: "profile_option \<Rightarrow> pyval" where
  "option_dict o' = PDict [(''name'', PStr (po_name o')), (''value'', po_value o'), (''boundary'', PStr (po_boundary o')),
     (''phase'', opt_text (po_phase o'))]"

definition read_option :: "pyval \<Rightarrow> contract_error + profile_option" where
  "read_option v =
     rbind (mapping v ''profile option'') (\<lambda>d.
     rbind (reject_unknown d [''name'', ''value'', ''boundary'', ''phase''] ''profile option'') (\<lambda>_.
     make_option (get_value d ''name'') (get_value d ''value'') (get_value d ''boundary'') (get_value d ''phase'')))"

text \<open>An option is declared once per phase, and all its declarations have one boundary.\<close>

definition option_key :: "profile_option \<Rightarrow> string \<times> string \<times> string option" where
  "option_key o' = (po_name o', po_boundary o', po_phase o')"

fun check_options :: "(string \<times> string \<times> string option) list \<Rightarrow> (string \<times> string) list \<Rightarrow> profile_option list \<Rightarrow>
    contract_error + unit" where
  "check_options keys bounds [] = Inr ()"
| "check_options keys bounds (o' # os) =
     rbind (ensure (option_key o' \<notin> set keys) (Duplicated ''option'')) (\<lambda>_.
     (let bounds' = (case dict_get bounds (po_name o') of None \<Rightarrow> dict_set (po_name o') (po_boundary o') bounds | Some b \<Rightarrow> bounds) in
     rbind (ensure (dict_get bounds' (po_name o') = Some (po_boundary o')) (Mismatched ''option boundary'')) (\<lambda>_.
     check_options (option_key o' # keys) bounds' os)))"

definition option_order :: "profile_option \<Rightarrow> string \<times> string \<times> string" where
  "option_order o' = (po_boundary o', (case po_phase o' of None \<Rightarrow> [] | Some p \<Rightarrow> p), po_name o')"

section \<open>Engine profiles\<close>

definition accelerators :: "string list" where
  "accelerators = [''cpu'', ''gpu'']"

record engine_profile =
  ep_id :: string
  ep_family :: string
  ep_process :: process_identity
  ep_options :: "profile_option list"
  ep_cpu_slots :: int
  ep_memory :: int
  ep_accelerator :: string
  ep_accelerator_memory :: int
  ep_chunks :: "string list"
  ep_qualification :: qualification

definition make_profile :: "pyval \<Rightarrow> pyval \<Rightarrow> process_identity \<Rightarrow> profile_option list \<Rightarrow> pyval \<Rightarrow> pyval \<Rightarrow> pyval \<Rightarrow> pyval \<Rightarrow>
    pyval list \<Rightarrow> qualification \<Rightarrow> contract_error + engine_profile" where
  "make_profile pid fam proc options cpu memory accelerator accelerator_memory chunks q =
     rbind (safe_id pid ''profile_id'') (\<lambda>i.
     rbind (family_of fam ''family'') (\<lambda>f.
     rbind (positive_int cpu ''cpu_slots'') (\<lambda>c.
     rbind (positive_int memory ''expected_memory_mib'') (\<lambda>m.
     rbind (enum_of accelerators accelerator ''accelerator'') (\<lambda>a.
     rbind (nonnegative_int accelerator_memory ''accelerator_memory_mib'') (\<lambda>am.
     rbind (ensure (\<not> (a = ''cpu'' \<and> am \<noteq> 0)) (Exceeded ''accelerator memory'')) (\<lambda>_.
     rbind (check_options [] [] options) (\<lambda>_.
     rbind (rmap (\<lambda>v. safe_id v ''work_chunk_ids'') chunks) (\<lambda>ids.
     rbind (ensure (distinct ids) (Duplicated ''work_chunk_ids'')) (\<lambda>_.
     Inr \<lparr>ep_id = i, ep_family = f, ep_process = proc, ep_options = sort_key option_order options, ep_cpu_slots = c,
       ep_memory = m, ep_accelerator = a, ep_accelerator_memory = am, ep_chunks = sort ids, ep_qualification = q\<rparr>))))))))))"

definition profile_dict :: "engine_profile \<Rightarrow> pyval" where
  "profile_dict p = PDict [
     (''schema_version'', schema_version), (''profile_id'', PStr (ep_id p)), (''family'', PStr (ep_family p)),
     (''process_identity'', process_dict (ep_process p)), (''options'', PList (map option_dict (ep_options p))),
     (''cpu_slots'', PInt (ep_cpu_slots p)), (''expected_memory_mib'', PInt (ep_memory p)),
     (''accelerator'', PStr (ep_accelerator p)), (''accelerator_memory_mib'', PInt (ep_accelerator_memory p)),
     (''work_chunk_ids'', PList (map PStr (ep_chunks p))), (''qualification'', qualification_dict (ep_qualification p)),
     (''authority'', marker ''resource_profile'')]"

definition profile_keys :: "string list" where
  "profile_keys = [''schema_version'', ''profile_id'', ''family'', ''process_identity'', ''options'', ''cpu_slots'',
     ''expected_memory_mib'', ''accelerator'', ''accelerator_memory_mib'', ''work_chunk_ids'', ''qualification'', ''authority'']"

definition read_profile :: "pyval \<Rightarrow> contract_error + engine_profile" where
  "read_profile v =
     rbind (mapping v ''engine resource profile'') (\<lambda>d.
     rbind (ensure (py_eq (get_value d ''schema_version'') schema_version) (BadVersion ''resource profile'')) (\<lambda>_.
     rbind (reject_unknown d profile_keys ''engine resource profile'') (\<lambda>_.
     rbind (ensure (py_eq (get_value d ''authority'') (marker ''resource_profile'')) (BadMarker ''resource profile'')) (\<lambda>_.
     rbind (list_of (get_or d ''options'' (PList [])) ''options'') (\<lambda>options_raw.
     rbind (list_of (get_or d ''work_chunk_ids'' (PList [])) ''work_chunk_ids'') (\<lambda>chunks_raw.
     rbind (read_process (get_or d ''process_identity'' (PDict []))) (\<lambda>proc.
     rbind (rmap read_option options_raw) (\<lambda>options.
     rbind (read_qualification (get_or d ''qualification'' (PDict []))) (\<lambda>q.
     make_profile (get_value d ''profile_id'') (get_value d ''family'') proc options (get_value d ''cpu_slots'')
       (get_value d ''expected_memory_mib'') (get_value d ''accelerator'') (get_value d ''accelerator_memory_mib'') chunks_raw q)))))))))"

definition profile_digest :: "engine_profile \<Rightarrow> contract_error + string" where
  "profile_digest p = digest_value (profile_dict p)"

section \<open>Compositions\<close>

record composition_binding =
  cb_instance :: string
  cb_role :: string
  cb_family :: string
  cb_profile :: string
  cb_cpu_slots :: int
  cb_group :: string

definition roles :: "string list" where
  "roles = [''anchor'', ''specialist'']"

definition make_binding :: "pyval \<Rightarrow> pyval \<Rightarrow> pyval \<Rightarrow> pyval \<Rightarrow> pyval \<Rightarrow> pyval \<Rightarrow> contract_error + composition_binding" where
  "make_binding inst role fam pid cpu grp =
     rbind (instance_id inst ''composition instance'') (\<lambda>i.
     rbind (enum_of roles role ''composition role'') (\<lambda>r.
     rbind (family_of fam ''family'') (\<lambda>f.
     rbind (safe_id pid ''composition profile_id'') (\<lambda>p.
     rbind (positive_int cpu ''composition binding cpu_slots'') (\<lambda>c.
     rbind (safe_id grp ''concurrency_group'') (\<lambda>g.
     Inr \<lparr>cb_instance = i, cb_role = r, cb_family = f, cb_profile = p, cb_cpu_slots = c, cb_group = g\<rparr>))))))"

definition binding_dict :: "composition_binding \<Rightarrow> pyval" where
  "binding_dict b = PDict [(''instance'', PStr (cb_instance b)), (''role'', PStr (cb_role b)), (''family'', PStr (cb_family b)),
     (''profile_id'', PStr (cb_profile b)), (''cpu_slots'', PInt (cb_cpu_slots b)), (''concurrency_group'', PStr (cb_group b))]"

definition read_binding :: "pyval \<Rightarrow> contract_error + composition_binding" where
  "read_binding v =
     rbind (mapping v ''composition binding'') (\<lambda>d.
     rbind (reject_unknown d [''instance'', ''role'', ''family'', ''profile_id'', ''cpu_slots'', ''concurrency_group'']
       ''composition binding'') (\<lambda>_.
     make_binding (get_value d ''instance'') (get_value d ''role'') (get_value d ''family'') (get_value d ''profile_id'')
       (get_value d ''cpu_slots'') (get_value d ''concurrency_group'')))"

definition enforcement_modes :: "string list" where
  "enforcement_modes = [''observed'', ''affinity'', ''cgroup_v2'']"

record composition =
  cp_id :: string
  cp_cpu_slots :: int
  cp_memory :: int
  cp_enforcement :: string
  cp_bindings :: "composition_binding list"
  cp_qualification :: qualification

text \<open>\<open>by_group\<close>: the slots that the bindings of a group claim together.\<close>

definition group_slots :: "composition_binding list \<Rightarrow> (string \<times> int) list" where
  "group_slots bs = fold (\<lambda>b d. dict_set (cb_group b)
     ((case dict_get d (cb_group b) of None \<Rightarrow> 0 | Some n \<Rightarrow> n) + cb_cpu_slots b) d) bs []"

definition make_composition :: "pyval \<Rightarrow> pyval \<Rightarrow> pyval \<Rightarrow> pyval \<Rightarrow> composition_binding list \<Rightarrow> qualification \<Rightarrow>
    contract_error + composition" where
  "make_composition cid cpu memory enforcement bindings q =
     rbind (safe_id cid ''composition_id'') (\<lambda>i.
     rbind (positive_int cpu ''declared_cpu_slots'') (\<lambda>c.
     rbind (positive_int memory ''composition expected_memory_mib'') (\<lambda>m.
     rbind (enum_of enforcement_modes enforcement ''enforcement_required'') (\<lambda>e.
     rbind (ensure (bindings \<noteq> []) (BadList ''composition bindings'')) (\<lambda>_.
     rbind (ensure (distinct (map cb_instance bindings)) (Duplicated ''composition instance names'')) (\<lambda>_.
     rbind (ensure (length (filter (\<lambda>b. cb_role b = ''anchor'') bindings) = 1) (BadChoice ''anchor'')) (\<lambda>_.
     rbind (ensure (list_all (\<lambda>(g, n). n \<le> c) (group_slots bindings)) (Exceeded ''concurrency group'')) (\<lambda>_.
     Inr \<lparr>cp_id = i, cp_cpu_slots = c, cp_memory = m, cp_enforcement = e, cp_bindings = sort_key cb_instance bindings,
       cp_qualification = q\<rparr>))))))))"

text \<open>\<open>validate_against\<close>: the loop adds up the memory of the profiles.\<close>

fun validate_bindings :: "composition \<Rightarrow> (string \<times> engine_profile) list \<Rightarrow> int \<Rightarrow> composition_binding list \<Rightarrow>
    contract_error + int" where
  "validate_bindings c profiles total_mib [] = Inr total_mib"
| "validate_bindings c profiles total_mib (b # bs) =
     (case dict_get profiles (cb_profile b) of
        None \<Rightarrow> Inl (Mismatched ''unknown profile'')
      | Some p \<Rightarrow>
          rbind (ensure (ep_family p = cb_family b) (Mismatched ''profile family'')) (\<lambda>_.
          rbind (ensure (ep_cpu_slots p = cb_cpu_slots b) (Mismatched ''profile CPU slots'')) (\<lambda>_.
          rbind (ensure (ep_cpu_slots p \<le> cp_cpu_slots c) (Exceeded ''profile CPU slots'')) (\<lambda>_.
          validate_bindings c profiles (total_mib + ep_memory p) bs))))"

definition validate_against :: "composition \<Rightarrow> (string \<times> engine_profile) list \<Rightarrow> contract_error + unit" where
  "validate_against c profiles = rbind (validate_bindings c profiles 0 (cp_bindings c)) (\<lambda>total_mib.
     ensure (total_mib \<le> cp_memory c) (Exceeded ''resident profile memory''))"

definition composition_dict :: "composition \<Rightarrow> pyval" where
  "composition_dict c = PDict [
     (''schema_version'', schema_version), (''composition_id'', PStr (cp_id c)), (''declared_cpu_slots'', PInt (cp_cpu_slots c)),
     (''expected_memory_mib'', PInt (cp_memory c)), (''enforcement_required'', PStr (cp_enforcement c)),
     (''bindings'', PList (map binding_dict (cp_bindings c))), (''qualification'', qualification_dict (cp_qualification c)),
     (''authority'', marker ''resource_profile'')]"

definition composition_keys :: "string list" where
  "composition_keys = [''schema_version'', ''composition_id'', ''declared_cpu_slots'', ''expected_memory_mib'',
     ''enforcement_required'', ''bindings'', ''qualification'', ''authority'']"

definition read_composition :: "pyval \<Rightarrow> contract_error + composition" where
  "read_composition v =
     rbind (mapping v ''composition profile'') (\<lambda>d.
     rbind (ensure (py_eq (get_value d ''schema_version'') schema_version) (BadVersion ''composition'')) (\<lambda>_.
     rbind (reject_unknown d composition_keys ''composition profile'') (\<lambda>_.
     rbind (ensure (py_eq (get_value d ''authority'') (marker ''resource_profile'')) (BadMarker ''composition'')) (\<lambda>_.
     rbind (list_of (get_or d ''bindings'' (PList [])) ''bindings'') (\<lambda>raw.
     rbind (rmap read_binding raw) (\<lambda>bindings.
     rbind (read_qualification (get_or d ''qualification'' (PDict []))) (\<lambda>q.
     make_composition (get_value d ''composition_id'') (get_value d ''declared_cpu_slots'') (get_value d ''expected_memory_mib'')
       (get_value d ''enforcement_required'') bindings q)))))))"

definition composition_digest :: "composition \<Rightarrow> contract_error + string" where
  "composition_digest c = digest_value (composition_dict c)"

end
