(* ===== verification/ContractLaws.thy ===== *)
theory ContractLaws
  imports Contracts
begin

text \<open>
  Laws of the resource contracts: what a validator accepts, that a constructed record is a fixed
  point of its constructor, that \<open>from_dict\<close> reads back what \<open>as_dict\<close> writes, and the bounds that a
  composition keeps.
\<close>

named_theorems accepts \<open>what a validator accepts\<close>

lemma mapping_Inr [accepts]: "mapping v l = Inr d \<longleftrightarrow> v = PDict d"
  by (cases v) (auto simp: mapping_def)

lemma list_of_Inr [accepts]: "list_of v l = Inr xs \<longleftrightarrow> v = PList xs"
  by (cases v) (auto simp: list_of_def)

lemma safe_id_Inr [accepts]: "safe_id v l = Inr s \<longleftrightarrow> v = PStr s \<and> safe_text s"
  by (cases v) (auto simp: safe_id_def)

lemma instance_id_Inr [accepts]: "instance_id v l = Inr s \<longleftrightarrow> v = PStr s \<and> instance_text s"
  by (cases v) (auto simp: instance_id_def)

lemma environment_name_Inr [accepts]: "environment_name v l = Inr s \<longleftrightarrow> v = PStr s \<and> environment_text s"
  by (cases v) (auto simp: environment_name_def)

lemma nul_free_Inr [accepts]: "nul_free v l = Inr s \<longleftrightarrow> v = PStr s \<and> CHR 0x00 \<notin> set s"
  by (cases v) (auto simp: nul_free_def)

lemma nonempty_string_Inr [accepts]: "nonempty_string v l = Inr s \<longleftrightarrow> v = PStr s \<and> s \<noteq> [] \<and> CHR 0x00 \<notin> set s"
  by (cases v) (auto simp: nonempty_string_def)

lemma sha256_id_Inr [accepts]: "sha256_id v l = Inr s \<longleftrightarrow> v = PStr s \<and> sha256_text s"
  by (cases v) (auto simp: sha256_id_def)

lemma git_oid_Inr [accepts]:
  "git_oid v l = Inr s \<longleftrightarrow> v = PStr s \<and> (length s = 40 \<or> length s = 64) \<and> list_all hex_char s"
  by (cases v) (auto simp: git_oid_def)

lemma as_int_Some [accepts]: "as_int v = Some i \<longleftrightarrow> v = PInt i"
  by (cases v) auto

lemma positive_int_Inr [accepts]: "positive_int v l = Inr i \<longleftrightarrow> v = PInt i \<and> 1 \<le> i"
  by (cases v) (auto simp: positive_int_def)

lemma nonnegative_int_Inr [accepts]: "nonnegative_int v l = Inr i \<longleftrightarrow> v = PInt i \<and> 0 \<le> i"
  by (cases v) (auto simp: nonnegative_int_def)

lemma finite_nonnegative_Inr [accepts]:
  "finite_nonnegative v l = Inr x \<longleftrightarrow> as_float v = Some (Some x) \<and> f_finite x \<and> \<not> f_less x (Fin 0)"
  by (auto simp: finite_nonnegative_def split: option.splits)

lemma finite_positive_Inr [accepts]:
  "finite_positive v l = Inr x \<longleftrightarrow>
     as_float v = Some (Some x) \<and> f_finite x \<and> \<not> f_less x (Fin 0) \<and> \<not> f_le x (Fin 0)"
  by (auto simp: finite_positive_def rbind_eq_Inr finite_nonnegative_Inr split: if_splits)

lemma family_of_Inr [accepts]: "family_of v l = Inr s \<longleftrightarrow> v = PStr s \<and> s \<in> set solver_families"
  by (cases v) (auto simp: family_of_def)

lemma phase_of_Inr [accepts]: "phase_of v l = Inr s \<longleftrightarrow> v = PStr s \<and> s \<in> set phases"
  by (cases v) (auto simp: phase_of_def)

lemma enum_of_Inr [accepts]: "enum_of vs v l = Inr s \<longleftrightarrow> v = PStr s \<and> s \<in> set vs"
  by (cases v) (auto simp: enum_of_def)

lemma option_scalar_same: "option_scalar v l = Inr w \<Longrightarrow> w = v"
  by (cases v) (auto simp: option_scalar_def split: if_splits)

lemma optional_safe_id_Inr [accepts]:
  "optional_safe_id v l = Inr t \<longleftrightarrow> v = opt_text t \<and> (case t of None \<Rightarrow> True | Some s \<Rightarrow> safe_text s)"
  by (cases v) (auto simp: optional_safe_id_def opt_text_def rbind_eq_Inr safe_id_Inr split: option.splits)

lemma reject_unknown_Inr [simp]: "reject_unknown d ks l = Inr u \<longleftrightarrow> set (dict_keys d) \<subseteq> set ks"
  by (simp add: reject_unknown_def)

lemma get_or_simps [simp]:
  "get_or ((k, v) # d) j w = (if j = k then v else get_or d j w)"
  "get_or [] j w = w"
  by (simp_all add: get_or_def)

text \<open>A list that a reader has read item by item.\<close>

lemma rmap_back: "rmap f vs = Inr xs \<Longrightarrow> (\<And>v x. f v = Inr x \<Longrightarrow> f (g x) = Inr x) \<Longrightarrow> rmap f (map g xs) = Inr xs"
  by (induction vs arbitrary: xs) (auto simp: rbind_eq_Inr)

lemma rmap_fixed: "(\<And>x. x \<in> set xs \<Longrightarrow> f (g x) = Inr x) \<Longrightarrow> rmap f (map g xs) = Inr xs"
  by (induction xs) auto

lemma rmap_mem: "rmap f vs = Inr xs \<Longrightarrow> x \<in> set xs \<Longrightarrow> \<exists>v \<in> set vs. f v = Inr x"
  by (induction vs arbitrary: xs) (auto simp: rbind_eq_Inr)

lemma sort_key_again [simp]: "sort_key f (sort_key f xs) = sort_key f xs"
  by (rule sort_key_id_if_sorted) simp


lemma distinct_map_sort [simp]: "distinct (map f (sort_key g xs)) = distinct (map f xs)"
  by (simp add: distinct_map)

lemma schema_version_eq [simp]: "py_eq schema_version schema_version"
  by (simp add: schema_version_def same_number_def)

lemma marker_eq [simp]: "k \<notin> {''resource_authorization'', ''outward_move''} \<Longrightarrow> py_eq (marker k) (marker k)"
  by (rule py_eq_refl) (simp add: marker_def)

section \<open>Reading back\<close>

lemma read_artifact_back: "read_artifact v = Inr a \<Longrightarrow> read_artifact (artifact_dict a) = Inr a"
  by (auto simp: read_artifact_def artifact_dict_def make_artifact_def rbind_eq_Inr accepts)

lemma read_qualification_back:
  "read_qualification v = Inr q \<Longrightarrow> read_qualification (qualification_dict q) = Inr q"
  by (auto simp: read_qualification_def qualification_dict_def qualification_fields_def qualification_keys_def
      make_qualification_def rbind_eq_Inr accepts)

lemma option_scalar_back: "option_scalar v l = Inr w \<Longrightarrow> option_scalar w l = Inr w"
  using option_scalar_same [of v l w] by simp

lemma read_option_back: "read_option v = Inr o' \<Longrightarrow> read_option (option_dict o') = Inr o'"
  by (auto simp: read_option_def option_dict_def make_option_def opt_text_def rbind_eq_Inr accepts
      dest: option_scalar_back split: if_splits)

definition environment_ok :: "string \<times> string \<Rightarrow> bool" where
  "environment_ok x \<longleftrightarrow> environment_text (fst x) \<and> CHR 0x00 \<notin> set (snd x)"

lemma environment_item_Inr [accepts]:
  "environment_item kv = Inr x \<longleftrightarrow> kv = (fst x, PStr (snd x)) \<and> environment_ok x"
  by (cases kv; cases x) (auto simp: environment_item_def environment_ok_def rbind_eq_Inr accepts)

lemma rmap_shape:
  assumes "\<And>v x. f v = Inr x \<longleftrightarrow> v = g x \<and> P x"
  shows "rmap f vs = Inr xs \<longleftrightarrow> vs = map g xs \<and> list_all P xs"
proof (induction vs arbitrary: xs)
  case Nil
  then show ?case by (cases xs) simp_all
next
  case (Cons v vs)
  then show ?case by (cases xs) (auto simp: rbind_eq_Inr assms)
qed

lemma rmap_ids [accepts]: "rmap (\<lambda>v. safe_id v l) vs = Inr ids \<longleftrightarrow> vs = map PStr ids \<and> list_all safe_text ids"
  by (rule rmap_shape) (rule safe_id_Inr)

lemma rmap_args [accepts]:
  "rmap (\<lambda>v. nonempty_string v l) vs = Inr xs \<longleftrightarrow> vs = map PStr xs \<and> list_all (\<lambda>s. s \<noteq> [] \<and> CHR 0x00 \<notin> set s) xs"
  by (rule rmap_shape) (rule nonempty_string_Inr)

lemma rmap_environment [accepts]:
  "rmap environment_item env = Inr items \<longleftrightarrow> env = map (\<lambda>x. (fst x, PStr (snd x))) items \<and> list_all environment_ok items"
  by (rule rmap_shape) (rule environment_item_Inr)

lemma make_process_Inr:
  "make_process b arts e args env = Inr p \<longleftrightarrow>
     b = PStr (pi_binary p) \<and> sha256_text (pi_binary p) \<and>
     distinct (map ai_name arts) \<and> pi_artifacts p = sort_key ai_name arts \<and>
     e = opt_text (pi_backend p) \<and> (case pi_backend p of None \<Rightarrow> True | Some s \<Rightarrow> safe_text s) \<and>
     args = map PStr (pi_args p) \<and> list_all (\<lambda>s. s \<noteq> [] \<and> CHR 0x00 \<notin> set s) (pi_args p) \<and>
     (\<exists>items. rmap environment_item env = Inr items \<and> distinct (map fst items) \<and>
        pi_environment p = sort_key (\<lambda>kv. kv) items)"
  by (cases p) (auto simp: make_process_def rbind_eq_Inr accepts)

lemma make_process_back:
  assumes "make_process b arts e args env = Inr p"
  shows "make_process (PStr (pi_binary p)) (pi_artifacts p) (opt_text (pi_backend p)) (map PStr (pi_args p))
      (map (\<lambda>x. (fst x, PStr (snd x))) (pi_environment p)) = Inr p"
proof -
  obtain items where i: "rmap environment_item env = Inr items" "distinct (map fst items)"
      "pi_environment p = sort_key (\<lambda>kv. kv) items"
    using assms by (auto simp: make_process_Inr)
  have "rmap environment_item (map (\<lambda>x. (fst x, PStr (snd x))) (pi_environment p)) = Inr (pi_environment p)"
    using i by (simp add: rmap_environment list_all_iff)
  moreover have "distinct (map fst (pi_environment p))" "sort_key (\<lambda>kv. kv) (pi_environment p) = pi_environment p"
    using i by simp_all
  ultimately show ?thesis
    using assms by (auto simp: make_process_Inr)
qed

lemma read_process_back: "read_process v = Inr p \<Longrightarrow> read_process (process_dict p) = Inr p"
proof -
  assume v: "read_process v = Inr p"
  then obtain d raw env args arts where
    arts: "rmap read_artifact raw = Inr arts"
    and p: "make_process (get_value d ''binary_sha256'') arts (get_value d ''backend'') args env = Inr p"
    by (auto simp: read_process_def rbind_eq_Inr accepts)
  have "pi_artifacts p = sort_key ai_name arts"
    using p by (auto simp: make_process_def rbind_eq_Inr)
  then have "rmap read_artifact (map artifact_dict (pi_artifacts p)) = Inr (pi_artifacts p)"
    using rmap_mem [OF arts] by (intro rmap_fixed) (auto dest: read_artifact_back)
  then show ?thesis
    by (simp add: read_process_def process_dict_def rbind_eq_Inr accepts make_process_back [OF p])
qed


text \<open>Whether options are accepted does not depend on their order.\<close>

definition options_agree :: "profile_option list \<Rightarrow> bool" where
  "options_agree os \<longleftrightarrow> distinct (map option_key os) \<and>
     (\<forall>x \<in> set os. \<forall>y \<in> set os. po_name x = po_name y \<longrightarrow> po_boundary x = po_boundary y)"

lemma check_options_Inr:
  "check_options keys bounds os = Inr () \<longleftrightarrow> options_agree os \<and> set keys \<inter> set (map option_key os) = {} \<and>
     (\<forall>x \<in> set os. \<forall>b. dict_get bounds (po_name x) = Some b \<longrightarrow> b = po_boundary x)"
proof (induction os arbitrary: keys bounds)
  case (Cons a os)
  show ?case
  proof (cases "dict_get bounds (po_name a)")
    case None
    then show ?thesis
      by (simp add: Cons.IH options_agree_def) (safe; (metis option.distinct(1) | metis | blast))
  next
    case (Some b)
    then show ?thesis
      by (simp add: Cons.IH options_agree_def) (safe; (metis option.inject | metis | blast))
  qed
qed (simp add: options_agree_def)

lemma check_options_iff [simp]: "check_options [] [] os = Inr u \<longleftrightarrow> options_agree os"
  using check_options_Inr [of "[]" "[]" os] by simp

lemma options_agree_sort [simp]: "options_agree (sort_key f os) = options_agree os"
  by (simp add: options_agree_def)

lemma make_profile_Inr:
  "make_profile pid fam proc os cpu memory acc accm chunks q = Inr p \<longleftrightarrow>
     pid = PStr (ep_id p) \<and> safe_text (ep_id p) \<and> fam = PStr (ep_family p) \<and> ep_family p \<in> set solver_families \<and>
     ep_process p = proc \<and> options_agree os \<and> ep_options p = sort_key option_order os \<and>
     cpu = PInt (ep_cpu_slots p) \<and> 1 \<le> ep_cpu_slots p \<and> memory = PInt (ep_memory p) \<and> 1 \<le> ep_memory p \<and>
     acc = PStr (ep_accelerator p) \<and> ep_accelerator p \<in> set accelerators \<and>
     accm = PInt (ep_accelerator_memory p) \<and> 0 \<le> ep_accelerator_memory p \<and>
     (ep_accelerator p = ''cpu'' \<longrightarrow> ep_accelerator_memory p = 0) \<and>
     (\<exists>ids. chunks = map PStr ids \<and> list_all safe_text ids \<and> distinct ids \<and> ep_chunks p = sort ids) \<and>
     ep_qualification p = q"
  by (cases p) (auto simp: make_profile_def rbind_eq_Inr accepts)

lemma read_profile_back: "read_profile v = Inr p \<Longrightarrow> read_profile (profile_dict p) = Inr p"
proof -
  assume v: "read_profile v = Inr p"
  then obtain d raw chunks proc os q pv qv where
    parts: "read_process pv = Inr proc" "rmap read_option raw = Inr os" "read_qualification qv = Inr q"
    and p: "make_profile (get_value d ''profile_id'') (get_value d ''family'') proc os (get_value d ''cpu_slots'')
       (get_value d ''expected_memory_mib'') (get_value d ''accelerator'') (get_value d ''accelerator_memory_mib'') chunks q = Inr p"
    by (auto simp: read_profile_def rbind_eq_Inr accepts)
  have "ep_options p = sort_key option_order os" using p by (simp add: make_profile_Inr)
  then have "rmap read_option (map option_dict (ep_options p)) = Inr (ep_options p)"
    using rmap_mem [OF parts(2)] by (intro rmap_fixed) (auto dest: read_option_back)
  then show ?thesis
    using p read_process_back [OF parts(1)] read_qualification_back [OF parts(3)]
    by (simp add: read_profile_def profile_dict_def profile_keys_def rbind_eq_Inr accepts)
      (auto simp: make_profile_Inr list_all_iff)
qed


section \<open>Compositions\<close>

definition slots_of :: "composition_binding list \<Rightarrow> string \<Rightarrow> int" where
  "slots_of bs g = sum_list (map cb_cpu_slots (filter (\<lambda>b. cb_group b = g) bs))"

lemma slots_of_none: "g \<notin> cb_group ` set bs \<Longrightarrow> slots_of bs g = 0"
  by (induction bs) (auto simp: slots_of_def)

lemma group_slots_snoc:
  "group_slots (bs @ [b]) = dict_set (cb_group b)
     ((case dict_get (group_slots bs) (cb_group b) of None \<Rightarrow> 0 | Some n \<Rightarrow> n) + cb_cpu_slots b) (group_slots bs)"
  by (simp add: group_slots_def)

lemma group_slots_ok: "dict_ok (group_slots bs)"
  by (induction bs rule: rev_induct) (simp_all add: group_slots_snoc dict_ok_set, simp add: group_slots_def)

lemma group_slots_get:
  "dict_get (group_slots bs) g = (if g \<in> cb_group ` set bs then Some (slots_of bs g) else None)"
proof (induction bs rule: rev_induct)
  case Nil
  then show ?case by (simp add: group_slots_def)
next
  case (snoc b bs)
  show ?case
    using snoc slots_of_none [of g bs] by (auto simp: group_slots_snoc slots_of_def)
qed

lemma group_slots_bound:
  "list_all (\<lambda>(g, n). n \<le> c) (group_slots bs) \<longleftrightarrow> (\<forall>g \<in> cb_group ` set bs. slots_of bs g \<le> c)"
proof -
  have "list_all (\<lambda>(g, n). n \<le> c) (group_slots bs) \<longleftrightarrow> (\<forall>g n. (g, n) \<in> set (group_slots bs) \<longrightarrow> n \<le> c)"
    by (auto simp: list_all_iff)
  also have "\<dots> \<longleftrightarrow> (\<forall>g n. dict_get (group_slots bs) g = Some n \<longrightarrow> n \<le> c)"
    by (simp add: dict_get_mem [OF group_slots_ok])
  also have "\<dots> \<longleftrightarrow> (\<forall>g \<in> cb_group ` set bs. slots_of bs g \<le> c)"
    by (auto simp: group_slots_get)
  finally show ?thesis .
qed

lemma slots_of_sort: "distinct bs \<Longrightarrow> slots_of (sort_key f bs) g = slots_of bs g"
  by (simp add: slots_of_def sum_list_distinct_conv_sum_set)

lemma anchors_sort: "distinct bs \<Longrightarrow> length (filter P (sort_key f bs)) = length (filter P bs)"
  by (metis distinct_card distinct_filter distinct_sort set_filter set_sort)

lemma make_composition_Inr:
  "make_composition cid cpu memory enf bs q = Inr c \<longleftrightarrow>
     cid = PStr (cp_id c) \<and> safe_text (cp_id c) \<and> cpu = PInt (cp_cpu_slots c) \<and> 1 \<le> cp_cpu_slots c \<and>
     memory = PInt (cp_memory c) \<and> 1 \<le> cp_memory c \<and> enf = PStr (cp_enforcement c) \<and>
     cp_enforcement c \<in> set enforcement_modes \<and> bs \<noteq> [] \<and> distinct (map cb_instance bs) \<and>
     length (filter (\<lambda>b. cb_role b = ''anchor'') bs) = 1 \<and>
     (\<forall>g \<in> cb_group ` set bs. slots_of bs g \<le> cp_cpu_slots c) \<and>
     cp_bindings c = sort_key cb_instance bs \<and> cp_qualification c = q"
  by (cases c) (auto simp: make_composition_def rbind_eq_Inr accepts group_slots_bound)

lemma make_composition_bindings:
  assumes "make_composition cid cpu memory enf bs q = Inr c"
  shows "distinct (map cb_instance (cp_bindings c))" "cp_bindings c \<noteq> []"
    "length (filter (\<lambda>b. cb_role b = ''anchor'') (cp_bindings c)) = 1"
    "\<forall>g. slots_of (cp_bindings c) g \<le> cp_cpu_slots c"
proof -
  have d: "distinct bs" using assms by (auto simp: make_composition_Inr distinct_map)
  show "distinct (map cb_instance (cp_bindings c))" "cp_bindings c \<noteq> []"
    using assms by (auto simp: make_composition_Inr simp flip: set_empty)
  show "length (filter (\<lambda>b. cb_role b = ''anchor'') (cp_bindings c)) = 1"
    using assms d by (simp add: make_composition_Inr anchors_sort)
  show "\<forall>g. slots_of (cp_bindings c) g \<le> cp_cpu_slots c"
  proof
    fix g
    show "slots_of (cp_bindings c) g \<le> cp_cpu_slots c"
    proof (cases "g \<in> cb_group ` set bs")
      case True
      then show ?thesis using assms d by (auto simp: make_composition_Inr slots_of_sort)
    next
      case False
      then have "slots_of bs g = 0" by (rule slots_of_none)
      then show ?thesis using assms d by (simp add: make_composition_Inr slots_of_sort)
    qed
  qed
qed

lemma read_binding_back: "read_binding v = Inr b \<Longrightarrow> read_binding (binding_dict b) = Inr b"
  by (auto simp: read_binding_def binding_dict_def make_binding_def rbind_eq_Inr accepts)

lemma read_composition_back: "read_composition v = Inr c \<Longrightarrow> read_composition (composition_dict c) = Inr c"
proof -
  assume v: "read_composition v = Inr c"
  then obtain d raw bs q qv where
    parts: "rmap read_binding raw = Inr bs" "read_qualification qv = Inr q"
    and c: "make_composition (get_value d ''composition_id'') (get_value d ''declared_cpu_slots'') (get_value d ''expected_memory_mib'')
       (get_value d ''enforcement_required'') bs q = Inr c"
    by (auto simp: read_composition_def rbind_eq_Inr accepts)
  have b: "cp_bindings c = sort_key cb_instance bs" using c by (simp add: make_composition_Inr)
  then have "rmap read_binding (map binding_dict (cp_bindings c)) = Inr (cp_bindings c)"
    using rmap_mem [OF parts(1)] by (intro rmap_fixed) (auto dest: read_binding_back)
  then show ?thesis
    using c b make_composition_bindings [OF c] read_qualification_back [OF parts(2)]
    by (simp add: read_composition_def composition_dict_def composition_keys_def rbind_eq_Inr accepts)
      (simp add: make_composition_Inr)
qed

text \<open>The loop of \<open>validate_against\<close>.\<close>

definition profile_memory :: "(string \<times> engine_profile) list \<Rightarrow> composition_binding \<Rightarrow> int" where
  "profile_memory profiles b = (case dict_get profiles (cb_profile b) of None \<Rightarrow> 0 | Some p \<Rightarrow> ep_memory p)"

lemma validate_bindings_Inr:
  "validate_bindings c profiles n bs = Inr t \<longleftrightarrow>
     t = n + sum_list (map (profile_memory profiles) bs) \<and>
     (\<forall>b \<in> set bs. \<exists>p. dict_get profiles (cb_profile b) = Some p \<and> ep_family p = cb_family b \<and>
        ep_cpu_slots p = cb_cpu_slots b \<and> ep_cpu_slots p \<le> cp_cpu_slots c)"
  by (induction bs arbitrary: n) (auto simp: profile_memory_def split: option.splits)

end
