(* ===== verification/WorkGrant.thy ===== *)
theory WorkGrant
  imports ContractLaws
begin

text \<open>
  \<^verbatim>\<open>controller/work_grant.py\<close>: native limits, work chunks, the licence that binds chunks to one frozen
  profile, and the grant that authorizes the resources of one search.  A record is built by
  \<open>make_\<close>, written by \<open>_dict\<close> and read by \<open>read_\<close>.
\<close>

section \<open>Native limits\<close>

definition limit_kinds :: "string list" where
  "limit_kinds = [''nodes'', ''movetime_ms'']"

definition phase_purpose :: "string \<Rightarrow> string" where
  "phase_purpose p = (if p = ''EXPLORE'' then ''solver''
     else if p = ''VERIFY'' then ''verify''
     else if p = ''STAGED_VERIFY'' then ''verify'' else ''refine'')"

definition limit_kind :: "pyval \<Rightarrow> contract_error + string" where
  "limit_kind v = enum_of limit_kinds v ''native limit kind''"

definition expected_semantics :: "string \<Rightarrow> string \<Rightarrow> string" where
  "expected_semantics family k = (if k = ''nodes'' then family @ ''.uci_nodes'' else family @ ''.uci_time'')"

record native_limit =
  nl_kind :: string
  nl_value :: int
  nl_semantics :: string

definition make_limit :: "pyval \<Rightarrow> pyval \<Rightarrow> pyval \<Rightarrow> contract_error + native_limit" where
  "make_limit k val semantics =
     rbind (limit_kind k) (\<lambda>kd.
     rbind (positive_int val ''native limit value'') (\<lambda>n.
     rbind (safe_id semantics ''native limit semantics'') (\<lambda>s.
     Inr \<lparr>nl_kind = kd, nl_value = n, nl_semantics = s\<rparr>)))"

definition validate_for_family :: "native_limit \<Rightarrow> pyval \<Rightarrow> contract_error + unit" where
  "validate_for_family l fam =
     rbind (family_of fam ''family'') (\<lambda>f.
     ensure (nl_semantics l = expected_semantics f (nl_kind l)) (Mismatched ''limit semantics''))"

definition limit_dict :: "native_limit \<Rightarrow> pyval" where
  "limit_dict l = PDict [(''kind'', PStr (nl_kind l)), (''value'', PInt (nl_value l)), (''semantics'', PStr (nl_semantics l))]"

definition read_limit :: "pyval \<Rightarrow> contract_error + native_limit" where
  "read_limit v =
     rbind (mapping v ''native limit'') (\<lambda>d.
     rbind (reject_unknown d [''kind'', ''value'', ''semantics''] ''native limit'') (\<lambda>_.
     make_limit (get_value d ''kind'') (get_value d ''value'') (get_value d ''semantics'')))"

section \<open>Work chunks\<close>

record work_chunk =
  wc_id :: string
  wc_family :: string
  wc_phase :: string
  wc_purpose :: string
  wc_limit :: native_limit
  wc_cpu :: pyfloat
  wc_gpu :: pyfloat
  wc_wall :: pyfloat
  wc_evidence :: string

text \<open>\<open>purpose != _PHASE_PURPOSE[phase]\<close>, and the reservations of a chunk or a grant.\<close>

definition purpose_of :: "pyval \<Rightarrow> string \<Rightarrow> contract_error + string" where
  "purpose_of v phase = (if v = PStr (phase_purpose phase) then Inr (phase_purpose phase) else Inl (Mismatched ''purpose''))"

definition reservations :: "pyval \<Rightarrow> pyval \<Rightarrow> contract_error + pyfloat \<times> pyfloat" where
  "reservations cpu gpu =
     rbind (finite_nonnegative cpu ''reserved_cpu_ms'') (\<lambda>c.
     rbind (finite_nonnegative gpu ''reserved_gpu_ms'') (\<lambda>g.
     rbind (ensure (\<not> (c = Fin 0 \<and> g = Fin 0)) (BadNumber ''capacity'')) (\<lambda>_. Inr (c, g))))"

definition make_chunk :: "pyval \<Rightarrow> pyval \<Rightarrow> pyval \<Rightarrow> pyval \<Rightarrow> native_limit \<Rightarrow> pyval \<Rightarrow> pyval \<Rightarrow> pyval \<Rightarrow> pyval \<Rightarrow>
    contract_error + work_chunk" where
  "make_chunk cid fam phase purpose nl cpu gpu wall evidence =
     rbind (safe_id cid ''chunk_id'') (\<lambda>i.
     rbind (family_of fam ''family'') (\<lambda>f.
     rbind (phase_of phase ''phase'') (\<lambda>p.
     rbind (purpose_of purpose p) (\<lambda>u.
     rbind (validate_for_family nl (PStr f)) (\<lambda>_.
     rbind (reservations cpu gpu) (\<lambda>(c, g).
     rbind (finite_positive wall ''wall_bound_ms'') (\<lambda>w.
     rbind (sha256_id evidence ''cost_evidence_digest'') (\<lambda>e.
     Inr \<lparr>wc_id = i, wc_family = f, wc_phase = p, wc_purpose = u, wc_limit = nl, wc_cpu = c, wc_gpu = g,
       wc_wall = w, wc_evidence = e\<rparr>))))))))"

definition chunk_fields :: "work_chunk \<Rightarrow> (string \<times> pyval) list" where
  "chunk_fields c = [
     (''schema_version'', schema_version), (''chunk_id'', PStr (wc_id c)), (''family'', PStr (wc_family c)),
     (''phase'', PStr (wc_phase c)), (''purpose'', PStr (wc_purpose c)), (''native_limit'', limit_dict (wc_limit c)),
     (''reserved_cpu_ms'', PFloat (wc_cpu c)), (''reserved_gpu_ms'', PFloat (wc_gpu c)),
     (''wall_bound_ms'', PFloat (wc_wall c)), (''cost_evidence_digest'', PStr (wc_evidence c)),
     (''authority'', marker ''resource_template'')]"

definition chunk_dict :: "work_chunk \<Rightarrow> pyval" where
  "chunk_dict c = PDict (chunk_fields c)"

definition chunk_keys :: "string list" where
  "chunk_keys = [''schema_version'', ''chunk_id'', ''family'', ''phase'', ''purpose'', ''native_limit'',
     ''reserved_cpu_ms'', ''reserved_gpu_ms'', ''wall_bound_ms'', ''cost_evidence_digest'', ''authority'']"

definition read_chunk :: "pyval \<Rightarrow> contract_error + work_chunk" where
  "read_chunk v =
     rbind (mapping v ''work chunk'') (\<lambda>d.
     rbind (ensure (py_eq (get_value d ''schema_version'') schema_version) (BadVersion ''work chunk'')) (\<lambda>_.
     rbind (reject_unknown d chunk_keys ''work chunk'') (\<lambda>_.
     rbind (ensure (py_eq (get_value d ''authority'') (marker ''resource_template'')) (BadMarker ''work chunk'')) (\<lambda>_.
     rbind (read_limit (get_or d ''native_limit'' (PDict []))) (\<lambda>nl.
     make_chunk (get_value d ''chunk_id'') (get_value d ''family'') (get_value d ''phase'') (get_value d ''purpose'') nl
       (get_value d ''reserved_cpu_ms'') (get_value d ''reserved_gpu_ms'') (get_value d ''wall_bound_ms'')
       (get_value d ''cost_evidence_digest''))))))"

definition chunk_digest :: "work_chunk \<Rightarrow> contract_error + string" where
  "chunk_digest c = digest_value (chunk_dict c)"

section \<open>Licences\<close>

record chunk_license =
  cl_id :: string
  cl_catalog :: string
  cl_catalog_digest :: string
  cl_profile :: string
  cl_profile_digest :: string
  cl_chunks :: "string list"
  cl_policy :: string

definition make_license :: "pyval \<Rightarrow> pyval \<Rightarrow> pyval \<Rightarrow> pyval \<Rightarrow> pyval \<Rightarrow> pyval list \<Rightarrow> pyval \<Rightarrow> contract_error + chunk_license" where
  "make_license lid cat cat_digest pid p_digest ids policy =
     rbind (safe_id lid ''work chunk license_id'') (\<lambda>i.
     rbind (safe_id cat ''work chunk catalog_id'') (\<lambda>c.
     rbind (sha256_id cat_digest ''work chunk catalog_digest'') (\<lambda>h.
     rbind (safe_id pid ''work chunk profile_id'') (\<lambda>p.
     rbind (sha256_id p_digest ''work chunk profile_digest'') (\<lambda>k.
     rbind (ensure (ids \<noteq> []) (BadList ''work chunk license'')) (\<lambda>_.
     rbind (rmap (\<lambda>v. safe_id v ''licensed work chunk id'') ids) (\<lambda>xs.
     rbind (ensure (distinct xs) (Duplicated ''work chunk license'')) (\<lambda>_.
     rbind (sha256_id policy ''source_policy_digest'') (\<lambda>s.
     Inr \<lparr>cl_id = i, cl_catalog = c, cl_catalog_digest = h, cl_profile = p, cl_profile_digest = k,
       cl_chunks = sort xs, cl_policy = s\<rparr>)))))))))"

definition license_dict :: "chunk_license \<Rightarrow> pyval" where
  "license_dict l = PDict [
     (''schema_version'', schema_version), (''license_id'', PStr (cl_id l)), (''catalog_id'', PStr (cl_catalog l)),
     (''catalog_digest'', PStr (cl_catalog_digest l)), (''profile_id'', PStr (cl_profile l)),
     (''profile_digest'', PStr (cl_profile_digest l)), (''work_chunk_ids'', PList (map PStr (cl_chunks l))),
     (''source_policy_digest'', PStr (cl_policy l)), (''authority'', marker ''resource_template'')]"

definition license_keys :: "string list" where
  "license_keys = [''schema_version'', ''license_id'', ''catalog_id'', ''catalog_digest'', ''profile_id'',
     ''profile_digest'', ''work_chunk_ids'', ''source_policy_digest'', ''authority'']"

definition read_license :: "pyval \<Rightarrow> contract_error + chunk_license" where
  "read_license v =
     rbind (mapping v ''work chunk license'') (\<lambda>d.
     rbind (ensure (py_eq (get_value d ''schema_version'') schema_version) (BadVersion ''work chunk license'')) (\<lambda>_.
     rbind (reject_unknown d license_keys ''work chunk license'') (\<lambda>_.
     rbind (ensure (py_eq (get_value d ''authority'') (marker ''resource_template'')) (BadMarker ''work chunk license'')) (\<lambda>_.
     rbind (list_of (get_value d ''work_chunk_ids'') ''work_chunk_ids'') (\<lambda>ids.
     make_license (get_value d ''license_id'') (get_value d ''catalog_id'') (get_value d ''catalog_digest'')
       (get_value d ''profile_id'') (get_value d ''profile_digest'') ids (get_value d ''source_policy_digest''))))))"

definition license_digest :: "chunk_license \<Rightarrow> contract_error + string" where
  "license_digest l = digest_value (license_dict l)"

definition direct_profile_license_digest :: "engine_profile \<Rightarrow> work_chunk \<Rightarrow> contract_error + string" where
  "direct_profile_license_digest p c =
     rbind (profile_digest p) (\<lambda>h. digest_value (PDict [
       (''license_kind'', PStr ''profile-work-chunk-id-v1''), (''profile_id'', PStr (ep_id p)), (''profile_digest'', PStr h),
       (''work_chunk_id'', PStr (wc_id c))]))"

section \<open>Grants\<close>

record work_grant =
  wg_generation :: int
  wg_position :: string
  wg_owner :: string
  wg_instance :: string
  wg_plan :: string
  wg_profile :: string
  wg_profile_digest :: string
  wg_phase :: string
  wg_purpose :: string
  wg_chunk :: string
  wg_chunk_digest :: string
  wg_license_digest :: string
  wg_policy :: string
  wg_round :: int
  wg_limit :: native_limit
  wg_cpu :: pyfloat
  wg_gpu :: pyfloat
  wg_deadline :: pyfloat
  wg_options :: string
  wg_decision :: string

definition make_grant :: "pyval \<Rightarrow> pyval \<Rightarrow> pyval \<Rightarrow> pyval \<Rightarrow> pyval \<Rightarrow> pyval \<Rightarrow> pyval \<Rightarrow> pyval \<Rightarrow> pyval \<Rightarrow> pyval \<Rightarrow> pyval \<Rightarrow>
    pyval \<Rightarrow> pyval \<Rightarrow> pyval \<Rightarrow> native_limit \<Rightarrow> pyval \<Rightarrow> pyval \<Rightarrow> pyval \<Rightarrow> pyval \<Rightarrow> pyval \<Rightarrow> contract_error + work_grant" where
  "make_grant gen pos owner inst plan pid p_digest phase purpose cid c_digest l_digest policy rnd nl cpu gpu deadline opts decision =
     rbind (positive_int gen ''generation'') (\<lambda>g.
     rbind (instance_id pos ''position_id'') (\<lambda>ps.
     rbind (family_of owner ''owner'') (\<lambda>f.
     rbind (instance_id inst ''instance'') (\<lambda>i.
     rbind (safe_id plan ''move_resource_plan_id'') (\<lambda>mp.
     rbind (safe_id pid ''profile_id'') (\<lambda>pr.
     rbind (sha256_id p_digest ''profile_digest'') (\<lambda>prd.
     rbind (phase_of phase ''phase'') (\<lambda>ph.
     rbind (purpose_of purpose ph) (\<lambda>pu.
     rbind (safe_id cid ''work_chunk_id'') (\<lambda>ch.
     rbind (sha256_id c_digest ''work_chunk_digest'') (\<lambda>chd.
     rbind (sha256_id l_digest ''work_chunk_license_digest'') (\<lambda>ld.
     rbind (safe_id policy ''scheduler_policy_id'') (\<lambda>po.
     rbind (nonnegative_int rnd ''allocation_round'') (\<lambda>r.
     rbind (validate_for_family nl (PStr f)) (\<lambda>_.
     rbind (reservations cpu gpu) (\<lambda>(c, gp).
     rbind (finite_positive deadline ''wall_deadline_ms'') (\<lambda>w.
     rbind (sha256_id opts ''effective_options_digest'') (\<lambda>op.
     rbind (sha256_id decision ''allocator_decision_digest'') (\<lambda>ad.
     Inr \<lparr>wg_generation = g, wg_position = ps, wg_owner = f, wg_instance = i, wg_plan = mp, wg_profile = pr,
       wg_profile_digest = prd, wg_phase = ph, wg_purpose = pu, wg_chunk = ch, wg_chunk_digest = chd,
       wg_license_digest = ld, wg_policy = po, wg_round = r, wg_limit = nl, wg_cpu = c, wg_gpu = gp,
       wg_deadline = w, wg_options = op, wg_decision = ad\<rparr>)))))))))))))))))))"

definition grant_marker :: pyval where
  "grant_marker = PDict [(''resource_authorization'', PBool True), (''outward_move'', PBool False)]"

definition grant_payload :: "work_grant \<Rightarrow> (string \<times> pyval) list" where
  "grant_payload g = [
     (''schema_version'', schema_version), (''generation'', PInt (wg_generation g)), (''position_id'', PStr (wg_position g)),
     (''owner'', PStr (wg_owner g)), (''instance'', PStr (wg_instance g)), (''move_resource_plan_id'', PStr (wg_plan g)),
     (''profile_id'', PStr (wg_profile g)), (''profile_digest'', PStr (wg_profile_digest g)),
     (''phase'', PStr (wg_phase g)), (''purpose'', PStr (wg_purpose g)), (''work_chunk_id'', PStr (wg_chunk g)),
     (''work_chunk_digest'', PStr (wg_chunk_digest g)), (''work_chunk_license_digest'', PStr (wg_license_digest g)),
     (''scheduler_policy_id'', PStr (wg_policy g)), (''allocation_round'', PInt (wg_round g)),
     (''native_limit'', limit_dict (wg_limit g)), (''reserved_cpu_ms'', PFloat (wg_cpu g)),
     (''reserved_gpu_ms'', PFloat (wg_gpu g)), (''wall_deadline_ms'', PFloat (wg_deadline g)),
     (''effective_options_digest'', PStr (wg_options g)), (''allocator_decision_digest'', PStr (wg_decision g)),
     (''authority'', grant_marker)]"

definition grant_id :: "work_grant \<Rightarrow> contract_error + string" where
  "grant_id g = digest_value (PDict (grant_payload g))"

definition grant_dict :: "work_grant \<Rightarrow> contract_error + pyval" where
  "grant_dict g = rbind (grant_id g) (\<lambda>h. Inr (PDict ((''grant_id'', PStr h) # grant_payload g)))"

definition grant_keys :: "string list" where
  "grant_keys = [''grant_id'', ''schema_version'', ''generation'', ''position_id'', ''owner'', ''instance'',
     ''move_resource_plan_id'', ''profile_id'', ''profile_digest'', ''phase'', ''purpose'', ''work_chunk_id'',
     ''work_chunk_digest'', ''work_chunk_license_digest'', ''scheduler_policy_id'', ''allocation_round'',
     ''native_limit'', ''reserved_cpu_ms'', ''reserved_gpu_ms'', ''wall_deadline_ms'', ''effective_options_digest'',
     ''allocator_decision_digest'', ''authority'']"

definition read_grant :: "pyval \<Rightarrow> contract_error + work_grant" where
  "read_grant v =
     rbind (mapping v ''work grant'') (\<lambda>d.
     rbind (ensure (py_eq (get_value d ''schema_version'') schema_version) (BadVersion ''work grant'')) (\<lambda>_.
     rbind (reject_unknown d grant_keys ''work grant'') (\<lambda>_.
     rbind (ensure (py_eq (get_value d ''authority'') grant_marker) (BadMarker ''work grant'')) (\<lambda>_.
     rbind (read_limit (get_or d ''native_limit'' (PDict []))) (\<lambda>nl.
     rbind (make_grant (get_value d ''generation'') (get_value d ''position_id'') (get_value d ''owner'')
       (get_value d ''instance'') (get_value d ''move_resource_plan_id'') (get_value d ''profile_id'')
       (get_value d ''profile_digest'') (get_value d ''phase'') (get_value d ''purpose'') (get_value d ''work_chunk_id'')
       (get_value d ''work_chunk_digest'') (get_value d ''work_chunk_license_digest'') (get_value d ''scheduler_policy_id'')
       (get_value d ''allocation_round'') nl (get_value d ''reserved_cpu_ms'') (get_value d ''reserved_gpu_ms'')
       (get_value d ''wall_deadline_ms'') (get_value d ''effective_options_digest'')
       (get_value d ''allocator_decision_digest'')) (\<lambda>g.
     rbind (grant_id g) (\<lambda>h.
     rbind (ensure (get_value d ''grant_id'' = PStr h) (Mismatched ''grant_id'')) (\<lambda>_. Inr g))))))))"

text \<open>\<open>from_chunk\<close>: a chunk that the profile names needs no licence, any other needs the exact one.\<close>

definition grant_license :: "engine_profile \<Rightarrow> work_chunk \<Rightarrow> chunk_license option \<Rightarrow> contract_error + string" where
  "grant_license p c lic =
     (if wc_id c \<in> set (ep_chunks p) then direct_profile_license_digest p c
      else case lic of
        None \<Rightarrow> Inl (Mismatched ''license required'')
      | Some l \<Rightarrow>
          rbind (ensure (cl_profile l = ep_id p) (Mismatched ''license'')) (\<lambda>_.
          rbind (profile_digest p) (\<lambda>h.
          rbind (ensure (cl_profile_digest l = h \<and> wc_id c \<in> set (cl_chunks l)) (Mismatched ''license'')) (\<lambda>_.
          license_digest l))))"

definition from_chunk :: "engine_profile \<Rightarrow> work_chunk \<Rightarrow> chunk_license option \<Rightarrow> int \<Rightarrow> string \<Rightarrow> string \<Rightarrow> string \<Rightarrow> string \<Rightarrow>
    string \<Rightarrow> int \<Rightarrow> pyfloat \<Rightarrow> string \<Rightarrow> string \<Rightarrow> contract_error + work_grant" where
  "from_chunk p c lic gen pos owner inst plan policy rnd deadline opts decision =
     rbind (ensure (owner = ep_family p \<and> wc_family c = ep_family p) (Mismatched ''families'')) (\<lambda>_.
     rbind (grant_license p c lic) (\<lambda>ld.
     rbind (profile_digest p) (\<lambda>pd.
     rbind (chunk_digest c) (\<lambda>cd.
     make_grant (PInt gen) (PStr pos) (PStr owner) (PStr inst) (PStr plan) (PStr (ep_id p)) (PStr pd) (PStr (wc_phase c))
       (PStr (wc_purpose c)) (PStr (wc_id c)) (PStr cd) (PStr ld) (PStr policy) (PInt rnd) (wc_limit c)
       (PFloat (wc_cpu c)) (PFloat (wc_gpu c)) (PFloat deadline) (PStr opts) (PStr decision)))))"

end
