(* ===== verification/GrantLaws.thy ===== *)
theory GrantLaws
  imports WorkGrant
begin

text \<open>Laws of chunks, licences and grants: each is read back as it was written.\<close>

lemma make_limit_Inr: "make_limit k n s = Inr l \<longleftrightarrow>
    k = PStr (nl_kind l) \<and> nl_kind l \<in> set limit_kinds \<and> n = PInt (nl_value l) \<and> 1 \<le> nl_value l \<and>
    s = PStr (nl_semantics l) \<and> safe_text (nl_semantics l)"
  by (cases l) (auto simp: make_limit_def limit_kind_def rbind_eq_Inr accepts)

lemma read_limit_back: "read_limit v = Inr l \<Longrightarrow> read_limit (limit_dict l) = Inr l"
  by (auto simp: read_limit_def limit_dict_def rbind_eq_Inr accepts make_limit_Inr)

lemma purpose_of_Inr [accepts]: "purpose_of v p = Inr u \<longleftrightarrow> v = PStr u \<and> u = phase_purpose p"
  by (auto simp: purpose_of_def)

lemma reservations_Inr [accepts]:
  "reservations cpu gpu = Inr r \<longleftrightarrow>
     as_float cpu = Some (Some (fst r)) \<and> f_finite (fst r) \<and> \<not> f_less (fst r) (Fin 0) \<and>
     as_float gpu = Some (Some (snd r)) \<and> f_finite (snd r) \<and> \<not> f_less (snd r) (Fin 0) \<and>
     \<not> (fst r = Fin 0 \<and> snd r = Fin 0)"
  by (cases r) (auto simp: reservations_def rbind_eq_Inr accepts)

definition limit_fits :: "native_limit \<Rightarrow> string \<Rightarrow> bool" where
  "limit_fits l f \<longleftrightarrow> f \<in> set solver_families \<and> nl_semantics l = expected_semantics f (nl_kind l)"

lemma validate_for_family_Inr [accepts]: "validate_for_family l (PStr f) = Inr u \<longleftrightarrow> limit_fits l f"
  by (auto simp: validate_for_family_def limit_fits_def rbind_eq_Inr accepts)

lemma make_chunk_Inr:
  "make_chunk cid fam phase purpose nl cpu gpu wall evidence = Inr c \<longleftrightarrow>
     cid = PStr (wc_id c) \<and> safe_text (wc_id c) \<and> fam = PStr (wc_family c) \<and> wc_family c \<in> set solver_families \<and>
     phase = PStr (wc_phase c) \<and> wc_phase c \<in> set phases \<and> purpose = PStr (wc_purpose c) \<and>
     wc_purpose c = phase_purpose (wc_phase c) \<and> wc_limit c = nl \<and> limit_fits nl (wc_family c) \<and>
     reservations cpu gpu = Inr (wc_cpu c, wc_gpu c) \<and> finite_positive wall ''wall_bound_ms'' = Inr (wc_wall c) \<and>
     evidence = PStr (wc_evidence c) \<and> sha256_text (wc_evidence c)"
  by (cases c) (auto simp: make_chunk_def rbind_eq_Inr accepts split: prod.splits)

lemma read_chunk_back: "read_chunk v = Inr c \<Longrightarrow> read_chunk (chunk_dict c) = Inr c"
  by (auto simp: read_chunk_def chunk_dict_def chunk_fields_def chunk_keys_def rbind_eq_Inr accepts make_chunk_Inr
      read_limit_back)

lemma make_license_Inr:
  "make_license lid cat cat_digest pid p_digest ids policy = Inr l \<longleftrightarrow>
     lid = PStr (cl_id l) \<and> safe_text (cl_id l) \<and> cat = PStr (cl_catalog l) \<and> safe_text (cl_catalog l) \<and>
     cat_digest = PStr (cl_catalog_digest l) \<and> sha256_text (cl_catalog_digest l) \<and>
     pid = PStr (cl_profile l) \<and> safe_text (cl_profile l) \<and>
     p_digest = PStr (cl_profile_digest l) \<and> sha256_text (cl_profile_digest l) \<and>
     (\<exists>xs. xs \<noteq> [] \<and> ids = map PStr xs \<and> list_all safe_text xs \<and> distinct xs \<and> cl_chunks l = sort xs) \<and>
     policy = PStr (cl_policy l) \<and> sha256_text (cl_policy l)"
  by (cases l) (auto simp: make_license_def rbind_eq_Inr accepts)

lemma make_license_back:
  assumes "make_license lid cat cat_digest pid p_digest ids policy = Inr l"
  shows "make_license (PStr (cl_id l)) (PStr (cl_catalog l)) (PStr (cl_catalog_digest l)) (PStr (cl_profile l))
      (PStr (cl_profile_digest l)) (map PStr (cl_chunks l)) (PStr (cl_policy l)) = Inr l"
proof -
  obtain xs where "xs \<noteq> []" "list_all safe_text xs" "distinct xs" "cl_chunks l = sort xs"
    using assms by (auto simp: make_license_Inr)
  then have "cl_chunks l \<noteq> []" "list_all safe_text (cl_chunks l)" "distinct (cl_chunks l)" "cl_chunks l = sort (cl_chunks l)"
    by (simp_all add: list_all_iff flip: set_empty)
  then show ?thesis
    using assms unfolding make_license_Inr by blast
qed

lemma read_license_back: "read_license v = Inr l \<Longrightarrow> read_license (license_dict l) = Inr l"
proof -
  assume "read_license v = Inr l"
  then obtain d ids where
    "make_license (get_value d ''license_id'') (get_value d ''catalog_id'') (get_value d ''catalog_digest'')
       (get_value d ''profile_id'') (get_value d ''profile_digest'') ids (get_value d ''source_policy_digest'') = Inr l"
    by (auto simp: read_license_def rbind_eq_Inr accepts)
  from make_license_back [OF this] show ?thesis
    by (simp add: read_license_def license_dict_def license_keys_def rbind_eq_Inr accepts)
qed

definition grant_ok :: "work_grant \<Rightarrow> bool" where
  "grant_ok g \<longleftrightarrow> 1 \<le> wg_generation g \<and> instance_text (wg_position g) \<and> wg_owner g \<in> set solver_families \<and>
     instance_text (wg_instance g) \<and> safe_text (wg_plan g) \<and> safe_text (wg_profile g) \<and>
     sha256_text (wg_profile_digest g) \<and> wg_phase g \<in> set phases \<and> wg_purpose g = phase_purpose (wg_phase g) \<and>
     safe_text (wg_chunk g) \<and> sha256_text (wg_chunk_digest g) \<and> sha256_text (wg_license_digest g) \<and>
     safe_text (wg_policy g) \<and> 0 \<le> wg_round g \<and> limit_fits (wg_limit g) (wg_owner g) \<and>
     sha256_text (wg_options g) \<and> sha256_text (wg_decision g)"

lemma make_grant_Inr:
  "make_grant gen pos owner inst plan pid p_digest phase purpose cid c_digest l_digest policy rnd nl cpu gpu deadline opts decision
     = Inr g \<longleftrightarrow>
     gen = PInt (wg_generation g) \<and> pos = PStr (wg_position g) \<and> owner = PStr (wg_owner g) \<and> inst = PStr (wg_instance g) \<and>
     plan = PStr (wg_plan g) \<and> pid = PStr (wg_profile g) \<and> p_digest = PStr (wg_profile_digest g) \<and>
     phase = PStr (wg_phase g) \<and> purpose = PStr (wg_purpose g) \<and> cid = PStr (wg_chunk g) \<and>
     c_digest = PStr (wg_chunk_digest g) \<and> l_digest = PStr (wg_license_digest g) \<and> policy = PStr (wg_policy g) \<and>
     rnd = PInt (wg_round g) \<and> nl = wg_limit g \<and> reservations cpu gpu = Inr (wg_cpu g, wg_gpu g) \<and>
     finite_positive deadline ''wall_deadline_ms'' = Inr (wg_deadline g) \<and> opts = PStr (wg_options g) \<and>
     decision = PStr (wg_decision g) \<and> grant_ok g"
  unfolding grant_ok_def
  by (cases g) (auto simp: make_grant_def rbind_eq_Inr accepts split: prod.splits)



lemma grant_marker_eq [simp]: "py_eq grant_marker grant_marker"
  by (rule py_eq_refl) (simp add: grant_marker_def)

text \<open>A grant that could be built is read back, with its identity checked again.\<close>

lemma grant_read_back:
  assumes g: "make_grant gen pos owner inst plan pid p_digest phase purpose cid c_digest l_digest policy rnd nl cpu gpu deadline
      opts decision = Inr g"
    and l: "read_limit (limit_dict nl) = Inr nl"
    and d: "grant_dict g = Inr v"
  shows "read_grant v = Inr g"
proof -
  obtain h where h: "grant_id g = Inr h" and v: "v = PDict ((''grant_id'', PStr h) # grant_payload g)"
    using d by (auto simp: grant_dict_def rbind_eq_Inr)
  have "make_grant (PInt (wg_generation g)) (PStr (wg_position g)) (PStr (wg_owner g)) (PStr (wg_instance g)) (PStr (wg_plan g))
      (PStr (wg_profile g)) (PStr (wg_profile_digest g)) (PStr (wg_phase g)) (PStr (wg_purpose g)) (PStr (wg_chunk g))
      (PStr (wg_chunk_digest g)) (PStr (wg_license_digest g)) (PStr (wg_policy g)) (PInt (wg_round g)) (wg_limit g)
      (PFloat (wg_cpu g)) (PFloat (wg_gpu g)) (PFloat (wg_deadline g)) (PStr (wg_options g)) (PStr (wg_decision g)) = Inr g"
    using g by (simp add: make_grant_Inr accepts)
  moreover have "read_limit (limit_dict (wg_limit g)) = Inr (wg_limit g)"
    using g l by (simp add: make_grant_Inr)
  ultimately show ?thesis
    using h by (simp add: v read_grant_def grant_payload_def grant_keys_def rbind_eq_Inr accepts)
qed

lemma read_grant_back:
  assumes "read_grant v = Inr g" "grant_dict g = Inr w"
  shows "read_grant w = Inr g"
proof -
  obtain d nl nv where nl: "read_limit nv = Inr nl"
    and g: "make_grant (get_value d ''generation'') (get_value d ''position_id'') (get_value d ''owner'')
       (get_value d ''instance'') (get_value d ''move_resource_plan_id'') (get_value d ''profile_id'')
       (get_value d ''profile_digest'') (get_value d ''phase'') (get_value d ''purpose'') (get_value d ''work_chunk_id'')
       (get_value d ''work_chunk_digest'') (get_value d ''work_chunk_license_digest'') (get_value d ''scheduler_policy_id'')
       (get_value d ''allocation_round'') nl (get_value d ''reserved_cpu_ms'') (get_value d ''reserved_gpu_ms'')
       (get_value d ''wall_deadline_ms'') (get_value d ''effective_options_digest'')
       (get_value d ''allocator_decision_digest'') = Inr g"
    using assms(1) by (auto simp: read_grant_def rbind_eq_Inr accepts)
  show ?thesis
    by (rule grant_read_back [OF g read_limit_back [OF nl] assms(2)])
qed

end
