(* ===== verification/HostFacts.thy ===== *)
theory HostFacts
  imports GrantLaws PyAmount
begin

text \<open>
  \<^verbatim>\<open>controller/game_environment.py\<close> and \<^verbatim>\<open>controller/host_capabilities.py\<close>: what the controller may know
  of the game and of the host before it plans a move, and the derivation of the host record from
  the observed facts of \<^verbatim>\<open>adapters/resource/linux_host.py\<close>.
\<close>

section \<open>Optional values\<close>

definition optional :: "(pyval \<Rightarrow> string \<Rightarrow> contract_error + 'a) \<Rightarrow> pyval \<Rightarrow> string \<Rightarrow> contract_error + 'a option" where
  "optional f v label = (if v = PNone then Inr None else rbind (f v label) (\<lambda>x. Inr (Some x)))"

definition opt_int :: "int option \<Rightarrow> pyval" where
  "opt_int v = (case v of None \<Rightarrow> PNone | Some i \<Rightarrow> PInt i)"

definition opt_float :: "pyfloat option \<Rightarrow> pyval" where
  "opt_float v = (case v of None \<Rightarrow> PNone | Some x \<Rightarrow> PFloat x)"

definition opt_ints :: "int list option \<Rightarrow> pyval" where
  "opt_ints v = (case v of None \<Rightarrow> PNone | Some xs \<Rightarrow> PList (map PInt xs))"

definition bool_of :: "pyval \<Rightarrow> string \<Rightarrow> contract_error + bool" where
  "bool_of v label = (case v of PBool b \<Rightarrow> Inr b | _ \<Rightarrow> Inl (BadChoice label))"

section \<open>The game environment\<close>

definition environment_sources :: "string list" where
  "environment_sources = [''bridge_predeclared'', ''uci_observed'', ''unknown'']"

record game_environment =
  ge_source :: string
  ge_base :: "int option"
  ge_winc :: "int option"
  ge_binc :: "int option"
  ge_moves_to_go :: "int option"
  ge_wtime :: "int option"
  ge_btime :: "int option"
  ge_concurrency :: int
  ge_network :: string
  ge_reserve :: int
  ge_host :: "string option"
  ge_candidates :: "string list"

definition check_timing :: "game_environment \<Rightarrow> bool" where
  "check_timing e =
     (if ge_source e = ''bridge_predeclared'' then ge_base e \<noteq> None \<and> ge_winc e \<noteq> None \<and> ge_binc e \<noteq> None
      else if ge_source e = ''uci_observed''
        then ge_wtime e \<noteq> None \<and> ge_btime e \<noteq> None \<and> ge_winc e \<noteq> None \<and> ge_binc e \<noteq> None
      else ge_base e = None \<and> ge_winc e = None \<and> ge_binc e = None \<and> ge_moves_to_go e = None \<and>
        ge_wtime e = None \<and> ge_btime e = None)"

definition make_environment :: "(string \<times> pyval) list \<Rightarrow> pyval list \<Rightarrow> contract_error + game_environment" where
  "make_environment kw candidates =
     rbind (enum_of environment_sources (get_value kw ''source'') ''environment source'') (\<lambda>s.
     rbind (optional positive_int (get_value kw ''base_ms'') ''base_ms'') (\<lambda>b.
     rbind (optional nonnegative_int (get_value kw ''white_increment_ms'') ''white_increment_ms'') (\<lambda>wi.
     rbind (optional nonnegative_int (get_value kw ''black_increment_ms'') ''black_increment_ms'') (\<lambda>bi.
     rbind (optional positive_int (get_value kw ''moves_to_go'') ''moves_to_go'') (\<lambda>mtg.
     rbind (optional nonnegative_int (get_value kw ''white_time_ms'') ''white_time_ms'') (\<lambda>wt.
     rbind (optional nonnegative_int (get_value kw ''black_time_ms'') ''black_time_ms'') (\<lambda>bt.
     rbind (positive_int (get_value kw ''concurrency'') ''concurrency'') (\<lambda>c.
     rbind (safe_id (get_value kw ''network_policy'') ''network_policy'') (\<lambda>n.
     rbind (nonnegative_int (get_value kw ''network_reserve_ms'') ''network_reserve_ms'') (\<lambda>r.
     rbind (optional_safe_id (get_value kw ''host_profile_id'') ''host_profile_id'') (\<lambda>h.
     rbind (rmap (\<lambda>v. safe_id v ''candidate_composition_ids'') candidates) (\<lambda>cs.
     rbind (ensure (distinct cs) (Duplicated ''candidate_composition_ids'')) (\<lambda>_.
     (let e = \<lparr>ge_source = s, ge_base = b, ge_winc = wi, ge_binc = bi, ge_moves_to_go = mtg, ge_wtime = wt, ge_btime = bt,
        ge_concurrency = c, ge_network = n, ge_reserve = r, ge_host = h, ge_candidates = sort cs\<rparr> in
     rbind (ensure (check_timing e) (Mismatched ''timing facts'')) (\<lambda>_. Inr e)))))))))))))))"

definition environment_fields :: "game_environment \<Rightarrow> (string \<times> pyval) list" where
  "environment_fields e = [
     (''schema_version'', schema_version), (''source'', PStr (ge_source e)), (''base_ms'', opt_int (ge_base e)),
     (''white_increment_ms'', opt_int (ge_winc e)), (''black_increment_ms'', opt_int (ge_binc e)),
     (''moves_to_go'', opt_int (ge_moves_to_go e)), (''white_time_ms'', opt_int (ge_wtime e)),
     (''black_time_ms'', opt_int (ge_btime e)), (''concurrency'', PInt (ge_concurrency e)),
     (''network_policy'', PStr (ge_network e)), (''network_reserve_ms'', PInt (ge_reserve e)),
     (''host_profile_id'', opt_text (ge_host e)), (''candidate_composition_ids'', PList (map PStr (ge_candidates e))),
     (''authority'', marker ''resource_context'')]"

definition environment_dict :: "game_environment \<Rightarrow> pyval" where
  "environment_dict e = PDict (environment_fields e)"

definition environment_keys :: "string list" where
  "environment_keys = [''schema_version'', ''source'', ''base_ms'', ''white_increment_ms'', ''black_increment_ms'',
     ''moves_to_go'', ''white_time_ms'', ''black_time_ms'', ''concurrency'', ''network_policy'', ''network_reserve_ms'',
     ''host_profile_id'', ''candidate_composition_ids'', ''authority'']"

definition read_environment :: "pyval \<Rightarrow> contract_error + game_environment" where
  "read_environment v =
     rbind (mapping v ''game environment'') (\<lambda>d.
     rbind (ensure (py_eq (get_value d ''schema_version'') schema_version) (BadVersion ''game environment'')) (\<lambda>_.
     rbind (reject_unknown d environment_keys ''game environment'') (\<lambda>_.
     rbind (ensure (py_eq (get_value d ''authority'') (marker ''resource_context'')) (BadMarker ''game environment'')) (\<lambda>_.
     rbind (list_of (get_or d ''candidate_composition_ids'' (PList [])) ''candidate_composition_ids'') (\<lambda>candidates.
     make_environment d candidates)))))"

definition environment_digest :: "game_environment \<Rightarrow> contract_error + string" where
  "environment_digest e = digest_value (environment_dict e)"

definition environment_id :: "game_environment \<Rightarrow> contract_error + string" where
  "environment_id e = rbind (environment_digest e) (\<lambda>h. Inr (''game-env/'' @ take 16 h))"

section \<open>Observations\<close>

definition optional_positive_float :: "pyval \<Rightarrow> string \<Rightarrow> contract_error + pyfloat option" where
  "optional_positive_float v label = (if v = PNone then Inr None
     else rbind (finite_nonnegative v label) (\<lambda>x. if f_le x (Fin 0) then Inl (BadNumber label) else Inr (Some x)))"

definition cpu_tuple :: "pyval \<Rightarrow> string \<Rightarrow> contract_error + int list option" where
  "cpu_tuple v label = (case v of
     PNone \<Rightarrow> Inr None
   | PList vs \<Rightarrow>
       rbind (rmap (\<lambda>x. nonnegative_int x label) vs) (\<lambda>cpus.
       rbind (ensure (distinct cpus \<and> sorted cpus) (BadList label)) (\<lambda>_.
       rbind (ensure (cpus \<noteq> []) (BadList label)) (\<lambda>_. Inr (Some cpus))))
   | _ \<Rightarrow> Inl (BadList label))"

definition fault_tuple :: "pyval \<Rightarrow> string \<Rightarrow> contract_error + string list" where
  "fault_tuple v label = rbind (list_of v label) (\<lambda>vs. rmap (\<lambda>x. nonempty_string x label) vs)"

definition nonempty_text :: "pyval \<Rightarrow> string \<Rightarrow> contract_error + string" where
  "nonempty_text v label = (case v of PStr s \<Rightarrow> if s = [] then Inl (BadText label) else Inr s | _ \<Rightarrow> Inl (BadText label))"

definition string_tuple :: "pyval \<Rightarrow> string \<Rightarrow> contract_error + string list" where
  "string_tuple v label =
     rbind (list_of v label) (\<lambda>vs.
     rbind (rmap (\<lambda>x. nonempty_text x label) vs) (\<lambda>xs.
     rbind (ensure (sorted xs \<and> distinct xs) (BadList label)) (\<lambda>_. Inr xs)))"

text \<open>\<open>math.isclose\<close> with both tolerances \<open>1e-12\<close>, and the true division of two integers.\<close>

definition is_close :: "pyfloat \<Rightarrow> pyfloat \<Rightarrow> bool" where
  "is_close a b \<longleftrightarrow> (let tol = of_rat64 (1 / 10 ^ 12); diff = f_abs (f_sub b a) in
     (a = b \<and> a \<noteq> NaN) \<or>
     (f_finite a \<and> f_finite b \<and>
       (f_le diff (f_abs (f_mul tol b)) \<or> f_le diff (f_abs (f_mul tol a)) \<or> f_le diff tol)))"

definition int_ratio :: "int \<Rightarrow> int \<Rightarrow> contract_error + pyfloat" where
  "int_ratio a b = (if b = 0 then Inl (WrongValue ''division by zero'')
     else case of_rat64 (of_int a / of_int b) of Fin q \<Rightarrow> Inr (Fin q) | _ \<Rightarrow> Inl (FloatOverflow ''division''))"

record cpu_quota =
  cq_path :: string
  cq_quota :: "int option"
  cq_period :: int
  cq_equivalent :: "pyfloat option"

definition make_quota :: "pyval \<Rightarrow> pyval \<Rightarrow> pyval \<Rightarrow> pyval \<Rightarrow> contract_error + cpu_quota" where
  "make_quota path quota period equivalent =
     rbind (safe_id path ''cpu quota cgroup_path'') (\<lambda>p.
     rbind (positive_int period ''cpu quota period_us'') (\<lambda>n.
     if quota = PNone then
       rbind (ensure (equivalent = PNone) (Mismatched ''unlimited cpu quota'')) (\<lambda>_.
       Inr \<lparr>cq_path = p, cq_quota = None, cq_period = n, cq_equivalent = None\<rparr>)
     else
       rbind (positive_int quota ''cpu quota quota_us'') (\<lambda>q.
       rbind (optional_positive_float equivalent ''cpu quota equivalent_cpus'') (\<lambda>e.
       rbind (int_ratio q n) (\<lambda>x.
       rbind (ensure (case e of None \<Rightarrow> False | Some y \<Rightarrow> is_close y x) (Mismatched ''equivalent_cpus'')) (\<lambda>_.
       Inr \<lparr>cq_path = p, cq_quota = Some q, cq_period = n, cq_equivalent = e\<rparr>))))))"

definition quota_dict :: "cpu_quota \<Rightarrow> pyval" where
  "quota_dict q = PDict [(''cgroup_path'', PStr (cq_path q)), (''quota_us'', opt_int (cq_quota q)),
     (''period_us'', PInt (cq_period q)), (''equivalent_cpus'', opt_float (cq_equivalent q))]"

definition read_quota :: "pyval \<Rightarrow> contract_error + cpu_quota" where
  "read_quota v =
     rbind (mapping v ''cpu quota observation'') (\<lambda>d.
     rbind (reject_unknown d [''cgroup_path'', ''quota_us'', ''period_us'', ''equivalent_cpus''] ''cpu quota observation'') (\<lambda>_.
     make_quota (get_value d ''cgroup_path'') (get_value d ''quota_us'') (get_value d ''period_us'') (get_value d ''equivalent_cpus'')))"

record memory_limit =
  ml_path :: string
  ml_status :: string
  ml_limit :: "int option"

definition make_memory :: "pyval \<Rightarrow> pyval \<Rightarrow> pyval \<Rightarrow> contract_error + memory_limit" where
  "make_memory path status limit =
     rbind (safe_id path ''memory limit cgroup_path'') (\<lambda>p.
     rbind (enum_of [''limited'', ''unlimited''] status ''memory limit status'') (\<lambda>s.
     if s = ''limited'' then
       rbind (ensure (limit \<noteq> PNone) (Mismatched ''limited memory'')) (\<lambda>_.
       rbind (nonnegative_int limit ''memory limit bytes'') (\<lambda>n.
       Inr \<lparr>ml_path = p, ml_status = s, ml_limit = Some n\<rparr>))
     else
       rbind (ensure (limit = PNone) (Mismatched ''unlimited memory'')) (\<lambda>_.
       Inr \<lparr>ml_path = p, ml_status = s, ml_limit = None\<rparr>)))"

definition memory_dict :: "memory_limit \<Rightarrow> pyval" where
  "memory_dict m = PDict [(''cgroup_path'', PStr (ml_path m)), (''status'', PStr (ml_status m)), (''limit_bytes'', opt_int (ml_limit m))]"

definition read_memory :: "pyval \<Rightarrow> contract_error + memory_limit" where
  "read_memory v =
     rbind (mapping v ''memory limit observation'') (\<lambda>d.
     rbind (reject_unknown d [''cgroup_path'', ''status'', ''limit_bytes''] ''memory limit observation'') (\<lambda>_.
     make_memory (get_value d ''cgroup_path'') (get_value d ''status'') (get_value d ''limit_bytes'')))"

record numa_node =
  nn_id :: int
  nn_cpus :: "int list"

definition make_node :: "pyval \<Rightarrow> pyval \<Rightarrow> contract_error + numa_node" where
  "make_node nid cpus =
     rbind (nonnegative_int nid ''numa node_id'') (\<lambda>i.
     rbind (cpu_tuple cpus ''numa cpus'') (\<lambda>cs.
     (case cs of None \<Rightarrow> Inl (BadList ''numa cpus'') | Some xs \<Rightarrow> Inr \<lparr>nn_id = i, nn_cpus = xs\<rparr>)))"

definition node_dict :: "numa_node \<Rightarrow> pyval" where
  "node_dict n = PDict [(''node_id'', PInt (nn_id n)), (''cpus'', PList (map PInt (nn_cpus n)))]"

definition read_node :: "pyval \<Rightarrow> contract_error + numa_node" where
  "read_node v =
     rbind (mapping v ''numa node observation'') (\<lambda>d.
     rbind (reject_unknown d [''node_id'', ''cpus''] ''numa node observation'') (\<lambda>_.
     rbind (list_of (get_value d ''cpus'') ''numa cpus'') (\<lambda>cs.
     make_node (get_value d ''node_id'') (PList cs))))"

end
