(* ===== verification/HostCaps.thy ===== *)
theory HostCaps
  imports HostFacts
begin

text \<open>
  \<^verbatim>\<open>controller/host_capabilities.py\<close>: the record of the capacity of a host, checked against itself, and
  its derivation from the observed facts.  A constructor with many keyword arguments takes them as
  a dictionary.
\<close>

section \<open>The record\<close>

record host_capabilities =
  hc_provider :: string
  hc_platform :: string
  hc_architecture :: string
  hc_visible :: "int option"
  hc_affinity :: "int list option"
  hc_cpuset :: "int list option"
  hc_allowed :: "int list option"
  hc_vendor :: "string option"
  hc_family :: "int option"
  hc_model :: "int option"
  hc_stepping :: "int option"
  hc_model_name :: "string option"
  hc_microcode :: "string option"
  hc_flags :: "string list"
  hc_feature_digest :: "string option"
  hc_identity_complete :: bool
  hc_quota_status :: string
  hc_quota_equivalents :: "pyfloat option"
  hc_quotas :: "cpu_quota list"
  hc_cores :: "int option"
  hc_smt :: "int option"
  hc_topology_complete :: bool
  hc_numa :: "numa_node list"
  hc_numa_complete :: bool
  hc_physical_memory :: "int option"
  hc_memory_status :: string
  hc_memory_limit :: "int option"
  hc_effective_memory :: "int option"
  hc_memory_limits :: "memory_limit list"
  hc_accelerator_complete :: bool
  hc_accelerators :: "string list"
  hc_capacity_complete :: bool
  hc_domain_complete :: bool
  hc_faults :: "string list"

definition capabilities_version :: string where
  "capabilities_version = ''host-capabilities-v2''"

definition limit_states :: "string list" where
  "limit_states = [''limited'', ''unlimited'', ''unknown'']"

definition optional_text :: "pyval \<Rightarrow> string \<Rightarrow> contract_error + string option" where
  "optional_text v label = optional nonempty_string v label"

definition feature_digest_of :: "pyval \<Rightarrow> string list \<Rightarrow> contract_error + string option" where
  "feature_digest_of v flags = (if v = PNone then Inr None
     else rbind (sha256_id v ''cpu_feature_digest'') (\<lambda>h.
       rbind (digest_value (PList (map PStr flags))) (\<lambda>x.
       rbind (ensure (h = x) (Mismatched ''cpu_feature_digest'')) (\<lambda>_. Inr (Some h)))))"

definition limited_float :: "string \<Rightarrow> pyval \<Rightarrow> contract_error + pyfloat option" where
  "limited_float status v =
     rbind (optional_positive_float v ''cpu_quota_equivalents'') (\<lambda>e.
     rbind (ensure (status = ''limited'' \<longrightarrow> e \<noteq> None) (Mismatched ''limited cpu quota'')) (\<lambda>_.
     rbind (ensure (status \<noteq> ''limited'' \<longrightarrow> e = None) (Mismatched ''non-limited cpu quota'')) (\<lambda>_. Inr e)))"

definition limited_int :: "string \<Rightarrow> pyval \<Rightarrow> contract_error + int option" where
  "limited_int status v =
     rbind (optional nonnegative_int v ''cgroup_memory_limit_bytes'') (\<lambda>m.
     rbind (ensure (status = ''limited'' \<longrightarrow> m \<noteq> None) (Mismatched ''limited cgroup memory'')) (\<lambda>_.
     rbind (ensure (status \<noteq> ''limited'' \<longrightarrow> m = None) (Mismatched ''non-limited cgroup memory'')) (\<lambda>_. Inr m)))"

definition numa_consistent :: "int list option \<Rightarrow> numa_node list \<Rightarrow> contract_error + unit" where
  "numa_consistent allowed nodes = (case allowed of
     None \<Rightarrow> Inl (Mismatched ''complete NUMA topology'')
   | Some cs \<Rightarrow>
       rbind (ensure (nodes \<noteq> []) (Mismatched ''complete NUMA topology'')) (\<lambda>_.
       (let flat = concat (map nn_cpus nodes) in
       rbind (ensure (distinct flat) (Duplicated ''NUMA node CPU assignments'')) (\<lambda>_.
       ensure (set flat = set cs) (Mismatched ''NUMA nodes'')))))"

definition capacity_facts :: "host_capabilities \<Rightarrow> bool" where
  "capacity_facts h \<longleftrightarrow> hc_platform h \<noteq> ''unknown'' \<and> hc_architecture h \<noteq> ''unknown'' \<and> hc_allowed h \<noteq> None \<and>
     hc_quota_status h \<noteq> ''unknown'' \<and> hc_memory_status h \<noteq> ''unknown'' \<and>
     (case hc_effective_memory h of None \<Rightarrow> False | Some m \<Rightarrow> 0 < m)"

text \<open>The checks of the processor identity, of topology, limits and accelerators, in the order of the code.\<close>

definition make_identity :: "(string \<times> pyval) list \<Rightarrow> host_capabilities \<Rightarrow> contract_error + host_capabilities" where
  "make_identity kw h =
     rbind (optional_text (get_value kw ''cpu_vendor_id'') ''cpu_vendor_id'') (\<lambda>vendor.
     rbind (optional_text (get_value kw ''cpu_model_name'') ''cpu_model_name'') (\<lambda>mname.
     rbind (optional_text (get_value kw ''cpu_microcode'') ''cpu_microcode'') (\<lambda>micro.
     rbind (optional nonnegative_int (get_value kw ''cpu_family'') ''cpu_family'') (\<lambda>fam.
     rbind (optional nonnegative_int (get_value kw ''cpu_model'') ''cpu_model'') (\<lambda>model.
     rbind (optional nonnegative_int (get_value kw ''cpu_stepping'') ''cpu_stepping'') (\<lambda>stepping.
     rbind (string_tuple (get_value kw ''cpu_flags_intersection'') ''cpu_flags_intersection'') (\<lambda>flags.
     rbind (feature_digest_of (get_value kw ''cpu_feature_digest'') flags) (\<lambda>fd.
     rbind (bool_of (get_value kw ''cpu_identity_complete'') ''cpu_identity_complete'') (\<lambda>ic.
     rbind (ensure (ic \<longrightarrow> vendor \<noteq> None \<and> fam \<noteq> None \<and> model \<noteq> None \<and> stepping \<noteq> None \<and> mname \<noteq> None \<and> fd \<noteq> None \<and> flags \<noteq> [])
       (Mismatched ''complete CPU identity'')) (\<lambda>_.
     Inr (h\<lparr>hc_vendor := vendor, hc_model_name := mname, hc_microcode := micro, hc_family := fam, hc_model := model,
       hc_stepping := stepping, hc_flags := flags, hc_feature_digest := fd, hc_identity_complete := ic\<rparr>)))))))))))"

definition make_topology :: "(string \<times> pyval) list \<Rightarrow> cpu_quota list \<Rightarrow> numa_node list \<Rightarrow> host_capabilities \<Rightarrow>
    contract_error + host_capabilities" where
  "make_topology kw quotas nodes h =
     rbind (enum_of limit_states (get_value kw ''cpu_quota_status'') ''cpu_quota_status'') (\<lambda>qs.
     rbind (limited_float qs (get_value kw ''cpu_quota_equivalents'')) (\<lambda>qe.
     rbind (optional positive_int (get_value kw ''physical_core_count'') ''physical_core_count'') (\<lambda>cores.
     rbind (optional positive_int (get_value kw ''smt_width'') ''smt_width'') (\<lambda>smt.
     rbind (bool_of (get_value kw ''topology_complete'') ''topology_complete'') (\<lambda>tc.
     rbind (ensure (tc \<longrightarrow> cores \<noteq> None \<and> smt \<noteq> None) (Mismatched ''complete topology'')) (\<lambda>_.
     rbind (ensure (distinct (map nn_id nodes)) (Duplicated ''NUMA node ids'')) (\<lambda>_.
     rbind (bool_of (get_value kw ''numa_complete'') ''numa_complete'') (\<lambda>nc.
     rbind (if nc then numa_consistent (hc_allowed h) nodes else Inr ()) (\<lambda>_.
     Inr (h\<lparr>hc_quota_status := qs, hc_quota_equivalents := qe, hc_quotas := quotas, hc_cores := cores, hc_smt := smt,
       hc_topology_complete := tc, hc_numa := sort_key nn_id nodes, hc_numa_complete := nc\<rparr>))))))))))"

definition make_limits :: "(string \<times> pyval) list \<Rightarrow> memory_limit list \<Rightarrow> pyval list \<Rightarrow> host_capabilities \<Rightarrow>
    contract_error + host_capabilities" where
  "make_limits kw mems accs h =
     rbind (optional positive_int (get_value kw ''physical_memory_bytes'') ''physical_memory_bytes'') (\<lambda>pm.
     rbind (enum_of limit_states (get_value kw ''cgroup_memory_status'') ''cgroup_memory_status'') (\<lambda>ms.
     rbind (limited_int ms (get_value kw ''cgroup_memory_limit_bytes'')) (\<lambda>ml.
     rbind (optional nonnegative_int (get_value kw ''effective_memory_limit_bytes'') ''effective_memory_limit_bytes'') (\<lambda>em.
     rbind (bool_of (get_value kw ''accelerator_detection_complete'') ''accelerator_detection_complete'') (\<lambda>adc.
     rbind (rmap (\<lambda>v. safe_id v ''accelerators'') accs) (\<lambda>xs.
     rbind (ensure (distinct xs) (Duplicated ''accelerators'')) (\<lambda>_.
     Inr (h\<lparr>hc_physical_memory := pm, hc_memory_status := ms, hc_memory_limit := ml, hc_effective_memory := em,
       hc_memory_limits := mems, hc_accelerator_complete := adc, hc_accelerators := sort xs\<rparr>))))))))"

definition blank_capabilities :: host_capabilities where
  "blank_capabilities = \<lparr>hc_provider = [], hc_platform = [], hc_architecture = [], hc_visible = None, hc_affinity = None,
     hc_cpuset = None, hc_allowed = None, hc_vendor = None, hc_family = None, hc_model = None, hc_stepping = None,
     hc_model_name = None, hc_microcode = None, hc_flags = [], hc_feature_digest = None, hc_identity_complete = False,
     hc_quota_status = [], hc_quota_equivalents = None, hc_quotas = [], hc_cores = None, hc_smt = None,
     hc_topology_complete = False, hc_numa = [], hc_numa_complete = False, hc_physical_memory = None,
     hc_memory_status = [], hc_memory_limit = None, hc_effective_memory = None, hc_memory_limits = [],
     hc_accelerator_complete = False, hc_accelerators = [], hc_capacity_complete = False, hc_domain_complete = False,
     hc_faults = []\<rparr>"

definition make_capabilities :: "(string \<times> pyval) list \<Rightarrow> cpu_quota list \<Rightarrow> numa_node list \<Rightarrow> memory_limit list \<Rightarrow> pyval list \<Rightarrow>
    contract_error + host_capabilities" where
  "make_capabilities kw quotas nodes mems accs =
     rbind (ensure (get_value kw ''version'' = PStr capabilities_version) (BadVersion ''host capabilities'')) (\<lambda>_.
     rbind (safe_id (get_value kw ''provider_id'') ''host provider_id'') (\<lambda>provider.
     rbind (safe_id (get_value kw ''platform'') ''host platform'') (\<lambda>platform.
     rbind (safe_id (get_value kw ''architecture'') ''host architecture'') (\<lambda>architecture.
     rbind (optional positive_int (get_value kw ''os_visible_logical_cpus'') ''os_visible_logical_cpus'') (\<lambda>visible.
     rbind (cpu_tuple (get_value kw ''affinity_cpus'') ''affinity_cpus'') (\<lambda>affinity.
     rbind (cpu_tuple (get_value kw ''cgroup_cpuset_effective'') ''cgroup_cpuset_effective'') (\<lambda>cpuset.
     rbind (cpu_tuple (get_value kw ''allowed_cpus'') ''allowed_cpus'') (\<lambda>allowed.
     rbind (make_identity kw (blank_capabilities\<lparr>hc_provider := provider, hc_platform := platform,
       hc_architecture := architecture, hc_visible := visible, hc_affinity := affinity, hc_cpuset := cpuset,
       hc_allowed := allowed\<rparr>)) (\<lambda>h1.
     rbind (make_topology kw quotas nodes h1) (\<lambda>h2.
     rbind (make_limits kw mems accs h2) (\<lambda>h.
     rbind (bool_of (get_value kw ''capacity_complete'') ''capacity_complete'') (\<lambda>cc.
     rbind (ensure (cc = capacity_facts h) (Mismatched ''capacity_complete'')) (\<lambda>_.
     rbind (bool_of (get_value kw ''qualification_domain_complete'') ''qualification_domain_complete'') (\<lambda>dc.
     rbind (ensure (dc = (cc \<and> hc_identity_complete h)) (Mismatched ''qualification_domain_complete'')) (\<lambda>_.
     rbind (fault_tuple (get_value kw ''faults'') ''host faults'') (\<lambda>faults.
     Inr (h\<lparr>hc_capacity_complete := cc, hc_domain_complete := dc, hc_faults := faults\<rparr>)))))))))))))))))"

definition capabilities_fields :: "host_capabilities \<Rightarrow> (string \<times> pyval) list" where
  "capabilities_fields h = [
     (''schema_version'', schema_version), (''version'', PStr capabilities_version), (''provider_id'', PStr (hc_provider h)),
     (''platform'', PStr (hc_platform h)), (''architecture'', PStr (hc_architecture h)),
     (''os_visible_logical_cpus'', opt_int (hc_visible h)), (''affinity_cpus'', opt_ints (hc_affinity h)),
     (''cgroup_cpuset_effective'', opt_ints (hc_cpuset h)), (''allowed_cpus'', opt_ints (hc_allowed h)),
     (''cpu_vendor_id'', opt_text (hc_vendor h)), (''cpu_family'', opt_int (hc_family h)),
     (''cpu_model'', opt_int (hc_model h)), (''cpu_stepping'', opt_int (hc_stepping h)),
     (''cpu_model_name'', opt_text (hc_model_name h)), (''cpu_microcode'', opt_text (hc_microcode h)),
     (''cpu_flags_intersection'', PList (map PStr (hc_flags h))), (''cpu_feature_digest'', opt_text (hc_feature_digest h)),
     (''cpu_identity_complete'', PBool (hc_identity_complete h)), (''cpu_quota_status'', PStr (hc_quota_status h)),
     (''cpu_quota_equivalents'', opt_float (hc_quota_equivalents h)),
     (''cpu_quota_observations'', PList (map quota_dict (hc_quotas h))),
     (''physical_core_count'', opt_int (hc_cores h)), (''smt_width'', opt_int (hc_smt h)),
     (''topology_complete'', PBool (hc_topology_complete h)), (''numa_nodes'', PList (map node_dict (hc_numa h))),
     (''numa_complete'', PBool (hc_numa_complete h)), (''physical_memory_bytes'', opt_int (hc_physical_memory h)),
     (''cgroup_memory_status'', PStr (hc_memory_status h)), (''cgroup_memory_limit_bytes'', opt_int (hc_memory_limit h)),
     (''effective_memory_limit_bytes'', opt_int (hc_effective_memory h)),
     (''memory_limit_observations'', PList (map memory_dict (hc_memory_limits h))),
     (''accelerator_detection_complete'', PBool (hc_accelerator_complete h)),
     (''accelerators'', PList (map PStr (hc_accelerators h))), (''capacity_complete'', PBool (hc_capacity_complete h)),
     (''qualification_domain_complete'', PBool (hc_domain_complete h)), (''faults'', PList (map PStr (hc_faults h))),
     (''authority'', marker ''resource_context'')]"

definition capabilities_dict :: "host_capabilities \<Rightarrow> pyval" where
  "capabilities_dict h = PDict (capabilities_fields h)"

definition capabilities_keys :: "string list" where
  "capabilities_keys = map fst (capabilities_fields blank_capabilities)"

text \<open>\<open>tuple(x)\<close> of a decoded value that is not \<open>None\<close>.\<close>

definition tuple_of :: "pyval \<Rightarrow> contract_error + pyval" where
  "tuple_of v = (case v of
     PNone \<Rightarrow> Inr PNone
   | PList xs \<Rightarrow> Inr (PList xs)
   | PStr s \<Rightarrow> Inr (PList (map (\<lambda>c. PStr [c]) s))
   | PDict d \<Rightarrow> Inr (PList (map (PStr \<circ> fst) d))
   | _ \<Rightarrow> Inl (WrongType ''not iterable''))"

definition read_capabilities :: "pyval \<Rightarrow> contract_error + host_capabilities" where
  "read_capabilities v =
     rbind (mapping v ''host capabilities'') (\<lambda>d.
     rbind (ensure (py_eq (get_value d ''schema_version'') schema_version) (BadVersion ''host capabilities'')) (\<lambda>_.
     rbind (reject_unknown d capabilities_keys ''host capabilities'') (\<lambda>_.
     rbind (ensure (py_eq (get_value d ''authority'') (marker ''resource_context'')) (BadMarker ''host capabilities'')) (\<lambda>_.
     rbind (list_of (get_or d ''cpu_quota_observations'' (PList [])) ''host observation collections'') (\<lambda>quotas.
     rbind (list_of (get_or d ''memory_limit_observations'' (PList [])) ''host observation collections'') (\<lambda>mems.
     rbind (list_of (get_or d ''numa_nodes'' (PList [])) ''host observation collections'') (\<lambda>nodes.
     rbind (list_of (get_or d ''cpu_flags_intersection'' (PList [])) ''host observation collections'') (\<lambda>flags.
     rbind (list_of (get_or d ''accelerators'' (PList [])) ''accelerators/faults'') (\<lambda>accs.
     rbind (list_of (get_or d ''faults'' (PList [])) ''accelerators/faults'') (\<lambda>faults.
     rbind (tuple_of (get_value d ''affinity_cpus'')) (\<lambda>affinity.
     rbind (tuple_of (get_value d ''cgroup_cpuset_effective'')) (\<lambda>cpuset.
     rbind (tuple_of (get_value d ''allowed_cpus'')) (\<lambda>allowed.
     rbind (rmap read_quota quotas) (\<lambda>qs.
     rbind (rmap read_node nodes) (\<lambda>ns.
     rbind (rmap read_memory mems) (\<lambda>ms.
     make_capabilities ([(''affinity_cpus'', affinity), (''cgroup_cpuset_effective'', cpuset), (''allowed_cpus'', allowed),
       (''cpu_flags_intersection'', PList flags), (''faults'', PList faults)] @ d) qs ns ms accs))))))))))))))))"

definition capabilities_digest :: "host_capabilities \<Rightarrow> contract_error + string" where
  "capabilities_digest h = digest_value (capabilities_dict h)"

definition capability_id :: "host_capabilities \<Rightarrow> contract_error + string" where
  "capability_id h = rbind (capabilities_digest h) (\<lambda>x. Inr (''host-cap/'' @ take 16 x))"

end
