(* ===== verification/HostBuild.thy ===== *)
theory HostBuild
  imports HostCaps
begin

text \<open>
  \<^verbatim>\<open>controller/host_capabilities.py\<close>, continued: the identity of a class of equivalent hosts, and the
  record derived from the facts that \<^verbatim>\<open>adapters/resource/linux_host.py\<close> observed.
\<close>

section \<open>The qualification domain\<close>

definition memory_class :: "int \<Rightarrow> int" where
  "memory_class bytes = (let mib = bytes div (1024 * 1024) in if mib < 256 then mib else (mib div 256) * 256)"

definition list_length :: "'a list \<Rightarrow> int" where
  "list_length xs = int (length xs)"

definition domain_material :: "host_capabilities \<Rightarrow> pyval option" where
  "domain_material h = (if \<not> hc_domain_complete h then None else
     case (hc_allowed h, hc_effective_memory h) of
       (Some allowed, Some mem) \<Rightarrow> Some (PDict [
         (''schema_version'', PInt 1), (''platform'', PStr (hc_platform h)), (''architecture'', PStr (hc_architecture h)),
         (''cpu'', PDict [(''vendor_id'', opt_text (hc_vendor h)), (''family'', opt_int (hc_family h)),
            (''model'', opt_int (hc_model h)), (''stepping'', opt_int (hc_stepping h)), (''microcode'', opt_text (hc_microcode h)),
            (''feature_digest'', opt_text (hc_feature_digest h)), (''allowed_logical_cpus'', PInt (list_length allowed))]),
         (''topology'', PDict [(''complete'', PBool (hc_topology_complete h)),
            (''physical_cores'', if hc_topology_complete h then opt_int (hc_cores h) else PNone),
            (''smt_width'', if hc_topology_complete h then opt_int (hc_smt h) else PNone)]),
         (''numa'', PDict [(''complete'', PBool (hc_numa_complete h)),
            (''node_count'', if hc_numa_complete h then PInt (list_length (hc_numa h)) else PNone),
            (''logical_cpu_counts'', PList (map PInt (if hc_numa_complete h
               then sort (map (list_length \<circ> nn_cpus) (hc_numa h)) else [])))]),
         (''limits'', PDict [(''cpu_quota_status'', PStr (hc_quota_status h)),
            (''cpu_quota_equivalents'', opt_float (hc_quota_equivalents h)), (''memory_class_mib'', PInt (memory_class mem))])])
     | _ \<Rightarrow> None)"

definition domain_digest :: "host_capabilities \<Rightarrow> contract_error + string option" where
  "domain_digest h = (case domain_material h of None \<Rightarrow> Inr None | Some m \<Rightarrow> rbind (digest_value m) (\<lambda>x. Inr (Some x)))"

definition domain_id :: "host_capabilities \<Rightarrow> contract_error + string option" where
  "domain_id h = rbind (domain_digest h) (\<lambda>x. Inr (map_option (\<lambda>t. ''host-domain/'' @ take 20 t) x))"

definition int_text :: "int \<Rightarrow> contract_error + string" where
  "int_text i = (case py_str_int i of None \<Rightarrow> Inl (WrongValue ''int text'') | Some t \<Rightarrow> Inr t)"

definition host_class :: "host_capabilities \<Rightarrow> contract_error + string" where
  "host_class h = (if \<not> hc_domain_complete h then Inr ''unknown'' else
     case (hc_allowed h, hc_vendor h, hc_family h, hc_model h, hc_stepping h) of
       (Some allowed, Some vendor, Some fam, Some model, Some stepping) \<Rightarrow>
         rbind (int_text fam) (\<lambda>f. rbind (int_text model) (\<lambda>m. rbind (int_text stepping) (\<lambda>s.
         rbind (int_text (list_length allowed)) (\<lambda>n.
         Inr (hc_platform h @ ''/'' @ hc_architecture h @ ''/'' @ vendor @ ''-f'' @ f @ ''-m'' @ m @ ''-s'' @ s @ ''/cpu-'' @ n)))))
     | _ \<Rightarrow> Inr ''unknown'')"

section \<open>Observed facts\<close>

record cpu_max_fact =
  cm_path :: string
  cm_quota :: "int option"
  cm_period :: int

record memory_max_fact =
  mm_path :: string
  mm_limit :: "int option"

record topology_fact =
  tf_cpu :: int
  tf_package :: int
  tf_core :: int
  tf_siblings :: "int list"

record identity_fact =
  if_cpu :: int
  if_vendor :: string
  if_family :: int
  if_model :: int
  if_stepping :: int
  if_model_name :: string
  if_microcode :: "string option"
  if_flags :: "string list"

record numa_fact =
  nf_id :: int
  nf_cpus :: "int list"

record host_facts =
  hf_provider :: string
  hf_platform :: "string option"
  hf_architecture :: "string option"
  hf_visible :: "int option"
  hf_affinity :: "int list option"
  hf_cgroup :: "string option"
  hf_cpuset :: "int list option"
  hf_cpu_chain :: "cpu_max_fact list"
  hf_cpu_complete :: bool
  hf_memory_chain :: "memory_max_fact list"
  hf_memory_complete :: bool
  hf_physical_memory :: "int option"
  hf_topology :: "topology_fact list"
  hf_topology_complete :: bool
  hf_identity :: "identity_fact list"
  hf_identity_complete :: bool
  hf_numa :: "numa_fact list"
  hf_numa_complete :: bool
  hf_faults :: "string list"

definition equivalent_cpus :: "cpu_max_fact \<Rightarrow> contract_error + pyfloat option" where
  "equivalent_cpus f = (case cm_quota f of None \<Rightarrow> Inr None | Some q \<Rightarrow> rbind (int_ratio q (cm_period f)) (\<lambda>x. Inr (Some x)))"

section \<open>Derivation\<close>

text \<open>The processors that the affinity and the cpuset both allow; an empty intersection is a contradiction.\<close>

definition allowed_cpus :: "host_facts \<Rightarrow> int list option \<times> string list" where
  "allowed_cpus f = (case (hf_affinity f, hf_cpuset f) of
     (Some a, Some c) \<Rightarrow>
       (let both = sort (remdups (filter (\<lambda>x. x \<in> set c) a)) in
        if both = [] then (None, [''allowed-cpus:contradiction:affinity-cpuset-empty'']) else (Some both, []))
   | (Some a, None) \<Rightarrow> (Some a, [])
   | (None, c) \<Rightarrow> (c, []))"

definition same_cpus :: "int list \<Rightarrow> int list option \<Rightarrow> bool" where
  "same_cpus xs allowed \<longleftrightarrow> (case allowed of None \<Rightarrow> False | Some cs \<Rightarrow> set xs = set cs)"

definition quota_of_fact :: "cpu_max_fact \<Rightarrow> contract_error + cpu_quota" where
  "quota_of_fact f = rbind (equivalent_cpus f) (\<lambda>e.
     make_quota (PStr (cm_path f)) (opt_int (cm_quota f)) (PInt (cm_period f)) (opt_float e))"

text \<open>\<open>min\<close> of a non-empty list: the first of the least elements.\<close>

fun min_by :: "('a \<Rightarrow> 'a \<Rightarrow> bool) \<Rightarrow> 'a \<Rightarrow> 'a list \<Rightarrow> 'a" where
  "min_by lt m [] = m"
| "min_by lt m (x # xs) = min_by lt (if lt x m then x else m) xs"

definition quota_limit :: "bool \<Rightarrow> cpu_quota list \<Rightarrow> string \<times> pyfloat option" where
  "quota_limit whole qs = (if \<not> whole then (''unknown'', None)
     else case List.map_filter cq_equivalent qs of
       [] \<Rightarrow> (''unlimited'', None)
     | x # xs \<Rightarrow> (''limited'', Some (min_by f_less x xs)))"

definition core_counts :: "topology_fact list \<Rightarrow> ((int \<times> int) \<times> int) list" where
  "core_counts ts = fold (\<lambda>t d. let k = (tf_package t, tf_core t) in
     dict_set k ((case dict_get d k of None \<Rightarrow> 0 | Some n \<Rightarrow> n) + 1) d) ts []"

definition topology_of :: "host_facts \<Rightarrow> int list option \<Rightarrow> contract_error + bool \<times> int option \<times> int option" where
  "topology_of f allowed =
     (if hf_topology_complete f \<and> same_cpus (map tf_cpu (hf_topology f)) allowed then
        (let counts = core_counts (hf_topology f) in
         if counts = [] then Inl (WrongValue ''max of nothing'')
         else Inr (True, Some (list_length counts), Some (Max (snd ` set counts))))
      else Inr (False, None, None))"

definition signature :: "identity_fact \<Rightarrow> string \<times> int \<times> int \<times> int" where
  "signature f = (if_vendor f, if_family f, if_model f, if_stepping f)"

definition common_flags :: "identity_fact list \<Rightarrow> string list" where
  "common_flags fs = (case fs of [] \<Rightarrow> [] | g # gs \<Rightarrow>
     sort (remdups (filter (\<lambda>x. list_all (\<lambda>h. x \<in> set (if_flags h)) gs) (if_flags g))))"

text \<open>The keyword arguments of the processor identity, and the faults they leave.\<close>

definition identity_kw :: "string option \<Rightarrow> int option \<Rightarrow> int option \<Rightarrow> int option \<Rightarrow> string option \<Rightarrow> string option \<Rightarrow> string list \<Rightarrow>
    string option \<Rightarrow> bool \<Rightarrow> (string \<times> pyval) list" where
  "identity_kw vendor fam model stepping mname micro flags fd ic = [
     (''cpu_vendor_id'', opt_text vendor), (''cpu_family'', opt_int fam), (''cpu_model'', opt_int model),
     (''cpu_stepping'', opt_int stepping), (''cpu_model_name'', opt_text mname), (''cpu_microcode'', opt_text micro),
     (''cpu_flags_intersection'', PList (map PStr flags)), (''cpu_feature_digest'', opt_text fd),
     (''cpu_identity_complete'', PBool ic)]"

definition microcode_of :: "identity_fact list \<Rightarrow> string option \<times> bool" where
  "microcode_of fs = (let nonnull = remdups (List.map_filter if_microcode fs) in
     if 1 < length nonnull \<or> (nonnull \<noteq> [] \<and> list_ex (\<lambda>f. if_microcode f = None) fs) then (None, False)
     else (case nonnull of [] \<Rightarrow> (None, True) | m # _ \<Rightarrow> (Some m, True)))"

definition identity_of :: "host_facts \<Rightarrow> int list option \<Rightarrow> contract_error + bool \<times> (string \<times> pyval) list \<times> string list" where
  "identity_of f allowed = (let fs = hf_identity f in
     if \<not> (hf_identity_complete f \<and> same_cpus (map if_cpu fs) allowed)
     then Inr (False, identity_kw None None None None None None [] None False, [])
     else if length (remdups (map signature fs)) \<noteq> 1
     then Inr (False, identity_kw None None None None None None [] None False, [''cpuinfo:heterogeneous-effective-cpus''])
     else
       (let g = hd fs; (micro, micro_ok) = microcode_of fs; flags = common_flags fs;
          same_flags = (length (remdups (map if_flags fs)) = 1);
          ic = (micro_ok \<and> same_flags \<and> flags \<noteq> []);
          faults = (if micro_ok then [] else [''cpuinfo:heterogeneous-microcode'']) @
            (if same_flags then [] else [''cpuinfo:heterogeneous-feature-flags'']) @
            (if flags = [] then [''cpuinfo:empty-feature-intersection''] else []) in
        rbind (if flags = [] then Inr None else rbind (digest_value (PList (map PStr flags))) (\<lambda>x. Inr (Some x))) (\<lambda>fd.
        Inr (ic, identity_kw (Some (if_vendor g)) (Some (if_family g)) (Some (if_model g)) (Some (if_stepping g))
          (Some (py_join '' | '' (sort (remdups (map if_model_name fs))))) micro flags fd ic, faults))))"

definition memory_of_fact :: "memory_max_fact \<Rightarrow> contract_error + memory_limit" where
  "memory_of_fact f = make_memory (PStr (mm_path f))
     (PStr (if mm_limit f = None then ''unlimited'' else ''limited'')) (opt_int (mm_limit f))"

definition memory_limit_of :: "bool \<Rightarrow> memory_limit list \<Rightarrow> string \<times> int option" where
  "memory_limit_of whole ms = (if \<not> whole then (''unknown'', None)
     else case List.map_filter ml_limit ms of
       [] \<Rightarrow> (''unlimited'', None)
     | x # xs \<Rightarrow> (''limited'', Some (min_by (<) x xs)))"

definition effective_memory :: "int option \<Rightarrow> int option \<Rightarrow> int option" where
  "effective_memory phys cg = (case phys of
     None \<Rightarrow> cg
   | Some p \<Rightarrow> (case cg of None \<Rightarrow> Some p | Some c \<Rightarrow> Some (min p c)))"

definition or_unknown :: "string option \<Rightarrow> string" where
  "or_unknown v = (case v of None \<Rightarrow> ''unknown'' | Some t \<Rightarrow> if t = [] then ''unknown'' else t)"

definition build_host_capabilities :: "host_facts \<Rightarrow> contract_error + host_capabilities" where
  "build_host_capabilities f =
     (let (allowed, allowed_faults) = allowed_cpus f in
     rbind (rmap quota_of_fact (hf_cpu_chain f)) (\<lambda>quotas.
     (let (quota_status, quota_eq) = quota_limit (hf_cpu_complete f) quotas in
     rbind (topology_of f allowed) (\<lambda>(topology_complete, cores, smt).
     rbind (identity_of f allowed) (\<lambda>(ic, id_kw, id_faults).
     rbind (rmap (\<lambda>n. make_node (PInt (nf_id n)) (PList (map PInt (nf_cpus n)))) (hf_numa f)) (\<lambda>nodes.
     (let numa_complete = (hf_numa_complete f \<and> same_cpus (concat (map nn_cpus nodes)) allowed) in
     rbind (rmap memory_of_fact (hf_memory_chain f)) (\<lambda>mems.
     (let (memory_status, memory_lim) = memory_limit_of (hf_memory_complete f) mems;
          effective = effective_memory (hf_physical_memory f) memory_lim;
          platform = or_unknown (hf_platform f); architecture = or_unknown (hf_architecture f);
          capacity = (platform \<noteq> ''unknown'' \<and> architecture \<noteq> ''unknown'' \<and> (case allowed of None \<Rightarrow> False | Some cs \<Rightarrow> cs \<noteq> []) \<and>
            quota_status \<noteq> ''unknown'' \<and> memory_status \<noteq> ''unknown'' \<and> (case effective of None \<Rightarrow> False | Some m \<Rightarrow> 0 < m)) in
     make_capabilities ([
       (''version'', PStr capabilities_version), (''provider_id'', PStr (hf_provider f)), (''platform'', PStr platform),
       (''architecture'', PStr architecture), (''os_visible_logical_cpus'', opt_int (hf_visible f)),
       (''affinity_cpus'', opt_ints (hf_affinity f)), (''cgroup_cpuset_effective'', opt_ints (hf_cpuset f)),
       (''allowed_cpus'', opt_ints allowed), (''cpu_quota_status'', PStr quota_status),
       (''cpu_quota_equivalents'', opt_float quota_eq), (''physical_core_count'', opt_int cores), (''smt_width'', opt_int smt),
       (''topology_complete'', PBool topology_complete), (''numa_complete'', PBool numa_complete),
       (''physical_memory_bytes'', opt_int (hf_physical_memory f)), (''cgroup_memory_status'', PStr memory_status),
       (''cgroup_memory_limit_bytes'', opt_int memory_lim), (''effective_memory_limit_bytes'', opt_int effective),
       (''accelerator_detection_complete'', PBool False), (''capacity_complete'', PBool capacity),
       (''qualification_domain_complete'', PBool (capacity \<and> ic)),
       (''faults'', PList (map PStr (hf_faults f @ allowed_faults @ id_faults)))] @ id_kw) quotas nodes mems [])))))))))"

end
