(* ===== verification/MovePlan.thy ===== *)
theory MovePlan
  imports HostBuild TimePlan
begin

text \<open>
  \<^verbatim>\<open>controller/move_resource_plan.py\<close> and \<^verbatim>\<open>controller/adaptive_time.py\<close>: the resource ceiling of one move
  below its time plan.  It may reduce the envelope of the move by what is known of the host; it
  never extends it.
\<close>

section \<open>The time plan as a dictionary\<close>

definition envelope_fields :: "envelope \<Rightarrow> pyval" where
  "envelope_fields E = PDict [
     (''wall_ms'', PFloat (env_wall E)), (''cpu_ms'', PFloat (env_cpu E)), (''gpu_ms'', PFloat (env_gpu E)),
     (''verification_reserve_fraction'', PFloat (env_verify_fraction E)),
     (''refinement_reserve_fraction'', PFloat (env_refine_fraction E)),
     (''controller_overhead_reserve_ms'', PFloat (env_controller E))]"

definition settings_dict :: "time_settings \<Rightarrow> pyval" where
  "settings_dict s = PDict [
     (''policy'', PStr online_policy), (''moves_horizon'', PInt (ts_moves_horizon s)),
     (''increment_fraction'', PFloat (ts_increment_fraction s)), (''max_move_ms'', PInt (ts_max_move s)),
     (''network_reserve_ms'', PInt (ts_network_reserve s)), (''stop_grace_ms'', PInt (ts_stop_grace s)),
     (''output_margin_ms'', PInt (ts_output_margin s)), (''prepare_budget_ms'', PInt (ts_prepare_budget s)),
     (''quiesce_budget_ms'', PInt (ts_quiesce_budget s)), (''cpu_parallelism'', PInt (ts_cpu_parallelism s))]"

definition time_plan_fields :: "time_plan \<Rightarrow> (string \<times> pyval) list" where
  "time_plan_fields p = [
     (''generation'', PInt (tp_generation p)), (''position_id'', PStr (tp_position_id p)), (''side_to_move'', PStr (tp_side p)),
     (''request_class'', PStr (tp_request_class p)), (''external_go_command'', PStr (tp_external p)),
     (''anchor_go_command'', PStr (tp_anchor p)), (''received_monotonic'', PFloat (tp_received p)),
     (''controller_cpu_started_ns'', PInt (tp_cpu_started p)), (''available_clock_ms'', PInt (tp_available p)),
     (''increment_ms'', PInt (tp_increment p)), (''moves_to_go'', opt_int (tp_moves_to_go p)),
     (''soft_budget_ms'', PInt (tp_soft p)), (''hard_budget_ms'', PInt (tp_hard p)),
     (''prepare_budget_ms'', PInt (tp_prepare p)), (''network_reserve_ms'', PInt (tp_network_reserve p)),
     (''output_margin_ms'', PInt (tp_output_margin p)), (''envelope'', envelope_fields (tp_envelope p)),
     (''declared_envelope'', envelope_fields (tp_declared p)), (''settings'', settings_dict (tp_settings p)),
     (''policy'', PStr online_policy), (''resource_partition_policy'', PStr ''absolute-controller-v2''),
     (''schema_version'', PInt 1),
     (''clock_basis'', PStr ''UCI clocks supplied by caller; any bridge adjustment is upstream''),
     (''authority'', PDict [(''timing'', PBool True), (''outward_move'', PBool False)])]"

definition time_plan_id :: "time_plan \<Rightarrow> contract_error + string" where
  "time_plan_id p = rbind (digest_value (PDict (time_plan_fields p))) (\<lambda>h. Inr (''time-'' @ h))"

definition time_plan_dict :: "time_plan \<Rightarrow> contract_error + pyval" where
  "time_plan_dict p = rbind (time_plan_id p) (\<lambda>i. Inr (PDict (time_plan_fields p @ [(''plan_id'', PStr i)])))"

section \<open>The resource plan\<close>

datatype plan_error =
    Contract contract_error
  | Envelope budget_error
  | GoLimits request_error
  | Adaptive string

definition in_contract :: "contract_error + 'a \<Rightarrow> plan_error + 'a" where
  "in_contract m = map_sum Contract id m"

definition plan_version :: string where
  "plan_version = ''move-resource-plan-v1''"

definition dispositions :: "string list" where
  "dispositions = [''ADAPTIVE'', ''FALLBACK'']"

definition envelope_names :: "string list" where
  "envelope_names = [''wall_ms'', ''cpu_ms'', ''gpu_ms'', ''verification_reserve_fraction'',
     ''refinement_reserve_fraction'', ''controller_overhead_reserve_ms'']"

definition read_envelope :: "pyval \<Rightarrow> plan_error + envelope" where
  "read_envelope v =
     rbind (in_contract (mapping v ''move resource envelope'')) (\<lambda>d.
     rbind (in_contract (reject_unknown d envelope_names ''move resource envelope'')) (\<lambda>_.
     rbind (ensure (set envelope_names \<subseteq> set (dict_keys d)) (Contract (contract_error.UnknownKeys ''missing fields''))) (\<lambda>_.
     map_sum Envelope id (resource_envelope (get_value d ''wall_ms'') (get_value d ''cpu_ms'') (get_value d ''gpu_ms'')
       (get_value d ''verification_reserve_fraction'') (get_value d ''refinement_reserve_fraction'')
       (get_value d ''controller_overhead_reserve_ms'')))))"

record move_plan =
  mp_policy :: string
  mp_generation :: int
  mp_position :: string
  mp_time_plan :: string
  mp_environment :: game_environment
  mp_host :: "host_capabilities option"
  mp_catalog :: string
  mp_catalog_digest :: string
  mp_composition :: composition
  mp_envelope :: envelope
  mp_soft :: int
  mp_hard :: int
  mp_prepare :: int
  mp_margin :: int
  mp_parallelism :: "pyfloat option"
  mp_allocator :: string
  mp_disposition :: string
  mp_fallback_policy :: string
  mp_fallback_profile :: string
  mp_fallback_reason :: "string option"

definition prefixed_digest :: "string \<Rightarrow> pyval \<Rightarrow> string \<Rightarrow> contract_error + string" where
  "prefixed_digest pre v label = (case v of
     PStr s \<Rightarrow> if take (length pre) s = pre \<and> sha256_text (drop (length pre) s) then Inr s else Inl (BadText label)
   | _ \<Rightarrow> Inl (BadText label))"

definition positive_float :: "pyval \<Rightarrow> string \<Rightarrow> contract_error + pyfloat" where
  "positive_float v label = (case as_float v of
     None \<Rightarrow> Inl (BadNumber label)
   | Some None \<Rightarrow> Inl (contract_error.FloatOverflow label)
   | Some (Some x) \<Rightarrow> if \<not> f_finite x \<or> f_le x (Fin 0) then Inl (BadNumber label) else Inr x)"

text \<open>What the disposition of a plan requires of its host facts.\<close>

definition check_disposition :: "string \<Rightarrow> host_capabilities option \<Rightarrow> pyfloat option \<Rightarrow> pyval \<Rightarrow> pyval \<Rightarrow>
    contract_error + string option" where
  "check_disposition disposition host parallelism reason claim =
     (if disposition = ''ADAPTIVE'' then
        rbind (ensure (reason = PNone) (Mismatched ''fallback_reason'')) (\<lambda>_.
        rbind (ensure (host \<noteq> None) (Mismatched ''host capabilities'')) (\<lambda>_.
        rbind (ensure (parallelism \<noteq> None) (Mismatched ''effective_parallelism'')) (\<lambda>_.
        rbind (ensure (claim = PBool True) (Mismatched ''host-capacity clamp'')) (\<lambda>_. Inr None))))
      else
        rbind (safe_id reason ''fallback_reason'') (\<lambda>r.
        rbind (ensure (claim = PBool False) (Mismatched ''host capacity'')) (\<lambda>_. Inr (Some r))))"

definition make_move_plan :: "(string \<times> pyval) list \<Rightarrow> game_environment \<Rightarrow> host_capabilities option \<Rightarrow> composition \<Rightarrow> envelope \<Rightarrow>
    contract_error + move_plan" where
  "make_move_plan kw env host cmp E =
     rbind (ensure (get_value kw ''plan_version'' = PStr plan_version) (BadVersion ''move resource plan'')) (\<lambda>_.
     rbind (safe_id (get_value kw ''policy_id'') ''move resource policy_id'') (\<lambda>policy.
     rbind (positive_int (get_value kw ''generation'') ''move resource generation'') (\<lambda>gen.
     rbind (nonempty_string (get_value kw ''position_id'') ''move resource position_id'') (\<lambda>pos.
     rbind (prefixed_digest ''time-'' (get_value kw ''baseline_time_plan_id'') ''baseline_time_plan_id'') (\<lambda>tpid.
     rbind (safe_id (get_value kw ''catalog_id'') ''move resource catalog_id'') (\<lambda>cat.
     rbind (sha256_id (get_value kw ''catalog_digest'') ''move resource catalog_digest'') (\<lambda>cd.
     rbind (ensure (\<not> (f_le (env_wall E) (Fin 0) \<or> f_le (env_cpu E) (Fin 0) \<or> env_gpu E \<noteq> Fin 0)) (BadNumber ''CPU-only envelope'')) (\<lambda>_.
     rbind (positive_int (get_value kw ''soft_budget_ms'') ''soft_budget_ms'') (\<lambda>soft.
     rbind (positive_int (get_value kw ''hard_ceiling_ms'') ''hard_ceiling_ms'') (\<lambda>hard.
     rbind (nonnegative_int (get_value kw ''prepare_budget_ms'') ''prepare_budget_ms'') (\<lambda>prep.
     rbind (positive_int (get_value kw ''output_margin_ms'') ''output_margin_ms'') (\<lambda>margin.
     rbind (ensure (soft < hard) (BadNumber ''soft_budget_ms'')) (\<lambda>_.
     rbind (optional positive_float (get_value kw ''effective_parallelism'') ''effective_parallelism'') (\<lambda>par.
     rbind (safe_id (get_value kw ''allocator_policy_id'') ''allocator_policy_id'') (\<lambda>alloc.
     rbind (enum_of dispositions (get_value kw ''disposition'') ''disposition'') (\<lambda>disp.
     rbind (safe_id (get_value kw ''fallback_policy'') ''fallback_policy'') (\<lambda>fpol.
     rbind (safe_id (get_value kw ''fallback_profile'') ''fallback_profile'') (\<lambda>fprof.
     rbind (check_disposition disp host par (get_value kw ''fallback_reason'') (get_value kw ''host_capacity_claim'')) (\<lambda>reason.
     rbind (ensure (get_value kw ''composition_qualification_established'' = PBool False) (Mismatched ''qualification'')) (\<lambda>_.
     rbind (ensure (get_value kw ''generic_host_portability_established'' = PBool False) (Mismatched ''portability'')) (\<lambda>_.
     Inr \<lparr>mp_policy = policy, mp_generation = gen, mp_position = pos, mp_time_plan = tpid, mp_environment = env, mp_host = host,
       mp_catalog = cat, mp_catalog_digest = cd, mp_composition = cmp, mp_envelope = E, mp_soft = soft, mp_hard = hard,
       mp_prepare = prep, mp_margin = margin, mp_parallelism = par, mp_allocator = alloc, mp_disposition = disp,
       mp_fallback_policy = fpol, mp_fallback_profile = fprof, mp_fallback_reason = reason\<rparr>)))))))))))))))))))))"

definition capacity_claim :: "move_plan \<Rightarrow> bool" where
  "capacity_claim p \<longleftrightarrow> mp_disposition p = ''ADAPTIVE''"

definition claim_boundary :: "bool \<Rightarrow> pyval" where
  "claim_boundary claim = PDict [
     (''adaptive_resource_ceiling'', PBool claim), (''composition_qualification'', PBool False),
     (''runtime_profile_selection'', PBool False), (''work_grant'', PBool False), (''outward_move'', PBool False),
     (''strength'', PBool False), (''elo'', PBool False), (''equal_compute'', PBool False), (''deployment'', PBool False)]"

definition move_plan_payload :: "move_plan \<Rightarrow> (string \<times> pyval) list" where
  "move_plan_payload p = [
     (''schema_version'', schema_version), (''plan_version'', PStr plan_version), (''policy_id'', PStr (mp_policy p)),
     (''generation'', PInt (mp_generation p)), (''position_id'', PStr (mp_position p)),
     (''baseline_time_plan_id'', PStr (mp_time_plan p)), (''game_environment'', environment_dict (mp_environment p)),
     (''host_capabilities'', case mp_host p of None \<Rightarrow> PNone | Some h \<Rightarrow> capabilities_dict h),
     (''catalog_id'', PStr (mp_catalog p)), (''catalog_digest'', PStr (mp_catalog_digest p)),
     (''composition'', composition_dict (mp_composition p)), (''resource_envelope'', envelope_fields (mp_envelope p)),
     (''soft_budget_ms'', PInt (mp_soft p)), (''hard_ceiling_ms'', PInt (mp_hard p)),
     (''prepare_budget_ms'', PInt (mp_prepare p)), (''output_margin_ms'', PInt (mp_margin p)),
     (''effective_parallelism'', opt_float (mp_parallelism p)), (''allocator_policy_id'', PStr (mp_allocator p)),
     (''disposition'', PStr (mp_disposition p)), (''fallback_policy'', PStr (mp_fallback_policy p)),
     (''fallback_profile'', PStr (mp_fallback_profile p)), (''fallback_reason'', opt_text (mp_fallback_reason p)),
     (''host_capacity_claim'', PBool (capacity_claim p)), (''composition_qualification_established'', PBool False),
     (''generic_host_portability_established'', PBool False), (''authority'', marker ''resource_plan''),
     (''claim_boundary'', claim_boundary (capacity_claim p))]"

definition move_plan_id :: "move_plan \<Rightarrow> contract_error + string" where
  "move_plan_id p = rbind (digest_value (PDict (move_plan_payload p))) (\<lambda>h. Inr (''move-plan/'' @ h))"

definition move_plan_dict :: "move_plan \<Rightarrow> contract_error + pyval" where
  "move_plan_dict p = rbind (move_plan_id p) (\<lambda>i. Inr (PDict ((''plan_id'', PStr i) # move_plan_payload p)))"

definition move_plan_keys :: "string list" where
  "move_plan_keys = [''plan_id'', ''schema_version'', ''plan_version'', ''policy_id'', ''generation'', ''position_id'',
     ''baseline_time_plan_id'', ''game_environment'', ''host_capabilities'', ''catalog_id'', ''catalog_digest'',
     ''composition'', ''resource_envelope'', ''soft_budget_ms'', ''hard_ceiling_ms'', ''prepare_budget_ms'',
     ''output_margin_ms'', ''effective_parallelism'', ''allocator_policy_id'', ''disposition'', ''fallback_policy'',
     ''fallback_profile'', ''fallback_reason'', ''host_capacity_claim'', ''composition_qualification_established'',
     ''generic_host_portability_established'', ''authority'', ''claim_boundary'']"

definition read_move_plan :: "pyval \<Rightarrow> plan_error + move_plan" where
  "read_move_plan v =
     rbind (in_contract (mapping v ''move resource plan'')) (\<lambda>d.
     rbind (in_contract (reject_unknown d move_plan_keys ''move resource plan'')) (\<lambda>_.
     rbind (ensure (py_eq (get_value d ''schema_version'') schema_version) (Contract (BadVersion ''move resource plan''))) (\<lambda>_.
     rbind (ensure (py_eq (get_value d ''authority'') (marker ''resource_plan'')) (Contract (BadMarker ''move resource plan''))) (\<lambda>_.
     rbind (if get_value d ''host_capabilities'' = PNone then Inr PNone
       else rbind (in_contract (mapping (get_value d ''host_capabilities'') ''host_capabilities'')) (\<lambda>h. Inr (PDict h))) (\<lambda>host_raw.
     rbind (in_contract (rbind (mapping (get_value d ''game_environment'') ''game_environment'') (\<lambda>e. read_environment (PDict e)))) (\<lambda>env.
     rbind (if host_raw = PNone then Inr None else rbind (in_contract (read_capabilities host_raw)) (\<lambda>h. Inr (Some h))) (\<lambda>host.
     rbind (in_contract (rbind (mapping (get_value d ''composition'') ''composition'') (\<lambda>c. read_composition (PDict c)))) (\<lambda>cmp.
     rbind (rbind (in_contract (mapping (get_value d ''resource_envelope'') ''resource_envelope'')) (\<lambda>e. read_envelope (PDict e))) (\<lambda>E.
     rbind (in_contract (make_move_plan d env host cmp E)) (\<lambda>p.
     rbind (in_contract (move_plan_id p)) (\<lambda>i.
     rbind (ensure (get_value d ''plan_id'' = PStr i) (Contract (Mismatched ''plan_id''))) (\<lambda>_.
     rbind (ensure (py_eq (get_value d ''claim_boundary'') (claim_boundary (capacity_claim p))) (Contract (BadMarker ''claim boundary''))) (\<lambda>_.
     Inr p)))))))))))))"

section \<open>Settings\<close>

record adaptive_settings =
  as_catalog :: string
  as_composition :: string
  as_allocator :: string
  as_concurrency :: int
  as_network :: string

definition adaptive_policy :: string where
  "adaptive_policy = ''adaptive_clock_envelope_v1''"

definition fallback_profile :: string where
  "fallback_profile = ''engine-opt-v2''"

definition allocator_policies :: "string list" where
  "allocator_policies = [''legacy-fixed-stage-compat-v1'', ''adaptive-resource-v1'']"

text \<open>A normalised path below the root of the repository.\<close>

definition relative_path :: "string \<Rightarrow> bool" where
  "relative_path s \<longleftrightarrow> s \<noteq> [] \<and> hd s \<noteq> CHR ''/'' \<and> ''..'' \<notin> set (split_on (CHR ''/'') s)"

definition adaptive_settings_new :: "(string \<times> pyval) list \<Rightarrow> plan_error + adaptive_settings" where
  "adaptive_settings_new kw =
     rbind (ensure (get_or kw ''policy'' (PStr adaptive_policy) = PStr adaptive_policy) (Adaptive ''policy'')) (\<lambda>_.
     rbind (ensure (get_or kw ''fallback_clock_policy'' (PStr online_policy) = PStr online_policy) (Adaptive ''fallback policy'')) (\<lambda>_.
     rbind (ensure (get_or kw ''fallback_profile'' (PStr fallback_profile) = PStr fallback_profile) (Adaptive ''fallback profile'')) (\<lambda>_.
     rbind (ensure (get_or kw ''allocator_policy_id'' (PStr (hd allocator_policies)) \<in> PStr ` set allocator_policies) (Adaptive ''allocator'')) (\<lambda>_.
     rbind (in_contract (safe_id (get_or kw ''composition_id'' (PStr ''composition/engine-opt-v2-exact-host'')) ''J8 composition_id'')) (\<lambda>cmp.
     rbind (in_contract (safe_id (get_or kw ''network_policy'' (PStr ''clock-envelope-v1'')) ''J8 network_policy'')) (\<lambda>net.
     rbind (in_contract (positive_int (get_or kw ''concurrency'' (PInt 1)) ''J8 concurrency'')) (\<lambda>n.
     (case (get_or kw ''catalog'' (PStr ''qualification/resource-profile-catalog-v1.json''),
            get_or kw ''allocator_policy_id'' (PStr (hd allocator_policies))) of
        (PStr path, PStr alloc) \<Rightarrow>
          rbind (ensure (relative_path path) (Adaptive ''catalog'')) (\<lambda>_.
          Inr \<lparr>as_catalog = path, as_composition = cmp, as_allocator = alloc, as_concurrency = n, as_network = net\<rparr>)
      | _ \<Rightarrow> Inl (Adaptive ''catalog'')))))))))"

definition adaptive_keys :: "string list" where
  "adaptive_keys = [''enabled'', ''policy'', ''catalog'', ''composition_id'', ''fallback_clock_policy'', ''fallback_profile'',
     ''allocator_policy_id'', ''concurrency'', ''network_policy'']"

definition adaptive_settings_from_config :: "pyval \<Rightarrow> plan_error + adaptive_settings option" where
  "adaptive_settings_from_config raw = (case raw of
      PNone \<Rightarrow> Inr None
    | PDict d \<Rightarrow> (case get_value d ''enabled'' of
          PBool enabled \<Rightarrow>
            rbind (in_contract (reject_unknown d adaptive_keys ''orchestration'')) (\<lambda>_.
            rbind (adaptive_settings_new (filter (\<lambda>kv. fst kv \<noteq> ''enabled'') d)) (\<lambda>s.
            Inr (if enabled then Some s else None)))
        | _ \<Rightarrow> Inl (Adaptive ''enabled''))
    | _ \<Rightarrow> Inl (Adaptive ''orchestration''))"

section \<open>Planning\<close>

definition add_map_limit :: "(string \<times> int) list \<Rightarrow> string \<times> limit_value \<Rightarrow> plan_error + (string \<times> int) list" where
  "add_map_limit limits item = (case snd item of
     LimitFlag \<Rightarrow> Inl (Adaptive ''limit map'')
   | LimitInt n \<Rightarrow> if n < 0 \<or> fst item \<in> set (dict_keys limits) then Inl (Adaptive ''limit map'')
       else Inr (limits @ [(fst item, n)]))"

definition limit_map :: "string \<Rightarrow> plan_error + (string \<times> int) list" where
  "limit_map command = (case parse_go_request command of
     Inl e \<Rightarrow> Inl (GoLimits e)
   | Inr r \<Rightarrow> if gr_unknown r \<noteq> [] then Inl (Adaptive ''malformed go request'')
       else rfold add_map_limit [] (gr_limits r))"

definition game_environment_from_time_plan :: "time_plan \<Rightarrow> adaptive_settings \<Rightarrow> host_capabilities option \<Rightarrow> composition \<Rightarrow>
    plan_error + game_environment" where
  "game_environment_from_time_plan plan s host cmp =
     rbind (limit_map (tp_external plan)) (\<lambda>limits.
     rbind (case host of None \<Rightarrow> Inr PNone | Some h \<Rightarrow> rbind (in_contract (capability_id h)) (\<lambda>i. Inr (PStr i))) (\<lambda>host_id.
     (let common = [(''concurrency'', PInt (as_concurrency s)), (''network_policy'', PStr (as_network s)),
        (''network_reserve_ms'', PInt (tp_network_reserve plan)), (''host_profile_id'', host_id)];
          candidates = [PStr (cp_id cmp)] in
      if tp_request_class plan = ''clock_v1'' then
        rbind (ensure (dict_get limits ''wtime'' \<noteq> None \<and> dict_get limits ''btime'' \<noteq> None) (Adaptive ''clocks'')) (\<lambda>_.
        in_contract (make_environment ([
          (''source'', PStr ''uci_observed''), (''base_ms'', PNone), (''white_increment_ms'', PInt (limit_at limits ''winc'' 0)),
          (''black_increment_ms'', PInt (limit_at limits ''binc'' 0)), (''moves_to_go'', opt_int (dict_get limits ''movestogo'')),
          (''white_time_ms'', PInt (limit_at limits ''wtime'' 0)), (''black_time_ms'', PInt (limit_at limits ''btime'' 0))] @ common) candidates))
      else if tp_request_class plan = ''movetime_deadline_v1'' then
        in_contract (make_environment ((''source'', PStr ''unknown'') # common) candidates)
      else Inl (Adaptive ''request class''))))"

definition scaled_envelope :: "envelope \<Rightarrow> pyfloat \<Rightarrow> plan_error + envelope" where
  "scaled_envelope E par =
     rbind (ensure (env_gpu E = Fin 0) (Adaptive ''CPU-only'')) (\<lambda>_.
     rbind (ensure (\<not> (f_le par (Fin 0) \<or> \<not> f_finite par)) (Adaptive ''effective parallelism'')) (\<lambda>_.
     (let cpu = f_min (env_cpu E) (f_mul (env_wall E) par) in
     rbind (ensure (\<not> f_le cpu (Fin 0)) (Adaptive ''adaptive CPU ceiling'')) (\<lambda>_.
     map_sum Envelope id (clamped_cpu_envelope E (PFloat (env_wall E)) (PFloat cpu))))))"

definition fallback_reason :: "host_capabilities option \<Rightarrow> composition \<Rightarrow> string option" where
  "fallback_reason host cmp = (case host of
     None \<Rightarrow> Some ''HOST_DISCOVERY_UNAVAILABLE''
   | Some h \<Rightarrow>
       if hc_allowed h = None then Some ''HOST_CPU_SET_UNKNOWN''
       else if hc_quota_status h = ''unknown'' then Some ''HOST_CPU_QUOTA_UNKNOWN''
       else if hc_memory_status h = ''unknown'' \<or> (case hc_effective_memory h of None \<Rightarrow> True | Some m \<Rightarrow> m \<le> 0)
         then Some ''HOST_MEMORY_UNKNOWN''
       else if \<not> hc_capacity_complete h then Some ''HOST_CAPACITY_INCOMPLETE''
       else if (case hc_effective_memory h of None \<Rightarrow> True | Some m \<Rightarrow> m < cp_memory cmp * 1024 * 1024)
         then Some ''HOST_MEMORY_INSUFFICIENT''
       else None)"

definition to_float :: "int \<Rightarrow> plan_error + pyfloat" where
  "to_float i = (case float_of_int i of None \<Rightarrow> Inl (Contract (contract_error.FloatOverflow ''int'')) | Some x \<Rightarrow> Inr x)"

definition host_parallelism :: "host_capabilities \<Rightarrow> plan_error + pyfloat" where
  "host_parallelism h = rbind (to_float (case hc_allowed h of None \<Rightarrow> 0 | Some cs \<Rightarrow> list_length cs)) (\<lambda>n.
     Inr (if hc_quota_status h = ''limited'' then (case hc_quota_equivalents h of None \<Rightarrow> n | Some q \<Rightarrow> f_min n q) else n))"

definition effective_parallelism :: "time_plan \<Rightarrow> composition \<Rightarrow> host_capabilities \<Rightarrow> plan_error + pyfloat" where
  "effective_parallelism plan cmp h =
     rbind (host_parallelism h) (\<lambda>hp.
     rbind (to_float (ts_cpu_parallelism (tp_settings plan))) (\<lambda>a.
     rbind (to_float (cp_cpu_slots cmp)) (\<lambda>b.
     Inr (f_min (f_min a b) hp))))"

text \<open>The parallelism, or the reason to fall back.\<close>

definition plan_parallelism :: "time_plan \<Rightarrow> composition \<Rightarrow> host_capabilities option \<Rightarrow> plan_error + (string + pyfloat)" where
  "plan_parallelism plan cmp host = (case fallback_reason host cmp of
     Some r \<Rightarrow> Inr (Inl r)
   | None \<Rightarrow> (case host of
        None \<Rightarrow> Inr (Inl ''HOST_DISCOVERY_UNAVAILABLE'')
      | Some h \<Rightarrow> rbind (effective_parallelism plan cmp h) (\<lambda>par.
          Inr (if f_le par (Fin 0) then Inl ''HOST_CPU_CAPACITY_ZERO'' else Inr par))))"

definition tolerance :: pyfloat where
  "tolerance = of_rat64 (1 / 10 ^ 12)"

definition build_move_resource_plan :: "time_plan \<Rightarrow> adaptive_settings \<Rightarrow> host_capabilities option \<Rightarrow> composition \<Rightarrow> string \<Rightarrow> string \<Rightarrow>
    plan_error + move_plan" where
  "build_move_resource_plan plan s host cmp cat cat_digest =
     rbind (ensure (cp_id cmp = as_composition s) (Adaptive ''composition'')) (\<lambda>_.
     rbind (in_contract (safe_id (PStr cat) ''J8 catalog_id'')) (\<lambda>_.
     rbind (ensure (sha256_text cat_digest) (Adaptive ''catalog digest'')) (\<lambda>_.
     rbind (in_contract (time_plan_id plan)) (\<lambda>tpid.
     rbind (game_environment_from_time_plan plan s host cmp) (\<lambda>env.
     rbind (plan_parallelism plan cmp host) (\<lambda>par.
     rbind (case par of Inl r \<Rightarrow> Inr (tp_envelope plan) | Inr x \<Rightarrow> scaled_envelope (tp_envelope plan) x) (\<lambda>E.
     rbind (ensure (\<not> f_less (f_add (env_wall (tp_envelope plan)) tolerance) (env_wall E)) (Adaptive ''wall envelope'')) (\<lambda>_.
     rbind (ensure (\<not> f_less (f_add (env_cpu (tp_envelope plan)) tolerance) (env_cpu E)) (Adaptive ''CPU envelope'')) (\<lambda>_.
     rbind (ensure (\<not> f_less (f_add (env_gpu (tp_envelope plan)) tolerance) (env_gpu E)) (Adaptive ''GPU envelope'')) (\<lambda>_.
     in_contract (make_move_plan [
       (''plan_version'', PStr plan_version), (''policy_id'', PStr adaptive_policy), (''generation'', PInt (tp_generation plan)),
       (''position_id'', PStr (tp_position_id plan)), (''baseline_time_plan_id'', PStr tpid), (''catalog_id'', PStr cat),
       (''catalog_digest'', PStr cat_digest), (''soft_budget_ms'', PInt (tp_soft plan)), (''hard_ceiling_ms'', PInt (tp_hard plan)),
       (''prepare_budget_ms'', PInt (tp_prepare plan)), (''output_margin_ms'', PInt (tp_output_margin plan)),
       (''effective_parallelism'', case par of Inl r \<Rightarrow> PNone | Inr x \<Rightarrow> PFloat x), (''allocator_policy_id'', PStr (as_allocator s)),
       (''disposition'', PStr (case par of Inl r \<Rightarrow> ''FALLBACK'' | Inr x \<Rightarrow> ''ADAPTIVE'')), (''fallback_policy'', PStr online_policy),
       (''fallback_profile'', PStr fallback_profile), (''fallback_reason'', case par of Inl r \<Rightarrow> PStr r | Inr x \<Rightarrow> PNone),
       (''host_capacity_claim'', PBool (case par of Inl r \<Rightarrow> False | Inr x \<Rightarrow> True)),
       (''composition_qualification_established'', PBool False), (''generic_host_portability_established'', PBool False)]
       env host cmp E)))))))))))"

end
