(* ===== verification/Catalog.thy ===== *)
theory Catalog
  imports GrantLaws
begin

text \<open>
  \<^verbatim>\<open>controller/resource_profile_catalog.py\<close>: the frozen catalog of engine profiles and compositions.
  It names operating points and authorizes nothing.
\<close>

section \<open>Runtime metadata of a profile\<close>

record runtime_metadata =
  rm_frozen :: "(string \<times> pyval) list"
  rm_warmup :: "(string \<times> pyval) list option"

fun frozen_options :: "string list \<Rightarrow> (string \<times> pyval) list \<Rightarrow> contract_error + (string \<times> pyval) list" where
  "frozen_options names [] = Inr []"
| "frozen_options names ((name, v) # rest) =
     rbind (ensure (name \<noteq> [] \<and> name = py_strip name) (BadText ''frozen option name'')) (\<lambda>_.
     rbind (ensure (name \<notin> set names) (Duplicated ''frozen option'')) (\<lambda>_.
     rbind (option_scalar v ''frozen option'') (\<lambda>x.
     rbind (frozen_options (name # names) rest) (\<lambda>ys. Inr ((name, x) # ys)))))"

definition warmup_keys :: "string list" where
  "warmup_keys = [''enabled'', ''nodes'', ''position'', ''reset_after'']"

definition make_warmup :: "(string \<times> pyval) list \<Rightarrow> contract_error + (string \<times> pyval) list" where
  "make_warmup w =
     rbind (ensure (set (dict_keys w) = set warmup_keys) (UnknownKeys ''warmup'')) (\<lambda>_.
     rbind (ensure (dict_get w ''enabled'' = Some (PBool True) \<and> dict_get w ''reset_after'' = Some (PBool True))
       (BadChoice ''warmup'')) (\<lambda>_.
     rbind (positive_int (get_value w ''nodes'') ''warmup nodes'') (\<lambda>_.
     rbind (ensure (dict_get w ''position'' = Some (PStr ''startpos'')) (BadChoice ''warmup position'')) (\<lambda>_.
     Inr (map (\<lambda>k. (k, get_value w k)) warmup_keys)))))"

definition make_metadata :: "(string \<times> pyval) list \<Rightarrow> (string \<times> pyval) list option \<Rightarrow> contract_error + runtime_metadata" where
  "make_metadata frozen warm =
     rbind (frozen_options [] frozen) (\<lambda>xs.
     (case warm of
        None \<Rightarrow> Inr \<lparr>rm_frozen = sort_key fst xs, rm_warmup = None\<rparr>
      | Some w \<Rightarrow> rbind (make_warmup w) (\<lambda>n. Inr \<lparr>rm_frozen = sort_key fst xs, rm_warmup = Some n\<rparr>)))"

definition read_metadata :: "pyval \<Rightarrow> contract_error + runtime_metadata" where
  "read_metadata v =
     rbind (mapping v ''profile runtime metadata'') (\<lambda>d.
     rbind (reject_unknown d [''frozen_options'', ''warmup''] ''profile runtime metadata'') (\<lambda>_.
     rbind (mapping (get_or d ''frozen_options'' (PDict [])) ''profile frozen_options'') (\<lambda>frozen.
     rbind (if get_value d ''warmup'' = PNone then Inr None
       else rbind (mapping (get_value d ''warmup'') ''profile warmup'') (\<lambda>w. Inr (Some w))) (\<lambda>warm.
     make_metadata frozen warm))))"

definition metadata_dict :: "runtime_metadata \<Rightarrow> pyval" where
  "metadata_dict m = PDict [(''frozen_options'', PDict (rm_frozen m)),
     (''warmup'', case rm_warmup m of None \<Rightarrow> PNone | Some w \<Rightarrow> PDict w)]"

section \<open>The catalog\<close>

record catalog =
  rc_id :: string
  rc_source :: string
  rc_selection :: bool
  rc_fallback :: string
  rc_profiles :: "(string \<times> engine_profile) list"
  rc_compositions :: "(string \<times> composition) list"
  rc_default :: string
  rc_runtime :: "(string \<times> runtime_metadata) list"
  rc_snapshot :: "(string \<times> pyval) list"
  rc_dispatch :: "(string \<times> int) list"
  rc_estimates :: "(string \<times> (string \<times> pyfloat) list) list"

definition dict_by :: "('a \<Rightarrow> string) \<Rightarrow> 'a list \<Rightarrow> (string \<times> 'a) list" where
  "dict_by key xs = fold (\<lambda>x. dict_set (key x) x) xs []"

definition snapshot_keys :: "string list" where
  "snapshot_keys = [''qualified_head'', ''merge_commit'', ''workflow_run'', ''aggregate_artifact_id'',
     ''aggregate_artifact_sha256'', ''aggregate_report_sha256'', ''qualification_disposition'', ''execution_domain_id'',
     ''execution_domain_digest'', ''binding_scope'']"

definition check_snapshot_fields :: "(string \<times> pyval) list \<Rightarrow> contract_error + unit" where
  "check_snapshot_fields s =
     rbind (ensure (set (dict_keys s) = set snapshot_keys) (UnknownKeys ''qualification_snapshot'')) (\<lambda>_.
     rbind (git_oid (get_value s ''qualified_head'') ''qualified_head'') (\<lambda>_.
     rbind (git_oid (get_value s ''merge_commit'') ''merge_commit'') (\<lambda>_.
     rbind (positive_int (get_value s ''workflow_run'') ''workflow_run'') (\<lambda>_.
     rbind (positive_int (get_value s ''aggregate_artifact_id'') ''aggregate_artifact_id'') (\<lambda>_.
     rbind (sha256_id (get_value s ''aggregate_artifact_sha256'') ''aggregate_artifact_sha256'') (\<lambda>_.
     rbind (sha256_id (get_value s ''aggregate_report_sha256'') ''aggregate_report_sha256'') (\<lambda>_.
     rbind (ensure (get_value s ''qualification_disposition'' \<in> {PStr ''QUALIFIED_EXACT_HOST_ONLY'', PStr ''QUALIFIED_REUSABLE_DOMAIN''})
       (BadChoice ''disposition'')) (\<lambda>_.
     rbind (safe_id (get_value s ''execution_domain_id'') ''execution_domain_id'') (\<lambda>x.
     rbind (sha256_id (get_value s ''execution_domain_digest'') ''execution_domain_digest'') (\<lambda>h.
     rbind (ensure (get_value s ''binding_scope'' \<in> PStr ` set binding_scopes) (BadChoice ''binding scope'')) (\<lambda>_.
     ensure (x = ''exec-domain/'' @ take 20 h) (Mismatched ''execution domain''))))))))))))"

definition dispatch_phases :: "string list" where
  "dispatch_phases = [''EXPLORE'', ''VERIFY'', ''STAGED_VERIFY'']"

definition legacy_dispatch :: "string \<times> pyval \<Rightarrow> contract_error + string \<times> int" where
  "legacy_dispatch kv =
     rbind (mapping (snd kv) ''legacy dispatch'') (\<lambda>d.
     rbind (ensure (set (dict_keys d) = {''nodes''}) (UnknownKeys ''legacy dispatch'')) (\<lambda>_.
     rbind (positive_int (get_value d ''nodes'') ''nodes'') (\<lambda>n. Inr (fst kv, n))))"

definition legacy_estimate :: "string \<times> pyval \<Rightarrow> contract_error + string \<times> (string \<times> pyfloat) list" where
  "legacy_estimate kv =
     rbind (mapping (snd kv) ''resource estimates'') (\<lambda>d.
     rbind (ensure (set (dict_keys d) = set solver_families) (UnknownKeys ''resource estimates'')) (\<lambda>_.
     rbind (rmap (\<lambda>f. rbind (finite_nonnegative (get_value d f) ''estimate'') (\<lambda>x. Inr (f, x))) solver_families) (\<lambda>xs.
     Inr (fst kv, xs))))"

definition legacy_policy_of :: "(string \<times> pyval) list \<Rightarrow>
    contract_error + (string \<times> int) list \<times> (string \<times> (string \<times> pyfloat) list) list" where
  "legacy_policy_of policy =
     rbind (ensure (set (dict_keys policy) = {''dispatch_limits'', ''resource_estimates_ms''}) (UnknownKeys ''legacy_policy'')) (\<lambda>_.
     rbind (mapping (get_value policy ''dispatch_limits'') ''legacy dispatch_limits'') (\<lambda>dispatch.
     rbind (ensure (set (dict_keys dispatch) = set dispatch_phases) (UnknownKeys ''dispatch phases'')) (\<lambda>_.
     rbind (rmap legacy_dispatch dispatch) (\<lambda>limits.
     rbind (mapping (get_value policy ''resource_estimates_ms'') ''legacy resource estimates'') (\<lambda>estimates.
     rbind (ensure (set (dict_keys estimates) = {''explore'', ''verify''}) (UnknownKeys ''estimate phases'')) (\<lambda>_.
     rbind (rmap legacy_estimate estimates) (\<lambda>es. Inr (limits, es))))))))"

definition check_runtime :: "(string \<times> engine_profile) list \<Rightarrow> (string \<times> runtime_metadata) list \<Rightarrow> contract_error + unit" where
  "check_runtime profiles runtime =
     rbind (ensure (set (dict_keys runtime) = set (dict_keys profiles)) (UnknownKeys ''profile_runtime'')) (\<lambda>_.
     rcheck (\<lambda>(pid, m). ensure (case dict_get profiles pid of
          None \<Rightarrow> False
        | Some p \<Rightarrow> set (map po_name (ep_options p)) \<inter> set (dict_keys (rm_frozen m)) = {}) (Duplicated ''frozen options'')) runtime)"

text \<open>\<open>x in mapping\<close> raises \<open>TypeError\<close> for a list or an object.\<close>

definition hashable :: "pyval \<Rightarrow> bool" where
  "hashable v \<longleftrightarrow> (case v of PList _ \<Rightarrow> False | PDict _ \<Rightarrow> False | _ \<Rightarrow> True)"

definition make_catalog :: "pyval \<Rightarrow> pyval \<Rightarrow> pyval \<Rightarrow> pyval \<Rightarrow> engine_profile list \<Rightarrow> composition list \<Rightarrow> pyval \<Rightarrow>
    (string \<times> runtime_metadata) list \<Rightarrow> (string \<times> pyval) list \<Rightarrow> (string \<times> pyval) list \<Rightarrow> contract_error + catalog" where
  "make_catalog cid source selection fallback profiles compositions dflt runtime snapshot legacy =
     rbind (safe_id cid ''catalog_id'') (\<lambda>i.
     rbind (safe_id source ''source_profile'') (\<lambda>s.
     rbind (safe_id fallback ''fallback_profile'') (\<lambda>f.
     rbind (case selection of PBool b \<Rightarrow> Inr b | _ \<Rightarrow> Inl (BadChoice ''selection_enabled'')) (\<lambda>sel.
     (let pmap = dict_by ep_id profiles; cmap = dict_by cp_id compositions in
     rbind (ensure (length pmap = length profiles \<and> pmap \<noteq> []) (Duplicated ''catalog profile ids'')) (\<lambda>_.
     rbind (ensure (length cmap = length compositions \<and> cmap \<noteq> []) (Duplicated ''catalog composition ids'')) (\<lambda>_.
     rbind (ensure (hashable dflt) (WrongType ''default composition'')) (\<lambda>_.
     rbind (case dflt of PStr t \<Rightarrow> if t \<in> set (dict_keys cmap) then Inr t else Inl (BadChoice ''default composition'')
       | _ \<Rightarrow> Inl (BadChoice ''default composition'')) (\<lambda>dc.
     rbind (rcheck (\<lambda>c. validate_against c pmap) compositions) (\<lambda>_.
     rbind (check_runtime pmap runtime) (\<lambda>_.
     rbind (check_snapshot_fields snapshot) (\<lambda>_.
     rbind (legacy_policy_of legacy) (\<lambda>(limits, es).
     Inr \<lparr>rc_id = i, rc_source = s, rc_selection = sel, rc_fallback = f, rc_profiles = sort_key fst pmap,
       rc_compositions = sort_key fst cmap, rc_default = dc, rc_runtime = sort_key fst runtime, rc_snapshot = snapshot,
       rc_dispatch = limits, rc_estimates = es\<rparr>)))))))))))))"

definition catalog_keys :: "string list" where
  "catalog_keys = [''schema_version'', ''catalog_version'', ''catalog_id'', ''source_profile'', ''selection_enabled'',
     ''fallback_profile'', ''profiles'', ''compositions'', ''default_composition_id'', ''profile_runtime'',
     ''qualification_snapshot'', ''legacy_policy'', ''authority'']"

definition catalog_version :: pyval where
  "catalog_version = PStr ''resource-profile-catalog-v1''"

definition read_catalog :: "pyval \<Rightarrow> contract_error + catalog" where
  "read_catalog v =
     rbind (mapping v ''resource profile catalog'') (\<lambda>d.
     rbind (reject_unknown d catalog_keys ''resource profile catalog'') (\<lambda>_.
     rbind (ensure (py_eq (get_value d ''schema_version'') schema_version \<and> get_value d ''catalog_version'' = catalog_version)
       (BadVersion ''resource profile catalog'')) (\<lambda>_.
     rbind (ensure (py_eq (get_value d ''authority'') (marker ''resource_profile_catalog'')) (BadMarker ''catalog'')) (\<lambda>_.
     rbind (list_of (get_value d ''profiles'') ''profiles'') (\<lambda>profiles_raw.
     rbind (list_of (get_value d ''compositions'') ''compositions'') (\<lambda>compositions_raw.
     rbind (mapping (get_value d ''profile_runtime'') ''profile_runtime'') (\<lambda>runtime_raw.
     rbind (rmap read_profile profiles_raw) (\<lambda>profiles.
     rbind (rmap read_composition compositions_raw) (\<lambda>compositions.
     rbind (rmap (\<lambda>kv. rbind (read_metadata (snd kv)) (\<lambda>m. Inr (fst kv, m))) runtime_raw) (\<lambda>runtime.
     rbind (mapping (get_value d ''qualification_snapshot'') ''qualification_snapshot'') (\<lambda>snapshot.
     rbind (mapping (get_value d ''legacy_policy'') ''legacy_policy'') (\<lambda>legacy.
     make_catalog (get_value d ''catalog_id'') (get_value d ''source_profile'') (get_value d ''selection_enabled'')
       (get_value d ''fallback_profile'') profiles compositions (get_value d ''default_composition_id'') runtime
       snapshot legacy))))))))))))"

text \<open>The legacy policy as a dictionary, its phases in the order of \<open>as_dict\<close>.\<close>

definition legacy_dict :: "catalog \<Rightarrow> pyval" where
  "legacy_dict c = PDict [
     (''dispatch_limits'', PDict (map (\<lambda>p. (p, case dict_get (rc_dispatch c) p of
        None \<Rightarrow> PDict [] | Some n \<Rightarrow> PDict [(''nodes'', PInt n)])) dispatch_phases)),
     (''resource_estimates_ms'', PDict (map (\<lambda>p. (p, case dict_get (rc_estimates c) p of
        None \<Rightarrow> PDict [] | Some es \<Rightarrow> PDict (map (\<lambda>x. (fst x, PFloat (snd x))) es))) [''explore'', ''verify'']))]"

definition catalog_dict :: "catalog \<Rightarrow> pyval" where
  "catalog_dict c = PDict [
     (''schema_version'', PInt 1), (''catalog_version'', catalog_version), (''catalog_id'', PStr (rc_id c)),
     (''source_profile'', PStr (rc_source c)), (''selection_enabled'', PBool (rc_selection c)),
     (''fallback_profile'', PStr (rc_fallback c)), (''profiles'', PList (map (profile_dict \<circ> snd) (rc_profiles c))),
     (''compositions'', PList (map (composition_dict \<circ> snd) (rc_compositions c))),
     (''default_composition_id'', PStr (rc_default c)),
     (''profile_runtime'', PDict (map (\<lambda>x. (fst x, metadata_dict (snd x))) (rc_runtime c))),
     (''qualification_snapshot'', PDict (rc_snapshot c)), (''legacy_policy'', legacy_dict c),
     (''authority'', marker ''resource_profile_catalog'')]"

definition catalog_digest :: "catalog \<Rightarrow> contract_error + string" where
  "catalog_digest c = digest_value (catalog_dict c)"

section \<open>Queries\<close>

definition find_profile :: "catalog \<Rightarrow> string \<Rightarrow> contract_error + engine_profile" where
  "find_profile c pid = (case dict_get (rc_profiles c) pid of None \<Rightarrow> Inl (BadChoice ''unknown resource profile'') | Some p \<Rightarrow> Inr p)"

definition find_composition :: "catalog \<Rightarrow> string \<Rightarrow> contract_error + composition" where
  "find_composition c cid = (case dict_get (rc_compositions c) cid of None \<Rightarrow> Inl (BadChoice ''unknown composition profile'') | Some p \<Rightarrow> Inr p)"

definition default_composition :: "catalog \<Rightarrow> contract_error + composition" where
  "default_composition c = find_composition c (rc_default c)"

definition find_metadata :: "catalog \<Rightarrow> string \<Rightarrow> contract_error + runtime_metadata" where
  "find_metadata c pid = rbind (find_profile c pid) (\<lambda>_.
     case dict_get (rc_runtime c) pid of None \<Rightarrow> Inl (BadChoice ''runtime metadata'') | Some m \<Rightarrow> Inr m)"

definition profile_for_instance :: "catalog \<Rightarrow> string \<Rightarrow> string option \<Rightarrow> contract_error + engine_profile" where
  "profile_for_instance c inst cid =
     rbind (find_composition c (case cid of None \<Rightarrow> rc_default c | Some t \<Rightarrow> if t = [] then rc_default c else t)) (\<lambda>comp.
     (case filter (\<lambda>b. cb_instance b = inst) (cp_bindings comp) of
        [b] \<Rightarrow> find_profile c (cb_profile b)
      | _ \<Rightarrow> Inl (Mismatched ''instance'')))"

definition require_execution_domain :: "catalog \<Rightarrow> string \<Rightarrow> string \<Rightarrow> string \<Rightarrow> string \<Rightarrow> contract_error + unit" where
  "require_execution_domain c pid domain domain_digest scope =
     rbind (find_profile c pid) (\<lambda>p.
     ensure (qi_domain (ep_qualification p) = domain \<and> qi_domain_digest (ep_qualification p) = domain_digest \<and>
       qi_scope (ep_qualification p) = scope) (Mismatched ''execution domain''))"

fun phase_groups :: "profile_option list \<Rightarrow> (string \<times> (string \<times> pyval) list) list \<Rightarrow> (string \<times> (string \<times> pyval) list) list" where
  "phase_groups [] result = result"
| "phase_groups (o' # os) result = phase_groups os
     (case po_phase o' of
        Some p \<Rightarrow> if po_boundary o' = ''search'' then
            dict_set p (dict_set (po_name o') (po_value o') (case dict_get result p of None \<Rightarrow> [] | Some d \<Rightarrow> d)) result
          else result
      | None \<Rightarrow> result)"

definition phase_options :: "catalog \<Rightarrow> string \<Rightarrow> contract_error + (string \<times> (string \<times> pyval) list) list" where
  "phase_options c pid = rbind (find_profile c pid) (\<lambda>p.
     Inr (map (\<lambda>x. (fst x, sort_key fst (snd x))) (sort_key fst (phase_groups (ep_options p) []))))"

definition options_at :: "string list \<Rightarrow> profile_option list \<Rightarrow> (string \<times> pyval) list \<Rightarrow> (string \<times> pyval) list" where
  "options_at bounds os d = fold (\<lambda>o'. dict_set (po_name o') (po_value o')) (filter (\<lambda>o'. po_boundary o' \<in> set bounds) os) d"

definition startup_options :: "catalog \<Rightarrow> string \<Rightarrow> contract_error + (string \<times> pyval) list" where
  "startup_options c pid =
     rbind (find_profile c pid) (\<lambda>p.
     rbind (find_metadata c pid) (\<lambda>m.
     rbind (phase_options c pid) (\<lambda>groups.
     Inr (sort_key fst (fold (\<lambda>(k, v). dict_set k v) (case dict_get groups ''EXPLORE'' of None \<Rightarrow> [] | Some d \<Rightarrow> d)
       (options_at [''process'', ''game''] (ep_options p) (rm_frozen m)))))))"

definition game_options :: "catalog \<Rightarrow> string \<Rightarrow> contract_error + (string \<times> pyval) list" where
  "game_options c pid = rbind (find_profile c pid) (\<lambda>p. Inr (options_at [''game''] (ep_options p) []))"

definition process_options :: "catalog \<Rightarrow> string \<Rightarrow> contract_error + (string \<times> pyval) list" where
  "process_options c pid = rbind (find_profile c pid) (\<lambda>p. Inr (options_at [''process''] (ep_options p) []))"

definition warmup_of :: "catalog \<Rightarrow> string \<Rightarrow> contract_error + (string \<times> pyval) list option" where
  "warmup_of c pid = rbind (find_metadata c pid) (\<lambda>m. Inr (rm_warmup m))"

end
