(* ===== verification/WorkScheduler.thy ===== *)
theory WorkScheduler
  imports MovePlan Catalog
begin

text \<open>
  \<^verbatim>\<open>controller/work_scheduler.py\<close>: the frozen grid of work chunks, and the scheduler that turns a fixed
  stage of a move into a grant and validates a proposed grant again before it is admitted.
\<close>

section \<open>Settings and admissions\<close>

datatype scheduler_error =
    Contracted contract_error
  | Planned plan_error
  | Config string
  | Denied string

definition checked :: "contract_error + 'a \<Rightarrow> scheduler_error + 'a" where
  "checked m = map_sum Contracted id m"

definition scheduler_policy :: string where
  "scheduler_policy = ''legacy_fixed_workgrant_v1''"

definition scheduler_catalog_id :: string where
  "scheduler_catalog_id = ''work-grant-scheduler-v1''"

definition reservation_basis :: string where
  "reservation_basis = ''legacy_reservation_compatibility_v1''"

record scheduler_settings =
  ss_catalog :: string
  ss_rounds :: int
  ss_max_grants :: int

definition scheduler_settings_new :: "(string \<times> pyval) list \<Rightarrow> scheduler_error + scheduler_settings" where
  "scheduler_settings_new kw =
     rbind (ensure (get_or kw ''policy'' (PStr scheduler_policy) = PStr scheduler_policy) (Config ''policy'')) (\<lambda>_.
     (case get_or kw ''catalog'' (PStr ''qualification/work-grant-scheduler-v1.json'') of
        PStr path \<Rightarrow>
          rbind (ensure (relative_path path) (Config ''catalog'')) (\<lambda>_.
          rbind (checked (positive_int (get_or kw ''round_count'' (PInt 3)) ''round_count'')) (\<lambda>r.
          rbind (checked (positive_int (get_or kw ''max_grants_per_round'' (PInt 3)) ''max_grants_per_round'')) (\<lambda>m.
          rbind (ensure (r = 3) (Config ''round_count'')) (\<lambda>_.
          rbind (ensure (m = 3) (Config ''max_grants_per_round'')) (\<lambda>_.
          rbind (ensure (get_or kw ''on_parent_plan_fallback'' (PStr ''j8_legacy_path'') = PStr ''j8_legacy_path'') (Config ''fallback'')) (\<lambda>_.
          rbind (ensure (get_or kw ''on_grant_denial'' (PStr ''no_dispatch'') = PStr ''no_dispatch'') (Config ''denial'')) (\<lambda>_.
          Inr \<lparr>ss_catalog = path, ss_rounds = r, ss_max_grants = m\<rparr>)))))))
      | _ \<Rightarrow> Inl (Config ''catalog'')))"

definition scheduler_settings_from_config :: "pyval \<Rightarrow> scheduler_error + scheduler_settings option" where
  "scheduler_settings_from_config raw = (case raw of
      PNone \<Rightarrow> Inr None
    | PDict d \<Rightarrow> (case get_value d ''enabled'' of
          PBool enabled \<Rightarrow>
            rbind (checked (reject_unknown d [''enabled'', ''policy'', ''catalog'', ''round_count'', ''max_grants_per_round'',
              ''on_parent_plan_fallback'', ''on_grant_denial''] ''work_scheduler'')) (\<lambda>_.
            rbind (scheduler_settings_new (filter (\<lambda>kv. fst kv \<noteq> ''enabled'') d)) (\<lambda>s.
            Inr (if enabled then Some s else None)))
        | _ \<Rightarrow> Inl (Config ''enabled''))
    | _ \<Rightarrow> Inl (Config ''work_scheduler''))"

record grant_admission =
  ga_token :: string
  ga_grant :: work_grant
  ga_reservation :: int
  ga_search :: string

definition make_admission :: "pyval \<Rightarrow> work_grant \<Rightarrow> pyval \<Rightarrow> pyval \<Rightarrow> scheduler_error + grant_admission" where
  "make_admission token_id grant reservation search =
     rbind (checked (safe_id token_id ''grant admission token'')) (\<lambda>t.
     rbind (checked (positive_int reservation ''grant admission reservation_id'')) (\<lambda>r.
     (case search of
        PStr s \<Rightarrow> if s = [] then Inl (Config ''search_id'') else Inr \<lparr>ga_token = t, ga_grant = grant, ga_reservation = r, ga_search = s\<rparr>
      | _ \<Rightarrow> Inl (Config ''search_id''))))"

definition admission_dict :: "grant_admission \<Rightarrow> contract_error + pyval" where
  "admission_dict a = rbind (grant_dict (ga_grant a)) (\<lambda>g. Inr (PDict [
     (''token'', PStr (ga_token a)), (''reservation_id'', PInt (ga_reservation a)), (''search_id'', PStr (ga_search a)),
     (''grant'', g)]))"

section \<open>The frozen grid\<close>

record scheduler_chunk =
  sk_round :: int
  sk_profile :: string
  sk_chunk :: work_chunk

record scheduler_catalog =
  sc_path :: string
  sc_resource :: string
  sc_resource_digest :: string
  sc_rounds :: int
  sc_max_grants :: int
  sc_source :: "(string \<times> pyval) list"
  sc_chunks :: "scheduler_chunk list"
  sc_licenses :: "chunk_license list"

definition grid_key :: "scheduler_chunk \<Rightarrow> int \<times> string \<times> string" where
  "grid_key k = (sk_round k, wc_family (sk_chunk k), wc_phase (sk_chunk k))"

definition grid :: "(int \<times> string \<times> string) list" where
  "grid = concat (map (\<lambda>(r, p). map (\<lambda>f. (r, f, p)) solver_families)
     [(0, ''EXPLORE''), (1, ''VERIFY''), (2, ''STAGED_VERIFY'')])"

definition make_scheduler_catalog :: "pyval \<Rightarrow> pyval \<Rightarrow> string \<Rightarrow> string \<Rightarrow> string \<Rightarrow> pyval \<Rightarrow> pyval \<Rightarrow> (string \<times> pyval) list \<Rightarrow>
    scheduler_chunk list \<Rightarrow> chunk_license list \<Rightarrow> scheduler_error + scheduler_catalog" where
  "make_scheduler_catalog cid policy path rid rdigest rounds maxg source chunks licenses =
     rbind (ensure (cid = PStr scheduler_catalog_id) (Config ''catalog id'')) (\<lambda>_.
     rbind (ensure (policy = PStr scheduler_policy) (Config ''policy id'')) (\<lambda>_.
     rbind (checked (safe_id (PStr rid) ''resource_catalog_id'')) (\<lambda>_.
     rbind (ensure (sha256_text rdigest) (Config ''resource_catalog_digest'')) (\<lambda>_.
     rbind (checked (positive_int rounds ''round_count'')) (\<lambda>r.
     rbind (checked (positive_int maxg ''max_grants_per_round'')) (\<lambda>m.
     rbind (ensure (r = 3 \<and> m = 3) (Config ''3 rounds x 3 owners'')) (\<lambda>_.
     rbind (ensure (length chunks = 9) (Config ''nine WorkChunks'')) (\<lambda>_.
     rbind (ensure (distinct (map grid_key chunks)) (Config ''duplicate chunks'')) (\<lambda>_.
     rbind (ensure (set (map grid_key chunks) = set grid) (Config ''chunk grid'')) (\<lambda>_.
     Inr \<lparr>sc_path = path, sc_resource = rid, sc_resource_digest = rdigest, sc_rounds = r, sc_max_grants = m,
       sc_source = source, sc_chunks = chunks, sc_licenses = licenses\<rparr>))))))))))"

definition scheduler_boundary :: pyval where
  "scheduler_boundary = PDict [
     (''legacy_reservation_compatibility'', PBool True), (''measured_cost_bound'', PBool False),
     (''adaptive_allocation'', PBool False), (''work_grant_authority'', PBool True), (''outward_move'', PBool False),
     (''strength'', PBool False), (''elo'', PBool False), (''equal_compute'', PBool False), (''deployment'', PBool False)]"

definition scheduler_catalog_dict :: "scheduler_catalog \<Rightarrow> pyval" where
  "scheduler_catalog_dict c = PDict [
     (''schema_version'', schema_version), (''catalog_id'', PStr scheduler_catalog_id), (''policy_id'', PStr scheduler_policy),
     (''resource_catalog'', PDict [(''path'', PStr (sc_path c)), (''catalog_id'', PStr (sc_resource c)),
        (''catalog_digest'', PStr (sc_resource_digest c))]),
     (''round_count'', PInt (sc_rounds c)), (''max_grants_per_round'', PInt (sc_max_grants c)),
     (''reservation_basis'', PStr reservation_basis), (''cost_bound_claim'', PBool False), (''source_policy'', PDict (sc_source c)),
     (''chunks'', PList (map (\<lambda>k. PDict ([(''allocation_round'', PInt (sk_round k)), (''profile_id'', PStr (sk_profile k))] @
        chunk_fields (sk_chunk k))) (sort_key grid_key (sc_chunks c)))),
     (''licenses'', PList (map license_dict (sort_key cl_id (sc_licenses c)))),
     (''authority'', marker ''resource_template''), (''claim_boundary'', scheduler_boundary)]"

definition scheduler_catalog_digest :: "scheduler_catalog \<Rightarrow> contract_error + string" where
  "scheduler_catalog_digest c = digest_value (scheduler_catalog_dict c)"

definition chunk_for :: "scheduler_catalog \<Rightarrow> int \<Rightarrow> string \<Rightarrow> string \<Rightarrow> scheduler_error + scheduler_chunk" where
  "chunk_for c rnd family phase =
     rbind (checked (family_of (PStr family) ''family'')) (\<lambda>f.
     (case filter (\<lambda>k. grid_key k = (rnd, f, phase)) (sc_chunks c) of
        [k] \<Rightarrow> Inr k
      | _ \<Rightarrow> Inl (Denied ''no unique chunk'')))"

definition license_for :: "scheduler_catalog \<Rightarrow> string \<Rightarrow> string \<Rightarrow> scheduler_error + chunk_license" where
  "license_for c pid chunk =
     (case filter (\<lambda>l. cl_profile l = pid \<and> chunk \<in> set (cl_chunks l)) (sc_licenses c) of
        [l] \<Rightarrow> Inr l
      | _ \<Rightarrow> Inl (Denied ''no unique license''))"

section \<open>Loading\<close>

definition round_phase :: "int \<Rightarrow> string option" where
  "round_phase r = (if r = 0 then Some ''EXPLORE'' else if r = 1 then Some ''VERIFY'' else if r = 2 then Some ''STAGED_VERIFY'' else None)"

definition exact_float :: "pyval \<Rightarrow> pyfloat \<Rightarrow> string \<Rightarrow> scheduler_error + unit" where
  "exact_float v x label = (case as_float v of
     None \<Rightarrow> Inl (Config label)
   | Some None \<Rightarrow> Inl (Contracted (contract_error.FloatOverflow label))
   | Some (Some y) \<Rightarrow> ensure (y = x \<and> f_finite y) (Config label))"

definition legacy_limit_of :: "catalog \<Rightarrow> string \<Rightarrow> int option" where
  "legacy_limit_of rc phase = dict_get (rc_dispatch rc) phase"

definition legacy_cpu_of :: "catalog \<Rightarrow> string \<Rightarrow> string \<Rightarrow> pyfloat option" where
  "legacy_cpu_of rc phase family =
     (case dict_get (rc_estimates rc) (if phase = ''EXPLORE'' then ''explore'' else ''verify'') of
        None \<Rightarrow> None | Some es \<Rightarrow> dict_get es family)"

definition chunk_keys_of_catalog :: "string list" where
  "chunk_keys_of_catalog = [''allocation_round'', ''profile_id'', ''chunk_id'', ''family'', ''phase'', ''purpose'', ''native_limit'',
     ''reserved_cpu_ms'', ''reserved_gpu_ms'', ''wall_bound_ms'']"

definition wall_bound :: pyfloat where
  "wall_bound = Fin 4000"

definition cost_evidence :: "string \<Rightarrow> string \<Rightarrow> int \<Rightarrow> string \<Rightarrow> string \<Rightarrow> string \<Rightarrow> string \<Rightarrow> native_limit \<Rightarrow> pyfloat \<Rightarrow> pyval" where
  "cost_evidence rdigest sdigest rnd pid cid family phase nl cpu = PDict [
     (''reservation_basis'', PStr reservation_basis), (''resource_catalog_digest'', PStr rdigest),
     (''source_policy_digest'', PStr sdigest), (''allocation_round'', PInt rnd), (''profile_id'', PStr pid),
     (''chunk_id'', PStr cid), (''family'', PStr family), (''phase'', PStr phase), (''native_limit'', limit_dict nl),
     (''reserved_cpu_ms'', PFloat cpu), (''reserved_gpu_ms'', PFloat (Fin 0)), (''wall_bound_ms'', PFloat wall_bound),
     (''cost_bound_claim'', PBool False)]"

definition load_chunk :: "catalog \<Rightarrow> string \<Rightarrow> string \<Rightarrow> pyval \<Rightarrow> scheduler_error + scheduler_chunk" where
  "load_chunk rc rdigest sdigest v =
     rbind (checked (mapping v ''chunks'')) (\<lambda>row.
     rbind (checked (reject_unknown row chunk_keys_of_catalog ''chunks'')) (\<lambda>_.
     rbind (checked (nonnegative_int (get_value row ''allocation_round'') ''allocation_round'')) (\<lambda>r.
     rbind (checked (safe_id (get_value row ''profile_id'') ''profile_id'')) (\<lambda>pid.
     rbind (checked (find_profile rc pid)) (\<lambda>p.
     rbind (checked (family_of (get_value row ''family'') ''family'')) (\<lambda>f.
     rbind (ensure (ep_family p = f) (Config ''family'')) (\<lambda>_.
     rbind (case round_phase r of None \<Rightarrow> Inl (Config ''round/phase'')
       | Some ph \<Rightarrow> if get_value row ''phase'' = PStr ph then Inr ph else Inl (Config ''round/phase'')) (\<lambda>ph.
     rbind (checked (rbind (mapping (get_value row ''native_limit'') ''native_limit'') (\<lambda>d. read_limit (PDict d)))) (\<lambda>nl.
     rbind (checked (validate_for_family nl (PStr f))) (\<lambda>_.
     rbind (ensure (nl_kind nl = ''nodes'' \<and> legacy_limit_of rc ph = Some (nl_value nl)) (Config ''native limit'')) (\<lambda>_.
     (case legacy_cpu_of rc ph f of
        None \<Rightarrow> Inl (Config ''estimate'')
      | Some cpu \<Rightarrow>
     rbind (exact_float (get_value row ''reserved_cpu_ms'') cpu ''reserved_cpu_ms'') (\<lambda>_.
     rbind (exact_float (get_value row ''reserved_gpu_ms'') (Fin 0) ''reserved_gpu_ms'') (\<lambda>_.
     rbind (exact_float (get_value row ''wall_bound_ms'') wall_bound ''wall_bound_ms'') (\<lambda>_.
     rbind (checked (safe_id (get_value row ''chunk_id'') ''chunk_id'')) (\<lambda>cid.
     rbind (checked (digest_value (cost_evidence rdigest sdigest r pid cid f ph nl cpu))) (\<lambda>ev.
     rbind (checked (make_chunk (PStr cid) (PStr f) (PStr ph) (get_value row ''purpose'') nl (PFloat cpu) (PFloat (Fin 0))
       (PFloat wall_bound) (PStr ev))) (\<lambda>c.
     Inr \<lparr>sk_round = r, sk_profile = pid, sk_chunk = c\<rparr>))))))))))))))))))"

definition by_profile :: "scheduler_chunk list \<Rightarrow> (string \<times> string list) list" where
  "by_profile ks = fold (\<lambda>k d. dict_set (sk_profile k)
     ((case dict_get d (sk_profile k) of None \<Rightarrow> [] | Some xs \<Rightarrow> xs) @ [wc_id (sk_chunk k)]) d) ks []"

definition license_of_profile :: "catalog \<Rightarrow> string \<Rightarrow> string \<Rightarrow> string \<times> string list \<Rightarrow> scheduler_error + chunk_license" where
  "license_of_profile rc rdigest sdigest x =
     rbind (checked (find_profile rc (fst x))) (\<lambda>p.
     rbind (checked (profile_digest p)) (\<lambda>h.
     checked (make_license (PStr (''compat-license/'' @ ep_family p @ ''/engine-opt-v2'')) (PStr (rc_id rc)) (PStr rdigest)
       (PStr (fst x)) (PStr h) (map PStr (sort (snd x))) (PStr sdigest))))"

definition load_scheduler_catalog :: "catalog \<Rightarrow> pyval \<Rightarrow> scheduler_error + scheduler_catalog" where
  "load_scheduler_catalog rc v = (case v of PDict raw \<Rightarrow>
     rbind (checked (reject_unknown raw [''schema_version'', ''catalog_id'', ''policy_id'', ''resource_catalog'', ''round_count'',
       ''max_grants_per_round'', ''reservation_basis'', ''cost_bound_claim'', ''source_policy'', ''chunks'', ''authority'',
       ''claim_boundary''] ''work scheduler catalog'')) (\<lambda>_.
     rbind (ensure (py_eq (get_value raw ''schema_version'') schema_version) (Config ''schema_version'')) (\<lambda>_.
     rbind (ensure (py_eq (get_value raw ''authority'') (marker ''resource_template'')) (Config ''authority'')) (\<lambda>_.
     rbind (ensure (py_eq (get_value raw ''claim_boundary'') scheduler_boundary) (Config ''claim boundary'')) (\<lambda>_.
     rbind (checked (mapping (get_value raw ''resource_catalog'') ''resource_catalog'')) (\<lambda>res.
     rbind (checked (reject_unknown res [''path'', ''catalog_id'', ''catalog_digest''] ''resource_catalog'')) (\<lambda>_.
     rbind (case get_value res ''path'' of PStr t \<Rightarrow> if relative_path t then Inr t else Inl (Config ''path'') | _ \<Rightarrow> Inl (Config ''path'')) (\<lambda>path.
     rbind (ensure (get_value res ''catalog_id'' = PStr (rc_id rc)) (Config ''catalog identity'')) (\<lambda>_.
     rbind (checked (catalog_digest rc)) (\<lambda>rdigest.
     rbind (ensure (get_value res ''catalog_digest'' = PStr rdigest) (Config ''catalog digest'')) (\<lambda>_.
     rbind (ensure (\<not> rc_selection rc) (Config ''selection'')) (\<lambda>_.
     rbind (checked (mapping (get_value raw ''source_policy'') ''source_policy'')) (\<lambda>source.
     rbind (ensure (py_eq (PDict source) (legacy_dict rc)) (Config ''source_policy'')) (\<lambda>_.
     rbind (checked (digest_value (PDict source))) (\<lambda>sdigest.
     rbind (ensure (get_value raw ''reservation_basis'' = PStr reservation_basis) (Config ''reservation basis'')) (\<lambda>_.
     rbind (ensure (get_value raw ''cost_bound_claim'' = PBool False) (Config ''cost_bound_claim'')) (\<lambda>_.
     rbind (case get_value raw ''chunks'' of PList xs \<Rightarrow> Inr xs | _ \<Rightarrow> Inl (Config ''chunks'')) (\<lambda>rows.
     rbind (rmap (load_chunk rc rdigest sdigest) rows) (\<lambda>chunks.
     rbind (rmap (license_of_profile rc rdigest sdigest) (sort_key fst (by_profile chunks))) (\<lambda>licenses.
     make_scheduler_catalog (get_value raw ''catalog_id'') (get_value raw ''policy_id'') path (rc_id rc) rdigest
       (get_value raw ''round_count'') (get_value raw ''max_grants_per_round'') source chunks licenses)))))))))))))))))))
   | _ \<Rightarrow> Inl (Config ''root''))"

section \<open>The scheduler\<close>

record scheduler =
  sr_catalog :: scheduler_catalog
  sr_resource :: catalog

definition make_scheduler :: "scheduler_catalog \<Rightarrow> catalog \<Rightarrow> scheduler_error + scheduler" where
  "make_scheduler c rc =
     rbind (ensure (sc_resource c = rc_id rc) (Config ''provenance'')) (\<lambda>_.
     rbind (checked (catalog_digest rc)) (\<lambda>h.
     rbind (ensure (sc_resource_digest c = h) (Config ''provenance'')) (\<lambda>_.
     Inr \<lparr>sr_catalog = c, sr_resource = rc\<rparr>)))"

text \<open>Errors of the catalog become denials.\<close>

definition or_denied :: "contract_error + 'a \<Rightarrow> scheduler_error + 'a" where
  "or_denied m = (case m of Inl e \<Rightarrow> Inl (Denied ''catalog'') | Inr x \<Rightarrow> Inr x)"

definition validate_parent_plan :: "scheduler \<Rightarrow> move_plan \<Rightarrow> scheduler_error + unit" where
  "validate_parent_plan s p =
     rbind (ensure (mp_disposition p = ''ADAPTIVE'') (Denied ''disposition'')) (\<lambda>_.
     rbind (ensure (mp_catalog p = rc_id (sr_resource s)) (Denied ''catalog'')) (\<lambda>_.
     rbind (checked (catalog_digest (sr_resource s))) (\<lambda>h.
     rbind (ensure (mp_catalog_digest p = h) (Denied ''catalog'')) (\<lambda>_.
     rbind (or_denied (find_composition (sr_resource s) (cp_id (mp_composition p)))) (\<lambda>frozen.
     rbind (checked (composition_digest (mp_composition p))) (\<lambda>a.
     rbind (checked (composition_digest frozen)) (\<lambda>b.
     ensure (a = b \<and> composition_dict (mp_composition p) = composition_dict frozen) (Denied ''composition'')))))))) "

definition compat_decision :: "move_plan \<Rightarrow> string \<Rightarrow> int \<Rightarrow> string \<Rightarrow> string \<Rightarrow> string \<Rightarrow> string \<Rightarrow> pyval" where
  "compat_decision p plan_id rnd phase owner inst chunk = PDict [
     (''decision_kind'', PStr ''compat-decision-v1''), (''scheduler_policy_id'', PStr scheduler_policy),
     (''move_resource_plan_id'', PStr plan_id), (''generation'', PInt (mp_generation p)), (''position_id'', PStr (mp_position p)),
     (''allocation_round'', PInt rnd), (''phase'', PStr phase), (''owner'', PStr owner), (''instance'', PStr inst),
     (''work_chunk_id'', PStr chunk)]"

text \<open>The digest of the decision behind a grant: given, or that of the fixed schedule.\<close>

definition decision_digest :: "pyval \<Rightarrow> move_plan \<Rightarrow> int \<Rightarrow> string \<Rightarrow> string \<Rightarrow> string \<Rightarrow> string \<Rightarrow> scheduler_error + string" where
  "decision_digest given p rnd phase owner inst chunk = (case given of
     PNone \<Rightarrow> rbind (checked (move_plan_id p)) (\<lambda>i. checked (digest_value (compat_decision p i rnd phase owner inst chunk)))
   | PStr h \<Rightarrow> if sha256_text h then Inr h else Inl (Denied ''allocator_decision_digest'')
   | _ \<Rightarrow> Inl (Denied ''allocator_decision_digest''))"

definition elapsed_of :: "pyval \<Rightarrow> scheduler_error + pyfloat" where
  "elapsed_of v = (case as_float v of
     None \<Rightarrow> Inl (Denied ''elapsed_ms'')
   | Some None \<Rightarrow> Inl (Contracted (contract_error.FloatOverflow ''elapsed_ms''))
   | Some (Some x) \<Rightarrow> if f_finite x \<and> \<not> f_less x (Fin 0) then Inr x else Inl (Denied ''elapsed_ms''))"

definition soft_float :: "move_plan \<Rightarrow> scheduler_error + pyfloat" where
  "soft_float p = map_sum Planned id (to_float (mp_soft p))"

definition bound_profile :: "scheduler \<Rightarrow> engine_profile \<Rightarrow> engine_profile \<Rightarrow> scheduler_error + unit" where
  "bound_profile s bound p =
     rbind (ensure (ep_id bound = ep_id p) (Denied ''profile'')) (\<lambda>_.
     rbind (checked (profile_digest bound)) (\<lambda>a.
     rbind (checked (profile_digest p)) (\<lambda>b.
     ensure (a = b) (Denied ''profile''))))"

definition create_grant :: "scheduler \<Rightarrow> move_plan \<Rightarrow> string \<Rightarrow> string \<Rightarrow> string \<Rightarrow> int \<Rightarrow> pyval \<Rightarrow> pyval \<Rightarrow> pyval \<Rightarrow>
    scheduler_error + work_grant" where
  "create_grant s p owner inst phase rnd options elapsed decision =
     rbind (validate_parent_plan s p) (\<lambda>_.
     rbind (checked (family_of (PStr owner) ''family'')) (\<lambda>f.
     rbind (checked (nonnegative_int (PInt rnd) ''allocation_round'')) (\<lambda>_.
     rbind (ensure (rnd < sc_rounds (sr_catalog s)) (Denied ''allocation round'')) (\<lambda>_.
     rbind (elapsed_of elapsed) (\<lambda>now.
     rbind (chunk_for (sr_catalog s) rnd f phase) (\<lambda>k.
     rbind (checked (find_profile (sr_resource s) (sk_profile k))) (\<lambda>prof.
     rbind (or_denied (profile_for_instance (sr_resource s) inst (Some (cp_id (mp_composition p))))) (\<lambda>bound.
     rbind (bound_profile s bound prof) (\<lambda>_.
     rbind (ensure (ep_family prof = f) (Denied ''owner'')) (\<lambda>_.
     rbind (soft_float p) (\<lambda>soft.
     (let deadline = f_min soft (f_add now (wc_wall (sk_chunk k))) in
     rbind (ensure (\<not> f_le deadline now) (Denied ''expired'')) (\<lambda>_.
     rbind (case options of PStr t \<Rightarrow> if length t = 64 then Inr t else Inl (Denied ''options digest'') | _ \<Rightarrow> Inl (Denied ''options digest'')) (\<lambda>opts.
     rbind (decision_digest decision p rnd phase f inst (wc_id (sk_chunk k))) (\<lambda>dd.
     rbind (license_for (sr_catalog s) (ep_id prof) (wc_id (sk_chunk k))) (\<lambda>lic.
     rbind (checked (move_plan_id p)) (\<lambda>pid.
     checked (from_chunk prof (sk_chunk k) (Some lic) (mp_generation p) (mp_position p) f inst pid scheduler_policy rnd deadline
       opts dd))))))))))))))))))"

definition static_identity :: "string \<Rightarrow> string \<Rightarrow> string \<Rightarrow> string \<Rightarrow> string \<Rightarrow> string \<Rightarrow> native_limit \<Rightarrow> pyfloat \<Rightarrow> pyfloat \<Rightarrow> pyval" where
  "static_identity pid pd purpose cid cd ld nl cpu gpu = PDict [
     (''profile_id'', PStr pid), (''profile_digest'', PStr pd), (''purpose'', PStr purpose), (''work_chunk_id'', PStr cid),
     (''work_chunk_digest'', PStr cd), (''work_chunk_license_digest'', PStr ld), (''native_limit'', limit_dict nl),
     (''reserved_cpu_ms'', PFloat cpu), (''reserved_gpu_ms'', PFloat gpu)]"

definition deadline_slack :: pyfloat where
  "deadline_slack = of_rat64 (1 / 10 ^ 9)"

definition validate_grant :: "scheduler \<Rightarrow> move_plan \<Rightarrow> work_grant \<Rightarrow> pyval \<Rightarrow> scheduler_error + unit" where
  "validate_grant s p g decision =
     rbind (validate_parent_plan s p) (\<lambda>_.
     rbind (checked (move_plan_id p)) (\<lambda>pid.
     rbind (ensure (wg_plan g = pid) (Denied ''parent plan'')) (\<lambda>_.
     rbind (ensure (wg_generation g = mp_generation p \<and> wg_position g = mp_position p) (Denied ''generation/position'')) (\<lambda>_.
     rbind (ensure (wg_policy g = scheduler_policy) (Denied ''scheduler policy'')) (\<lambda>_.
     rbind (ensure (wg_round g < sc_rounds (sr_catalog s)) (Denied ''allocation round'')) (\<lambda>_.
     rbind (chunk_for (sr_catalog s) (wg_round g) (wg_owner g) (wg_phase g)) (\<lambda>k.
     rbind (checked (find_profile (sr_resource s) (sk_profile k))) (\<lambda>prof.
     rbind (checked (profile_for_instance (sr_resource s) (wg_instance g) (Some (cp_id (mp_composition p))))) (\<lambda>bound.
     rbind (bound_profile s bound prof) (\<lambda>_.
     rbind (license_for (sr_catalog s) (ep_id prof) (wc_id (sk_chunk k))) (\<lambda>lic.
     rbind (checked (profile_digest prof)) (\<lambda>pd.
     rbind (checked (chunk_digest (sk_chunk k))) (\<lambda>cd.
     rbind (checked (license_digest lic)) (\<lambda>ld.
     rbind (ensure (static_identity (wg_profile g) (wg_profile_digest g) (wg_purpose g) (wg_chunk g) (wg_chunk_digest g)
         (wg_license_digest g) (wg_limit g) (wg_cpu g) (wg_gpu g)
       = static_identity (ep_id prof) pd (wc_purpose (sk_chunk k)) (wc_id (sk_chunk k)) cd ld (wc_limit (sk_chunk k))
         (wc_cpu (sk_chunk k)) (wc_gpu (sk_chunk k))) (Denied ''static identity'')) (\<lambda>_.
     rbind (decision_digest decision p (wg_round g) (wg_phase g) (wg_owner g) (wg_instance g) (wc_id (sk_chunk k))) (\<lambda>dd.
     rbind (ensure (wg_decision g = dd) (Denied ''allocator_decision_digest'')) (\<lambda>_.
     rbind (soft_float p) (\<lambda>soft.
     ensure (\<not> f_less (f_add soft deadline_slack) (wg_deadline g)) (Denied ''deadline'')))))))))))))))))))"

definition build_scheduler :: "scheduler_settings \<Rightarrow> catalog \<Rightarrow> pyval \<Rightarrow> scheduler_error + scheduler" where
  "build_scheduler st rc raw =
     rbind (load_scheduler_catalog rc raw) (\<lambda>c.
     rbind (ensure (sc_rounds c = ss_rounds st) (Config ''round_count'')) (\<lambda>_.
     rbind (ensure (sc_max_grants c = ss_max_grants st) (Config ''max_grants_per_round'')) (\<lambda>_.
     make_scheduler c rc)))"

end
