(* ===== verification/WorkLaws.thy ===== *)
theory WorkLaws
  imports WorkScheduler
begin

text \<open>
  Laws of grants and of the scheduler: what a grant made from a chunk carries, and that the
  scheduler accepts again the grants it makes.
\<close>

lemma digest_value_text: "digest_value v = Inr h \<Longrightarrow> sha256_text h"
  by (auto simp: digest_value_def canonical_digest_def split: option.splits sum.splits dest: digest_of_text)

lemma digest_value_total: "json_ok v \<Longrightarrow> \<exists>h. digest_value v = Inr h"
  by (simp add: digest_value_def canonical_digest_def digest_of_def)

lemma from_chunk_Inr:
  assumes "from_chunk p c lic gen pos owner inst plan policy rnd deadline opts decision = Inr g"
  shows "owner = ep_family p" "wc_family c = ep_family p" "grant_license p c lic = Inr (wg_license_digest g)"
    "profile_digest p = Inr (wg_profile_digest g)" "chunk_digest c = Inr (wg_chunk_digest g)"
    "wg_generation g = gen" "wg_position g = pos" "wg_owner g = owner" "wg_instance g = inst" "wg_plan g = plan"
    "wg_profile g = ep_id p" "wg_phase g = wc_phase c" "wg_purpose g = wc_purpose c" "wg_chunk g = wc_id c"
    "wg_policy g = policy" "wg_round g = rnd" "wg_limit g = wc_limit c" "wg_cpu g = wc_cpu c" "wg_gpu g = wc_gpu c"
    "wg_deadline g = deadline" "wg_options g = opts" "wg_decision g = decision" "grant_ok g"
  using assms by (auto simp: from_chunk_def rbind_eq_Inr make_grant_Inr accepts)

lemma checked_Inr [simp]: "checked m = Inr x \<longleftrightarrow> m = Inr x"
  by (cases m) (auto simp: checked_def)

lemma or_denied_Inr [simp]: "or_denied m = Inr x \<longleftrightarrow> m = Inr x"
  by (cases m) (auto simp: or_denied_def)

lemma chunk_for_Inr:
  assumes "chunk_for c rnd f phase = Inr k"
  shows "k \<in> set (sc_chunks c)" "sk_round k = rnd" "wc_family (sk_chunk k) = f" "wc_phase (sk_chunk k) = phase"
proof -
  obtain f' where f: "family_of (PStr f) ''family'' = Inr f'" "f' = f"
    and k: "filter (\<lambda>k. grid_key k = (rnd, f', phase)) (sc_chunks c) = [k]"
    using assms by (auto simp: chunk_for_def rbind_eq_Inr accepts split: list.splits)
  have "k \<in> set (filter (\<lambda>k. grid_key k = (rnd, f', phase)) (sc_chunks c))" by (simp add: k)
  then show "k \<in> set (sc_chunks c)" "sk_round k = rnd" "wc_family (sk_chunk k) = f" "wc_phase (sk_chunk k) = phase"
    by (simp_all add: f grid_key_def)
qed

text \<open>Where the deadline of a grant lies.\<close>

lemma to_float_double: "to_float i = Inr x \<Longrightarrow> \<exists>r. x = Fin r \<and> is_double r"
  by (cases "of_rat64 (of_int i)") (auto simp: to_float_def float_of_int_def Let_def dest: of_rat64_is_double)

lemma soft_float_Inr [simp]: "soft_float p = Inr x \<longleftrightarrow> to_float (mp_soft p) = Inr x"
  by (cases "to_float (mp_soft p)") (auto simp: soft_float_def)

lemma f_add_above:
  assumes "is_double r" "0 \<le> e"
  shows "\<not> f_less (f_add (Fin r) (Fin e)) (Fin r)"
proof -
  have "r \<le> round64 (r + e)"
    using round64_mono [of r "r + e"] assms by (simp add: is_double_def)
  then show ?thesis
    using assms by (auto simp: of_rat64_def Let_def is_double_def)
qed


lemma f_less_NegInf [simp]: "\<not> f_less x NegInf"
  by (cases x) auto

lemma f_min_below:
  assumes "is_double r" "0 \<le> e"
  shows "\<not> f_less (f_add (Fin r) (Fin e)) (f_min (Fin r) x)"
proof (cases x)
  case (Fin c)
  show ?thesis
  proof (cases "c < r")
    case True
    have "r \<le> round64 (r + e)"
      using round64_mono [of r "r + e"] assms by (simp add: is_double_def)
    then show ?thesis
      using assms True by (auto simp: Fin of_rat64_def Let_def is_double_def min_def)
  next
    case False
    then show ?thesis using f_add_above [OF assms] by (simp add: Fin min_def)
  qed
qed (use f_add_above [OF assms] in \<open>auto simp: f_min_def\<close>)

lemma slack_positive: "\<exists>e. deadline_slack = Fin e \<and> 0 \<le> e"
proof -
  have "0 \<le> round64 (1 / 10 ^ 9)" by (rule round64_nonneg) simp
  moreover have "round64 (1 / 10 ^ 9) \<le> round64 1" by (rule round64_mono) simp
  moreover have "round64 1 = (1 :: rat)" using round64_of_int [of 1] by simp
  moreover have "(1 :: rat) \<le> max_double" by (simp add: max_double_def)
  ultimately show ?thesis by (auto simp: deadline_slack_def of_rat64_def Let_def)
qed

text \<open>What a created grant rests on.\<close>

lemma create_grant_Inr:
  assumes "create_grant s p owner inst phase rnd options elapsed decision = Inr g"
  obtains now k prof bound soft lic pid opts where
    "validate_parent_plan s p = Inr ()" "owner \<in> set solver_families" "rnd < sc_rounds (sr_catalog s)"
    "elapsed_of elapsed = Inr now" "chunk_for (sr_catalog s) rnd owner phase = Inr k"
    "find_profile (sr_resource s) (sk_profile k) = Inr prof"
    "profile_for_instance (sr_resource s) inst (Some (cp_id (mp_composition p))) = Inr bound"
    "bound_profile s bound prof = Inr ()" "ep_family prof = owner" "to_float (mp_soft p) = Inr soft"
    "\<not> f_le (f_min soft (f_add now (wc_wall (sk_chunk k)))) now"
    "decision_digest decision p rnd phase owner inst (wc_id (sk_chunk k)) = Inr (wg_decision g)"
    "license_for (sr_catalog s) (ep_id prof) (wc_id (sk_chunk k)) = Inr lic" "move_plan_id p = Inr pid"
    "from_chunk prof (sk_chunk k) (Some lic) (mp_generation p) (mp_position p) owner inst pid scheduler_policy rnd
       (f_min soft (f_add now (wc_wall (sk_chunk k)))) opts (wg_decision g) = Inr g"
proof -
  obtain now k prof bound soft lic pid opts dd where
    f: "validate_parent_plan s p = Inr ()" "owner \<in> set solver_families" "rnd < sc_rounds (sr_catalog s)"
    "elapsed_of elapsed = Inr now" "chunk_for (sr_catalog s) rnd owner phase = Inr k"
    "find_profile (sr_resource s) (sk_profile k) = Inr prof"
    "profile_for_instance (sr_resource s) inst (Some (cp_id (mp_composition p))) = Inr bound"
    "bound_profile s bound prof = Inr ()" "ep_family prof = owner" "to_float (mp_soft p) = Inr soft"
    "\<not> f_le (f_min soft (f_add now (wc_wall (sk_chunk k)))) now"
    "decision_digest decision p rnd phase owner inst (wc_id (sk_chunk k)) = Inr dd"
    "license_for (sr_catalog s) (ep_id prof) (wc_id (sk_chunk k)) = Inr lic" "move_plan_id p = Inr pid"
    and g: "from_chunk prof (sk_chunk k) (Some lic) (mp_generation p) (mp_position p) owner inst pid scheduler_policy rnd
       (f_min soft (f_add now (wc_wall (sk_chunk k)))) opts dd = Inr g"
    using assms by (auto simp: create_grant_def rbind_eq_Inr accepts Let_def)
  have "wg_decision g = dd" using from_chunk_Inr [OF g] by simp
  then show thesis using that f g by simp
qed

lemma grant_license_indirect:
  assumes "grant_license p c (Some lic) = Inr h" "wc_id c \<notin> set (ep_chunks p)"
  shows "license_digest lic = Inr h"
  using assms by (auto simp: grant_license_def rbind_eq_Inr)


text \<open>A catalog whose profiles name no chunk themselves, as the frozen one: every grant needs a licence.\<close>

definition names_no_chunk :: "catalog \<Rightarrow> bool" where
  "names_no_chunk c \<longleftrightarrow> list_all (\<lambda>x. ep_chunks (snd x) = []) (rc_profiles c)"

lemma names_no_chunkD: "names_no_chunk c \<Longrightarrow> find_profile c pid = Inr p \<Longrightarrow> ep_chunks p = []"
  by (auto simp: names_no_chunk_def find_profile_def list_all_iff split: option.splits dest!: map_of_SomeD)

text \<open>
  C1. A grant that the scheduler creates is accepted by its own validation, which recomputes every
  identity of the grant from the frozen catalogs: the plan, the grid cell, the profile of the instance,
  the licence, the digests, the reservation and the decision behind it.  Its deadline is after the
  elapsed time, at most the wall bound of the chunk later, and not beyond the soft budget of the move.
\<close>

theorem created_grants_validate:
  assumes "create_grant s p owner inst phase rnd options elapsed decision = Inr g"
    and "names_no_chunk (sr_resource s)"
  shows "validate_grant s p g decision = Inr () \<and>
    (\<exists>now k soft. elapsed_of elapsed = Inr now \<and> chunk_for (sr_catalog s) rnd owner phase = Inr k \<and>
       to_float (mp_soft p) = Inr soft \<and> wg_deadline g = f_min soft (f_add now (wc_wall (sk_chunk k))) \<and>
       \<not> f_le (wg_deadline g) now)"
proof -
  obtain now k prof bound soft lic pid opts where
    f: "validate_parent_plan s p = Inr ()" "owner \<in> set solver_families" "rnd < sc_rounds (sr_catalog s)"
    "elapsed_of elapsed = Inr now" "chunk_for (sr_catalog s) rnd owner phase = Inr k"
    "find_profile (sr_resource s) (sk_profile k) = Inr prof"
    "profile_for_instance (sr_resource s) inst (Some (cp_id (mp_composition p))) = Inr bound"
    "bound_profile s bound prof = Inr ()" "ep_family prof = owner" "to_float (mp_soft p) = Inr soft"
    "\<not> f_le (f_min soft (f_add now (wc_wall (sk_chunk k)))) now"
    "decision_digest decision p rnd phase owner inst (wc_id (sk_chunk k)) = Inr (wg_decision g)"
    "license_for (sr_catalog s) (ep_id prof) (wc_id (sk_chunk k)) = Inr lic" "move_plan_id p = Inr pid"
    and g: "from_chunk prof (sk_chunk k) (Some lic) (mp_generation p) (mp_position p) owner inst pid scheduler_policy rnd
       (f_min soft (f_add now (wc_wall (sk_chunk k)))) opts (wg_decision g) = Inr g"
    using assms(1) by (rule create_grant_Inr)
  note F = from_chunk_Inr [OF g] and K = chunk_for_Inr [OF f(5)]
  have "license_digest lic = Inr (wg_license_digest g)"
    using grant_license_indirect [OF F(3)] names_no_chunkD [OF assms(2) f(6)] by simp
  moreover obtain r e where "soft = Fin r" "is_double r" "deadline_slack = Fin e" "0 \<le> e"
    using to_float_double [OF f(10)] slack_positive by blast
  then have "\<not> f_less (f_add soft deadline_slack) (wg_deadline g)"
    using f_min_below [of r e] by (simp only: F(20)) simp
  ultimately have "validate_grant s p g decision = Inr ()"
    using f F(4-19) K by (simp add: validate_grant_def rbind_eq_Inr)
  with f(4,5,10,11) F(20) show ?thesis by auto
qed

end
