(* ===== verification/HostLaws.thy ===== *)
theory HostLaws
  imports MovePlan
begin

text \<open>
  Laws of the host record: it is read back as written, and the record that the discovery derives never
  states more capacity than any observed fact allows.
\<close>

section \<open>Reading back\<close>

lemma if_Inl_eq_Inr [simp]: "(if b then Inl e else r) = Inr x \<longleftrightarrow> \<not> b \<and> r = Inr x"
  by simp

lemma case_option_False: "(case v of None \<Rightarrow> False | Some y \<Rightarrow> P y) \<longleftrightarrow> (\<exists>y. v = Some y \<and> P y)"
  by (cases v) simp_all

lemma optional_Inr: "optional f v l = Inr x \<longleftrightarrow> (v = PNone \<and> x = None) \<or> (v \<noteq> PNone \<and> (\<exists>y. f v l = Inr y \<and> x = Some y))"
  by (auto simp: optional_def rbind_eq_Inr)

lemma opt_int_simps [simp]: "opt_int None = PNone" "opt_int (Some i) = PInt i" "opt_int v = PNone \<longleftrightarrow> v = None"
  by (auto simp: opt_int_def split: option.splits)

lemma opt_float_simps [simp]: "opt_float None = PNone" "opt_float (Some x) = PFloat x" "opt_float v = PNone \<longleftrightarrow> v = None"
  by (auto simp: opt_float_def split: option.splits)

lemma opt_text_simps [simp]: "opt_text None = PNone" "opt_text (Some t) = PStr t" "opt_text v = PNone \<longleftrightarrow> v = None"
  by (auto simp: opt_text_def split: option.splits)

lemma opt_int_eq [simp]: "opt_int x = opt_int y \<longleftrightarrow> x = y"
  by (cases x; cases y) simp_all

lemma opt_float_eq [simp]: "opt_float x = opt_float y \<longleftrightarrow> x = y"
  by (cases x; cases y) simp_all

lemma opt_text_eq [simp]: "opt_text x = opt_text y \<longleftrightarrow> x = y"
  by (cases x; cases y) simp_all

lemma map_wrap_eq [simp]: "map PStr xs = map PStr ys \<longleftrightarrow> xs = ys" "map PInt is = map PInt js \<longleftrightarrow> is = js"
  by (auto intro: injI dest: map_injective)

lemma optional_positive_int_Inr [accepts]:
  "optional positive_int v l = Inr x \<longleftrightarrow> v = opt_int x \<and> (case x of None \<Rightarrow> True | Some i \<Rightarrow> 1 \<le> i)"
  by (cases x) (auto simp: optional_Inr accepts)

lemma optional_nonnegative_int_Inr [accepts]:
  "optional nonnegative_int v l = Inr x \<longleftrightarrow> v = opt_int x \<and> (case x of None \<Rightarrow> True | Some i \<Rightarrow> 0 \<le> i)"
  by (cases x) (auto simp: optional_Inr accepts)

lemma optional_text_Inr [accepts]:
  "optional_text v l = Inr x \<longleftrightarrow> v = opt_text x \<and> (case x of None \<Rightarrow> True | Some s \<Rightarrow> s \<noteq> [] \<and> CHR 0x00 \<notin> set s)"
  by (cases x) (auto simp: optional_text_def optional_Inr accepts)

lemma bool_of_Inr [accepts]: "bool_of v l = Inr b \<longleftrightarrow> v = PBool b"
  by (cases v) (auto simp: bool_of_def)

definition positive_finite :: "pyfloat \<Rightarrow> bool" where
  "positive_finite x \<longleftrightarrow> f_finite x \<and> \<not> f_le x (Fin 0)"

lemma not_le_not_less: "\<not> f_le x (Fin 0) \<Longrightarrow> \<not> f_less x (Fin 0)"
  by (cases x) auto

lemma optional_positive_float_Inr [accepts]:
  "optional_positive_float v l = Inr x \<longleftrightarrow>
     (v = PNone \<and> x = None) \<or> (\<exists>y. as_float v = Some (Some y) \<and> positive_finite y \<and> x = Some y)"
  by (auto simp: optional_positive_float_def positive_finite_def rbind_eq_Inr finite_nonnegative_Inr
      dest: not_le_not_less)

lemma environment_fixed:
  assumes "make_environment kw cs = Inr e"
  shows "make_environment (environment_fields e) (map PStr (ge_candidates e)) = Inr e"
proof -
  obtain xs where "rmap (\<lambda>v. safe_id v ''candidate_composition_ids'') cs = Inr xs" "distinct xs" "ge_candidates e = sort xs"
    using assms by (auto simp: make_environment_def rbind_eq_Inr Let_def)
  then have c: "list_all safe_text (ge_candidates e)" "distinct (ge_candidates e)" "sort (ge_candidates e) = ge_candidates e"
    by (auto simp: accepts list_all_iff)
  show ?thesis
    using assms c
    by (cases e) (auto simp: make_environment_def environment_fields_def rbind_eq_Inr Let_def accepts)
qed

lemma read_environment_back: "read_environment v = Inr e \<Longrightarrow> read_environment (environment_dict e) = Inr e"
proof -
  assume "read_environment v = Inr e"
  then obtain d cs where "make_environment d cs = Inr e"
    by (auto simp: read_environment_def rbind_eq_Inr)
  from environment_fixed [OF this] show ?thesis
    by (simp add: read_environment_def environment_dict_def environment_keys_def rbind_eq_Inr accepts)
      (simp add: environment_fields_def)
qed

lemma make_quota_Inr:
  "make_quota p q n e = Inr c \<longleftrightarrow>
     p = PStr (cq_path c) \<and> safe_text (cq_path c) \<and> n = PInt (cq_period c) \<and> 1 \<le> cq_period c \<and>
     q = opt_int (cq_quota c) \<and>
     (case cq_quota c of
        None \<Rightarrow> e = PNone \<and> cq_equivalent c = None
      | Some i \<Rightarrow> 1 \<le> i \<and> (\<exists>y x. as_float e = Some (Some y) \<and> positive_finite y \<and> cq_equivalent c = Some y \<and>
          int_ratio i (cq_period c) = Inr x \<and> is_close y x))"
  by (cases c; cases "cq_quota c") (auto simp: make_quota_def rbind_eq_Inr accepts case_option_False)

lemma read_quota_back: "read_quota v = Inr q \<Longrightarrow> read_quota (quota_dict q) = Inr q"
  by (auto simp: read_quota_def quota_dict_def make_quota_Inr rbind_eq_Inr accepts split: option.splits)

lemma read_memory_back: "read_memory v = Inr m \<Longrightarrow> read_memory (memory_dict m) = Inr m"
  by (auto simp: read_memory_def memory_dict_def make_memory_def rbind_eq_Inr accepts split: if_splits)

lemma rmap_ints [accepts]:
  "rmap (\<lambda>x. nonnegative_int x l) vs = Inr xs \<longleftrightarrow> vs = map PInt xs \<and> list_all (\<lambda>i. 0 \<le> i) xs"
  by (rule rmap_shape) (rule nonnegative_int_Inr)

lemma opt_ints_simps [simp]: "opt_ints None = PNone" "opt_ints (Some xs) = PList (map PInt xs)"
  by (simp_all add: opt_ints_def)

lemma opt_ints_eq [simp]: "opt_ints x = opt_ints y \<longleftrightarrow> x = y"
  by (cases x; cases y) simp_all

lemma cpu_tuple_Inr [accepts]:
  "cpu_tuple v l = Inr x \<longleftrightarrow> v = opt_ints x \<and>
     (case x of None \<Rightarrow> True | Some xs \<Rightarrow> list_all (\<lambda>i. 0 \<le> i) xs \<and> distinct xs \<and> sorted xs \<and> xs \<noteq> [])"
  by (cases v; cases x) (auto simp: cpu_tuple_def rbind_eq_Inr accepts)

lemma read_node_back: "read_node v = Inr n \<Longrightarrow> read_node (node_dict n) = Inr n"
  by (auto simp: read_node_def node_dict_def make_node_def rbind_eq_Inr accepts split: option.splits)


definition text_ok :: "string option \<Rightarrow> bool" where
  "text_ok v \<longleftrightarrow> (case v of None \<Rightarrow> True | Some s \<Rightarrow> s \<noteq> [] \<and> CHR 0x00 \<notin> set s)"

definition nat_ok :: "int option \<Rightarrow> bool" where
  "nat_ok v \<longleftrightarrow> (case v of None \<Rightarrow> True | Some i \<Rightarrow> 0 \<le> i)"

definition pos_ok :: "int option \<Rightarrow> bool" where
  "pos_ok v \<longleftrightarrow> (case v of None \<Rightarrow> True | Some i \<Rightarrow> 1 \<le> i)"

lemmas accepted_options =
  optional_text_Inr [folded text_ok_def] optional_nonnegative_int_Inr [folded nat_ok_def]
  optional_positive_int_Inr [folded pos_ok_def]

lemma nonempty_text_Inr: "nonempty_text v l = Inr s \<longleftrightarrow> v = PStr s \<and> s \<noteq> []"
  by (cases v) (auto simp: nonempty_text_def)

definition flags_ok :: "string list \<Rightarrow> bool" where
  "flags_ok xs \<longleftrightarrow> list_all (\<lambda>s. s \<noteq> []) xs \<and> sorted xs \<and> distinct xs"

lemma string_tuple_Inr: "string_tuple v l = Inr xs \<longleftrightarrow>
    v = PList (map PStr xs) \<and> flags_ok xs"
  by (auto simp: string_tuple_def flags_ok_def rbind_eq_Inr list_of_Inr rmap_shape [of "\<lambda>x. nonempty_text x l", OF nonempty_text_Inr])

lemma fault_tuple_Inr: "fault_tuple v l = Inr xs \<longleftrightarrow>
    v = PList (map PStr xs) \<and> list_all (\<lambda>s. s \<noteq> [] \<and> CHR 0x00 \<notin> set s) xs"
  by (auto simp: fault_tuple_def rbind_eq_Inr accepts)

definition feature_ok :: "string list \<Rightarrow> string option \<Rightarrow> bool" where
  "feature_ok flags x \<longleftrightarrow> (case x of None \<Rightarrow> True | Some h \<Rightarrow> sha256_text h \<and> digest_value (PList (map PStr flags)) = Inr h)"

lemma feature_digest_of_Inr: "feature_digest_of v flags = Inr x \<longleftrightarrow> v = opt_text x \<and> feature_ok flags x"
  by (cases x) (auto simp: feature_digest_of_def feature_ok_def rbind_eq_Inr accepts)

definition identity_ok :: "host_capabilities \<Rightarrow> bool" where
  "identity_ok h \<longleftrightarrow> text_ok (hc_vendor h) \<and> text_ok (hc_model_name h) \<and> text_ok (hc_microcode h) \<and>
     nat_ok (hc_family h) \<and> nat_ok (hc_model h) \<and> nat_ok (hc_stepping h) \<and>
     feature_ok (hc_flags h) (hc_feature_digest h) \<and> flags_ok (hc_flags h) \<and>
     (hc_identity_complete h \<longrightarrow> hc_vendor h \<noteq> None \<and> hc_family h \<noteq> None \<and> hc_model h \<noteq> None \<and> hc_stepping h \<noteq> None \<and>
        hc_model_name h \<noteq> None \<and> hc_feature_digest h \<noteq> None \<and> hc_flags h \<noteq> [])"

lemma make_identity_Inr:
  "make_identity kw g = Inr h \<longleftrightarrow>
     get_value kw ''cpu_vendor_id'' = opt_text (hc_vendor h) \<and> get_value kw ''cpu_model_name'' = opt_text (hc_model_name h) \<and>
     get_value kw ''cpu_microcode'' = opt_text (hc_microcode h) \<and> get_value kw ''cpu_family'' = opt_int (hc_family h) \<and>
     get_value kw ''cpu_model'' = opt_int (hc_model h) \<and> get_value kw ''cpu_stepping'' = opt_int (hc_stepping h) \<and>
     get_value kw ''cpu_flags_intersection'' = PList (map PStr (hc_flags h)) \<and>
     get_value kw ''cpu_feature_digest'' = opt_text (hc_feature_digest h) \<and>
     get_value kw ''cpu_identity_complete'' = PBool (hc_identity_complete h) \<and> identity_ok h \<and>
     h = g\<lparr>hc_vendor := hc_vendor h, hc_model_name := hc_model_name h, hc_microcode := hc_microcode h,
       hc_family := hc_family h, hc_model := hc_model h, hc_stepping := hc_stepping h, hc_flags := hc_flags h,
       hc_feature_digest := hc_feature_digest h, hc_identity_complete := hc_identity_complete h\<rparr>"
  (is "?a \<longleftrightarrow> ?b")
proof
  assume ?a
  then show ?b
    by (auto simp: make_identity_def identity_ok_def rbind_eq_Inr accepted_options bool_of_Inr string_tuple_Inr
        feature_digest_of_Inr)
next
  assume b: ?b
  then show ?a
    unfolding make_identity_def identity_ok_def rbind_eq_Inr accepted_options bool_of_Inr string_tuple_Inr
        feature_digest_of_Inr ensure_eq_Inr
    by (intro exI conjI) (elim conjE; assumption | simp)+
qed


definition quota_float_ok :: "string \<Rightarrow> pyfloat option \<Rightarrow> bool" where
  "quota_float_ok status x \<longleftrightarrow> (status = ''limited'' \<longleftrightarrow> x \<noteq> None) \<and> (case x of None \<Rightarrow> True | Some y \<Rightarrow> positive_finite y)"

lemma limited_float_Inr: "limited_float status v = Inr x \<longleftrightarrow>
    quota_float_ok status x \<and> (v = PNone \<and> x = None \<or> (\<exists>y. as_float v = Some (Some y) \<and> x = Some y))"
  by (auto simp: limited_float_def quota_float_ok_def rbind_eq_Inr optional_positive_float_Inr)

lemma limited_float_ok: "limited_float status v = Inr x \<Longrightarrow> quota_float_ok status x"
  by (simp add: limited_float_Inr)

lemma limited_float_back: "limited_float status v = Inr x \<Longrightarrow> limited_float status (opt_float x) = Inr x"
  by (cases x) (auto simp: limited_float_Inr)

definition limit_int_ok :: "string \<Rightarrow> int option \<Rightarrow> bool" where
  "limit_int_ok status x \<longleftrightarrow> (status = ''limited'' \<longleftrightarrow> x \<noteq> None) \<and> nat_ok x"

lemma limited_int_Inr: "limited_int status v = Inr x \<longleftrightarrow> v = opt_int x \<and> limit_int_ok status x"
  by (cases x) (auto simp: limited_int_def limit_int_ok_def rbind_eq_Inr accepted_options)

definition topology_ok :: "host_capabilities \<Rightarrow> bool" where
  "topology_ok h \<longleftrightarrow> hc_quota_status h \<in> set limit_states \<and>
     quota_float_ok (hc_quota_status h) (hc_quota_equivalents h) \<and> pos_ok (hc_cores h) \<and> pos_ok (hc_smt h) \<and> (hc_topology_complete h \<longrightarrow> hc_cores h \<noteq> None \<and> hc_smt h \<noteq> None) \<and>
     distinct (map nn_id (hc_numa h)) \<and> sorted (map nn_id (hc_numa h)) \<and>
     (hc_numa_complete h \<longrightarrow> numa_consistent (hc_allowed h) (hc_numa h) = Inr ())"

lemma distinct_by_card: "distinct xs \<longleftrightarrow> length xs = card (set xs)"
  by (metis card_distinct distinct_card)

lemma distinct_concat_sort:
  assumes "distinct ns"
  shows "distinct (concat (map f (sort_key k ns))) \<longleftrightarrow> distinct (concat (map f ns))"
proof -
  have "length (concat (map f (sort_key k ns))) = length (concat (map f ns))"
    using assms by (simp add: length_concat comp_def sum_list_distinct_conv_sum_set)
  then show ?thesis by (simp add: distinct_by_card)
qed

lemma numa_consistent_sort:
  assumes "distinct (map nn_id nodes)"
  shows "numa_consistent allowed (sort_key nn_id nodes) = Inr () \<longleftrightarrow> numa_consistent allowed nodes = Inr ()"
proof -
  have "distinct nodes" using assms by (simp add: distinct_map)
  then show ?thesis
    by (auto simp: numa_consistent_def Let_def rbind_eq_Inr distinct_concat_sort split: option.splits simp flip: set_empty)
qed

lemma make_topology_Inr:
  "make_topology kw quotas nodes g = Inr h \<longleftrightarrow>
     get_value kw ''cpu_quota_status'' = PStr (hc_quota_status h) \<and>
     limited_float (hc_quota_status h) (get_value kw ''cpu_quota_equivalents'') = Inr (hc_quota_equivalents h) \<and>
     hc_quotas h = quotas \<and> hc_allowed g = hc_allowed h \<and>
     get_value kw ''physical_core_count'' = opt_int (hc_cores h) \<and> get_value kw ''smt_width'' = opt_int (hc_smt h) \<and>
     get_value kw ''topology_complete'' = PBool (hc_topology_complete h) \<and> distinct (map nn_id nodes) \<and>
     hc_numa h = sort_key nn_id nodes \<and> get_value kw ''numa_complete'' = PBool (hc_numa_complete h) \<and> topology_ok h \<and>
     h = g\<lparr>hc_quota_status := hc_quota_status h, hc_quota_equivalents := hc_quota_equivalents h, hc_quotas := hc_quotas h,
       hc_cores := hc_cores h, hc_smt := hc_smt h, hc_topology_complete := hc_topology_complete h, hc_numa := hc_numa h,
       hc_numa_complete := hc_numa_complete h\<rparr>"
  (is "?a \<longleftrightarrow> ?b")
proof
  assume ?a
  then obtain qs qe cores smt tc nc where f: "get_value kw ''cpu_quota_status'' = PStr qs" "qs \<in> set limit_states"
      "limited_float qs (get_value kw ''cpu_quota_equivalents'') = Inr qe"
      "get_value kw ''physical_core_count'' = opt_int cores" "pos_ok cores" "get_value kw ''smt_width'' = opt_int smt" "pos_ok smt"
      "get_value kw ''topology_complete'' = PBool tc" "tc \<longrightarrow> cores \<noteq> None \<and> smt \<noteq> None" "distinct (map nn_id nodes)"
      "get_value kw ''numa_complete'' = PBool nc" "\<exists>u. (if nc then numa_consistent (hc_allowed g) nodes else Inr ()) = Inr u"
    and h: "Inr (g\<lparr>hc_quota_status := qs, hc_quota_equivalents := qe, hc_quotas := quotas, hc_cores := cores, hc_smt := smt,
       hc_topology_complete := tc, hc_numa := sort_key nn_id nodes, hc_numa_complete := nc\<rparr>) = Inr h"
    unfolding make_topology_def rbind_eq_Inr accepted_options bool_of_Inr enum_of_Inr ensure_eq_Inr by blast
  have "nc \<longrightarrow> numa_consistent (hc_allowed g) nodes = Inr ()" using f(12) by (cases nc) simp_all
  then show ?b
    using f(1-11) limited_float_ok [OF f(3)] h [unfolded sum.inject, symmetric]
    by (simp add: topology_ok_def numa_consistent_sort)
next
  assume b: ?b
  from b have q: "topology_ok h" "distinct (map nn_id nodes)" "hc_numa h = sort_key nn_id nodes" "hc_allowed g = hc_allowed h"
    by blast+
  have n: "(if hc_numa_complete h then numa_consistent (hc_allowed g) nodes else Inr ()) = Inr ()"
    using q by (simp add: topology_ok_def numa_consistent_sort)
  have t: "hc_quota_status h \<in> set limit_states" "pos_ok (hc_cores h)" "pos_ok (hc_smt h)"
    "hc_topology_complete h \<longrightarrow> hc_cores h \<noteq> None \<and> hc_smt h \<noteq> None"
    using q(1) by (simp_all add: topology_ok_def)
  from b have e: "Inr (g\<lparr>hc_quota_status := hc_quota_status h, hc_quota_equivalents := hc_quota_equivalents h, hc_quotas := quotas,
       hc_cores := hc_cores h, hc_smt := hc_smt h, hc_topology_complete := hc_topology_complete h,
       hc_numa := sort_key nn_id nodes, hc_numa_complete := hc_numa_complete h\<rparr>) = Inr h"
    by (elim conjE) metis
  show ?a
    using b unfolding make_topology_def rbind_eq_Inr accepted_options bool_of_Inr enum_of_Inr ensure_eq_Inr
    by (intro exI conjI) (rule n t q e | (elim conjE, assumption))+
qed

definition limits_ok :: "host_capabilities \<Rightarrow> bool" where
  "limits_ok h \<longleftrightarrow> pos_ok (hc_physical_memory h) \<and> hc_memory_status h \<in> set limit_states \<and>
     limit_int_ok (hc_memory_status h) (hc_memory_limit h) \<and> nat_ok (hc_effective_memory h) \<and>
     list_all safe_text (hc_accelerators h) \<and> distinct (hc_accelerators h) \<and> sorted (hc_accelerators h)"

lemma make_limits_Inr:
  "make_limits kw mems accs g = Inr h \<longleftrightarrow>
     get_value kw ''physical_memory_bytes'' = opt_int (hc_physical_memory h) \<and>
     get_value kw ''cgroup_memory_status'' = PStr (hc_memory_status h) \<and>
     get_value kw ''cgroup_memory_limit_bytes'' = opt_int (hc_memory_limit h) \<and>
     get_value kw ''effective_memory_limit_bytes'' = opt_int (hc_effective_memory h) \<and> hc_memory_limits h = mems \<and>
     get_value kw ''accelerator_detection_complete'' = PBool (hc_accelerator_complete h) \<and>
     (\<exists>xs. accs = map PStr xs \<and> list_all safe_text xs \<and> distinct xs \<and> hc_accelerators h = sort xs) \<and> limits_ok h \<and>
     h = g\<lparr>hc_physical_memory := hc_physical_memory h, hc_memory_status := hc_memory_status h,
       hc_memory_limit := hc_memory_limit h, hc_effective_memory := hc_effective_memory h,
       hc_memory_limits := hc_memory_limits h, hc_accelerator_complete := hc_accelerator_complete h,
       hc_accelerators := hc_accelerators h\<rparr>"
  (is "?a \<longleftrightarrow> ?b")
proof
  assume ?a
  then show ?b
    by (auto simp: make_limits_def limits_ok_def rbind_eq_Inr accepted_options bool_of_Inr enum_of_Inr rmap_ids limited_int_Inr list_all_iff)
next
  assume b: ?b
  then obtain xs where xs: "accs = map PStr xs" "list_all safe_text xs" "distinct xs" "hc_accelerators h = sort xs"
    by blast
  from b have "limits_ok h" by (elim conjE)
  then have t: "pos_ok (hc_physical_memory h)" "hc_memory_status h \<in> set limit_states"
     "limit_int_ok (hc_memory_status h) (hc_memory_limit h)" "nat_ok (hc_effective_memory h)"
    by (simp_all add: limits_ok_def)
  from b have e: "Inr (g\<lparr>hc_physical_memory := hc_physical_memory h, hc_memory_status := hc_memory_status h,
       hc_memory_limit := hc_memory_limit h, hc_effective_memory := hc_effective_memory h,
       hc_memory_limits := mems, hc_accelerator_complete := hc_accelerator_complete h,
       hc_accelerators := sort xs\<rparr>) = Inr h"
    using xs(4) by (elim conjE) metis
  show ?a
    using b unfolding make_limits_def rbind_eq_Inr accepted_options bool_of_Inr enum_of_Inr ensure_eq_Inr rmap_ids limited_int_Inr
    by (intro exI conjI) (rule xs t e | (elim conjE, assumption))+
qed


text \<open>What the three stages of the constructor leave alone.\<close>

lemma make_identity_frame:
  assumes "make_identity kw g = Inr h"
  shows "hc_provider h = hc_provider g" "hc_platform h = hc_platform g" "hc_architecture h = hc_architecture g"
    "hc_visible h = hc_visible g" "hc_affinity h = hc_affinity g" "hc_cpuset h = hc_cpuset g" "hc_allowed h = hc_allowed g"
  using assms by (auto simp: make_identity_def rbind_eq_Inr)

lemma make_topology_frame:
  assumes "make_topology kw quotas nodes g = Inr h"
  shows "hc_provider h = hc_provider g" "hc_platform h = hc_platform g" "hc_architecture h = hc_architecture g"
    "hc_visible h = hc_visible g" "hc_affinity h = hc_affinity g" "hc_cpuset h = hc_cpuset g" "hc_allowed h = hc_allowed g"
    "hc_vendor h = hc_vendor g" "hc_model_name h = hc_model_name g" "hc_microcode h = hc_microcode g"
    "hc_family h = hc_family g" "hc_model h = hc_model g" "hc_stepping h = hc_stepping g" "hc_flags h = hc_flags g"
    "hc_feature_digest h = hc_feature_digest g" "hc_identity_complete h = hc_identity_complete g"
  using assms by (auto simp: make_topology_def rbind_eq_Inr)

lemma make_limits_frame:
  assumes "make_limits kw mems accs g = Inr h"
  shows "hc_provider h = hc_provider g" "hc_platform h = hc_platform g" "hc_architecture h = hc_architecture g"
    "hc_visible h = hc_visible g" "hc_affinity h = hc_affinity g" "hc_cpuset h = hc_cpuset g" "hc_allowed h = hc_allowed g"
    "hc_vendor h = hc_vendor g" "hc_model_name h = hc_model_name g" "hc_microcode h = hc_microcode g"
    "hc_family h = hc_family g" "hc_model h = hc_model g" "hc_stepping h = hc_stepping g" "hc_flags h = hc_flags g"
    "hc_feature_digest h = hc_feature_digest g" "hc_identity_complete h = hc_identity_complete g"
    "hc_quota_status h = hc_quota_status g" "hc_quota_equivalents h = hc_quota_equivalents g" "hc_quotas h = hc_quotas g"
    "hc_cores h = hc_cores g" "hc_smt h = hc_smt g" "hc_topology_complete h = hc_topology_complete g"
    "hc_numa h = hc_numa g" "hc_numa_complete h = hc_numa_complete g"
  using assms by (auto simp: make_limits_def rbind_eq_Inr)

lemma make_capabilities_Inr:
  assumes "make_capabilities kw quotas nodes mems accs = Inr h"
  obtains g h1 h2 h3 faults where
    "get_value kw ''version'' = PStr capabilities_version"
    "get_value kw ''provider_id'' = PStr (hc_provider g)" "safe_text (hc_provider g)"
    "get_value kw ''platform'' = PStr (hc_platform g)" "safe_text (hc_platform g)"
    "get_value kw ''architecture'' = PStr (hc_architecture g)" "safe_text (hc_architecture g)"
    "get_value kw ''os_visible_logical_cpus'' = opt_int (hc_visible g)" "pos_ok (hc_visible g)"
    "cpu_tuple (get_value kw ''affinity_cpus'') ''affinity_cpus'' = Inr (hc_affinity g)"
    "cpu_tuple (get_value kw ''cgroup_cpuset_effective'') ''cgroup_cpuset_effective'' = Inr (hc_cpuset g)"
    "cpu_tuple (get_value kw ''allowed_cpus'') ''allowed_cpus'' = Inr (hc_allowed g)"
    "g = blank_capabilities\<lparr>hc_provider := hc_provider g, hc_platform := hc_platform g, hc_architecture := hc_architecture g,
       hc_visible := hc_visible g, hc_affinity := hc_affinity g, hc_cpuset := hc_cpuset g, hc_allowed := hc_allowed g\<rparr>"
    "make_identity kw g = Inr h1" "make_topology kw quotas nodes h1 = Inr h2" "make_limits kw mems accs h2 = Inr h3"
    "get_value kw ''capacity_complete'' = PBool (capacity_facts h3)"
    "get_value kw ''qualification_domain_complete'' = PBool (capacity_facts h3 \<and> hc_identity_complete h3)"
    "fault_tuple (get_value kw ''faults'') ''host faults'' = Inr faults"
    "h = h3\<lparr>hc_capacity_complete := capacity_facts h3, hc_domain_complete := capacity_facts h3 \<and> hc_identity_complete h3,
       hc_faults := faults\<rparr>"
proof -
  obtain provider platform architecture visible affinity cpuset allowed h1 h2 h3 cc dc faults where
    f: "get_value kw ''version'' = PStr capabilities_version"
    "get_value kw ''provider_id'' = PStr provider" "safe_text provider"
    "get_value kw ''platform'' = PStr platform" "safe_text platform"
    "get_value kw ''architecture'' = PStr architecture" "safe_text architecture"
    "get_value kw ''os_visible_logical_cpus'' = opt_int visible" "pos_ok visible"
    "cpu_tuple (get_value kw ''affinity_cpus'') ''affinity_cpus'' = Inr affinity"
    "cpu_tuple (get_value kw ''cgroup_cpuset_effective'') ''cgroup_cpuset_effective'' = Inr cpuset"
    "cpu_tuple (get_value kw ''allowed_cpus'') ''allowed_cpus'' = Inr allowed"
    "make_identity kw (blank_capabilities\<lparr>hc_provider := provider, hc_platform := platform,
       hc_architecture := architecture, hc_visible := visible, hc_affinity := affinity, hc_cpuset := cpuset,
       hc_allowed := allowed\<rparr>) = Inr h1"
    "make_topology kw quotas nodes h1 = Inr h2" "make_limits kw mems accs h2 = Inr h3"
    "get_value kw ''capacity_complete'' = PBool cc" "cc = capacity_facts h3"
    "get_value kw ''qualification_domain_complete'' = PBool dc" "dc = (cc \<and> hc_identity_complete h3)"
    "fault_tuple (get_value kw ''faults'') ''host faults'' = Inr faults"
    "Inr (h3\<lparr>hc_capacity_complete := cc, hc_domain_complete := dc, hc_faults := faults\<rparr>) = Inr h"
    using assms unfolding make_capabilities_def rbind_eq_Inr accepted_options safe_id_Inr bool_of_Inr ensure_eq_Inr by blast
  show thesis
    by (rule that [of "blank_capabilities\<lparr>hc_provider := provider, hc_platform := platform,
       hc_architecture := architecture, hc_visible := visible, hc_affinity := affinity, hc_cpuset := cpuset,
       hc_allowed := allowed\<rparr>" h1 h2 h3 faults]) (use f in simp_all)
qed


text \<open>A capabilities record is a fixed point of its constructor.\<close>

lemma cpu_tuple_back: "cpu_tuple v l = Inr x \<Longrightarrow> cpu_tuple (opt_ints x) l = Inr x"
  by (simp add: cpu_tuple_Inr)

lemma capabilities_fixed:
  assumes "make_capabilities kw quotas nodes mems accs = Inr h"
  shows "make_capabilities (capabilities_fields h) quotas (hc_numa h) mems (map PStr (hc_accelerators h)) = Inr h"
    and "hc_quotas h = quotas" and "hc_memory_limits h = mems" and "set (hc_numa h) \<subseteq> set nodes"
proof -
  obtain g h1 h2 h3 faults where
    f: "safe_text (hc_provider g)" "safe_text (hc_platform g)" "safe_text (hc_architecture g)" "pos_ok (hc_visible g)"
    "cpu_tuple (get_value kw ''affinity_cpus'') ''affinity_cpus'' = Inr (hc_affinity g)"
    "cpu_tuple (get_value kw ''cgroup_cpuset_effective'') ''cgroup_cpuset_effective'' = Inr (hc_cpuset g)"
    "cpu_tuple (get_value kw ''allowed_cpus'') ''allowed_cpus'' = Inr (hc_allowed g)"
    and g: "g = blank_capabilities\<lparr>hc_provider := hc_provider g, hc_platform := hc_platform g, hc_architecture := hc_architecture g,
       hc_visible := hc_visible g, hc_affinity := hc_affinity g, hc_cpuset := hc_cpuset g, hc_allowed := hc_allowed g\<rparr>"
    and s1: "make_identity kw g = Inr h1" and s2: "make_topology kw quotas nodes h1 = Inr h2"
    and s3: "make_limits kw mems accs h2 = Inr h3"
    and faults: "fault_tuple (get_value kw ''faults'') ''host faults'' = Inr faults"
    and h: "h = h3\<lparr>hc_capacity_complete := capacity_facts h3, hc_domain_complete := capacity_facts h3 \<and> hc_identity_complete h3,
       hc_faults := faults\<rparr>"
    using assms by (rule make_capabilities_Inr)
  note fr = make_identity_frame [OF s1] make_topology_frame [OF s2] make_limits_frame [OF s3]
  note e1 = s1 [unfolded make_identity_Inr] and e2 = s2 [unfolded make_topology_Inr] and e3 = s3 [unfolded make_limits_Inr]
  have ids: "identity_ok h1" and tops: "topology_ok h2" and lims: "limits_ok h3"
    using e1 e2 e3 by blast+
  have l1: "h1 = g\<lparr>hc_vendor := hc_vendor h1, hc_model_name := hc_model_name h1, hc_microcode := hc_microcode h1,
       hc_family := hc_family h1, hc_model := hc_model h1, hc_stepping := hc_stepping h1, hc_flags := hc_flags h1,
       hc_feature_digest := hc_feature_digest h1, hc_identity_complete := hc_identity_complete h1\<rparr>"
    using e1 by (elim conjE)
  have l2: "h2 = h1\<lparr>hc_quota_status := hc_quota_status h2, hc_quota_equivalents := hc_quota_equivalents h2, hc_quotas := hc_quotas h2,
       hc_cores := hc_cores h2, hc_smt := hc_smt h2, hc_topology_complete := hc_topology_complete h2, hc_numa := hc_numa h2,
       hc_numa_complete := hc_numa_complete h2\<rparr>"
    using e2 by (elim conjE)
  have l3: "h3 = h2\<lparr>hc_physical_memory := hc_physical_memory h3, hc_memory_status := hc_memory_status h3,
       hc_memory_limit := hc_memory_limit h3, hc_effective_memory := hc_effective_memory h3,
       hc_memory_limits := hc_memory_limits h3, hc_accelerator_complete := hc_accelerator_complete h3,
       hc_accelerators := hc_accelerators h3\<rparr>"
    using e3 by (elim conjE)
  have t1: "make_identity (capabilities_fields h) g = Inr h1"
    unfolding make_identity_Inr by (intro conjI) (rule ids l1 | simp add: capabilities_fields_def h fr)+
  have n: "distinct (map nn_id (hc_numa h))" "sort_key nn_id (hc_numa h) = hc_numa h2"
    using tops by (simp_all add: topology_ok_def h fr sort_key_id_if_sorted)
  have lf: "limited_float (hc_quota_status h2) (opt_float (hc_quota_equivalents h2)) = Inr (hc_quota_equivalents h2)"
    using e2 by (elim conjE) (rule limited_float_back)
  have q: "hc_quotas h2 = quotas" and m: "hc_memory_limits h3 = mems" using e2 e3 by blast+
  have t2: "make_topology (capabilities_fields h) quotas (hc_numa h) h1 = Inr h2"
    unfolding make_topology_Inr by (intro conjI) (rule tops n q l2 n(2) [symmetric] | simp add: capabilities_fields_def h fr lf)+
  have a: "\<exists>xs. map PStr (hc_accelerators h) = map PStr xs \<and> list_all safe_text xs \<and> distinct xs \<and> hc_accelerators h3 = sort xs"
    using lims by (intro exI [of _ "hc_accelerators h3"]) (simp add: limits_ok_def h sorted_sort_id)
  have t3: "make_limits (capabilities_fields h) mems (map PStr (hc_accelerators h)) h2 = Inr h3"
    unfolding make_limits_Inr by (intro conjI) (rule lims a m l3 | simp add: capabilities_fields_def h fr)+
  show "hc_quotas h = quotas" "hc_memory_limits h = mems" using q m by (simp_all add: h fr)
  show "set (hc_numa h) \<subseteq> set nodes" using e2 by (simp add: h fr)
  have fl: "fault_tuple (PList (map PStr faults)) ''host faults'' = Inr faults"
    using faults by (simp add: fault_tuple_Inr)
  have hf: "get_value (capabilities_fields h) ''version'' = PStr capabilities_version"
    "get_value (capabilities_fields h) ''provider_id'' = PStr (hc_provider g)"
    "get_value (capabilities_fields h) ''platform'' = PStr (hc_platform g)"
    "get_value (capabilities_fields h) ''architecture'' = PStr (hc_architecture g)"
    "get_value (capabilities_fields h) ''os_visible_logical_cpus'' = opt_int (hc_visible g)"
    "get_value (capabilities_fields h) ''affinity_cpus'' = opt_ints (hc_affinity g)"
    "get_value (capabilities_fields h) ''cgroup_cpuset_effective'' = opt_ints (hc_cpuset g)"
    "get_value (capabilities_fields h) ''allowed_cpus'' = opt_ints (hc_allowed g)"
    "get_value (capabilities_fields h) ''capacity_complete'' = PBool (capacity_facts h3)"
    "get_value (capabilities_fields h) ''qualification_domain_complete'' = PBool (capacity_facts h3 \<and> hc_identity_complete h3)"
    "get_value (capabilities_fields h) ''faults'' = PList (map PStr faults)"
    by (simp_all add: capabilities_fields_def h fr)
  show "make_capabilities (capabilities_fields h) quotas (hc_numa h) mems (map PStr (hc_accelerators h)) = Inr h"
    using f(1-4) g t1 t2 t3 fl
    by (simp add: make_capabilities_def hf rbind_eq_Inr accepted_options safe_id_Inr bool_of_Inr
        cpu_tuple_back [OF f(5)] cpu_tuple_back [OF f(6)] cpu_tuple_back [OF f(7)] flip: g h)
qed


lemma make_capabilities_cong:
  assumes "\<And>k. get_value kw k = get_value kw' k"
  shows "make_capabilities kw qs ns ms accs = make_capabilities kw' qs ns ms accs"
  by (simp add: make_capabilities_def make_identity_def make_topology_def make_limits_def assms)

lemma get_value_same: "get_value d k = v \<Longrightarrow> get_value ((k, v) # d) j = get_value d j"
  by simp

lemma rmap_read_back:
  assumes "rmap f vs = Inr xs" "\<And>v x. f v = Inr x \<Longrightarrow> f (g x) = Inr x" "set ys \<subseteq> set xs"
  shows "rmap f (map g ys) = Inr ys"
  using rmap_mem [OF assms(1)] assms(2,3) by (intro rmap_fixed) blast

lemma read_capabilities_back: "read_capabilities v = Inr h \<Longrightarrow> read_capabilities (capabilities_dict h) = Inr h"
proof -
  assume "read_capabilities v = Inr h"
  then obtain kw quotas nodes mems qs ns ms accs where
    r: "rmap read_quota quotas = Inr qs" "rmap read_node nodes = Inr ns" "rmap read_memory mems = Inr ms"
    and m: "make_capabilities kw qs ns ms accs = Inr h"
    by (auto simp: read_capabilities_def rbind_eq_Inr)
  note c = capabilities_fixed [OF m]
  have r': "rmap read_quota (map quota_dict (hc_quotas h)) = Inr (hc_quotas h)"
    "rmap read_node (map node_dict (hc_numa h)) = Inr (hc_numa h)"
    "rmap read_memory (map memory_dict (hc_memory_limits h)) = Inr (hc_memory_limits h)"
    using rmap_read_back [OF r(1) read_quota_back] rmap_read_back [OF r(2) read_node_back]
      rmap_read_back [OF r(3) read_memory_back] c(2-4) by simp_all
  define d where "d = capabilities_fields h"
  define flags faults where "flags = map PStr (hc_flags h)" and "faults = map PStr (hc_faults h)"
  have k: "make_capabilities ([(''affinity_cpus'', opt_ints (hc_affinity h)), (''cgroup_cpuset_effective'', opt_ints (hc_cpuset h)),
      (''allowed_cpus'', opt_ints (hc_allowed h)), (''cpu_flags_intersection'', PList flags), (''faults'', PList faults)] @ d)
      (hc_quotas h) (hc_numa h) (hc_memory_limits h) (map PStr (hc_accelerators h)) = Inr h"
  proof -
    have "make_capabilities ([(''affinity_cpus'', opt_ints (hc_affinity h)), (''cgroup_cpuset_effective'', opt_ints (hc_cpuset h)),
      (''allowed_cpus'', opt_ints (hc_allowed h)), (''cpu_flags_intersection'', PList flags), (''faults'', PList faults)] @ d)
      (hc_quotas h) (hc_numa h) (hc_memory_limits h) (map PStr (hc_accelerators h))
      = make_capabilities d (hc_quotas h) (hc_numa h) (hc_memory_limits h) (map PStr (hc_accelerators h))"
      by (rule make_capabilities_cong) (auto simp: d_def flags_def faults_def capabilities_fields_def)
    with c(1-3) show ?thesis by (simp add: d_def)
  qed
  have g: "get_value d ''schema_version'' = schema_version" "get_value d ''authority'' = marker ''resource_context''"
    "get_or d ''cpu_quota_observations'' (PList []) = PList (map quota_dict (hc_quotas h))"
    "get_or d ''memory_limit_observations'' (PList []) = PList (map memory_dict (hc_memory_limits h))"
    "get_or d ''numa_nodes'' (PList []) = PList (map node_dict (hc_numa h))"
    "get_or d ''cpu_flags_intersection'' (PList []) = PList flags"
    "get_or d ''accelerators'' (PList []) = PList (map PStr (hc_accelerators h))" "get_or d ''faults'' (PList []) = PList faults"
    "get_value d ''affinity_cpus'' = opt_ints (hc_affinity h)" "get_value d ''cgroup_cpuset_effective'' = opt_ints (hc_cpuset h)"
    "get_value d ''allowed_cpus'' = opt_ints (hc_allowed h)"
    "set (dict_keys d) \<subseteq> set capabilities_keys"
    by (simp_all add: d_def flags_def faults_def capabilities_fields_def capabilities_keys_def)
  have u: "reject_unknown d capabilities_keys ''host capabilities'' = Inr ()"
    using g(12) by (simp add: reject_unknown_def)
  have t: "tuple_of (opt_ints x) = Inr (opt_ints x)" for x by (cases x) (simp_all add: tuple_of_def)
  show ?thesis
    using k by (simp add: read_capabilities_def capabilities_dict_def mapping_def list_of_def t u r' g flip: d_def)
qed

end
