(* ===== verification/Spec2Isabelle.thy ===== *)
theory Spec2Isabelle
  imports PrefixDispatch PrefixShards Routes ClockSearch Telemetry RefinePolicy DecisionLaws AuxLaws EpochLaws ProposalLaws WorkLaws HostLaws
begin

text \<open>
  A verification development of AllfatherChess, a chess controller in Python that lets three
  engines search disjoint parts of the root moves under one clock and one resource envelope,
  and plays on Lichess through a guarded bridge.

  \<^bold>\<open>Parts and how they interact.\<close>
  The UCI front end parses \<^verbatim>\<open>position\<close> and \<^verbatim>\<open>go\<close> commands.  A controller-owned ledger
  divides the root moves among the engines (\<^verbatim>\<open>controller/shards.py\<close>), or recursively the
  continuations below them (\<^verbatim>\<open>controller/prefix_shards.py\<close>); each engine receives the UCI request
  compiled from its shard (\<^verbatim>\<open>common/prefix_dispatch.py\<close>).  Every search is paid for in a budget
  ledger (\<^verbatim>\<open>controller/budget.py\<close>) below the time plan of the move
  (\<^verbatim>\<open>controller/online_time.py\<close>), and reports through a telemetry stream
  (\<^verbatim>\<open>common/telemetry.py\<close>): an adapter per engine translates its lines into events
  (\<^verbatim>\<open>adapters/telemetry/\<close>) and a writer thread of \<^verbatim>\<open>controller/replay.py\<close> records them.
  Independent verification (\<^verbatim>\<open>controller/verification.py\<close>) and refinement
  (\<^verbatim>\<open>controller/refinement.py\<close>) search again below a shard; deeper zooms are nominated by
  \<^verbatim>\<open>controller/refinement_policy.py\<close>.  What these runs report is one typed view
  (\<^verbatim>\<open>controller/crossfeed.py\<close>), the evidence of a proposal that a gate authorizes or refuses
  (\<^verbatim>\<open>controller/decision.py\<close>).  The strength mode pairs an incumbent with auxiliary searches
  (\<^verbatim>\<open>controller/strength/\<close>).  On the Lichess side the bridge sends a move only through
  a guarded transport (\<^verbatim>\<open>deploy/lichess/guarded_transport.py\<close>) that records intents in a durable
  journal (\<^verbatim>\<open>move_journal.py\<close>, \<^verbatim>\<open>reconcile.py\<close>), and a gateway process that owns the token
  admits only the requests of one game (\<^verbatim>\<open>live_gateway_policy.py\<close>, \<^verbatim>\<open>live_gateway_state.py\<close>).

  \<^bold>\<open>Theories.\<close>
  \<^item> \<open>Prelude\<close>: results as \<open>error + value\<close> with \<open>rbind\<close>, \<open>ensure\<close>, \<open>rfold\<close>, \<open>rmap\<close>, \<open>rcheck\<close>;
    dictionaries as association lists; the locales \<open>machine\<close>, \<open>transactional\<close>, \<open>growing\<close> and
    \<open>contract\<close> that state what every operation of a component promises, with the lemmas on runs.
  \<^item> \<open>PyString\<close>, \<open>PyVal\<close>, \<open>PyFloat\<close>, \<open>PyAmount\<close>, \<open>PyJson\<close>, \<open>Sha256\<close>: what the code uses of the
    language: text operations, dynamically typed values, binary64 arithmetic, canonical JSON text,
    the digest.  \<open>PyJson\<close> shows that the canonical text of a value without floats determines it.
  \<^item> \<open>SearchRequest\<close> (\<^verbatim>\<open>common/search_request.py\<close>) and \<open>PrefixDispatch\<close>: parsing and printing
    are inverse, and a compiled dispatch restricts the search to the shard.
  \<^item> \<open>RootShards\<close> and \<open>PrefixShards\<close>: the state of a ledger is a record, each public method
    a function from state to state and result, a \<open>step\<close> function runs any of them.  The lemmas
    show the invariant, that regions of different owners are disjoint, that every root is
    covered, the refinement of an abstract frontier and the termination of the traversal.
  \<^item> \<open>Budget\<close>: envelope and ledger; every charge is bounded by the envelope and the journal
    reproduces the state.
  \<^item> \<open>TimePlan\<close> and \<open>ClockSearch\<close>: the plan of a move is bounded by the clock; the search under a
    clock is an inductive step relation of the front end, the watch thread and time.
  \<^item> \<open>Telemetry\<close> and \<open>RefinePolicy\<close>: streams are valid and ordered; nominations depend only on
    the set of rows.
  \<^item> \<open>UciAdapter\<close> and \<open>UciLaws\<close>: the engine adapters; they drive the telemetry stream only through
    its operations, and the text of every engine line is kept in some event.
    \<open>StreamWriter\<close> and \<open>StreamLaws\<close>: the writer of a replay as interleaved steps of publishers,
    thread and closing; its live view is the translation of what it has taken.
  \<^item> \<open>VerifyRun\<close>, \<open>RefineRun\<close>, \<open>RunLaws\<close>: the plans and the runs; the partition of the children is
    exact and a run records each target at most once.
  \<^item> \<open>CrossFeed\<close>, \<open>FeedLaws\<close>, \<open>ProposalLaws\<close>: hints, view and decision evidence; a proposal made of
    the runs rests on what the runs recorded.
  \<^item> \<open>Decision\<close>, \<open>DecisionLaws\<close>: policy, gate, selection, revocation and the counterfactual; an
    outward move other than the anchor's needs every check of the gate.
  \<^item> \<open>Strength\<close>, \<open>EpochLaws\<close>: reports, pair frames and the epoch tracker; \<open>AuxScheduler\<close>,
    \<open>AuxLaws\<close>: tasks paid from the budget ledger.
  \<^item> \<open>Journal\<close>, \<open>Transport\<close>: at most one request for a move leaves per ply, whatever
    the interleaving of calls, responses, other processes and owner changes.
  \<^item> \<open>Gateway\<close>, \<open>Routes\<close>: the state of the gateway only grows and forwards only what the journal
    has submitted; the ingress grammar accepts exactly the listed routes.

  \<^bold>\<open>Conventions.\<close>
  A raise is a value \<open>Inl e\<close>; an operation returns the state that it leaves behind with its result.
  A lock-protected method or a database transaction is one atomic step.  Parameters
  annotated with a type have the corresponding HOL type; a parameter that the code tests with
  \<^verbatim>\<open>isinstance\<close> before use is a \<open>pyval\<close>.  Text consists of code points below 256.

  \<^bold>\<open>Bounds and fuel.\<close>
  Floats are rationals with round-to-nearest-even, overflow to infinity and NaN, without a signed
  zero.  Budget amounts in the exactness lemmas lie on the grid of \<open>2^-20\<close> milliseconds up to
  \<open>2^32\<close>, where sums of doubles are exact.  No operation needs fuel: loops are structural
  or have a measure; the search for the first decimal digit of a float takes at most 330 steps,
  enough for the least double.

  \<^bold>\<open>Parameters.\<close>
  python-chess, the response of a server, files (and the success of a write), clocks, the lease
  verdict and \<^verbatim>\<open>json.loads\<close> are arguments of the definitions that use them.

  \<^bold>\<open>Not modelled.\<close>
  Process, thread and pipe handling (\<^verbatim>\<open>runtime.py\<close>, \<^verbatim>\<open>shadow.py\<close>, \<^verbatim>\<open>uci_frontend.py\<close>, the
  process and resource adapters), because every branch there depends on operating-system
  behaviour; the manifest files of verification, refinement, cross-feed and replay and
  their audits; the offline calibration and analysis; the vendored engines.
\<close>

end
